(* ===== verification/Prelude.thy ===== *)
theory Prelude
  imports Main "HOL-Library.Word" "HOL-Library.Product_Lexorder"
begin

text \<open>
  Shared vocabulary of the development: the errors the Python code raises, the two result
  types of its operations, lists searched and updated the way the code does it
  (\<^verbatim>\<open>next((x for x in xs if ...), None)\<close> and \<^verbatim>\<open>xs[xs.index(old)] = new\<close>), Python's
  \<^verbatim>\<open>min(..., key=...)\<close>, and the lemmas about them that the component proofs use.
\<close>

section \<open>Collections of facts\<close>

named_theorems store_defs \<open>definitions of the store operations\<close>
named_theorems step_intros \<open>introduction rules for invariants of one step\<close>

section \<open>Scalars\<close>

text \<open>A timezone-aware \<^verbatim>\<open>datetime\<close> is its number of microseconds since the epoch.\<close>

type_synonym datetime = int

definition seconds :: "int \<Rightarrow> int" where
  "seconds n = n * 1000000"

text \<open>A UUID is its 128-bit integer, which is also the order Python compares UUIDs by.\<close>

type_synonym uuid = "128 word"

section \<open>Lookup and replacement in lists\<close>

definition find_by :: "('a \<Rightarrow> 'k) \<Rightarrow> 'k \<Rightarrow> 'a list \<Rightarrow> 'a option" where
  "find_by key k xs = find (\<lambda>x. key x = k) xs"

fun replace_first :: "'a \<Rightarrow> 'a \<Rightarrow> 'a list \<Rightarrow> 'a list" where
  "replace_first old new [] = []"
| "replace_first old new (x # xs) =
     (if x = old then new # xs else x # replace_first old new xs)"

lemma find_by_Nil [simp]: "find_by key k [] = None"
  by (simp add: find_by_def)

lemma find_by_Cons [simp]:
  "find_by key k (x # xs) = (if key x = k then Some x else find_by key k xs)"
  by (simp add: find_by_def)

lemma find_by_SomeD: "find_by key k xs = Some x \<Longrightarrow> x \<in> set xs \<and> key x = k"
  by (induction xs) (auto split: if_splits)

lemma find_by_None: "find_by key k xs = None \<longleftrightarrow> k \<notin> key ` set xs"
  by (induction xs) auto

lemma find_by_append:
  "find_by key k (xs @ ys) = (case find_by key k xs of None \<Rightarrow> find_by key k ys | Some x \<Rightarrow> Some x)"
  by (induction xs) auto

lemma find_by_distinct:
  "distinct (map key xs) \<Longrightarrow> x \<in> set xs \<Longrightarrow> find_by key (key x) xs = Some x"
  by (induction xs) force+

lemma find_by_distinct_iff:
  "distinct (map key xs) \<Longrightarrow> find_by key k xs = Some x \<longleftrightarrow> x \<in> set xs \<and> key x = k"
  by (auto dest: find_by_SomeD find_by_distinct)

lemma length_replace_first [simp]: "length (replace_first old new xs) = length xs"
  by (induction xs) auto

lemma map_replace_first:
  "f new = f old \<Longrightarrow> map f (replace_first old new xs) = map f xs"
  by (induction xs) auto

lemma replace_first_notin [simp]: "old \<notin> set xs \<Longrightarrow> replace_first old new xs = xs"
  by (induction xs) auto

lemma set_replace_first:
  assumes "distinct xs" and "old \<in> set xs"
  shows "set (replace_first old new xs) = insert new (set xs - {old})"
  using assms by (induction xs) auto

lemma set_replace_first_subset: "set (replace_first old new xs) \<subseteq> insert new (set xs)"
  by (induction xs) auto

lemma replace_first_mem: "old \<in> set xs \<Longrightarrow> new \<in> set (replace_first old new xs)"
  by (induction xs) auto

lemma distinct_map_distinct: "distinct (map f xs) \<Longrightarrow> distinct xs"
  by (simp add: distinct_map)

lemma find_by_replace_first:
  assumes "find_by key (key old) xs = Some old" and "key new = key old"
  shows "find_by key k (replace_first old new xs) =
    (if k = key old then Some new else find_by key k xs)"
  using assms by (induction xs) (auto split: if_splits)

lemma replace_first_same [simp]: "replace_first x x xs = xs"
  by (induction xs) auto

lemma set_replace_keyed:
  assumes "distinct (map key xs)" and "find_by key (key old) xs = Some old" and "key new = key old"
  shows "set (replace_first old new xs) = insert new {x \<in> set xs. key x \<noteq> key old}"
proof -
  have old: "old \<in> set xs" using assms(2) by (auto dest: find_by_SomeD)
  have "set (replace_first old new xs) = insert new (set xs - {old})"
    by (rule set_replace_first [OF distinct_map_distinct [OF assms(1)] old])
  also have "set xs - {old} = {x \<in> set xs. key x \<noteq> key old}"
    using assms(1) old by (auto simp: distinct_map dest: inj_onD)
  finally show ?thesis .
qed

lemma length_filter_replace_first:
  "old \<in> set xs \<Longrightarrow>
   length (filter P (replace_first old new xs)) + of_bool (P old) = length (filter P xs) + of_bool (P new)"
  by (induction xs) auto

lemma filter_replace_first_drop:
  "P old \<Longrightarrow> \<not> P new \<Longrightarrow> filter P (replace_first old new xs) = remove1 old (filter P xs)"
  by (induction xs) auto

lemma filter_replace_first_keep:
  "P old \<Longrightarrow> P new \<Longrightarrow> filter P (replace_first old new xs) = replace_first old new (filter P xs)"
  by (induction xs) auto

lemma filter_replace_first_neither:
  "\<not> P old \<Longrightarrow> \<not> P new \<Longrightarrow> filter P (replace_first old new xs) = filter P xs"
  by (induction xs) auto

lemma distinct_map_replace_first:
  assumes "distinct (map f xs)" and "f new \<notin> f ` (set xs - {old})"
  shows "distinct (map f (replace_first old new xs))"
  using assms
proof (induction xs)
  case (Cons x xs)
  show ?case
  proof (cases "x = old")
    case True
    then have "old \<notin> set xs" using Cons.prems(1) by (auto intro: rev_image_eqI)
    with True Cons.prems show ?thesis by auto
  next
    case False
    have "distinct (map f (replace_first old new xs))" using Cons False by auto
    moreover have "f x \<notin> f ` set (replace_first old new xs)"
    proof -
      have "x \<in> set (x # xs) - {old}" using False by simp
      then have "f x \<noteq> f new" using Cons.prems(2) imageI [of x _ f] by metis
      moreover have "f x \<notin> f ` set xs" using Cons.prems(1) by auto
      ultimately show ?thesis by (auto dest!: set_replace_first_subset [THEN subsetD])
    qed
    ultimately show ?thesis using False by simp
  qed
qed simp

lemma distinct_map_remove1: "distinct (map f xs) \<Longrightarrow> distinct (map f (remove1 x xs))"
  by (auto simp: distinct_map set_remove1_eq intro: inj_on_subset)

lemma find_by_remove1:
  assumes "distinct (map key xs)" and "find_by key (key x) xs = Some x"
  shows "find_by key k (remove1 x xs) = (if k = key x then None else find_by key k xs)"
  using assms
proof (induction xs)
  case (Cons y ys)
  then show ?case by (auto simp: find_by_None split: if_splits)
qed simp

text \<open>
  A table is a list of records addressed by a key. Its interface is lookup, replacement of the
  record found under a key, and insertion of a record with a fresh key.
\<close>

locale keyed_table =
  fixes key :: "'r \<Rightarrow> 'k"
begin

lemma lookup_update:
  "find_by key (key old) xs = Some old \<Longrightarrow> key new = key old \<Longrightarrow>
   find_by key k (replace_first old new xs) = (if k = key old then Some new else find_by key k xs)"
  by (rule find_by_replace_first)

lemma members_update:
  "distinct (map key xs) \<Longrightarrow> find_by key (key old) xs = Some old \<Longrightarrow> key new = key old \<Longrightarrow>
   x \<in> set (replace_first old new xs) \<longleftrightarrow> x = new \<or> (x \<in> set xs \<and> key x \<noteq> key old)"
  by (simp add: set_replace_keyed)

lemma keys_update: "key new = key old \<Longrightarrow> map key (replace_first old new xs) = map key xs"
  by (rule map_replace_first)

lemma lookup_insert:
  "key x \<notin> key ` set xs \<Longrightarrow>
   find_by key k (xs @ [x]) = (if k = key x then Some x else find_by key k xs)"
  by (induction xs) auto

lemma lookup_member: "distinct (map key xs) \<Longrightarrow> x \<in> set xs \<Longrightarrow> find_by key (key x) xs = Some x"
  by (rule find_by_distinct)

end

end
