(* ===== verification/Py_Text.thy ===== *)
theory Py_Text
  imports Prelude
begin

text \<open>
  The string operations of Python that the sources use. A \<^verbatim>\<open>str\<close> is a list of code
  points; the development restricts text to the code points below 256, which are exactly the
  values of \<open>char\<close>, so that \<open>length\<close> is Python's \<^verbatim>\<open>len\<close> and the character classes
  (\<^verbatim>\<open>str.isspace\<close>, the Unicode categories C*, \<^verbatim>\<open>str.lower\<close>) are given by the finite
  tables of that range.
\<close>

section \<open>Character classes\<close>

definition code :: "char \<Rightarrow> nat" where
  "code c = of_char c"

definition is_space_char :: "char \<Rightarrow> bool" where
  "is_space_char c \<longleftrightarrow>
     (9 \<le> code c \<and> code c \<le> 13) \<or> (28 \<le> code c \<and> code c \<le> 32) \<or> code c = 133 \<or> code c = 160"

definition str_isspace :: "string \<Rightarrow> bool" where
  "str_isspace s \<longleftrightarrow> s \<noteq> [] \<and> list_all is_space_char s"

text \<open>\<^verbatim>\<open>unicodedata.category(c).startswith("C")\<close>: the categories Cc and Cf.\<close>

definition is_category_C :: "char \<Rightarrow> bool" where
  "is_category_C c \<longleftrightarrow> code c < 32 \<or> (127 \<le> code c \<and> code c \<le> 159) \<or> code c = 173"

definition lower_char :: "char \<Rightarrow> char" where
  "lower_char c =
     (if (65 \<le> code c \<and> code c \<le> 90) \<or> (192 \<le> code c \<and> code c \<le> 222 \<and> code c \<noteq> 215)
      then char_of (code c + 32) else c)"

definition lower :: "string \<Rightarrow> string" where
  "lower s = map lower_char s"

definition is_digit_char :: "char \<Rightarrow> bool" where
  "is_digit_char c \<longleftrightarrow> 48 \<le> code c \<and> code c \<le> 57"

definition is_alpha_ascii :: "char \<Rightarrow> bool" where
  "is_alpha_ascii c \<longleftrightarrow> (65 \<le> code c \<and> code c \<le> 90) \<or> (97 \<le> code c \<and> code c \<le> 122)"

definition lower_hex_chars :: string where
  "lower_hex_chars = ''0123456789abcdef''"

definition all_lower_hex :: "string \<Rightarrow> bool" where
  "all_lower_hex s \<longleftrightarrow> list_all (\<lambda>c. c \<in> set lower_hex_chars) s"

text \<open>
  \<^verbatim>\<open>value.encode("utf-8")\<close> as a list of bytes: one byte below 128, two from 128 to 255; and
  \<^verbatim>\<open>value.encode("ascii")\<close>, used by the sources on ASCII text only.
\<close>

definition utf8_char :: "char \<Rightarrow> nat list" where
  "utf8_char c =
     (if code c < 128 then [code c] else [192 + code c div 64, 128 + code c mod 64])"

definition utf8_encode :: "string \<Rightarrow> nat list" where
  "utf8_encode s = concat (map utf8_char s)"

definition ascii_encode :: "string \<Rightarrow> nat list" where
  "ascii_encode s = map code s"

lemma length_utf8_encode_bounds:
  "length s \<le> length (utf8_encode s) \<and> length (utf8_encode s) \<le> 2 * length s"
  by (induction s) (auto simp: utf8_encode_def utf8_char_def)

lemma code_less_256 [simp]: "code c < 256"
  by (simp add: code_def)

lemma code_inj: "code c = code d \<longleftrightarrow> c = d"
  by (simp add: code_def)

lemma utf8_char_inj: "utf8_char c @ xs = utf8_char d @ ys \<Longrightarrow> c = d \<and> xs = ys"
proof -
  assume eq: "utf8_char c @ xs = utf8_char d @ ys"
  then have "code c = code d"
    by (auto simp: utf8_char_def split: if_splits)
       (metis add_left_cancel div_mult_mod_eq)+
  with eq show ?thesis by (auto simp: code_inj)
qed

lemma utf8_encode_inj: "utf8_encode s = utf8_encode t \<Longrightarrow> s = t"
proof (induction s arbitrary: t)
  case Nil
  then show ?case by (cases t) (auto simp: utf8_encode_def utf8_char_def split: if_splits)
next
  case (Cons c s)
  show ?case
  proof (cases t)
    case Nil
    with Cons.prems show ?thesis by (auto simp: utf8_encode_def utf8_char_def split: if_splits)
  next
    case (Cons d u)
    with Cons.prems have "utf8_char c @ utf8_encode s = utf8_char d @ utf8_encode u"
      by (simp add: utf8_encode_def)
    then have "c = d \<and> utf8_encode s = utf8_encode u" by (rule utf8_char_inj)
    with Cons.IH Cons show ?thesis by auto
  qed
qed

lemma ascii_encode_inj: "ascii_encode s = ascii_encode t \<Longrightarrow> s = t"
  unfolding ascii_encode_def by (erule map_injective) (auto simp: inj_def code_inj)

section \<open>Splitting\<close>

text \<open>\<^verbatim>\<open>s.partition(c)\<close>: the text before the first \<open>c\<close>, whether it occurs, the rest.\<close>

fun partition_char :: "char \<Rightarrow> string \<Rightarrow> string \<times> bool \<times> string" where
  "partition_char c [] = ([], False, [])"
| "partition_char c (x # xs) =
     (if x = c then ([], True, xs)
      else case partition_char c xs of (a, f, b) \<Rightarrow> (x # a, f, b))"

text \<open>\<^verbatim>\<open>s.rpartition(c)\<close>: split at the last \<open>c\<close>; without one, everything is the tail.\<close>

definition rpartition_char :: "char \<Rightarrow> string \<Rightarrow> string \<times> bool \<times> string" where
  "rpartition_char c s =
     (case partition_char c (rev s) of
        (a, True, b) \<Rightarrow> (rev b, True, rev a)
      | (a, False, b) \<Rightarrow> ([], False, s))"

text \<open>\<^verbatim>\<open>s.split(c)\<close>: always at least one part.\<close>

fun split_char :: "char \<Rightarrow> string \<Rightarrow> string list" where
  "split_char c [] = [[]]"
| "split_char c (x # xs) =
     (if x = c then [] # split_char c xs
      else case split_char c xs of p # ps \<Rightarrow> (x # p) # ps | [] \<Rightarrow> [[x]])"

definition str_strip :: "string \<Rightarrow> string" where
  "str_strip s = rev (dropWhile is_space_char (rev (dropWhile is_space_char s)))"

definition str_join :: "string \<Rightarrow> string list \<Rightarrow> string" where
  "str_join sep ps = (case ps of [] \<Rightarrow> [] | q # qs \<Rightarrow> q @ concat (map (\<lambda>p. sep @ p) qs))"

definition starts_with :: "string \<Rightarrow> string \<Rightarrow> bool" where
  "starts_with p s \<longleftrightarrow> take (length p) s = p"

section \<open>Numerals\<close>

definition digit_char :: "nat \<Rightarrow> char" where
  "digit_char d = char_of (if d < 10 then 48 + d else 87 + d)"

function digits_of :: "nat \<Rightarrow> nat \<Rightarrow> string" where
  "digits_of b n =
     (if n < b \<or> b < 2 then [digit_char n] else digits_of b (n div b) @ [digit_char (n mod b)])"
  by pat_completeness auto
termination
  by (relation "measure snd") auto

declare digits_of.simps [simp del]

definition str_nat :: "nat \<Rightarrow> string" where
  "str_nat n = digits_of 10 n"

definition str_int :: "int \<Rightarrow> string" where
  "str_int i = (if i < 0 then CHR ''-'' # str_nat (nat (- i)) else str_nat (nat i))"

text \<open>The \<open>k\<close> lowest digits of \<open>n\<close> in base \<open>b\<close>, most significant first, and back.\<close>

fun fixed_digits :: "nat \<Rightarrow> nat \<Rightarrow> nat \<Rightarrow> nat list" where
  "fixed_digits b 0 n = []"
| "fixed_digits b (Suc k) n = fixed_digits b k (n div b) @ [n mod b]"

lemma fixed_digits_numeral:
  "fixed_digits b (numeral k) n = fixed_digits b (pred_numeral k) (n div b) @ [n mod b]"
  by (simp add: numeral_eq_Suc)

definition from_base :: "nat \<Rightarrow> nat list \<Rightarrow> nat" where
  "from_base b ds = foldl (\<lambda>a d. b * a + d) 0 ds"

definition hex_fixed :: "nat \<Rightarrow> nat \<Rightarrow> string" where
  "hex_fixed k n = map digit_char (fixed_digits 16 k n)"

definition dec_value :: "string \<Rightarrow> nat" where
  "dec_value s = foldl (\<lambda>a c. 10 * a + (code c - 48)) 0 s"

lemma length_fixed_digits [simp]: "length (fixed_digits b k n) = k"
  by (induction k arbitrary: n) auto

lemma length_hex_fixed [simp]: "length (hex_fixed k n) = k"
  by (simp add: hex_fixed_def)

section \<open>Lemmas\<close>

lemma partition_char_notin: "c \<notin> set s \<Longrightarrow> partition_char c s = (s, False, [])"
  by (induction s) auto

lemma partition_char_append: "c \<notin> set a \<Longrightarrow> partition_char c (a @ c # b) = (a, True, b)"
  by (induction a) auto

lemma partition_char_SomeD:
  "partition_char c s = (a, True, b) \<Longrightarrow> s = a @ c # b \<and> c \<notin> set a"
  by (induction s arbitrary: a) (auto split: if_splits prod.splits)

lemma digit_char_code: "d < 16 \<Longrightarrow> code (digit_char d) = (if d < 10 then 48 + d else 87 + d)"
  by (auto simp: code_def digit_char_def)

lemma digit_char_inj: "d < 16 \<Longrightarrow> e < 16 \<Longrightarrow> digit_char d = digit_char e \<Longrightarrow> d = e"
proof -
  assume de: "d < 16" "e < 16" and eq: "digit_char d = digit_char e"
  have "code (digit_char d) = code (digit_char e)" using eq by simp
  then show "d = e" using de by (auto simp: digit_char_code split: if_splits)
qed

lemma digits_of_ne_Nil [simp]: "digits_of b n \<noteq> []"
  by (subst digits_of.simps) simp

lemma digits_of_chars:
  "2 \<le> b \<Longrightarrow> b \<le> 16 \<Longrightarrow> c \<in> set (digits_of b n) \<Longrightarrow> \<exists>d < b. c = digit_char d"
proof (induction b n rule: digits_of.induct)
  case (1 b n)
  show ?case
  proof (cases "n < b \<or> b < 2")
    case True
    with 1(2-) show ?thesis by (subst (asm) digits_of.simps) auto
  next
    case False
    with 1(2-) have "c \<in> set (digits_of b (n div b)) \<or> c = digit_char (n mod b)"
      by (subst (asm) digits_of.simps) auto
    moreover have "n mod b < b" using False by simp
    ultimately show ?thesis using 1(1) [OF False] 1(2,3) by blast
  qed
qed

lemma dec_value_snoc: "dec_value (s @ [c]) = 10 * dec_value s + (code c - 48)"
  by (simp add: dec_value_def)

lemma dec_value_str_nat [simp]: "dec_value (str_nat n) = n"
proof -
  have "dec_value (digits_of 10 n) = n"
  proof (induction n rule: less_induct)
    case (less n)
    show ?case
    proof (cases "n < 10")
      case True
      then show ?thesis
        by (subst digits_of.simps) (simp add: dec_value_def digit_char_code)
    next
      case False
      then have "dec_value (digits_of 10 (n div 10)) = n div 10" by (intro less) auto
      then show ?thesis using False
        by (subst digits_of.simps) (simp add: dec_value_snoc digit_char_code)
    qed
  qed
  then show ?thesis by (simp add: str_nat_def)
qed

lemma str_nat_inj: "str_nat m = str_nat n \<longleftrightarrow> m = n"
  using dec_value_str_nat by (auto dest: arg_cong [where f = dec_value])

lemma str_nat_digits: "list_all is_digit_char (str_nat n)"
proof -
  have "\<exists>d<10. c = digit_char d" if "c \<in> set (str_nat n)" for c
    using digits_of_chars [of 10 c n] that by (simp add: str_nat_def)
  then show ?thesis by (force simp: list_all_iff is_digit_char_def digit_char_code)
qed

lemma from_base_Nil [simp]: "from_base b [] = 0"
  by (simp add: from_base_def)

lemma from_base_snoc [simp]: "from_base b (ds @ [d]) = b * from_base b ds + d"
  by (simp add: from_base_def)

lemma from_base_append: "from_base b (xs @ ys) = from_base b xs * b ^ length ys + from_base b ys"
proof (induction ys rule: rev_induct)
  case (snoc y ys)
  have "from_base b ((xs @ ys) @ [y]) = b * from_base b (xs @ ys) + y" by (rule from_base_snoc)
  with snoc show ?case by (simp add: algebra_simps)
qed simp

lemma from_base_fixed_digits: "0 < b \<Longrightarrow> from_base b (fixed_digits b k n) = n mod b ^ k"
proof (induction k arbitrary: n)
  case (Suc k)
  then have "from_base b (fixed_digits b (Suc k) n) = b * (n div b mod b ^ k) + n mod b" by simp
  also have "\<dots> = n mod b ^ Suc k" by (simp add: mod_mult2_eq)
  finally show ?case .
qed simp

lemma fixed_digits_less: "0 < b \<Longrightarrow> d \<in> set (fixed_digits b k n) \<Longrightarrow> d < b"
  by (induction k arbitrary: n) auto

lemma map_digit_char_inj:
  "list_all (\<lambda>d. d < 16) xs \<Longrightarrow> list_all (\<lambda>d. d < 16) ys \<Longrightarrow>
   map digit_char xs = map digit_char ys \<Longrightarrow> xs = ys"
proof (induction xs arbitrary: ys)
  case (Cons x xs)
  then show ?case by (cases ys) (auto intro: digit_char_inj)
qed simp

lemma hex_fixed_inj:
  assumes "m < 16 ^ k" and "n < 16 ^ k" and "hex_fixed k m = hex_fixed k n"
  shows "m = n"
proof -
  have "fixed_digits 16 k m = fixed_digits 16 k n"
    using assms(3) fixed_digits_less [of 16 _ k]
    by (intro map_digit_char_inj) (auto simp: hex_fixed_def list_all_iff)
  then have "from_base 16 (fixed_digits 16 k m) = from_base 16 (fixed_digits 16 k n)" by simp
  with assms(1,2) show ?thesis by (simp add: from_base_fixed_digits)
qed

lemma split_char_append: "c \<notin> set l \<Longrightarrow> split_char c (l @ c # r) = l # split_char c r"
  by (induction l) auto

lemma split_char_notin: "c \<notin> set l \<Longrightarrow> split_char c l = [l]"
  by (induction l) auto

lemma split_char_join:
  "c \<notin> set l \<Longrightarrow> list_all (\<lambda>m. c \<notin> set m) ls \<Longrightarrow> split_char c (str_join [c] (l # ls)) = l # ls"
  by (induction ls arbitrary: l)
    (auto simp: str_join_def split_char_notin split_char_append)

lemma str_nat_chars: "c \<in> set (str_nat n) \<Longrightarrow> c \<noteq> CHR 0x0A \<and> c \<noteq> CHR '':'' \<and> c \<noteq> CHR ''-''"
  using str_nat_digits [of n] by (auto simp: list_all_iff is_digit_char_def code_def)

lemma str_int_chars: "c \<in> set (str_int i) \<Longrightarrow> c \<noteq> CHR 0x0A"
  using str_nat_chars by (auto simp: str_int_def split: if_splits)

lemma str_int_inj: "str_int i = str_int j \<longleftrightarrow> i = j"
proof
  assume eq: "str_int i = str_int j"
  have minus: "CHR ''-'' # s \<noteq> str_nat n" for s n using str_nat_chars [of "CHR ''-''" n] by (metis list.set_intros(1))
  show "i = j"
    using eq minus minus [THEN not_sym] by (auto simp: str_int_def str_nat_inj split: if_splits)
qed simp

end
