(* ===== verification/Identifiers.thy ===== *)
theory Identifiers
  imports Py_Text
begin

text \<open>
  Models \<^verbatim>\<open>src/src/rtsp_proxy/identifiers.py\<close>: the canonical external path id of a camera
  (26 characters of lowercase base32 for 128 bits) and its generation, and the parts of
  Python's \<^verbatim>\<open>uuid.UUID\<close> the sources use (version, text form, integer order).
\<close>

section \<open>UUIDs\<close>

definition uuid_int :: "uuid \<Rightarrow> nat" where
  "uuid_int u = unat u"

text \<open>\<^verbatim>\<open>UUID.version\<close> is defined only for the RFC 4122 variant (bits 63 and 62 are 1 and 0).\<close>

definition uuid_version :: "uuid \<Rightarrow> nat option" where
  "uuid_version u =
     (if bit u 63 \<and> \<not> bit u 62 then Some (unat u div 2 ^ 76 mod 16) else None)"

definition uuid_str :: "uuid \<Rightarrow> string" where
  "uuid_str u =
     (let h = hex_fixed 32 (unat u) in
        take 8 h @ ''-'' @ take 4 (drop 8 h) @ ''-'' @ take 4 (drop 12 h) @ ''-''
        @ take 4 (drop 16 h) @ ''-'' @ drop 20 h)"

section \<open>Public ids\<close>

type_synonym public_id = string

definition public_id_chars :: string where
  "public_id_chars = ''abcdefghijklmnopqrstuvwxyz234567''"

definition public_id_last_chars :: string where
  "public_id_last_chars = ''aeimquy4''"

text \<open>\<^verbatim>\<open>PublicId.__post_init__\<close>: the pattern \<^verbatim>\<open>[a-z2-7]{25}[aeimquy4]\<close>, matched in full.\<close>

definition public_id_valid :: "string \<Rightarrow> bool" where
  "public_id_valid s \<longleftrightarrow>
     length s = 26 \<and> list_all (\<lambda>c. c \<in> set public_id_chars) (take 25 s)
     \<and> last s \<in> set public_id_last_chars"

text \<open>\<^verbatim>\<open>PublicId.parse\<close>: \<open>None\<close> is \<^verbatim>\<open>InvalidPublicId\<close>.\<close>

definition public_id_parse :: "string \<Rightarrow> public_id option" where
  "public_id_parse s = (if public_id_valid s then Some s else None)"

section \<open>Generation\<close>

definition b32_alphabet :: string where
  "b32_alphabet = ''ABCDEFGHIJKLMNOPQRSTUVWXYZ234567''"

definition b32_char :: "nat \<Rightarrow> char" where
  "b32_char d = b32_alphabet ! d"

text \<open>One group of five bytes (zero padded) becomes eight characters.\<close>

definition b32_group :: "nat list \<Rightarrow> string" where
  "b32_group bs = map b32_char (fixed_digits 32 8 (from_base 256 (bs @ replicate (5 - length bs) 0)))"

fun b32_groups :: "nat list \<Rightarrow> string" where
  "b32_groups (a # b # c # d # e # rest) = b32_group [a, b, c, d, e] @ b32_groups rest"
| "b32_groups [] = []"
| "b32_groups bs = b32_group bs"

definition b32_padding :: "nat \<Rightarrow> nat" where
  "b32_padding leftover =
     (if leftover = 1 then 6 else if leftover = 2 then 4 else if leftover = 3 then 3
      else if leftover = 4 then 1 else 0)"

text \<open>\<^verbatim>\<open>base64.b32encode\<close>: the characters that hold only padding bits are replaced by \<open>=\<close>.\<close>

definition b32encode :: "nat list \<Rightarrow> string" where
  "b32encode bs =
     (let s = b32_groups bs; p = b32_padding (length bs mod 5) in
        take (length s - p) s @ replicate p CHR ''='')"

definition rstrip_char :: "char \<Rightarrow> string \<Rightarrow> string" where
  "rstrip_char c s = rev (dropWhile (\<lambda>x. x = c) (rev s))"

text \<open>\<^verbatim>\<open>generate_public_id\<close>; the 16 bytes of \<^verbatim>\<open>secrets.token_bytes\<close> are its argument.\<close>

definition generate_public_id :: "nat list \<Rightarrow> string" where
  "generate_public_id token = rstrip_char CHR ''='' (lower (b32encode token))"

section \<open>Every generated id is canonical, and no two tokens share one\<close>

definition token_ok :: "nat list \<Rightarrow> bool" where
  "token_ok bs \<longleftrightarrow> length bs = 16 \<and> list_all (\<lambda>b. b < 256) bs"

definition pid_char :: "nat \<Rightarrow> char" where
  "pid_char d = lower_char (b32_char d)"

lemma pid_char_nth: "d < 32 \<Longrightarrow> pid_char d = public_id_chars ! d"
proof -
  have "list_all (\<lambda>d. pid_char d = public_id_chars ! d) [0..<32]" by code_simp
  then show "d < 32 \<Longrightarrow> pid_char d = public_id_chars ! d" by (auto simp: list_all_iff)
qed

lemma length_public_id_chars: "length public_id_chars = 32"
  by (simp add: public_id_chars_def)

lemma distinct_public_id_chars: "distinct public_id_chars"
  by (simp add: public_id_chars_def)

lemma pid_char_mem: "d < 32 \<Longrightarrow> pid_char d \<in> set public_id_chars"
  by (simp add: pid_char_nth length_public_id_chars)

lemma pid_char_inj: "d < 32 \<Longrightarrow> e < 32 \<Longrightarrow> pid_char d = pid_char e \<Longrightarrow> d = e"
  by (simp add: pid_char_nth nth_eq_iff_index_eq distinct_public_id_chars length_public_id_chars)

lemma pid_char_ne_pad: "d < 32 \<Longrightarrow> pid_char d \<noteq> CHR ''=''"
  using pid_char_mem [of d] by (auto simp: public_id_chars_def)

lemma pid_char_last: "d < 8 \<Longrightarrow> pid_char (4 * d) \<in> set public_id_last_chars"
proof -
  have "list_all (\<lambda>d. pid_char (4 * d) \<in> set public_id_last_chars) [0..<8]" by code_simp
  then show "d < 8 \<Longrightarrow> pid_char (4 * d) \<in> set public_id_last_chars" by (auto simp: list_all_iff)
qed

text \<open>The base-32 digits of a 16-byte token: three full groups and two digits of the last byte.\<close>

definition token_digits :: "nat list \<Rightarrow> nat list" where
  "token_digits bs =
     fixed_digits 32 8 (from_base 256 (take 5 bs)) @ fixed_digits 32 8 (from_base 256 (take 5 (drop 5 bs)))
     @ fixed_digits 32 8 (from_base 256 (take 5 (drop 10 bs)))
     @ [bs ! 15 div 8, 4 * (bs ! 15 mod 8)]"

lemma list16:
  assumes "length bs = 16"
  obtains a0 a1 a2 a3 a4 b0 b1 b2 b3 b4 c0 c1 c2 c3 c4 z
  where "bs = [a0, a1, a2, a3, a4, b0, b1, b2, b3, b4, c0, c1, c2, c3, c4, z]"
  using assms by (auto simp: eval_nat_numeral length_Suc_conv)

lemma token_digits_less: "token_ok bs \<Longrightarrow> d \<in> set (token_digits bs) \<Longrightarrow> d < 32"
proof -
  assume ok: "token_ok bs" and d: "d \<in> set (token_digits bs)"
  then have "bs ! 15 < 256" by (simp add: token_ok_def list_all_length)
  then have "bs ! 15 div 8 < 32" by auto
  with d show "d < 32" unfolding token_digits_def by (auto dest: fixed_digits_less [rotated])
qed

lemma from_base_lt: "list_all (\<lambda>d. d < b) ds \<Longrightarrow> from_base b ds < b ^ length ds"
proof (induction ds rule: rev_induct)
  case (snoc d ds)
  then have "from_base b ds + 1 \<le> b ^ length ds" and d: "d < b" by auto
  then have "b * (from_base b ds + 1) \<le> b * b ^ length ds" by (rule_tac mult_le_mono2)
  with d show ?case by (simp add: algebra_simps)
qed simp

lemma last_group:
  assumes "z < 256"
  shows "take 2 (fixed_digits 32 8 (z * 4294967296)) = [z div 8, 4 * (z mod 8)]"
proof -
  have hi: "z * 4294967296 div 34359738368 mod 32 = z div 8" using assms by simp
  have "z * 4294967296 div 1073741824 = 4 * z" by simp
  then have lo: "z * 4294967296 div 1073741824 mod 32 = 4 * (z mod 8)"
    using mult_mod_right [of 4 z 8] by simp
  have "take 2 (fixed_digits 32 8 n) = [n div 34359738368 mod 32, n div 1073741824 mod 32]" for n
    by (simp add: fixed_digits_numeral div_mult2_eq [symmetric])
  then show ?thesis using hi lo by simp
qed

text \<open>The encoder's output is the token's base-32 digits, written in the public alphabet.\<close>

lemma generate_public_id_digits:
  assumes "token_ok bs"
  shows "generate_public_id bs = map pid_char (token_digits bs)"
proof -
  from assms obtain a0 a1 a2 a3 a4 b0 b1 b2 b3 b4 c0 c1 c2 c3 c4 z
    where bs: "bs = [a0, a1, a2, a3, a4, b0, b1, b2, b3, b4, c0, c1, c2, c3, c4, z]"
    by (auto simp: token_ok_def elim: list16)
  have z: "z < 256" using assms by (simp add: bs token_ok_def)
  define g where "g = (\<lambda>xs. fixed_digits 32 8 (from_base 256 xs))"
  define gz where "gz = g [z, 0, 0, 0, 0]"
  have lg: "length (g xs) = 8" for xs by (simp add: g_def)
  have "from_base 256 [z, 0, 0, 0, 0] = z * 4294967296" by (simp add: from_base_def)
  then have tz: "take 2 gz = [z div 8, 4 * (z mod 8)]"
    using last_group [OF z] by (simp add: gz_def g_def)
  have pad: "replicate 4 (0::nat) = [0, 0, 0, 0]" by (simp add: numeral_eq_Suc)
  have enc: "b32_groups bs =
      map b32_char (g [a0, a1, a2, a3, a4] @ g [b0, b1, b2, b3, b4] @ g [c0, c1, c2, c3, c4] @ gz)"
    by (simp add: bs b32_group_def g_def gz_def pad)
  let ?full = "g [a0, a1, a2, a3, a4] @ g [b0, b1, b2, b3, b4] @ g [c0, c1, c2, c3, c4]"
  have td: "token_digits bs = ?full @ take 2 gz"
    by (simp add: token_digits_def bs g_def tz)
  have "b32encode bs = map b32_char (?full @ take 2 gz) @ replicate 6 CHR ''=''"
  proof -
    have "length bs mod 5 = 1" by (simp add: bs)
    moreover have "length gz = 8" by (simp add: gz_def lg)
    ultimately show ?thesis by (simp add: b32encode_def enc Let_def b32_padding_def lg take_map)
  qed
  then have low: "lower (b32encode bs) = map pid_char (token_digits bs) @ replicate 6 CHR ''=''"
    by (simp add: lower_def td pid_char_def lower_char_def code_def)
  have ne: "token_digits bs \<noteq> []" by (simp add: token_digits_def)
  moreover have "pid_char (last (token_digits bs)) \<noteq> CHR ''=''"
    using token_digits_less [OF assms last_in_set [OF ne]] by (rule pid_char_ne_pad)
  ultimately have "dropWhile (\<lambda>x. x = CHR ''='') (rev (map pid_char (token_digits bs))) =
      rev (map pid_char (token_digits bs))"
    by (cases "token_digits bs" rule: rev_cases) auto
  moreover have "dropWhile (\<lambda>x. x = CHR ''='') (replicate 6 CHR ''='' @ ys) =
      dropWhile (\<lambda>x. x = CHR ''='') ys" for ys
    by (rule dropWhile_append2) simp
  ultimately show ?thesis
    by (simp add: generate_public_id_def low rstrip_char_def)
qed

lemma length_token_digits: "length bs = 16 \<Longrightarrow> length (token_digits bs) = 26"
  by (simp add: token_digits_def)

lemma from_base_inj:
  "length xs = length ys \<Longrightarrow> list_all (\<lambda>d. d < b) xs \<Longrightarrow> list_all (\<lambda>d. d < b) ys \<Longrightarrow>
   from_base b xs = from_base b ys \<Longrightarrow> xs = ys"
proof (induction xs arbitrary: ys rule: rev_induct)
  case (snoc x xs)
  then obtain y zs where ys: "ys = zs @ [y]" by (cases ys rule: rev_cases) auto
  with snoc.prems have eq: "b * from_base b xs + x = b * from_base b zs + y" "x < b" "y < b" by auto
  then have "x = y"
    by (metis mod_less mod_mult_self4 add.commute)
  with eq have "from_base b xs = from_base b zs" by simp
  with snoc ys \<open>x = y\<close> show ?case by simp
qed simp

text \<open>The digits carry the whole token: read in base 32 they are four times its value.\<close>

lemma from_base_token_digits:
  assumes "token_ok bs"
  shows "from_base 32 (token_digits bs) = 4 * from_base 256 bs"
proof -
  have len: "length bs = 16" and small: "list_all (\<lambda>b. b < 256) bs"
    using assms by (auto simp: token_ok_def)
  let ?a = "take 5 bs" and ?b = "take 5 (drop 5 bs)" and ?c = "take 5 (drop 10 bs)" and ?z = "bs ! 15"
  have grp: "from_base 32 (fixed_digits 32 8 (from_base 256 xs)) = from_base 256 xs"
    if "length xs = 5" "list_all (\<lambda>b. b < 256) xs" for xs
    using from_base_lt [OF that(2)] that(1) by (simp add: from_base_fixed_digits)
  have sub: "list_all (\<lambda>b. b < 256) ?a" "list_all (\<lambda>b. b < 256) ?b" "list_all (\<lambda>b. b < 256) ?c"
    using small by (auto simp: list_all_iff dest: in_set_takeD in_set_dropD)
  have "bs = ?a @ ?b @ ?c @ [?z]"
    using len by (elim list16) simp
  then have "from_base 256 bs = from_base 256 (?a @ ?b @ ?c @ [?z])" by simp
  also have "\<dots> = from_base 256 ?a * 256 ^ 11 + from_base 256 ?b * 256 ^ 6
      + from_base 256 ?c * 256 + ?z"
    using len by (simp add: from_base_append) (simp add: from_base_def)
  finally have v: "from_base 256 bs = \<dots>" .
  have two: "from_base 32 [?z div 8, 4 * (?z mod 8)] = 4 * ?z"
    by (simp add: from_base_def) presburger
  show ?thesis
    using len by (simp add: v token_digits_def from_base_append grp sub two)
qed

text \<open>Every public id that \<^verbatim>\<open>generate_public_id\<close> makes of 16 random bytes is accepted by
  \<^verbatim>\<open>PublicId.parse\<close>, which returns it unchanged.\<close>

theorem generate_public_id_valid:
  assumes "token_ok bs"
  shows "public_id_parse (generate_public_id bs) = Some (generate_public_id bs)"
proof -
  have len: "length (token_digits bs) = 26"
    using assms by (simp add: token_ok_def length_token_digits)
  have "last (token_digits bs) = 4 * (bs ! 15 mod 8)" by (simp add: token_digits_def)
  then have "last (map pid_char (token_digits bs)) \<in> set public_id_last_chars"
    using len by (subst last_map) (auto intro: pid_char_last)
  moreover have "list_all (\<lambda>c. c \<in> set public_id_chars) (take 25 (map pid_char (token_digits bs)))"
    using token_digits_less [OF assms]
    by (auto simp: list_all_iff take_map intro!: pid_char_mem dest: in_set_takeD)
  ultimately show ?thesis
    using len by (simp add: public_id_parse_def public_id_valid_def generate_public_id_digits [OF assms])
qed

theorem generate_public_id_valid_witness:
  "public_id_parse (generate_public_id (replicate 16 7)) = Some (generate_public_id (replicate 16 7))"
  by (rule generate_public_id_valid) (simp add: token_ok_def list_all_iff)

lemma generate_public_id_eqD:
  assumes "token_ok bs" and "token_ok cs" and "generate_public_id bs = generate_public_id cs"
  shows "bs = cs"
proof -
  have "map pid_char (token_digits bs) = map pid_char (token_digits cs)"
    using assms by (simp add: generate_public_id_digits)
  then have "token_digits bs = token_digits cs"
    by (rule inj_on_map_eq_map [THEN iffD1, rotated])
       (auto intro!: inj_onI pid_char_inj dest: token_digits_less [OF assms(1)] token_digits_less [OF assms(2)])
  then have "4 * from_base 256 bs = 4 * from_base 256 cs"
    using assms from_base_token_digits by metis
  then show ?thesis
    using assms by (intro from_base_inj [of bs cs 256]) (auto simp: token_ok_def)
qed

text \<open>Different random tokens give different public ids: no entropy of the 16 bytes is lost in the
  encoding.\<close>

theorem generate_public_id_inj:
  assumes "token_ok bs" and "token_ok cs"
  shows "generate_public_id bs = generate_public_id cs \<longleftrightarrow> bs = cs"
  using generate_public_id_eqD [OF assms] by auto

theorem generate_public_id_inj_witness:
  "generate_public_id (replicate 16 7) \<noteq> generate_public_id (replicate 15 7 @ [8])"
proof -
  have "last (replicate 16 7 :: nat list) \<noteq> last (replicate 15 7 @ [8])" by simp
  then have "(replicate 16 7 :: nat list) \<noteq> replicate 15 7 @ [8]" by metis
  then show ?thesis
    using generate_public_id_inj [of "replicate 16 7" "replicate 15 7 @ [8]"] by (simp add: token_ok_def list_all_iff)
qed

end
