(* ===== verification/Ip_Address.thy ===== *)
theory Ip_Address
  imports Py_Text
begin

text \<open>
  The part of Python's \<^verbatim>\<open>ipaddress\<close> module that the sources use: literal addresses of both
  families, parsed with the module's own rules (no leading zeros in an octet, at most one
  \<^verbatim>\<open>::\<close>, an optional dotted suffix and an optional scope id in an IPv6 literal), and networks.
\<close>

section \<open>Addresses and networks\<close>

datatype ip_address =
    IPv4Address "32 word"
  | IPv6Address "128 word" "string option"

datatype ip_network =
    IPv4Network "32 word" nat
  | IPv6Network "128 word" nat

primrec ip_version :: "ip_address \<Rightarrow> nat" where
  "ip_version (IPv4Address w) = 4"
| "ip_version (IPv6Address w s) = 6"

primrec network_version :: "ip_network \<Rightarrow> nat" where
  "network_version (IPv4Network w p) = 4"
| "network_version (IPv6Network w p) = 6"

primrec network_address_int :: "ip_network \<Rightarrow> nat" where
  "network_address_int (IPv4Network w p) = unat w"
| "network_address_int (IPv6Network w p) = unat w"

primrec network_prefixlen :: "ip_network \<Rightarrow> nat" where
  "network_prefixlen (IPv4Network w p) = p"
| "network_prefixlen (IPv6Network w p) = p"

section \<open>Parsing literals\<close>

definition parse_octet :: "string \<Rightarrow> nat option" where
  "parse_octet s =
     (if s = [] \<or> \<not> list_all is_digit_char s \<or> 3 < length s
         \<or> (s \<noteq> ''0'' \<and> hd s = CHR ''0'') \<or> 255 < dec_value s
      then None else Some (dec_value s))"

fun all_some :: "'a option list \<Rightarrow> 'a list option" where
  "all_some [] = Some []"
| "all_some (None # xs) = None"
| "all_some (Some x # xs) = map_option ((#) x) (all_some xs)"

definition parse_ipv4 :: "string \<Rightarrow> nat option" where
  "parse_ipv4 s =
     (if s = [] \<or> CHR ''/'' \<in> set s then None
      else let octets = split_char CHR ''.'' s in
        if length octets \<noteq> 4 then None
        else map_option (from_base 256) (all_some (map parse_octet octets)))"

definition hex_digit_value :: "char \<Rightarrow> nat option" where
  "hex_digit_value c =
     (if 48 \<le> code c \<and> code c \<le> 57 then Some (code c - 48)
      else if 97 \<le> code c \<and> code c \<le> 102 then Some (code c - 87)
      else if 65 \<le> code c \<and> code c \<le> 70 then Some (code c - 55)
      else None)"

definition parse_hextet :: "string \<Rightarrow> nat option" where
  "parse_hextet s =
     (if s = [] \<or> 4 < length s then None
      else map_option (from_base 16) (all_some (map hex_digit_value s)))"

text \<open>The index of the one empty part strictly inside the list, if any; two are an error.\<close>

definition inner_empty :: "string list \<Rightarrow> nat list" where
  "inner_empty ps = filter (\<lambda>i. ps ! i = []) [1 ..< length ps - 1]"

definition parse_hextets :: "string list \<Rightarrow> nat option" where
  "parse_hextets parts =
     (if length parts < 3 \<or> 9 < length parts then None
      else case inner_empty parts of
        [] \<Rightarrow>
          (if length parts \<noteq> 8 then None
           else map_option (from_base 65536) (all_some (map parse_hextet parts)))
      | [skip] \<Rightarrow>
          (let hi0 = skip; lo0 = length parts - skip - 1;
               hi = (if hd parts = [] then hi0 - 1 else hi0);
               lo = (if last parts = [] then lo0 - 1 else lo0)
           in if (hd parts = [] \<and> hi \<noteq> 0) \<or> (last parts = [] \<and> lo \<noteq> 0) \<or> 7 < hi + lo
              then None
              else case all_some (map parse_hextet (take hi parts)) of
                None \<Rightarrow> None
              | Some his \<Rightarrow>
                  (case all_some (map parse_hextet (drop (length parts - lo) parts)) of
                     None \<Rightarrow> None
                   | Some los \<Rightarrow>
                       Some (from_base 65536 (his @ replicate (8 - (hi + lo)) 0 @ los))))
      | _ \<Rightarrow> None)"

definition expand_dotted_suffix :: "string list \<Rightarrow> string list option" where
  "expand_dotted_suffix parts =
     (if CHR ''.'' \<in> set (last parts) then
        (case parse_ipv4 (last parts) of
           None \<Rightarrow> None
         | Some v \<Rightarrow>
             Some (butlast parts @ [digits_of 16 (v div 65536), digits_of 16 (v mod 65536)]))
      else Some parts)"

definition parse_ipv6 :: "string \<Rightarrow> (nat \<times> string option) option" where
  "parse_ipv6 s =
     (if CHR ''/'' \<in> set s then None
      else case partition_char CHR ''%'' s of (addr, found, scope) \<Rightarrow>
        if found \<and> (scope = [] \<or> CHR ''%'' \<in> set scope) then None
        else if addr = [] then None
        else (let parts = split_char CHR '':'' addr in
          if length parts < 3 then None
          else (case expand_dotted_suffix parts of
            None \<Rightarrow> None
          | Some ps \<Rightarrow>
              map_option (\<lambda>v. (v, if found then Some scope else None)) (parse_hextets ps))))"

text \<open>\<^verbatim>\<open>ipaddress.ip_address(s)\<close>; \<open>None\<close> is its \<^verbatim>\<open>ValueError\<close>.\<close>

definition parse_ip_address :: "string \<Rightarrow> ip_address option" where
  "parse_ip_address s =
     (case parse_ipv4 s of
        Some v \<Rightarrow> Some (IPv4Address (of_nat v))
      | None \<Rightarrow>
          (case parse_ipv6 s of
             Some (v, scope) \<Rightarrow> Some (IPv6Address (of_nat v) scope)
           | None \<Rightarrow> None))"

end
