(* ===== verification/Node_Types.thy ===== *)
theory Node_Types
  imports Identifiers Ip_Address "HOL-Library.List_Lexorder" "HOL-Library.Char_ord"
begin

text \<open>
  The data of \<^verbatim>\<open>src/src/rtsp_proxy/nodes.py\<close>: its exceptions, enumerations and dataclasses.
  A \<^verbatim>\<open>__post_init__\<close> that rejects a value is a function to \<open>py_error option\<close> (\<open>None\<close>:
  the value is accepted). Datetimes are timezone-aware throughout, so the checks for a missing
  \<^verbatim>\<open>tzinfo\<close> never reject and are left out.
\<close>

section \<open>Exceptions\<close>

text \<open>One constructor per exception class, with the code string it is raised with.\<close>

datatype py_error =
    CameraCatalogUnavailable string
  | ProbeEndpointSchemaUnavailable string
  | NodePortRangeExhausted string
  | NodeManagementPortRangeExhausted string
  | MaximumNodesReached string
  | NodePortOutOfRange string
  | NodePortInUse string
  | NodeCameraCapacityReached string
  | NodeNotEmpty string
  | NodeLifecycleConflict string
  | NodeLifecycleBusy string
  | NodeReleaseConflict string
  | NodeNotFound string
  | NodeRuntimeUnavailable string
  | NodeRuntimeFailed string uuid
  | InvalidNodeRuntimeObservation string
  | EligibleNodeMissing string
  | InvalidCameraSource string
  | InvalidCameraName string
  | CameraNotFound string
  | CameraLifecycleConflict string
  | CameraRevisionConflict int int
  | CameraMoveExpired string
  | NodeDisruptionConfirmationRequired string
  | ProbeEndpointRejected string
  | InvalidPublicId string
  | MediaNodeError string
  | MediaNodeUnavailable string
  | MediaNodeRejected string
  | MediaNodeProtocolError string
  | ReconcileRetry string
  | ReconcileCancelled string
  | CameraOccupied string
  | CameraReaderInvariantViolation string
  | MoveConfirmationRequired string
  | CameraDisruptionConfirmationRequired string
  | AccessPepperFileError string
  | AccessGrantIssueReplayed string
  | AccessGrantIdempotencyConflict string
  | AccessGrantSchemaUnavailable string
  | ValueError string
  | TypeError string
  | RuntimeError string
  | LookupError string
  | AssertionError string
  | StopIteration
  | KeyError

text \<open>The \<^verbatim>\<open>except\<close> clauses of the code, with the subclass relation of the exceptions.\<close>

fun is_lifecycle_busy :: "py_error \<Rightarrow> bool" where
  "is_lifecycle_busy (NodeLifecycleBusy c) = True"
| "is_lifecycle_busy e = False"

fun is_lifecycle_conflict :: "py_error \<Rightarrow> bool" where
  "is_lifecycle_conflict (NodeLifecycleConflict c) = True"
| "is_lifecycle_conflict (NodeLifecycleBusy c) = True"
| "is_lifecycle_conflict e = False"

fun is_node_not_found :: "py_error \<Rightarrow> bool" where
  "is_node_not_found (NodeNotFound c) = True"
| "is_node_not_found e = False"

fun is_runtime_failed :: "py_error \<Rightarrow> bool" where
  "is_runtime_failed (NodeRuntimeFailed c n) = True"
| "is_runtime_failed e = False"

fun is_node_not_empty :: "py_error \<Rightarrow> bool" where
  "is_node_not_empty (NodeNotEmpty c) = True"
| "is_node_not_empty e = False"

fun is_runtime_unavailable :: "py_error \<Rightarrow> bool" where
  "is_runtime_unavailable (NodeRuntimeUnavailable c) = True"
| "is_runtime_unavailable e = False"

fun is_eligible_node_missing :: "py_error \<Rightarrow> bool" where
  "is_eligible_node_missing (EligibleNodeMissing c) = True"
| "is_eligible_node_missing e = False"

fun is_port_range_exhausted :: "py_error \<Rightarrow> bool" where
  "is_port_range_exhausted (NodePortRangeExhausted c) = True"
| "is_port_range_exhausted e = False"

fun is_catalog_unavailable :: "py_error \<Rightarrow> bool" where
  "is_catalog_unavailable (CameraCatalogUnavailable c) = True"
| "is_catalog_unavailable e = False"

fun is_media_node_error :: "py_error \<Rightarrow> bool" where
  "is_media_node_error (MediaNodeError c) = True"
| "is_media_node_error (MediaNodeUnavailable c) = True"
| "is_media_node_error (MediaNodeRejected c) = True"
| "is_media_node_error (MediaNodeProtocolError c) = True"
| "is_media_node_error e = False"

text \<open>\<^verbatim>\<open>CameraRevisionConflict\<close> and \<^verbatim>\<open>CameraMoveExpired\<close> are subclasses of \<^verbatim>\<open>CameraLifecycleConflict\<close>.\<close>

fun is_camera_lifecycle_conflict :: "py_error \<Rightarrow> bool" where
  "is_camera_lifecycle_conflict (CameraLifecycleConflict c) = True"
| "is_camera_lifecycle_conflict (CameraRevisionConflict e c) = True"
| "is_camera_lifecycle_conflict (CameraMoveExpired c) = True"
| "is_camera_lifecycle_conflict e = False"

fun is_reconcile_retry :: "py_error \<Rightarrow> bool" where
  "is_reconcile_retry (ReconcileRetry c) = True"
| "is_reconcile_retry e = False"

section \<open>Enumerations\<close>

datatype node_state =
    NS_PROVISIONING | NS_STOPPED | NS_STOPPING | NS_STARTING | NS_RUNNING
  | NS_DRAINING | NS_MAINTENANCE | NS_FAILED | NS_DELETING

fun node_state_value :: "node_state \<Rightarrow> string" where
  "node_state_value NS_PROVISIONING = ''provisioning''"
| "node_state_value NS_STOPPED = ''stopped''"
| "node_state_value NS_STOPPING = ''stopping''"
| "node_state_value NS_STARTING = ''starting''"
| "node_state_value NS_RUNNING = ''running''"
| "node_state_value NS_DRAINING = ''draining''"
| "node_state_value NS_MAINTENANCE = ''maintenance''"
| "node_state_value NS_FAILED = ''failed''"
| "node_state_value NS_DELETING = ''deleting''"

datatype node_health = NH_UNKNOWN | NH_HEALTHY | NH_UNHEALTHY

datatype node_runtime_action =
    RA_PROVISION_START | RA_START | RA_STOP | RA_RESTART | RA_RECONFIGURE_RESTART
  | RA_DELETE | RA_OBSERVE

datatype node_creation_mode = NCM_OPERATOR | NCM_AUTOMATIC

fun node_creation_mode_value :: "node_creation_mode \<Rightarrow> string" where
  "node_creation_mode_value NCM_OPERATOR = ''operator''"
| "node_creation_mode_value NCM_AUTOMATIC = ''automatic''"

datatype placement_mode = PM_AUTOMATIC | PM_MANUAL

datatype camera_state = CS_ENABLED | CS_DISABLED | CS_DELETING | CS_DELETED

datatype camera_move_state =
    CM_PREPARE_TARGET | CM_ACTIVATE_TARGET | CM_CLEANUP_SOURCE | CM_CLEANUP_TARGET
  | CM_COMPLETE | CM_ABORTED

datatype node_port_change_state = PC_PREPARED | PC_COMPLETE | PC_ABORTED

section \<open>Commands, contexts and audit payloads\<close>

record node_command_fence =
  fe_expected_revision :: int
  fe_expected_state :: node_state

definition node_command_fence_post_init :: "node_command_fence \<Rightarrow> py_error option" where
  "node_command_fence_post_init f =
     (if fe_expected_revision f < 1 then Some (ValueError ''node_command_fence_invalid'') else None)"

record node_disruption_audit_context =
  da_mfa_verified_at_unix_ms :: int
  da_reader_observed_at_unix_ms :: int
  da_reader_blast_radius_sha256 :: string
  da_active_readers :: int
  da_runtime_state :: node_state
  da_release_id :: string
  da_process_id :: "int option"
  da_process_start_ticks :: "int option"
  da_process_boot_id :: "uuid option"

definition sha256_hex_valid :: "string \<Rightarrow> bool" where
  "sha256_hex_valid s \<longleftrightarrow> length s = 64 \<and> all_lower_hex s"

definition option_less_1 :: "int option \<Rightarrow> bool" where
  "option_less_1 x = (case x of None \<Rightarrow> False | Some v \<Rightarrow> v < 1)"

definition node_disruption_audit_context_post_init ::
  "node_disruption_audit_context \<Rightarrow> py_error option" where
  "node_disruption_audit_context_post_init c =
     (let absent = [da_process_id c = None, da_process_start_ticks c = None,
                    da_process_boot_id c = None] in
      if da_mfa_verified_at_unix_ms c < 1
         \<or> da_reader_observed_at_unix_ms c < 1
         \<or> \<not> sha256_hex_valid (da_reader_blast_radius_sha256 c)
         \<or> \<not> (0 \<le> da_active_readers c \<and> da_active_readers c \<le> 100)
         \<or> da_release_id c = []
         \<or> list_ex id absent \<noteq> list_all id absent
         \<or> option_less_1 (da_process_id c)
         \<or> option_less_1 (da_process_start_ticks c)
      then Some (ValueError ''node_disruption_audit_context_invalid'') else None)"

text \<open>Event payloads are JSON objects, kept as association lists in insertion order.\<close>

datatype json =
    JNull
  | JInt int
  | JStr string
  | JList "json list"
  | JObj "(string \<times> json) list"

definition json_opt_int :: "int option \<Rightarrow> json" where
  "json_opt_int x = (case x of None \<Rightarrow> JNull | Some v \<Rightarrow> JInt v)"

definition json_opt_uuid :: "uuid option \<Rightarrow> json" where
  "json_opt_uuid x = (case x of None \<Rightarrow> JNull | Some u \<Rightarrow> JStr (uuid_str u))"

definition audit_event_payload :: "node_disruption_audit_context \<Rightarrow> (string \<times> json) list" where
  "audit_event_payload c =
     [(''mfa_verified_at_unix_ms'', JInt (da_mfa_verified_at_unix_ms c)),
      (''reader_observed_at_unix_ms'', JInt (da_reader_observed_at_unix_ms c)),
      (''reader_blast_radius_sha256'', JStr (da_reader_blast_radius_sha256 c)),
      (''active_readers'', JInt (da_active_readers c)),
      (''runtime_state'', JStr (node_state_value (da_runtime_state c))),
      (''release_id'', JStr (da_release_id c)),
      (''process_id'', json_opt_int (da_process_id c)),
      (''process_start_ticks'', json_opt_int (da_process_start_ticks c)),
      (''process_boot_id'', json_opt_uuid (da_process_boot_id c))]"

record node_mutation_context =
  mc_actor_account_id :: uuid
  mc_actor_session_id :: uuid
  mc_identity_source :: string
  mc_actor_subject :: string
  mc_roles :: "string list"
  mc_scopes :: "string list"
  mc_authz_version :: int
  mc_request_id :: uuid
  mc_action :: string
  mc_http_method :: string
  mc_resource_scope :: string
  mc_resource_type :: string
  mc_resource_id :: string
  mc_source_ip_sha256 :: string
  mc_user_agent_sha256 :: string
  mc_idempotency_key :: "uuid option"
  mc_reason :: string
  mc_disruption_confirmation :: "node_disruption_audit_context option"

definition length_between :: "nat \<Rightarrow> nat \<Rightarrow> string \<Rightarrow> bool" where
  "length_between lo hi s \<longleftrightarrow> lo \<le> length s \<and> length s \<le> hi"

definition sorted_set :: "string list \<Rightarrow> string list" where
  "sorted_set xs = sort (remdups xs)"

definition node_mutation_context_post_init :: "node_mutation_context \<Rightarrow> py_error option" where
  "node_mutation_context_post_init c =
     (if mc_identity_source c \<notin> {''oidc'', ''local'', ''break_glass''}
         \<or> \<not> length_between 1 512 (mc_actor_subject c)
         \<or> mc_roles c \<noteq> sorted_set (mc_roles c)
         \<or> mc_roles c = []
         \<or> mc_scopes c \<noteq> sorted_set (mc_scopes c)
         \<or> mc_scopes c = []
         \<or> mc_authz_version c < 1
         \<or> \<not> length_between 1 128 (mc_action c)
         \<or> mc_http_method c \<notin> {''POST'', ''PUT'', ''PATCH'', ''DELETE''}
         \<or> (case mc_idempotency_key c of None \<Rightarrow> False | Some k \<Rightarrow> uuid_version k \<noteq> Some 4)
         \<or> \<not> length_between 1 256 (mc_resource_scope c)
         \<or> \<not> length_between 1 64 (mc_resource_type c)
         \<or> \<not> length_between 1 128 (mc_resource_id c)
         \<or> \<not> length_between 1 128 (mc_reason c)
         \<or> list_ex (\<lambda>v. \<not> sha256_hex_valid v) [mc_source_ip_sha256 c, mc_user_agent_sha256 c]
         \<or> list_ex (list_ex (\<lambda>ch. code ch < 32))
              [mc_actor_subject c, mc_action c, mc_resource_scope c, mc_resource_type c,
               mc_resource_id c, mc_reason c]
      then Some (ValueError ''node_mutation_context_invalid'') else None)"

definition mutation_event_payload :: "node_mutation_context \<Rightarrow> (string \<times> json) list" where
  "mutation_event_payload c =
     [(''account_id'', JStr (uuid_str (mc_actor_account_id c))),
      (''session_id'', JStr (uuid_str (mc_actor_session_id c))),
      (''identity_source'', JStr (mc_identity_source c)),
      (''subject'', JStr (mc_actor_subject c)),
      (''roles'', JList (map JStr (mc_roles c))),
      (''scopes'', JList (map JStr (mc_scopes c))),
      (''authz_version'', JInt (mc_authz_version c)),
      (''request_id'', JStr (uuid_str (mc_request_id c))),
      (''action'', JStr (mc_action c)),
      (''http_method'', JStr (mc_http_method c)),
      (''resource_scope'', JStr (mc_resource_scope c)),
      (''resource_type'', JStr (mc_resource_type c)),
      (''resource_id'', JStr (mc_resource_id c)),
      (''source_ip_sha256'', JStr (mc_source_ip_sha256 c)),
      (''user_agent_sha256'', JStr (mc_user_agent_sha256 c)),
      (''outcome'', JStr ''accepted''),
      (''reason'', JStr (mc_reason c))]
     @ (case mc_idempotency_key c of None \<Rightarrow> []
        | Some k \<Rightarrow> [(''idempotency_key'', JStr (uuid_str k))])
     @ (case mc_disruption_confirmation c of None \<Rightarrow> []
        | Some d \<Rightarrow> [(''disruption_confirmation'', JObj (audit_event_payload d))])"

text \<open>
  \<^verbatim>\<open>NodeRegistrationIdempotency\<close> and \<^verbatim>\<open>CameraRegistrationIdempotency\<close> have the same fields and
  the same checks, and differ in the code of the rejection only.
\<close>

record registration_idempotency =
  ri_key :: uuid
  ri_actor_account_id :: uuid
  ri_actor_session_id :: uuid
  ri_request_sha256 :: string

definition node_registration_idempotency_post_init ::
  "registration_idempotency \<Rightarrow> py_error option" where
  "node_registration_idempotency_post_init r =
     (if uuid_version (ri_key r) \<noteq> Some 4 \<or> \<not> sha256_hex_valid (ri_request_sha256 r)
      then Some (ValueError ''node_registration_idempotency_invalid'') else None)"

definition camera_registration_idempotency_post_init ::
  "registration_idempotency \<Rightarrow> py_error option" where
  "camera_registration_idempotency_post_init r =
     (if uuid_version (ri_key r) \<noteq> Some 4 \<or> \<not> sha256_hex_valid (ri_request_sha256 r)
      then Some (ValueError ''camera_registration_idempotency_invalid'') else None)"

end
