(* ===== verification/Node_Data.thy ===== *)
theory Node_Data
  imports Node_Types
begin

text \<open>
  The domain objects of \<^verbatim>\<open>nodes.py\<close>: media nodes and what the runtime reports of them, camera
  placements, camera moves, port changes, previews and the camera catalog.
\<close>

section \<open>Runtime observations\<close>

record node_runtime_observation =
  ob_state :: node_state
  ob_health :: node_health
  ob_management_fresh :: bool
  ob_config_compatible :: bool
  ob_applied_revision :: int
  ob_process_id :: "int option"
  ob_process_start_ticks :: "int option"
  ob_process_boot_id :: "uuid option"
  ob_config_sha256 :: "string option"
  ob_release_id :: "string option"

text \<open>
  \<^verbatim>\<open>NodeRuntimeObservation(state=FAILED, health=UNHEALTHY, applied_revision=r,
  config_compatible=False)\<close> with the defaults of the class: what the control plane records when
  a runtime operation fails.
\<close>

definition failed_observation :: "int \<Rightarrow> node_runtime_observation" where
  "failed_observation r =
     \<lparr>ob_state = NS_FAILED, ob_health = NH_UNHEALTHY, ob_management_fresh = False,
      ob_config_compatible = False, ob_applied_revision = r, ob_process_id = None,
      ob_process_start_ticks = None, ob_process_boot_id = None, ob_config_sha256 = None,
      ob_release_id = None\<rparr>"

record node_disruption_observation =
  do_active_reader_public_ids :: "public_id list"
  do_observed_at :: datetime
  do_process_id :: int
  do_process_start_ticks :: int
  do_process_boot_id :: uuid
  do_release_id :: string

definition node_disruption_observation_post_init ::
  "node_disruption_observation \<Rightarrow> py_error option" where
  "node_disruption_observation_post_init d =
     (if do_process_id d < 1 \<or> do_process_start_ticks d < 1 \<or> do_release_id d = []
         \<or> 100 < length (do_active_reader_public_ids d)
         \<or> do_active_reader_public_ids d \<noteq> sorted_set (do_active_reader_public_ids d)
      then Some (ValueError ''node_disruption_observation_invalid'') else None)"

record node_disruption_fence_lease =
  le_observation :: node_disruption_observation
  le_work_deadline_unix_ms :: "int option"
  le_completed :: bool

definition node_disruption_fence_lease_post_init ::
  "node_disruption_fence_lease \<Rightarrow> py_error option" where
  "node_disruption_fence_lease_post_init l =
     (if option_less_1 (le_work_deadline_unix_ms l)
      then Some (ValueError ''node_disruption_deadline_invalid'') else None)"

definition lease_complete :: "node_disruption_fence_lease \<Rightarrow> node_disruption_fence_lease" where
  "lease_complete l = l\<lparr>le_completed := True\<rparr>"

section \<open>Media nodes\<close>

record media_node =
  nd_id :: uuid
  nd_name :: string
  nd_external_port :: int
  nd_api_port :: int
  nd_metrics_port :: int
  nd_release_id :: string
  nd_mediamtx_binary_sha256 :: string
  nd_creation_mode :: node_creation_mode
  nd_state :: node_state
  nd_runtime_state :: node_state
  nd_health :: node_health
  nd_registered_cameras :: int
  nd_camera_capacity :: int
  nd_active_sources :: int
  nd_maintenance :: bool
  nd_management_fresh :: bool
  nd_management_observed_at :: "datetime option"
  nd_runtime_observed_at :: "datetime option"
  nd_config_compatible :: bool
  nd_desired_revision :: int
  nd_applied_revision :: int
  nd_process_id :: "int option"
  nd_process_start_ticks :: "int option"
  nd_process_boot_id :: "uuid option"
  nd_observed_config_sha256 :: "string option"
  nd_observed_release_id :: "string option"

text \<open>The constructor call of \<^verbatim>\<open>register_automatically\<close>, with the defaults of the class.\<close>

definition new_media_node ::
  "uuid \<Rightarrow> string \<Rightarrow> int \<Rightarrow> int \<Rightarrow> int \<Rightarrow> string \<Rightarrow> string \<Rightarrow> node_creation_mode \<Rightarrow> media_node" where
  "new_media_node i name external api metrics release digest mode =
     \<lparr>nd_id = i, nd_name = name, nd_external_port = external, nd_api_port = api,
      nd_metrics_port = metrics, nd_release_id = release, nd_mediamtx_binary_sha256 = digest,
      nd_creation_mode = mode, nd_state = NS_PROVISIONING, nd_runtime_state = NS_PROVISIONING,
      nd_health = NH_UNKNOWN, nd_registered_cameras = 0, nd_camera_capacity = 100,
      nd_active_sources = 0, nd_maintenance = False, nd_management_fresh = False,
      nd_management_observed_at = None, nd_runtime_observed_at = None,
      nd_config_compatible = False, nd_desired_revision = 1, nd_applied_revision = 0,
      nd_process_id = None, nd_process_start_ticks = None, nd_process_boot_id = None,
      nd_observed_config_sha256 = None, nd_observed_release_id = None\<rparr>"

section \<open>Camera moves and port changes\<close>

record camera_move =
  mv_id :: uuid
  mv_camera_id :: uuid
  mv_public_id :: public_id
  mv_source_url :: string
  mv_source_node_id :: uuid
  mv_target_node_id :: uuid
  mv_source_generation :: int
  mv_target_generation :: int
  mv_desired_revision :: int
  mv_force :: bool
  mv_confirmed_disconnect_readers :: int
  mv_source_port :: "int option"
  mv_target_port :: "int option"
  mv_source_endpoint :: "string option"
  mv_target_endpoint :: "string option"
  mv_expires_at :: datetime
  mv_abort_reason :: "string option"
  mv_state :: camera_move_state

definition camera_move_is_terminal :: "camera_move_state \<Rightarrow> bool" where
  "camera_move_is_terminal s \<longleftrightarrow> s \<in> {CM_COMPLETE, CM_ABORTED}"

definition port_invalid :: "int option \<Rightarrow> bool" where
  "port_invalid p = (case p of None \<Rightarrow> False | Some v \<Rightarrow> \<not> (1 \<le> v \<and> v \<le> 65535))"

definition camera_move_post_init :: "camera_move \<Rightarrow> py_error option" where
  "camera_move_post_init m =
     (if mv_confirmed_disconnect_readers m \<notin> {0, 1}
      then Some (ValueError ''camera_move_confirmed_readers_invalid'')
      else if list_ex port_invalid [mv_source_port m, mv_target_port m]
      then Some (ValueError ''camera_move_port_invalid'')
      else if (mv_source_endpoint m = None) \<noteq> (mv_source_port m = None)
           \<or> (mv_target_endpoint m = None) \<noteq> (mv_target_port m = None)
      then Some (ValueError ''camera_move_endpoint_invalid'')
      else if \<not> camera_move_is_terminal (mv_state m)
           \<and> (mv_source_port m = None \<or> mv_target_port m = None
              \<or> mv_source_endpoint m = None \<or> mv_target_endpoint m = None)
      then Some (ValueError ''camera_move_endpoint_invalid'')
      else None)"

record node_port_change =
  pc_id :: uuid
  pc_node_id :: uuid
  pc_old_port :: int
  pc_new_port :: int
  pc_source_revision :: int
  pc_target_revision :: int
  pc_registered_cameras :: int
  pc_blast_radius_sha256 :: string
  pc_state :: node_port_change_state

record node_port_change_preview =
  pp_node_id :: uuid
  pp_old_port :: int
  pp_new_port :: int
  pp_desired_revision :: int
  pp_registered_cameras :: int
  pp_blast_radius_sha256 :: string
  pp_affected_public_ids :: "public_id list"
  pp_active_reader_public_ids :: "public_id list"
  pp_reader_blast_radius_sha256 :: string
  pp_reader_observed_at :: datetime
  pp_confirmation_token :: string

record node_reconfigure_preview =
  rp_node_id :: uuid
  rp_external_port :: int
  rp_desired_revision :: int
  rp_registered_cameras :: int
  rp_blast_radius_sha256 :: string
  rp_affected_public_ids :: "public_id list"
  rp_active_reader_public_ids :: "public_id list"
  rp_reader_blast_radius_sha256 :: string
  rp_reader_observed_at :: datetime
  rp_target_release_id :: string
  rp_target_mediamtx_binary_sha256 :: string
  rp_confirmation_token :: string

record node_disruption_confirmation_context =
  cc_account_id :: uuid
  cc_session_id :: uuid
  cc_authz_version :: int
  cc_mfa_verified_at_unix_ms :: int

definition node_disruption_confirmation_context_post_init ::
  "node_disruption_confirmation_context \<Rightarrow> py_error option" where
  "node_disruption_confirmation_context_post_init c =
     (if cc_authz_version c < 1 \<or> cc_mfa_verified_at_unix_ms c < 1
      then Some (ValueError ''node_disruption_confirmation_context_invalid'') else None)"

record node_disruption_details =
  dd_affected_public_ids :: "public_id list"
  dd_active_reader_public_ids :: "public_id list"
  dd_blast_radius_sha256 :: string
  dd_reader_blast_radius_sha256 :: string
  dd_reader_observed_at :: datetime
  dd_process_id :: "int option"
  dd_process_start_ticks :: "int option"
  dd_process_boot_id :: "uuid option"
  dd_release_id :: string
  dd_runtime_state :: node_state

section \<open>Cameras and the catalog\<close>

text \<open>\<^verbatim>\<open>ProbeEndpointIdentity\<close> and \<^verbatim>\<open>AdmittedProbeEndpoint\<close> of \<^verbatim>\<open>probe_security.py\<close>.\<close>

record probe_endpoint_identity_t =
  pe_generation :: uuid
  pe_address :: ip_address
  pe_port :: int
  pe_site_key :: string
  pe_policy_sha256 :: string
  pe_source_url_sha256 :: string

record admitted_probe_endpoint =
  ape_identity :: probe_endpoint_identity_t
  ape_path_and_query :: string
  ape_credential :: "(nat list \<times> nat list) option"

record camera_placement =
  cp_id :: uuid
  cp_name :: string
  cp_source_url :: string
  cp_public_id :: public_id
  cp_node_id :: uuid
  cp_node_port :: int
  cp_placement_mode :: placement_mode
  cp_placement_generation :: int
  cp_state :: camera_state
  cp_desired_revision :: int
  cp_applied_revision :: int
  cp_probe_endpoint :: "probe_endpoint_identity_t option"
  cp_probe_endpoint_schema_supported :: bool

definition new_camera_placement ::
  "uuid \<Rightarrow> string \<Rightarrow> string \<Rightarrow> public_id \<Rightarrow> uuid \<Rightarrow> int \<Rightarrow> placement_mode
   \<Rightarrow> probe_endpoint_identity_t option \<Rightarrow> camera_placement" where
  "new_camera_placement i name source_url public_id node_id node_port mode endpoint =
     \<lparr>cp_id = i, cp_name = name, cp_source_url = source_url, cp_public_id = public_id,
      cp_node_id = node_id, cp_node_port = node_port, cp_placement_mode = mode,
      cp_placement_generation = 1, cp_state = CS_ENABLED, cp_desired_revision = 1,
      cp_applied_revision = 0, cp_probe_endpoint = endpoint,
      cp_probe_endpoint_schema_supported = True\<rparr>"

record camera_catalog_item =
  ci_id :: uuid
  ci_name :: string
  ci_public_id :: public_id
  ci_node_id :: uuid
  ci_node_name :: string
  ci_node_port :: int
  ci_placement_mode :: placement_mode
  ci_state :: camera_state
  ci_desired_revision :: int
  ci_applied_revision :: int
  ci_source_address :: "string option"
  ci_source_credentials_configured :: "bool option"

record camera_catalog_query =
  cq_after :: "uuid option"
  cq_limit :: int
  cq_search :: "string option"
  cq_node_id :: "uuid option"
  cq_state :: "camera_state option"

text \<open>The constructor stores the stripped search text.\<close>

definition camera_catalog_query_post_init ::
  "camera_catalog_query \<Rightarrow> py_error + camera_catalog_query" where
  "camera_catalog_query_post_init q =
     (if \<not> (1 \<le> cq_limit q \<and> cq_limit q \<le> 100)
      then Inl (ValueError ''camera_catalog_limit_invalid'')
      else case cq_search q of
        None \<Rightarrow> Inr q
      | Some search \<Rightarrow>
          (let normalized = str_strip search in
           if normalized = [] \<or> length normalized < 3 \<or> 128 < length normalized
              \<or> list_ex (\<lambda>c. code c < 32) normalized
           then Inl (ValueError ''camera_catalog_search_invalid'')
           else Inr (q\<lparr>cq_search := Some normalized\<rparr>)))"

record camera_catalog_page =
  pg_items :: "camera_catalog_item list"
  pg_next_after :: "uuid option"

definition camera_catalog_page_post_init :: "camera_catalog_page \<Rightarrow> py_error option" where
  "camera_catalog_page_post_init p =
     (if 100 < length (pg_items p) \<or> sort (map ci_id (pg_items p)) \<noteq> map ci_id (pg_items p)
      then Some (ValueError ''camera_catalog_page_invalid'')
      else case pg_next_after p of
        None \<Rightarrow> None
      | Some u \<Rightarrow>
          if pg_items p = [] \<or> u \<noteq> ci_id (last (pg_items p))
          then Some (ValueError ''camera_catalog_cursor_invalid'') else None)"

record node_provisioning_policy =
  np_port_range_start :: int
  np_port_range_end :: int
  np_max_nodes :: int
  np_reserved_ports :: "int list"
  np_api_ports :: "int list"
  np_metrics_ports :: "int list"
  np_release_id :: string
  np_mediamtx_binary_sha256 :: string
  np_management_freshness_seconds :: int

end
