(* ===== verification/Url.thy ===== *)
theory Url
  imports Ip_Address
begin

text \<open>
  Python's \<^verbatim>\<open>urllib.parse.urlsplit\<close> and the attributes of its result. A \<open>None\<close> result
  stands for the \<^verbatim>\<open>ValueError\<close> of the library. For the code points below 256 the
  normalisation check of the library never rejects: no such character other than the five
  delimiters themselves has one of them in its NFKC form.
\<close>

section \<open>Splitting\<close>

record split_result =
  sr_scheme :: string
  sr_netloc :: string
  sr_path :: string
  sr_query :: string
  sr_fragment :: string

definition is_scheme_char :: "char \<Rightarrow> bool" where
  "is_scheme_char c \<longleftrightarrow> is_alpha_ascii c \<or> is_digit_char c \<or> c \<in> set ''+-.''"

definition strip_url :: "string \<Rightarrow> string" where
  "strip_url url =
     filter (\<lambda>c. code c \<notin> {9, 10, 13}) (dropWhile (\<lambda>c. code c \<le> 32) url)"

definition split_scheme :: "string \<Rightarrow> string \<times> string" where
  "split_scheme url =
     (case partition_char CHR '':'' url of (pre, found, rest) \<Rightarrow>
        if found \<and> pre \<noteq> [] \<and> is_alpha_ascii (hd pre) \<and> list_all is_scheme_char pre
        then (lower pre, rest) else ([], url))"

definition is_netloc_end :: "char \<Rightarrow> bool" where
  "is_netloc_end c \<longleftrightarrow> c \<in> set ''/?#''"

definition bracketed_host_valid :: "string \<Rightarrow> bool" where
  "bracketed_host_valid h =
     (if starts_with ''v'' h then
        (case partition_char CHR ''.'' (tl h) of (a, found, b) \<Rightarrow>
           found \<and> a \<noteq> [] \<and> list_all (\<lambda>c. hex_digit_value c \<noteq> None) a \<and> b \<noteq> []
           \<and> CHR 0x0A \<notin> set b)
      else case parse_ip_address h of Some (IPv6Address w s) \<Rightarrow> True | _ \<Rightarrow> False)"

definition netloc_valid :: "string \<Rightarrow> bool" where
  "netloc_valid netloc =
     (let opening = CHR ''['' \<in> set netloc; closing = CHR '']'' \<in> set netloc in
        if opening \<noteq> closing then False
        else if opening then
          bracketed_host_valid
            (fst (partition_char CHR '']'' (snd (snd (partition_char CHR ''['' netloc)))))
        else True)"

definition split_first :: "char \<Rightarrow> string \<Rightarrow> string \<times> string" where
  "split_first c s = (case partition_char c s of (a, found, b) \<Rightarrow> (a, b))"

definition urlsplit :: "string \<Rightarrow> split_result option" where
  "urlsplit url0 =
     (case split_scheme (strip_url url0) of (scheme, url) \<Rightarrow>
        let has_netloc = starts_with ''//'' url;
            netloc = (if has_netloc then takeWhile (\<lambda>c. \<not> is_netloc_end c) (drop 2 url) else []);
            rest = (if has_netloc then dropWhile (\<lambda>c. \<not> is_netloc_end c) (drop 2 url) else url)
        in if has_netloc \<and> \<not> netloc_valid netloc then None
           else case split_first CHR ''#'' rest of (rest1, fragment) \<Rightarrow>
             (case split_first CHR ''?'' rest1 of (path, query) \<Rightarrow>
                Some \<lparr>sr_scheme = scheme, sr_netloc = netloc, sr_path = path,
                      sr_query = query, sr_fragment = fragment\<rparr>))"

section \<open>Attributes of the result\<close>

definition hostinfo :: "split_result \<Rightarrow> string \<times> string option" where
  "hostinfo r =
     (case rpartition_char CHR ''@'' (sr_netloc r) of (_, _, info) \<Rightarrow>
        (case partition_char CHR ''['' info of (_, open_br, bracketed) \<Rightarrow>
           let hp = (if open_br then
                 (case partition_char CHR '']'' bracketed of (h, _, after) \<Rightarrow>
                    (h, snd (snd (partition_char CHR '':'' after))))
               else (case partition_char CHR '':'' info of (h, _, p) \<Rightarrow> (h, p)))
           in (fst hp, if snd hp = [] then None else Some (snd hp))))"

definition url_userinfo :: "split_result \<Rightarrow> string option \<times> string option" where
  "url_userinfo r =
     (case rpartition_char CHR ''@'' (sr_netloc r) of (info, have_info, _) \<Rightarrow>
        if have_info then
          (case partition_char CHR '':'' info of (u, have_password, p) \<Rightarrow>
             (Some u, if have_password then Some p else None))
        else (None, None))"

definition url_username :: "split_result \<Rightarrow> string option" where
  "url_username r = fst (url_userinfo r)"

definition url_password :: "split_result \<Rightarrow> string option" where
  "url_password r = snd (url_userinfo r)"

definition url_hostname :: "split_result \<Rightarrow> string option" where
  "url_hostname r =
     (let h = fst (hostinfo r) in
        if h = [] then None
        else case partition_char CHR ''%'' h of (a, found, zone) \<Rightarrow>
          Some (lower a @ (if found then CHR ''%'' # zone else [])))"

text \<open>\<open>None\<close> is the \<^verbatim>\<open>ValueError\<close> of the attribute, \<open>Some None\<close> an absent port.\<close>

definition url_port :: "split_result \<Rightarrow> nat option option" where
  "url_port r =
     (case snd (hostinfo r) of
        None \<Rightarrow> Some None
      | Some p \<Rightarrow>
          if list_all is_digit_char p \<and> dec_value p \<le> 65535 then Some (Some (dec_value p))
          else None)"

lemma url_port_bound: "url_port r = Some (Some p) \<Longrightarrow> p \<le> 65535"
  by (auto simp: url_port_def split: option.splits if_splits)

end
