(* ===== verification/Node_Rules.thy ===== *)
theory Node_Rules
  imports Node_Data Url "HOL-Library.Sublist"
begin

text \<open>
  The module-level functions of \<^verbatim>\<open>nodes.py\<close>: validators of camera names, sources and releases,
  the fingerprints of a blast radius, eligibility of a node, the command fence, the request
  digests of idempotent registrations, the check of a runtime observation, and port selection.
  SHA-256 is a function from bytes to a hexadecimal string, given by the environment.
\<close>

section \<open>Environment of an operation\<close>

text \<open>
  What an operation reads from outside the store: \<^verbatim>\<open>datetime.now(UTC)\<close>, the injected clock of
  the store, and SHA-256. One operation reads each clock at one instant.
\<close>

type_synonym sha256_fn = "nat list \<Rightarrow> string"

record store_env =
  env_utc_now :: datetime
  env_clock :: datetime
  env_sha256 :: sha256_fn

section \<open>Validators\<close>

definition MAX_CAMERA_SOURCE_URL_BYTES :: nat where
  "MAX_CAMERA_SOURCE_URL_BYTES = 8192"

definition MAX_CAMERA_NAME_LENGTH :: nat where
  "MAX_CAMERA_NAME_LENGTH = 128"

definition validate_camera_source_url :: "string \<Rightarrow> bool \<Rightarrow> py_error + string" where
  "validate_camera_source_url value allow_credentials =
     (if MAX_CAMERA_SOURCE_URL_BYTES < length (utf8_encode value)
      then Inl (InvalidCameraSource ''camera_source_url_too_long'')
      else case urlsplit value of
        None \<Rightarrow> Inl (InvalidCameraSource ''camera_source_url_invalid'')
      | Some parsed \<Rightarrow>
         (case url_port parsed of
            None \<Rightarrow> Inl (InvalidCameraSource ''camera_source_url_invalid'')
          | Some port \<Rightarrow>
              if lower (sr_scheme parsed) \<noteq> ''rtsp''
                 \<or> url_hostname parsed = None
                 \<or> sr_fragment parsed \<noteq> []
                 \<or> \<not> starts_with ''/'' (sr_path parsed)
                 \<or> port = Some 0
              then Inl (InvalidCameraSource ''camera_source_url_invalid'')
              else if ((url_username parsed \<noteq> None \<or> url_password parsed \<noteq> None)
                       \<and> \<not> allow_credentials)
                      \<or> sr_query parsed \<noteq> []
              then Inl (InvalidCameraSource ''camera_source_secret_reference_required'')
              else Inr value))"

definition validate_camera_name :: "string \<Rightarrow> py_error + string" where
  "validate_camera_name value =
     (if value = [] \<or> MAX_CAMERA_NAME_LENGTH < length value \<or> str_isspace value
         \<or> list_ex is_category_C value
      then Inl (InvalidCameraName ''camera_name_invalid'')
      else Inr value)"

definition validate_release :: "string \<Rightarrow> string \<Rightarrow> py_error option" where
  "validate_release release_id digest =
     (if release_id = [] \<or> 128 < length release_id
      then Some (ValueError ''node_release_id_invalid'')
      else if \<not> sha256_hex_valid digest
      then Some (ValueError ''node_binary_sha256_invalid'')
      else None)"

section \<open>Probe endpoints\<close>

definition probe_endpoint_identity ::
  "sha256_fn \<Rightarrow> string \<Rightarrow> admitted_probe_endpoint option
   \<Rightarrow> py_error + probe_endpoint_identity_t option" where
  "probe_endpoint_identity sha source_url endpoint =
     (case endpoint of
        None \<Rightarrow> Inr None
      | Some e \<Rightarrow>
          if pe_source_url_sha256 (ape_identity e) \<noteq> sha (utf8_encode source_url)
          then Inl (InvalidCameraSource ''camera_source_endpoint_mismatch'')
          else Inr (Some (ape_identity e)))"

text \<open>The admission object enters this function only through its policy digest.\<close>

definition probe_endpoint_requires_readmission ::
  "camera_placement \<Rightarrow> string \<Rightarrow> string option \<Rightarrow> bool" where
  "probe_endpoint_requires_readmission camera source_url admission_policy_sha256 =
     (case admission_policy_sha256 of
        None \<Rightarrow> False
      | Some policy \<Rightarrow>
          if cp_source_url camera \<noteq> source_url then True
          else if \<not> cp_probe_endpoint_schema_supported camera then False
          else (case cp_probe_endpoint camera of
                  None \<Rightarrow> True
                | Some e \<Rightarrow> pe_policy_sha256 e \<noteq> policy))"

section \<open>Fingerprints\<close>

definition newline :: string where
  "newline = [CHR 0x0A]"

definition camera_placement_payload :: "(uuid \<times> int) list \<Rightarrow> string" where
  "camera_placement_payload placements =
     str_join newline
       (map (\<lambda>(camera_id, generation). uuid_str camera_id @ '':'' @ str_int generation)
            (sort_key (\<lambda>p. uuid_int (fst p)) placements))"

definition camera_placement_fingerprint :: "sha256_fn \<Rightarrow> (uuid \<times> int) list \<Rightarrow> string" where
  "camera_placement_fingerprint sha placements =
     sha (ascii_encode (camera_placement_payload placements))"

definition none_or :: "('a \<Rightarrow> string) \<Rightarrow> 'a option \<Rightarrow> string" where
  "none_or f x = (case x of None \<Rightarrow> ''none'' | Some v \<Rightarrow> f v)"

definition node_reader_blast_radius_fingerprint ::
  "sha256_fn \<Rightarrow> uuid \<Rightarrow> node_state \<Rightarrow> int option \<times> int option \<times> uuid option \<times> string option
   \<Rightarrow> public_id list \<Rightarrow> py_error + string" where
  "node_reader_blast_radius_fingerprint sha node_id runtime_state process_identity active_readers =
     (case process_identity of (process_id, process_start_ticks, process_boot_id, release_id) \<Rightarrow>
        let readers = sorted_set active_readers in
        if 100 < length readers then Inl (ValueError ''node_reader_blast_radius_invalid'')
        else Inr (sha (ascii_encode (str_join newline
          ([uuid_str node_id, node_state_value runtime_state, none_or str_int process_id,
            none_or str_int process_start_ticks, none_or uuid_str process_boot_id,
            none_or (\<lambda>r. r) release_id] @ readers)))))"

section \<open>Eligibility and fences\<close>

definition is_node_eligible :: "media_node \<Rightarrow> int \<Rightarrow> datetime \<Rightarrow> bool" where
  "is_node_eligible node management_freshness_seconds current_time \<longleftrightarrow>
     nd_state node = NS_RUNNING
     \<and> nd_runtime_state node = NS_RUNNING
     \<and> nd_health node = NH_HEALTHY
     \<and> nd_management_fresh node
     \<and> (case nd_management_observed_at node of
          None \<Rightarrow> False
        | Some observed_at \<Rightarrow> observed_at \<ge> current_time - seconds management_freshness_seconds)
     \<and> nd_config_compatible node
     \<and> nd_applied_revision node = nd_desired_revision node
     \<and> \<not> nd_maintenance node
     \<and> nd_registered_cameras node < nd_camera_capacity node"

definition validate_camera_live_batch :: "uuid list \<Rightarrow> py_error option" where
  "validate_camera_live_batch camera_ids =
     (if \<not> (1 \<le> length camera_ids \<and> length camera_ids \<le> 256)
         \<or> length (remdups camera_ids) \<noteq> length camera_ids
         \<or> list_ex (\<lambda>c. uuid_version c \<noteq> Some 4) camera_ids
      then Some (ValueError ''camera_live_target_batch_invalid'') else None)"

definition require_node_command_fence ::
  "media_node \<Rightarrow> node_command_fence option \<Rightarrow> py_error option" where
  "require_node_command_fence node fence =
     (case fence of
        None \<Rightarrow> None
      | Some f \<Rightarrow>
          if nd_desired_revision node \<noteq> fe_expected_revision f \<or> nd_state node \<noteq> fe_expected_state f
          then Some (NodeLifecycleConflict ''node_command_fence_conflict'') else None)"

section \<open>Request digests\<close>

text \<open>\<^verbatim>\<open>json.dumps\<close> of a string with \<^verbatim>\<open>ensure_ascii=False\<close>.\<close>

definition json_escape :: "char \<Rightarrow> string" where
  "json_escape c =
     (if c = CHR 0x22 then [CHR 0x5C, CHR 0x22]
      else if c = CHR 0x5C then [CHR 0x5C, CHR 0x5C]
      else if code c = 10 then [CHR 0x5C, CHR ''n'']
      else if code c = 13 then [CHR 0x5C, CHR ''r'']
      else if code c = 9 then [CHR 0x5C, CHR ''t'']
      else if code c = 12 then [CHR 0x5C, CHR ''f'']
      else if code c = 8 then [CHR 0x5C, CHR ''b'']
      else if code c < 32 then CHR 0x5C # ''u'' @ hex_fixed 4 (code c)
      else [c])"

definition json_string :: "string \<Rightarrow> string" where
  "json_string s = [CHR 0x22] @ concat (map json_escape s) @ [CHR 0x22]"

definition json_member :: "string \<Rightarrow> string \<Rightarrow> string" where
  "json_member key value = json_string key @ '':'' @ value"

definition node_registration_request :: "string \<Rightarrow> int option \<Rightarrow> node_creation_mode \<Rightarrow> string" where
  "node_registration_request name external_port creation_mode =
     ''{'' @ str_join '',''
       [json_member ''creation_mode'' (json_string (node_creation_mode_value creation_mode)),
        json_member ''external_port''
          (case external_port of None \<Rightarrow> ''null'' | Some p \<Rightarrow> str_int p),
        json_member ''name'' (json_string name),
        json_member ''request_schema'' ''1''] @ ''}''"

definition checked :: "('a \<Rightarrow> py_error option) \<Rightarrow> 'a \<Rightarrow> py_error + 'a" where
  "checked post_init x = (case post_init x of Some e \<Rightarrow> Inl e | None \<Rightarrow> Inr x)"

definition node_registration_idempotency ::
  "sha256_fn \<Rightarrow> string \<Rightarrow> int option \<Rightarrow> node_creation_mode \<Rightarrow> node_mutation_context option
   \<Rightarrow> py_error + registration_idempotency option" where
  "node_registration_idempotency sha name external_port creation_mode mutation_context =
     (case mutation_context of
        None \<Rightarrow> Inr None
      | Some mc \<Rightarrow>
         (case mc_idempotency_key mc of
            None \<Rightarrow> Inr None
          | Some key \<Rightarrow>
              map_sum id Some (checked node_registration_idempotency_post_init
                \<lparr>ri_key = key, ri_actor_account_id = mc_actor_account_id mc,
                 ri_actor_session_id = mc_actor_session_id mc,
                 ri_request_sha256 = sha (utf8_encode
                   (node_registration_request name external_port creation_mode))\<rparr>)))"

definition camera_registration_request :: "string \<Rightarrow> string \<Rightarrow> uuid option \<Rightarrow> string" where
  "camera_registration_request name source_url node_id =
     ''{'' @ str_join '',''
       [json_member ''name'' (json_string name),
        json_member ''node_id''
          (case node_id of None \<Rightarrow> ''null'' | Some n \<Rightarrow> json_string (uuid_str n)),
        json_member ''request_schema'' ''1'',
        json_member ''source_url'' (json_string source_url)] @ ''}''"

definition camera_registration_idempotency ::
  "sha256_fn \<Rightarrow> string \<Rightarrow> string \<Rightarrow> uuid option \<Rightarrow> node_mutation_context option
   \<Rightarrow> py_error + registration_idempotency option" where
  "camera_registration_idempotency sha name source_url node_id mutation_context =
     (case mutation_context of
        None \<Rightarrow> Inr None
      | Some mc \<Rightarrow>
         (case mc_idempotency_key mc of
            None \<Rightarrow> Inr None
          | Some key \<Rightarrow>
              map_sum id Some (checked camera_registration_idempotency_post_init
                \<lparr>ri_key = key, ri_actor_account_id = mc_actor_account_id mc,
                 ri_actor_session_id = mc_actor_session_id mc,
                 ri_request_sha256 = sha (utf8_encode
                   (camera_registration_request name source_url node_id))\<rparr>)))"

section \<open>Runtime observations\<close>

definition validate_runtime_observation ::
  "media_node \<Rightarrow> node_runtime_observation \<Rightarrow> py_error option" where
  "validate_runtime_observation node ob =
     (let running = (ob_state ob = NS_RUNNING);
          identified = (ob_process_id ob \<noteq> None \<and> ob_process_start_ticks ob \<noteq> None
                        \<and> ob_process_boot_id ob \<noteq> None) in
      if ob_applied_revision ob < 0 \<or> ob_applied_revision ob > nd_desired_revision node
      then Some (InvalidNodeRuntimeObservation ''runtime_applied_revision_invalid'')
      else if ob_state ob \<in> {NS_RUNNING, NS_STOPPED} \<and> ob_config_compatible ob
              \<and> ob_applied_revision ob \<noteq> nd_desired_revision node
      then Some (InvalidNodeRuntimeObservation ''runtime_observation_revision_stale'')
      else if running \<noteq> identified
      then Some (InvalidNodeRuntimeObservation ''runtime_process_identity_invalid'')
      else if running
              \<and> (ob_process_id ob = None \<or> option_less_1 (ob_process_id ob)
                 \<or> ob_process_start_ticks ob = None \<or> option_less_1 (ob_process_start_ticks ob))
      then Some (InvalidNodeRuntimeObservation ''runtime_process_identity_invalid'')
      else if ob_management_fresh ob \<and> \<not> running
      then Some (InvalidNodeRuntimeObservation ''runtime_management_freshness_invalid'')
      else if ob_config_compatible ob
              \<and> (ob_config_sha256 ob = None
                 \<or> ob_release_id ob \<noteq> Some (nd_release_id node)
                 \<or> ob_applied_revision ob \<noteq> nd_desired_revision node)
      then Some (InvalidNodeRuntimeObservation ''runtime_config_identity_invalid'')
      else None)"

section \<open>Port selection\<close>

text \<open>
  The \<^verbatim>\<open>for\<close> loop of \<^verbatim>\<open>select_port_with_bounded_recheck\<close>, its first argument the number of
  iterations left.
\<close>

fun select_port_loop ::
  "nat \<Rightarrow> int list \<Rightarrow> int option \<Rightarrow> (int list \<Rightarrow> int) \<Rightarrow> (int \<Rightarrow> bool) \<Rightarrow> py_error + int" where
  "select_port_loop 0 candidates preferred choose_port bindable =
     Inl (NodePortRangeExhausted ''node_port_range_exhausted'')"
| "select_port_loop (Suc k) candidates preferred choose_port bindable =
     (let selected = (case preferred of Some p \<Rightarrow> p | None \<Rightarrow> choose_port candidates) in
      if selected \<notin> set candidates then Inl (RuntimeError ''node_port_selector_invalid'')
      else if bindable selected then Inr selected
      else if preferred \<noteq> None then Inl (NodePortInUse ''node_port_in_use'')
      else select_port_loop k (remove1 selected candidates) preferred choose_port bindable)"

definition select_port_with_bounded_recheck ::
  "int list \<Rightarrow> int option \<Rightarrow> (int list \<Rightarrow> int) \<Rightarrow> (int \<Rightarrow> bool) \<Rightarrow> py_error + int" where
  "select_port_with_bounded_recheck available preferred choose_port bindable =
     select_port_loop (length available) available preferred choose_port bindable"

section \<open>Facts about the rules\<close>

lemma select_port_loop_sound:
  "select_port_loop k candidates preferred choose_port bindable = Inr p \<Longrightarrow>
   p \<in> set candidates \<and> bindable p \<and> (preferred \<noteq> None \<longrightarrow> preferred = Some p)"
proof (induction k arbitrary: candidates)
  case (Suc k)
  show ?case
    using Suc.prems Suc.IH [of "remove1 (choose_port candidates) candidates"]
      set_remove1_subset [of "choose_port candidates" candidates]
    by (auto simp: Let_def split: if_splits option.splits)
qed simp

lemma select_port_sound:
  assumes "select_port_with_bounded_recheck available preferred choose_port bindable = Inr p"
  shows "p \<in> set available \<and> bindable p \<and> (preferred \<noteq> None \<longrightarrow> preferred = Some p)"
  using assms unfolding select_port_with_bounded_recheck_def by (rule select_port_loop_sound)

lemma select_port_loop_complete:
  assumes "\<And>xs. xs \<noteq> [] \<Longrightarrow> choose_port xs \<in> set xs" and "length candidates = k"
  shows "if \<exists>p \<in> set candidates. bindable p
         then \<exists>p. select_port_loop k candidates None choose_port bindable = Inr p
         else select_port_loop k candidates None choose_port bindable
                = Inl (NodePortRangeExhausted ''node_port_range_exhausted'')"
  using assms(2)
proof (induction k arbitrary: candidates)
  case (Suc k)
  let ?c = "choose_port candidates"
  have c: "?c \<in> set candidates" using Suc.prems by (intro assms(1)) auto
  show ?case
  proof (cases "bindable ?c")
    case True
    with c show ?thesis by auto
  next
    case False
    have "length (remove1 ?c candidates) = k" using c Suc.prems by (simp add: length_remove1)
    note IH = Suc.IH [OF this]
    have "set candidates = insert ?c (set (remove1 ?c candidates))"
      using c set_remove1_subset [of ?c candidates] in_set_remove1 [of _ ?c candidates] by blast
    with False have "(\<exists>p \<in> set candidates. bindable p) = (\<exists>p \<in> set (remove1 ?c candidates). bindable p)"
      by auto
    with IH False c show ?thesis by simp
  qed
qed simp

end
