(* ===== verification/Node_Store.thy ===== *)
theory Node_Store
  imports Node_Rules
begin

text \<open>
  \<^verbatim>\<open>InMemoryNodeStore\<close> of \<^verbatim>\<open>nodes.py\<close>, part one: its state, its guards, the registration of
  nodes and the node lifecycle. An operation maps the store to an error or to its result and
  the new store. In the source every \<^verbatim>\<open>raise\<close> of an operation precedes its first write, and an
  operation runs under the store's lock, so an error leaves the store as it was and operations
  of concurrent callers are totally ordered.
\<close>

section \<open>State\<close>

type_synonym request_key = "uuid \<times> uuid"

record node_store =
  st_nodes :: "media_node list"
  st_cameras :: "camera_placement list"
  st_camera_moves :: "camera_move list"
  st_port_changes :: "node_port_change list"
  st_registration_requests :: "request_key \<rightharpoonup> uuid \<times> string \<times> uuid"
  st_camera_registration_requests :: "request_key \<rightharpoonup> uuid \<times> string \<times> uuid option"
  st_probe_source_networks :: "ip_network list"
  st_lifecycle_locks :: "uuid list"

type_synonym 'a store_result = "py_error + 'a \<times> node_store"

definition init_store :: "media_node list \<Rightarrow> node_store" where
  "init_store nodes =
     \<lparr>st_nodes = nodes, st_cameras = [], st_camera_moves = [], st_port_changes = [],
      st_registration_requests = Map.empty, st_camera_registration_requests = Map.empty,
      st_probe_source_networks = [], st_lifecycle_locks = remdups (map nd_id nodes)\<rparr>"

abbreviation find_node :: "uuid \<Rightarrow> node_store \<Rightarrow> media_node option" where
  "find_node i s \<equiv> find_by nd_id i (st_nodes s)"

abbreviation find_camera :: "uuid \<Rightarrow> node_store \<Rightarrow> camera_placement option" where
  "find_camera i s \<equiv> find_by cp_id i (st_cameras s)"

abbreviation find_move :: "uuid \<Rightarrow> node_store \<Rightarrow> camera_move option" where
  "find_move i s \<equiv> find_by mv_id i (st_camera_moves s)"

abbreviation find_change :: "uuid \<Rightarrow> node_store \<Rightarrow> node_port_change option" where
  "find_change i s \<equiv> find_by pc_id i (st_port_changes s)"

definition put_node :: "media_node \<Rightarrow> media_node \<Rightarrow> node_store \<Rightarrow> node_store" where
  "put_node old new s = s\<lparr>st_nodes := replace_first old new (st_nodes s)\<rparr>"

section \<open>Guards and probe source networks\<close>

text \<open>
  The guards are context managers around a caller's body. What they contribute to a sequential
  run is the lookup of the node's lock, which fails for an unknown node, and the repeated
  cancellation test of \<^verbatim>\<open>reconcile_guard\<close> while it waits for the lock: the list holds the answer
  of \<^verbatim>\<open>cancelled()\<close> and of \<^verbatim>\<open>acquire(timeout=0.05)\<close> in each round, and a list that runs out is a
  guard that is still waiting.
\<close>

definition lifecycle_guard :: "uuid \<Rightarrow> node_store \<Rightarrow> py_error option" where
  "lifecycle_guard node_id s =
     (if node_id \<in> set (st_lifecycle_locks s) then None else Some (NodeNotFound ''node_not_found''))"

fun reconcile_guard_wait :: "(bool \<times> bool) list \<Rightarrow> (py_error + unit) option" where
  "reconcile_guard_wait [] = None"
| "reconcile_guard_wait ((cancelled, acquired) # rounds) =
     (if cancelled then Some (Inl (NodeLifecycleBusy ''node_lifecycle_busy''))
      else if acquired then Some (Inr ())
      else reconcile_guard_wait rounds)"

definition reconcile_guard ::
  "uuid \<Rightarrow> (bool \<times> bool) list \<Rightarrow> node_store \<Rightarrow> (py_error + unit) option" where
  "reconcile_guard node_id rounds s =
     (if node_id \<in> set (st_lifecycle_locks s) then reconcile_guard_wait rounds
      else Some (Inl (NodeNotFound ''node_not_found'')))"

definition network_key :: "ip_network \<Rightarrow> nat \<times> nat \<times> nat" where
  "network_key n = (network_version n, network_address_int n, network_prefixlen n)"

definition list_probe_source_networks :: "node_store \<Rightarrow> ip_network list" where
  "list_probe_source_networks s = sort_key network_key (st_probe_source_networks s)"

text \<open>The Python set is a list without duplicates; its order is never observed.\<close>

definition add_probe_source_network :: "ip_network \<Rightarrow> node_store \<Rightarrow> bool \<times> node_store" where
  "add_probe_source_network network s =
     (let before_len = length (st_probe_source_networks s);
          networks = List.insert network (st_probe_source_networks s)
      in (length networks \<noteq> before_len, s\<lparr>st_probe_source_networks := networks\<rparr>))"

section \<open>Registration\<close>

record registration_request =
  rq_name :: string
  rq_allowed_ports :: "int list"
  rq_max_nodes :: int
  rq_preferred_port :: "int option"
  rq_choose_port :: "int list \<Rightarrow> int"
  rq_new_node_id :: uuid
  rq_api_ports :: "int list"
  rq_metrics_ports :: "int list"
  rq_release_id :: string
  rq_mediamtx_binary_sha256 :: string
  rq_creation_mode :: node_creation_mode
  rq_is_port_bindable :: "(int \<Rightarrow> bool) option"

definition prepared_changes :: "node_store \<Rightarrow> node_port_change list" where
  "prepared_changes s = filter (\<lambda>c. pc_state c = PC_PREPARED) (st_port_changes s)"

definition occupied_ports :: "node_store \<Rightarrow> int list" where
  "occupied_ports s = map nd_external_port (st_nodes s) @ map pc_new_port (prepared_changes s)"

definition occupied_management_ports :: "node_store \<Rightarrow> int list" where
  "occupied_management_ports s = concat (map (\<lambda>n. [nd_api_port n, nd_metrics_port n]) (st_nodes s))"

definition probe_of :: "registration_request \<Rightarrow> int \<Rightarrow> bool" where
  "probe_of rq = (case rq_is_port_bindable rq of None \<Rightarrow> (\<lambda>port. True) | Some f \<Rightarrow> f)"

text \<open>The \<^verbatim>\<open>except NodePortRangeExhausted\<close> around the two management port selections.\<close>

definition management_error :: "py_error \<Rightarrow> py_error" where
  "management_error e =
     (if is_port_range_exhausted e
      then NodeManagementPortRangeExhausted ''node_management_port_range_exhausted'' else e)"

definition register_automatically :: "registration_request \<Rightarrow> node_store \<Rightarrow> media_node store_result" where
  "register_automatically rq s =
     (if (case rq_preferred_port rq of None \<Rightarrow> False | Some p \<Rightarrow> p \<notin> set (rq_allowed_ports rq))
      then Inl (NodePortOutOfRange ''node_port_out_of_range'')
      else if int (length (st_nodes s)) \<ge> rq_max_nodes rq
      then Inl (MaximumNodesReached ''max_nodes_reached'')
      else if (case rq_preferred_port rq of None \<Rightarrow> False | Some p \<Rightarrow> p \<in> set (occupied_ports s))
      then Inl (NodePortInUse ''node_port_in_use'')
      else let available = filter (\<lambda>p. p \<notin> set (occupied_ports s)) (rq_allowed_ports rq) in
      if available = [] then Inl (NodePortRangeExhausted ''node_port_range_exhausted'')
      else (case select_port_with_bounded_recheck available (rq_preferred_port rq)
                   (rq_choose_port rq) (probe_of rq) of
        Inl e \<Rightarrow> Inl e
      | Inr external_port \<Rightarrow>
         (let occupied_management = set (occupied_management_ports s);
              available_api = filter (\<lambda>p. p \<notin> occupied_management) (rq_api_ports rq);
              available_metrics = filter (\<lambda>p. p \<notin> occupied_management) (rq_metrics_ports rq)
          in if available_api = [] \<or> available_metrics = []
             then Inl (NodeManagementPortRangeExhausted ''node_management_port_range_exhausted'')
             else (case select_port_with_bounded_recheck available_api None hd (probe_of rq) of
               Inl e \<Rightarrow> Inl (management_error e)
             | Inr api_port \<Rightarrow>
                (case select_port_with_bounded_recheck
                        (filter (\<lambda>p. p \<notin> {external_port, api_port}) available_metrics)
                        None hd (probe_of rq) of
                   Inl e \<Rightarrow> Inl (management_error e)
                 | Inr metrics_port \<Rightarrow>
                    (let node = new_media_node (rq_new_node_id rq) (rq_name rq) external_port
                                  api_port metrics_port (rq_release_id rq)
                                  (rq_mediamtx_binary_sha256 rq) (rq_creation_mode rq)
                     in Inr (node, s\<lparr>st_nodes := st_nodes s @ [node],
                                     st_lifecycle_locks :=
                                       List.insert (nd_id node) (st_lifecycle_locks s)\<rparr>)))))))"

definition request_key_of :: "registration_idempotency \<Rightarrow> request_key" where
  "request_key_of r = (ri_actor_session_id r, ri_key r)"

text \<open>The replay of a recorded registration: \<open>None\<close> when the key is new.\<close>

definition replay_registration ::
  "registration_idempotency \<Rightarrow> node_store \<Rightarrow> (py_error + media_node) option" where
  "replay_registration idempotency s =
     (case st_registration_requests s (request_key_of idempotency) of
        None \<Rightarrow> None
      | Some (account_id, request_sha256, node_id) \<Rightarrow>
          Some (if account_id \<noteq> ri_actor_account_id idempotency
                   \<or> request_sha256 \<noteq> ri_request_sha256 idempotency
                then Inl (NodeLifecycleConflict ''node_idempotency_conflict'')
                else (case find_node node_id s of
                        None \<Rightarrow> Inl (NodeLifecycleConflict ''node_idempotency_target_missing'')
                      | Some node \<Rightarrow> Inr node)))"

definition register_idempotently ::
  "registration_request \<Rightarrow> registration_idempotency \<Rightarrow> node_store
   \<Rightarrow> (media_node \<times> bool) store_result" where
  "register_idempotently rq idempotency s =
     (case replay_registration idempotency s of
        Some (Inl e) \<Rightarrow> Inl e
      | Some (Inr node) \<Rightarrow> Inr ((node, True), s)
      | None \<Rightarrow>
         (case register_automatically rq s of
            Inl e \<Rightarrow> Inl e
          | Inr (node, s') \<Rightarrow>
              Inr ((node, False),
                   s'\<lparr>st_registration_requests := (st_registration_requests s')
                        (request_key_of idempotency \<mapsto>
                           (ri_actor_account_id idempotency, ri_request_sha256 idempotency,
                            nd_id node))\<rparr>)))"

definition lookup_registration ::
  "registration_idempotency \<Rightarrow> node_store \<Rightarrow> py_error + (media_node \<times> bool) option" where
  "lookup_registration idempotency s =
     (case replay_registration idempotency s of
        None \<Rightarrow> Inr None
      | Some (Inl e) \<Rightarrow> Inl e
      | Some (Inr node) \<Rightarrow> Inr (Some (node, True)))"

definition list_nodes :: "node_store \<Rightarrow> media_node list" where
  "list_nodes s = st_nodes s"

definition get_node :: "uuid \<Rightarrow> node_store \<Rightarrow> media_node option" where
  "get_node node_id s = find_node node_id s"

section \<open>Queries the lifecycle operations use\<close>

definition list_node_active_moves :: "uuid \<Rightarrow> node_store \<Rightarrow> camera_move list" where
  "list_node_active_moves node_id s =
     filter (\<lambda>m. node_id \<in> {mv_source_node_id m, mv_target_node_id m}
                 \<and> \<not> camera_move_is_terminal (mv_state m)) (st_camera_moves s)"

definition node_has_prepared_port_change :: "uuid \<Rightarrow> node_store \<Rightarrow> bool" where
  "node_has_prepared_port_change node_id s =
     list_ex (\<lambda>c. pc_node_id c = node_id \<and> pc_state c = PC_PREPARED) (st_port_changes s)"

definition live_node_cameras :: "uuid \<Rightarrow> node_store \<Rightarrow> camera_placement list" where
  "live_node_cameras node_id s =
     filter (\<lambda>c. cp_node_id c = node_id \<and> cp_state c \<noteq> CS_DELETED) (st_cameras s)"

definition list_camera_move_targets ::
  "store_env \<Rightarrow> uuid \<Rightarrow> int \<Rightarrow> node_store \<Rightarrow> py_error + media_node list" where
  "list_camera_move_targets env camera_id management_freshness_seconds s =
     (case find_camera camera_id s of
        None \<Rightarrow> Inl (CameraNotFound ''camera_not_found'')
      | Some camera \<Rightarrow>
          if cp_state camera = CS_DELETED then Inl (CameraNotFound ''camera_not_found'')
          else if cp_state camera \<noteq> CS_ENABLED then Inl (CameraLifecycleConflict ''camera_not_enabled'')
          else if node_has_prepared_port_change (cp_node_id camera) s then Inr []
          else Inr (filter (\<lambda>node. nd_id node \<noteq> cp_node_id camera
                                   \<and> \<not> node_has_prepared_port_change (nd_id node) s
                                   \<and> is_node_eligible node management_freshness_seconds (env_clock env))
                           (st_nodes s)))"

section \<open>Lifecycle\<close>

definition observed_node :: "datetime \<Rightarrow> node_runtime_observation \<Rightarrow> media_node \<Rightarrow> media_node" where
  "observed_node observed_at ob node =
     node\<lparr>nd_runtime_state := ob_state ob, nd_health := ob_health ob,
          nd_management_fresh := ob_management_fresh ob,
          nd_management_observed_at := (if ob_management_fresh ob then Some observed_at else None),
          nd_runtime_observed_at := Some observed_at,
          nd_config_compatible := ob_config_compatible ob,
          nd_applied_revision := ob_applied_revision ob,
          nd_process_id := ob_process_id ob,
          nd_process_start_ticks := ob_process_start_ticks ob,
          nd_process_boot_id := ob_process_boot_id ob,
          nd_observed_config_sha256 := ob_config_sha256 ob,
          nd_observed_release_id := ob_release_id ob\<rparr>"

definition apply_runtime_observation ::
  "store_env \<Rightarrow> uuid \<Rightarrow> node_runtime_observation \<Rightarrow> node_store \<Rightarrow> media_node store_result" where
  "apply_runtime_observation env node_id ob s =
     (case find_node node_id s of
        None \<Rightarrow> Inl (NodeNotFound ''node_not_found'')
      | Some node \<Rightarrow>
         (case validate_runtime_observation node ob of
            Some e \<Rightarrow> Inl e
          | None \<Rightarrow>
             (let updated = observed_node (env_utc_now env) ob node
              in Inr (updated, put_node node updated s))))"

definition request_desired_state ::
  "uuid \<Rightarrow> node_state \<Rightarrow> node_command_fence option \<Rightarrow> node_store \<Rightarrow> media_node store_result" where
  "request_desired_state node_id state fence s =
     (case find_node node_id s of
        None \<Rightarrow> Inl (NodeNotFound ''node_not_found'')
      | Some node \<Rightarrow>
         (case require_node_command_fence node fence of
            Some e \<Rightarrow> Inl e
          | None \<Rightarrow>
              if state = NS_RUNNING
                 \<and> nd_state node \<notin> {NS_PROVISIONING, NS_STOPPED, NS_FAILED, NS_RUNNING}
              then Inl (NodeLifecycleConflict ''node_start_source_state_invalid'')
              else if nd_state node = state then Inr (node, s)
              else let updated = node\<lparr>nd_state := state,
                                      nd_desired_revision := nd_desired_revision node + 1\<rparr>
                   in Inr (updated, put_node node updated s)))"

fun administrative_sources :: "node_state \<Rightarrow> node_state list" where
  "administrative_sources NS_DRAINING = [NS_RUNNING]"
| "administrative_sources NS_MAINTENANCE = [NS_DRAINING]"
| "administrative_sources NS_RUNNING = [NS_DRAINING, NS_MAINTENANCE]"
| "administrative_sources st = []"

definition request_administrative_state ::
  "uuid \<Rightarrow> node_state \<Rightarrow> node_command_fence option \<Rightarrow> node_store \<Rightarrow> media_node store_result" where
  "request_administrative_state node_id state fence s =
     (case find_node node_id s of
        None \<Rightarrow> Inl (NodeNotFound ''node_not_found'')
      | Some node \<Rightarrow>
         (case require_node_command_fence node fence of
            Some e \<Rightarrow> Inl e
          | None \<Rightarrow>
              if nd_state node \<notin> set (administrative_sources state)
              then if nd_state node = state then Inr (node, s)
                   else Inl (NodeLifecycleConflict ''node_administrative_transition_invalid'')
              else let desired_revision = nd_desired_revision node + 1;
                       updated = node\<lparr>nd_state := state,
                                      nd_maintenance := (state = NS_MAINTENANCE),
                                      nd_desired_revision := desired_revision,
                                      nd_applied_revision := desired_revision\<rparr>
                   in Inr (updated, put_node node updated s)))"

definition request_node_delete ::
  "uuid \<Rightarrow> node_command_fence option \<Rightarrow> node_store \<Rightarrow> media_node store_result" where
  "request_node_delete node_id fence s =
     (case find_node node_id s of
        None \<Rightarrow> Inl (NodeNotFound ''node_not_found'')
      | Some node \<Rightarrow>
         (case require_node_command_fence node fence of
            Some e \<Rightarrow> Inl e
          | None \<Rightarrow>
              if nd_registered_cameras node \<noteq> 0 then Inl (NodeNotEmpty ''node_not_empty'')
              else if nd_state node \<notin> {NS_STOPPED, NS_FAILED, NS_DELETING}
              then Inl (NodeLifecycleConflict ''node_delete_requires_stopped_or_failed'')
              else if list_node_active_moves node_id s \<noteq> [] \<or> node_has_prepared_port_change node_id s
              then Inl (NodeLifecycleConflict ''node_operation_in_progress'')
              else if nd_state node = NS_DELETING then Inr (node, s)
              else let updated = node\<lparr>nd_state := NS_DELETING,
                                      nd_desired_revision := nd_desired_revision node + 1,
                                      nd_management_fresh := False,
                                      nd_management_observed_at := None\<rparr>
                   in Inr (updated, put_node node updated s)))"

definition finalize_node_delete :: "uuid \<Rightarrow> node_store \<Rightarrow> unit store_result" where
  "finalize_node_delete node_id s =
     (case find_node node_id s of
        None \<Rightarrow> Inr ((), s)
      | Some node \<Rightarrow>
          if nd_state node \<noteq> NS_DELETING \<or> nd_registered_cameras node \<noteq> 0
          then Inl (NodeLifecycleConflict ''node_delete_not_ready'')
          else Inr ((), s\<lparr>st_nodes := remove1 node (st_nodes s),
                          st_lifecycle_locks := removeAll node_id (st_lifecycle_locks s)\<rparr>))"

definition request_stop ::
  "uuid \<Rightarrow> node_command_fence option \<Rightarrow> node_store \<Rightarrow> media_node store_result" where
  "request_stop node_id fence s =
     (case find_node node_id s of
        None \<Rightarrow> Inl (NodeNotFound ''node_not_found'')
      | Some node \<Rightarrow>
         (case require_node_command_fence node fence of
            Some e \<Rightarrow> Inl e
          | None \<Rightarrow>
              if list_node_active_moves node_id s \<noteq> []
              then Inl (NodeLifecycleConflict ''node_operation_in_progress'')
              else if nd_registered_cameras node \<noteq> 0 then Inl (NodeNotEmpty ''node_not_empty'')
              else if nd_state node = NS_STOPPED then Inr (node, s)
              else if nd_state node \<notin> {NS_PROVISIONING, NS_RUNNING, NS_DRAINING, NS_MAINTENANCE}
              then Inl (NodeLifecycleConflict ''node_stop_source_state_invalid'')
              else let updated = node\<lparr>nd_state := NS_STOPPED, nd_maintenance := False,
                                      nd_desired_revision := nd_desired_revision node + 1\<rparr>
                   in Inr (updated, put_node node updated s)))"

definition request_restart ::
  "uuid \<Rightarrow> node_command_fence option \<Rightarrow> node_store \<Rightarrow> media_node store_result" where
  "request_restart node_id fence s =
     (case find_node node_id s of
        None \<Rightarrow> Inl (NodeNotFound ''node_not_found'')
      | Some node \<Rightarrow>
         (case require_node_command_fence node fence of
            Some e \<Rightarrow> Inl e
          | None \<Rightarrow>
              if list_node_active_moves node_id s \<noteq> []
              then Inl (NodeLifecycleConflict ''node_operation_in_progress'')
              else if nd_state node \<noteq> NS_RUNNING then Inl (NodeLifecycleConflict ''node_not_running'')
              else if nd_registered_cameras node \<noteq> 0 then Inl (NodeNotEmpty ''node_not_empty'')
              else let updated = node\<lparr>nd_desired_revision := nd_desired_revision node + 1\<rparr>
                   in Inr (updated, put_node node updated s)))"

definition blast_radius_of :: "sha256_fn \<Rightarrow> camera_placement list \<Rightarrow> string" where
  "blast_radius_of sha cameras =
     camera_placement_fingerprint sha (map (\<lambda>c. (cp_id c, cp_placement_generation c)) cameras)"

definition blast_radius_changed ::
  "store_env \<Rightarrow> media_node \<Rightarrow> int \<Rightarrow> string \<Rightarrow> node_store \<Rightarrow> bool" where
  "blast_radius_changed env node expected_registered_cameras expected_blast_radius_sha256 s \<longleftrightarrow>
     (let cameras = live_node_cameras (nd_id node) s in
      nd_registered_cameras node \<noteq> expected_registered_cameras
      \<or> int (length cameras) \<noteq> expected_registered_cameras
      \<or> blast_radius_of (env_sha256 env) cameras \<noteq> expected_blast_radius_sha256)"

definition reconfigured_node :: "(string \<times> string) option \<Rightarrow> media_node \<Rightarrow> media_node" where
  "reconfigured_node release node =
     (let release_changed = (case release of None \<Rightarrow> False
            | Some (r, d) \<Rightarrow> nd_release_id node \<noteq> r \<or> nd_mediamtx_binary_sha256 node \<noteq> d) in
      node\<lparr>nd_release_id := (case release of None \<Rightarrow> nd_release_id node | Some (r, d) \<Rightarrow> r),
           nd_mediamtx_binary_sha256 :=
             (case release of None \<Rightarrow> nd_mediamtx_binary_sha256 node | Some (r, d) \<Rightarrow> d),
           nd_desired_revision := nd_desired_revision node + 1,
           nd_applied_revision := (if release_changed then 0 else nd_applied_revision node),
           nd_management_fresh := False,
           nd_management_observed_at := None,
           nd_config_compatible := False\<rparr>)"

text \<open>
  The two optional arguments \<^verbatim>\<open>release_id\<close> and \<^verbatim>\<open>mediamtx_binary_sha256\<close> must be given together.
\<close>

definition request_reconfigure ::
  "store_env \<Rightarrow> uuid \<Rightarrow> int \<Rightarrow> int \<Rightarrow> string \<Rightarrow> string option \<Rightarrow> string option \<Rightarrow> node_store
   \<Rightarrow> media_node store_result" where
  "request_reconfigure env node_id expected_revision expected_registered_cameras
     expected_blast_radius_sha256 release_id mediamtx_binary_sha256 s =
     (if (release_id = None) \<noteq> (mediamtx_binary_sha256 = None)
      then Inl (ValueError ''node_release_identity_incomplete'')
      else let release = (case (release_id, mediamtx_binary_sha256) of
                            (Some r, Some d) \<Rightarrow> Some (r, d) | _ \<Rightarrow> None) in
      case (case release of None \<Rightarrow> None | Some (r, d) \<Rightarrow> validate_release r d) of
        Some e \<Rightarrow> Inl e
      | None \<Rightarrow>
         (case find_node node_id s of
            None \<Rightarrow> Inl (NodeNotFound ''node_not_found'')
          | Some node \<Rightarrow>
              if nd_state node \<noteq> NS_DRAINING then Inl (NodeLifecycleConflict ''node_not_draining'')
              else if nd_runtime_state node \<notin> {NS_RUNNING, NS_STOPPED, NS_FAILED}
              then Inl (NodeLifecycleConflict ''node_reconfigure_runtime_invalid'')
              else if nd_desired_revision node \<noteq> expected_revision
              then Inl (NodeLifecycleConflict ''node_revision_conflict'')
              else if list_node_active_moves node_id s \<noteq> [] \<or> node_has_prepared_port_change node_id s
              then Inl (NodeLifecycleConflict ''node_operation_in_progress'')
              else if blast_radius_changed env node expected_registered_cameras
                        expected_blast_radius_sha256 s
              then Inl (NodeLifecycleConflict ''node_blast_radius_changed'')
              else let updated = reconfigured_node release node
                   in Inr (updated, put_node node updated s)))"

definition request_release ::
  "uuid \<Rightarrow> string \<Rightarrow> string \<Rightarrow> node_command_fence option \<Rightarrow> node_store \<Rightarrow> media_node store_result" where
  "request_release node_id release_id mediamtx_binary_sha256 fence s =
     (case validate_release release_id mediamtx_binary_sha256 of
        Some e \<Rightarrow> Inl e
      | None \<Rightarrow>
         (case find_node node_id s of
            None \<Rightarrow> Inl (NodeNotFound ''node_not_found'')
          | Some node \<Rightarrow>
             (case require_node_command_fence node fence of
                Some e \<Rightarrow> Inl e
              | None \<Rightarrow>
                  if list_node_active_moves node_id s \<noteq> []
                  then Inl (NodeLifecycleConflict ''node_operation_in_progress'')
                  else if nd_state node \<noteq> NS_STOPPED \<or> nd_runtime_state node \<noteq> NS_STOPPED
                          \<or> nd_registered_cameras node \<noteq> 0
                          \<or> nd_applied_revision node \<noteq> nd_desired_revision node
                  then Inl (NodeReleaseConflict ''node_release_transition_requires_stopped_empty'')
                  else if nd_release_id node = release_id
                          \<and> nd_mediamtx_binary_sha256 node = mediamtx_binary_sha256
                  then Inr (node, s)
                  else let updated = node\<lparr>nd_release_id := release_id,
                                          nd_mediamtx_binary_sha256 := mediamtx_binary_sha256,
                                          nd_desired_revision := nd_desired_revision node + 1,
                                          nd_applied_revision := 0,
                                          nd_config_compatible := False,
                                          nd_management_fresh := False,
                                          nd_management_observed_at := None\<rparr>
                       in Inr (updated, put_node node updated s))))"

end
