(* ===== verification/Port_Store.thy ===== *)
theory Port_Store
  imports Node_Store
begin

text \<open>
  \<^verbatim>\<open>InMemoryNodeStore\<close>, part two: the durable record of a change of a node's external port. A
  change is prepared, which reserves the new port, and then completed or aborted on the evidence
  of a runtime observation.
\<close>

definition begin_port_change ::
  "store_env \<Rightarrow> uuid \<Rightarrow> uuid \<Rightarrow> int \<Rightarrow> int list \<Rightarrow> int \<Rightarrow> int \<Rightarrow> string \<Rightarrow> node_store
   \<Rightarrow> node_port_change store_result" where
  "begin_port_change env change_id node_id new_port allowed_ports expected_revision
     expected_registered_cameras expected_blast_radius_sha256 s =
     (case find_node node_id s of
        None \<Rightarrow> Inl (NodeNotFound ''node_not_found'')
      | Some node \<Rightarrow>
          if new_port \<notin> set allowed_ports then Inl (NodePortOutOfRange ''node_port_out_of_range'')
          else if nd_state node \<noteq> NS_RUNNING \<or> nd_runtime_state node \<noteq> NS_RUNNING
          then Inl (NodeLifecycleConflict ''node_not_running'')
          else if nd_desired_revision node \<noteq> expected_revision
          then Inl (NodeLifecycleConflict ''node_revision_conflict'')
          else if blast_radius_changed env node expected_registered_cameras
                    expected_blast_radius_sha256 s
          then Inl (NodeLifecycleConflict ''node_blast_radius_changed'')
          else if nd_external_port node = new_port
          then Inl (NodeLifecycleConflict ''node_port_unchanged'')
          else if list_ex (\<lambda>n. nd_external_port n = new_port \<and> nd_id n \<noteq> node_id) (st_nodes s)
                  \<or> list_ex (\<lambda>c. pc_new_port c = new_port \<and> pc_state c = PC_PREPARED) (st_port_changes s)
          then Inl (NodePortInUse ''node_port_in_use'')
          else if node_has_prepared_port_change node_id s
          then Inl (NodeLifecycleConflict ''node_port_change_in_progress'')
          else if list_node_active_moves node_id s \<noteq> []
          then Inl (NodeLifecycleConflict ''node_camera_move_in_progress'')
          else let change = \<lparr>pc_id = change_id, pc_node_id = node_id,
                             pc_old_port = nd_external_port node, pc_new_port = new_port,
                             pc_source_revision = nd_desired_revision node,
                             pc_target_revision = nd_desired_revision node + 1,
                             pc_registered_cameras = expected_registered_cameras,
                             pc_blast_radius_sha256 = expected_blast_radius_sha256,
                             pc_state = PC_PREPARED\<rparr>
               in Inr (change, s\<lparr>st_port_changes := st_port_changes s @ [change]\<rparr>))"

definition list_incomplete_port_changes :: "node_store \<Rightarrow> node_port_change list" where
  "list_incomplete_port_changes s = prepared_changes s"

definition repoint_cameras :: "uuid \<Rightarrow> int \<Rightarrow> camera_placement list \<Rightarrow> camera_placement list" where
  "repoint_cameras node_id new_port =
     map (\<lambda>camera. if cp_node_id camera = node_id \<and> cp_state camera \<noteq> CS_DELETED
                   then camera\<lparr>cp_node_port := new_port\<rparr> else camera)"

definition complete_port_change ::
  "store_env \<Rightarrow> uuid \<Rightarrow> node_runtime_observation \<Rightarrow> node_store \<Rightarrow> media_node store_result" where
  "complete_port_change env change_id ob s =
     (case find_change change_id s of
        None \<Rightarrow> Inl (NodeNotFound ''node_port_change_not_found'')
      | Some change \<Rightarrow>
         (case find_node (pc_node_id change) s of
            None \<Rightarrow> Inl StopIteration
          | Some node \<Rightarrow>
              if pc_state change = PC_COMPLETE then Inr (node, s)
              else if pc_state change \<noteq> PC_PREPARED
              then Inl (NodeLifecycleConflict ''node_port_change_not_prepared'')
              else let provisional = node\<lparr>nd_external_port := pc_new_port change,
                                          nd_desired_revision := pc_target_revision change\<rparr> in
              case validate_runtime_observation provisional ob of
                Some e \<Rightarrow> Inl e
              | None \<Rightarrow>
                 (let updated = observed_node (env_utc_now env) ob provisional in
                  Inr (updated,
                       s\<lparr>st_nodes := replace_first node updated (st_nodes s),
                         st_cameras := repoint_cameras (nd_id node) (pc_new_port change) (st_cameras s),
                         st_port_changes := replace_first change (change\<lparr>pc_state := PC_COMPLETE\<rparr>)
                                              (st_port_changes s)\<rparr>))))"

definition abort_port_change ::
  "store_env \<Rightarrow> uuid \<Rightarrow> node_runtime_observation \<Rightarrow> node_store \<Rightarrow> media_node store_result" where
  "abort_port_change env change_id ob s =
     (case find_change change_id s of
        None \<Rightarrow> Inl (NodeNotFound ''node_port_change_not_found'')
      | Some change \<Rightarrow>
         (case find_node (pc_node_id change) s of
            None \<Rightarrow> Inl StopIteration
          | Some node \<Rightarrow>
              if pc_state change = PC_ABORTED then Inr (node, s)
              else if pc_state change \<noteq> PC_PREPARED
              then Inl (NodeLifecycleConflict ''node_port_change_not_prepared'')
              else let restored = node\<lparr>nd_external_port := pc_old_port change,
                                       nd_desired_revision := pc_source_revision change\<rparr> in
              case validate_runtime_observation restored ob of
                Some e \<Rightarrow> Inl e
              | None \<Rightarrow>
                 (let updated = observed_node (env_utc_now env) ob restored in
                  Inr (updated,
                       s\<lparr>st_nodes := replace_first node updated (st_nodes s),
                         st_port_changes := replace_first change (change\<lparr>pc_state := PC_ABORTED\<rparr>)
                                              (st_port_changes s)\<rparr>))))"

end
