(* ===== verification/Camera_Store.thy ===== *)
theory Camera_Store
  imports Node_Store
begin

text \<open>
  \<^verbatim>\<open>InMemoryNodeStore\<close>, part three: placement of cameras on nodes (automatic, manual and
  idempotent), the catalog, and the changes of one camera.
\<close>

section \<open>Selection\<close>

text \<open>Python's \<^verbatim>\<open>min(xs, key=f)\<close> of a non-empty list: the first element with the least key.\<close>

fun min_by :: "('a \<Rightarrow> 'k::linorder) \<Rightarrow> 'a \<Rightarrow> 'a list \<Rightarrow> 'a" where
  "min_by f best [] = best"
| "min_by f best (x # xs) = min_by f (if f x < f best then x else best) xs"

lemma min_by_mem: "min_by f x xs \<in> insert x (set xs)"
  by (induction xs arbitrary: x) (auto split: if_splits)

lemma min_by_le: "y \<in> insert x (set xs) \<Longrightarrow> f (min_by f x xs) \<le> f y"
proof (induction xs arbitrary: x y)
  case (Cons z zs)
  let ?b = "if f z < f x then z else x"
  have b: "f (min_by f ?b zs) \<le> f ?b" by (rule Cons.IH) simp
  show ?case
  proof (cases "y \<in> set zs")
    case True
    then show ?thesis using Cons.IH [where x = ?b and y = y] by simp
  next
    case False
    with Cons.prems have "f ?b \<le> f y" by auto
    with b show ?thesis by simp
  qed
qed simp

definition load_key :: "media_node \<Rightarrow> int \<times> int \<times> nat" where
  "load_key node = (nd_registered_cameras node, nd_active_sources node, uuid_int (nd_id node))"

definition placement_candidates :: "store_env \<Rightarrow> int \<Rightarrow> node_store \<Rightarrow> media_node list" where
  "placement_candidates env management_freshness_seconds s =
     filter (\<lambda>node. is_node_eligible node management_freshness_seconds (env_utc_now env)
                    \<and> \<not> node_has_prepared_port_change (nd_id node) s) (st_nodes s)"

section \<open>Placement\<close>

record camera_request =
  cr_camera_id :: uuid
  cr_name :: string
  cr_source_url :: string
  cr_public_id :: public_id
  cr_management_freshness_seconds :: int
  cr_probe_endpoint :: "admitted_probe_endpoint option"

text \<open>The common tail of both placements: record the camera, count it on the selected node.\<close>

definition place_on ::
  "media_node \<Rightarrow> camera_placement \<Rightarrow> node_store \<Rightarrow> node_store" where
  "place_on selected placement s =
     s\<lparr>st_cameras := st_cameras s @ [placement],
       st_nodes := replace_first selected
         (selected\<lparr>nd_registered_cameras := nd_registered_cameras selected + 1\<rparr>) (st_nodes s)\<rparr>"

definition place_camera_automatically ::
  "store_env \<Rightarrow> camera_request \<Rightarrow> node_store \<Rightarrow> camera_placement store_result" where
  "place_camera_automatically env rq s =
     (case validate_camera_name (cr_name rq) of
        Inl e \<Rightarrow> Inl e
      | Inr name \<Rightarrow>
         (case validate_camera_source_url (cr_source_url rq) True of
            Inl e \<Rightarrow> Inl e
          | Inr source_url \<Rightarrow>
             (case placement_candidates env (cr_management_freshness_seconds rq) s of
                [] \<Rightarrow> Inl (EligibleNodeMissing ''eligible_node_missing'')
              | n # ns \<Rightarrow>
                 (let selected = min_by load_key n ns in
                  case probe_endpoint_identity (env_sha256 env) source_url (cr_probe_endpoint rq) of
                    Inl e \<Rightarrow> Inl e
                  | Inr endpoint \<Rightarrow>
                     (let placement = new_camera_placement (cr_camera_id rq) name source_url
                            (cr_public_id rq) (nd_id selected) (nd_external_port selected)
                            PM_AUTOMATIC endpoint
                      in Inr (placement, place_on selected placement s))))))"

definition place_camera_manually ::
  "store_env \<Rightarrow> camera_request \<Rightarrow> uuid \<Rightarrow> node_store \<Rightarrow> camera_placement store_result" where
  "place_camera_manually env rq node_id s =
     (case validate_camera_name (cr_name rq) of
        Inl e \<Rightarrow> Inl e
      | Inr name \<Rightarrow>
         (case validate_camera_source_url (cr_source_url rq) True of
            Inl e \<Rightarrow> Inl e
          | Inr source_url \<Rightarrow>
             (case find_node node_id s of
                None \<Rightarrow> Inl (NodeNotFound ''node_not_found'')
              | Some selected \<Rightarrow>
                  if nd_registered_cameras selected \<ge> nd_camera_capacity selected
                  then Inl (NodeCameraCapacityReached ''node_camera_capacity_reached'')
                  else if node_has_prepared_port_change node_id s
                  then Inl (EligibleNodeMissing ''manual_node_ineligible'')
                  else if \<not> is_node_eligible selected (cr_management_freshness_seconds rq)
                              (env_utc_now env)
                  then Inl (EligibleNodeMissing ''manual_node_ineligible'')
                  else
                   (case probe_endpoint_identity (env_sha256 env) source_url (cr_probe_endpoint rq) of
                      Inl e \<Rightarrow> Inl e
                    | Inr endpoint \<Rightarrow>
                       (let placement = new_camera_placement (cr_camera_id rq) name source_url
                              (cr_public_id rq) (nd_id selected) (nd_external_port selected)
                              PM_MANUAL endpoint
                        in Inr (placement, place_on selected placement s))))))"

definition camera_registration_target_id ::
  "uuid \<times> string \<times> uuid option \<Rightarrow> registration_idempotency \<Rightarrow> py_error + uuid option" where
  "camera_registration_target_id previous idempotency =
     (case previous of (account_id, request_sha256, camera_id) \<Rightarrow>
        if account_id \<noteq> ri_actor_account_id idempotency
           \<or> request_sha256 \<noteq> ri_request_sha256 idempotency
        then Inl (CameraLifecycleConflict ''camera_idempotency_conflict'')
        else Inr camera_id)"

text \<open>\<^verbatim>\<open>next((c for c in cameras if c.id == camera_id and c.state is not DELETED), None)\<close>\<close>

definition live_camera :: "uuid \<Rightarrow> node_store \<Rightarrow> camera_placement option" where
  "live_camera camera_id s =
     find (\<lambda>c. cp_id c = camera_id \<and> cp_state c \<noteq> CS_DELETED) (st_cameras s)"

text \<open>The answer to a request whose key is recorded: an error, a replay, or still open.\<close>

definition replay_camera_registration ::
  "uuid \<times> string \<times> uuid option \<Rightarrow> registration_idempotency \<Rightarrow> node_store
   \<Rightarrow> py_error + camera_placement option" where
  "replay_camera_registration previous idempotency s =
     (case camera_registration_target_id previous idempotency of
        Inl e \<Rightarrow> Inl e
      | Inr None \<Rightarrow> Inr None
      | Inr (Some camera_id) \<Rightarrow>
         (case live_camera camera_id s of
            None \<Rightarrow> Inl (CameraLifecycleConflict ''camera_idempotency_target_missing'')
          | Some camera \<Rightarrow> Inr (Some camera)))"

definition place_camera_idempotently ::
  "store_env \<Rightarrow> camera_request \<Rightarrow> uuid option \<Rightarrow> registration_idempotency \<Rightarrow> node_store
   \<Rightarrow> (camera_placement \<times> bool) store_result" where
  "place_camera_idempotently env rq node_id idempotency s =
     (case st_camera_registration_requests s (request_key_of idempotency) of
        None \<Rightarrow> Inl (NodeRuntimeUnavailable ''camera_registration_reservation_missing'')
      | Some previous \<Rightarrow>
         (case replay_camera_registration previous idempotency s of
            Inl e \<Rightarrow> Inl e
          | Inr (Some camera) \<Rightarrow> Inr ((camera, True), s)
          | Inr None \<Rightarrow>
             (case (case node_id of None \<Rightarrow> place_camera_automatically env rq s
                    | Some n \<Rightarrow> place_camera_manually env rq n s) of
                Inl e \<Rightarrow> Inl e
              | Inr (camera, s') \<Rightarrow>
                  Inr ((camera, False),
                       s'\<lparr>st_camera_registration_requests := (st_camera_registration_requests s')
                            (request_key_of idempotency \<mapsto>
                               (ri_actor_account_id idempotency, ri_request_sha256 idempotency,
                                Some (cp_id camera)))\<rparr>))))"

definition reserve_camera_registration ::
  "registration_idempotency \<Rightarrow> node_store \<Rightarrow> camera_placement option store_result" where
  "reserve_camera_registration idempotency s =
     (case st_camera_registration_requests s (request_key_of idempotency) of
        None \<Rightarrow>
          Inr (None, s\<lparr>st_camera_registration_requests := (st_camera_registration_requests s)
                 (request_key_of idempotency \<mapsto>
                    (ri_actor_account_id idempotency, ri_request_sha256 idempotency, None))\<rparr>)
      | Some previous \<Rightarrow>
         (case replay_camera_registration previous idempotency s of
            Inl e \<Rightarrow> Inl e
          | Inr found \<Rightarrow> Inr (found, s)))"

definition lookup_camera_registration ::
  "registration_idempotency \<Rightarrow> node_store \<Rightarrow> py_error + camera_placement option" where
  "lookup_camera_registration idempotency s =
     (case st_camera_registration_requests s (request_key_of idempotency) of
        None \<Rightarrow> Inr None
      | Some previous \<Rightarrow> replay_camera_registration previous idempotency s)"

section \<open>Queries\<close>

definition list_camera_creation_targets :: "store_env \<Rightarrow> int \<Rightarrow> node_store \<Rightarrow> media_node list" where
  "list_camera_creation_targets env management_freshness_seconds s =
     sort_key load_key (placement_candidates env management_freshness_seconds s)"

definition list_cameras :: "node_store \<Rightarrow> camera_placement list" where
  "list_cameras s = filter (\<lambda>c. cp_state c \<noteq> CS_DELETED) (st_cameras s)"

definition get_cameras :: "uuid list \<Rightarrow> node_store \<Rightarrow> camera_placement list" where
  "get_cameras camera_ids s =
     filter (\<lambda>c. cp_id c \<in> set camera_ids \<and> cp_state c \<noteq> CS_DELETED) (st_cameras s)"

text \<open>The in-memory store keeps no access times: a valid batch always gives the empty map.\<close>

definition latest_camera_accesses :: "uuid list \<Rightarrow> py_error + (uuid \<rightharpoonup> datetime)" where
  "latest_camera_accesses camera_ids =
     (if \<not> (1 \<le> length camera_ids \<and> length camera_ids \<le> 256)
         \<or> length (remdups camera_ids) \<noteq> length camera_ids
      then Inl (ValueError ''camera_live_target_batch_invalid'')
      else Inr Map.empty)"

definition catalog_matches :: "camera_catalog_query \<Rightarrow> camera_placement \<Rightarrow> bool" where
  "catalog_matches q camera \<longleftrightarrow>
     cp_state camera \<noteq> CS_DELETED
     \<and> (case cq_after q of None \<Rightarrow> True | Some a \<Rightarrow> a < cp_id camera)
     \<and> (case cq_node_id q of None \<Rightarrow> True | Some n \<Rightarrow> cp_node_id camera = n)
     \<and> (case cq_state q of None \<Rightarrow> True | Some st \<Rightarrow> cp_state camera = st)
     \<and> (case cq_search q of None \<Rightarrow> True
        | Some t \<Rightarrow> sublist t (cp_name camera) \<or> sublist t (cp_public_id camera))"

text \<open>\<^verbatim>\<open>_camera_catalog_item\<close> without the source: it validates the stored name again.\<close>

definition camera_catalog_item_of ::
  "(string \<times> bool) option \<Rightarrow> string \<Rightarrow> camera_placement \<Rightarrow> py_error + camera_catalog_item" where
  "camera_catalog_item_of source node_name camera =
     (case validate_camera_name (cp_name camera) of
        Inl e \<Rightarrow> Inl e
      | Inr name \<Rightarrow>
          Inr \<lparr>ci_id = cp_id camera, ci_name = name, ci_public_id = cp_public_id camera,
               ci_node_id = cp_node_id camera, ci_node_name = node_name,
               ci_node_port = cp_node_port camera, ci_placement_mode = cp_placement_mode camera,
               ci_state = cp_state camera, ci_desired_revision = cp_desired_revision camera,
               ci_applied_revision = cp_applied_revision camera,
               ci_source_address = map_option fst source,
               ci_source_credentials_configured = map_option snd source\<rparr>)"

text \<open>\<^verbatim>\<open>{node.id: node.name for node in nodes}\<close>: the last node with an id wins.\<close>

definition node_names :: "node_store \<Rightarrow> uuid \<rightharpoonup> string" where
  "node_names s = map_of (rev (map (\<lambda>n. (nd_id n, nd_name n)) (st_nodes s)))"

fun catalog_items ::
  "(uuid \<rightharpoonup> string) \<Rightarrow> camera_placement list \<Rightarrow> py_error + camera_catalog_item list" where
  "catalog_items names [] = Inr []"
| "catalog_items names (c # cs) =
     (case names (cp_node_id c) of
        None \<Rightarrow> Inl KeyError
      | Some node_name \<Rightarrow>
         (case camera_catalog_item_of None node_name c of
            Inl e \<Rightarrow> Inl e
          | Inr item \<Rightarrow> map_sum id ((#) item) (catalog_items names cs)))"

definition catalog_candidates :: "camera_catalog_query \<Rightarrow> node_store \<Rightarrow> camera_placement list" where
  "catalog_candidates q s =
     sort_key (\<lambda>c. uuid_int (cp_id c)) (filter (catalog_matches q) (st_cameras s))"

definition camera_catalog ::
  "camera_catalog_query \<Rightarrow> node_store \<Rightarrow> py_error + camera_catalog_page" where
  "camera_catalog q s =
     (let limit = nat (cq_limit q);
          selected = take (limit + 1) (catalog_candidates q s);
          has_more = length selected > limit
      in case catalog_items (node_names s) (take limit selected) of
           Inl e \<Rightarrow> Inl e
         | Inr items \<Rightarrow>
             checked camera_catalog_page_post_init
               \<lparr>pg_items = items,
                pg_next_after = (if has_more then Some (ci_id (last items)) else None)\<rparr>)"

definition get_camera :: "uuid \<Rightarrow> node_store \<Rightarrow> camera_placement option" where
  "get_camera camera_id s = live_camera camera_id s"

definition list_node_cameras :: "uuid \<Rightarrow> node_store \<Rightarrow> py_error + camera_placement list" where
  "list_node_cameras node_id s =
     (if \<not> list_ex (\<lambda>n. nd_id n = node_id) (st_nodes s)
      then Inl (NodeNotFound ''node_not_found'')
      else Inr (live_node_cameras node_id s))"

section \<open>Changes of one camera\<close>

definition put_camera :: "camera_placement \<Rightarrow> camera_placement \<Rightarrow> node_store \<Rightarrow> node_store" where
  "put_camera old new s = s\<lparr>st_cameras := replace_first old new (st_cameras s)\<rparr>"

definition camera_has_active_move :: "uuid \<Rightarrow> node_store \<Rightarrow> bool" where
  "camera_has_active_move camera_id s =
     list_ex (\<lambda>m. mv_camera_id m = camera_id \<and> \<not> camera_move_is_terminal (mv_state m))
       (st_camera_moves s)"

definition require_no_active_camera_move :: "uuid \<Rightarrow> node_store \<Rightarrow> py_error option" where
  "require_no_active_camera_move camera_id s =
     (if camera_has_active_move camera_id s
      then Some (CameraLifecycleConflict ''camera_move_in_progress'') else None)"

definition revision_mismatch :: "int option \<Rightarrow> camera_placement \<Rightarrow> bool" where
  "revision_mismatch expected camera =
     (case expected of None \<Rightarrow> False | Some r \<Rightarrow> cp_desired_revision camera \<noteq> r)"

definition update_camera ::
  "store_env \<Rightarrow> uuid \<Rightarrow> string \<Rightarrow> string \<Rightarrow> int option \<Rightarrow> admitted_probe_endpoint option \<Rightarrow> node_store
   \<Rightarrow> camera_placement store_result" where
  "update_camera env camera_id new_name new_source_url expected_revision probe_endpoint s =
     (case validate_camera_name new_name of
        Inl e \<Rightarrow> Inl e
      | Inr name \<Rightarrow>
         (case validate_camera_source_url new_source_url True of
            Inl e \<Rightarrow> Inl e
          | Inr source_url \<Rightarrow>
             (case find_camera camera_id s of
                None \<Rightarrow> Inl (CameraNotFound ''camera_not_found'')
              | Some camera \<Rightarrow>
                  if cp_state camera = CS_DELETED then Inl (CameraNotFound ''camera_not_found'')
                  else if cp_state camera = CS_DELETING
                  then Inl (CameraLifecycleConflict ''camera_deleting'')
                  else if revision_mismatch expected_revision camera
                  then Inl (CameraRevisionConflict (the expected_revision) (cp_desired_revision camera))
                  else (case require_no_active_camera_move camera_id s of
                    Some e \<Rightarrow> Inl e
                  | None \<Rightarrow>
                      if node_has_prepared_port_change (cp_node_id camera) s
                      then Inl (CameraLifecycleConflict ''node_port_change_in_progress'')
                      else
                       (let source_changed = (cp_source_url camera \<noteq> source_url);
                            readmission_requested = (probe_endpoint \<noteq> None) in
                        case (if source_changed \<or> readmission_requested
                              then probe_endpoint_identity (env_sha256 env) source_url probe_endpoint
                              else Inr (cp_probe_endpoint camera)) of
                          Inl e \<Rightarrow> Inl e
                        | Inr endpoint_identity \<Rightarrow>
                           (let endpoint_changed = (source_changed
                                  \<or> (readmission_requested
                                     \<and> endpoint_identity \<noteq> cp_probe_endpoint camera)) in
                            if cp_name camera = name \<and> \<not> source_changed \<and> \<not> endpoint_changed
                            then Inr (camera, s)
                            else let updated = camera\<lparr>cp_name := name, cp_source_url := source_url,
                                       cp_desired_revision := cp_desired_revision camera + 1,
                                       cp_probe_endpoint := endpoint_identity\<rparr>
                                 in Inr (updated, put_camera camera updated s)))))))"

definition set_camera_enabled ::
  "uuid \<Rightarrow> bool \<Rightarrow> int option \<Rightarrow> node_store \<Rightarrow> camera_placement store_result" where
  "set_camera_enabled camera_id enabled expected_revision s =
     (case find_camera camera_id s of
        None \<Rightarrow> Inl (CameraNotFound ''camera_not_found'')
      | Some camera \<Rightarrow>
          if cp_state camera = CS_DELETED then Inl (CameraNotFound ''camera_not_found'')
          else if cp_state camera = CS_DELETING
          then Inl (CameraLifecycleConflict ''camera_deleting'')
          else if revision_mismatch expected_revision camera
          then Inl (CameraRevisionConflict (the expected_revision) (cp_desired_revision camera))
          else (case require_no_active_camera_move camera_id s of
            Some e \<Rightarrow> Inl e
          | None \<Rightarrow>
              if node_has_prepared_port_change (cp_node_id camera) s
              then Inl (CameraLifecycleConflict ''node_port_change_in_progress'')
              else let target = (if enabled then CS_ENABLED else CS_DISABLED) in
                if cp_state camera = target then Inr (camera, s)
                else let updated = camera\<lparr>cp_state := target,
                           cp_desired_revision := cp_desired_revision camera + 1\<rparr>
                     in Inr (updated, put_camera camera updated s)))"

definition request_camera_delete ::
  "uuid \<Rightarrow> int option \<Rightarrow> node_store \<Rightarrow> camera_placement store_result" where
  "request_camera_delete camera_id expected_revision s =
     (case find_camera camera_id s of
        None \<Rightarrow> Inl (CameraNotFound ''camera_not_found'')
      | Some camera \<Rightarrow>
          if cp_state camera = CS_DELETED then Inl (CameraNotFound ''camera_not_found'')
          else if revision_mismatch expected_revision camera
          then Inl (CameraRevisionConflict (the expected_revision) (cp_desired_revision camera))
          else if cp_state camera = CS_DELETING then Inr (camera, s)
          else (case require_no_active_camera_move camera_id s of
            Some e \<Rightarrow> Inl e
          | None \<Rightarrow>
              if node_has_prepared_port_change (cp_node_id camera) s
              then Inl (CameraLifecycleConflict ''node_port_change_in_progress'')
              else let updated = camera\<lparr>cp_state := CS_DELETING,
                         cp_desired_revision := cp_desired_revision camera + 1\<rparr>
                   in Inr (updated, put_camera camera updated s)))"

end
