(* ===== verification/Move_Store.thy ===== *)
theory Move_Store
  imports Camera_Store
begin

text \<open>
  \<^verbatim>\<open>InMemoryNodeStore\<close>, part four: the durable record of moving a camera to another node, and the
  acknowledgement of an applied camera revision. A move is created on the source node, switched
  to the target at one point in time, and then walks through its cleanup states; or it is aborted
  before the switch.
\<close>

definition camera_endpoint :: "int \<Rightarrow> public_id \<Rightarrow> string" where
  "camera_endpoint port public_id = ''rtsp://server:'' @ str_int port @ ''/'' @ public_id"

definition new_camera_move ::
  "store_env \<Rightarrow> uuid \<Rightarrow> camera_placement \<Rightarrow> media_node \<Rightarrow> media_node \<Rightarrow> bool \<Rightarrow> int \<Rightarrow> int \<Rightarrow> camera_move" where
  "new_camera_move env move_id camera source target force confirmed_disconnect_readers timeout_seconds =
     \<lparr>mv_id = move_id, mv_camera_id = cp_id camera, mv_public_id = cp_public_id camera,
      mv_source_url = cp_source_url camera, mv_source_node_id = cp_node_id camera,
      mv_target_node_id = nd_id target,
      mv_source_generation = cp_placement_generation camera,
      mv_target_generation = cp_placement_generation camera + 1,
      mv_desired_revision = cp_desired_revision camera + 1,
      mv_force = force, mv_confirmed_disconnect_readers = confirmed_disconnect_readers,
      mv_source_port = Some (nd_external_port source),
      mv_target_port = Some (nd_external_port target),
      mv_source_endpoint = Some (camera_endpoint (nd_external_port source) (cp_public_id camera)),
      mv_target_endpoint = Some (camera_endpoint (nd_external_port target) (cp_public_id camera)),
      mv_expires_at = env_clock env + seconds timeout_seconds,
      mv_abort_reason = None, mv_state = CM_PREPARE_TARGET\<rparr>"

definition create_camera_move ::
  "store_env \<Rightarrow> uuid \<Rightarrow> uuid \<Rightarrow> uuid \<Rightarrow> int \<Rightarrow> bool \<Rightarrow> int \<Rightarrow> int \<Rightarrow> int \<Rightarrow> node_store
   \<Rightarrow> camera_move store_result" where
  "create_camera_move env move_id camera_id target_node_id expected_revision force
     confirmed_disconnect_readers timeout_seconds management_freshness_seconds s =
     (if timeout_seconds < 1 \<or> timeout_seconds > 3600
      then Inl (ValueError ''camera_move_timeout_invalid'')
      else case find_camera camera_id s of
        None \<Rightarrow> Inl (CameraNotFound ''camera_not_found'')
      | Some camera \<Rightarrow>
          if cp_state camera = CS_DELETED then Inl (CameraNotFound ''camera_not_found'')
          else if cp_state camera \<noteq> CS_ENABLED then Inl (CameraLifecycleConflict ''camera_not_enabled'')
          else if cp_desired_revision camera \<noteq> expected_revision
          then Inl (CameraRevisionConflict expected_revision (cp_desired_revision camera))
          else if cp_node_id camera = target_node_id
          then Inl (CameraLifecycleConflict ''camera_already_on_target'')
          else (case find_node target_node_id s of
            None \<Rightarrow> Inl (NodeNotFound ''node_not_found'')
          | Some target \<Rightarrow>
              if \<not> is_node_eligible target management_freshness_seconds (env_clock env)
              then Inl (EligibleNodeMissing ''manual_node_ineligible'')
              else if node_has_prepared_port_change (cp_node_id camera) s
                      \<or> node_has_prepared_port_change target_node_id s
              then Inl (CameraLifecycleConflict ''node_port_change_in_progress'')
              else if camera_has_active_move camera_id s
              then Inl (CameraLifecycleConflict ''camera_move_in_progress'')
              else (case find_node (cp_node_id camera) s of
                None \<Rightarrow> Inl StopIteration
              | Some source \<Rightarrow>
                 (case checked camera_move_post_init
                         (new_camera_move env move_id camera source target force
                            confirmed_disconnect_readers timeout_seconds) of
                    Inl e \<Rightarrow> Inl e
                  | Inr move \<Rightarrow>
                      Inr (move,
                           s\<lparr>st_camera_moves := st_camera_moves s @ [move],
                             st_cameras := replace_first camera
                               (camera\<lparr>cp_desired_revision := cp_desired_revision camera + 1\<rparr>)
                               (st_cameras s)\<rparr>)))))"

definition get_camera_move :: "uuid \<Rightarrow> node_store \<Rightarrow> camera_move option" where
  "get_camera_move move_id s = find_move move_id s"

definition list_incomplete_camera_moves :: "node_store \<Rightarrow> camera_move list" where
  "list_incomplete_camera_moves s =
     filter (\<lambda>m. \<not> camera_move_is_terminal (mv_state m)) (st_camera_moves s)"

definition put_move :: "camera_move \<Rightarrow> camera_move \<Rightarrow> node_store \<Rightarrow> node_store" where
  "put_move old new s = s\<lparr>st_camera_moves := replace_first old new (st_camera_moves s)\<rparr>"

text \<open>
  The switch checks the target's eligibility with the default freshness of 30 seconds and the
  wall clock, where the expiry uses the store's clock. The source count is written before the
  target is looked up for its own update.
\<close>

definition switch_camera_move ::
  "store_env \<Rightarrow> uuid \<Rightarrow> bool \<Rightarrow> node_store \<Rightarrow> camera_move store_result" where
  "switch_camera_move env move_id cancelled s =
     (if cancelled then Inl (NodeLifecycleBusy ''node_lifecycle_busy'')
      else case find_move move_id s of
        None \<Rightarrow> Inl (CameraNotFound ''camera_move_not_found'')
      | Some move \<Rightarrow>
          if mv_state move \<noteq> CM_PREPARE_TARGET then Inr (move, s)
          else if mv_expires_at move \<le> env_clock env then Inl (CameraMoveExpired ''camera_move_expired'')
          else (case (find_camera (mv_camera_id move) s, find_node (mv_source_node_id move) s,
                      find_node (mv_target_node_id move) s) of
            (Some camera, Some source, Some target) \<Rightarrow>
              if cp_node_id camera \<noteq> mv_source_node_id move
                 \<or> cp_placement_generation camera \<noteq> mv_source_generation move
                 \<or> cp_desired_revision camera \<noteq> mv_desired_revision move
              then Inl (CameraLifecycleConflict ''camera_move_fenced'')
              else if nd_registered_cameras target \<ge> nd_camera_capacity target
              then Inl (NodeCameraCapacityReached ''node_camera_capacity_reached'')
              else if \<not> is_node_eligible target 30 (env_utc_now env)
              then Inl (EligibleNodeMissing ''manual_node_ineligible'')
              else if node_has_prepared_port_change (nd_id source) s
                      \<or> node_has_prepared_port_change (nd_id target) s
              then Inl (CameraLifecycleConflict ''node_port_change_in_progress'')
              else let updated = move\<lparr>mv_state := CM_CLEANUP_SOURCE\<rparr> in
                Inr (updated,
                     s\<lparr>st_nodes := replace_first target
                          (target\<lparr>nd_registered_cameras := nd_registered_cameras target + 1\<rparr>)
                          (replace_first source
                             (source\<lparr>nd_registered_cameras := nd_registered_cameras source - 1\<rparr>)
                             (st_nodes s)),
                       st_cameras := replace_first camera
                          (camera\<lparr>cp_node_id := nd_id target,
                                  cp_node_port := nd_external_port target,
                                  cp_placement_mode := PM_MANUAL,
                                  cp_placement_generation := mv_target_generation move\<rparr>)
                          (st_cameras s),
                       st_camera_moves := replace_first move updated (st_camera_moves s)\<rparr>)
          | _ \<Rightarrow> Inl StopIteration))"

definition mark_camera_move_source_cleaned :: "uuid \<Rightarrow> node_store \<Rightarrow> camera_move store_result" where
  "mark_camera_move_source_cleaned move_id s =
     (case find_move move_id s of
        None \<Rightarrow> Inl (CameraNotFound ''camera_move_not_found'')
      | Some move \<Rightarrow>
          if mv_state move = CM_ACTIVATE_TARGET then Inr (move, s)
          else if mv_state move \<noteq> CM_CLEANUP_SOURCE
          then Inl (CameraLifecycleConflict ''camera_move_not_switched'')
          else let updated = move\<lparr>mv_state := CM_ACTIVATE_TARGET\<rparr>
               in Inr (updated, put_move move updated s))"

definition request_camera_move_abort ::
  "uuid \<Rightarrow> string \<Rightarrow> bool \<Rightarrow> node_store \<Rightarrow> camera_move store_result" where
  "request_camera_move_abort move_id reason cancelled s =
     (if cancelled then Inl (NodeLifecycleBusy ''node_lifecycle_busy'')
      else case find_move move_id s of
        None \<Rightarrow> Inl (CameraNotFound ''camera_move_not_found'')
      | Some move \<Rightarrow>
          if camera_move_is_terminal (mv_state move) \<or> mv_state move = CM_CLEANUP_TARGET
          then Inr (move, s)
          else if mv_state move \<noteq> CM_PREPARE_TARGET
          then Inl (CameraLifecycleConflict ''camera_move_already_switched'')
          else (case find_camera (mv_camera_id move) s of
            None \<Rightarrow> Inl StopIteration
          | Some camera \<Rightarrow>
             (let cameras = (if cp_desired_revision camera = mv_desired_revision move
                    then replace_first camera
                           (camera\<lparr>cp_desired_revision := cp_desired_revision camera + 1\<rparr>)
                           (st_cameras s)
                    else st_cameras s);
                  updated = move\<lparr>mv_state := CM_CLEANUP_TARGET, mv_abort_reason := Some reason\<rparr>
              in Inr (updated,
                      s\<lparr>st_cameras := cameras,
                        st_camera_moves := replace_first move updated (st_camera_moves s)\<rparr>))))"

definition abort_camera_move :: "uuid \<Rightarrow> node_store \<Rightarrow> camera_move store_result" where
  "abort_camera_move move_id s =
     (case find_move move_id s of
        None \<Rightarrow> Inl (CameraNotFound ''camera_move_not_found'')
      | Some move \<Rightarrow>
          if mv_state move = CM_ABORTED then Inr (move, s)
          else if mv_state move \<noteq> CM_CLEANUP_TARGET
          then Inl (CameraLifecycleConflict ''camera_move_abort_not_prepared'')
          else let updated = move\<lparr>mv_state := CM_ABORTED\<rparr>
               in Inr (updated, put_move move updated s))"

definition complete_camera_move :: "uuid \<Rightarrow> node_store \<Rightarrow> camera_move store_result" where
  "complete_camera_move move_id s =
     (case find_move move_id s of
        None \<Rightarrow> Inl (CameraNotFound ''camera_move_not_found'')
      | Some move \<Rightarrow>
          if mv_state move = CM_COMPLETE then Inr (move, s)
          else if mv_state move \<noteq> CM_ACTIVATE_TARGET
          then Inl (CameraLifecycleConflict ''camera_move_not_switched'')
          else (case find_camera (mv_camera_id move) s of
            None \<Rightarrow> Inl StopIteration
          | Some camera \<Rightarrow>
             (let updated = move\<lparr>mv_state := CM_COMPLETE\<rparr> in
              Inr (updated,
                   s\<lparr>st_cameras := replace_first camera
                        (camera\<lparr>cp_applied_revision := mv_desired_revision move\<rparr>) (st_cameras s),
                     st_camera_moves := replace_first move updated (st_camera_moves s)\<rparr>))))"

definition mark_camera_applied ::
  "uuid \<Rightarrow> uuid \<Rightarrow> int \<Rightarrow> int \<Rightarrow> node_store \<Rightarrow> bool store_result" where
  "mark_camera_applied camera_id node_id placement_generation desired_revision s =
     (case find_camera camera_id s of
        None \<Rightarrow> Inr (False, s)
      | Some camera \<Rightarrow>
          if cp_node_id camera \<noteq> node_id
             \<or> cp_placement_generation camera \<noteq> placement_generation
             \<or> cp_desired_revision camera \<noteq> desired_revision
          then Inr (False, s)
          else if camera_has_active_move camera_id s then Inr (False, s)
          else if cp_state camera = CS_DELETING
          then (case find_node node_id s of
                  None \<Rightarrow> Inl StopIteration
                | Some node \<Rightarrow>
                    Inr (True,
                         s\<lparr>st_nodes := replace_first node
                              (node\<lparr>nd_registered_cameras := nd_registered_cameras node - 1\<rparr>)
                              (st_nodes s),
                           st_cameras := replace_first camera
                              (camera\<lparr>cp_state := CS_DELETED, cp_applied_revision := desired_revision\<rparr>)
                              (st_cameras s)\<rparr>))
          else Inr (True, put_camera camera
                            (camera\<lparr>cp_applied_revision := desired_revision\<rparr>) s))"

end
