(* ===== verification/Store_Invariant.thy ===== *)
theory Store_Invariant
  imports Port_Store Move_Store
begin

text \<open>
  What \<^verbatim>\<open>InMemoryNodeStore\<close> keeps true between its four tables, and the lemmas that say how a
  single write affects each part. The parts are bool-valued functions, so that a concrete store
  can be checked by evaluation.
\<close>

interpretation node_table: keyed_table nd_id .
interpretation camera_table: keyed_table cp_id .
interpretation move_table: keyed_table mv_id .
interpretation change_table: keyed_table pc_id .

section \<open>Views\<close>

definition port_of :: "node_store \<Rightarrow> uuid \<Rightarrow> int option" where
  "port_of s i = map_option nd_external_port (find_node i s)"

definition live_count :: "node_store \<Rightarrow> uuid \<Rightarrow> int" where
  "live_count s i = int (length (live_node_cameras i s))"

definition active_moves :: "node_store \<Rightarrow> camera_move list" where
  "active_moves s = filter (\<lambda>m. \<not> camera_move_is_terminal (mv_state m)) (st_camera_moves s)"

section \<open>The invariant\<close>

definition ids_ok :: "node_store \<Rightarrow> bool" where
  "ids_ok s \<longleftrightarrow> distinct (map nd_id (st_nodes s)) \<and> distinct (map cp_id (st_cameras s))
     \<and> distinct (map mv_id (st_camera_moves s)) \<and> distinct (map pc_id (st_port_changes s))"

definition locks_ok :: "node_store \<Rightarrow> bool" where
  "locks_ok s \<longleftrightarrow> set (st_lifecycle_locks s) = nd_id ` set (st_nodes s)"

text \<open>No port is used or reserved twice.\<close>

definition ports_ok :: "node_store \<Rightarrow> bool" where
  "ports_ok s \<longleftrightarrow> distinct (occupied_ports s)"

definition change_ok :: "node_store \<Rightarrow> node_port_change \<Rightarrow> bool" where
  "change_ok s c \<longleftrightarrow>
     port_of s (pc_node_id c) = Some (pc_old_port c)
     \<and> 1 \<le> pc_source_revision c \<and> pc_target_revision c = pc_source_revision c + 1"

definition changes_ok :: "node_store \<Rightarrow> bool" where
  "changes_ok s \<longleftrightarrow>
     list_all (change_ok s) (prepared_changes s) \<and> distinct (map pc_node_id (prepared_changes s))"

definition placement_ok :: "node_store \<Rightarrow> camera_placement \<Rightarrow> bool" where
  "placement_ok s c \<longleftrightarrow>
     (cp_state c \<noteq> CS_DELETED \<longrightarrow> port_of s (cp_node_id c) = Some (cp_node_port c))
     \<and> 0 \<le> cp_applied_revision c \<and> cp_applied_revision c \<le> cp_desired_revision c
     \<and> 1 \<le> cp_desired_revision c"

definition placements_ok :: "node_store \<Rightarrow> bool" where
  "placements_ok s \<longleftrightarrow> list_all (placement_ok s) (st_cameras s)"

definition revision_ok :: "media_node \<Rightarrow> bool" where
  "revision_ok n \<longleftrightarrow> 0 \<le> nd_applied_revision n \<and> nd_applied_revision n \<le> nd_desired_revision n
     \<and> 1 \<le> nd_desired_revision n"

definition quiet_node :: "node_store \<Rightarrow> uuid \<Rightarrow> bool" where
  "quiet_node s i \<longleftrightarrow> list_node_active_moves i s = [] \<and> \<not> node_has_prepared_port_change i s"

definition node_ok :: "node_store \<Rightarrow> media_node \<Rightarrow> bool" where
  "node_ok s n \<longleftrightarrow>
     nd_registered_cameras n = live_count s (nd_id n)
     \<and> nd_registered_cameras n \<le> nd_camera_capacity n
     \<and> revision_ok n
     \<and> (nd_state n = NS_DELETING \<longrightarrow> nd_registered_cameras n = 0 \<and> quiet_node s (nd_id n))"

definition nodes_ok :: "node_store \<Rightarrow> bool" where
  "nodes_ok s \<longleftrightarrow> list_all (node_ok s) (st_nodes s)"

text \<open>Where a moving camera is, by the phase of its move.\<close>

fun phase_ok :: "camera_move \<Rightarrow> camera_placement \<Rightarrow> camera_move_state \<Rightarrow> bool" where
  "phase_ok m c CM_PREPARE_TARGET \<longleftrightarrow>
     cp_node_id c = mv_source_node_id m \<and> cp_placement_generation c = mv_source_generation m
     \<and> cp_desired_revision c = mv_desired_revision m"
| "phase_ok m c CM_CLEANUP_SOURCE \<longleftrightarrow>
     cp_node_id c = mv_target_node_id m \<and> cp_placement_generation c = mv_target_generation m
     \<and> cp_desired_revision c = mv_desired_revision m"
| "phase_ok m c CM_ACTIVATE_TARGET \<longleftrightarrow>
     cp_node_id c = mv_target_node_id m \<and> cp_placement_generation c = mv_target_generation m
     \<and> cp_desired_revision c = mv_desired_revision m"
| "phase_ok m c CM_CLEANUP_TARGET \<longleftrightarrow>
     cp_node_id c = mv_source_node_id m \<and> cp_placement_generation c = mv_source_generation m"
| "phase_ok m c CM_COMPLETE = True"
| "phase_ok m c CM_ABORTED = True"

definition moving_camera_ok :: "camera_move \<Rightarrow> camera_placement option \<Rightarrow> bool" where
  "moving_camera_ok m found =
     (case found of
        None \<Rightarrow> False
      | Some c \<Rightarrow> cp_state c = CS_ENABLED \<and> cp_public_id c = mv_public_id m \<and> phase_ok m c (mv_state m))"

definition move_ok :: "node_store \<Rightarrow> camera_move \<Rightarrow> bool" where
  "move_ok s m \<longleftrightarrow>
     moving_camera_ok m (find_camera (mv_camera_id m) s)
     \<and> mv_source_port m \<noteq> None \<and> port_of s (mv_source_node_id m) = mv_source_port m
     \<and> mv_target_port m \<noteq> None \<and> port_of s (mv_target_node_id m) = mv_target_port m
     \<and> mv_source_node_id m \<noteq> mv_target_node_id m
     \<and> mv_target_generation m = mv_source_generation m + 1
     \<and> \<not> node_has_prepared_port_change (mv_source_node_id m) s
     \<and> \<not> node_has_prepared_port_change (mv_target_node_id m) s
     \<and> camera_move_post_init m = None"

definition moves_ok :: "node_store \<Rightarrow> bool" where
  "moves_ok s \<longleftrightarrow>
     list_all (move_ok s) (active_moves s) \<and> distinct (map mv_camera_id (active_moves s))"

definition store_inv :: "node_store \<Rightarrow> bool" where
  "store_inv s \<longleftrightarrow> ids_ok s \<and> locks_ok s \<and> ports_ok s \<and> changes_ok s \<and> placements_ok s
     \<and> nodes_ok s \<and> moves_ok s"

lemmas inv_parts = store_inv_def ids_ok_def locks_ok_def ports_ok_def changes_ok_def
  placements_ok_def nodes_ok_def moves_ok_def

section \<open>Elementary consequences\<close>

lemma store_invD:
  assumes "store_inv s"
  shows "ids_ok s" "locks_ok s" "ports_ok s" "changes_ok s" "placements_ok s" "nodes_ok s" "moves_ok s"
  using assms by (auto simp: store_inv_def)

lemma inv_node_ok: "store_inv s \<Longrightarrow> find_node i s = Some n \<Longrightarrow> node_ok s n"
  by (auto simp: store_inv_def nodes_ok_def list_all_iff dest: find_by_SomeD)

lemma inv_placement_ok: "store_inv s \<Longrightarrow> c \<in> set (st_cameras s) \<Longrightarrow> placement_ok s c"
  by (auto simp: store_inv_def placements_ok_def list_all_iff)

lemma inv_move_ok:
  "store_inv s \<Longrightarrow> m \<in> set (st_camera_moves s) \<Longrightarrow> \<not> camera_move_is_terminal (mv_state m) \<Longrightarrow> move_ok s m"
  by (auto simp: store_inv_def moves_ok_def active_moves_def list_all_iff)

lemma inv_change_ok:
  "store_inv s \<Longrightarrow> c \<in> set (st_port_changes s) \<Longrightarrow> pc_state c = PC_PREPARED \<Longrightarrow> change_ok s c"
  by (auto simp: store_inv_def changes_ok_def prepared_changes_def list_all_iff)

lemma inv_distinct:
  assumes "store_inv s"
  shows "distinct (map nd_id (st_nodes s))" "distinct (map cp_id (st_cameras s))"
    "distinct (map mv_id (st_camera_moves s))" "distinct (map pc_id (st_port_changes s))"
  using assms by (auto simp: store_inv_def ids_ok_def)

lemma find_node_key: "find_node i s = Some n \<Longrightarrow> nd_id n = i"
  by (auto dest: find_by_SomeD)

lemma find_camera_key: "find_camera i s = Some c \<Longrightarrow> cp_id c = i"
  by (auto dest: find_by_SomeD)

lemma find_move_key: "find_move i s = Some m \<Longrightarrow> mv_id m = i"
  by (auto dest: find_by_SomeD)

lemma find_change_key: "find_change i s = Some c \<Longrightarrow> pc_id c = i"
  by (auto dest: find_by_SomeD)

lemma list_node_active_moves_Nil:
  "list_node_active_moves i s = [] \<longleftrightarrow>
   (\<forall>m \<in> set (active_moves s). mv_source_node_id m \<noteq> i \<and> mv_target_node_id m \<noteq> i)"
  by (auto simp: list_node_active_moves_def active_moves_def filter_empty_conv)

lemma node_has_prepared_iff:
  "node_has_prepared_port_change i s \<longleftrightarrow> i \<in> pc_node_id ` set (prepared_changes s)"
  by (auto simp: node_has_prepared_port_change_def prepared_changes_def list_ex_iff)

lemma camera_has_active_move_iff:
  "camera_has_active_move i s \<longleftrightarrow> i \<in> mv_camera_id ` set (active_moves s)"
  by (auto simp: camera_has_active_move_def active_moves_def list_ex_iff)

lemma init_store_inv:
  assumes "distinct (map nd_id nodes)" and "distinct (map nd_external_port nodes)"
    and "\<forall>n \<in> set nodes. nd_registered_cameras n = 0 \<and> 0 \<le> nd_camera_capacity n \<and> revision_ok n"
  shows "store_inv (init_store nodes)"
  using assms
  by (auto simp: inv_parts init_store_def occupied_ports_def prepared_changes_def active_moves_def
      list_all_iff node_ok_def live_count_def live_node_cameras_def quiet_node_def
      list_node_active_moves_def node_has_prepared_port_change_def)

section \<open>Commands on one node\<close>

text \<open>
  Eight store operations rewrite the record of one node and nothing else: they keep the node's
  identity, its ports and its camera count. Their common contract, and what every client may
  conclude from it.
\<close>

definition same_identity :: "media_node \<Rightarrow> media_node \<Rightarrow> bool" where
  "same_identity old new \<longleftrightarrow>
     nd_id new = nd_id old \<and> nd_name new = nd_name old
     \<and> nd_external_port new = nd_external_port old \<and> nd_api_port new = nd_api_port old
     \<and> nd_metrics_port new = nd_metrics_port old
     \<and> nd_creation_mode new = nd_creation_mode old
     \<and> nd_registered_cameras new = nd_registered_cameras old
     \<and> nd_camera_capacity new = nd_camera_capacity old
     \<and> nd_active_sources new = nd_active_sources old"

lemma put_node_views:
  assumes "find_node (nd_id old) s = Some old" and "same_identity old new"
  shows "port_of (put_node old new s) i = port_of s i"
    and "prepared_changes (put_node old new s) = prepared_changes s"
    and "active_moves (put_node old new s) = active_moves s"
    and "live_count (put_node old new s) i = live_count s i"
    and "occupied_ports (put_node old new s) = occupied_ports s"
    and "st_cameras (put_node old new s) = st_cameras s"
    and "st_camera_moves (put_node old new s) = st_camera_moves s"
    and "st_port_changes (put_node old new s) = st_port_changes s"
    and "st_lifecycle_locks (put_node old new s) = st_lifecycle_locks s"
    and "map nd_id (st_nodes (put_node old new s)) = map nd_id (st_nodes s)"
  using assms
  by (auto simp: put_node_def port_of_def same_identity_def prepared_changes_def active_moves_def
      live_count_def live_node_cameras_def occupied_ports_def map_replace_first find_by_replace_first)

lemma put_node_find:
  assumes "find_node (nd_id old) s = Some old" and "nd_id new = nd_id old"
  shows "find_node i (put_node old new s) = (if i = nd_id old then Some new else find_node i s)"
  using assms by (simp add: put_node_def find_by_replace_first)

lemma put_node_inv:
  assumes inv: "store_inv s" and f: "find_node (nd_id old) s = Some old"
    and same: "same_identity old new" and rev: "revision_ok new"
    and del: "nd_state new = NS_DELETING \<longrightarrow> nd_registered_cameras old = 0 \<and> quiet_node s (nd_id old)"
  shows "store_inv (put_node old new s)"
proof -
  let ?s = "put_node old new s"
  note v = put_node_views [OF f same]
  have prep: "node_has_prepared_port_change i ?s = node_has_prepared_port_change i s" for i
    by (simp add: node_has_prepared_iff v)
  have quiet: "quiet_node ?s i = quiet_node s i" for i
    by (simp add: quiet_node_def list_node_active_moves_Nil v prep)
  have "ids_ok ?s" using inv by (simp add: store_inv_def ids_ok_def v)
  moreover have "locks_ok ?s"
  proof -
    have "nd_id ` set (st_nodes ?s) = nd_id ` set (st_nodes s)" using v(10) by (metis image_set)
    with inv show ?thesis by (simp add: store_inv_def locks_ok_def v)
  qed
  moreover have "ports_ok ?s" using inv by (simp add: store_inv_def ports_ok_def v)
  moreover have "changes_ok ?s"
    using inv by (simp add: store_inv_def changes_ok_def change_ok_def v list_all_iff)
  moreover have "placements_ok ?s"
    using inv by (simp add: store_inv_def placements_ok_def placement_ok_def v list_all_iff)
  moreover have "moves_ok ?s"
    using inv by (simp add: store_inv_def moves_ok_def move_ok_def v prep list_all_iff)
  moreover have "nodes_ok ?s"
  proof -
    have "node_ok ?s n" if "n \<in> set (st_nodes ?s)" for n
    proof -
      from that have "n = new \<or> n \<in> set (st_nodes s)"
        using set_replace_first_subset [of old new "st_nodes s"] by (auto simp: put_node_def)
      then show ?thesis
      proof
        assume "n = new"
        with inv_node_ok [OF inv f] same rev del show ?thesis
          by (auto simp: node_ok_def same_identity_def v quiet)
      next
        assume "n \<in> set (st_nodes s)"
        with inv have "node_ok s n" by (auto simp: store_inv_def nodes_ok_def list_all_iff)
        then show ?thesis by (auto simp: node_ok_def v quiet)
      qed
    qed
    then show ?thesis by (simp add: nodes_ok_def list_all_iff)
  qed
  ultimately show ?thesis by (simp add: store_inv_def)
qed

lemma put_node_same [simp]: "put_node n n s = s"
  by (simp add: put_node_def)

definition node_effect :: "uuid \<Rightarrow> node_store \<Rightarrow> media_node \<Rightarrow> node_store \<Rightarrow> media_node \<Rightarrow> bool" where
  "node_effect i s n s' old \<longleftrightarrow>
     find_node i s = Some old \<and> same_identity old n \<and> s' = put_node old n s
     \<and> nd_desired_revision old \<le> nd_desired_revision n
     \<and> (revision_ok old \<longrightarrow> revision_ok n)
     \<and> (nd_state n = NS_DELETING \<longrightarrow>
          nd_state old = NS_DELETING \<or> (nd_registered_cameras old = 0 \<and> quiet_node s i))"

lemma node_effect_inv:
  assumes inv: "store_inv s" and e: "node_effect i s n s' old"
  shows "store_inv s'"
proof -
  have f: "find_node (nd_id old) s = Some old" and i: "nd_id old = i"
    using e find_node_key by (auto simp: node_effect_def)
  show ?thesis
    using e inv_node_ok [OF inv f] put_node_inv [OF inv f, of n] by (auto simp: node_effect_def node_ok_def i)
qed

locale node_command =
  fixes cmd :: "uuid \<Rightarrow> node_store \<Rightarrow> media_node store_result"
  assumes effect: "cmd i s = Inr (n, s') \<Longrightarrow> \<exists>old. node_effect i s n s' old"
begin

lemma preserves: "store_inv s \<Longrightarrow> cmd i s = Inr (n, s') \<Longrightarrow> store_inv s'"
  using effect node_effect_inv by blast

lemma result_stored:
  "cmd i s = Inr (n, s') \<Longrightarrow> find_node i s' = Some n \<and> nd_id n = i"
  using effect [of i s n s'] find_node_key
  by (auto simp: node_effect_def same_identity_def put_node_find)

lemma other_nodes:
  "cmd i s = Inr (n, s') \<Longrightarrow> j \<noteq> i \<Longrightarrow> find_node j s' = find_node j s"
  using effect [of i s n s'] find_node_key
  by (auto simp: node_effect_def same_identity_def put_node_find)

lemma frame:
  assumes "cmd i s = Inr (n, s')"
  shows "st_cameras s' = st_cameras s" "st_camera_moves s' = st_camera_moves s"
    "st_port_changes s' = st_port_changes s" "st_lifecycle_locks s' = st_lifecycle_locks s"
    "st_registration_requests s' = st_registration_requests s"
    "st_camera_registration_requests s' = st_camera_registration_requests s"
  using effect [OF assms] by (auto simp: node_effect_def put_node_def)

lemma ports_kept: "cmd i s = Inr (n, s') \<Longrightarrow> port_of s' j = port_of s j"
  using effect [of i s n s'] put_node_views(1) find_node_key by (fastforce simp: node_effect_def)

lemma revision_grows:
  "cmd i s = Inr (n, s') \<Longrightarrow>
   \<exists>old. find_node i s = Some old \<and> nd_desired_revision old \<le> nd_desired_revision n"
  using effect [of i s n s'] by (auto simp: node_effect_def)

end

lemma validate_runtime_observation_revision:
  "validate_runtime_observation n ob = None \<Longrightarrow>
   0 \<le> ob_applied_revision ob \<and> ob_applied_revision ob \<le> nd_desired_revision n"
  by (auto simp: validate_runtime_observation_def Let_def split: if_splits)

lemma node_effect_refl:
  "find_node i s = Some n \<Longrightarrow> node_effect i s n s n"
  by (simp add: node_effect_def same_identity_def)

interpretation observation_cmd: node_command "\<lambda>i. apply_runtime_observation env i ob" for env ob
proof
  fix i s n s'
  assume run: "apply_runtime_observation env i ob s = Inr (n, s')"
  then obtain old where f: "find_node i s = Some old"
    and v: "validate_runtime_observation old ob = None"
    and n: "n = observed_node (env_utc_now env) ob old" and s': "s' = put_node old n s"
    by (auto simp: apply_runtime_observation_def Let_def split: option.splits)
  have "node_effect i s n s' old"
    using f s' validate_runtime_observation_revision [OF v]
    by (auto simp: node_effect_def n observed_node_def same_identity_def revision_ok_def)
  then show "\<exists>old. node_effect i s n s' old" ..
qed

lemmas command_defs = node_effect_def same_identity_def revision_ok_def Let_def

interpretation desired_cmd: node_command "\<lambda>i. request_desired_state i NS_RUNNING fence" for fence
  by unfold_locales
    (auto simp: request_desired_state_def command_defs intro!: node_effect_refl
      split: option.splits if_splits)

interpretation administrative_cmd: node_command "\<lambda>i. request_administrative_state i st fence" for st fence
proof
  fix i s n s'
  assume "request_administrative_state i st fence s = Inr (n, s')"
  then show "\<exists>old. node_effect i s n s' old"
    by (cases st) (auto simp: request_administrative_state_def command_defs
        split: option.splits if_splits)
qed

interpretation delete_cmd: node_command "\<lambda>i. request_node_delete i fence" for fence
  by unfold_locales
    (auto simp: request_node_delete_def command_defs quiet_node_def split: option.splits if_splits)

interpretation stop_cmd: node_command "\<lambda>i. request_stop i fence" for fence
  by unfold_locales
    (auto simp: request_stop_def command_defs split: option.splits if_splits)

interpretation restart_cmd: node_command "\<lambda>i. request_restart i fence" for fence
  by unfold_locales
    (auto simp: request_restart_def command_defs split: option.splits if_splits)

interpretation reconfigure_cmd:
  node_command "\<lambda>i. request_reconfigure env i rev count radius release digest" for env rev count radius release digest
  by unfold_locales
    (auto simp: request_reconfigure_def reconfigured_node_def command_defs split: option.splits if_splits)

interpretation release_cmd: node_command "\<lambda>i. request_release i release digest fence" for release digest fence
  by unfold_locales
    (auto simp: request_release_def command_defs split: option.splits if_splits)

end
