(* ===== verification/Store_Preservation.thy ===== *)
theory Store_Preservation
  imports Store_Invariant
begin

text \<open>
  The store operations that write more than one record: every one of them keeps the invariant of
  \<^verbatim>\<open>Store_Invariant\<close>. Most reduce to one lemma about writes that change cameras, moves and camera
  counts and leave the rest of every node as it is.
\<close>

section \<open>Writes outside the four tables\<close>

lemma store_inv_cong:
  assumes "st_nodes s' = st_nodes s" "st_cameras s' = st_cameras s"
    "st_camera_moves s' = st_camera_moves s" "st_port_changes s' = st_port_changes s"
    "st_lifecycle_locks s' = st_lifecycle_locks s"
  shows "store_inv s' = store_inv s"
proof -
  have prep: "prepared_changes s' = prepared_changes s" using assms by (simp add: prepared_changes_def)
  have act: "active_moves s' = active_moves s" using assms by (simp add: active_moves_def)
  have port: "port_of s' = port_of s" using assms by (simp add: port_of_def fun_eq_iff)
  have live: "live_count s' = live_count s"
    using assms by (simp add: live_count_def live_node_cameras_def fun_eq_iff)
  have quiet: "quiet_node s' = quiet_node s"
    by (simp add: fun_eq_iff quiet_node_def list_node_active_moves_Nil node_has_prepared_iff prep act)
  have "node_ok s' = node_ok s" by (simp add: fun_eq_iff node_ok_def live quiet)
  moreover have "move_ok s' = move_ok s"
    using assms by (simp add: fun_eq_iff move_ok_def port node_has_prepared_iff prep)
  moreover have "change_ok s' = change_ok s" by (simp add: fun_eq_iff change_ok_def port)
  moreover have "placement_ok s' = placement_ok s" by (simp add: fun_eq_iff placement_ok_def port)
  ultimately show ?thesis
    using assms by (simp add: inv_parts occupied_ports_def prep act)
qed

section \<open>Writes to cameras, moves and counts\<close>

definition same_but_count :: "media_node \<Rightarrow> media_node \<Rightarrow> bool" where
  "same_but_count n n' \<longleftrightarrow> n' = n\<lparr>nd_registered_cameras := nd_registered_cameras n'\<rparr>"

lemma same_but_count_refl [simp]: "same_but_count n n"
  by (simp add: same_but_count_def)

lemma same_but_count_update [simp]: "same_but_count n (n\<lparr>nd_registered_cameras := k\<rparr>)"
  by (simp add: same_but_count_def)

lemma same_but_count_trans: "same_but_count a b \<Longrightarrow> same_but_count b c \<Longrightarrow> same_but_count a c"
  unfolding same_but_count_def by (cases a, cases b, cases c) simp

lemma same_but_countD:
  assumes "same_but_count n n'"
  shows "nd_id n' = nd_id n" "nd_external_port n' = nd_external_port n"
    "nd_camera_capacity n' = nd_camera_capacity n" "revision_ok n' = revision_ok n"
    "nd_state n' = nd_state n"
proof -
  obtain k where "n' = n\<lparr>nd_registered_cameras := k\<rparr>" using assms by (auto simp: same_but_count_def)
  then show "nd_id n' = nd_id n" "nd_external_port n' = nd_external_port n"
    "nd_camera_capacity n' = nd_camera_capacity n" "revision_ok n' = revision_ok n"
    "nd_state n' = nd_state n"
    by (simp_all add: revision_ok_def)
qed

lemma recount_maps:
  assumes "list_all2 same_but_count ns ns'"
  shows "map nd_id ns' = map nd_id ns" "map nd_external_port ns' = map nd_external_port ns"
  using assms by (induction rule: list_all2_induct) (auto dest: same_but_countD)

lemma recount_find:
  assumes "list_all2 same_but_count ns ns'"
  shows "map_option nd_external_port (find_by nd_id i ns') = map_option nd_external_port (find_by nd_id i ns)"
  using assms by (induction rule: list_all2_induct) (auto dest: same_but_countD)

lemma recount_replace:
  "same_but_count old new \<Longrightarrow> list_all2 same_but_count ns (replace_first old new ns)"
  by (induction ns) (auto intro: list_all2_refl)

lemma recount_trans:
  "list_all2 same_but_count xs ys \<Longrightarrow> list_all2 same_but_count ys zs \<Longrightarrow> list_all2 same_but_count xs zs"
  by (rule list_all2_trans [OF same_but_count_trans])

lemma recount_inv:
  assumes inv: "store_inv s" and nodes: "list_all2 same_but_count (st_nodes s) ns"
    and s': "s' = s\<lparr>st_nodes := ns, st_cameras := cs, st_camera_moves := ms\<rparr>"
    and ids: "distinct (map cp_id cs)" "distinct (map mv_id ms)"
    and cams: "\<forall>c \<in> set cs. placement_ok s c"
    and node: "\<forall>n \<in> set ns. node_ok s' n"
    and moves: "moves_ok s'"
  shows "store_inv s'"
proof -
  note maps = recount_maps [OF nodes]
  have prep: "prepared_changes s' = prepared_changes s" by (simp add: s' prepared_changes_def)
  have port: "port_of s' i = port_of s i" for i
    by (simp add: s' port_of_def recount_find [OF nodes])
  have locks: "nd_id ` set ns = nd_id ` set (st_nodes s)" by (metis maps(1) image_set)
  have "ids_ok s'" using inv ids by (simp add: store_inv_def ids_ok_def s' maps)
  moreover have "locks_ok s'" using inv by (simp add: store_inv_def locks_ok_def s' locks)
  moreover have "ports_ok s'"
    using inv by (simp only: store_inv_def ports_ok_def occupied_ports_def prep) (simp add: s' maps)
  moreover have "changes_ok s'"
    using inv by (simp add: store_inv_def changes_ok_def change_ok_def prep port list_all_iff)
  moreover have "placements_ok s'"
    using cams by (simp add: placements_ok_def list_all_iff placement_ok_def port) (simp add: s')
  moreover have "nodes_ok s'" using node by (simp add: nodes_ok_def list_all_iff) (simp add: s')
  ultimately show ?thesis using moves by (simp add: store_inv_def)
qed

text \<open>What a write to the cameras and moves does to the views.\<close>

lemma live_count_replace:
  assumes "find_camera (cp_id old) s = Some old"
  shows "int (length (filter (\<lambda>c. cp_node_id c = i \<and> cp_state c \<noteq> CS_DELETED)
             (replace_first old new (st_cameras s)))) =
    live_count s i - of_bool (cp_node_id old = i \<and> cp_state old \<noteq> CS_DELETED)
      + of_bool (cp_node_id new = i \<and> cp_state new \<noteq> CS_DELETED)"
  using length_filter_replace_first [of old "st_cameras s"
      "\<lambda>c. cp_node_id c = i \<and> cp_state c \<noteq> CS_DELETED" new] assms
  by (auto simp: live_count_def live_node_cameras_def dest!: find_by_SomeD)

lemma inv_live_camera:
  assumes inv: "store_inv s" and c: "find_camera i s = Some c" and live: "cp_state c \<noteq> CS_DELETED"
  obtains n where "find_node (cp_node_id c) s = Some n" "cp_node_port c = nd_external_port n"
    "1 \<le> nd_registered_cameras n" "nd_state n \<noteq> NS_DELETING"
proof -
  have mem: "c \<in> set (st_cameras s)" using find_by_SomeD [OF c] by simp
  from inv_placement_ok [OF inv mem] live obtain n
    where n: "find_node (cp_node_id c) s = Some n" "cp_node_port c = nd_external_port n"
    by (auto simp: placement_ok_def port_of_def)
  have ok: "node_ok s n" by (rule inv_node_ok [OF inv n(1)])
  have "c \<in> set (live_node_cameras (nd_id n) s)"
    using mem live find_node_key [OF n(1)] by (simp add: live_node_cameras_def)
  then have "1 \<le> live_count s (nd_id n)"
    by (cases "live_node_cameras (nd_id n) s") (auto simp: live_count_def)
  with ok n that show thesis by (auto simp: node_ok_def)
qed

lemma find_active_move:
  assumes "store_inv s" "m \<in> set (active_moves s)"
  shows "find_move (mv_id m) s = Some m"
  using assms by (auto simp: active_moves_def inv_distinct find_by_distinct)

lemma inv_active_unique:
  assumes "store_inv s" "m \<in> set (active_moves s)" "m' \<in> set (active_moves s)"
    "mv_camera_id m = mv_camera_id m'"
  shows "m = m'"
  using assms by (auto simp: store_inv_def moves_ok_def distinct_map dest: inj_onD)

lemma idle_camera: "\<not> camera_has_active_move i s \<Longrightarrow> m \<in> set (active_moves s) \<Longrightarrow> mv_camera_id m \<noteq> i"
  by (auto simp: camera_has_active_move_iff)

section \<open>One camera\<close>

lemma put_camera_inv:
  assumes inv: "store_inv s" and f: "find_camera (cp_id old) s = Some old"
    and id: "cp_id new = cp_id old" and node: "cp_node_id new = cp_node_id old"
    and port: "cp_node_port new = cp_node_port old"
    and live: "cp_state new = CS_DELETED \<longleftrightarrow> cp_state old = CS_DELETED"
    and rev: "0 \<le> cp_applied_revision new" "cp_applied_revision new \<le> cp_desired_revision new"
      "1 \<le> cp_desired_revision new"
    and moving: "\<forall>m \<in> set (active_moves s). mv_camera_id m = cp_id old \<longrightarrow> moving_camera_ok m (Some new)"
  shows "store_inv (put_camera old new s)"
proof (rule recount_inv [OF inv])
  let ?s = "put_camera old new s"
  show "list_all2 same_but_count (st_nodes s) (st_nodes s)" by (simp add: list_all2_refl)
  show "?s = s\<lparr>st_nodes := st_nodes s, st_cameras := replace_first old new (st_cameras s),
      st_camera_moves := st_camera_moves s\<rparr>" by (simp add: put_camera_def)
  show "distinct (map cp_id (replace_first old new (st_cameras s)))"
    using inv_distinct(2) [OF inv] by (simp add: map_replace_first id)
  show "distinct (map mv_id (st_camera_moves s))" by (rule inv_distinct(3) [OF inv])
  have old: "placement_ok s old" using inv f by (auto intro: inv_placement_ok dest: find_by_SomeD)
  show "\<forall>c \<in> set (replace_first old new (st_cameras s)). placement_ok s c"
  proof
    fix c assume "c \<in> set (replace_first old new (st_cameras s))"
    then have "c = new \<or> c \<in> set (st_cameras s)" using set_replace_first_subset by fastforce
    then show "placement_ok s c"
      using old inv inv_placement_ok node port live rev by (auto simp: placement_ok_def)
  qed
  have act: "active_moves ?s = active_moves s" by (simp add: put_camera_def active_moves_def)
  have prep: "prepared_changes ?s = prepared_changes s" by (simp add: put_camera_def prepared_changes_def)
  have port: "port_of ?s = port_of s" by (simp add: fun_eq_iff put_camera_def port_of_def)
  have quiet: "quiet_node ?s = quiet_node s"
    by (simp add: fun_eq_iff quiet_node_def list_node_active_moves_Nil node_has_prepared_iff prep act)
  have count: "live_count ?s i = live_count s i" for i
    using live_count_replace [OF f, of i new] node live
    by (simp add: live_count_def live_node_cameras_def put_camera_def)
  show "\<forall>n \<in> set (st_nodes s). node_ok ?s n"
    using inv by (auto simp: store_inv_def nodes_ok_def list_all_iff node_ok_def count quiet)
  have find: "find_camera i ?s = (if i = cp_id old then Some new else find_camera i s)" for i
    using camera_table.lookup_update [OF f id] by (simp add: put_camera_def)
  have "move_ok ?s m" if "m \<in> set (active_moves s)" for m
  proof -
    from inv that have "move_ok s m" by (simp add: store_inv_def moves_ok_def list_all_iff)
    with moving that show ?thesis by (auto simp: move_ok_def port node_has_prepared_iff prep find)
  qed
  then show "moves_ok ?s" using inv by (simp add: store_inv_def moves_ok_def act list_all_iff)
qed

text \<open>
  Three store operations change one camera in place. They refuse while a move is active, and what
  they write keeps the camera where it is.
\<close>

definition camera_effect ::
  "uuid \<Rightarrow> node_store \<Rightarrow> camera_placement \<Rightarrow> node_store \<Rightarrow> camera_placement \<Rightarrow> bool" where
  "camera_effect i s c s' old \<longleftrightarrow>
     find_camera i s = Some old \<and> cp_state old \<noteq> CS_DELETED
     \<and> (c = old \<and> s' = s
        \<or> s' = put_camera old c s \<and> \<not> camera_has_active_move i s
          \<and> \<not> node_has_prepared_port_change (cp_node_id old) s
          \<and> cp_id c = i \<and> cp_public_id c = cp_public_id old
          \<and> cp_node_id c = cp_node_id old \<and> cp_node_port c = cp_node_port old
          \<and> cp_placement_generation c = cp_placement_generation old
          \<and> cp_placement_mode c = cp_placement_mode old
          \<and> cp_state c \<noteq> CS_DELETED
          \<and> cp_desired_revision c = cp_desired_revision old + 1
          \<and> cp_applied_revision c = cp_applied_revision old)"

locale camera_command =
  fixes cmd :: "uuid \<Rightarrow> node_store \<Rightarrow> camera_placement store_result"
  assumes effect: "cmd i s = Inr (c, s') \<Longrightarrow> \<exists>old. camera_effect i s c s' old"
begin

lemma preserves:
  assumes inv: "store_inv s" and run: "cmd i s = Inr (c, s')"
  shows "store_inv s'"
proof -
  from effect [OF run] obtain old where e: "camera_effect i s c s' old" ..
  then have f: "find_camera (cp_id old) s = Some old" and i: "cp_id old = i"
    using find_camera_key by (auto simp: camera_effect_def)
  have ok: "placement_ok s old" using inv f by (auto intro: inv_placement_ok dest: find_by_SomeD)
  show ?thesis
  proof (cases "s' = s")
    case False
    with e have n: "s' = put_camera old c s" and "\<not> camera_has_active_move i s"
      by (auto simp: camera_effect_def)
    then have "\<forall>m \<in> set (active_moves s). mv_camera_id m \<noteq> i"
      by (auto simp: camera_has_active_move_iff)
    with e f i n ok False show ?thesis
      by (auto simp: camera_effect_def placement_ok_def intro!: put_camera_inv [OF inv])
  qed (simp add: inv)
qed

lemma result_stored:
  assumes "cmd i s = Inr (c, s')"
  shows "find_camera i s' = Some c" "st_nodes s' = st_nodes s"
    "j \<noteq> i \<Longrightarrow> find_camera j s' = find_camera j s"
proof -
  from effect [OF assms] obtain old where e: "camera_effect i s c s' old" ..
  then have f: "find_camera (cp_id old) s = Some old" "cp_id old = i"
    using find_camera_key by (auto simp: camera_effect_def)
  then show "find_camera i s' = Some c" "st_nodes s' = st_nodes s"
    "j \<noteq> i \<Longrightarrow> find_camera j s' = find_camera j s"
    using e camera_table.lookup_update [OF f(1), of c]
    by (auto simp: camera_effect_def put_camera_def)
qed

lemma endpoint_kept:
  assumes "cmd i s = Inr (c, s')"
  shows "\<exists>old. find_camera i s = Some old \<and> cp_public_id c = cp_public_id old
    \<and> cp_node_id c = cp_node_id old \<and> cp_node_port c = cp_node_port old
    \<and> cp_desired_revision old \<le> cp_desired_revision c"
  using effect [OF assms] by (auto simp: camera_effect_def)

end

lemmas camera_command_defs = camera_effect_def require_no_active_camera_move_def Let_def

interpretation update_cmd: camera_command "\<lambda>i. update_camera env i name url rev probe" for env name url rev probe
proof
  fix i s c s'
  assume "update_camera env i name url rev probe s = Inr (c, s')"
  then show "\<exists>old. camera_effect i s c s' old"
    by (auto simp: update_camera_def camera_command_defs find_camera_key
        split: option.splits if_splits sum.splits)
qed

interpretation enable_cmd: camera_command "\<lambda>i. set_camera_enabled i enabled rev" for enabled rev
  by unfold_locales
    (auto simp: set_camera_enabled_def camera_command_defs find_camera_key split: option.splits if_splits)

interpretation delete_camera_cmd: camera_command "\<lambda>i. request_camera_delete i rev" for rev
  by unfold_locales
    (auto simp: request_camera_delete_def camera_command_defs find_camera_key split: option.splits if_splits)

section \<open>Placement and removal of a camera\<close>

lemma node_ok_recount:
  assumes "node_ok s n" and "same_but_count n n'"
    and "live_count s' (nd_id n) = live_count s (nd_id n) + k"
    and "nd_registered_cameras n' = nd_registered_cameras n + k"
    and "nd_registered_cameras n' \<le> nd_camera_capacity n"
    and "k = 0 \<or> nd_state n \<noteq> NS_DELETING"
    and "quiet_node s (nd_id n) \<Longrightarrow> nd_state n = NS_DELETING \<Longrightarrow> quiet_node s' (nd_id n)"
  shows "node_ok s' n'"
  using assms same_but_countD [OF assms(2)] by (auto simp: node_ok_def)

lemma place_on_inv:
  assumes inv: "store_inv s" and n: "find_node (nd_id n) s = Some n"
    and fresh: "cp_id c \<notin> cp_id ` set (st_cameras s)"
    and c: "cp_node_id c = nd_id n" "cp_node_port c = nd_external_port n" "cp_state c \<noteq> CS_DELETED"
      "0 \<le> cp_applied_revision c" "cp_applied_revision c \<le> cp_desired_revision c" "1 \<le> cp_desired_revision c"
    and room: "nd_registered_cameras n < nd_camera_capacity n" and st: "nd_state n \<noteq> NS_DELETING"
  shows "store_inv (place_on n c s)"
proof (rule recount_inv [OF inv])
  let ?n = "n\<lparr>nd_registered_cameras := nd_registered_cameras n + 1\<rparr>"
  let ?ns = "replace_first n ?n (st_nodes s)"
  let ?s = "place_on n c s"
  show "list_all2 same_but_count (st_nodes s) ?ns" by (simp add: recount_replace)
  show "?s = s\<lparr>st_nodes := ?ns, st_cameras := st_cameras s @ [c], st_camera_moves := st_camera_moves s\<rparr>"
    by (simp add: place_on_def)
  show "distinct (map cp_id (st_cameras s @ [c]))" using fresh inv_distinct(2) [OF inv] by simp
  show "distinct (map mv_id (st_camera_moves s))" by (rule inv_distinct(3) [OF inv])
  have "placement_ok s c" using c n by (simp add: placement_ok_def port_of_def)
  then show "\<forall>c \<in> set (st_cameras s @ [c]). placement_ok s c" using inv inv_placement_ok by auto
  have act: "active_moves ?s = active_moves s" by (simp add: place_on_def active_moves_def)
  have prep: "prepared_changes ?s = prepared_changes s" by (simp add: place_on_def prepared_changes_def)
  have port: "port_of ?s i = port_of s i" for i
    using recount_find [OF recount_replace [of n ?n]] by (simp add: place_on_def port_of_def)
  have quiet: "quiet_node ?s = quiet_node s"
    by (simp add: fun_eq_iff quiet_node_def list_node_active_moves_Nil node_has_prepared_iff prep act)
  have count: "live_count ?s i = live_count s i + of_bool (i = nd_id n)" for i
    using c by (simp add: live_count_def live_node_cameras_def place_on_def)
  show "\<forall>m \<in> set ?ns. node_ok ?s m"
  proof
    fix m assume "m \<in> set ?ns"
    then have "m = ?n \<or> m \<in> set (st_nodes s) \<and> nd_id m \<noteq> nd_id n"
      using node_table.members_update [OF inv_distinct(1) [OF inv] n, of ?n] by simp
    then show "node_ok ?s m"
    proof
      assume m: "m = ?n"
      show ?thesis
        by (rule node_ok_recount [where n = n and k = 1 and s = s])
          (use m inv_node_ok [OF inv n] room st in \<open>simp_all add: count quiet\<close>)
    next
      assume m: "m \<in> set (st_nodes s) \<and> nd_id m \<noteq> nd_id n"
      with inv have "node_ok s m" by (simp add: store_inv_def nodes_ok_def list_all_iff)
      with m show ?thesis by (auto simp: node_ok_def count quiet)
    qed
  qed
  have find: "find_camera (mv_camera_id m) ?s = find_camera (mv_camera_id m) s"
    if "m \<in> set (active_moves s)" for m
  proof -
    from inv that have "move_ok s m" by (simp add: store_inv_def moves_ok_def list_all_iff)
    then obtain d where "find_camera (mv_camera_id m) s = Some d"
      by (auto simp: move_ok_def moving_camera_ok_def split: option.splits)
    then show ?thesis by (simp add: place_on_def find_by_append)
  qed
  show "moves_ok ?s"
    using inv by (auto simp: store_inv_def moves_ok_def act list_all_iff move_ok_def port
        node_has_prepared_iff prep find)
qed

lemma new_camera_placement_ok:
  assumes "c = new_camera_placement i name url pub node port mode ep"
  shows "cp_id c = i" "cp_node_id c = node" "cp_node_port c = port" "cp_state c = CS_ENABLED"
    "cp_applied_revision c = 0" "cp_desired_revision c = 1" "cp_public_id c = pub"
    "cp_placement_mode c = mode" "cp_placement_generation c = 1"
  using assms by (simp_all add: new_camera_placement_def)

lemma eligible_room:
  "is_node_eligible n f now \<Longrightarrow> nd_registered_cameras n < nd_camera_capacity n \<and> nd_state n = NS_RUNNING"
  by (auto simp: is_node_eligible_def Let_def)

lemma candidates_found:
  assumes inv: "store_inv s" and "n \<in> set (placement_candidates env f s)"
  shows "find_node (nd_id n) s = Some n" "is_node_eligible n f (env_utc_now env)"
    "\<not> node_has_prepared_port_change (nd_id n) s"
  using assms inv_distinct(1) [OF inv] by (auto simp: placement_candidates_def find_by_distinct)

text \<open>What both placements do when they succeed.\<close>

definition placed :: "store_env \<Rightarrow> camera_request \<Rightarrow> media_node \<Rightarrow> node_store \<Rightarrow> camera_placement \<Rightarrow> node_store \<Rightarrow> bool" where
  "placed env rq n s c s' \<longleftrightarrow>
     find_node (nd_id n) s = Some n
     \<and> is_node_eligible n (cr_management_freshness_seconds rq) (env_utc_now env)
     \<and> \<not> node_has_prepared_port_change (nd_id n) s
     \<and> s' = place_on n c s
     \<and> cp_id c = cr_camera_id rq \<and> cp_public_id c = cr_public_id rq
     \<and> cp_node_id c = nd_id n \<and> cp_node_port c = nd_external_port n
     \<and> cp_state c = CS_ENABLED \<and> cp_applied_revision c = 0 \<and> cp_desired_revision c = 1
     \<and> cp_placement_generation c = 1"

lemma place_camera_automatically_placed:
  assumes inv: "store_inv s" and run: "place_camera_automatically env rq s = Inr (c, s')"
  shows "\<exists>n. placed env rq n s c s'
    \<and> (\<forall>m \<in> set (placement_candidates env (cr_management_freshness_seconds rq) s). load_key n \<le> load_key m)"
proof -
  let ?f = "cr_management_freshness_seconds rq"
  from run obtain n ns name url ep where cand: "placement_candidates env ?f s = n # ns"
    and c: "c = new_camera_placement (cr_camera_id rq) name url (cr_public_id rq)
        (nd_id (min_by load_key n ns)) (nd_external_port (min_by load_key n ns)) PM_AUTOMATIC ep"
    and s': "s' = place_on (min_by load_key n ns) c s"
    by (auto simp: place_camera_automatically_def Let_def split: sum.splits list.splits)
  have mem: "min_by load_key n ns \<in> set (placement_candidates env ?f s)"
    using min_by_mem [of load_key n ns] by (simp add: cand)
  have "placed env rq (min_by load_key n ns) s c s'"
    using candidates_found [OF inv mem] new_camera_placement_ok [OF c] s' by (simp add: placed_def)
  moreover have "load_key (min_by load_key n ns) \<le> load_key m"
    if "m \<in> set (placement_candidates env ?f s)" for m
    using min_by_le [of m n ns load_key] that by (simp add: cand)
  ultimately show ?thesis by blast
qed

lemma place_camera_manually_placed:
  assumes run: "place_camera_manually env rq i s = Inr (c, s')"
  shows "\<exists>n. placed env rq n s c s' \<and> nd_id n = i"
proof -
  from run obtain n name url ep where n: "find_node i s = Some n"
    and el: "is_node_eligible n (cr_management_freshness_seconds rq) (env_utc_now env)"
    and p: "\<not> node_has_prepared_port_change i s"
    and c: "c = new_camera_placement (cr_camera_id rq) name url (cr_public_id rq)
        (nd_id n) (nd_external_port n) PM_MANUAL ep"
    and s': "s' = place_on n c s"
    by (auto simp: place_camera_manually_def Let_def split: sum.splits option.splits if_splits)
  have i: "nd_id n = i" by (rule find_node_key [OF n])
  have "placed env rq n s c s'" using n el p new_camera_placement_ok [OF c] s' i by (simp add: placed_def)
  with i show ?thesis by blast
qed

lemma placed_inv:
  assumes "store_inv s" "placed env rq n s c s'" "cr_camera_id rq \<notin> cp_id ` set (st_cameras s)"
  shows "store_inv s'"
proof -
  have "s' = place_on n c s" using assms(2) by (simp add: placed_def)
  moreover have "store_inv (place_on n c s)"
    by (rule place_on_inv [OF assms(1)]) (use assms eligible_room in \<open>auto simp: placed_def\<close>)
  ultimately show ?thesis by simp
qed

lemma node_has_unique_id:
  "store_inv s \<Longrightarrow> find_node i s = Some n \<Longrightarrow> m \<in> set (st_nodes s) \<Longrightarrow> nd_id m = i \<Longrightarrow> m = n"
  using inv_distinct(1) [of s] find_by_distinct_iff [of nd_id "st_nodes s" i m] by auto

text \<open>The acknowledged deletion of a camera.\<close>

lemma remove_camera_inv:
  assumes inv: "store_inv s" and c: "find_camera (cp_id c) s = Some c" "cp_state c \<noteq> CS_DELETED"
    and n: "find_node (cp_node_id c) s = Some n"
    and idle: "\<not> camera_has_active_move (cp_id c) s"
    and s': "s' = s\<lparr>st_nodes := replace_first n
            (n\<lparr>nd_registered_cameras := nd_registered_cameras n - 1\<rparr>) (st_nodes s),
          st_cameras := replace_first c
            (c\<lparr>cp_state := CS_DELETED, cp_applied_revision := cp_desired_revision c\<rparr>) (st_cameras s)\<rparr>"
  shows "store_inv s'"
proof (rule recount_inv [OF inv])
  let ?n = "n\<lparr>nd_registered_cameras := nd_registered_cameras n - 1\<rparr>"
  let ?c = "c\<lparr>cp_state := CS_DELETED, cp_applied_revision := cp_desired_revision c\<rparr>"
  let ?ns = "replace_first n ?n (st_nodes s)" and ?cs = "replace_first c ?c (st_cameras s)"
  have n': "find_node (nd_id n) s = Some n" using n find_node_key [OF n] by simp
  show "list_all2 same_but_count (st_nodes s) ?ns" by (simp add: recount_replace)
  show "s' = s\<lparr>st_nodes := ?ns, st_cameras := ?cs, st_camera_moves := st_camera_moves s\<rparr>" by (simp add: s')
  show "distinct (map cp_id ?cs)" using inv_distinct(2) [OF inv] by (simp add: map_replace_first)
  show "distinct (map mv_id (st_camera_moves s))" by (rule inv_distinct(3) [OF inv])
  have "placement_ok s c" using inv c by (auto intro: inv_placement_ok dest: find_by_SomeD)
  then have "placement_ok s ?c" by (simp add: placement_ok_def)
  then show "\<forall>d \<in> set ?cs. placement_ok s d"
    using inv inv_placement_ok set_replace_first_subset [of c ?c "st_cameras s"] by blast
  have act: "active_moves s' = active_moves s" by (simp add: s' active_moves_def)
  have prep: "prepared_changes s' = prepared_changes s" by (simp add: s' prepared_changes_def)
  have port: "port_of s' i = port_of s i" for i
    using recount_find [OF recount_replace [of n ?n]] by (simp add: s' port_of_def)
  have quiet: "quiet_node s' = quiet_node s"
    by (simp add: fun_eq_iff quiet_node_def list_node_active_moves_Nil node_has_prepared_iff prep act)
  have count: "live_count s' i = live_count s i - of_bool (i = nd_id n)" for i
    using live_count_replace [OF c(1), of i ?c] c find_node_key [OF n]
    by (auto simp: s' live_count_def live_node_cameras_def)
  from inv_live_camera [OF inv c] n have st: "nd_state n \<noteq> NS_DELETING" by auto
  show "\<forall>m \<in> set ?ns. node_ok s' m"
  proof
    fix m assume "m \<in> set ?ns"
    then have "m = ?n \<or> m \<in> set (st_nodes s) \<and> nd_id m \<noteq> nd_id n"
      using node_table.members_update [OF inv_distinct(1) [OF inv] n', of ?n] by simp
    then show "node_ok s' m"
    proof
      assume m: "m = ?n"
      have room: "nd_registered_cameras n \<le> nd_camera_capacity n"
        using inv_node_ok [OF inv n] by (simp add: node_ok_def)
      show ?thesis
        by (rule node_ok_recount [where n = n and k = "-1" and s = s])
          (use m inv_node_ok [OF inv n] room st in \<open>simp_all add: count quiet\<close>)
    next
      assume m: "m \<in> set (st_nodes s) \<and> nd_id m \<noteq> nd_id n"
      with inv have "node_ok s m" by (simp add: store_inv_def nodes_ok_def list_all_iff)
      with m show ?thesis by (auto simp: node_ok_def count quiet)
    qed
  qed
  have find: "find_camera (mv_camera_id m) s' = find_camera (mv_camera_id m) s"
    if "m \<in> set (active_moves s)" for m
    using idle_camera [OF idle that] camera_table.lookup_update [OF c(1), of ?c]
    by (simp add: s')
  show "moves_ok s'"
    using inv find by (auto simp: store_inv_def moves_ok_def act list_all_iff move_ok_def port
        node_has_prepared_iff prep)
qed

lemma mark_camera_applied_inv:
  assumes inv: "store_inv s" and run: "mark_camera_applied i node gen r s = Inr (b, s')"
  shows "store_inv s'"
proof (cases "s' = s")
  case False
  with run obtain c where c: "find_camera i s = Some c" "cp_node_id c = node" "cp_desired_revision c = r"
    and idle: "\<not> camera_has_active_move i s"
    by (auto simp: mark_camera_applied_def split: option.splits if_splits)
  then have f: "find_camera (cp_id c) s = Some c" and id: "cp_id c = i" using find_camera_key by auto
  have ok: "placement_ok s c" using inv f by (auto intro: inv_placement_ok dest: find_by_SomeD)
  show ?thesis
  proof (cases "cp_state c = CS_DELETING")
    case True
    with run False c idle obtain n where n: "find_node node s = Some n"
      and s': "s' = s\<lparr>st_nodes := replace_first n
              (n\<lparr>nd_registered_cameras := nd_registered_cameras n - 1\<rparr>) (st_nodes s),
            st_cameras := replace_first c
              (c\<lparr>cp_state := CS_DELETED, cp_applied_revision := cp_desired_revision c\<rparr>) (st_cameras s)\<rparr>"
      by (cases "find_node node s") (auto simp: mark_camera_applied_def split: if_splits)
    show ?thesis by (rule remove_camera_inv [OF inv f _ _ _ s']) (use True n c idle id in simp_all)
  next
    case deleting: False
    with run False c idle have s': "s' = put_camera c (c\<lparr>cp_applied_revision := cp_desired_revision c\<rparr>) s"
      by (auto simp: mark_camera_applied_def split: if_splits)
    show ?thesis unfolding s'
      by (intro put_camera_inv [OF inv f])
        (use ok idle_camera [OF idle] id in \<open>auto simp: placement_ok_def\<close>)
  qed
qed (simp add: inv)

section \<open>Moves\<close>

lemma active_moves_append:
  "active_moves (s\<lparr>st_camera_moves := st_camera_moves s @ [m]\<rparr>) =
   active_moves s @ (if camera_move_is_terminal (mv_state m) then [] else [m])"
  by (simp add: active_moves_def)

lemma active_moves_put:
  assumes "find_move (mv_id m) s = Some m" "\<not> camera_move_is_terminal (mv_state m)"
  shows "active_moves (put_move m m' s) =
    (if camera_move_is_terminal (mv_state m') then remove1 m (active_moves s)
     else replace_first m m' (active_moves s))"
  using assms by (simp add: active_moves_def put_move_def filter_replace_first_drop filter_replace_first_keep)

lemma move_write_inv:
  assumes inv: "store_inv s" and s': "s' = s\<lparr>st_camera_moves := ms\<rparr>"
    and ids: "distinct (map mv_id ms)" and moves: "list_all (move_ok s) (active_moves s')"
    and one: "distinct (map mv_camera_id (active_moves s'))"
    and quiet: "\<And>i. quiet_node s i \<Longrightarrow> port_of s i \<noteq> None \<Longrightarrow>
      (\<exists>n. find_node i s = Some n \<and> nd_state n = NS_DELETING) \<Longrightarrow> quiet_node s' i"
  shows "store_inv s'"
proof (rule recount_inv [OF inv])
  show "list_all2 same_but_count (st_nodes s) (st_nodes s)" by (simp add: list_all2_refl)
  show "s' = s\<lparr>st_nodes := st_nodes s, st_cameras := st_cameras s, st_camera_moves := ms\<rparr>"
    by (simp add: s')
  show "distinct (map cp_id (st_cameras s))" by (rule inv_distinct(2) [OF inv])
  show "distinct (map mv_id ms)" by (rule ids)
  show "\<forall>c \<in> set (st_cameras s). placement_ok s c" using inv inv_placement_ok by blast
  have prep: "prepared_changes s' = prepared_changes s" by (simp add: s' prepared_changes_def)
  have port: "port_of s' = port_of s" by (simp add: fun_eq_iff s' port_of_def)
  have live: "live_count s' = live_count s"
    by (simp add: fun_eq_iff s' live_count_def live_node_cameras_def)
  show "\<forall>n \<in> set (st_nodes s). node_ok s' n"
  proof
    fix n assume n: "n \<in> set (st_nodes s)"
    then have f: "find_node (nd_id n) s = Some n" using inv_distinct(1) [OF inv] by (simp add: find_by_distinct)
    show "node_ok s' n"
      using inv_node_ok [OF inv f] quiet [of "nd_id n"] f by (auto simp: node_ok_def live port_of_def)
  qed
  have "move_ok s' = move_ok s"
    by (simp add: fun_eq_iff move_ok_def port node_has_prepared_iff prep) (simp add: s')
  then show "moves_ok s'" using moves one by (simp add: moves_ok_def)
qed

text \<open>A move that keeps its camera and its nodes and goes to another phase.\<close>

lemma put_move_inv:
  assumes inv: "store_inv s" and f: "find_move (mv_id m) s = Some m"
    and act: "\<not> camera_move_is_terminal (mv_state m)"
    and same: "mv_id m' = mv_id m" "mv_camera_id m' = mv_camera_id m"
      "mv_source_node_id m' = mv_source_node_id m" "mv_target_node_id m' = mv_target_node_id m"
    and ok: "camera_move_is_terminal (mv_state m') \<or> move_ok s m'"
  shows "store_inv (put_move m m' s)"
proof (rule move_write_inv [OF inv])
  let ?s = "put_move m m' s"
  show "?s = s\<lparr>st_camera_moves := replace_first m m' (st_camera_moves s)\<rparr>" by (simp add: put_move_def)
  show "distinct (map mv_id (replace_first m m' (st_camera_moves s)))"
    using inv_distinct(3) [OF inv] same(1) by (simp add: map_replace_first)
  have mem: "m \<in> set (active_moves s)" using f act by (auto simp: active_moves_def dest: find_by_SomeD)
  have sub: "set (active_moves ?s) \<subseteq> set (active_moves s) \<union>
      (if camera_move_is_terminal (mv_state m') then {} else {m'})"
    using set_replace_first_subset [of m m' "active_moves s"] set_remove1_subset [of m "active_moves s"]
    unfolding active_moves_put [OF f act] by auto
  show "list_all (move_ok s) (active_moves ?s)"
    using sub ok inv by (auto simp: list_all_iff store_inv_def moves_ok_def split: if_splits)
  show "distinct (map mv_camera_id (active_moves ?s))"
    using inv same(2) unfolding active_moves_put [OF f act]
    by (simp add: store_inv_def moves_ok_def map_replace_first distinct_map_remove1)
  fix i assume q: "quiet_node s i"
  have "mv_source_node_id a \<noteq> i \<and> mv_target_node_id a \<noteq> i" if "a \<in> set (active_moves ?s)" for a
  proof -
    from that sub have "a \<in> set (active_moves s) \<or> a = m'" by (auto split: if_splits)
    with q mem same show ?thesis by (auto simp: quiet_node_def list_node_active_moves_Nil)
  qed
  then show "quiet_node ?s i"
    using q by (simp add: quiet_node_def list_node_active_moves_Nil node_has_prepared_iff)
      (simp add: put_move_def prepared_changes_def)
qed

lemma inv_found_move_ok:
  "store_inv s \<Longrightarrow> find_move i s = Some m \<Longrightarrow> \<not> camera_move_is_terminal (mv_state m) \<Longrightarrow>
   move_ok s m \<and> m \<in> set (active_moves s)"
  by (auto simp: active_moves_def intro: inv_move_ok dest: find_by_SomeD)

lemma mark_camera_move_source_cleaned_inv:
  assumes inv: "store_inv s" and run: "mark_camera_move_source_cleaned i s = Inr (m', s')"
  shows "store_inv s'"
proof (cases "s' = s")
  case False
  with run obtain m where m: "find_move i s = Some m" "mv_state m = CM_CLEANUP_SOURCE"
    "s' = put_move m (m\<lparr>mv_state := CM_ACTIVATE_TARGET\<rparr>) s"
    by (auto simp: mark_camera_move_source_cleaned_def Let_def split: option.splits if_splits)
  have "move_ok s (m\<lparr>mv_state := CM_ACTIVATE_TARGET\<rparr>)"
    using inv_found_move_ok [OF inv m(1)] m(2)
    by (auto simp: move_ok_def moving_camera_ok_def camera_move_post_init_def camera_move_is_terminal_def
        split: option.splits if_splits)
  with m find_move_key [OF m(1)] show ?thesis
    by (auto intro!: put_move_inv [OF inv] simp: camera_move_is_terminal_def)
qed (simp add: inv)

lemma abort_camera_move_inv:
  assumes inv: "store_inv s" and run: "abort_camera_move i s = Inr (m', s')"
  shows "store_inv s'"
proof (cases "s' = s")
  case False
  with run obtain m where m: "find_move i s = Some m" "mv_state m = CM_CLEANUP_TARGET"
    "s' = put_move m (m\<lparr>mv_state := CM_ABORTED\<rparr>) s"
    by (auto simp: abort_camera_move_def Let_def split: option.splits if_splits)
  with find_move_key [OF m(1)] show ?thesis
    by (auto intro!: put_move_inv [OF inv] simp: camera_move_is_terminal_def)
qed (simp add: inv)

lemma create_camera_move_inv:
  assumes inv: "store_inv s" and fresh: "i \<notin> mv_id ` set (st_camera_moves s)"
    and run: "create_camera_move env i cam target r force readers timeout f s = Inr (m, s')"
  shows "store_inv s'"
proof -
  from run obtain c t n where c: "find_camera cam s = Some c" "cp_state c = CS_ENABLED"
      "cp_desired_revision c = r" "cp_node_id c \<noteq> target"
    and t: "find_node target s = Some t" "is_node_eligible t f (env_clock env)"
    and p: "\<not> node_has_prepared_port_change (cp_node_id c) s" "\<not> node_has_prepared_port_change target s"
    and idle: "\<not> camera_has_active_move cam s" and n: "find_node (cp_node_id c) s = Some n"
    and m: "m = new_camera_move env i c n t force readers timeout" "camera_move_post_init m = None"
    and s': "s' = s\<lparr>st_camera_moves := st_camera_moves s @ [m],
        st_cameras := replace_first c (c\<lparr>cp_desired_revision := cp_desired_revision c + 1\<rparr>) (st_cameras s)\<rparr>"
    by (auto simp: create_camera_move_def checked_def split: option.splits if_splits sum.splits)
  let ?c = "c\<lparr>cp_desired_revision := cp_desired_revision c + 1\<rparr>"
  let ?s = "put_camera c ?c s"
  have f: "find_camera (cp_id c) s = Some c" and id: "cp_id c = cam" using find_camera_key c by auto
  have "placement_ok s c" using inv f by (auto intro: inv_placement_ok dest: find_by_SomeD)
  then have inv': "store_inv ?s"
    by (intro put_camera_inv [OF inv f])
      (use c idle_camera [OF idle] id in \<open>auto simp: placement_ok_def\<close>)
  have act: "active_moves ?s = active_moves s" by (simp add: put_camera_def active_moves_def)
  have act': "active_moves s' = active_moves s @ [m]"
    by (simp add: s' active_moves_def m(1) new_camera_move_def camera_move_is_terminal_def)
  have mv: "mv_camera_id m = cam" "mv_source_node_id m = cp_node_id c" "mv_target_node_id m = target"
    using m(1) id find_node_key [OF t(1)] by (simp_all add: new_camera_move_def)
  have src: "nd_state n \<noteq> NS_DELETING" using inv_live_camera [OF inv c(1)] c(2) n by fastforce
  have new: "move_ok ?s m"
    using n t(1) p c m(2) camera_table.lookup_update [OF f, of ?c] id find_node_key [OF t(1)]
    by (simp add: move_ok_def moving_camera_ok_def m(1) new_camera_move_def put_camera_def port_of_def
        node_has_prepared_port_change_def)
  show ?thesis
  proof (rule move_write_inv [OF inv'])
    show "s' = ?s\<lparr>st_camera_moves := st_camera_moves s @ [m]\<rparr>" by (simp add: s' put_camera_def)
    show "distinct (map mv_id (st_camera_moves s @ [m]))"
      using inv_distinct(3) [OF inv] fresh m(1) by (simp add: new_camera_move_def)
    show "list_all (move_ok ?s) (active_moves s')"
      using store_invD(7) [OF inv'] new by (simp add: moves_ok_def act act')
    show "distinct (map mv_camera_id (active_moves s'))"
      using store_invD(7) [OF inv] idle mv by (simp add: moves_ok_def act' camera_has_active_move_iff)
    fix j assume q: "quiet_node ?s j" and d: "\<exists>n. find_node j ?s = Some n \<and> nd_state n = NS_DELETING"
    have "j \<noteq> cp_node_id c" "j \<noteq> target"
      using d src n t eligible_room by (auto simp: put_camera_def)
    moreover have "prepared_changes s' = prepared_changes ?s"
      by (simp add: prepared_changes_def put_camera_def s')
    ultimately show "quiet_node s' j"
      using q mv by (auto simp: quiet_node_def list_node_active_moves_Nil act act' node_has_prepared_iff)
  qed
qed

lemma request_camera_move_abort_inv:
  assumes inv: "store_inv s" and run: "request_camera_move_abort i reason cancelled s = Inr (m', s')"
  shows "store_inv s'"
proof (cases "s' = s")
  case False
  with run obtain m c where m: "find_move i s = Some m" "mv_state m = CM_PREPARE_TARGET"
    and c: "find_camera (mv_camera_id m) s = Some c"
    and s': "s' = s\<lparr>st_cameras := (if cp_desired_revision c = mv_desired_revision m
           then replace_first c (c\<lparr>cp_desired_revision := cp_desired_revision c + 1\<rparr>) (st_cameras s)
           else st_cameras s),
         st_camera_moves := replace_first m
           (m\<lparr>mv_state := CM_CLEANUP_TARGET, mv_abort_reason := Some reason\<rparr>) (st_camera_moves s)\<rparr>"
    by (auto simp: request_camera_move_abort_def Let_def split: option.splits if_splits)
  let ?m = "m\<lparr>mv_state := CM_CLEANUP_TARGET, mv_abort_reason := Some reason\<rparr>"
  let ?c = "c\<lparr>cp_desired_revision := cp_desired_revision c + 1\<rparr>"
  let ?s = "put_move m ?m s"
  have fm: "find_move (mv_id m) s = Some m" using find_move_key [OF m(1)] m(1) by simp
  have act: "\<not> camera_move_is_terminal (mv_state m)" using m(2) by (simp add: camera_move_is_terminal_def)
  note ok = inv_found_move_ok [OF inv m(1) act]
  have ok': "move_ok s ?m"
    using ok m(2) c by (auto simp: move_ok_def moving_camera_ok_def camera_move_post_init_def
        camera_move_is_terminal_def split: if_splits)
  have inv': "store_inv ?s" by (rule put_move_inv [OF inv fm act]) (use ok' in simp_all)
  have fc: "find_camera (cp_id c) ?s = Some c" using c find_camera_key [OF c] by (simp add: put_move_def)
  have "store_inv (put_camera c ?c ?s)"
  proof (rule put_camera_inv [OF inv' fc])
    have "placement_ok s c" using inv c by (auto intro: inv_placement_ok dest: find_by_SomeD)
    then show "0 \<le> cp_applied_revision ?c" "cp_applied_revision ?c \<le> cp_desired_revision ?c"
      "1 \<le> cp_desired_revision ?c" by (auto simp: placement_ok_def)
    have mem: "?m \<in> set (active_moves ?s)"
      using replace_first_mem [of m "active_moves s" ?m] ok
      unfolding active_moves_put [OF fm act] by (simp add: camera_move_is_terminal_def)
    show "\<forall>a \<in> set (active_moves ?s). mv_camera_id a = cp_id c \<longrightarrow> moving_camera_ok a (Some ?c)"
    proof (intro ballI impI)
      fix a assume a: "a \<in> set (active_moves ?s)" "mv_camera_id a = cp_id c"
      have "a = ?m"
        by (rule inv_active_unique [OF inv' a(1) mem]) (use a(2) find_camera_key [OF c] in simp)
      then show "moving_camera_ok a (Some ?c)"
        using ok' c by (auto simp: move_ok_def moving_camera_ok_def)
    qed
  qed simp_all
  moreover have "s' = (if cp_desired_revision c = mv_desired_revision m then put_camera c ?c ?s else ?s)"
    by (simp add: s' put_move_def put_camera_def)
  ultimately show ?thesis using inv' by metis
qed (simp add: inv)

lemma complete_camera_move_inv:
  assumes inv: "store_inv s" and run: "complete_camera_move i s = Inr (m', s')"
  shows "store_inv s'"
proof (cases "s' = s")
  case False
  with run obtain m c where m: "find_move i s = Some m" "mv_state m = CM_ACTIVATE_TARGET"
    and c: "find_camera (mv_camera_id m) s = Some c"
    and s': "s' = s\<lparr>st_cameras := replace_first c
           (c\<lparr>cp_applied_revision := mv_desired_revision m\<rparr>) (st_cameras s),
         st_camera_moves := replace_first m (m\<lparr>mv_state := CM_COMPLETE\<rparr>) (st_camera_moves s)\<rparr>"
    by (auto simp: complete_camera_move_def Let_def split: option.splits if_splits)
  let ?m = "m\<lparr>mv_state := CM_COMPLETE\<rparr>"
  let ?c = "c\<lparr>cp_applied_revision := mv_desired_revision m\<rparr>"
  let ?s = "put_move m ?m s"
  have fm: "find_move (mv_id m) s = Some m" using find_move_key [OF m(1)] m(1) by simp
  have act: "\<not> camera_move_is_terminal (mv_state m)" using m(2) by (simp add: camera_move_is_terminal_def)
  note ok = inv_found_move_ok [OF inv m(1) act]
  have inv': "store_inv ?s"
    by (rule put_move_inv [OF inv fm act]) (simp_all add: camera_move_is_terminal_def)
  have fc: "find_camera (cp_id c) ?s = Some c" using c find_camera_key [OF c] by (simp add: put_move_def)
  have "store_inv (put_camera c ?c ?s)"
  proof (rule put_camera_inv [OF inv' fc])
    have "placement_ok s c" using inv c by (auto intro: inv_placement_ok dest: find_by_SomeD)
    then show "0 \<le> cp_applied_revision ?c" "cp_applied_revision ?c \<le> cp_desired_revision ?c"
      "1 \<le> cp_desired_revision ?c"
      using ok c m(2) by (auto simp: placement_ok_def move_ok_def moving_camera_ok_def)
    have gone: "active_moves ?s = remove1 m (active_moves s)"
      unfolding active_moves_put [OF fm act] by (simp add: camera_move_is_terminal_def)
    have "distinct (active_moves s)"
      using store_invD(7) [OF inv] by (auto simp: moves_ok_def dest: distinct_map_distinct)
    then have "a \<in> set (active_moves s) \<and> a \<noteq> m" if "a \<in> set (active_moves ?s)" for a
      using that by (simp add: gone)
    then have "mv_camera_id a \<noteq> cp_id c" if "a \<in> set (active_moves ?s)" for a
      using that inv_active_unique [OF inv, of a m] ok find_camera_key [OF c] by auto
    then show "\<forall>a \<in> set (active_moves ?s). mv_camera_id a = cp_id c \<longrightarrow> moving_camera_ok a (Some ?c)"
      by simp
  qed simp_all
  moreover have "s' = put_camera c ?c ?s" by (simp add: s' put_move_def put_camera_def)
  ultimately show ?thesis by simp
qed (simp add: inv)

text \<open>
  The switch takes the camera from the source to the target in one write: both counts, the
  placement and the phase change together.
\<close>

lemma switch_camera_moveE:
  assumes run: "switch_camera_move env i cancelled s = Inr (m', s')" and diff: "s' \<noteq> s"
  obtains m c src tgt where "find_move i s = Some m" "mv_state m = CM_PREPARE_TARGET"
    "find_camera (mv_camera_id m) s = Some c" "find_node (mv_source_node_id m) s = Some src"
    "find_node (mv_target_node_id m) s = Some tgt"
    "is_node_eligible tgt 30 (env_utc_now env)" "env_clock env < mv_expires_at m"
    "m' = m\<lparr>mv_state := CM_CLEANUP_SOURCE\<rparr>"
    "s' = s\<lparr>st_nodes := replace_first tgt (tgt\<lparr>nd_registered_cameras := nd_registered_cameras tgt + 1\<rparr>)
          (replace_first src (src\<lparr>nd_registered_cameras := nd_registered_cameras src - 1\<rparr>) (st_nodes s)),
        st_cameras := replace_first c (c\<lparr>cp_node_id := nd_id tgt, cp_node_port := nd_external_port tgt,
          cp_placement_mode := PM_MANUAL, cp_placement_generation := mv_target_generation m\<rparr>) (st_cameras s),
        st_camera_moves := replace_first m m' (st_camera_moves s)\<rparr>"
  using run diff
  by (auto simp: switch_camera_move_def Let_def split: option.splits if_splits)

lemma find_node_replace2:
  assumes "find_node (nd_id a) s = Some a" "find_node (nd_id b) s = Some b" "nd_id a \<noteq> nd_id b"
    "nd_id a' = nd_id a" "nd_id b' = nd_id b"
  shows "find_by nd_id i (replace_first b b' (replace_first a a' (st_nodes s))) =
    (if i = nd_id a then Some a' else if i = nd_id b then Some b' else find_node i s)"
proof -
  have a: "find_by nd_id j (replace_first a a' (st_nodes s)) =
      (if j = nd_id a then Some a' else find_node j s)" for j
    by (rule node_table.lookup_update [OF assms(1,4)])
  have b: "find_by nd_id (nd_id b) (replace_first a a' (st_nodes s)) = Some b" using assms by (simp add: a)
  show ?thesis using node_table.lookup_update [OF b assms(5)] assms by (simp add: a)
qed

lemma replaced_move_views:
  assumes f: "find_move (mv_id m) s = Some m"
    and act: "\<not> camera_move_is_terminal (mv_state m)" "\<not> camera_move_is_terminal (mv_state m')"
    and same: "mv_source_node_id m' = mv_source_node_id m" "mv_target_node_id m' = mv_target_node_id m"
    and s': "st_camera_moves s' = replace_first m m' (st_camera_moves s)"
      "st_port_changes s' = st_port_changes s"
  shows "active_moves s' = replace_first m m' (active_moves s)"
    and "quiet_node s i \<Longrightarrow> quiet_node s' i"
proof -
  show a: "active_moves s' = replace_first m m' (active_moves s)"
    using act by (simp add: active_moves_def s' filter_replace_first_keep)
  have mem: "m \<in> set (active_moves s)" using f act by (auto simp: active_moves_def dest: find_by_SomeD)
  assume q: "quiet_node s i"
  have "mv_source_node_id b \<noteq> i \<and> mv_target_node_id b \<noteq> i" if "b \<in> set (active_moves s')" for b
  proof -
    from that have "b \<in> set (active_moves s) \<or> b = m'"
      using set_replace_first_subset [of m m' "active_moves s"] by (auto simp: a)
    with q mem same show ?thesis by (auto simp: quiet_node_def list_node_active_moves_Nil)
  qed
  then show "quiet_node s' i"
    using q by (simp add: quiet_node_def list_node_active_moves_Nil node_has_prepared_port_change_def s')
qed

lemma moves_ok_transfer:
  assumes inv: "store_inv s" and port: "\<And>i. port_of s' i = port_of s i"
    and prep: "st_port_changes s' = st_port_changes s"
    and find: "find_camera (mv_camera_id a) s' = find_camera (mv_camera_id a) s"
    and a: "a \<in> set (active_moves s)"
  shows "move_ok s' a"
proof -
  from inv a have "move_ok s a" by (simp add: store_inv_def moves_ok_def list_all_iff)
  then show ?thesis by (simp add: move_ok_def port find node_has_prepared_port_change_def prep)
qed

lemma switch_camera_move_inv:
  assumes inv: "store_inv s" and run: "switch_camera_move env i cancelled s = Inr (m', s')"
  shows "store_inv s'"
proof (cases "s' = s")
  case False
  show ?thesis
  proof (rule switch_camera_moveE [OF run False])
    fix m :: camera_move and c :: camera_placement and src tgt :: media_node
    let ?src = "src\<lparr>nd_registered_cameras := nd_registered_cameras src - 1\<rparr>"
    let ?tgt = "tgt\<lparr>nd_registered_cameras := nd_registered_cameras tgt + 1\<rparr>"
    let ?c = "c\<lparr>cp_node_id := nd_id tgt, cp_node_port := nd_external_port tgt,
          cp_placement_mode := PM_MANUAL, cp_placement_generation := mv_target_generation m\<rparr>"
    let ?ns = "replace_first tgt ?tgt (replace_first src ?src (st_nodes s))"
    let ?cs = "replace_first c ?c (st_cameras s)"
    assume m: "find_move i s = Some m" "mv_state m = CM_PREPARE_TARGET"
      and c: "find_camera (mv_camera_id m) s = Some c"
      and src: "find_node (mv_source_node_id m) s = Some src"
      and tgt: "find_node (mv_target_node_id m) s = Some tgt" "is_node_eligible tgt 30 (env_utc_now env)"
      and m': "m' = m\<lparr>mv_state := CM_CLEANUP_SOURCE\<rparr>"
      and s': "s' = s\<lparr>st_nodes := ?ns, st_cameras := ?cs,
        st_camera_moves := replace_first m m' (st_camera_moves s)\<rparr>"
    have act: "\<not> camera_move_is_terminal (mv_state m)" using m(2) by (simp add: camera_move_is_terminal_def)
    note ok = inv_found_move_ok [OF inv m(1) act]
    have ids: "nd_id src = mv_source_node_id m" "nd_id tgt = mv_target_node_id m" "cp_id c = mv_camera_id m"
      using find_node_key src tgt find_camera_key c by auto
    have ne: "nd_id src \<noteq> nd_id tgt" using ok by (simp add: ids move_ok_def)
    have cc: "cp_node_id c = nd_id src" "cp_state c = CS_ENABLED"
      using ok c m(2) by (auto simp: move_ok_def moving_camera_ok_def ids)
    have fs: "find_node (nd_id src) s = Some src" "find_node (nd_id tgt) s = Some tgt"
      and fc: "find_camera (cp_id c) s = Some c" and fm: "find_move (mv_id m) s = Some m"
      using src tgt c m find_move_key by (auto simp: ids)
    have found: "find_by nd_id j ?ns =
        (if j = nd_id src then Some ?src else if j = nd_id tgt then Some ?tgt else find_node j s)" for j
      by (rule find_node_replace2 [OF fs ne]) simp_all
    have rc: "list_all2 same_but_count (st_nodes s) ?ns"
      by (rule recount_trans [OF recount_replace recount_replace]) simp_all
    have act': "\<not> camera_move_is_terminal (mv_state m')" by (simp add: m' camera_move_is_terminal_def)
    have views: "active_moves s' = replace_first m m' (active_moves s)" "quiet_node s j \<Longrightarrow> quiet_node s' j" for j
      using replaced_move_views [OF fm act act', of s'] by (simp_all add: m' s')
    have port: "port_of s' j = port_of s j" for j by (simp add: s' port_of_def recount_find [OF rc])
    have prep: "st_port_changes s' = st_port_changes s" by (simp add: s')
    have count: "live_count s' j = live_count s j - of_bool (j = nd_id src) + of_bool (j = nd_id tgt)" for j
      using live_count_replace [OF fc, of j ?c] cc
      by (auto simp: s' live_count_def live_node_cameras_def)
    have fc': "find_camera j s' = (if j = cp_id c then Some ?c else find_camera j s)" for j
      using camera_table.lookup_update [OF fc, of ?c] by (simp add: s')
    have uniq: "mv_camera_id a \<noteq> cp_id c" if "a \<in> set (active_moves s)" "a \<noteq> m" for a
      using inv_active_unique [OF inv that(1), of m] that ok ids by auto
    show "store_inv s'"
    proof (rule recount_inv [OF inv rc s'])
      show "distinct (map cp_id ?cs)" "distinct (map mv_id (replace_first m m' (st_camera_moves s)))"
        using inv_distinct [OF inv] by (simp_all add: map_replace_first m')
      have "placement_ok s c" using inv fc by (auto intro: inv_placement_ok dest: find_by_SomeD)
      then have "placement_ok s ?c" using fs by (simp add: placement_ok_def port_of_def)
      then show "\<forall>d \<in> set ?cs. placement_ok s d"
        using inv inv_placement_ok set_replace_first_subset [of c ?c "st_cameras s"] by blast
      show "\<forall>n \<in> set ?ns. node_ok s' n"
      proof
        fix n assume "n \<in> set ?ns"
        moreover have "distinct (map nd_id ?ns)" using recount_maps [OF rc] inv_distinct [OF inv] by simp
        ultimately have "find_by nd_id (nd_id n) ?ns = Some n" by (rule find_by_distinct [rotated])
        then consider "n = ?src" | "n = ?tgt" | "nd_id n \<noteq> nd_id src" "nd_id n \<noteq> nd_id tgt" "find_node (nd_id n) s = Some n"
          by (auto simp: found split: if_splits)
        then show "node_ok s' n"
        proof cases
          case 1
          then show ?thesis
            using inv_node_ok [OF inv src] inv_live_camera [OF inv c] cc src ids ne views(2)
            by (auto simp: node_ok_def count revision_ok_def)
        next
          case 2
          then show ?thesis
            using inv_node_ok [OF inv tgt(1)] eligible_room [OF tgt(2)] ne
            by (auto simp: node_ok_def count revision_ok_def)
        next
          case 3
          then show ?thesis
            using inv_node_ok [OF inv 3(3)] views(2) by (auto simp: node_ok_def count)
        qed
      qed
      have new: "move_ok s' m'"
        using ok c ids m(2) cc
        by (auto simp: move_ok_def moving_camera_ok_def port fc' m' camera_move_post_init_def
            camera_move_is_terminal_def node_has_prepared_port_change_def prep split: if_splits)
      have "move_ok s' a" if "a \<in> set (active_moves s)" "a \<noteq> m" for a
        by (rule moves_ok_transfer [OF inv port prep _ that(1)]) (use uniq [OF that] in \<open>simp add: fc'\<close>)
      moreover have "distinct (active_moves s)"
        using store_invD(7) [OF inv] by (auto simp: moves_ok_def dest: distinct_map_distinct)
      ultimately have "\<forall>a \<in> set (active_moves s'). move_ok s' a"
        using new set_replace_first [of "active_moves s" m m'] ok by (auto simp: views(1))
      then show "moves_ok s'"
        using store_invD(7) [OF inv] by (simp add: moves_ok_def list_all_iff views(1) map_replace_first m')
    qed
  qed
qed (simp add: inv)

end
