(* ===== verification/Port_Preservation.thy ===== *)
theory Port_Preservation
  imports Store_Preservation
begin

text \<open>
  The store operations that add or remove a node or give one another external port, and that each
  of them keeps the invariant.
\<close>

section \<open>Registration and removal of a node\<close>

lemma register_automatically_result:
  assumes "register_automatically rq s = Inr (n, s')"
  shows "\<exists>p api metrics. n = new_media_node (rq_new_node_id rq) (rq_name rq) p api metrics (rq_release_id rq)
        (rq_mediamtx_binary_sha256 rq) (rq_creation_mode rq)
    \<and> s' = s\<lparr>st_nodes := st_nodes s @ [n], st_lifecycle_locks := List.insert (nd_id n) (st_lifecycle_locks s)\<rparr>
    \<and> int (length (st_nodes s)) < rq_max_nodes rq
    \<and> select_port_with_bounded_recheck (filter (\<lambda>p. p \<notin> set (occupied_ports s)) (rq_allowed_ports rq))
        (rq_preferred_port rq) (rq_choose_port rq) (probe_of rq) = Inr p
    \<and> select_port_with_bounded_recheck
        (filter (\<lambda>p. p \<notin> set (occupied_management_ports s)) (rq_api_ports rq)) None hd (probe_of rq) = Inr api
    \<and> select_port_with_bounded_recheck
        (filter (\<lambda>q. q \<notin> {p, api})
          (filter (\<lambda>p. p \<notin> set (occupied_management_ports s)) (rq_metrics_ports rq))) None hd (probe_of rq)
        = Inr metrics"
  using assms unfolding register_automatically_def
  by (auto simp: Let_def split: if_splits sum.splits)

lemma port_of_None_live_count:
  assumes inv: "store_inv s" and none: "find_node i s = None"
  shows "live_count s i = 0"
proof -
  have "cp_state c = CS_DELETED" if "c \<in> set (st_cameras s)" "cp_node_id c = i" for c
    using inv_placement_ok [OF inv that(1)] that(2) none by (auto simp: placement_ok_def port_of_def)
  then show ?thesis by (auto simp: live_count_def live_node_cameras_def filter_empty_conv)
qed

lemma add_node_inv:
  assumes inv: "store_inv s" and fresh: "nd_id n \<notin> nd_id ` set (st_nodes s)"
    and port: "nd_external_port n \<notin> set (occupied_ports s)"
    and n: "nd_registered_cameras n = 0" "0 \<le> nd_camera_capacity n" "revision_ok n" "nd_state n \<noteq> NS_DELETING"
    and s': "s' = s\<lparr>st_nodes := st_nodes s @ [n], st_lifecycle_locks := List.insert (nd_id n) (st_lifecycle_locks s)\<rparr>"
  shows "store_inv s'"
proof -
  have none: "find_node (nd_id n) s = None" using fresh by (simp add: find_by_None)
  have prep: "prepared_changes s' = prepared_changes s" by (simp add: s' prepared_changes_def)
  have act: "active_moves s' = active_moves s" by (simp add: s' active_moves_def)
  have po: "port_of s' i = (if i = nd_id n then Some (nd_external_port n) else port_of s i)" for i
    using node_table.lookup_insert [OF fresh] by (simp add: s' port_of_def)
  have mono: "port_of s i = Some p \<Longrightarrow> port_of s' i = Some p" for i p
    using none by (cases "i = nd_id n") (simp_all add: po, simp add: port_of_def)
  have live: "live_count s' = live_count s" by (simp add: fun_eq_iff s' live_count_def live_node_cameras_def)
  have quiet: "quiet_node s' = quiet_node s"
    by (simp add: fun_eq_iff quiet_node_def list_node_active_moves_Nil node_has_prepared_iff prep act)
  have "ids_ok s'" using inv_distinct [OF inv] fresh by (simp add: ids_ok_def s')
  moreover have "locks_ok s'" using store_invD(2) [OF inv] by (auto simp: locks_ok_def s')
  moreover have "ports_ok s'"
    using store_invD(3) [OF inv] port by (auto simp: ports_ok_def occupied_ports_def prep) (auto simp: s')
  moreover have "changes_ok s'"
    using store_invD(4) [OF inv] mono by (auto simp: changes_ok_def change_ok_def prep list_all_iff)
  moreover have "placements_ok s'"
    using store_invD(5) [OF inv] mono by (auto simp: placements_ok_def placement_ok_def list_all_iff s')
  moreover have "nodes_ok s'"
    using store_invD(6) [OF inv] n port_of_None_live_count [OF inv none]
    by (auto simp: nodes_ok_def list_all_iff node_ok_def live quiet) (auto simp: s')
  moreover have "moves_ok s'"
  proof -
    have "move_ok s' m" if "m \<in> set (active_moves s)" for m
    proof -
      from that store_invD(7) [OF inv] have ok: "move_ok s m" by (simp add: moves_ok_def list_all_iff)
      then obtain p q where "mv_source_port m = Some p" "mv_target_port m = Some q" by (auto simp: move_ok_def)
      with ok mono show ?thesis by (simp add: move_ok_def node_has_prepared_iff prep) (simp add: s')
    qed
    then show ?thesis using store_invD(7) [OF inv] by (simp add: moves_ok_def list_all_iff act)
  qed
  ultimately show ?thesis by (simp add: store_inv_def)
qed

lemma register_automatically_inv:
  assumes inv: "store_inv s" and fresh: "rq_new_node_id rq \<notin> nd_id ` set (st_nodes s)"
    and run: "register_automatically rq s = Inr (n, s')"
  shows "store_inv s'"
proof -
  from register_automatically_result [OF run] obtain p api metrics
    where n: "n = new_media_node (rq_new_node_id rq) (rq_name rq) p api metrics (rq_release_id rq)
        (rq_mediamtx_binary_sha256 rq) (rq_creation_mode rq)"
      and s': "s' = s\<lparr>st_nodes := st_nodes s @ [n], st_lifecycle_locks := List.insert (nd_id n) (st_lifecycle_locks s)\<rparr>"
      and p: "select_port_with_bounded_recheck (filter (\<lambda>p. p \<notin> set (occupied_ports s)) (rq_allowed_ports rq))
        (rq_preferred_port rq) (rq_choose_port rq) (probe_of rq) = Inr p" by blast
  show ?thesis
    by (rule add_node_inv [OF inv _ _ _ _ _ _ s'])
      (use fresh select_port_sound [OF p] in \<open>simp_all add: n new_media_node_def revision_ok_def\<close>)
qed

lemma register_idempotently_inv:
  assumes inv: "store_inv s" and fresh: "rq_new_node_id rq \<notin> nd_id ` set (st_nodes s)"
    and run: "register_idempotently rq idem s = Inr (r, s')"
  shows "store_inv s'"
proof (cases "s' = s")
  case False
  with run obtain n s1 where r: "register_automatically rq s = Inr (n, s1)"
    and s': "s' = s1\<lparr>st_registration_requests := (st_registration_requests s1)(request_key_of idem \<mapsto>
        (ri_actor_account_id idem, ri_request_sha256 idem, nd_id n))\<rparr>"
    by (auto simp: register_idempotently_def split: option.splits sum.splits)
  show ?thesis using register_automatically_inv [OF inv fresh r] store_inv_cong [of s' s1] by (simp add: s')
qed (simp add: inv)

lemma finalize_node_delete_inv:
  assumes inv: "store_inv s" and run: "finalize_node_delete i s = Inr (u, s')"
  shows "store_inv s'"
proof (cases "s' = s")
  case False
  with run obtain n where f: "find_node i s = Some n" and st: "nd_state n = NS_DELETING"
    and s': "s' = s\<lparr>st_nodes := remove1 n (st_nodes s), st_lifecycle_locks := removeAll i (st_lifecycle_locks s)\<rparr>"
    by (auto simp: finalize_node_delete_def split: option.splits if_splits)
  have i: "nd_id n = i" by (rule find_node_key [OF f])
  have ok: "node_ok s n" by (rule inv_node_ok [OF inv f])
  have gone: "live_count s i = 0" "quiet_node s i" using ok st i by (auto simp: node_ok_def)
  have prep: "prepared_changes s' = prepared_changes s" by (simp add: s' prepared_changes_def)
  have act: "active_moves s' = active_moves s" by (simp add: s' active_moves_def)
  have mem: "set (st_nodes s') = {m \<in> set (st_nodes s). nd_id m \<noteq> i}"
    using inv_distinct(1) [OF inv] node_has_unique_id [OF inv f] i
    by (auto simp: s' distinct_map)
  have po: "port_of s' j = (if j = i then None else port_of s j)" for j
    using find_by_remove1 [OF inv_distinct(1) [OF inv], of n] f i by (simp add: s' port_of_def)
  have live: "live_count s' = live_count s" by (simp add: fun_eq_iff s' live_count_def live_node_cameras_def)
  have quiet: "quiet_node s' = quiet_node s"
    by (simp add: fun_eq_iff quiet_node_def list_node_active_moves_Nil node_has_prepared_iff prep act)
  have "ids_ok s'" using inv_distinct [OF inv] by (simp add: ids_ok_def s' distinct_map_remove1)
  moreover have "locks_ok s'"
    using store_invD(2) [OF inv] by (auto simp: locks_ok_def mem) (auto simp: s')
  moreover have "ports_ok s'"
    using store_invD(3) [OF inv] mem
    by (auto simp: ports_ok_def occupied_ports_def prep) (auto simp: s' distinct_map_remove1)
  moreover have "changes_ok s'"
    using store_invD(4) [OF inv] gone(2)
    by (auto simp: changes_ok_def change_ok_def prep list_all_iff po quiet_node_def node_has_prepared_iff)
  moreover have "placement_ok s' c" if c: "c \<in> set (st_cameras s)" for c
  proof -
    have "cp_node_id c \<noteq> i" if "cp_state c \<noteq> CS_DELETED"
      using gone(1) c that by (auto simp: live_count_def live_node_cameras_def filter_empty_conv)
    then show ?thesis using inv_placement_ok [OF inv c] by (auto simp: placement_ok_def po)
  qed
  then have "placements_ok s'" by (simp add: placements_ok_def list_all_iff s')
  moreover have "nodes_ok s'"
    using store_invD(6) [OF inv] by (auto simp: nodes_ok_def list_all_iff mem node_ok_def live quiet)
  moreover have "move_ok s' m" if "m \<in> set (active_moves s)" for m
  proof -
    from that store_invD(7) [OF inv] have "move_ok s m" by (simp add: moves_ok_def list_all_iff)
    moreover have "mv_source_node_id m \<noteq> i" "mv_target_node_id m \<noteq> i"
      using gone(2) that by (auto simp: quiet_node_def list_node_active_moves_Nil)
    ultimately show ?thesis by (simp add: move_ok_def po node_has_prepared_iff prep) (simp add: s')
  qed
  then have "moves_ok s'" using store_invD(7) [OF inv] by (simp add: moves_ok_def list_all_iff act)
  ultimately show ?thesis by (simp add: store_inv_def)
qed (simp add: inv)

section \<open>Change of a node's port\<close>

lemma begin_port_changeE:
  assumes inv: "store_inv s" and run: "begin_port_change env i node new allowed r count radius s = Inr (c, s')"
  obtains n where "find_node node s = Some n" "nd_state n = NS_RUNNING" "new \<in> set allowed"
    "nd_external_port n \<noteq> new"
    "new \<notin> set (occupied_ports s)" "quiet_node s node"
    "c = \<lparr>pc_id = i, pc_node_id = node, pc_old_port = nd_external_port n, pc_new_port = new,
          pc_source_revision = nd_desired_revision n, pc_target_revision = nd_desired_revision n + 1,
          pc_registered_cameras = count, pc_blast_radius_sha256 = radius, pc_state = PC_PREPARED\<rparr>"
    "s' = s\<lparr>st_port_changes := st_port_changes s @ [c]\<rparr>" "r = nd_desired_revision n"
    "\<not> blast_radius_changed env n count radius s"
proof -
  from run obtain n where n: "find_node node s = Some n" "nd_state n = NS_RUNNING" "new \<in> set allowed"
      "nd_external_port n \<noteq> new" "r = nd_desired_revision n" "\<not> blast_radius_changed env n count radius s"
    and free: "\<not> list_ex (\<lambda>n. nd_external_port n = new \<and> nd_id n \<noteq> node) (st_nodes s)"
      "\<not> list_ex (\<lambda>c. pc_new_port c = new \<and> pc_state c = PC_PREPARED) (st_port_changes s)"
    and q: "\<not> node_has_prepared_port_change node s" "list_node_active_moves node s = []"
    and c: "c = \<lparr>pc_id = i, pc_node_id = node, pc_old_port = nd_external_port n, pc_new_port = new,
          pc_source_revision = nd_desired_revision n, pc_target_revision = nd_desired_revision n + 1,
          pc_registered_cameras = count, pc_blast_radius_sha256 = radius, pc_state = PC_PREPARED\<rparr>"
    and s': "s' = s\<lparr>st_port_changes := st_port_changes s @ [c]\<rparr>"
    by (auto simp: begin_port_change_def Let_def split: option.splits if_splits)
  have "nd_external_port m \<noteq> new" if "m \<in> set (st_nodes s)" for m
    using that free(1) n(4) node_has_unique_id [OF inv n(1) that] by (auto simp: list_ex_iff)
  then have "new \<notin> set (occupied_ports s)"
    using free(2) by (auto simp: occupied_ports_def prepared_changes_def list_ex_iff)
  with n q c s' that show thesis by (simp add: quiet_node_def)
qed

lemma begin_port_change_inv:
  assumes inv: "store_inv s" and fresh: "i \<notin> pc_id ` set (st_port_changes s)"
    and run: "begin_port_change env i node new allowed r count radius s = Inr (c, s')"
  shows "store_inv s'"
proof (rule begin_port_changeE [OF inv run])
  fix n
  assume n: "find_node node s = Some n" "nd_state n = NS_RUNNING" and free: "new \<notin> set (occupied_ports s)"
    and q: "quiet_node s node"
    and c: "c = \<lparr>pc_id = i, pc_node_id = node, pc_old_port = nd_external_port n, pc_new_port = new,
          pc_source_revision = nd_desired_revision n, pc_target_revision = nd_desired_revision n + 1,
          pc_registered_cameras = count, pc_blast_radius_sha256 = radius, pc_state = PC_PREPARED\<rparr>"
    and s': "s' = s\<lparr>st_port_changes := st_port_changes s @ [c]\<rparr>"
  have ok: "node_ok s n" by (rule inv_node_ok [OF inv n(1)])
  have tabs: "st_nodes s' = st_nodes s" "st_cameras s' = st_cameras s" "st_camera_moves s' = st_camera_moves s"
    "st_lifecycle_locks s' = st_lifecycle_locks s" by (simp_all add: s')
  have prep: "prepared_changes s' = prepared_changes s @ [c]" by (simp add: s' c prepared_changes_def)
  have act: "active_moves s' = active_moves s" by (simp add: s' active_moves_def)
  have port: "port_of s' = port_of s" by (simp add: fun_eq_iff s' port_of_def)
  have live: "live_count s' = live_count s" by (simp add: fun_eq_iff s' live_count_def live_node_cameras_def)
  have has: "node_has_prepared_port_change j s' \<longleftrightarrow> j = node \<or> node_has_prepared_port_change j s" for j
    by (auto simp: node_has_prepared_iff prep c)
  have quiet: "quiet_node s' j \<longleftrightarrow> quiet_node s j \<and> j \<noteq> node" for j
    by (auto simp: quiet_node_def list_node_active_moves_Nil act has)
  have "ids_ok s'" using inv_distinct [OF inv] fresh by (simp add: ids_ok_def tabs) (simp add: s' c)
  moreover have "locks_ok s'" using store_invD(2) [OF inv] by (simp add: locks_ok_def tabs)
  moreover have "ports_ok s'"
    using store_invD(3) [OF inv] free by (auto simp: ports_ok_def occupied_ports_def prep tabs c)
  moreover have "changes_ok s'"
    using store_invD(4) [OF inv] q ok n
    by (auto simp: changes_ok_def prep change_ok_def port list_all_iff c quiet_node_def node_has_prepared_iff
        port_of_def node_ok_def revision_ok_def)
  moreover have "placements_ok s'"
    using store_invD(5) [OF inv] by (simp add: placements_ok_def placement_ok_def list_all_iff port tabs)
  moreover have "nodes_ok s'"
    using store_invD(6) [OF inv] node_has_unique_id [OF inv n(1)] n(2)
    by (auto simp: nodes_ok_def node_ok_def list_all_iff live quiet tabs)
  moreover have "moves_ok s'"
    using store_invD(7) [OF inv] q
    by (auto simp: moves_ok_def move_ok_def list_all_iff port has act tabs quiet_node_def
        list_node_active_moves_Nil)
  ultimately show ?thesis by (simp add: store_inv_def)
qed

text \<open>
  A resolved change: the node gets the port \<open>p\<close>, which is the reserved one or its old one, and the
  cameras of the node follow it.
\<close>

definition resolved ::
  "node_port_change \<Rightarrow> media_node \<Rightarrow> media_node \<Rightarrow> node_port_change_state \<Rightarrow> node_store \<Rightarrow> node_store \<Rightarrow> bool" where
  "resolved ch old new st s s' \<longleftrightarrow>
     find_change (pc_id ch) s = Some ch \<and> pc_state ch = PC_PREPARED
     \<and> find_node (nd_id old) s = Some old \<and> pc_node_id ch = nd_id old
     \<and> nd_id new = nd_id old \<and> nd_state new = nd_state old
     \<and> nd_registered_cameras new = nd_registered_cameras old
     \<and> nd_camera_capacity new = nd_camera_capacity old
     \<and> nd_external_port new \<in> {pc_old_port ch, pc_new_port ch}
     \<and> revision_ok new \<and> st \<noteq> PC_PREPARED
     \<and> s' = s\<lparr>st_nodes := replace_first old new (st_nodes s),
              st_cameras := repoint_cameras (nd_id old) (nd_external_port new) (st_cameras s),
              st_port_changes := replace_first ch (ch\<lparr>pc_state := st\<rparr>) (st_port_changes s)\<rparr>"

lemma find_by_map:
  "(\<And>x. key (g x) = key x) \<Longrightarrow> find_by key k (map g xs) = map_option g (find_by key k xs)"
  by (induction xs) auto

lemma repoint_fields:
  assumes "c' \<in> set (repoint_cameras i p cs)"
  obtains c where "c \<in> set cs" "cp_id c' = cp_id c" "cp_node_id c' = cp_node_id c" "cp_state c' = cp_state c"
    "cp_applied_revision c' = cp_applied_revision c" "cp_desired_revision c' = cp_desired_revision c"
    "cp_node_port c' = (if cp_node_id c = i \<and> cp_state c \<noteq> CS_DELETED then p else cp_node_port c)"
  using assms by (auto simp: repoint_cameras_def split: if_splits)

lemma repoint_same:
  assumes "\<forall>c \<in> set cs. cp_node_id c = i \<and> cp_state c \<noteq> CS_DELETED \<longrightarrow> cp_node_port c = p"
  shows "repoint_cameras i p cs = cs"
  unfolding repoint_cameras_def by (rule map_idI) (use assms in auto)

lemma live_count_repoint:
  "length (filter (\<lambda>c. cp_node_id c = j \<and> cp_state c \<noteq> CS_DELETED) (repoint_cameras i p cs)) =
   length (filter (\<lambda>c. cp_node_id c = j \<and> cp_state c \<noteq> CS_DELETED) cs)"
  by (induction cs) (auto simp: repoint_cameras_def)

lemma disjoint_insertI:
  "A \<subseteq> insert x B \<Longrightarrow> C \<subseteq> D \<Longrightarrow> B \<inter> D = {} \<Longrightarrow> x \<notin> C \<Longrightarrow> A \<inter> C = {}"
  by blast

lemma resolved_ports:
  assumes inv: "store_inv s" and r: "resolved ch old new st s s'"
  shows "ports_ok s'"
proof -
  let ?prep = "prepared_changes s"
  have f: "find_node (nd_id old) s = Some old" and pc: "find_change (pc_id ch) s = Some ch" "pc_state ch = PC_PREPARED"
    and node: "pc_node_id ch = nd_id old" and port: "nd_external_port new \<in> {pc_old_port ch, pc_new_port ch}"
    and st: "st \<noteq> PC_PREPARED" using r by (auto simp: resolved_def)
  have ch: "ch \<in> set ?prep" using pc by (auto simp: prepared_changes_def dest: find_by_SomeD)
  have old: "old \<in> set (st_nodes s)" using f by (auto dest: find_by_SomeD)
  have op: "nd_external_port old = pc_old_port ch"
    using inv_change_ok [OF inv, of ch] pc f node by (auto simp: change_ok_def port_of_def dest: find_by_SomeD)
  have d: "distinct (map nd_external_port (st_nodes s))" "distinct (map pc_new_port ?prep)"
      "nd_external_port ` set (st_nodes s) \<inter> pc_new_port ` set ?prep = {}"
    using store_invD(3) [OF inv] by (auto simp: ports_ok_def occupied_ports_def)
  have prep: "prepared_changes s' = remove1 ch ?prep"
    using r pc(2) st by (simp add: resolved_def prepared_changes_def filter_replace_first_drop)
  have rest: "pc_new_port c \<noteq> pc_new_port ch" if "c \<in> set (remove1 ch ?prep)" for c
  proof -
    have "distinct ?prep" by (rule distinct_map_distinct [OF d(2)])
    with that have "c \<in> set ?prep" "c \<noteq> ch" by simp_all
    with d(2) ch show ?thesis by (auto simp: distinct_map dest: inj_onD)
  qed
  have op_free: "pc_old_port ch \<notin> pc_new_port ` set ?prep" "pc_new_port ch \<notin> nd_external_port ` set (st_nodes s)"
    using d(3) imageI [OF old, of nd_external_port] imageI [OF ch, of pc_new_port] by (auto simp: op)
  have np: "nd_external_port new \<notin> pc_new_port ` set (remove1 ch ?prep)"
  proof (cases "nd_external_port new = pc_new_port ch")
    case True
    then show ?thesis using rest by fastforce
  next
    case False
    with port op_free(1) show ?thesis using set_remove1_subset [of ch ?prep] by auto
  qed
  have alone: "nd_external_port old \<notin> nd_external_port ` (set (st_nodes s) - {old})"
    using d(1) old by (auto simp: distinct_map dest: inj_onD)
  have others: "nd_external_port new \<notin> nd_external_port ` (set (st_nodes s) - {old})"
  proof (cases "nd_external_port new = pc_new_port ch")
    case True
    have "nd_external_port ` (set (st_nodes s) - {old}) \<subseteq> nd_external_port ` set (st_nodes s)" by blast
    with True op_free(2) show ?thesis by (metis subsetD)
  next
    case False
    with port op have "nd_external_port new = nd_external_port old" by simp
    with alone show ?thesis by simp
  qed
  have nodes: "st_nodes s' = replace_first old new (st_nodes s)" using r by (simp add: resolved_def)
  have "set (map nd_external_port (st_nodes s')) \<subseteq> insert (nd_external_port new) (nd_external_port ` set (st_nodes s))"
    using set_replace_first_subset [of old new "st_nodes s"] by (auto simp: nodes)
  moreover have "set (map pc_new_port (remove1 ch ?prep)) \<subseteq> pc_new_port ` set ?prep"
    using set_remove1_subset [of ch ?prep] by auto
  ultimately have "set (map nd_external_port (st_nodes s')) \<inter> set (map pc_new_port (remove1 ch ?prep)) = {}"
    by (rule disjoint_insertI) (use np d(3) in simp_all)
  then show ?thesis
    using distinct_map_replace_first [OF d(1) others] distinct_map_remove1 [OF d(2)]
    unfolding ports_ok_def occupied_ports_def prep distinct_append nodes by simp
qed

lemma resolved_inv:
  assumes inv: "store_inv s" and r: "resolved ch old new st s s'"
  shows "store_inv s'"
proof -
  let ?i = "nd_id old"
  have f: "find_node ?i s = Some old" and pc: "find_change (pc_id ch) s = Some ch" "pc_state ch = PC_PREPARED"
    and node: "pc_node_id ch = ?i" and rev: "revision_ok new"
    and same: "nd_id new = ?i" "nd_state new = nd_state old" "nd_registered_cameras new = nd_registered_cameras old"
      "nd_camera_capacity new = nd_camera_capacity old"
    and st: "st \<noteq> PC_PREPARED"
    and s': "s' = s\<lparr>st_nodes := replace_first old new (st_nodes s),
              st_cameras := repoint_cameras ?i (nd_external_port new) (st_cameras s),
              st_port_changes := replace_first ch (ch\<lparr>pc_state := st\<rparr>) (st_port_changes s)\<rparr>"
    using r by (auto simp: resolved_def)
  have ch: "ch \<in> set (prepared_changes s)" using pc by (auto simp: prepared_changes_def dest: find_by_SomeD)
  have prep: "prepared_changes s' = remove1 ch (prepared_changes s)"
    using pc(2) st by (simp add: s' prepared_changes_def filter_replace_first_drop)
  have dc: "distinct (map pc_node_id (prepared_changes s))" using store_invD(4) [OF inv] by (simp add: changes_ok_def)
  have left: "set (prepared_changes s') = {c \<in> set (prepared_changes s). pc_node_id c \<noteq> ?i}"
    using dc ch node by (auto simp: prep distinct_map inj_on_def)
  have act: "active_moves s' = active_moves s" by (simp add: s' active_moves_def)
  have port: "port_of s' j = (if j = ?i then Some (nd_external_port new) else port_of s j)" for j
    using node_table.lookup_update [OF f same(1)] by (simp add: s' port_of_def)
  have live: "live_count s' = live_count s"
    by (simp add: fun_eq_iff s' live_count_def live_node_cameras_def live_count_repoint)
  have quiet: "quiet_node s j \<Longrightarrow> quiet_node s' j" for j
    by (auto simp: quiet_node_def list_node_active_moves_Nil node_has_prepared_iff left act)
  have busy: "node_has_prepared_port_change ?i s" using ch node by (metis imageI node_has_prepared_iff)
  have "ids_ok s'"
    using inv_distinct [OF inv] same(1)
    by (simp add: ids_ok_def s' map_replace_first repoint_cameras_def comp_def if_distrib cong: if_cong)
  moreover have "locks_ok s'"
  proof -
    have "map nd_id (replace_first old new (st_nodes s)) = map nd_id (st_nodes s)"
      using same(1) by (rule map_replace_first)
    then have "nd_id ` set (replace_first old new (st_nodes s)) = nd_id ` set (st_nodes s)" by (metis image_set)
    then show ?thesis using store_invD(2) [OF inv] by (simp add: locks_ok_def s')
  qed
  moreover have "ports_ok s'" by (rule resolved_ports [OF inv r])
  moreover have "changes_ok s'"
    using store_invD(4) [OF inv] distinct_map_remove1 [OF dc]
    by (auto simp: changes_ok_def change_ok_def list_all_iff left port) (simp add: prep)
  moreover have "placement_ok s' c" if "c \<in> set (st_cameras s')" for c
  proof -
    from that have "c \<in> set (repoint_cameras ?i (nd_external_port new) (st_cameras s))" by (simp add: s')
    then show ?thesis
      by (rule repoint_fields) (use inv_placement_ok [OF inv] in \<open>auto simp: placement_ok_def port\<close>)
  qed
  then have "placements_ok s'" by (simp add: placements_ok_def list_all_iff)
  moreover have "node_ok s' n" if "n \<in> set (st_nodes s')" for n
  proof -
    from that have "n = new \<or> n \<in> set (st_nodes s)"
      using set_replace_first_subset [of old new "st_nodes s"] by (auto simp: s')
    then show ?thesis
      using inv_node_ok [OF inv f] store_invD(6) [OF inv] same rev quiet
      by (auto simp: node_ok_def live nodes_ok_def list_all_iff)
  qed
  then have "nodes_ok s'" by (simp add: nodes_ok_def list_all_iff)
  moreover have "move_ok s' m" if m: "m \<in> set (active_moves s)" for m
  proof -
    from m store_invD(7) [OF inv] have ok: "move_ok s m" by (simp add: moves_ok_def list_all_iff)
    then have ne: "mv_source_node_id m \<noteq> ?i" "mv_target_node_id m \<noteq> ?i" using busy by (auto simp: move_ok_def)
    from ok obtain c where c: "find_camera (mv_camera_id m) s = Some c" "phase_ok m c (mv_state m)"
      by (auto simp: move_ok_def moving_camera_ok_def split: option.splits)
    from c(2) ne m have "cp_node_id c \<noteq> ?i"
      by (cases "mv_state m") (auto simp: active_moves_def camera_move_is_terminal_def)
    then have "find_camera (mv_camera_id m) s' = Some c"
      using c(1) by (simp add: s' repoint_cameras_def find_by_map)
    with ok c ne show ?thesis by (auto simp: move_ok_def port node_has_prepared_iff left)
  qed
  then have "moves_ok s'" using store_invD(7) [OF inv] by (simp add: moves_ok_def list_all_iff act)
  ultimately show ?thesis by (simp add: store_inv_def)
qed

lemma complete_port_change_resolved:
  assumes inv: "store_inv s" and run: "complete_port_change env i ob s = Inr (n, s')" and diff: "s' \<noteq> s"
  shows "\<exists>ch old. resolved ch old n PC_COMPLETE s s' \<and> pc_id ch = i \<and> nd_external_port n = pc_new_port ch
    \<and> nd_desired_revision n = pc_target_revision ch"
proof -
  from run diff obtain ch old where ch: "find_change i s = Some ch" "pc_state ch = PC_PREPARED"
    and old: "find_node (pc_node_id ch) s = Some old"
    and v: "validate_runtime_observation (old\<lparr>nd_external_port := pc_new_port ch,
               nd_desired_revision := pc_target_revision ch\<rparr>) ob = None"
    and n: "n = observed_node (env_utc_now env) ob (old\<lparr>nd_external_port := pc_new_port ch,
               nd_desired_revision := pc_target_revision ch\<rparr>)"
    and s': "s' = s\<lparr>st_nodes := replace_first old n (st_nodes s),
             st_cameras := repoint_cameras (nd_id old) (pc_new_port ch) (st_cameras s),
             st_port_changes := replace_first ch (ch\<lparr>pc_state := PC_COMPLETE\<rparr>) (st_port_changes s)\<rparr>"
    by (auto simp: complete_port_change_def Let_def split: option.splits if_splits)
  have "change_ok s ch" using ch by (auto intro: inv_change_ok [OF inv] dest: find_by_SomeD)
  then have "resolved ch old n PC_COMPLETE s s'"
    using ch old s' find_change_key [OF ch(1)] find_node_key [OF old] validate_runtime_observation_revision [OF v]
    by (auto simp: resolved_def n observed_node_def revision_ok_def change_ok_def)
  moreover have "nd_external_port n = pc_new_port ch" "nd_desired_revision n = pc_target_revision ch"
    by (simp_all add: n observed_node_def)
  ultimately show ?thesis using find_change_key [OF ch(1)] by blast
qed

lemma abort_port_change_resolved:
  assumes inv: "store_inv s" and run: "abort_port_change env i ob s = Inr (n, s')" and diff: "s' \<noteq> s"
  shows "\<exists>ch old. resolved ch old n PC_ABORTED s s' \<and> pc_id ch = i \<and> nd_external_port n = nd_external_port old
    \<and> nd_desired_revision n = pc_source_revision ch \<and> st_cameras s' = st_cameras s"
proof -
  from run diff obtain ch old where ch: "find_change i s = Some ch" "pc_state ch = PC_PREPARED"
    and old: "find_node (pc_node_id ch) s = Some old"
    and v: "validate_runtime_observation (old\<lparr>nd_external_port := pc_old_port ch,
               nd_desired_revision := pc_source_revision ch\<rparr>) ob = None"
    and n: "n = observed_node (env_utc_now env) ob (old\<lparr>nd_external_port := pc_old_port ch,
               nd_desired_revision := pc_source_revision ch\<rparr>)"
    and s': "s' = s\<lparr>st_nodes := replace_first old n (st_nodes s),
             st_port_changes := replace_first ch (ch\<lparr>pc_state := PC_ABORTED\<rparr>) (st_port_changes s)\<rparr>"
    by (auto simp: abort_port_change_def Let_def split: option.splits if_splits)
  have ok: "change_ok s ch" using ch by (auto intro: inv_change_ok [OF inv] dest: find_by_SomeD)
  have port: "nd_external_port old = pc_old_port ch" using ok old by (simp add: change_ok_def port_of_def)
  have "repoint_cameras (nd_id old) (pc_old_port ch) (st_cameras s) = st_cameras s"
    using inv_placement_ok [OF inv] old find_node_key [OF old] port
    by (intro repoint_same) (fastforce simp: placement_ok_def port_of_def)
  then have "resolved ch old n PC_ABORTED s s'"
    using ok ch old s' find_change_key [OF ch(1)] find_node_key [OF old] validate_runtime_observation_revision [OF v]
    by (auto simp: resolved_def n observed_node_def revision_ok_def change_ok_def)
  moreover have "nd_external_port n = nd_external_port old" "nd_desired_revision n = pc_source_revision ch"
    "st_cameras s' = st_cameras s" by (simp_all add: n observed_node_def port s')
  ultimately show ?thesis using find_change_key [OF ch(1)] by blast
qed

lemma complete_port_change_inv:
  "store_inv s \<Longrightarrow> complete_port_change env i ob s = Inr (n, s') \<Longrightarrow> store_inv s'"
  using complete_port_change_resolved resolved_inv by (cases "s' = s") blast+

lemma abort_port_change_inv:
  "store_inv s \<Longrightarrow> abort_port_change env i ob s = Inr (n, s') \<Longrightarrow> store_inv s'"
  using abort_port_change_resolved resolved_inv by (cases "s' = s") blast+

end
