(* ===== verification/Store_Machine.thy ===== *)
theory Store_Machine
  imports Port_Preservation
begin

text \<open>
  The store as a state machine. A step is one complete operation of \<^verbatim>\<open>InMemoryNodeStore\<close>: the
  source runs each under one re-entrant lock, so a concurrent history is a sequence of steps. An
  operation that raises has written nothing, and its step leaves the store as it was. The ids that
  \<^verbatim>\<open>uuid4\<close> provides to an operation are fresh in the table they are for.
\<close>

section \<open>Operations as data\<close>

datatype (plugins only: code size) store_op =
    Register registration_request
  | RegisterIdempotently registration_request registration_idempotency
  | Observe store_env uuid node_runtime_observation
  | Start uuid "node_command_fence option"
  | Administrative uuid node_state "node_command_fence option"
  | DeleteNode uuid "node_command_fence option"
  | FinalizeDelete uuid
  | Stop uuid "node_command_fence option"
  | Restart uuid "node_command_fence option"
  | Reconfigure store_env uuid int int string "string option" "string option"
  | Release uuid string string "node_command_fence option"
  | BeginPort store_env uuid uuid int "int list" int int string
  | CompletePort store_env uuid node_runtime_observation
  | AbortPort store_env uuid node_runtime_observation
  | PlaceAutomatically store_env camera_request
  | PlaceManually store_env camera_request uuid
  | PlaceIdempotently store_env camera_request "uuid option" registration_idempotency
  | ReserveCamera registration_idempotency
  | UpdateCamera store_env uuid string string "int option" "admitted_probe_endpoint option"
  | EnableCamera uuid bool "int option"
  | DeleteCamera uuid "int option"
  | CreateMove store_env uuid uuid uuid int bool int int int
  | SwitchMove store_env uuid bool
  | SourceCleaned uuid
  | RequestAbortMove uuid string bool
  | AbortMove uuid
  | CompleteMove uuid
  | MarkApplied uuid uuid int int
  | AddNetwork ip_network

definition written :: "'a store_result \<Rightarrow> py_error + node_store" where
  "written r = map_sum id snd r"

primrec run_op :: "store_op \<Rightarrow> node_store \<Rightarrow> py_error + node_store" where
  "run_op (Register rq) s = written (register_automatically rq s)"
| "run_op (RegisterIdempotently rq idem) s = written (register_idempotently rq idem s)"
| "run_op (Observe env i ob) s = written (apply_runtime_observation env i ob s)"
| "run_op (Start i fence) s = written (request_desired_state i NS_RUNNING fence s)"
| "run_op (Administrative i st fence) s = written (request_administrative_state i st fence s)"
| "run_op (DeleteNode i fence) s = written (request_node_delete i fence s)"
| "run_op (FinalizeDelete i) s = written (finalize_node_delete i s)"
| "run_op (Stop i fence) s = written (request_stop i fence s)"
| "run_op (Restart i fence) s = written (request_restart i fence s)"
| "run_op (Reconfigure env i r n radius release digest) s =
     written (request_reconfigure env i r n radius release digest s)"
| "run_op (Release i release digest fence) s = written (request_release i release digest fence s)"
| "run_op (BeginPort env c i p allowed r n radius) s =
     written (begin_port_change env c i p allowed r n radius s)"
| "run_op (CompletePort env c ob) s = written (complete_port_change env c ob s)"
| "run_op (AbortPort env c ob) s = written (abort_port_change env c ob s)"
| "run_op (PlaceAutomatically env rq) s = written (place_camera_automatically env rq s)"
| "run_op (PlaceManually env rq i) s = written (place_camera_manually env rq i s)"
| "run_op (PlaceIdempotently env rq i idem) s = written (place_camera_idempotently env rq i idem s)"
| "run_op (ReserveCamera idem) s = written (reserve_camera_registration idem s)"
| "run_op (UpdateCamera env i name url r probe) s = written (update_camera env i name url r probe s)"
| "run_op (EnableCamera i b r) s = written (set_camera_enabled i b r s)"
| "run_op (DeleteCamera i r) s = written (request_camera_delete i r s)"
| "run_op (CreateMove env m c t r force readers timeout f) s =
     written (create_camera_move env m c t r force readers timeout f s)"
| "run_op (SwitchMove env m cancelled) s = written (switch_camera_move env m cancelled s)"
| "run_op (SourceCleaned m) s = written (mark_camera_move_source_cleaned m s)"
| "run_op (RequestAbortMove m reason cancelled) s = written (request_camera_move_abort m reason cancelled s)"
| "run_op (AbortMove m) s = written (abort_camera_move m s)"
| "run_op (CompleteMove m) s = written (complete_camera_move m s)"
| "run_op (MarkApplied c i g r) s = written (mark_camera_applied c i g r s)"
| "run_op (AddNetwork n) s = Inr (snd (add_probe_source_network n s))"

definition op_fresh :: "store_op \<Rightarrow> node_store \<Rightarrow> bool" where
  "op_fresh op s =
     (case op of
        Register rq \<Rightarrow> rq_new_node_id rq \<notin> nd_id ` set (st_nodes s)
      | RegisterIdempotently rq idem \<Rightarrow> rq_new_node_id rq \<notin> nd_id ` set (st_nodes s)
      | BeginPort env c i p allowed r n radius \<Rightarrow> c \<notin> pc_id ` set (st_port_changes s)
      | PlaceAutomatically env rq \<Rightarrow> cr_camera_id rq \<notin> cp_id ` set (st_cameras s)
      | PlaceManually env rq i \<Rightarrow> cr_camera_id rq \<notin> cp_id ` set (st_cameras s)
      | PlaceIdempotently env rq i idem \<Rightarrow> cr_camera_id rq \<notin> cp_id ` set (st_cameras s)
      | CreateMove env m c tn r force readers timeout f \<Rightarrow> m \<notin> mv_id ` set (st_camera_moves s)
      | _ \<Rightarrow> True)"

section \<open>Steps\<close>

inductive store_step :: "node_store \<Rightarrow> store_op \<Rightarrow> node_store \<Rightarrow> bool" where
  accepted: "op_fresh op s \<Longrightarrow> run_op op s = Inr s' \<Longrightarrow> store_step s op s'"
| refused: "run_op op s = Inl e \<Longrightarrow> store_step s op s"

inductive_cases store_stepE: "store_step s op s'"

definition good_start :: "media_node list \<Rightarrow> bool" where
  "good_start nodes \<longleftrightarrow>
     distinct (map nd_id nodes) \<and> distinct (map nd_external_port nodes)
     \<and> list_all (\<lambda>n. nd_registered_cameras n = 0 \<and> 0 \<le> nd_camera_capacity n \<and> revision_ok n
                     \<and> nd_state n \<noteq> NS_DELETING) nodes"

inductive reachable :: "node_store \<Rightarrow> bool" where
  start: "good_start nodes \<Longrightarrow> reachable (init_store nodes)"
| step: "reachable s \<Longrightarrow> store_step s op s' \<Longrightarrow> reachable s'"

text \<open>A finite history: the store after each operation, refused ones included.\<close>

fun run_ops :: "store_op list \<Rightarrow> node_store \<Rightarrow> node_store" where
  "run_ops [] s = s"
| "run_ops (op # ops) s = run_ops ops (case run_op op s of Inl e \<Rightarrow> s | Inr s' \<Rightarrow> s')"

fun ops_fresh :: "store_op list \<Rightarrow> node_store \<Rightarrow> bool" where
  "ops_fresh [] s = True"
| "ops_fresh (op # ops) s \<longleftrightarrow>
     op_fresh op s \<and> ops_fresh ops (case run_op op s of Inl e \<Rightarrow> s | Inr s' \<Rightarrow> s')"

lemma run_ops_reachable:
  "reachable s \<Longrightarrow> ops_fresh ops s \<Longrightarrow> reachable (run_ops ops s)"
proof (induction ops arbitrary: s)
  case (Cons op ops)
  have "store_step s op (case run_op op s of Inl e \<Rightarrow> s | Inr s' \<Rightarrow> s')"
    using Cons.prems by (auto intro: store_step.intros split: sum.splits)
  with Cons show ?case by (auto intro: reachable.step)
qed simp

section \<open>The invariant\<close>

lemma writtenE:
  assumes "written r = Inr s'"
  obtains a where "r = Inr (a, s')"
  using assms by (cases r) (auto simp: written_def)

lemma written_Inl [simp]: "written r = Inl e \<longleftrightarrow> r = Inl e"
  by (cases r) (auto simp: written_def)

lemma place_camera_idempotently_inv:
  assumes inv: "store_inv s" and fresh: "cr_camera_id rq \<notin> cp_id ` set (st_cameras s)"
    and run: "place_camera_idempotently env rq i idem s = Inr (r, s')"
  shows "store_inv s'"
proof (cases "s' = s")
  case False
  with run obtain c s1 where p: "(case i of None \<Rightarrow> place_camera_automatically env rq s
        | Some n \<Rightarrow> place_camera_manually env rq n s) = Inr (c, s1)"
    and s': "s' = s1\<lparr>st_camera_registration_requests := (st_camera_registration_requests s1)
        (request_key_of idem \<mapsto> (ri_actor_account_id idem, ri_request_sha256 idem, Some (cp_id c)))\<rparr>"
    by (auto simp: place_camera_idempotently_def split: option.splits sum.splits)
  from p obtain n where "placed env rq n s c s1"
    using place_camera_automatically_placed [OF inv] place_camera_manually_placed
    by (fastforce split: option.splits)
  then have "store_inv s1" by (rule placed_inv [OF inv _ fresh])
  then show ?thesis using store_inv_cong [of s' s1] by (simp add: s')
qed (simp add: inv)

lemma reserve_camera_registration_inv:
  assumes inv: "store_inv s" and run: "reserve_camera_registration idem s = Inr (r, s')"
  shows "store_inv s'"
  using run inv store_inv_cong [of s' s]
  by (auto simp: reserve_camera_registration_def split: option.splits sum.splits)

lemma add_probe_source_network_inv:
  "store_inv s \<Longrightarrow> store_inv (snd (add_probe_source_network n s))"
  using store_inv_cong [of "snd (add_probe_source_network n s)" s]
  by (simp add: add_probe_source_network_def Let_def)

lemma place_camera_automatically_inv:
  "store_inv s \<Longrightarrow> cr_camera_id rq \<notin> cp_id ` set (st_cameras s) \<Longrightarrow>
   place_camera_automatically env rq s = Inr (c, s') \<Longrightarrow> store_inv s'"
  using place_camera_automatically_placed placed_inv by blast

lemma place_camera_manually_inv:
  "store_inv s \<Longrightarrow> cr_camera_id rq \<notin> cp_id ` set (st_cameras s) \<Longrightarrow>
   place_camera_manually env rq i s = Inr (c, s') \<Longrightarrow> store_inv s'"
  using place_camera_manually_placed placed_inv by blast

lemmas step_preserves =
  register_automatically_inv register_idempotently_inv observation_cmd.preserves desired_cmd.preserves
  administrative_cmd.preserves delete_cmd.preserves finalize_node_delete_inv stop_cmd.preserves
  restart_cmd.preserves reconfigure_cmd.preserves release_cmd.preserves begin_port_change_inv
  complete_port_change_inv abort_port_change_inv place_camera_automatically_inv place_camera_manually_inv
  place_camera_idempotently_inv reserve_camera_registration_inv update_cmd.preserves enable_cmd.preserves
  delete_camera_cmd.preserves create_camera_move_inv switch_camera_move_inv
  mark_camera_move_source_cleaned_inv request_camera_move_abort_inv abort_camera_move_inv
  complete_camera_move_inv mark_camera_applied_inv add_probe_source_network_inv

lemma run_op_inv:
  assumes inv: "store_inv s" and fresh: "op_fresh op s" and run: "run_op op s = Inr s'"
  shows "store_inv s'"
  using fresh run
  by (cases op)
    (simp_all add: op_fresh_def, (elim writtenE, rule step_preserves [OF inv]; assumption)+,
     use step_preserves [OF inv] in auto)

text \<open>The laws of an invariant of a state machine, and what they give along every history.\<close>

locale machine_invariant =
  fixes I :: "node_store \<Rightarrow> bool"
  assumes initially: "good_start nodes \<Longrightarrow> I (init_store nodes)"
    and preserved: "I s \<Longrightarrow> op_fresh op s \<Longrightarrow> run_op op s = Inr s' \<Longrightarrow> I s'"
begin

lemma always: "reachable s \<Longrightarrow> I s"
proof (induction rule: reachable.induct)
  case (start nodes)
  then show ?case by (rule initially)
next
  case (step s op s')
  then show ?case by (auto elim!: store_stepE intro: preserved)
qed

lemma along: "I s \<Longrightarrow> ops_fresh ops s \<Longrightarrow> I (run_ops ops s)"
  by (induction ops arbitrary: s) (auto intro: preserved split: sum.splits)

end

interpretation store_machine: machine_invariant store_inv
proof
  show "good_start nodes \<Longrightarrow> store_inv (init_store nodes)" for nodes
    by (rule init_store_inv) (auto simp: good_start_def list_all_iff)
qed (rule run_op_inv)

end
