(* ===== verification/Store_Examples.thy ===== *)
theory Store_Examples
  imports Store_Machine
begin

text \<open>
  Concrete stores: two healthy nodes, a camera placed on the first, its move to the second up to
  and after the switch, and a prepared change of a node's port. They are histories of
  \<^verbatim>\<open>Store_Machine\<close>, so they are reachable, and they show that the hypotheses of the properties
  can be met.
\<close>

definition ex_digest :: string where
  "ex_digest = replicate 64 (CHR ''a'')"

definition ex_env :: store_env where
  "ex_env = \<lparr>env_utc_now = seconds 100, env_clock = seconds 100, env_sha256 = (\<lambda>bytes. ex_digest)\<rparr>"

definition ex_node :: "uuid \<Rightarrow> int \<Rightarrow> media_node" where
  "ex_node i port = (new_media_node i ''edge'' port (port + 1000) (port + 2000) ''v1'' ''''
      NCM_AUTOMATIC)\<lparr>nd_state := NS_RUNNING, nd_runtime_state := NS_RUNNING, nd_health := NH_HEALTHY,
        nd_management_fresh := True, nd_management_observed_at := Some (seconds 90),
        nd_config_compatible := True, nd_applied_revision := 1, nd_camera_capacity := 1\<rparr>"

definition ex_request :: camera_request where
  "ex_request = \<lparr>cr_camera_id = 7, cr_name = ''gate'', cr_source_url = ''rtsp://10.0.0.9/live'',
     cr_public_id = ''cam'', cr_management_freshness_seconds = 30, cr_probe_endpoint = None\<rparr>"

definition ex_store :: node_store where
  "ex_store = init_store [ex_node 1 8554, ex_node 2 8555]"

definition ex_placed :: node_store where
  "ex_placed = run_ops [PlaceAutomatically ex_env ex_request] ex_store"

definition ex_moving :: node_store where
  "ex_moving = run_ops [CreateMove ex_env 9 7 2 1 False 0 60 30] ex_placed"

definition ex_switched :: node_store where
  "ex_switched = run_ops [SwitchMove ex_env 9 False] ex_moving"

definition ex_camera :: camera_placement where
  "ex_camera = new_camera_placement 7 ''gate'' ''rtsp://10.0.0.9/live'' ''cam'' 1 8554 PM_AUTOMATIC None"

definition ex_move :: camera_move where
  "ex_move = new_camera_move ex_env 9 ex_camera (ex_node 1 8554) (ex_node 2 8555) False 0 60"

definition ex_count :: "int \<Rightarrow> media_node \<Rightarrow> media_node" where
  "ex_count k n = n\<lparr>nd_registered_cameras := k\<rparr>"

definition ex_port_change :: store_op where
  "ex_port_change = BeginPort ex_env 5 2 8600 [8554, 8555, 8600] 1 0 ex_digest"

definition ex_changing :: node_store where
  "ex_changing = run_ops [ex_port_change] ex_placed"

lemma ex_name: "validate_camera_name ''gate'' = Inr ''gate''"
  by code_simp

lemma ex_url: "validate_camera_source_url ''rtsp://10.0.0.9/live'' True = Inr ''rtsp://10.0.0.9/live''"
  by code_simp

lemma ex_probe: "probe_endpoint_identity f ''rtsp://10.0.0.9/live'' None = Inr None"
  by (simp add: probe_endpoint_identity_def)

lemma ex_env_fields [simp]:
  "env_utc_now ex_env = 100000000" "env_clock ex_env = 100000000" "env_sha256 ex_env bytes = ex_digest"
  by (simp_all add: ex_env_def seconds_def)

lemmas ex_values = ex_node_def ex_request_def ex_camera_def ex_move_def ex_count_def
  new_media_node_def new_camera_placement_def new_camera_move_def seconds_def ex_name ex_url ex_probe

lemmas ex_rules = is_node_eligible_def placement_candidates_def node_has_prepared_port_change_def
  list_node_active_moves_def camera_has_active_move_def occupied_ports_def prepared_changes_def
  camera_move_is_terminal_def camera_move_post_init_def port_invalid_def checked_def written_def Let_def

lemma ex_placed_eq:
  "ex_placed = ex_store\<lparr>st_nodes := [ex_count 1 (ex_node 1 8554), ex_node 2 8555], st_cameras := [ex_camera]\<rparr>"
  by (simp add: ex_placed_def ex_store_def init_store_def place_camera_automatically_def place_on_def
      load_key_def uuid_int_def ex_values ex_rules)

lemma ex_moving_eq:
  "ex_moving = ex_placed\<lparr>st_cameras := [ex_camera\<lparr>cp_desired_revision := 2\<rparr>], st_camera_moves := [ex_move]\<rparr>"
  by (simp add: ex_moving_def ex_placed_eq ex_store_def init_store_def create_camera_move_def ex_values ex_rules)

lemma ex_switched_eq:
  "ex_switched = ex_moving\<lparr>st_nodes := [ex_count 0 (ex_node 1 8554), ex_count 1 (ex_node 2 8555)],
     st_cameras := [ex_camera\<lparr>cp_desired_revision := 2, cp_node_id := 2, cp_node_port := 8555,
       cp_placement_mode := PM_MANUAL, cp_placement_generation := 2\<rparr>],
     st_camera_moves := [ex_move\<lparr>mv_state := CM_CLEANUP_SOURCE\<rparr>]\<rparr>"
  by (simp add: ex_switched_def ex_moving_eq ex_placed_eq ex_store_def init_store_def switch_camera_move_def
      ex_values ex_rules)

lemma ex_radius: "blast_radius_changed ex_env n 0 ex_digest s \<longleftrightarrow>
  nd_registered_cameras n \<noteq> 0 \<or> live_node_cameras (nd_id n) s \<noteq> []"
  by (simp add: blast_radius_changed_def blast_radius_of_def camera_placement_fingerprint_def Let_def)

lemma ex_changing_eq:
  "ex_changing = ex_placed\<lparr>st_port_changes := [\<lparr>pc_id = 5, pc_node_id = 2, pc_old_port = 8555,
     pc_new_port = 8600, pc_source_revision = 1, pc_target_revision = 2, pc_registered_cameras = 0,
     pc_blast_radius_sha256 = ex_digest, pc_state = PC_PREPARED\<rparr>]\<rparr>"
  by (simp add: ex_changing_def ex_port_change_def ex_placed_eq ex_store_def init_store_def begin_port_change_def
      ex_radius live_node_cameras_def ex_values ex_rules)

lemma ex_store_reachable: "reachable ex_store"
  unfolding ex_store_def by (rule reachable.start) (simp add: good_start_def ex_values revision_ok_def)

lemma ex_placed_reachable: "reachable ex_placed"
  unfolding ex_placed_def by (rule run_ops_reachable [OF ex_store_reachable]) (simp add: op_fresh_def ex_store_def init_store_def)

lemma ex_moving_reachable: "reachable ex_moving"
  unfolding ex_moving_def
  by (rule run_ops_reachable [OF ex_placed_reachable]) (simp add: op_fresh_def ex_placed_eq ex_store_def init_store_def)

lemma ex_switched_reachable: "reachable ex_switched"
  unfolding ex_switched_def by (rule run_ops_reachable [OF ex_moving_reachable]) (simp add: op_fresh_def)

lemma ex_changing_reachable: "reachable ex_changing"
  unfolding ex_changing_def ex_port_change_def
  by (rule run_ops_reachable [OF ex_placed_reachable]) (simp add: op_fresh_def ex_placed_eq ex_store_def init_store_def)

definition ex_observation :: node_runtime_observation where
  "ex_observation = \<lparr>ob_state = NS_RUNNING, ob_health = NH_HEALTHY, ob_management_fresh = True,
     ob_config_compatible = True, ob_applied_revision = 2, ob_process_id = Some 100,
     ob_process_start_ticks = Some 5, ob_process_boot_id = Some 3, ob_config_sha256 = Some ex_digest,
     ob_release_id = Some ''v1''\<rparr>"

definition ex_resolved :: node_store where
  "ex_resolved = run_ops [CompletePort ex_env 5 ex_observation, Stop 2 None, DeleteNode 2 None, FinalizeDelete 2]
     ex_changing"

definition ex_completed :: node_store where
  "ex_completed = run_ops [CompletePort ex_env 5 ex_observation] ex_changing"

lemma ex_completed_eq:
  "ex_completed = ex_changing\<lparr>st_nodes := [ex_count 1 (ex_node 1 8554),
       observed_node 100000000 ex_observation ((ex_node 2 8600)\<lparr>nd_api_port := 9555, nd_metrics_port := 10555,
         nd_desired_revision := 2\<rparr>)],
     st_port_changes := map (\<lambda>c. c\<lparr>pc_state := PC_COMPLETE\<rparr>) (st_port_changes ex_changing)\<rparr>"
  by (simp add: ex_completed_def ex_changing_eq ex_placed_eq ex_store_def init_store_def complete_port_change_def
      validate_runtime_observation_def option_less_1_def observed_node_def repoint_cameras_def ex_observation_def
      ex_values ex_rules)

lemma ex_resolved_eq:
  "ex_resolved = ex_completed\<lparr>st_nodes := [ex_count 1 (ex_node 1 8554)], st_lifecycle_locks := [1]\<rparr>"
proof -
  have "ex_resolved = run_ops [Stop 2 None, DeleteNode 2 None, FinalizeDelete 2] ex_completed"
    by (simp add: ex_resolved_def ex_completed_def)
  then show ?thesis
    by (simp add: ex_completed_eq ex_changing_eq ex_placed_eq ex_store_def init_store_def
        request_stop_def request_node_delete_def finalize_node_delete_def require_node_command_fence_def
        put_node_def observed_node_def ex_values ex_rules)
qed

lemma ex_resolved_reachable: "reachable ex_resolved"
  unfolding ex_resolved_def by (rule run_ops_reachable [OF ex_changing_reachable]) (simp add: op_fresh_def split: sum.split)

end
