(* ===== verification/Store_Properties.thy ===== *)
theory Store_Properties
  imports Store_Examples
begin

text \<open>
  What every history of the store guarantees: unique and reserved ports, exact camera accounting,
  placements that follow their node's port, one active move per camera, and which internal
  failures cannot happen.
\<close>

lemmas machine_inv = store_machine.always

section \<open>Ports\<close>

text \<open>C2. In every reachable store the external ports of all nodes together with the ports
  reserved by prepared port changes are pairwise different, so that two nodes never share a port
  and a reserved port is never in use.\<close>

theorem reachable_ports_unique:
  assumes "reachable s"
  shows "distinct (map nd_external_port (st_nodes s) @ map pc_new_port (prepared_changes s))"
  using store_invD(3) [OF machine_inv [OF assms]] by (simp add: ports_ok_def occupied_ports_def)

theorem reachable_ports_unique_witness:
  "distinct (map nd_external_port (st_nodes ex_changing) @ map pc_new_port (prepared_changes ex_changing))
   \<and> map nd_external_port (st_nodes ex_changing) = [8554, 8555]
   \<and> map pc_new_port (prepared_changes ex_changing) = [8600]"
  using reachable_ports_unique [OF ex_changing_reachable]
  by (simp add: ex_changing_eq ex_placed_eq prepared_changes_def ex_values)

section \<open>Accounting\<close>

text \<open>C3. In every reachable store a node's \<^verbatim>\<open>registered_cameras\<close> is exactly the number of its
  cameras that are not deleted, and never exceeds its capacity.\<close>

theorem reachable_accounting:
  assumes "reachable s" and "n \<in> set (st_nodes s)"
  shows "nd_registered_cameras n = int (length (live_node_cameras (nd_id n) s))
    \<and> nd_registered_cameras n \<le> nd_camera_capacity n"
  using store_invD(6) [OF machine_inv [OF assms(1)]] assms(2)
  by (auto simp: nodes_ok_def list_all_iff node_ok_def live_count_def)

theorem reachable_accounting_witness:
  "nd_registered_cameras (ex_count 1 (ex_node 2 8555)) = int (length (live_node_cameras 2 ex_switched))
   \<and> length (live_node_cameras 2 ex_switched) = 1"
  using reachable_accounting [OF ex_switched_reachable, of "ex_count 1 (ex_node 2 8555)"]
  by (simp add: ex_switched_eq ex_values)

text \<open>C4. In every reachable store a camera that is not deleted is placed on an existing node that
  is not being deleted, carries that node's current external port, and has an applied revision
  between zero and its desired revision.\<close>

theorem reachable_placement:
  assumes "reachable s" and "c \<in> set (st_cameras s)" and "cp_state c \<noteq> CS_DELETED"
  shows "\<exists>n. find_node (cp_node_id c) s = Some n \<and> cp_node_port c = nd_external_port n
    \<and> nd_state n \<noteq> NS_DELETING
    \<and> 0 \<le> cp_applied_revision c \<and> cp_applied_revision c \<le> cp_desired_revision c"
proof -
  note inv = machine_inv [OF assms(1)]
  have "find_camera (cp_id c) s = Some c" by (rule find_by_distinct [OF inv_distinct(2) [OF inv] assms(2)])
  from inv_live_camera [OF inv this assms(3)] inv_placement_ok [OF inv assms(2)] show ?thesis
    by (metis placement_ok_def)
qed

theorem reachable_placement_witness:
  "\<exists>n. find_node 1 ex_placed = Some n \<and> 8554 = nd_external_port n \<and> nd_state n \<noteq> NS_DELETING"
  using reachable_placement [OF ex_placed_reachable, of ex_camera]
  by (auto simp: ex_placed_eq ex_values)

section \<open>Moves\<close>

text \<open>C5. In every reachable store a camera has at most one active move; an active move runs between
  two different existing nodes at the ports it recorded, neither of which has a prepared port
  change; and its camera is enabled and placed on the source before the switch and on the target
  after it.\<close>

theorem reachable_active_move:
  assumes "reachable s" and "m \<in> set (list_incomplete_camera_moves s)"
  shows "(\<forall>m' \<in> set (list_incomplete_camera_moves s). mv_camera_id m' = mv_camera_id m \<longrightarrow> m' = m)
    \<and> mv_source_node_id m \<noteq> mv_target_node_id m
    \<and> map_option nd_external_port (find_node (mv_source_node_id m) s) = mv_source_port m
    \<and> map_option nd_external_port (find_node (mv_target_node_id m) s) = mv_target_port m
    \<and> \<not> node_has_prepared_port_change (mv_source_node_id m) s
    \<and> \<not> node_has_prepared_port_change (mv_target_node_id m) s
    \<and> (\<exists>c. find_camera (mv_camera_id m) s = Some c \<and> cp_state c = CS_ENABLED
          \<and> cp_node_id c = (if mv_state m \<in> {CM_PREPARE_TARGET, CM_CLEANUP_TARGET}
                            then mv_source_node_id m else mv_target_node_id m))"
proof -
  note inv = machine_inv [OF assms(1)]
  have m: "m \<in> set (active_moves s)" using assms(2) by (simp add: list_incomplete_camera_moves_def active_moves_def)
  then have ok: "move_ok s m" using store_invD(7) [OF inv] by (simp add: moves_ok_def list_all_iff)
  then obtain c where c: "find_camera (mv_camera_id m) s = Some c" "cp_state c = CS_ENABLED" "phase_ok m c (mv_state m)"
    by (auto simp: move_ok_def moving_camera_ok_def split: option.splits)
  have node: "cp_node_id c = (if mv_state m \<in> {CM_PREPARE_TARGET, CM_CLEANUP_TARGET}
      then mv_source_node_id m else mv_target_node_id m)"
    using c(3) m by (cases "mv_state m") (auto simp: active_moves_def camera_move_is_terminal_def)
  show ?thesis
    using ok c node inv_active_unique [OF inv _ m]
    by (auto simp: move_ok_def port_of_def list_incomplete_camera_moves_def active_moves_def)
qed

theorem reachable_active_move_witness:
  "\<exists>c. find_camera 7 ex_moving = Some c \<and> cp_state c = CS_ENABLED \<and> cp_node_id c = 1"
  using reachable_active_move [OF ex_moving_reachable, of ex_move]
  by (simp add: list_incomplete_camera_moves_def ex_moving_eq ex_values camera_move_is_terminal_def)

text \<open>The fence of the switch is never hit: on a reachable store \<^verbatim>\<open>switch_camera_move\<close> does not
  raise \<^verbatim>\<open>camera_move_fenced\<close>, nor \<^verbatim>\<open>node_port_change_in_progress\<close>, because no other operation can
  change the camera or the port of either node while the move is active.\<close>

theorem switch_never_fenced:
  assumes "reachable s"
  shows "switch_camera_move env i cancelled s \<notin>
    {Inl (CameraLifecycleConflict ''camera_move_fenced''),
     Inl (CameraLifecycleConflict ''node_port_change_in_progress'')}"
proof (cases "find_move i s")
  case (Some m)
  note inv = machine_inv [OF assms]
  show ?thesis
  proof (cases "mv_state m = CM_PREPARE_TARGET")
    case True
    then have "move_ok s m" using inv_found_move_ok [OF inv Some] by (simp add: camera_move_is_terminal_def)
    with True Some show ?thesis
      by (auto simp: switch_camera_move_def move_ok_def moving_camera_ok_def Let_def find_node_key
          split: option.splits)
  next
    case False
    with Some show ?thesis by (simp add: switch_camera_move_def)
  qed
qed (simp add: switch_camera_move_def)

theorem switch_never_fenced_witness:
  "switch_camera_move ex_env 9 False ex_moving \<notin>
    {Inl (CameraLifecycleConflict ''camera_move_fenced''),
     Inl (CameraLifecycleConflict ''node_port_change_in_progress'')}"
  by (rule switch_never_fenced [OF ex_moving_reachable])

section \<open>Internal failures\<close>

text \<open>
  The source looks records up with \<^verbatim>\<open>next(...)\<close> without a default where it relies on them to
  exist; a missing record would surface as \<^verbatim>\<open>StopIteration\<close>.
\<close>

lemma validators_not_stop [simp]:
  "validate_camera_name x \<noteq> Inl StopIteration"
  "validate_camera_source_url y b \<noteq> Inl StopIteration"
  "probe_endpoint_identity f y ep \<noteq> Inl StopIteration"
  "validate_release r d \<noteq> Some StopIteration"
  "require_node_command_fence n fence \<noteq> Some StopIteration"
  "validate_runtime_observation n ob \<noteq> Some StopIteration"
  "camera_move_post_init m \<noteq> Some StopIteration"
  "require_no_active_camera_move i s \<noteq> Some StopIteration"
  "camera_registration_target_id prev idem \<noteq> Inl StopIteration"
  by (auto simp: validate_camera_name_def validate_camera_source_url_def probe_endpoint_identity_def
      validate_release_def require_node_command_fence_def validate_runtime_observation_def
      camera_move_post_init_def require_no_active_camera_move_def camera_registration_target_id_def Let_def
      split: option.splits prod.splits)

lemma select_port_not_stop [simp]: "select_port_with_bounded_recheck av pref ch b \<noteq> Inl StopIteration"
proof -
  have "select_port_loop k av pref ch b \<noteq> Inl StopIteration" for k
    by (induction k arbitrary: av) (auto simp: Let_def split: option.splits)
  then show ?thesis by (simp add: select_port_with_bounded_recheck_def)
qed

lemma replay_not_stop [simp]:
  "replay_registration idem s \<noteq> Some (Inl StopIteration)"
  "replay_camera_registration prev idem s \<noteq> Inl StopIteration"
  by (auto simp: replay_registration_def replay_camera_registration_def split: option.splits sum.splits)

lemma management_error_stop [simp]: "management_error e = StopIteration \<longleftrightarrow> e = StopIteration"
  by (cases e) (simp_all add: management_error_def)

lemma register_not_stop [simp]:
  "register_automatically rq s \<noteq> Inl StopIteration"
  "register_idempotently rq idem s \<noteq> Inl StopIteration"
proof -
  show a: "register_automatically rq s \<noteq> Inl StopIteration"
    unfolding register_automatically_def Let_def by (auto split: sum.split)
  show "register_idempotently rq idem s \<noteq> Inl StopIteration"
    by (auto simp: register_idempotently_def a split: option.splits sum.splits)
qed

lemma node_commands_not_stop [simp]:
  "apply_runtime_observation env i ob s \<noteq> Inl StopIteration"
  "request_desired_state i st fence s \<noteq> Inl StopIteration"
  "request_administrative_state i st fence s \<noteq> Inl StopIteration"
  "request_node_delete i fence s \<noteq> Inl StopIteration"
  "finalize_node_delete i s \<noteq> Inl StopIteration"
  "request_stop i fence s \<noteq> Inl StopIteration"
  "request_restart i fence s \<noteq> Inl StopIteration"
  "request_reconfigure env i r n radius release digest s \<noteq> Inl StopIteration"
  "request_release i rel dig fence s \<noteq> Inl StopIteration"
  "begin_port_change env c i p allowed r n radius s \<noteq> Inl StopIteration"
  by (auto simp: apply_runtime_observation_def request_desired_state_def request_administrative_state_def
      request_node_delete_def finalize_node_delete_def request_stop_def request_restart_def
      request_reconfigure_def request_release_def begin_port_change_def Let_def
      split: option.splits)

lemma camera_commands_not_stop [simp]:
  "place_camera_automatically env rq s \<noteq> Inl StopIteration"
  "place_camera_manually env rq i s \<noteq> Inl StopIteration"
  "reserve_camera_registration idem s \<noteq> Inl StopIteration"
  "update_camera env i name url r probe s \<noteq> Inl StopIteration"
  "set_camera_enabled i b r s \<noteq> Inl StopIteration"
  "request_camera_delete i r s \<noteq> Inl StopIteration"
  by (auto simp: place_camera_automatically_def place_camera_manually_def
      reserve_camera_registration_def update_camera_def set_camera_enabled_def
      request_camera_delete_def Let_def split: option.splits sum.splits list.splits if_splits)

lemma place_idempotently_not_stop [simp]: "place_camera_idempotently env rq i idem s \<noteq> Inl StopIteration"
  by (auto simp: place_camera_idempotently_def split: option.splits sum.splits)

lemma simple_moves_not_stop [simp]:
  "mark_camera_move_source_cleaned i s \<noteq> Inl StopIteration" "abort_camera_move i s \<noteq> Inl StopIteration"
  by (auto simp: mark_camera_move_source_cleaned_def abort_camera_move_def Let_def split: option.splits)

lemma moves_not_stop:
  assumes inv: "store_inv s"
  shows "create_camera_move env m c tn r force readers timeout f s \<noteq> Inl StopIteration"
    and "switch_camera_move env i cancelled s \<noteq> Inl StopIteration"
    and "request_camera_move_abort i reason cancelled s \<noteq> Inl StopIteration"
    and "complete_camera_move i s \<noteq> Inl StopIteration"
    and "mark_camera_applied c j g r s \<noteq> Inl StopIteration"
proof -
  show "create_camera_move env m c tn r force readers timeout f s \<noteq> Inl StopIteration"
    by (auto simp: create_camera_move_def checked_def split: option.splits elim: inv_live_camera [OF inv])
  have found: "find_camera (mv_camera_id m) s \<noteq> None \<and> find_node (mv_source_node_id m) s \<noteq> None
      \<and> find_node (mv_target_node_id m) s \<noteq> None"
    if "find_move i s = Some m" "mv_state m \<in> {CM_PREPARE_TARGET, CM_ACTIVATE_TARGET}" for m i
    using inv_found_move_ok [OF inv that(1)] that(2)
    by (auto simp: camera_move_is_terminal_def move_ok_def moving_camera_ok_def port_of_def split: option.splits)
  show "switch_camera_move env i cancelled s \<noteq> Inl StopIteration"
    using found [of i] by (auto simp: switch_camera_move_def Let_def split: option.split)
  show "request_camera_move_abort i reason cancelled s \<noteq> Inl StopIteration"
    using found [of i]
    by (auto simp: request_camera_move_abort_def Let_def split: option.split)
  show "complete_camera_move i s \<noteq> Inl StopIteration"
    using found [of i] by (auto simp: complete_camera_move_def Let_def split: option.split)
  show "mark_camera_applied c j g r s \<noteq> Inl StopIteration"
    by (auto simp: mark_camera_applied_def split: option.splits elim: inv_live_camera [OF inv])
qed

text \<open>On a reachable store no operation fails with \<^verbatim>\<open>StopIteration\<close>, except the completion or
  abortion of a port change that was already resolved and whose node has been deleted since.\<close>

theorem stop_iteration_only_after_resolution:
  assumes "reachable s" and "run_op op s = Inl StopIteration"
  shows "\<exists>env i ob ch. op \<in> {CompletePort env i ob, AbortPort env i ob}
    \<and> find_change i s = Some ch \<and> pc_state ch \<noteq> PC_PREPARED \<and> find_node (pc_node_id ch) s = None"
proof -
  note inv = machine_inv [OF assms(1)]
  have ports: "\<exists>ch. find_change i s = Some ch \<and> pc_state ch \<noteq> PC_PREPARED \<and> find_node (pc_node_id ch) s = None"
    if "complete_port_change env i ob s = Inl StopIteration \<or> abort_port_change env i ob s = Inl StopIteration"
    for env i ob
  proof -
    from that obtain ch where ch: "find_change i s = Some ch" "find_node (pc_node_id ch) s = None"
      by (auto simp: complete_port_change_def abort_port_change_def Let_def split: option.splits if_splits)
    have "pc_state ch \<noteq> PC_PREPARED"
      using inv_change_ok [OF inv, of ch] ch by (auto simp: change_ok_def port_of_def dest: find_by_SomeD)
    with ch show ?thesis by blast
  qed
  show ?thesis using assms(2) ports moves_not_stop [OF inv] by (cases op) auto
qed

theorem stop_iteration_only_after_resolution_witness:
  "\<exists>env i ob ch. CompletePort ex_env 5 ex_observation \<in> {CompletePort env i ob, AbortPort env i ob}
    \<and> find_change i ex_resolved = Some ch \<and> pc_state ch \<noteq> PC_PREPARED
    \<and> find_node (pc_node_id ch) ex_resolved = None"
proof (rule stop_iteration_only_after_resolution [OF ex_resolved_reachable])
  show "run_op (CompletePort ex_env 5 ex_observation) ex_resolved = Inl StopIteration"
    by (simp add: ex_resolved_eq ex_completed_eq ex_changing_eq complete_port_change_def ex_values written_def)
qed

end
