(* ===== verification/Move_Properties.thy ===== *)
theory Move_Properties
  imports Store_Examples
begin

text \<open>
  The life of a camera move: its phases, the atomic switch, that it can be driven to completion,
  and that it can be aborted before the switch.
\<close>

section \<open>Phases\<close>

fun next_phases :: "camera_move_state \<Rightarrow> camera_move_state list" where
  "next_phases CM_PREPARE_TARGET = [CM_CLEANUP_SOURCE, CM_CLEANUP_TARGET]"
| "next_phases CM_CLEANUP_SOURCE = [CM_ACTIVATE_TARGET]"
| "next_phases CM_ACTIVATE_TARGET = [CM_COMPLETE]"
| "next_phases CM_CLEANUP_TARGET = [CM_ABORTED]"
| "next_phases CM_COMPLETE = []"
| "next_phases CM_ABORTED = []"

fun phase_rank :: "camera_move_state \<Rightarrow> nat" where
  "phase_rank CM_PREPARE_TARGET = 3"
| "phase_rank CM_CLEANUP_SOURCE = 2"
| "phase_rank CM_ACTIVATE_TARGET = 1"
| "phase_rank CM_CLEANUP_TARGET = 1"
| "phase_rank CM_COMPLETE = 0"
| "phase_rank CM_ABORTED = 0"

text \<open>The part of a move that no operation changes.\<close>

definition same_move :: "camera_move \<Rightarrow> camera_move \<Rightarrow> bool" where
  "same_move m m' \<longleftrightarrow> m' = m\<lparr>mv_state := mv_state m', mv_abort_reason := mv_abort_reason m'\<rparr>"

definition moves_advance :: "node_store \<Rightarrow> node_store \<Rightarrow> bool" where
  "moves_advance s s' \<longleftrightarrow>
     (\<forall>i m. find_move i s = Some m \<longrightarrow>
        (\<exists>m'. find_move i s' = Some m' \<and> same_move m m'
              \<and> (m' = m \<or> mv_state m' \<in> set (next_phases (mv_state m)))))"

lemma moves_advance_same: "st_camera_moves s' = st_camera_moves s \<Longrightarrow> moves_advance s s'"
  by (simp add: moves_advance_def same_move_def)

lemma same_moveD:
  assumes "same_move m m'"
  shows "mv_id m' = mv_id m" "mv_camera_id m' = mv_camera_id m"
    "mv_source_node_id m' = mv_source_node_id m" "mv_target_node_id m' = mv_target_node_id m"
proof -
  obtain a b where "m' = m\<lparr>mv_state := a, mv_abort_reason := b\<rparr>" using assms by (auto simp: same_move_def)
  then show "mv_id m' = mv_id m" "mv_camera_id m' = mv_camera_id m"
    "mv_source_node_id m' = mv_source_node_id m" "mv_target_node_id m' = mv_target_node_id m" by simp_all
qed

lemma same_move_refl [simp]: "same_move m m"
  by (simp add: same_move_def)

lemma moves_advance_put:
  assumes f: "find_move i s = Some m" and "same_move m m'" and "mv_state m' \<in> set (next_phases (mv_state m))"
    and "st_camera_moves s' = replace_first m m' (st_camera_moves s)"
  shows "moves_advance s s'"
proof -
  have k: "find_move (mv_id m) s = Some m" "mv_id m' = mv_id m"
    using find_move_key [OF f] f same_moveD [OF assms(2)] by auto
  show ?thesis
    using assms k(1) move_table.lookup_update [OF k] by (auto simp: moves_advance_def)
qed

lemma frame_moves:
  "register_automatically rq s = Inr (n, s') \<Longrightarrow> st_camera_moves s' = st_camera_moves s"
  "register_idempotently rq idem s = Inr (r, s') \<Longrightarrow> st_camera_moves s' = st_camera_moves s"
  "finalize_node_delete i s = Inr (u, s') \<Longrightarrow> st_camera_moves s' = st_camera_moves s"
  "begin_port_change env c i p allowed rv k radius s = Inr (ch, s') \<Longrightarrow> st_camera_moves s' = st_camera_moves s"
  "complete_port_change env c ob s = Inr (n, s') \<Longrightarrow> st_camera_moves s' = st_camera_moves s"
  "abort_port_change env c ob s = Inr (n, s') \<Longrightarrow> st_camera_moves s' = st_camera_moves s"
  "reserve_camera_registration idem s = Inr (x, s') \<Longrightarrow> st_camera_moves s' = st_camera_moves s"
  "mark_camera_applied cam i g rv s = Inr (b, s') \<Longrightarrow> st_camera_moves s' = st_camera_moves s"
  subgoal using register_automatically_result by fastforce
  subgoal using register_automatically_result
    by (fastforce simp: register_idempotently_def split: option.splits sum.splits)
  by (auto simp: finalize_node_delete_def begin_port_change_def complete_port_change_def
      abort_port_change_def reserve_camera_registration_def mark_camera_applied_def put_camera_def Let_def
      split: option.splits sum.splits if_splits)

lemma frame_moves_placement:
  "place_camera_automatically env rq s = Inr (c, s') \<Longrightarrow> st_camera_moves s' = st_camera_moves s"
  "place_camera_manually env rq i s = Inr (c, s') \<Longrightarrow> st_camera_moves s' = st_camera_moves s"
  by (auto simp: place_camera_automatically_def place_camera_manually_def place_on_def Let_def
      split: option.splits sum.splits list.splits if_splits)

lemma frame_moves_idempotent:
  "place_camera_idempotently env rq i idem s = Inr (r, s') \<Longrightarrow> st_camera_moves s' = st_camera_moves s"
  by (auto simp: place_camera_idempotently_def dest: frame_moves_placement
      split: option.splits sum.splits)

context camera_command
begin

lemma moves_kept: "cmd i s = Inr (c, s') \<Longrightarrow> st_camera_moves s' = st_camera_moves s"
  using effect [of i s c s'] by (auto simp: camera_effect_def put_camera_def)

end

lemma frame_moves_network: "st_camera_moves (snd (add_probe_source_network n s)) = st_camera_moves s"
  by (simp add: add_probe_source_network_def Let_def)

lemmas moves_framed = frame_moves frame_moves_placement frame_moves_idempotent frame_moves_network
  observation_cmd.frame(2) desired_cmd.frame(2) administrative_cmd.frame(2) delete_cmd.frame(2) stop_cmd.frame(2)
  restart_cmd.frame(2) reconfigure_cmd.frame(2) release_cmd.frame(2)
  update_cmd.moves_kept enable_cmd.moves_kept delete_camera_cmd.moves_kept

lemmas framed_advance = moves_framed [THEN moves_advance_same]

lemma moves_advance_append:
  "st_camera_moves s' = st_camera_moves s @ [m] \<Longrightarrow> moves_advance s s'"
  by (auto simp: moves_advance_def find_by_append)

lemma create_advances:
  "create_camera_move env i c tn r force readers timeout f s = Inr (m, s') \<Longrightarrow> moves_advance s s'"
  by (rule moves_advance_append [where m = m])
    (auto simp: create_camera_move_def checked_def split: option.splits if_splits)

definition phase_write :: "uuid \<Rightarrow> node_store \<Rightarrow> camera_move \<Rightarrow> node_store \<Rightarrow> bool" where
  "phase_write i s m' s' \<longleftrightarrow>
     s' = s \<or> (\<exists>m. find_move i s = Some m \<and> same_move m m' \<and> mv_state m' \<in> set (next_phases (mv_state m))
                   \<and> st_camera_moves s' = replace_first m m' (st_camera_moves s))"

lemma phase_write_advances: "phase_write i s m' s' \<Longrightarrow> moves_advance s s'"
  by (auto simp: phase_write_def intro: moves_advance_same moves_advance_put)

lemma phase_writes:
  "switch_camera_move env i cancelled s = Inr (m', s') \<Longrightarrow> phase_write i s m' s'"
  "mark_camera_move_source_cleaned i s = Inr (m', s') \<Longrightarrow> phase_write i s m' s'"
  "request_camera_move_abort i reason cancelled s = Inr (m', s') \<Longrightarrow> phase_write i s m' s'"
  "abort_camera_move i s = Inr (m', s') \<Longrightarrow> phase_write i s m' s'"
  "complete_camera_move i s = Inr (m', s') \<Longrightarrow> phase_write i s m' s'"
  by (auto simp: switch_camera_move_def mark_camera_move_source_cleaned_def request_camera_move_abort_def
      abort_camera_move_def complete_camera_move_def put_move_def same_move_def phase_write_def Let_def
      split: option.splits if_splits)

lemmas phase_advances = phase_writes [THEN phase_write_advances]

lemma run_op_advances: "run_op op s = Inr s' \<Longrightarrow> moves_advance s s'"
  by (cases op)
    (simp_all, (elim writtenE, (rule create_advances phase_advances framed_advance; assumption))+,
     use framed_advance in auto)


text \<open>C26. In every step of the store a move that exists still exists afterwards, with the same camera,
  nodes, generations, revision, ports and expiry, and its phase is unchanged or advances along
  prepare to cleanup-source to activate-target to complete, or prepare to cleanup-target to aborted.\<close>

theorem move_phases_advance:
  assumes "store_step s op s'" and "find_move i s = Some m"
  shows "\<exists>m'. find_move i s' = Some m' \<and> m' = m\<lparr>mv_state := mv_state m', mv_abort_reason := mv_abort_reason m'\<rparr>
    \<and> (m' = m \<or> mv_state m' \<in> set (next_phases (mv_state m)))"
  using assms(1)
proof cases
  case accepted
  from run_op_advances [OF accepted(2)] assms(2) show ?thesis by (auto simp: moves_advance_def same_move_def)
qed (use assms in auto)

theorem move_phases_advance_witness:
  "\<exists>m'. find_move 9 ex_switched = Some m'
    \<and> m' = ex_move\<lparr>mv_state := mv_state m', mv_abort_reason := mv_abort_reason m'\<rparr>
    \<and> (m' = ex_move \<or> mv_state m' \<in> set (next_phases (mv_state ex_move)))"
proof (rule move_phases_advance)
  have "run_op (SwitchMove ex_env 9 False) ex_moving = Inr ex_switched"
    by (simp add: ex_switched_eq ex_moving_eq ex_placed_eq ex_store_def init_store_def switch_camera_move_def
        ex_values ex_rules)
  then show "store_step ex_moving (SwitchMove ex_env 9 False) ex_switched"
    by (intro store_step.accepted) (simp_all add: op_fresh_def)
  show "find_move 9 ex_moving = Some ex_move" by (simp add: ex_moving_eq ex_values)
qed

text \<open>A completed or aborted move is final: no history changes anything about it.\<close>

theorem terminal_move_final:
  assumes "find_move i s = Some m" and "camera_move_is_terminal (mv_state m)"
  shows "find_move i (run_ops ops s) = Some m"
  using assms(1)
proof (induction ops arbitrary: s)
  case (Cons op ops)
  have stay: "next_phases (mv_state m) = []" using assms(2) by (auto simp: camera_move_is_terminal_def)
  have "find_move i s' = Some m" if "run_op op s = Inr s'" for s'
    using run_op_advances [OF that] Cons.prems stay by (fastforce simp: moves_advance_def)
  with Cons show ?case by (auto split: sum.split)
qed simp

theorem terminal_move_final_witness:
  "find_move 9 (run_ops [SwitchMove ex_env 9 False, AbortMove 9, CompleteMove 9]
     (ex_switched\<lparr>st_camera_moves := [ex_move\<lparr>mv_state := CM_COMPLETE\<rparr>]\<rparr>)) = Some (ex_move\<lparr>mv_state := CM_COMPLETE\<rparr>)"
  by (rule terminal_move_final) (simp_all add: ex_values camera_move_is_terminal_def)

section \<open>The switch\<close>

lemma switch_effect:
  assumes inv: "store_inv s" and m: "find_move i s = Some m" "mv_state m = CM_PREPARE_TARGET"
    and run: "switch_camera_move env i cancelled s = Inr (m', s')"
  obtains c src tgt where "find_camera (mv_camera_id m) s = Some c"
    "find_node (mv_source_node_id m) s = Some src" "find_node (mv_target_node_id m) s = Some tgt"
    "cp_node_id c = mv_source_node_id m" "cp_desired_revision c = mv_desired_revision m"
    "m' = m\<lparr>mv_state := CM_CLEANUP_SOURCE\<rparr>" "find_move i s' = Some m'"
    "find_camera (mv_camera_id m) s' = Some (c\<lparr>cp_node_id := mv_target_node_id m, cp_node_port := nd_external_port tgt,
       cp_placement_mode := PM_MANUAL, cp_placement_generation := cp_placement_generation c + 1\<rparr>)"
    "\<And>j. find_node j s' =
       (if j = mv_source_node_id m then Some (src\<lparr>nd_registered_cameras := nd_registered_cameras src - 1\<rparr>)
        else if j = mv_target_node_id m then Some (tgt\<lparr>nd_registered_cameras := nd_registered_cameras tgt + 1\<rparr>)
        else find_node j s)"
    "\<And>j. j \<noteq> mv_camera_id m \<Longrightarrow> find_camera j s' = find_camera j s"
proof -
  have act: "\<not> camera_move_is_terminal (mv_state m)" using m(2) by (simp add: camera_move_is_terminal_def)
  note ok = inv_found_move_ok [OF inv m(1) act]
  have "s' \<noteq> s"
  proof
    assume "s' = s"
    moreover from run m have st: "m' = m\<lparr>mv_state := CM_CLEANUP_SOURCE\<rparr>"
      and moves: "st_camera_moves s' = replace_first m m' (st_camera_moves s)"
      by (auto simp: switch_camera_move_def Let_def split: option.splits if_splits)
    then have "m' \<in> set (st_camera_moves s')" "mv_id m' = mv_id m"
      using replace_first_mem [of m "st_camera_moves s" m'] find_by_SomeD [OF m(1)] by auto
    ultimately have "find_move (mv_id m) s = Some m'"
      using find_by_distinct [OF inv_distinct(3) [OF inv], of m'] by simp
    with m(1) find_move_key [OF m(1)] have "m' = m" by simp
    moreover have "mv_state m' = CM_CLEANUP_SOURCE" using st by simp
    ultimately show False using m(2) by simp
  qed
  then show thesis
  proof (rule switch_camera_moveE [OF run])
    fix k :: camera_move and c :: camera_placement and src tgt :: media_node
    let ?src = "src\<lparr>nd_registered_cameras := nd_registered_cameras src - 1\<rparr>"
    let ?tgt = "tgt\<lparr>nd_registered_cameras := nd_registered_cameras tgt + 1\<rparr>"
    let ?c = "c\<lparr>cp_node_id := nd_id tgt, cp_node_port := nd_external_port tgt,
          cp_placement_mode := PM_MANUAL, cp_placement_generation := mv_target_generation k\<rparr>"
    assume k: "find_move i s = Some k" and c: "find_camera (mv_camera_id k) s = Some c"
      and src: "find_node (mv_source_node_id k) s = Some src" and tgt: "find_node (mv_target_node_id k) s = Some tgt"
      and m': "m' = k\<lparr>mv_state := CM_CLEANUP_SOURCE\<rparr>"
      and s': "s' = s\<lparr>st_nodes := replace_first tgt ?tgt (replace_first src ?src (st_nodes s)),
        st_cameras := replace_first c ?c (st_cameras s),
        st_camera_moves := replace_first k m' (st_camera_moves s)\<rparr>"
    have [simp]: "k = m" using k m by simp
    have ids: "nd_id src = mv_source_node_id m" "nd_id tgt = mv_target_node_id m" "cp_id c = mv_camera_id m" "mv_id m = i"
      using find_node_key [OF src] find_node_key [OF tgt] find_camera_key [OF c] find_move_key [OF m(1)] by simp_all
    have ne: "nd_id src \<noteq> nd_id tgt" using ok by (simp add: ids move_ok_def)
    have cc: "cp_node_id c = mv_source_node_id m" "cp_desired_revision c = mv_desired_revision m"
        "mv_target_generation m = cp_placement_generation c + 1"
      using ok c m(2) by (auto simp: move_ok_def moving_camera_ok_def)
    have fs: "find_node (nd_id src) s = Some src" "find_node (nd_id tgt) s = Some tgt"
      "find_camera (cp_id c) s = Some c" "find_move (mv_id m) s = Some m" using src tgt c m by (simp_all add: ids)
    note n2 = find_node_replace2 [OF fs(1,2) ne, of ?src ?tgt]
    show thesis
      by (rule that [of c src tgt])
        (use c src tgt cc m' n2 camera_table.lookup_update [OF fs(3), of ?c] move_table.lookup_update [OF fs(4), of m']
          in \<open>simp_all add: s' ids\<close>)
  qed
qed

text \<open>The switch is one atomic transfer. It gives the camera the target node, the target's port and
  the next placement generation, keeps its public id, source and revision, takes one camera off the
  source's count and adds one to the target's, and touches no other node and no other camera.\<close>

theorem switch_transfers_camera:
  assumes "reachable s" and "find_move i s = Some m" and "mv_state m = CM_PREPARE_TARGET"
    and "switch_camera_move env i cancelled s = Inr (m', s')"
  shows "\<exists>c src tgt. find_camera (mv_camera_id m) s = Some c
    \<and> find_node (mv_source_node_id m) s = Some src \<and> find_node (mv_target_node_id m) s = Some tgt
    \<and> m' = m\<lparr>mv_state := CM_CLEANUP_SOURCE\<rparr> \<and> find_move i s' = Some m'
    \<and> find_camera (mv_camera_id m) s' = Some (c\<lparr>cp_node_id := mv_target_node_id m,
         cp_node_port := nd_external_port tgt, cp_placement_mode := PM_MANUAL,
         cp_placement_generation := cp_placement_generation c + 1\<rparr>)
    \<and> (\<forall>j. find_node j s' =
         (if j = mv_source_node_id m then Some (src\<lparr>nd_registered_cameras := nd_registered_cameras src - 1\<rparr>)
          else if j = mv_target_node_id m then Some (tgt\<lparr>nd_registered_cameras := nd_registered_cameras tgt + 1\<rparr>)
          else find_node j s))
    \<and> (\<forall>j. j \<noteq> mv_camera_id m \<longrightarrow> find_camera j s' = find_camera j s)"
  by (rule switch_effect [OF store_machine.always [OF assms(1)] assms(2-4)]) force

theorem switch_transfers_camera_witness:
  "\<exists>c src tgt. find_camera 7 ex_moving = Some c \<and> find_node 1 ex_moving = Some src
    \<and> find_node 2 ex_moving = Some tgt
    \<and> find_camera 7 ex_switched = Some (c\<lparr>cp_node_id := 2, cp_node_port := nd_external_port tgt,
         cp_placement_mode := PM_MANUAL, cp_placement_generation := cp_placement_generation c + 1\<rparr>)
    \<and> find_node 1 ex_switched = Some (src\<lparr>nd_registered_cameras := nd_registered_cameras src - 1\<rparr>)"
proof -
  have "switch_camera_move ex_env 9 False ex_moving = Inr (ex_move\<lparr>mv_state := CM_CLEANUP_SOURCE\<rparr>, ex_switched)"
    by (simp add: ex_switched_eq ex_moving_eq ex_placed_eq ex_store_def init_store_def switch_camera_move_def
        ex_values ex_rules)
  from switch_transfers_camera [OF ex_moving_reachable _ _ this, of ex_move]
  have "\<exists>c src tgt. find_camera (mv_camera_id ex_move) ex_moving = Some c
    \<and> find_node (mv_source_node_id ex_move) ex_moving = Some src
    \<and> find_node (mv_target_node_id ex_move) ex_moving = Some tgt
    \<and> find_camera (mv_camera_id ex_move) ex_switched = Some (c\<lparr>cp_node_id := mv_target_node_id ex_move,
         cp_node_port := nd_external_port tgt, cp_placement_mode := PM_MANUAL,
         cp_placement_generation := cp_placement_generation c + 1\<rparr>)
    \<and> find_node (mv_source_node_id ex_move) ex_switched
        = Some (src\<lparr>nd_registered_cameras := nd_registered_cameras src - 1\<rparr>)"
    by (force simp: ex_moving_eq ex_values)
  moreover have "mv_camera_id ex_move = 7" "mv_source_node_id ex_move = 1" "mv_target_node_id ex_move = 2"
    by (simp_all add: ex_values)
  ultimately show ?thesis by simp
qed

section \<open>Driving a move to its end\<close>

lemma switch_succeeds:
  assumes inv: "store_inv s" and m: "find_move i s = Some m" "mv_state m = CM_PREPARE_TARGET"
    and time: "env_clock env < mv_expires_at m"
    and tgt: "find_node (mv_target_node_id m) s = Some tn" "is_node_eligible tn 30 (env_utc_now env)"
  shows "\<exists>m' s'. switch_camera_move env i False s = Inr (m', s')"
proof -
  have ok: "move_ok s m" using inv_found_move_ok [OF inv m(1)] m(2) by (simp add: camera_move_is_terminal_def)
  then obtain c n where c: "find_camera (mv_camera_id m) s = Some c" and n: "find_node (mv_source_node_id m) s = Some n"
    by (auto simp: move_ok_def moving_camera_ok_def port_of_def split: option.splits)
  show ?thesis
    using ok m c n tgt time eligible_room [OF tgt(2)] find_node_key [OF n] find_node_key [OF tgt(1)]
    by (simp add: switch_camera_move_def move_ok_def moving_camera_ok_def Let_def)
qed

lemma source_cleaned_result:
  assumes "find_move i s = Some m" "mv_state m = CM_CLEANUP_SOURCE"
  shows "\<exists>s'. run_op (SourceCleaned i) s = Inr s' \<and> find_move i s' = Some (m\<lparr>mv_state := CM_ACTIVATE_TARGET\<rparr>)
    \<and> st_cameras s' = st_cameras s"
  using assms move_table.lookup_update [of m "st_camera_moves s" "m\<lparr>mv_state := CM_ACTIVATE_TARGET\<rparr>"]
    find_move_key [OF assms(1)]
  by (simp add: mark_camera_move_source_cleaned_def written_def put_move_def Let_def)

lemma complete_result:
  assumes m: "find_move i s = Some m" "mv_state m = CM_ACTIVATE_TARGET" and c: "find_camera (mv_camera_id m) s = Some c"
  shows "\<exists>s'. run_op (CompleteMove i) s = Inr s' \<and> find_move i s' = Some (m\<lparr>mv_state := CM_COMPLETE\<rparr>)
    \<and> find_camera (mv_camera_id m) s' = Some (c\<lparr>cp_applied_revision := mv_desired_revision m\<rparr>)"
  using assms find_move_key [OF m(1)] find_camera_key [OF c]
    move_table.lookup_update [of m "st_camera_moves s" "m\<lparr>mv_state := CM_COMPLETE\<rparr>"]
    camera_table.lookup_update [of c "st_cameras s" "c\<lparr>cp_applied_revision := mv_desired_revision m\<rparr>"]
  by (simp add: complete_camera_move_def written_def Let_def)

text \<open>A prepared move that has not expired and whose target is eligible is completed by the three
  calls the reconciler makes: afterwards the move is complete and the camera is enabled on the target,
  with its desired revision applied.\<close>

theorem move_completes:
  assumes r: "reachable s" and m: "find_move i s = Some m" "mv_state m = CM_PREPARE_TARGET"
    and time: "env_clock env < mv_expires_at m"
    and tgt: "find_node (mv_target_node_id m) s = Some tn" "is_node_eligible tn 30 (env_utc_now env)"
  defines "s' \<equiv> run_ops [SwitchMove env i False, SourceCleaned i, CompleteMove i] s"
  shows "find_move i s' = Some (m\<lparr>mv_state := CM_COMPLETE\<rparr>)
    \<and> (\<exists>c. find_camera (mv_camera_id m) s' = Some c \<and> cp_node_id c = mv_target_node_id m
          \<and> cp_node_port c = nd_external_port tn \<and> cp_public_id c = mv_public_id m
          \<and> cp_state c = CS_ENABLED \<and> cp_applied_revision c = cp_desired_revision c)"
proof -
  note inv = store_machine.always [OF r]
  from switch_succeeds [OF inv m time tgt] obtain m1 s1 where run: "switch_camera_move env i False s = Inr (m1, s1)"
    by blast
  have "move_ok s m" using inv_found_move_ok [OF inv m(1)] m(2) by (simp add: camera_move_is_terminal_def)
  then have pub: "find_camera (mv_camera_id m) s = Some c \<Longrightarrow> cp_public_id c = mv_public_id m \<and> cp_state c = CS_ENABLED" for c
    by (simp add: move_ok_def moving_camera_ok_def)
  show ?thesis
  proof (rule switch_effect [OF inv m run])
    fix c :: camera_placement and src t2 :: media_node
    let ?c = "c\<lparr>cp_node_id := mv_target_node_id m, cp_node_port := nd_external_port t2,
       cp_placement_mode := PM_MANUAL, cp_placement_generation := cp_placement_generation c + 1\<rparr>"
    assume t2: "find_node (mv_target_node_id m) s = Some t2" and c: "find_camera (mv_camera_id m) s = Some c"
      and rev: "cp_desired_revision c = mv_desired_revision m"
      and m1: "m1 = m\<lparr>mv_state := CM_CLEANUP_SOURCE\<rparr>" "find_move i s1 = Some m1"
      and c1: "find_camera (mv_camera_id m) s1 = Some ?c"
    from source_cleaned_result [OF m1(2)] m1 obtain s2 where s2: "run_op (SourceCleaned i) s1 = Inr s2"
      "find_move i s2 = Some (m\<lparr>mv_state := CM_ACTIVATE_TARGET\<rparr>)" "st_cameras s2 = st_cameras s1" by auto
    from complete_result [OF s2(2)] c1 s2(3) obtain s3 where s3: "run_op (CompleteMove i) s2 = Inr s3"
      "find_move i s3 = Some (m\<lparr>mv_state := CM_COMPLETE\<rparr>)"
      "find_camera (mv_camera_id m) s3 = Some (?c\<lparr>cp_applied_revision := mv_desired_revision m\<rparr>)" by auto
    have "s' = s3" using s2(1) s3(1) run by (simp add: s'_def written_def)
    with s3 t2 tgt rev pub [OF c] show ?thesis by simp
  qed
qed

theorem move_completes_witness:
  "find_move 9 (run_ops [SwitchMove ex_env 9 False, SourceCleaned 9, CompleteMove 9] ex_moving)
     = Some (ex_move\<lparr>mv_state := CM_COMPLETE\<rparr>)"
  by (rule move_completes [OF ex_moving_reachable, of 9 ex_move ex_env "ex_node 2 8555", THEN conjunct1])
    (simp_all add: ex_moving_eq ex_placed_eq ex_values is_node_eligible_def)

text \<open>A prepared move can always be aborted: the two abort calls end it as aborted, the camera stays
  enabled on the source node at its port, and no node changes.\<close>

theorem move_aborts:
  fixes reason :: string
  assumes r: "reachable s" and m: "find_move i s = Some m" "mv_state m = CM_PREPARE_TARGET"
  defines "s' \<equiv> run_ops [RequestAbortMove i reason False, AbortMove i] s"
  shows "find_move i s' = Some (m\<lparr>mv_state := CM_ABORTED, mv_abort_reason := Some reason\<rparr>)
    \<and> st_nodes s' = st_nodes s
    \<and> (\<exists>c. find_camera (mv_camera_id m) s = Some c \<and> cp_node_id c = mv_source_node_id m
          \<and> find_camera (mv_camera_id m) s' = Some (c\<lparr>cp_desired_revision := cp_desired_revision c + 1\<rparr>))"
proof -
  note inv = store_machine.always [OF r]
  have "move_ok s m" using inv_found_move_ok [OF inv m(1)] m(2) by (simp add: camera_move_is_terminal_def)
  then obtain c where c: "find_camera (mv_camera_id m) s = Some c" "cp_node_id c = mv_source_node_id m"
      "cp_desired_revision c = mv_desired_revision m"
    using m(2) by (auto simp: move_ok_def moving_camera_ok_def split: option.splits)
  let ?c = "c\<lparr>cp_desired_revision := cp_desired_revision c + 1\<rparr>"
  let ?m = "m\<lparr>mv_state := CM_CLEANUP_TARGET, mv_abort_reason := Some reason\<rparr>"
  let ?s1 = "s\<lparr>st_cameras := replace_first c ?c (st_cameras s), st_camera_moves := replace_first m ?m (st_camera_moves s)\<rparr>"
  have s1: "run_op (RequestAbortMove i reason False) s = Inr ?s1"
    using m c by (simp add: request_camera_move_abort_def camera_move_is_terminal_def Let_def written_def)
  have m1: "find_by mv_id i (replace_first m ?m (st_camera_moves s)) = Some ?m"
    using m move_table.lookup_update [of m "st_camera_moves s" ?m] find_move_key [OF m(1)] by simp
  have c1: "find_by cp_id (mv_camera_id m) (replace_first c ?c (st_cameras s)) = Some ?c"
    using c camera_table.lookup_update [of c "st_cameras s" ?c] find_camera_key [OF c(1)] by simp
  have s2: "run_op (AbortMove i) ?s1 = Inr (put_move ?m (?m\<lparr>mv_state := CM_ABORTED\<rparr>) ?s1)"
    by (simp add: abort_camera_move_def m1 Let_def written_def)
  have s': "s' = put_move ?m (?m\<lparr>mv_state := CM_ABORTED\<rparr>) ?s1"
    unfolding s'_def run_ops.simps s1 sum.case s2 by simp
  have "find_move i s' = Some (?m\<lparr>mv_state := CM_ABORTED\<rparr>)"
    using move_table.lookup_update [of ?m "st_camera_moves ?s1" "?m\<lparr>mv_state := CM_ABORTED\<rparr>"] m1 find_move_key [OF m(1)]
    by (simp add: s' put_move_def)
  then show ?thesis using c c1 by (simp add: s' put_move_def)
qed

theorem move_aborts_witness:
  "find_move 9 (run_ops [RequestAbortMove 9 ''timeout'' False, AbortMove 9] ex_moving)
     = Some (ex_move\<lparr>mv_state := CM_ABORTED, mv_abort_reason := Some ''timeout''\<rparr>)"
  by (rule move_aborts [OF ex_moving_reachable, THEN conjunct1])
    (simp_all add: ex_moving_eq ex_values)

end
