(* ===== verification/Control_Monad.thy ===== *)
theory Control_Monad
  imports Node_Store
begin

text \<open>
  The control plane calls the store, the node runtime and other collaborators, and an exception may
  be raised after some of those calls have had their effect. An action maps the world to an error or
  a result together with the world it leaves, so that writes before an exception stay. The world is
  the store, the free slots of the disruption semaphore and everything outside the module.
\<close>

section \<open>Actions\<close>

record 'x world =
  w_store :: node_store
  w_slots :: nat
  w_ext :: 'x

type_synonym ('x, 'a) action = "'x world \<Rightarrow> (py_error + 'a) \<times> 'x world"

definition ret :: "'a \<Rightarrow> ('x, 'a) action" where
  "ret a w = (Inr a, w)"

definition fail :: "py_error \<Rightarrow> ('x, 'a) action" where
  "fail e w = (Inl e, w)"

definition and_then :: "('x, 'a) action \<Rightarrow> ('a \<Rightarrow> ('x, 'b) action) \<Rightarrow> ('x, 'b) action" where
  "and_then m f w = (case m w of (Inl e, w') \<Rightarrow> (Inl e, w') | (Inr a, w') \<Rightarrow> f a w')"

text \<open>\<^verbatim>\<open>try: ... except Exception as e: ...\<close>: the outcome of the body as a value.\<close>

definition attempt :: "('x, 'a) action \<Rightarrow> ('x, py_error + 'a) action" where
  "attempt m w = (case m w of (r, w') \<Rightarrow> (Inr r, w'))"

text \<open>\<^verbatim>\<open>with suppress(Exception): ...\<close>\<close>

definition suppress :: "('x, 'a) action \<Rightarrow> ('x, unit) action" where
  "suppress m = and_then (attempt m) (\<lambda>r. ret ())"

text \<open>\<^verbatim>\<open>try: ... except (E1, E2): ...\<close>\<close>

definition handle :: "(py_error \<Rightarrow> bool) \<Rightarrow> ('x, 'a) action \<Rightarrow> (py_error \<Rightarrow> ('x, 'a) action) \<Rightarrow> ('x, 'a) action" where
  "handle p m h = and_then (attempt m)
     (\<lambda>r. case r of Inl e \<Rightarrow> if p e then h e else fail e | Inr a \<Rightarrow> ret a)"

definition raise_if :: "bool \<Rightarrow> py_error \<Rightarrow> ('x, unit) action" where
  "raise_if b e = (if b then fail e else ret ())"

definition raise_some :: "py_error option \<Rightarrow> ('x, unit) action" where
  "raise_some r = (case r of Some e \<Rightarrow> fail e | None \<Rightarrow> ret ())"

definition from_sum :: "py_error + 'a \<Rightarrow> ('x, 'a) action" where
  "from_sum r = (case r of Inl e \<Rightarrow> fail e | Inr a \<Rightarrow> ret a)"

fun for_each :: "'a list \<Rightarrow> ('a \<Rightarrow> ('x, unit) action) \<Rightarrow> ('x, unit) action" where
  "for_each [] f = ret ()"
| "for_each (a # as) f = and_then (f a) (\<lambda>_. for_each as f)"

fun map_actions :: "('a \<Rightarrow> ('x, 'b) action) \<Rightarrow> 'a list \<Rightarrow> ('x, 'b list) action" where
  "map_actions f [] = ret []"
| "map_actions f (a # as) = and_then (f a) (\<lambda>b. and_then (map_actions f as) (\<lambda>bs. ret (b # bs)))"

section \<open>Calls\<close>

text \<open>A store operation that raises has written nothing.\<close>

definition call :: "('x \<Rightarrow> node_store \<Rightarrow> 'a store_result) \<Rightarrow> ('x, 'a) action" where
  "call f w =
     (case f (w_ext w) (w_store w) of
        Inl e \<Rightarrow> (Inl e, w)
      | Inr (a, s') \<Rightarrow> (Inr a, w\<lparr>w_store := s'\<rparr>))"

definition query :: "('x \<Rightarrow> node_store \<Rightarrow> py_error + 'a) \<Rightarrow> ('x, 'a) action" where
  "query f w = (f (w_ext w) (w_store w), w)"

definition external :: "('x \<Rightarrow> (py_error + 'a) \<times> 'x) \<Rightarrow> ('x, 'a) action" where
  "external f w = (case f (w_ext w) of (r, x') \<Rightarrow> (r, w\<lparr>w_ext := x'\<rparr>))"

text \<open>\<^verbatim>\<open>with self._store.lifecycle_guard(node_id): ...\<close>\<close>

definition guarded :: "uuid \<Rightarrow> ('x, 'a) action \<Rightarrow> ('x, 'a) action" where
  "guarded node_id body w =
     (case lifecycle_guard node_id (w_store w) of
        Some e \<Rightarrow> (Inl e, w)
      | None \<Rightarrow> body w)"

text \<open>\<^verbatim>\<open>with self._disruption_slot(): ...\<close>, a bounded semaphore taken without waiting.\<close>

definition disruption_slot :: "('x, 'a) action \<Rightarrow> ('x, 'a) action" where
  "disruption_slot body w =
     (if w_slots w = 0 then (Inl (NodeLifecycleBusy ''node_disruption_busy''), w)
      else case body (w\<lparr>w_slots := w_slots w - 1\<rparr>) of
        (r, w') \<Rightarrow> (r, w'\<lparr>w_slots := w_slots w' + 1\<rparr>))"

lemmas action_defs = ret_def fail_def and_then_def attempt_def suppress_def handle_def raise_if_def
  raise_some_def from_sum_def

section \<open>Relations every action keeps\<close>

text \<open>
  A relation between the world before and after is respected by composed actions when it is
  reflexive and transitive; only the calls have to be looked at.
\<close>

definition keeps :: "('x world \<Rightarrow> 'x world \<Rightarrow> bool) \<Rightarrow> ('x, 'a) action \<Rightarrow> bool" where
  "keeps R m \<longleftrightarrow> (\<forall>w. R w (snd (m w)))"

locale world_relation =
  fixes R :: "'x world \<Rightarrow> 'x world \<Rightarrow> bool"
  assumes refl: "R w w" and trans: "R w w' \<Longrightarrow> R w' w'' \<Longrightarrow> R w w''"
begin

lemma ret: "keeps R (ret a)"
  by (simp add: keeps_def ret_def refl)

lemma fail: "keeps R (fail e)"
  by (simp add: keeps_def fail_def refl)

lemma and_then:
  assumes "keeps R m" and "\<And>a. keeps R (f a)"
  shows "keeps R (and_then m f)"
  unfolding keeps_def
proof
  fix w
  obtain r w' where m: "m w = (r, w')" by fastforce
  then have "R w w'" using assms(1) by (metis keeps_def snd_conv)
  moreover have "R w' (snd (f a w'))" for a using assms(2) by (simp add: keeps_def)
  ultimately show "R w (snd (and_then m f w))"
    using m trans by (auto simp: and_then_def split: sum.split)
qed

lemma and_then_result:
  assumes "keeps R m" and "\<And>a w w'. m w = (Inr a, w') \<Longrightarrow> keeps R (f a)"
  shows "keeps R (and_then m f)"
  unfolding keeps_def
proof
  fix w
  obtain r w' where m: "m w = (r, w')" by fastforce
  then have "R w w'" using assms(1) by (metis keeps_def snd_conv)
  then show "R w (snd (and_then m f w))"
    using m trans assms(2) by (auto simp: and_then_def keeps_def split: sum.split)
qed

lemma attempt: "keeps R m \<Longrightarrow> keeps R (attempt m)"
  by (auto simp: keeps_def attempt_def split: prod.split) (metis snd_conv)

lemma suppress: "keeps R m \<Longrightarrow> keeps R (suppress m)"
  by (simp add: suppress_def and_then attempt ret)

lemma handle: "keeps R m \<Longrightarrow> (\<And>e. keeps R (h e)) \<Longrightarrow> keeps R (handle p m h)"
  by (auto simp: handle_def intro!: and_then attempt ret fail split: sum.split)

lemma raises: "keeps R (raise_if b e)" "keeps R (raise_some r)" "keeps R (from_sum t)"
  by (auto simp: raise_if_def raise_some_def from_sum_def ret fail split: option.split sum.split)

lemma for_each: "(\<And>a. a \<in> set as \<Longrightarrow> keeps R (f a)) \<Longrightarrow> keeps R (for_each as f)"
  by (induction as) (auto intro: ret and_then)

lemma map_actions: "(\<And>a. a \<in> set as \<Longrightarrow> keeps R (f a)) \<Longrightarrow> keeps R (map_actions f as)"
  by (induction as) (auto intro!: ret and_then)

lemma query: "keeps R (query f)"
  by (simp add: keeps_def query_def refl)

lemma guarded: "keeps R m \<Longrightarrow> keeps R (guarded i m)"
  by (auto simp: keeps_def guarded_def refl split: option.split)

end

end
