(* ===== verification/Node_Control.thy ===== *)
theory Node_Control
  imports Control_Monad Port_Store Camera_Store
begin

text \<open>
  \<^verbatim>\<open>NodeControl\<close> of \<^verbatim>\<open>nodes.py\<close> over the in-memory store. Its collaborators (the runtime that drives
  MediaMTX processes, the disruption observer, the confirmation tokens, port probes, id factories
  and clocks) are fields of the \<^verbatim>\<open>node_control\<close> record: functions over the outside world, of which
  nothing is assumed. A function of that kind may change the outside world and may raise.
\<close>

section \<open>Collaborators\<close>

record 'x disruption_observer =
  obs_observe :: "media_node \<Rightarrow> 'x \<Rightarrow> (py_error + node_disruption_observation) \<times> 'x"
  obs_fence :: "(media_node \<Rightarrow> public_id list \<Rightarrow> 'x
                 \<Rightarrow> (py_error + node_disruption_fence_lease option) \<times> 'x) option"
  obs_fence_exit :: "node_disruption_fence_lease option \<Rightarrow> py_error option \<Rightarrow> 'x \<Rightarrow> (py_error + bool) \<times> 'x"

text \<open>
  \<^verbatim>\<open>obs_fence\<close> is the call of \<^verbatim>\<open>fence(...)\<close> and of \<^verbatim>\<open>__enter__\<close>, absent when the observer has no
  callable \<^verbatim>\<open>fence\<close>; it gives no lease when the object entered is not a lease.
  \<^verbatim>\<open>obs_fence_exit\<close> is \<^verbatim>\<open>__exit__\<close>, with the lease as the body left it and the exception, if any.
\<close>

record 'x node_runtime =
  rt_execute :: "node_runtime_action \<Rightarrow> media_node \<Rightarrow> 'x \<Rightarrow> (py_error + node_runtime_observation) \<times> 'x"
  rt_execute_until :: "(node_runtime_action \<Rightarrow> media_node \<Rightarrow> int \<Rightarrow> 'x
                        \<Rightarrow> (py_error + node_runtime_observation) \<times> 'x) option"
  rt_disruption :: "'x disruption_observer option"

record port_change_claim =
  pk_node_id :: uuid
  pk_old_port :: int
  pk_new_port :: int
  pk_desired_revision :: int
  pk_registered_cameras :: int
  pk_blast_radius_sha256 :: string
  pk_reader_blast_radius_sha256 :: string
  pk_active_readers :: int
  pk_confirmation_context :: "node_disruption_confirmation_context option"

record reconfigure_claim =
  rk_node_id :: uuid
  rk_external_port :: int
  rk_desired_revision :: int
  rk_registered_cameras :: int
  rk_blast_radius_sha256 :: string
  rk_reader_blast_radius_sha256 :: string
  rk_active_readers :: int
  rk_confirmation_context :: "node_disruption_confirmation_context option"
  rk_target_release_id :: string
  rk_target_mediamtx_binary_sha256 :: string

record 'x confirmations =
  cf_issue_node_port_change :: "port_change_claim \<Rightarrow> 'x \<Rightarrow> (py_error + string) \<times> 'x"
  cf_verify_node_port_change :: "string \<Rightarrow> port_change_claim \<Rightarrow> 'x \<Rightarrow> (py_error + bool) \<times> 'x"
  cf_issue_node_reconfigure :: "reconfigure_claim \<Rightarrow> 'x \<Rightarrow> (py_error + string) \<times> 'x"
  cf_verify_node_reconfigure :: "string \<Rightarrow> reconfigure_claim \<Rightarrow> 'x \<Rightarrow> (py_error + bool) \<times> 'x"

record 'x node_control =
  nc_choose_port :: "'x \<Rightarrow> int list \<Rightarrow> int"
  nc_new_node_id :: "'x \<Rightarrow> uuid \<times> 'x"
  nc_is_port_bindable :: "int \<Rightarrow> 'x \<Rightarrow> bool \<times> 'x"
  nc_node_runtime :: "'x node_runtime option"
  nc_disruption_observer :: "'x disruption_observer option"
  nc_provision_on_create :: bool
  nc_recovery_workers :: int
  nc_confirmations :: "'x confirmations option"
  nc_new_operation_id :: "'x \<Rightarrow> uuid \<times> 'x"
  nc_sleep :: "'x \<Rightarrow> 'x"
  nc_reconfigure_release_id :: "string option"
  nc_reconfigure_mediamtx_binary_sha256 :: "string option"
  nc_clock :: "'x \<Rightarrow> datetime"
  nc_disruption_workers :: int
  nc_env :: "'x \<Rightarrow> store_env"

text \<open>
  \<^verbatim>\<open>NodeControl.__init__\<close>: the checks of the constructor. \<^verbatim>\<open>nc_env\<close> is not a field of the class: it
  stands for the clocks and the hash the store itself reads at a point in time.
\<close>

definition node_control_init :: "'x node_control \<Rightarrow> py_error option" where
  "node_control_init c =
     (if nc_recovery_workers c < 1 \<or> nc_recovery_workers c > 16
      then Some (ValueError ''node_recovery_workers_invalid'')
      else if \<not> (1 \<le> nc_disruption_workers c \<and> nc_disruption_workers c \<le> 8)
      then Some (ValueError ''node_disruption_workers_invalid'')
      else if (nc_reconfigure_release_id c = None) \<noteq> (nc_reconfigure_mediamtx_binary_sha256 c = None)
      then Some (ValueError ''node_release_identity_incomplete'')
      else (case (nc_reconfigure_release_id c, nc_reconfigure_mediamtx_binary_sha256 c) of
              (Some r, Some d) \<Rightarrow> validate_release r d
            | _ \<Rightarrow> None))"

definition the_clock :: "'x node_control \<Rightarrow> ('x, datetime) action" where
  "the_clock c = query (\<lambda>x s. Inr (nc_clock c x))"

definition port_bindable :: "'x node_control \<Rightarrow> int \<Rightarrow> ('x, bool) action" where
  "port_bindable c port = external (\<lambda>x. apfst Inr (nc_is_port_bindable c port x))"

definition get_node_call :: "uuid \<Rightarrow> ('x, media_node option) action" where
  "get_node_call node_id = query (\<lambda>x s. Inr (get_node node_id s))"

definition list_nodes_call :: "('x, media_node list) action" where
  "list_nodes_call = query (\<lambda>x s. Inr (list_nodes s))"

section \<open>The runtime\<close>

definition require_node_and_runtime :: "'x node_control \<Rightarrow> uuid \<Rightarrow> ('x, media_node) action" where
  "require_node_and_runtime c node_id =
     and_then (get_node_call node_id) (\<lambda>found.
       case found of
         None \<Rightarrow> fail (NodeNotFound ''node_not_found'')
       | Some node \<Rightarrow>
           if nc_node_runtime c = None then fail (NodeRuntimeUnavailable ''node_runtime_unavailable'')
           else ret node)"

text \<open>\<^verbatim>\<open>assert self._node_runtime is not None\<close>, then a call on it.\<close>

definition with_runtime :: "'x node_control \<Rightarrow> ('x node_runtime \<Rightarrow> ('x, 'a) action) \<Rightarrow> ('x, 'a) action" where
  "with_runtime c f = (case nc_node_runtime c of None \<Rightarrow> fail (AssertionError '''') | Some rt \<Rightarrow> f rt)"

definition execute_runtime_observation ::
  "'x node_control \<Rightarrow> node_runtime_action \<Rightarrow> media_node \<Rightarrow> int option
   \<Rightarrow> ('x, node_runtime_observation) action" where
  "execute_runtime_observation c action node deadline_unix_ms =
     with_runtime c (\<lambda>rt.
       case deadline_unix_ms of
         None \<Rightarrow> external (rt_execute rt action node)
       | Some deadline \<Rightarrow>
          (case rt_execute_until rt of
             None \<Rightarrow> fail (NodeRuntimeUnavailable ''node_runtime_deadline_unavailable'')
           | Some execute_until \<Rightarrow> external (execute_until action node deadline)))"

definition apply_observation_call ::
  "'x node_control \<Rightarrow> uuid \<Rightarrow> node_runtime_observation \<Rightarrow> ('x, media_node) action" where
  "apply_observation_call c node_id ob = call (\<lambda>x. apply_runtime_observation (nc_env c x) node_id ob)"

definition record_failure :: "'x node_control \<Rightarrow> uuid \<Rightarrow> int \<Rightarrow> ('x, media_node) action" where
  "record_failure c node_id applied_revision =
     apply_observation_call c node_id (failed_observation applied_revision)"

definition execute_runtime ::
  "'x node_control \<Rightarrow> media_node \<Rightarrow> node_runtime_action \<Rightarrow> int option \<Rightarrow> ('x, media_node) action" where
  "execute_runtime c node action deadline_unix_ms =
     with_runtime c (\<lambda>rt.
       and_then (attempt (execute_runtime_observation c action node deadline_unix_ms)) (\<lambda>outcome.
         case outcome of
           Inl e \<Rightarrow>
             and_then (record_failure c (nd_id node) (nd_applied_revision node))
               (\<lambda>_. fail (NodeRuntimeFailed ''node_runtime_operation_failed'' (nd_id node)))
         | Inr observation \<Rightarrow>
             and_then (attempt (apply_observation_call c (nd_id node) observation)) (\<lambda>applied.
               case applied of
                 Inr updated \<Rightarrow> ret updated
               | Inl e \<Rightarrow>
                   and_then (record_failure c (nd_id node) (nd_applied_revision node))
                     (\<lambda>_. fail (NodeRuntimeFailed ''node_runtime_operation_failed'' (nd_id node))))))"

definition start_node_locked ::
  "'x node_control \<Rightarrow> uuid \<Rightarrow> node_command_fence option \<Rightarrow> ('x, media_node) action" where
  "start_node_locked c node_id fence =
     and_then (require_node_and_runtime c node_id) (\<lambda>_.
     and_then (call (\<lambda>x. request_desired_state node_id NS_RUNNING fence)) (\<lambda>desired.
       execute_runtime c desired
         (if nd_applied_revision desired = 0 then RA_PROVISION_START else RA_START) None))"

definition stop_node_locked ::
  "'x node_control \<Rightarrow> uuid \<Rightarrow> node_command_fence option \<Rightarrow> ('x, media_node) action" where
  "stop_node_locked c node_id fence =
     and_then (require_node_and_runtime c node_id) (\<lambda>_.
     and_then (call (\<lambda>x. request_stop node_id fence)) (\<lambda>desired.
       execute_runtime c desired RA_STOP None))"

definition observe_node_locked :: "'x node_control \<Rightarrow> uuid \<Rightarrow> ('x, media_node) action" where
  "observe_node_locked c node_id =
     and_then (require_node_and_runtime c node_id) (\<lambda>node. execute_runtime c node RA_OBSERVE None)"

section \<open>Node commands\<close>

definition start_node ::
  "'x node_control \<Rightarrow> uuid \<Rightarrow> node_command_fence option \<Rightarrow> ('x, media_node) action" where
  "start_node c node_id fence = guarded node_id (start_node_locked c node_id fence)"

definition stop_node ::
  "'x node_control \<Rightarrow> uuid \<Rightarrow> node_command_fence option \<Rightarrow> ('x, media_node) action" where
  "stop_node c node_id fence = guarded node_id (stop_node_locked c node_id fence)"

definition restart_node ::
  "'x node_control \<Rightarrow> uuid \<Rightarrow> node_command_fence option \<Rightarrow> ('x, media_node) action" where
  "restart_node c node_id fence =
     guarded node_id
       (and_then (require_node_and_runtime c node_id) (\<lambda>_.
        and_then (call (\<lambda>x. request_restart node_id fence)) (\<lambda>desired.
          execute_runtime c desired RA_RESTART None)))"

definition observe_node :: "'x node_control \<Rightarrow> uuid \<Rightarrow> ('x, media_node) action" where
  "observe_node c node_id = guarded node_id (observe_node_locked c node_id)"

definition set_administrative_state ::
  "'x node_control \<Rightarrow> uuid \<Rightarrow> node_state \<Rightarrow> node_command_fence option \<Rightarrow> ('x, media_node) action" where
  "set_administrative_state c node_id state fence =
     guarded node_id
       (and_then (raise_if (state \<notin> {NS_DRAINING, NS_MAINTENANCE, NS_RUNNING})
                    (NodeLifecycleConflict ''node_administrative_transition_invalid'')) (\<lambda>_.
          call (\<lambda>x. request_administrative_state node_id state fence)))"

definition update_node_release ::
  "'x node_control \<Rightarrow> uuid \<Rightarrow> string \<Rightarrow> string \<Rightarrow> node_command_fence option \<Rightarrow> ('x, media_node) action" where
  "update_node_release c node_id release_id mediamtx_binary_sha256 fence =
     guarded node_id
       (and_then (require_node_and_runtime c node_id) (\<lambda>_.
          call (\<lambda>x. request_release node_id release_id mediamtx_binary_sha256 fence)))"

text \<open>The body of the \<^verbatim>\<open>try\<close> of \<^verbatim>\<open>delete_node\<close> and of the recovery of a deletion.\<close>

definition delete_runtime :: "'x node_control \<Rightarrow> media_node \<Rightarrow> ('x, unit) action" where
  "delete_runtime c deleting =
     with_runtime c (\<lambda>rt.
       and_then (external (rt_execute rt RA_DELETE deleting)) (\<lambda>observation.
       and_then (raise_if (ob_state observation \<noteq> NS_STOPPED) (RuntimeError ''node_delete_not_stopped'')) (\<lambda>_.
         call (\<lambda>x. finalize_node_delete (nd_id deleting)))))"

definition delete_node ::
  "'x node_control \<Rightarrow> uuid \<Rightarrow> node_command_fence option \<Rightarrow> ('x, unit) action" where
  "delete_node c node_id fence =
     guarded node_id
       (and_then (require_node_and_runtime c node_id) (\<lambda>_.
        and_then (call (\<lambda>x. request_node_delete node_id fence)) (\<lambda>deleting.
        and_then (attempt (delete_runtime c deleting)) (\<lambda>outcome.
          case outcome of
            Inr _ \<Rightarrow> ret ()
          | Inl e \<Rightarrow>
              and_then (suppress (record_failure c (nd_id deleting) (nd_applied_revision deleting)))
                (\<lambda>_. fail (NodeRuntimeFailed ''node_delete_failed'' node_id))))))"

end
