(* ===== verification/Node_Disruption.thy ===== *)
theory Node_Disruption
  imports Node_Control
begin

text \<open>
  \<^verbatim>\<open>NodeControl\<close>: the operations that disconnect readers. A preview shows what would be affected and
  issues a confirmation token; the operation itself recomputes that, under a fence that stops new
  readers, and requires a token for exactly what it finds. A change of port is rolled back when the
  runtime or the commit fails.
\<close>

section \<open>Disruption details\<close>

definition node_camera_details ::
  "'x node_control \<Rightarrow> media_node \<Rightarrow> ('x, public_id list \<times> string) action" where
  "node_camera_details c node =
     and_then (query (\<lambda>x. list_node_cameras (nd_id node))) (\<lambda>listed.
       let cameras = sort_key cp_public_id listed in
       and_then (raise_if (int (length cameras) \<noteq> nd_registered_cameras node)
                   (NodeLifecycleConflict ''node_registered_camera_count_changed'')) (\<lambda>_.
         query (\<lambda>x s. Inr (map cp_public_id cameras,
                           camera_placement_fingerprint (env_sha256 (nc_env c x))
                             (map (\<lambda>cam. (cp_id cam, cp_placement_generation cam)) cameras)))))"

definition node_camera_fingerprint :: "'x node_control \<Rightarrow> uuid \<Rightarrow> ('x, string) action" where
  "node_camera_fingerprint c node_id =
     query (\<lambda>x s. map_sum id (blast_radius_of (env_sha256 (nc_env c x))) (list_node_cameras node_id s))"

definition resolve_disruption_observer :: "'x node_control \<Rightarrow> ('x, 'x disruption_observer) action" where
  "resolve_disruption_observer c =
     (case nc_disruption_observer c of
        Some observer \<Rightarrow> ret observer
      | None \<Rightarrow>
         (case nc_node_runtime c of
            None \<Rightarrow> fail (NodeRuntimeUnavailable ''node_disruption_observation_unavailable'')
          | Some rt \<Rightarrow>
             (case rt_disruption rt of
                Some observer \<Rightarrow> ret observer
              | None \<Rightarrow> fail (NodeRuntimeUnavailable ''node_disruption_observation_unavailable''))))"

definition disruption_observation_valid ::
  "datetime \<Rightarrow> media_node \<Rightarrow> public_id list \<Rightarrow> node_disruption_observation \<Rightarrow> bool" where
  "disruption_observation_valid now node affected_public_ids ob \<longleftrightarrow>
     \<not> (do_observed_at ob > now + seconds 1
        \<or> do_observed_at ob < now - seconds 30
        \<or> Some (do_process_id ob) \<noteq> nd_process_id node
        \<or> Some (do_process_start_ticks ob) \<noteq> nd_process_start_ticks node
        \<or> Some (do_process_boot_id ob) \<noteq> nd_process_boot_id node
        \<or> do_release_id ob \<noteq> nd_release_id node
        \<or> \<not> set (do_active_reader_public_ids ob) \<subseteq> set affected_public_ids)"

definition validated_disruption_details ::
  "'x node_control \<Rightarrow> media_node \<Rightarrow> public_id list \<Rightarrow> string \<Rightarrow> node_disruption_observation
   \<Rightarrow> ('x, node_disruption_details) action" where
  "validated_disruption_details c node affected_public_ids blast_radius_sha256 ob =
     and_then (the_clock c) (\<lambda>now.
     and_then (raise_if (\<not> disruption_observation_valid now node affected_public_ids ob)
                 (NodeRuntimeUnavailable ''node_disruption_observation_invalid'')) (\<lambda>_.
     and_then (query (\<lambda>x s. node_reader_blast_radius_fingerprint (env_sha256 (nc_env c x)) (nd_id node)
                 (nd_runtime_state node)
                 (Some (do_process_id ob), Some (do_process_start_ticks ob),
                  Some (do_process_boot_id ob), Some (do_release_id ob))
                 (do_active_reader_public_ids ob))) (\<lambda>reader_blast_radius_sha256.
       ret \<lparr>dd_affected_public_ids = affected_public_ids,
            dd_active_reader_public_ids = do_active_reader_public_ids ob,
            dd_blast_radius_sha256 = blast_radius_sha256,
            dd_reader_blast_radius_sha256 = reader_blast_radius_sha256,
            dd_reader_observed_at = do_observed_at ob,
            dd_process_id = Some (do_process_id ob),
            dd_process_start_ticks = Some (do_process_start_ticks ob),
            dd_process_boot_id = Some (do_process_boot_id ob),
            dd_release_id = do_release_id ob,
            dd_runtime_state = nd_runtime_state node\<rparr>)))"

definition require_runtime_inactive :: "'x node_control \<Rightarrow> media_node \<Rightarrow> ('x, unit) action" where
  "require_runtime_inactive c node =
     with_runtime c (\<lambda>rt.
       and_then (attempt (external (rt_execute rt RA_OBSERVE node))) (\<lambda>outcome.
         case outcome of
           Inl e \<Rightarrow> fail (NodeRuntimeUnavailable ''node_inactive_proof_unavailable'')
         | Inr ob \<Rightarrow>
             raise_if (ob_state ob \<noteq> NS_STOPPED \<or> ob_process_id ob \<noteq> None
                       \<or> ob_process_start_ticks ob \<noteq> None \<or> ob_process_boot_id ob \<noteq> None)
               (NodeRuntimeUnavailable ''node_inactive_proof_invalid'')))"

definition inactive_disruption_details ::
  "'x node_control \<Rightarrow> media_node \<Rightarrow> public_id list \<Rightarrow> string \<Rightarrow> ('x, node_disruption_details) action" where
  "inactive_disruption_details c node affected_public_ids blast_radius_sha256 =
     and_then (the_clock c) (\<lambda>now.
     and_then (query (\<lambda>x s. node_reader_blast_radius_fingerprint (env_sha256 (nc_env c x)) (nd_id node)
                 (nd_runtime_state node) (None, None, None, Some (nd_release_id node)) [])) (\<lambda>fingerprint.
       ret \<lparr>dd_affected_public_ids = affected_public_ids, dd_active_reader_public_ids = [],
            dd_blast_radius_sha256 = blast_radius_sha256,
            dd_reader_blast_radius_sha256 = fingerprint, dd_reader_observed_at = now,
            dd_process_id = None, dd_process_start_ticks = None, dd_process_boot_id = None,
            dd_release_id = nd_release_id node, dd_runtime_state = nd_runtime_state node\<rparr>))"

definition node_disruption_details_of ::
  "'x node_control \<Rightarrow> media_node \<Rightarrow> ('x, node_disruption_details) action" where
  "node_disruption_details_of c node =
     and_then (node_camera_details c node) (\<lambda>(affected_public_ids, blast_radius_sha256).
       if nd_runtime_state node = NS_RUNNING
       then and_then (resolve_disruption_observer c) (\<lambda>observer.
            and_then (attempt (external (obs_observe observer node))) (\<lambda>outcome.
              case outcome of
                Inl e \<Rightarrow>
                  if is_runtime_unavailable e then fail e
                  else fail (NodeRuntimeUnavailable ''node_disruption_observation_unavailable'')
              | Inr ob \<Rightarrow>
                  validated_disruption_details c node affected_public_ids blast_radius_sha256 ob))
       else and_then (require_runtime_inactive c node) (\<lambda>_.
              inactive_disruption_details c node affected_public_ids blast_radius_sha256))"

text \<open>
  \<^verbatim>\<open>with self._fenced_node_disruption_details(node) as (details, lease): body\<close>. The body also says
  whether it completed the lease. When \<^verbatim>\<open>__exit__\<close> of the fence suppresses the exception, the
  \<^verbatim>\<open>with\<close> statement ends normally and the enclosing method returns \<^verbatim>\<open>None\<close>; when the exception came
  before the body was entered, the generator has not yielded, which is a \<^verbatim>\<open>RuntimeError\<close>.
\<close>

definition fence_exit ::
  "'x disruption_observer \<Rightarrow> node_disruption_fence_lease option \<Rightarrow> py_error option \<Rightarrow> ('x, bool) action" where
  "fence_exit observer lease error =
     and_then (attempt (external (obs_fence_exit observer lease error))) (\<lambda>outcome.
       case outcome of
         Inl e \<Rightarrow> fail (NodeRuntimeUnavailable ''node_disruption_fence_failed'')
       | Inr suppressed \<Rightarrow> ret suppressed)"

definition fenced_body ::
  "'x node_control \<Rightarrow> 'x disruption_observer \<Rightarrow> media_node \<Rightarrow> public_id list \<Rightarrow> string
   \<Rightarrow> node_disruption_fence_lease option
   \<Rightarrow> (node_disruption_details \<Rightarrow> node_disruption_fence_lease option \<Rightarrow> ('x, 'a) action)
   \<Rightarrow> ('x, 'a option) action" where
  "fenced_body c observer node affected_public_ids blast_radius_sha256 entered body =
     and_then (attempt
       (case entered of
          None \<Rightarrow> fail (NodeRuntimeUnavailable ''node_disruption_fence_invalid'')
        | Some lease \<Rightarrow>
            validated_disruption_details c node affected_public_ids blast_radius_sha256
              (le_observation lease))) (\<lambda>prepared.
       case prepared of
         Inl e \<Rightarrow>
           and_then (fence_exit observer entered (Some e)) (\<lambda>suppressed.
             if suppressed then fail (RuntimeError ''generator didn't yield'') else fail e)
       | Inr details \<Rightarrow>
           and_then (attempt (body details entered)) (\<lambda>result.
             case result of
               Inl e \<Rightarrow>
                 and_then (fence_exit observer entered (Some e)) (\<lambda>suppressed.
                   if suppressed then ret None else fail e)
             | Inr a \<Rightarrow>
                 and_then (fence_exit observer (map_option lease_complete entered) None) (\<lambda>_.
                   ret (Some a))))"

definition fenced_node_disruption_details ::
  "'x node_control \<Rightarrow> media_node
   \<Rightarrow> (node_disruption_details \<Rightarrow> node_disruption_fence_lease option \<Rightarrow> ('x, 'a) action)
   \<Rightarrow> ('x, 'a option) action" where
  "fenced_node_disruption_details c node body =
     and_then (node_camera_details c node) (\<lambda>(affected_public_ids, blast_radius_sha256).
       if nd_runtime_state node \<noteq> NS_RUNNING
       then and_then (require_runtime_inactive c node) (\<lambda>_.
            and_then (inactive_disruption_details c node affected_public_ids blast_radius_sha256)
              (\<lambda>details. and_then (body details None) (\<lambda>a. ret (Some a))))
       else and_then (resolve_disruption_observer c) (\<lambda>observer.
              case obs_fence observer of
                None \<Rightarrow> fail (NodeRuntimeUnavailable ''node_disruption_fence_unavailable'')
              | Some fence \<Rightarrow>
                  and_then (attempt (external (fence node affected_public_ids))) (\<lambda>entered.
                    case entered of
                      Inl e \<Rightarrow> fail (NodeRuntimeUnavailable ''node_disruption_fence_failed'')
                    | Inr lease \<Rightarrow>
                        fenced_body c observer node affected_public_ids blast_radius_sha256 lease body)))"

text \<open>
  \<^verbatim>\<open>int(t.timestamp() * 1000)\<close>, without the rounding of the binary floating point product, which can
  make the source's value one millisecond smaller. The value only goes into the audit context.
\<close>

definition unix_ms :: "datetime \<Rightarrow> int" where
  "unix_ms t = t div 1000"

definition confirmed_mutation_context ::
  "node_mutation_context option \<Rightarrow> node_disruption_confirmation_context option
   \<Rightarrow> node_disruption_details \<Rightarrow> py_error + node_mutation_context option" where
  "confirmed_mutation_context mutation_context confirmation_context details =
     (case mutation_context of
        None \<Rightarrow> Inr None
      | Some mc \<Rightarrow>
         (case confirmation_context of
            None \<Rightarrow> Inl (NodeDisruptionConfirmationRequired ''node_disruption_confirmation_required'')
          | Some cc \<Rightarrow>
              if cc_account_id cc \<noteq> mc_actor_account_id mc
                 \<or> cc_session_id cc \<noteq> mc_actor_session_id mc
                 \<or> cc_authz_version cc \<noteq> mc_authz_version mc
              then Inl (NodeDisruptionConfirmationRequired ''node_disruption_confirmation_required'')
              else (case checked node_disruption_audit_context_post_init
                      \<lparr>da_mfa_verified_at_unix_ms = cc_mfa_verified_at_unix_ms cc,
                       da_reader_observed_at_unix_ms = unix_ms (dd_reader_observed_at details),
                       da_reader_blast_radius_sha256 = dd_reader_blast_radius_sha256 details,
                       da_active_readers = int (length (dd_active_reader_public_ids details)),
                       da_runtime_state = dd_runtime_state details,
                       da_release_id = dd_release_id details,
                       da_process_id = dd_process_id details,
                       da_process_start_ticks = dd_process_start_ticks details,
                       da_process_boot_id = dd_process_boot_id details\<rparr> of
                     Inl e \<Rightarrow> Inl e
                   | Inr audit \<Rightarrow>
                       map_sum id Some (checked node_mutation_context_post_init
                         (mc\<lparr>mc_disruption_confirmation := Some audit\<rparr>)))))"

section \<open>Reconfiguration\<close>

text \<open>Python's \<^verbatim>\<open>a or b\<close> on an optional string.\<close>

definition str_or :: "string option \<Rightarrow> string \<Rightarrow> string" where
  "str_or a b = (case a of None \<Rightarrow> b | Some v \<Rightarrow> if v = [] then b else v)"

definition reconfigure_claim_of ::
  "'x node_control \<Rightarrow> media_node \<Rightarrow> node_disruption_details
   \<Rightarrow> node_disruption_confirmation_context option \<Rightarrow> reconfigure_claim" where
  "reconfigure_claim_of c node details confirmation_context =
     \<lparr>rk_node_id = nd_id node, rk_external_port = nd_external_port node,
      rk_desired_revision = nd_desired_revision node,
      rk_registered_cameras = nd_registered_cameras node,
      rk_blast_radius_sha256 = dd_blast_radius_sha256 details,
      rk_reader_blast_radius_sha256 = dd_reader_blast_radius_sha256 details,
      rk_active_readers = int (length (dd_active_reader_public_ids details)),
      rk_confirmation_context = confirmation_context,
      rk_target_release_id = str_or (nc_reconfigure_release_id c) (nd_release_id node),
      rk_target_mediamtx_binary_sha256 =
        str_or (nc_reconfigure_mediamtx_binary_sha256 c) (nd_mediamtx_binary_sha256 node)\<rparr>"

definition preview_reconfigure ::
  "'x node_control \<Rightarrow> uuid \<Rightarrow> node_disruption_confirmation_context option
   \<Rightarrow> ('x, node_reconfigure_preview) action" where
  "preview_reconfigure c node_id confirmation_context =
     guarded node_id
       (and_then (require_node_and_runtime c node_id) (\<lambda>node.
        and_then (raise_if (nd_state node \<noteq> NS_DRAINING) (NodeLifecycleConflict ''node_not_draining'')) (\<lambda>_.
        and_then (raise_if (nd_runtime_state node \<notin> {NS_RUNNING, NS_STOPPED, NS_FAILED})
                    (NodeLifecycleConflict ''node_reconfigure_runtime_invalid'')) (\<lambda>_.
          case nc_confirmations c of
            None \<Rightarrow> fail (NodeRuntimeUnavailable ''node_confirmation_unavailable'')
          | Some cf \<Rightarrow>
              and_then (node_disruption_details_of c node) (\<lambda>details.
                let claim = reconfigure_claim_of c node details confirmation_context in
                and_then (external (cf_issue_node_reconfigure cf claim)) (\<lambda>token.
                  ret \<lparr>rp_node_id = nd_id node, rp_external_port = nd_external_port node,
                       rp_desired_revision = nd_desired_revision node,
                       rp_registered_cameras = nd_registered_cameras node,
                       rp_blast_radius_sha256 = dd_blast_radius_sha256 details,
                       rp_affected_public_ids = dd_affected_public_ids details,
                       rp_active_reader_public_ids = dd_active_reader_public_ids details,
                       rp_reader_blast_radius_sha256 = dd_reader_blast_radius_sha256 details,
                       rp_reader_observed_at = dd_reader_observed_at details,
                       rp_target_release_id = rk_target_release_id claim,
                       rp_target_mediamtx_binary_sha256 = rk_target_mediamtx_binary_sha256 claim,
                       rp_confirmation_token = token\<rparr>))))))"

text \<open>
  The token is checked with the confirmation service only when both are present.
\<close>

definition confirmed ::
  "('x confirmations \<Rightarrow> string \<Rightarrow> ('x, bool) action) \<Rightarrow> 'x node_control \<Rightarrow> string option
   \<Rightarrow> ('x, unit) action" where
  "confirmed verify c confirmation_token =
     (case (nc_confirmations c, confirmation_token) of
        (Some cf, Some token) \<Rightarrow>
          and_then (verify cf token) (\<lambda>ok.
            raise_if (\<not> ok) (NodeDisruptionConfirmationRequired ''node_disruption_confirmation_required''))
      | _ \<Rightarrow> fail (NodeDisruptionConfirmationRequired ''node_disruption_confirmation_required''))"

definition lease_deadline :: "node_disruption_fence_lease option \<Rightarrow> int option" where
  "lease_deadline lease = (case lease of None \<Rightarrow> None | Some l \<Rightarrow> le_work_deadline_unix_ms l)"

definition reconfigure_node ::
  "'x node_control \<Rightarrow> uuid \<Rightarrow> string option \<Rightarrow> node_disruption_confirmation_context option
   \<Rightarrow> node_command_fence option \<Rightarrow> node_mutation_context option \<Rightarrow> ('x, media_node option) action" where
  "reconfigure_node c node_id confirmation_token confirmation_context fence mutation_context =
     disruption_slot (guarded node_id
       (and_then (require_node_and_runtime c node_id) (\<lambda>current.
        and_then (raise_some (require_node_command_fence current fence)) (\<lambda>_.
          fenced_node_disruption_details c current (\<lambda>details lease.
            and_then (confirmed (\<lambda>cf token. external (cf_verify_node_reconfigure cf token
                        (reconfigure_claim_of c current details confirmation_context)))
                        c confirmation_token) (\<lambda>_.
            and_then (from_sum (confirmed_mutation_context mutation_context confirmation_context details))
              (\<lambda>_.
            and_then (call (\<lambda>x. request_reconfigure (nc_env c x) node_id (nd_desired_revision current)
                        (nd_registered_cameras current) (dd_blast_radius_sha256 details)
                        (nc_reconfigure_release_id c)
                        (if nc_reconfigure_release_id c = None then None
                         else nc_reconfigure_mediamtx_binary_sha256 c))) (\<lambda>desired.
              execute_runtime c desired RA_RECONFIGURE_RESTART (lease_deadline lease)))))))))"

section \<open>Change of the external port\<close>

definition port_change_claim_of ::
  "media_node \<Rightarrow> int \<Rightarrow> node_disruption_details \<Rightarrow> node_disruption_confirmation_context option
   \<Rightarrow> port_change_claim" where
  "port_change_claim_of node new_port details confirmation_context =
     \<lparr>pk_node_id = nd_id node, pk_old_port = nd_external_port node, pk_new_port = new_port,
      pk_desired_revision = nd_desired_revision node,
      pk_registered_cameras = nd_registered_cameras node,
      pk_blast_radius_sha256 = dd_blast_radius_sha256 details,
      pk_reader_blast_radius_sha256 = dd_reader_blast_radius_sha256 details,
      pk_active_readers = int (length (dd_active_reader_public_ids details)),
      pk_confirmation_context = confirmation_context\<rparr>"

definition preview_port_change ::
  "'x node_control \<Rightarrow> uuid \<Rightarrow> int \<Rightarrow> int list \<Rightarrow> node_disruption_confirmation_context option
   \<Rightarrow> ('x, node_port_change_preview) action" where
  "preview_port_change c node_id new_port allowed_ports confirmation_context =
     guarded node_id
       (and_then (get_node_call node_id) (\<lambda>found.
          case found of
            None \<Rightarrow> fail (NodeNotFound ''node_not_found'')
          | Some node \<Rightarrow>
              and_then (raise_if (new_port \<notin> set allowed_ports)
                          (NodePortOutOfRange ''node_port_out_of_range'')) (\<lambda>_.
              and_then (raise_if (nd_state node \<noteq> NS_RUNNING \<or> nd_runtime_state node \<noteq> NS_RUNNING)
                          (NodeLifecycleConflict ''node_not_running'')) (\<lambda>_.
              and_then (raise_if (nd_external_port node = new_port)
                          (NodeLifecycleConflict ''node_port_unchanged'')) (\<lambda>_.
                case nc_confirmations c of
                  None \<Rightarrow> fail (NodeRuntimeUnavailable ''node_confirmation_unavailable'')
                | Some cf \<Rightarrow>
                    and_then (node_disruption_details_of c node) (\<lambda>details.
                    and_then (external (cf_issue_node_port_change cf
                                (port_change_claim_of node new_port details confirmation_context)))
                      (\<lambda>token.
                      ret \<lparr>pp_node_id = nd_id node, pp_old_port = nd_external_port node,
                           pp_new_port = new_port, pp_desired_revision = nd_desired_revision node,
                           pp_registered_cameras = nd_registered_cameras node,
                           pp_blast_radius_sha256 = dd_blast_radius_sha256 details,
                           pp_affected_public_ids = dd_affected_public_ids details,
                           pp_active_reader_public_ids = dd_active_reader_public_ids details,
                           pp_reader_blast_radius_sha256 = dd_reader_blast_radius_sha256 details,
                           pp_reader_observed_at = dd_reader_observed_at details,
                           pp_confirmation_token = token\<rparr>)))))))"

text \<open>The attempts left of the 21 of \<^verbatim>\<open>_wait_for_port_release\<close>; it sleeps between attempts.\<close>

fun wait_for_port_release :: "'x node_control \<Rightarrow> nat \<Rightarrow> int \<Rightarrow> ('x, bool) action" where
  "wait_for_port_release c 0 port = ret False"
| "wait_for_port_release c (Suc k) port =
     and_then (port_bindable c port) (\<lambda>free.
       if free then ret True
       else if k = 0 then ret False
       else and_then (external (\<lambda>x. (Inr (), nc_sleep c x))) (\<lambda>_. wait_for_port_release c k port))"

definition incomplete_change_ids :: "('x, uuid list) action" where
  "incomplete_change_ids = query (\<lambda>x s. Inr (map pc_id (list_incomplete_port_changes s)))"

definition committed_at :: "int \<Rightarrow> int \<Rightarrow> uuid \<Rightarrow> media_node option \<Rightarrow> uuid list \<Rightarrow> bool" where
  "committed_at port revision change_id committed incomplete_ids \<longleftrightarrow>
     (case committed of
        None \<Rightarrow> False
      | Some n \<Rightarrow> nd_external_port n = port \<and> nd_desired_revision n = revision
                  \<and> nd_applied_revision n = revision \<and> change_id \<notin> set incomplete_ids)"

text \<open>
  \<^verbatim>\<open>_rollback_port_change\<close> always raises. The two queries after a failed commit do not raise in the
  in-memory store, so their \<^verbatim>\<open>except\<close> clause has no counterpart here.
\<close>

definition rollback_port_change ::
  "'x node_control \<Rightarrow> media_node \<Rightarrow> node_port_change \<Rightarrow> int option \<Rightarrow> ('x, 'a) action" where
  "rollback_port_change c current change deadline_unix_ms =
     with_runtime c (\<lambda>rt.
       and_then (attempt (execute_runtime_observation c RA_RECONFIGURE_RESTART current deadline_unix_ms))
         (\<lambda>outcome.
          case outcome of
            Inl e \<Rightarrow>
              and_then (suppress (record_failure c (nd_id current) (nd_applied_revision current))) (\<lambda>_.
                fail (NodeRuntimeFailed ''node_port_change_rollback_failed'' (nd_id current)))
          | Inr observation \<Rightarrow>
              and_then (attempt (call (\<lambda>x. abort_port_change (nc_env c x) (pc_id change) observation)))
                (\<lambda>aborted.
                 case aborted of
                   Inr _ \<Rightarrow> fail (NodeRuntimeFailed ''node_port_change_rolled_back'' (nd_id current))
                 | Inl e \<Rightarrow>
                     and_then (get_node_call (nd_id current)) (\<lambda>committed.
                     and_then incomplete_change_ids (\<lambda>incomplete_ids.
                       if committed_at (pc_old_port change) (pc_source_revision change) (pc_id change)
                            committed incomplete_ids
                       then fail (NodeRuntimeFailed ''node_port_change_rolled_back'' (nd_id current))
                       else and_then (suppress (record_failure c (nd_id current)
                              (min (nd_applied_revision current)
                                 (case committed of None \<Rightarrow> nd_desired_revision current
                                  | Some n \<Rightarrow> nd_desired_revision n)))) (\<lambda>_.
                            fail (NodeRuntimeFailed ''node_port_change_rollback_failed''
                                    (nd_id current))))))))"

text \<open>What \<^verbatim>\<open>change_port\<close> does when \<^verbatim>\<open>complete_port_change\<close> raises.\<close>

definition recover_commit ::
  "'x node_control \<Rightarrow> media_node \<Rightarrow> node_port_change \<Rightarrow> int option \<Rightarrow> ('x, media_node) action" where
  "recover_commit c current change deadline_unix_ms =
     and_then (get_node_call (nd_id current)) (\<lambda>committed.
     and_then incomplete_change_ids (\<lambda>incomplete_ids.
       case committed of
         None \<Rightarrow> fail (NodeRuntimeFailed ''node_port_change_commit_unknown'' (nd_id current))
       | Some n \<Rightarrow>
           if committed_at (pc_new_port change) (pc_target_revision change) (pc_id change)
                committed incomplete_ids
           then ret n
           else if nd_external_port n \<noteq> pc_old_port change
                   \<or> nd_desired_revision n \<noteq> pc_source_revision change
           then fail (NodeRuntimeFailed ''node_port_change_commit_unknown'' (nd_id current))
           else rollback_port_change c current change deadline_unix_ms))"

text \<open>The fenced part of \<^verbatim>\<open>change_port\<close> once the change is prepared.\<close>

definition drive_port_change ::
  "'x node_control \<Rightarrow> media_node \<Rightarrow> node_port_change \<Rightarrow> int option \<Rightarrow> ('x, media_node) action" where
  "drive_port_change c current change deadline_unix_ms =
     (let target = current\<lparr>nd_external_port := pc_new_port change,
                           nd_desired_revision := pc_target_revision change\<rparr> in
      with_runtime c (\<lambda>rt.
        and_then (attempt (execute_runtime_observation c RA_RECONFIGURE_RESTART target deadline_unix_ms))
          (\<lambda>outcome.
           case outcome of
             Inl e \<Rightarrow> rollback_port_change c current change deadline_unix_ms
           | Inr observation \<Rightarrow>
               and_then (wait_for_port_release c 21 (pc_old_port change)) (\<lambda>released.
                 if \<not> released then rollback_port_change c current change deadline_unix_ms
                 else and_then (attempt (call (\<lambda>x. complete_port_change (nc_env c x) (pc_id change)
                                                    observation))) (\<lambda>completed.
                        case completed of
                          Inr result \<Rightarrow> ret result
                        | Inl e \<Rightarrow> recover_commit c current change deadline_unix_ms)))))"

definition new_operation_id :: "'x node_control \<Rightarrow> ('x, uuid) action" where
  "new_operation_id c = external (\<lambda>x. apfst Inr (nc_new_operation_id c x))"

definition change_port ::
  "'x node_control \<Rightarrow> uuid \<Rightarrow> int \<Rightarrow> int list \<Rightarrow> string option
   \<Rightarrow> node_disruption_confirmation_context option \<Rightarrow> node_command_fence option
   \<Rightarrow> node_mutation_context option \<Rightarrow> ('x, media_node option) action" where
  "change_port c node_id new_port allowed_ports confirmation_token confirmation_context fence
     mutation_context =
     disruption_slot (guarded node_id
       (and_then (require_node_and_runtime c node_id) (\<lambda>current.
        and_then (raise_some (require_node_command_fence current fence)) (\<lambda>_.
          fenced_node_disruption_details c current (\<lambda>details lease.
            and_then (confirmed (\<lambda>cf token. external (cf_verify_node_port_change cf token
                        (port_change_claim_of current new_port details confirmation_context)))
                        c confirmation_token) (\<lambda>_.
            and_then (port_bindable c new_port) (\<lambda>free.
            and_then (raise_if (\<not> free) (NodePortInUse ''node_port_in_use'')) (\<lambda>_.
            and_then (from_sum (confirmed_mutation_context mutation_context confirmation_context details))
              (\<lambda>_.
            and_then (new_operation_id c) (\<lambda>change_id.
            and_then (call (\<lambda>x. begin_port_change (nc_env c x) change_id node_id new_port allowed_ports
                        (nd_desired_revision current) (nd_registered_cameras current)
                        (dd_blast_radius_sha256 details))) (\<lambda>change.
              drive_port_change c current change (lease_deadline lease))))))))))))"

end
