(* ===== verification/Node_Provisioning.thy ===== *)
theory Node_Provisioning
  imports Node_Control
begin

text \<open>
  \<^verbatim>\<open>NodeControl\<close>: registration and provisioning of nodes, the refresh of move targets, automatic
  capacity, and the recovery of the runtime state after a restart of the control plane.
\<close>

section \<open>Registration\<close>

record node_registration =
  nr_name :: string
  nr_port_range_start :: int
  nr_port_range_end :: int
  nr_max_nodes :: int
  nr_external_port :: "int option"
  nr_reserved_ports :: "int list"
  nr_api_ports :: "int list"
  nr_metrics_ports :: "int list"
  nr_release_id :: string
  nr_mediamtx_binary_sha256 :: string
  nr_creation_mode :: node_creation_mode
  nr_mutation_context :: "node_mutation_context option"

definition configured_ports :: "node_registration \<Rightarrow> int list" where
  "configured_ports r =
     filter (\<lambda>p. p \<notin> set (nr_reserved_ports r)) [nr_port_range_start r..nr_port_range_end r]"

fun bindable_ports :: "'x node_control \<Rightarrow> int list \<Rightarrow> ('x, int list) action" where
  "bindable_ports c [] = ret []"
| "bindable_ports c (p # ps) =
     and_then (port_bindable c p) (\<lambda>free.
     and_then (bindable_ports c ps) (\<lambda>rest. ret (if free then p # rest else rest)))"

definition candidate_ports :: "'x node_control \<Rightarrow> node_registration \<Rightarrow> ('x, int list) action" where
  "candidate_ports c r =
     (case nr_external_port r of
        Some port \<Rightarrow>
          and_then (if port \<in> set (configured_ports r) then port_bindable c port else ret True) (\<lambda>free.
          and_then (raise_if (\<not> free) (NodePortInUse ''node_port_in_use'')) (\<lambda>_.
            ret (configured_ports r)))
      | None \<Rightarrow> bindable_ports c (configured_ports r))"

text \<open>
  The probe and the choice handed to the store are those of the moment of the call: a probe inside
  one store operation is taken as stable. The factory of node ids advances when the store used it.
\<close>

definition registration_request_of ::
  "'x node_control \<Rightarrow> node_registration \<Rightarrow> int list \<Rightarrow> 'x \<Rightarrow> registration_request" where
  "registration_request_of c r candidates x =
     \<lparr>rq_name = nr_name r, rq_allowed_ports = candidates, rq_max_nodes = nr_max_nodes r,
      rq_preferred_port = nr_external_port r, rq_choose_port = nc_choose_port c x,
      rq_new_node_id = fst (nc_new_node_id c x), rq_api_ports = nr_api_ports r,
      rq_metrics_ports = nr_metrics_ports r, rq_release_id = nr_release_id r,
      rq_mediamtx_binary_sha256 = nr_mediamtx_binary_sha256 r,
      rq_creation_mode = nr_creation_mode r,
      rq_is_port_bindable = Some (\<lambda>p. fst (nc_is_port_bindable c p x))\<rparr>"

definition used_node_id :: "'x node_control \<Rightarrow> ('x, unit) action" where
  "used_node_id c = external (\<lambda>x. (Inr (), snd (nc_new_node_id c x)))"

definition register_reserved ::
  "'x node_control \<Rightarrow> node_registration \<Rightarrow> registration_idempotency option \<Rightarrow> int list
   \<Rightarrow> ('x, media_node \<times> bool) action" where
  "register_reserved c r idempotency candidates =
     (case idempotency of
        Some i \<Rightarrow>
          and_then (call (\<lambda>x. register_idempotently (registration_request_of c r candidates x) i))
            (\<lambda>(node, replayed).
              if replayed then ret (node, True)
              else and_then (used_node_id c) (\<lambda>_. ret (node, False)))
      | None \<Rightarrow>
          and_then (call (\<lambda>x. register_automatically (registration_request_of c r candidates x))) (\<lambda>node.
          and_then (used_node_id c) (\<lambda>_. ret (node, False))))"

definition provision_reserved_node :: "'x node_control \<Rightarrow> media_node \<Rightarrow> ('x, media_node) action" where
  "provision_reserved_node c node = start_node c (nd_id node) None"

definition register_node :: "'x node_control \<Rightarrow> node_registration \<Rightarrow> ('x, media_node) action" where
  "register_node c r =
     and_then (query (\<lambda>x s. node_registration_idempotency (env_sha256 (nc_env c x)) (nr_name r)
                 (nr_external_port r) (nr_creation_mode r) (nr_mutation_context r))) (\<lambda>idempotency.
     and_then (case idempotency of
                 None \<Rightarrow> ret None
               | Some i \<Rightarrow> query (\<lambda>x. lookup_registration i)) (\<lambda>replay.
       case replay of
         Some (node, _) \<Rightarrow> ret node
       | None \<Rightarrow>
           and_then (candidate_ports c r) (\<lambda>candidates.
           and_then (register_reserved c r idempotency candidates) (\<lambda>(node, replayed).
             if replayed then ret node
             else if nc_provision_on_create c \<or> nr_creation_mode r = NCM_AUTOMATIC
             then handle is_lifecycle_busy (provision_reserved_node c node)
                    (\<lambda>e. if nr_creation_mode r = NCM_OPERATOR then ret node else fail e)
             else ret node))))"

section \<open>Capacity\<close>

definition move_refreshable :: "uuid \<Rightarrow> int \<Rightarrow> datetime \<Rightarrow> media_node \<Rightarrow> bool" where
  "move_refreshable source_node_id management_freshness_seconds now node \<longleftrightarrow>
     nd_id node \<noteq> source_node_id \<and> nd_state node = NS_RUNNING \<and> \<not> nd_maintenance node
     \<and> nd_registered_cameras node < nd_camera_capacity node
     \<and> \<not> is_node_eligible node management_freshness_seconds now"

definition refresh_candidate :: "'x node_control \<Rightarrow> uuid \<Rightarrow> int \<Rightarrow> media_node \<Rightarrow> ('x, unit) action" where
  "refresh_candidate c source_node_id management_freshness_seconds candidate =
     handle (\<lambda>e. is_lifecycle_busy e \<or> is_node_not_found e \<or> is_runtime_failed e)
       (guarded (nd_id candidate)
         (and_then (get_node_call (nd_id candidate)) (\<lambda>found.
          and_then (the_clock c) (\<lambda>now.
            case found of
              None \<Rightarrow> ret ()
            | Some current \<Rightarrow>
                if move_refreshable source_node_id management_freshness_seconds now current
                then and_then (observe_node_locked c (nd_id current)) (\<lambda>_. ret ())
                else ret ()))))
       (\<lambda>e. ret ())"

definition refresh_move_candidates :: "'x node_control \<Rightarrow> uuid \<Rightarrow> int \<Rightarrow> ('x, unit) action" where
  "refresh_move_candidates c source_node_id management_freshness_seconds =
     and_then (raise_if (\<not> (1 \<le> management_freshness_seconds \<and> management_freshness_seconds \<le> 300))
                 (ValueError ''management_freshness_seconds_invalid'')) (\<lambda>_.
     and_then (raise_if (nc_node_runtime c = None)
                 (NodeRuntimeUnavailable ''node_runtime_unavailable'')) (\<lambda>_.
     and_then (the_clock c) (\<lambda>now.
     and_then list_nodes_call (\<lambda>nodes.
       for_each (filter (move_refreshable source_node_id management_freshness_seconds now) nodes)
         (refresh_candidate c source_node_id management_freshness_seconds)))))"

definition least_loaded :: "media_node list \<Rightarrow> media_node option" where
  "least_loaded nodes = (case nodes of [] \<Rightarrow> None | n # ns \<Rightarrow> Some (min_by load_key n ns))"

definition eligible_nodes :: "'x node_control \<Rightarrow> int \<Rightarrow> ('x, media_node list) action" where
  "eligible_nodes c management_freshness_seconds =
     query (\<lambda>x s. Inr (filter (\<lambda>n. is_node_eligible n management_freshness_seconds
                                     (env_utc_now (nc_env c x))) (list_nodes s)))"

definition refreshable :: "media_node \<Rightarrow> bool" where
  "refreshable node \<longleftrightarrow> nd_state node = NS_RUNNING \<and> \<not> nd_maintenance node
     \<and> nd_registered_cameras node < nd_camera_capacity node"

definition retryable :: "media_node \<Rightarrow> bool" where
  "retryable node \<longleftrightarrow> nd_creation_mode node = NCM_AUTOMATIC \<and> nd_registered_cameras node = 0
     \<and> \<not> nd_maintenance node \<and> nd_runtime_state node \<in> {NS_PROVISIONING, NS_STOPPED, NS_FAILED}"

definition automatic_registration ::
  "node_provisioning_policy \<Rightarrow> node_mutation_context option \<Rightarrow> node_registration" where
  "automatic_registration policy mutation_context =
     \<lparr>nr_name = ''automatic-node'', nr_port_range_start = np_port_range_start policy,
      nr_port_range_end = np_port_range_end policy, nr_max_nodes = np_max_nodes policy,
      nr_external_port = None, nr_reserved_ports = np_reserved_ports policy,
      nr_api_ports = np_api_ports policy, nr_metrics_ports = np_metrics_ports policy,
      nr_release_id = np_release_id policy,
      nr_mediamtx_binary_sha256 = np_mediamtx_binary_sha256 policy,
      nr_creation_mode = NCM_AUTOMATIC, nr_mutation_context = mutation_context\<rparr>"

definition ensure_automatic_capacity ::
  "'x node_control \<Rightarrow> node_provisioning_policy \<Rightarrow> node_mutation_context option
   \<Rightarrow> ('x, media_node) action" where
  "ensure_automatic_capacity c policy mutation_context =
     and_then (raise_if (nc_node_runtime c = None)
                 (NodeRuntimeUnavailable ''node_runtime_unavailable'')) (\<lambda>_.
     and_then (eligible_nodes c (np_management_freshness_seconds policy)) (\<lambda>eligible.
       case least_loaded eligible of
         Some node \<Rightarrow> ret node
       | None \<Rightarrow>
           and_then list_nodes_call (\<lambda>nodes.
           and_then (for_each (filter refreshable nodes) (\<lambda>node.
                       guarded (nd_id node)
                         (and_then (observe_node_locked c (nd_id node)) (\<lambda>_. ret ())))) (\<lambda>_.
           and_then (eligible_nodes c (np_management_freshness_seconds policy)) (\<lambda>eligible.
             case least_loaded eligible of
               Some node \<Rightarrow> ret node
             | None \<Rightarrow>
                 and_then list_nodes_call (\<lambda>nodes.
                   case filter retryable nodes of
                     n # ns \<Rightarrow> start_node c (nd_id (min_by (\<lambda>m. uuid_int (nd_id m)) n ns)) None
                   | [] \<Rightarrow> register_node c (automatic_registration policy mutation_context)))))))"

section \<open>Recovery\<close>

definition recover_port_change :: "'x node_control \<Rightarrow> node_port_change \<Rightarrow> ('x, unit) action" where
  "recover_port_change c change =
     and_then (get_node_call (pc_node_id change)) (\<lambda>found.
       case found of
         None \<Rightarrow> ret ()
       | Some node \<Rightarrow>
           and_then (attempt (guarded (nd_id node) (with_runtime c (\<lambda>rt.
             and_then (external (rt_execute rt RA_RECONFIGURE_RESTART
                         (node\<lparr>nd_external_port := pc_old_port change,
                               nd_desired_revision := pc_source_revision change\<rparr>))) (\<lambda>observation.
               call (\<lambda>x. abort_port_change (nc_env c x) (pc_id change) observation)))))) (\<lambda>outcome.
           case outcome of
             Inr _ \<Rightarrow> ret ()
           | Inl e \<Rightarrow>
               and_then (record_failure c (nd_id node) (nd_applied_revision node)) (\<lambda>_. ret ())))"

definition recover_port_changes :: "'x node_control \<Rightarrow> ('x, unit) action" where
  "recover_port_changes c =
     (if nc_node_runtime c = None then ret ()
      else and_then (query (\<lambda>x s. Inr (list_incomplete_port_changes s))) (\<lambda>changes.
             for_each changes (recover_port_change c)))"

definition recover_node_deletion :: "'x node_control \<Rightarrow> media_node \<Rightarrow> ('x, unit) action" where
  "recover_node_deletion c node =
     and_then (attempt (guarded (nd_id node) (delete_runtime c node))) (\<lambda>outcome.
       case outcome of
         Inr _ \<Rightarrow> ret ()
       | Inl e \<Rightarrow> and_then (record_failure c (nd_id node) (nd_applied_revision node)) (\<lambda>_. ret ()))"

definition recover_node_deletions :: "'x node_control \<Rightarrow> ('x, unit) action" where
  "recover_node_deletions c =
     (if nc_node_runtime c = None then ret ()
      else and_then list_nodes_call (\<lambda>nodes.
             for_each (filter (\<lambda>n. nd_state n = NS_DELETING) nodes) (recover_node_deletion c)))"

definition recoverable_error :: "py_error \<Rightarrow> bool" where
  "recoverable_error e \<longleftrightarrow> is_runtime_failed e \<or> is_node_not_empty e \<or> is_lifecycle_conflict e
     \<or> is_node_not_found e"

definition recover_node :: "'x node_control \<Rightarrow> media_node \<Rightarrow> ('x, media_node) action" where
  "recover_node c node =
     handle recoverable_error
       (guarded (nd_id node)
         (and_then (require_node_and_runtime c (nd_id node)) (\<lambda>current.
          and_then (execute_runtime c current RA_OBSERVE None) (\<lambda>observed.
            if nd_state current = NS_RUNNING \<and> nd_runtime_state observed \<noteq> NS_RUNNING
            then start_node_locked c (nd_id node) None
            else if nd_state current = NS_STOPPED \<and> nd_runtime_state observed = NS_RUNNING
            then stop_node_locked c (nd_id node) None
            else ret observed))))
       (\<lambda>e. and_then (get_node_call (nd_id node)) (\<lambda>failed.
              case failed of
                None \<Rightarrow> fail (NodeNotFound ''node_not_found'')
              | Some n \<Rightarrow> ret n))"

text \<open>
  The recovery of the single nodes runs in a thread pool. Its tasks are taken in the order of the
  list; an error of one does not keep the others from running, and the first error is raised at the
  end. A pool that cancels tasks it has not started yet runs fewer of them.
\<close>

fun first_error :: "(py_error + 'a) list \<Rightarrow> py_error + 'a list" where
  "first_error [] = Inr []"
| "first_error (Inl e # rs) = Inl e"
| "first_error (Inr a # rs) = map_sum id ((#) a) (first_error rs)"

definition recover_runtime_state :: "'x node_control \<Rightarrow> ('x, media_node list) action" where
  "recover_runtime_state c =
     and_then (raise_if (nc_node_runtime c = None)
                 (NodeRuntimeUnavailable ''node_runtime_unavailable'')) (\<lambda>_.
     and_then (recover_port_changes c) (\<lambda>_.
     and_then (recover_node_deletions c) (\<lambda>_.
     and_then list_nodes_call (\<lambda>nodes.
     and_then (map_actions (\<lambda>n. attempt (recover_node c n))
                 (filter (\<lambda>n. nd_state n \<noteq> NS_DELETING) nodes)) (\<lambda>results.
       from_sum (first_error results))))))"

end
