(* ===== verification/Control_Relations.thy ===== *)
theory Control_Relations
  imports Node_Disruption Node_Provisioning Store_Machine
begin

text \<open>
  What every operation of \<^verbatim>\<open>NodeControl\<close> respects. The interface is a relation between the world
  before and after that admits any change of the outside world and any store operation on one node;
  the operations of the control plane are shown to stay in it once, and three relations of that kind
  are given: the free disruption slots, reachability of the store, and the records of the other nodes.
\<close>

section \<open>Brackets\<close>

text \<open>
  Actions that stay within \<^verbatim>\<open>S\<close> before and after a body that stays within \<^verbatim>\<open>R\<close>: \<^verbatim>\<open>R\<close> need not be
  transitive.
\<close>

locale bracket = world_relation S
  for S :: "'x world \<Rightarrow> 'x world \<Rightarrow> bool" +
  fixes R :: "'x world \<Rightarrow> 'x world \<Rightarrow> bool"
  assumes within: "S w w' \<Longrightarrow> R w w'"
    and before: "S w w' \<Longrightarrow> R w' w'' \<Longrightarrow> R w w''"
    and after: "R w w' \<Longrightarrow> S w' w'' \<Longrightarrow> R w w''"
    and outside: "S w (w\<lparr>w_ext := x\<rparr>)"
    and in_slot: "R (w\<lparr>w_slots := w_slots w - 1\<rparr>) w' \<Longrightarrow> 0 < w_slots w \<Longrightarrow> R w (w'\<lparr>w_slots := w_slots w' + 1\<rparr>)"
begin

lemma weaken: "keeps S m \<Longrightarrow> keeps R m"
  by (simp add: keeps_def within)

lemma then_before_result:
  assumes "keeps S m" and "\<And>a w w'. m w = (Inr a, w') \<Longrightarrow> keeps R (f a)"
  shows "keeps R (Control_Monad.and_then m f)"
  unfolding keeps_def
proof
  fix w
  obtain r w' where m: "m w = (r, w')" by fastforce
  then have "S w w'" using assms(1) by (metis keeps_def snd_conv)
  then show "R w (snd (Control_Monad.and_then m f w))"
    using m before within assms(2) by (auto simp: and_then_def keeps_def split: sum.split)
qed

lemma then_before: "keeps S m \<Longrightarrow> (\<And>a. keeps R (f a)) \<Longrightarrow> keeps R (Control_Monad.and_then m f)"
  by (rule then_before_result)

lemma then_after:
  assumes "keeps R m" and "\<And>a. keeps S (f a)"
  shows "keeps R (Control_Monad.and_then m f)"
  unfolding keeps_def
proof
  fix w
  obtain r w' where m: "m w = (r, w')" by fastforce
  then have "R w w'" using assms(1) by (metis keeps_def snd_conv)
  moreover have "S w' (snd (f a w'))" for a using assms(2) by (simp add: keeps_def)
  ultimately show "R w (snd (Control_Monad.and_then m f w))"
    using m after by (auto simp: and_then_def split: sum.split)
qed

lemma attempt_body: "keeps R m \<Longrightarrow> keeps R (attempt m)"
  by (auto simp: keeps_def attempt_def split: prod.split) (metis snd_conv)

lemma slot_body: "keeps R m \<Longrightarrow> keeps R (disruption_slot m)"
  unfolding keeps_def
proof
  fix w
  assume m: "\<forall>w. R w (snd (m w))"
  obtain r w' where run: "m (w\<lparr>w_slots := w_slots w - 1\<rparr>) = (r, w')" by fastforce
  then have "R (w\<lparr>w_slots := w_slots w - 1\<rparr>) w'" using m by (metis snd_conv)
  then show "R w (snd (disruption_slot m w))" using in_slot refl within run by (simp add: disruption_slot_def)
qed

lemma guarded_body: "keeps R m \<Longrightarrow> keeps R (guarded j m)"
  by (auto simp: keeps_def guarded_def refl within split: option.split)

lemma external: "keeps S (external f)"
  by (auto simp: keeps_def external_def outside split: prod.split)

lemma require: "keeps S (require_node_and_runtime c j)"
  by (auto simp: require_node_and_runtime_def get_node_call_def intro!: and_then query ret fail split: option.split)

lemma with_runtime: "(\<And>rt. keeps S (f rt)) \<Longrightarrow> keeps S (with_runtime c f)"
  by (auto simp: with_runtime_def intro: fail split: option.split)

lemma runtime_observation: "keeps S (execute_runtime_observation c a n d)"
  by (auto simp: execute_runtime_observation_def intro!: with_runtime external fail split: option.split)

lemma bindable: "keeps S (port_bindable c p)"
  unfolding port_bindable_def by (rule external)

lemma operation_id: "keeps S (new_operation_id c)"
  unfolding new_operation_id_def by (rule external)

lemma camera_details: "keeps S (node_camera_details c n)"
  by (auto simp: node_camera_details_def Let_def intro!: and_then query raises)

lemma observer: "keeps S (resolve_disruption_observer c)"
  by (auto simp: resolve_disruption_observer_def intro: ret fail split: option.split)

lemma validated: "keeps S (validated_disruption_details c n ids radius ob)"
  by (auto simp: validated_disruption_details_def the_clock_def intro!: and_then query raises ret)

lemma inactive: "keeps S (require_runtime_inactive c n)" "keeps S (inactive_disruption_details c n ids radius)"
  by (auto simp: require_runtime_inactive_def inactive_disruption_details_def the_clock_def split: sum.split
      intro!: with_runtime and_then attempt external query raises ret fail)

lemma details: "keeps S (node_disruption_details_of c n)"
  by (auto simp: node_disruption_details_of_def split: sum.split prod.split
      intro!: and_then camera_details observer attempt external validated inactive fail)

lemma fence_exit: "keeps S (fence_exit ob l e)"
  by (auto simp: fence_exit_def split: sum.split intro!: and_then attempt external fail ret)

lemma confirmed: "(\<And>cf t. keeps S (verify cf t)) \<Longrightarrow> keeps S (confirmed verify c t)"
  by (auto simp: confirmed_def split: option.split intro!: and_then raises fail)

lemma previews: "keeps S (preview_reconfigure c j ctx)" "keeps S (preview_port_change c j p allowed ctx)"
  by (auto simp: preview_reconfigure_def preview_port_change_def get_node_call_def Let_def split: option.split
      intro!: guarded and_then require raises details external query fail ret)

lemma fenced_body:
  assumes body: "\<And>d l. keeps R (body d l)"
  shows "keeps R (fenced_body c ob n ids radius l body)"
proof -
  have "keeps S (case l of None \<Rightarrow> fail (NodeRuntimeUnavailable ''node_disruption_fence_invalid'')
      | Some lease \<Rightarrow> validated_disruption_details c n ids radius (le_observation lease))"
    by (auto intro: fail validated split: option.split)
  note valid = this
  show ?thesis
    unfolding fenced_body_def
    by (rule then_before [OF attempt [OF valid]])
      (auto intro!: then_after attempt_body body weaken [OF and_then [OF fence_exit]]
        and_then [OF fence_exit] ret fail split: sum.split)
qed

lemma fenced:
  assumes "\<And>d l. keeps R (body d l)"
  shows "keeps R (fenced_node_disruption_details c n body)"
proof -
  have "keeps R (Control_Monad.and_then (require_runtime_inactive c n)
      (\<lambda>_. Control_Monad.and_then (inactive_disruption_details c n ids radius)
        (\<lambda>d. Control_Monad.and_then (body d None) (\<lambda>a. Control_Monad.ret (Some a)))))" for ids radius
    using assms by (intro then_before inactive then_after ret)
  moreover have "keeps R (case obs_fence ob of
        None \<Rightarrow> Control_Monad.fail (NodeRuntimeUnavailable ''node_disruption_fence_unavailable'')
      | Some fence \<Rightarrow> Control_Monad.and_then (Control_Monad.attempt (Control_Monad.external (fence n ids)))
          (case_sum (\<lambda>e. Control_Monad.fail (NodeRuntimeUnavailable ''node_disruption_fence_failed''))
             (\<lambda>l. Node_Disruption.fenced_body c ob n ids radius l body)))" for ob ids radius
    using assms
    by (auto intro!: weaken [OF fail] then_before [OF attempt [OF external]] fenced_body split: option.split sum.split)
  ultimately show ?thesis
    unfolding fenced_node_disruption_details_def
    by (intro then_before [OF camera_details]) (auto intro!: then_before [OF observer])
qed

end

section \<open>Relations for the commands of one node\<close>

text \<open>The operations of the store that replace the record of one node and do nothing else.\<close>

definition op_node :: "store_op \<Rightarrow> uuid option" where
  "op_node op = (case op of
      Observe env i ob \<Rightarrow> Some i
    | Start i fence \<Rightarrow> Some i
    | Administrative i st fence \<Rightarrow> Some i
    | DeleteNode i fence \<Rightarrow> Some i
    | Stop i fence \<Rightarrow> Some i
    | Restart i fence \<Rightarrow> Some i
    | Reconfigure env i r n radius release digest \<Rightarrow> Some i
    | Release i release digest fence \<Rightarrow> Some i
    | _ \<Rightarrow> None)"

locale node_relation = world_relation R
  for R :: "'x world \<Rightarrow> 'x world \<Rightarrow> bool" +
  fixes i :: uuid
  assumes untouched: "R w (w\<lparr>w_ext := x\<rparr>)"
    and command: "op_node op = Some i \<Longrightarrow> run_op op (w_store w) = Inr s' \<Longrightarrow> R w (w\<lparr>w_store := s'\<rparr>)"
    and slot: "R (w\<lparr>w_slots := w_slots w - 1\<rparr>) w' \<Longrightarrow> 0 < w_slots w \<Longrightarrow> R w (w'\<lparr>w_slots := w_slots w' + 1\<rparr>)"

sublocale node_relation \<subseteq> bracket R R
  by unfold_locales (assumption, erule (1) trans, rule untouched, erule (1) slot)

context node_relation
begin

lemma call_op:
  assumes "\<And>x. op_node (op x) = Some i" and "\<And>x s. run_op (op x) s = written (f x s)"
  shows "keeps R (call f)"
  unfolding keeps_def
proof
  fix w :: "'x world"
  have "run_op (op (w_ext w)) (w_store w) = written (f (w_ext w) (w_store w))" by (rule assms(2))
  then show "R w (snd (call f w))"
    using command [OF assms(1) [of "w_ext w"], of w] refl
    by (auto simp: call_def written_def split: sum.split)
qed

lemmas call_ops =
  call_op [of "\<lambda>x. Observe (e x) i ob" for e ob] call_op [of "\<lambda>x. Start i fence" for fence]
  call_op [of "\<lambda>x. Administrative i st fence" for st fence] call_op [of "\<lambda>x. DeleteNode i fence" for fence]
  call_op [of "\<lambda>x. Stop i fence" for fence]
  call_op [of "\<lambda>x. Restart i fence" for fence]
  call_op [of "\<lambda>x. Reconfigure (e x) i r n radius release digest" for e r n radius release digest]
  call_op [of "\<lambda>x. Release i release digest fence" for release digest fence]

lemmas node_calls = call_ops [unfolded op_node_def store_op.case run_op.simps, OF HOL.refl HOL.refl]

lemma observation: "j = i \<Longrightarrow> keeps R (apply_observation_call c j ob)"
  by (simp add: apply_observation_call_def node_calls)

lemma failure: "j = i \<Longrightarrow> keeps R (record_failure c j r)"
  unfolding record_failure_def by (rule observation)

lemma runtime: "nd_id n = i \<Longrightarrow> keeps R (execute_runtime c n a d)"
  by (auto simp: execute_runtime_def split: sum.split
      intro!: with_runtime and_then attempt runtime_observation observation failure fail ret)

end

lemma required_id: "require_node_and_runtime c j w = (Inr n, w') \<Longrightarrow> nd_id n = j"
  using find_node_key
  by (auto simp: require_node_and_runtime_def get_node_call_def get_node_def query_def action_defs
      split: option.splits if_splits)

lemma called_id:
  assumes "\<And>x s n s'. f x s = Inr (n, s') \<Longrightarrow> nd_id n = j"
  shows "call f w = (Inr n, w') \<Longrightarrow> nd_id n = j"
  using assms by (auto simp: call_def split: sum.splits)

lemmas command_ids =
  desired_cmd.result_stored [THEN conjunct2] stop_cmd.result_stored [THEN conjunct2]
  restart_cmd.result_stored [THEN conjunct2] delete_cmd.result_stored [THEN conjunct2]
  reconfigure_cmd.result_stored [THEN conjunct2]

context node_relation
begin

lemma start_locked: "keeps R (start_node_locked c i fence)"
  unfolding start_node_locked_def
  by (intro and_then require and_then_result node_calls runtime) (erule called_id [rotated], erule command_ids)

lemma stop_locked: "keeps R (stop_node_locked c i fence)"
  unfolding stop_node_locked_def
  by (intro and_then require and_then_result node_calls runtime) (erule called_id [rotated], erule command_ids)

lemma observe_locked: "keeps R (observe_node_locked c i)"
  unfolding observe_node_locked_def
  by (rule and_then_result [OF require runtime]) (erule required_id)

lemma start: "keeps R (start_node c i fence)"
  unfolding start_node_def by (intro guarded start_locked)

lemma stop: "keeps R (stop_node c i fence)"
  unfolding stop_node_def by (intro guarded stop_locked)

lemma restart: "keeps R (restart_node c i fence)"
  unfolding restart_node_def
  by (intro guarded and_then require and_then_result node_calls runtime) (erule called_id [rotated], erule command_ids)

lemma observe: "keeps R (observe_node c i)"
  unfolding observe_node_def by (intro guarded observe_locked)

lemma administrative: "keeps R (set_administrative_state c i st fence)"
  unfolding set_administrative_state_def by (intro guarded and_then raises node_calls)

lemma release: "keeps R (update_node_release c i rel digest fence)"
  unfolding update_node_release_def by (intro guarded and_then require node_calls)

lemma reconfigure: "keeps R (reconfigure_node c i token ctx fence mc)"
  unfolding reconfigure_node_def
  by (rule slot_body, rule guarded, rule and_then [OF require], rule and_then [OF raises(2)],
      rule fenced, rule and_then [OF confirmed [OF external]], rule and_then [OF raises(3)],
      rule and_then_result [OF node_calls(7)], rule runtime,
      erule called_id [rotated], erule command_ids)

lemma recovered:
  assumes n: "nd_id n = i"
  shows "keeps R (recover_node c n)"
  unfolding recover_node_def get_node_call_def n
  by (auto intro!: handle guarded and_then_result [OF require] and_then [OF runtime] and_then [OF query]
      start_locked stop_locked ret fail required_id split: option.split)

end

locale removing_relation = node_relation R i
  for R :: "'x world \<Rightarrow> 'x world \<Rightarrow> bool" and i +
  assumes removal: "finalize_node_delete i (w_store w) = Inr (u, s') \<Longrightarrow> R w (w\<lparr>w_store := s'\<rparr>)"
begin

lemma delete_runtime: "nd_id n = i \<Longrightarrow> keeps R (delete_runtime c n)"
proof -
  have "keeps R (call (\<lambda>x. finalize_node_delete i))"
    using removal refl by (auto simp: keeps_def call_def split: sum.split)
  then show "nd_id n = i \<Longrightarrow> keeps R (delete_runtime c n)"
    unfolding delete_runtime_def by (intro with_runtime and_then external raises) simp
qed

lemma delete: "keeps R (delete_node c i fence)"
  unfolding delete_node_def
proof (rule guarded, rule and_then [OF require], rule and_then_result [OF node_calls(4)])
  fix n w w'
  assume "call (\<lambda>x. request_node_delete i fence) w = (Inr n, w')"
  then have "nd_id n = i" by (rule called_id [rotated]) (erule command_ids)
  then show "keeps R (and_then (attempt (delete_runtime c n)) (\<lambda>outcome. case outcome of
      Inl e \<Rightarrow> and_then (suppress (record_failure c (nd_id n) (nd_applied_revision n)))
        (\<lambda>_. fail (NodeRuntimeFailed ''node_delete_failed'' i))
    | Inr _ \<Rightarrow> ret ()))"
    by (auto intro!: and_then attempt delete_runtime suppress failure fail ret split: sum.split)
qed

lemma deletion_recovered: "nd_id n = i \<Longrightarrow> keeps R (recover_node_deletion c n)"
  unfolding recover_node_deletion_def
  by (auto intro!: and_then attempt guarded delete_runtime failure ret split: sum.split)

end

section \<open>Relations for the operations over all nodes\<close>

locale fleet_relation = world_relation R
  for R :: "'x world \<Rightarrow> 'x world \<Rightarrow> bool" +
  assumes fleet_untouched: "R w (w\<lparr>w_ext := x\<rparr>)"
    and fleet_command: "op_node op = Some i \<Longrightarrow> run_op op (w_store w) = Inr s' \<Longrightarrow> R w (w\<lparr>w_store := s'\<rparr>)"
    and fleet_slot: "R (w\<lparr>w_slots := w_slots w - 1\<rparr>) w' \<Longrightarrow> 0 < w_slots w \<Longrightarrow>
      R w (w'\<lparr>w_slots := w_slots w' + 1\<rparr>)"
    and port_complete: "complete_port_change env j ob (w_store w) = Inr (n, s') \<Longrightarrow> R w (w\<lparr>w_store := s'\<rparr>)"
    and port_abort: "abort_port_change env j ob (w_store w) = Inr (n, s') \<Longrightarrow> R w (w\<lparr>w_store := s'\<rparr>)"

sublocale fleet_relation \<subseteq> node: node_relation R i for i
  by unfold_locales (fact fleet_untouched, rule fleet_command, assumption+, rule fleet_slot, assumption+)

context fleet_relation
begin

lemma candidate: "keeps R (refresh_candidate c src f n)"
  unfolding refresh_candidate_def get_node_call_def the_clock_def
  by (auto intro!: handle guarded and_then [OF query] and_then [OF node.observe_locked] ret
      split: option.split)

lemma candidates: "keeps R (refresh_move_candidates c src f)"
  unfolding refresh_move_candidates_def the_clock_def list_nodes_call_def
  by (intro and_then raises query for_each candidate)

lemma aborted: "keeps R (call (\<lambda>x. abort_port_change (e x) j ob))"
  using port_abort refl by (auto simp: keeps_def call_def split: sum.split)

lemma completed: "keeps R (call (\<lambda>x. complete_port_change (e x) j ob))"
  using port_complete refl by (auto simp: keeps_def call_def split: sum.split)

lemma port_change_recovered: "keeps R (recover_port_change c ch)"
  unfolding recover_port_change_def get_node_call_def
  by (auto intro!: and_then [OF query] and_then attempt guarded node.with_runtime node.external aborted
      node.failure ret split: option.split sum.split)

lemma port_changes_recovered: "keeps R (recover_port_changes c)"
  unfolding recover_port_changes_def
  by (auto intro!: ret and_then [OF query] for_each port_change_recovered)

lemma port_release: "keeps R (wait_for_port_release c k p)"
  by (induction k) (auto simp: port_bindable_def intro!: ret and_then [OF node.external])

lemma rolled_back: "keeps R (rollback_port_change c n ch d)"
  unfolding rollback_port_change_def get_node_call_def incomplete_change_ids_def
  by (auto intro!: node.with_runtime and_then [OF query] and_then [OF attempt [OF node.runtime_observation]]
      and_then [OF attempt [OF aborted]] and_then [OF suppress [OF node.failure [OF HOL.refl]]] fail
      split: sum.split)

lemma commit_recovered: "keeps R (recover_commit c n ch d)"
  unfolding recover_commit_def get_node_call_def incomplete_change_ids_def
  by (auto intro!: and_then [OF query] rolled_back fail ret split: option.split)

lemma driven: "keeps R (drive_port_change c n ch d)"
  unfolding drive_port_change_def Let_def
  by (auto intro!: node.with_runtime and_then [OF attempt [OF node.runtime_observation]] and_then [OF port_release]
      and_then [OF attempt [OF completed]] rolled_back commit_recovered ret split: sum.split)

end

locale removing_fleet = fleet_relation R
  for R :: "'x world \<Rightarrow> 'x world \<Rightarrow> bool" +
  assumes fleet_removal: "finalize_node_delete i (w_store w) = Inr (u, s') \<Longrightarrow> R w (w\<lparr>w_store := s'\<rparr>)"

sublocale removing_fleet \<subseteq> member: removing_relation R i for i
  by unfold_locales (rule fleet_removal)

context removing_fleet
begin

lemma deletions_recovered: "keeps R (recover_node_deletions c)"
  unfolding recover_node_deletions_def list_nodes_call_def
  by (auto intro!: ret and_then [OF query] for_each member.deletion_recovered)

lemma runtime_recovered: "keeps R (recover_runtime_state c)"
  unfolding recover_runtime_state_def list_nodes_call_def
  by (intro and_then raises port_changes_recovered deletions_recovered query map_actions attempt)
    (rule node.recovered [OF HOL.refl])

end

section \<open>The three relations\<close>

definition same_slots :: "'x world \<Rightarrow> 'x world \<Rightarrow> bool" where
  "same_slots w w' \<longleftrightarrow> w_slots w' = w_slots w"

definition reach_kept :: "'x world \<Rightarrow> 'x world \<Rightarrow> bool" where
  "reach_kept w w' \<longleftrightarrow> (reachable (w_store w) \<longrightarrow> reachable (w_store w'))"

definition others_kept :: "uuid \<Rightarrow> 'x world \<Rightarrow> 'x world \<Rightarrow> bool" where
  "others_kept i w w' \<longleftrightarrow>
     (\<forall>j. j \<noteq> i \<longrightarrow> find_node j (w_store w') = find_node j (w_store w))
     \<and> st_cameras (w_store w') = st_cameras (w_store w)
     \<and> st_camera_moves (w_store w') = st_camera_moves (w_store w)
     \<and> st_port_changes (w_store w') = st_port_changes (w_store w)"

interpretation slots: removing_fleet same_slots
  by unfold_locales (auto simp: same_slots_def)

lemma reachable_run:
  assumes "reachable s" and "op_fresh op s" and "run_op op s = Inr s'"
  shows "reachable s'"
  using assms reachable.step store_step.accepted by blast

lemma op_node_fresh: "op_node op = Some i \<Longrightarrow> op_fresh op s"
  by (cases op) (auto simp: op_node_def op_fresh_def)

lemma finalize_reachable: "reachable s \<Longrightarrow> finalize_node_delete i s = Inr (u, s') \<Longrightarrow> reachable s'"
  by (rule reachable_run [of _ "FinalizeDelete i"]) (auto simp: op_fresh_def written_def)

lemma complete_port_reachable: "reachable s \<Longrightarrow> complete_port_change env j ob s = Inr (n, s') \<Longrightarrow> reachable s'"
  by (rule reachable_run [of _ "CompletePort env j ob"]) (auto simp: op_fresh_def written_def)

lemma abort_port_reachable: "reachable s \<Longrightarrow> abort_port_change env j ob s = Inr (n, s') \<Longrightarrow> reachable s'"
  by (rule reachable_run [of _ "AbortPort env j ob"]) (auto simp: op_fresh_def written_def)

interpretation reach: removing_fleet reach_kept
  by unfold_locales
    (auto simp: reach_kept_def intro: reachable_run op_node_fresh finalize_reachable
      complete_port_reachable abort_port_reachable)

lemma finalize_others:
  assumes "finalize_node_delete i s = Inr (u, s')"
  shows "j \<noteq> i \<longrightarrow> find_node j s' = find_node j s" "st_cameras s' = st_cameras s"
    "st_camera_moves s' = st_camera_moves s" "st_port_changes s' = st_port_changes s"
proof -
  have "find_by nd_id j (remove1 n xs) = find_by nd_id j xs" if "nd_id n \<noteq> j" for n and xs :: "media_node list"
    using that by (induction xs) auto
  then show "j \<noteq> i \<longrightarrow> find_node j s' = find_node j s" "st_cameras s' = st_cameras s"
    "st_camera_moves s' = st_camera_moves s" "st_port_changes s' = st_port_changes s"
    using assms find_node_key by (auto simp: finalize_node_delete_def split: option.splits if_splits)
qed

lemma node_effect_others:
  assumes eff: "node_effect i s n s' old"
  shows "j \<noteq> i \<longrightarrow> find_node j s' = find_node j s" "st_cameras s' = st_cameras s"
    "st_camera_moves s' = st_camera_moves s" "st_port_changes s' = st_port_changes s"
proof -
  have f: "find_node i s = Some old" and same: "nd_id n = nd_id old" and s': "s' = put_node old n s"
    using eff by (auto simp: node_effect_def same_identity_def)
  have i: "nd_id old = i" using find_node_key [OF f] .
  have "find_node j s' = (if j = i then Some n else find_node j s)"
    using put_node_find [of old s n j] f same by (simp add: s' i)
  then show "j \<noteq> i \<longrightarrow> find_node j s' = find_node j s" by simp
  show "st_cameras s' = st_cameras s" "st_camera_moves s' = st_camera_moves s"
    "st_port_changes s' = st_port_changes s"
    by (simp_all add: s' put_node_def)
qed

lemma op_node_effect:
  assumes "op_node op = Some i" and "run_op op s = Inr s'"
  shows "\<exists>n old. node_effect i s n s' old"
  using assms
  by (cases op)
    (auto simp: op_node_def elim!: writtenE
      dest!: observation_cmd.effect desired_cmd.effect administrative_cmd.effect delete_cmd.effect
        stop_cmd.effect restart_cmd.effect reconfigure_cmd.effect release_cmd.effect)

interpretation others: removing_relation "others_kept i" i for i
proof
  show "others_kept i w (w\<lparr>w_store := s'\<rparr>)" if op: "op_node op = Some i" "run_op op (w_store w) = Inr s'"
    for w :: "'x world" and op s'
  proof -
    from op_node_effect [OF op] obtain n old where "node_effect i (w_store w) n s' old" by blast
    from node_effect_others [OF this] show ?thesis by (auto simp: others_kept_def)
  qed
  show "others_kept i w (w\<lparr>w_store := s'\<rparr>)" if "finalize_node_delete i (w_store w) = Inr (u, s')"
    for w :: "'x world" and u s'
    using finalize_others [OF that] by (auto simp: others_kept_def)
qed (auto simp: others_kept_def)

section \<open>Relations of the store alone\<close>

text \<open>
  A reflexive relation between stores, respected by an operation whose only writes are made by a body
  that respects it.
\<close>

definition same_store :: "'x world \<Rightarrow> 'x world \<Rightarrow> bool" where
  "same_store w w' \<longleftrightarrow> w_store w' = w_store w"

locale store_law =
  fixes Q :: "node_store \<Rightarrow> node_store \<Rightarrow> bool"
  assumes reflexive: "Q s s"

sublocale store_law \<subseteq> bracket same_store "\<lambda>w w'. Q (w_store w) (w_store w')"
  by unfold_locales (auto simp: same_store_def reflexive)

end
