(* ===== verification/Camera_Secrets.thy ===== *)
theory Camera_Secrets
  imports Url Node_Types
begin

text \<open>
  The credentials of a camera source (\<^verbatim>\<open>camera_secrets.py\<close>): they travel inside the source URL, quoted
  into its userinfo, and are split off again before an address is shown or probed. A username or a
  password is any text, a list of code points; the URL is text below 256 as everywhere.
\<close>

section \<open>UTF-8\<close>

type_synonym codepoints = "nat list"

definition is_encodable :: "nat \<Rightarrow> bool" where
  "is_encodable n \<longleftrightarrow> n < 0x110000 \<and> \<not> (0xD800 \<le> n \<and> n \<le> 0xDFFF)"

definition utf8_point :: "nat \<Rightarrow> nat list" where
  "utf8_point n =
     (if n < 0x80 then [n]
      else if n < 0x800 then [0xC0 + n div 64, 0x80 + n mod 64]
      else if n < 0x10000 then [0xE0 + n div 4096, 0x80 + n div 64 mod 64, 0x80 + n mod 64]
      else [0xF0 + n div 262144, 0x80 + n div 4096 mod 64, 0x80 + n div 64 mod 64, 0x80 + n mod 64])"

text \<open>
  \<^verbatim>\<open>value.encode("utf-8")\<close>; no value stands for the \<^verbatim>\<open>UnicodeEncodeError\<close> of a lone surrogate (a \<^verbatim>\<open>str\<close>
  holds no code point above 0x10FFFF).
\<close>

definition text_encode :: "codepoints \<Rightarrow> nat list option" where
  "text_encode s = (if list_all is_encodable s then Some (concat (map utf8_point s)) else None)"

definition is_continuation :: "nat \<Rightarrow> bool" where
  "is_continuation b \<longleftrightarrow> 0x80 \<le> b \<and> b \<le> 0xBF"

text \<open>The bytes that may follow a lead byte: no overlong form, no surrogate, nothing above 0x10FFFF.\<close>

definition second_ok :: "nat \<Rightarrow> nat \<Rightarrow> bool" where
  "second_ok lead b \<longleftrightarrow> is_continuation b
     \<and> (lead = 0xE0 \<longrightarrow> 0xA0 \<le> b) \<and> (lead = 0xED \<longrightarrow> b \<le> 0x9F)
     \<and> (lead = 0xF0 \<longrightarrow> 0x90 \<le> b) \<and> (lead = 0xF4 \<longrightarrow> b \<le> 0x8F)"

text \<open>
  \<^verbatim>\<open>bytes.decode("utf-8", "replace")\<close>: a byte that starts no character, or the longest beginning of a
  character that is not continued, becomes one U+FFFD.
\<close>

fun text_decode :: "nat list \<Rightarrow> codepoints" where
  "text_decode [] = []"
| "text_decode (b # bs) =
     (if b < 0x80 then b # text_decode bs
      else if 0xC2 \<le> b \<and> b \<le> 0xDF then
        (case bs of
           c # cs \<Rightarrow>
             if is_continuation c then ((b - 0xC0) * 64 + (c - 0x80)) # text_decode cs
             else 0xFFFD # text_decode bs
         | [] \<Rightarrow> [0xFFFD])
      else if 0xE0 \<le> b \<and> b \<le> 0xEF then
        (case bs of
           c # cs \<Rightarrow>
             if \<not> second_ok b c then 0xFFFD # text_decode bs
             else (case cs of
                d # ds \<Rightarrow>
                  if is_continuation d
                  then ((b - 0xE0) * 4096 + (c - 0x80) * 64 + (d - 0x80)) # text_decode ds
                  else 0xFFFD # text_decode cs
              | [] \<Rightarrow> [0xFFFD])
         | [] \<Rightarrow> [0xFFFD])
      else if 0xF0 \<le> b \<and> b \<le> 0xF4 then
        (case bs of
           c # cs \<Rightarrow>
             if \<not> second_ok b c then 0xFFFD # text_decode bs
             else (case cs of
                d # ds \<Rightarrow>
                  if \<not> is_continuation d then 0xFFFD # text_decode cs
                  else (case ds of
                     e # es \<Rightarrow>
                       if is_continuation e
                       then ((b - 0xF0) * 262144 + (c - 0x80) * 4096 + (d - 0x80) * 64 + (e - 0x80))
                            # text_decode es
                       else 0xFFFD # text_decode ds
                   | [] \<Rightarrow> [0xFFFD])
              | [] \<Rightarrow> [0xFFFD])
         | [] \<Rightarrow> [0xFFFD])
      else 0xFFFD # text_decode bs)"

section \<open>Percent encoding\<close>

definition is_unreserved :: "nat \<Rightarrow> bool" where
  "is_unreserved b \<longleftrightarrow> (65 \<le> b \<and> b \<le> 90) \<or> (97 \<le> b \<and> b \<le> 122) \<or> (48 \<le> b \<and> b \<le> 57)
     \<or> b \<in> {45, 46, 95, 126}"

definition upper_hex_digit :: "nat \<Rightarrow> char" where
  "upper_hex_digit d = char_of (if d < 10 then 48 + d else 55 + d)"

definition quote_byte :: "nat \<Rightarrow> string" where
  "quote_byte b =
     (if is_unreserved b then [char_of b]
      else [CHR ''%'', upper_hex_digit (b div 16), upper_hex_digit (b mod 16)])"

text \<open>\<^verbatim>\<open>urllib.parse.quote(value, safe="")\<close>; as \<^verbatim>\<open>encode\<close>, it raises on a lone surrogate.\<close>

definition quote_text :: "codepoints \<Rightarrow> string option" where
  "quote_text s = map_option (\<lambda>bs. concat (map quote_byte bs)) (text_encode s)"

fun unquote_to_bytes :: "string \<Rightarrow> nat list" where
  "unquote_to_bytes (p # a # b # rest) =
     (if p = CHR ''%'' then
        (case (hex_digit_value a, hex_digit_value b) of
           (Some h, Some l) \<Rightarrow> (16 * h + l) # unquote_to_bytes rest
         | _ \<Rightarrow> code p # unquote_to_bytes (a # b # rest))
      else code p # unquote_to_bytes (a # b # rest))"
| "unquote_to_bytes [a, b] = [code a, code b]"
| "unquote_to_bytes [a] = [code a]"
| "unquote_to_bytes [] = []"

text \<open>
  \<^verbatim>\<open>urllib.parse.unquote(value)\<close>: the runs of ASCII characters are decoded one by one, the characters
  between them stay. The first argument is the run read so far.
\<close>

fun unquote_from :: "string \<Rightarrow> string \<Rightarrow> codepoints" where
  "unquote_from run [] = text_decode (unquote_to_bytes run)"
| "unquote_from run (c # s) =
     (if code c < 128 then unquote_from (run @ [c]) s
      else text_decode (unquote_to_bytes run) @ code c # unquote_from [] s)"

definition unquote_text :: "string \<Rightarrow> codepoints" where
  "unquote_text s = (if CHR ''%'' \<notin> set s then map code s else unquote_from [] s)"

section \<open>Credentials\<close>

text \<open>\<^verbatim>\<open>probe_credential_component_valid\<close> of \<^verbatim>\<open>probe_executor.py\<close>.\<close>

definition probe_credential_component_valid :: "codepoints \<Rightarrow> nat \<Rightarrow> bool" where
  "probe_credential_component_valid value maximum_bytes =
     (case text_encode value of
        None \<Rightarrow> False
      | Some encoded \<Rightarrow>
          encoded \<noteq> [] \<and> length encoded \<le> maximum_bytes
          \<and> \<not> list_ex (\<lambda>c. c \<in> set value) [13, 10, 0])"

record camera_source_credentials =
  cs_username :: codepoints
  cs_password :: codepoints

definition camera_source_credentials_post_init :: "camera_source_credentials \<Rightarrow> py_error option" where
  "camera_source_credentials_post_init cr =
     (if \<not> probe_credential_component_valid (cs_username cr) 64
         \<or> \<not> probe_credential_component_valid (cs_password cr) 256
      then Some (ValueError ''camera_source_credentials_invalid'') else None)"

text \<open>
  \<^verbatim>\<open>urlunsplit\<close> of a result with a non-empty authority, which is the only use here.
\<close>

definition urlunsplit :: "split_result \<Rightarrow> string" where
  "urlunsplit r =
     (if sr_scheme r = [] then [] else sr_scheme r @ '':'')
     @ ''//'' @ sr_netloc r
     @ (if sr_path r \<noteq> [] \<and> take 1 (sr_path r) \<noteq> ''/'' then ''/'' @ sr_path r else sr_path r)
     @ (if sr_query r = [] then [] else ''?'' @ sr_query r)
     @ (if sr_fragment r = [] then [] else ''#'' @ sr_fragment r)"

definition authority_of :: "string \<Rightarrow> nat option \<Rightarrow> string" where
  "authority_of host port =
     (let authority_host = (if CHR '':'' \<in> set host then ''['' @ host @ '']'' else host) in
      case port of None \<Rightarrow> authority_host | Some p \<Rightarrow> authority_host @ '':'' @ str_nat p)"

definition attach_source_credentials ::
  "string \<Rightarrow> camera_source_credentials \<Rightarrow> py_error + string" where
  "attach_source_credentials source_url credentials =
     (case urlsplit source_url of
        None \<Rightarrow> Inl (ValueError ''camera_source_url_invalid'')
      | Some parsed \<Rightarrow>
         (case url_port parsed of
            None \<Rightarrow> Inl (ValueError ''camera_source_url_invalid'')
          | Some port \<Rightarrow>
             (case url_hostname parsed of
                None \<Rightarrow> Inl (ValueError ''camera_source_url_invalid'')
              | Some host \<Rightarrow>
                  if url_username parsed \<noteq> None \<or> url_password parsed \<noteq> None
                  then Inl (ValueError ''camera_source_url_invalid'')
                  else
                   (case (quote_text (cs_username credentials), quote_text (cs_password credentials)) of
                      (Some u, Some p) \<Rightarrow>
                        Inr (urlunsplit (parsed\<lparr>sr_netloc := u @ '':'' @ p @ ''@'' @ authority_of host port,
                                                sr_fragment := []\<rparr>))
                    | _ \<Rightarrow> Inl (ValueError ''surrogates not allowed'')))))"

definition split_source_credentials ::
  "string \<Rightarrow> py_error + string \<times> camera_source_credentials option" where
  "split_source_credentials source_url =
     (case urlsplit source_url of
        None \<Rightarrow> Inl (ValueError ''camera_source_url_invalid'')
      | Some parsed \<Rightarrow>
         (case url_port parsed of
            None \<Rightarrow> Inl (ValueError ''camera_source_url_invalid'')
          | Some port \<Rightarrow>
             (case url_hostname parsed of
                None \<Rightarrow> Inl (ValueError ''camera_source_credentials_invalid'')
              | Some host \<Rightarrow>
                  if (url_username parsed = None) \<noteq> (url_password parsed = None)
                  then Inl (ValueError ''camera_source_credentials_invalid'')
                  else
                   (let clean = urlunsplit (parsed\<lparr>sr_netloc := authority_of host port\<rparr>) in
                    case url_username parsed of
                      None \<Rightarrow> Inr (clean, None)
                    | Some username \<Rightarrow>
                        (let credentials = \<lparr>cs_username = unquote_text username,
                               cs_password = unquote_text (case url_password parsed of None \<Rightarrow> [] | Some p \<Rightarrow> p)\<rparr>
                         in case camera_source_credentials_post_init credentials of
                              Some e \<Rightarrow> Inl e
                            | None \<Rightarrow> Inr (clean, Some credentials))))))"

end
