(* ===== verification/Camera_Control.thy ===== *)
theory Camera_Control
  imports Control_Monad Camera_Store Camera_Secrets
begin

text \<open>
  \<^verbatim>\<open>CameraControl\<close> of \<^verbatim>\<open>nodes.py\<close>: registration of cameras, with automatic capacity when no node is
  eligible, the catalog, and the changes of one camera. The admission of probe endpoints, the id
  factories and the provider of automatic capacity are collaborators.
\<close>

section \<open>The source of a camera\<close>

definition camera_source_summary :: "string \<Rightarrow> py_error + string \<times> bool" where
  "camera_source_summary source_url =
     (case split_source_credentials source_url of
        Inl e \<Rightarrow> Inl e
      | Inr (clean_source_url, credentials) \<Rightarrow>
         (case urlsplit clean_source_url of
            None \<Rightarrow> Inl (ValueError ''camera_source_url_invalid'')
          | Some parsed \<Rightarrow>
             (case url_hostname parsed of
                None \<Rightarrow> Inl (InvalidCameraSource ''camera_source_url_invalid'')
              | Some host \<Rightarrow>
                 (case url_port parsed of
                    None \<Rightarrow> Inl (ValueError ''camera_source_url_invalid'')
                  | Some port \<Rightarrow>
                      Inr (''rtsp://'' @ authority_of host port @ sr_path parsed, credentials \<noteq> None)))))"

definition camera_detail :: "uuid \<Rightarrow> node_store \<Rightarrow> py_error + camera_catalog_item option" where
  "camera_detail camera_id s =
     (case live_camera camera_id s of
        None \<Rightarrow> Inr None
      | Some camera \<Rightarrow>
         (case find_node (cp_node_id camera) s of
            None \<Rightarrow> Inl (CameraCatalogUnavailable ''camera_catalog_unavailable'')
          | Some node \<Rightarrow>
             (case camera_source_summary (cp_source_url camera) of
                Inl e \<Rightarrow> Inl e
              | Inr source \<Rightarrow> map_sum id Some (camera_catalog_item_of (Some source) (nd_name node) camera))))"

section \<open>Collaborators\<close>

record 'x endpoint_admission =
  ea_policy_sha256 :: string
  ea_admit :: "string \<Rightarrow> 'x \<Rightarrow> (py_error + admitted_probe_endpoint) \<times> 'x"
  ea_source_network :: "string \<Rightarrow> int \<Rightarrow> 'x \<Rightarrow> (py_error + ip_network) \<times> 'x"

record 'x camera_control =
  cc_new_camera_id :: "'x \<Rightarrow> uuid \<times> 'x"
  cc_new_public_id :: "'x \<Rightarrow> string \<times> 'x"
  cc_management_freshness_seconds :: int
  cc_ensure_automatic_capacity :: "(node_mutation_context option \<Rightarrow> ('x, media_node) action) option"
  cc_probe_endpoint_admission :: "'x endpoint_admission option"
  cc_env :: "'x \<Rightarrow> store_env"

text \<open>\<^verbatim>\<open>cc_env\<close> stands for the clocks and the hash the store reads, as in \<^verbatim>\<open>node_control\<close>.\<close>

section \<open>Admission of the source\<close>

fun rejection_reason :: "py_error \<Rightarrow> string option" where
  "rejection_reason (ProbeEndpointRejected reason) = Some reason"
| "rejection_reason e = None"

definition allow_source_network ::
  "'x camera_control \<Rightarrow> string \<Rightarrow> int \<Rightarrow> ('x, ip_network) action" where
  "allow_source_network c source_url prefix_length =
     (case cc_probe_endpoint_admission c of
        None \<Rightarrow> fail (InvalidCameraSource ''probe_source_policy_not_configured'')
      | Some admission \<Rightarrow>
          handle (\<lambda>e. rejection_reason e \<noteq> None)
            (and_then (from_sum (validate_camera_source_url source_url False)) (\<lambda>url.
             and_then (external (ea_source_network admission url prefix_length)) (\<lambda>network.
             and_then (call (\<lambda>x s. Inr (add_probe_source_network network s))) (\<lambda>_.
               ret network))))
            (\<lambda>e. fail (InvalidCameraSource (the (rejection_reason e)))))"

definition admission_reason :: "string \<Rightarrow> string" where
  "admission_reason reason =
     (if reason \<notin> {''probe_source_policy_not_configured'', ''probe_destination_not_allowed''}
      then ''camera_source_endpoint_rejected'' else reason)"

definition admit_probe_endpoint ::
  "'x camera_control \<Rightarrow> string \<Rightarrow> ('x, admitted_probe_endpoint option) action" where
  "admit_probe_endpoint c source_url =
     (case cc_probe_endpoint_admission c of
        None \<Rightarrow> ret None
      | Some admission \<Rightarrow>
          handle (\<lambda>e. rejection_reason e \<noteq> None)
            (and_then (external (ea_admit admission source_url)) (\<lambda>endpoint. ret (Some endpoint)))
            (\<lambda>e. fail (InvalidCameraSource (admission_reason (the (rejection_reason e))))))"

section \<open>Registration\<close>

definition new_camera_id :: "'x camera_control \<Rightarrow> ('x, uuid) action" where
  "new_camera_id c = external (\<lambda>x. apfst Inr (cc_new_camera_id c x))"

definition new_public_id :: "'x camera_control \<Rightarrow> ('x, public_id) action" where
  "new_public_id c =
     and_then (external (\<lambda>x. apfst Inr (cc_new_public_id c x))) (\<lambda>value.
       case public_id_parse value of
         None \<Rightarrow> fail (InvalidPublicId ''invalid_public_id'')
       | Some public_id \<Rightarrow> ret public_id)"

definition attach_if :: "string \<Rightarrow> camera_source_credentials option \<Rightarrow> py_error + string" where
  "attach_if source_url credentials =
     (case credentials of None \<Rightarrow> Inr source_url | Some cr \<Rightarrow> attach_source_credentials source_url cr)"

definition place_idempotently_call ::
  "'x camera_control \<Rightarrow> camera_request \<Rightarrow> uuid option \<Rightarrow> registration_idempotency \<Rightarrow> ('x, camera_placement) action" where
  "place_idempotently_call c rq node_id idempotency =
     and_then (call (\<lambda>x. place_camera_idempotently (cc_env c x) rq node_id idempotency)) (\<lambda>(camera, replayed).
       ret camera)"

definition place_automatically_call ::
  "'x camera_control \<Rightarrow> camera_request \<Rightarrow> ('x, camera_placement) action" where
  "place_automatically_call c rq = call (\<lambda>x. place_camera_automatically (cc_env c x) rq)"

text \<open>
  \<^verbatim>\<open>try: first except EligibleNodeMissing:\<close> ask for capacity, if there is a provider, and place again.
\<close>

definition with_capacity ::
  "'x camera_control \<Rightarrow> node_mutation_context option \<Rightarrow> ('x, 'a) action \<Rightarrow> ('x, 'a) action \<Rightarrow> ('x, 'a) action" where
  "with_capacity c mutation_context first again =
     handle is_eligible_node_missing first
       (\<lambda>e. case cc_ensure_automatic_capacity c of
              None \<Rightarrow> fail e
            | Some ensure \<Rightarrow> and_then (ensure mutation_context) (\<lambda>_. again))"

definition place_camera ::
  "'x camera_control \<Rightarrow> camera_request \<Rightarrow> uuid option \<Rightarrow> registration_idempotency option
   \<Rightarrow> node_mutation_context option \<Rightarrow> ('x, camera_placement) action" where
  "place_camera c rq node_id idempotency mutation_context =
     (case idempotency of
        Some i \<Rightarrow>
          (if node_id \<noteq> None then place_idempotently_call c rq node_id i
           else with_capacity c mutation_context (place_idempotently_call c rq None i)
                  (place_idempotently_call c rq None i))
      | None \<Rightarrow>
         (case node_id of
            Some n \<Rightarrow> call (\<lambda>x. place_camera_manually (cc_env c x) rq n)
          | None \<Rightarrow>
              with_capacity c mutation_context (place_automatically_call c rq)
                (place_automatically_call c rq)))"

definition create_camera ::
  "'x camera_control \<Rightarrow> string \<Rightarrow> string \<Rightarrow> camera_source_credentials option \<Rightarrow> uuid option
   \<Rightarrow> node_mutation_context option \<Rightarrow> ('x, camera_placement) action" where
  "create_camera c name source_url source_credentials node_id mutation_context =
     and_then (from_sum (validate_camera_name name)) (\<lambda>validated_name.
     and_then (from_sum (validate_camera_source_url source_url False)) (\<lambda>validated_url.
     and_then (from_sum (attach_if validated_url source_credentials)) (\<lambda>validated_source_url.
     and_then (query (\<lambda>x s. camera_registration_idempotency (env_sha256 (cc_env c x)) validated_name
                 validated_source_url node_id mutation_context)) (\<lambda>idempotency.
     and_then (case idempotency of
                 None \<Rightarrow> ret None
               | Some i \<Rightarrow> call (\<lambda>x. reserve_camera_registration i)) (\<lambda>existing.
       case existing of
         Some camera \<Rightarrow> ret camera
       | None \<Rightarrow>
           and_then (new_camera_id c) (\<lambda>camera_id.
           and_then (new_public_id c) (\<lambda>public_id.
           and_then (admit_probe_endpoint c validated_source_url) (\<lambda>probe_endpoint.
             place_camera c
               \<lparr>cr_camera_id = camera_id, cr_name = validated_name, cr_source_url = validated_source_url,
                cr_public_id = public_id,
                cr_management_freshness_seconds = cc_management_freshness_seconds c,
                cr_probe_endpoint = probe_endpoint\<rparr> node_id idempotency mutation_context))))))))"

section \<open>Queries\<close>

definition creation_targets :: "'x camera_control \<Rightarrow> ('x, media_node list) action" where
  "creation_targets c =
     query (\<lambda>x s. Inr (list_camera_creation_targets (cc_env c x) (cc_management_freshness_seconds c) s))"

definition live_targets :: "uuid list \<Rightarrow> ('x, uuid \<rightharpoonup> public_id \<times> uuid) action" where
  "live_targets camera_ids =
     and_then (raise_some (validate_camera_live_batch camera_ids)) (\<lambda>_.
       query (\<lambda>x s. Inr (map_of (rev (map (\<lambda>cam. (cp_id cam, (cp_public_id cam, cp_node_id cam)))
                                        (get_cameras camera_ids s))))))"

text \<open>\<^verbatim>\<open>except Exception: raise CameraCatalogUnavailable(...)\<close>\<close>

definition or_unavailable :: "(py_error \<Rightarrow> bool) \<Rightarrow> string \<Rightarrow> py_error + 'a \<Rightarrow> py_error + 'a" where
  "or_unavailable passes reason r =
     (case r of Inl e \<Rightarrow> if passes e then Inl e else Inl (CameraCatalogUnavailable reason) | Inr a \<Rightarrow> Inr a)"

definition live_accesses :: "uuid list \<Rightarrow> ('x, uuid \<rightharpoonup> datetime) action" where
  "live_accesses camera_ids =
     and_then (raise_some (validate_camera_live_batch camera_ids)) (\<lambda>_.
       query (\<lambda>x s. or_unavailable (\<lambda>e. False) ''camera_live_accesses_unavailable''
                      (latest_camera_accesses camera_ids)))"

definition catalog :: "camera_catalog_query \<Rightarrow> ('x, camera_catalog_page) action" where
  "catalog q = query (\<lambda>x s. or_unavailable is_catalog_unavailable ''camera_catalog_unavailable'' (camera_catalog q s))"

definition catalog_nodes :: "('x, media_node list) action" where
  "catalog_nodes = query (\<lambda>x s. Inr (take 100 (sort_key (\<lambda>n. uuid_int (nd_id n)) (list_nodes s))))"

definition detail :: "uuid \<Rightarrow> ('x, camera_catalog_item option) action" where
  "detail camera_id =
     query (\<lambda>x s. or_unavailable is_catalog_unavailable ''camera_catalog_unavailable'' (camera_detail camera_id s))"

section \<open>Changes of one camera\<close>

definition update_camera_control ::
  "'x camera_control \<Rightarrow> uuid \<Rightarrow> string \<Rightarrow> string \<Rightarrow> camera_source_credentials option \<Rightarrow> int option
   \<Rightarrow> ('x, camera_placement) action" where
  "update_camera_control c camera_id name source_url source_credentials expected_revision =
     and_then (query (\<lambda>x s. Inr (get_camera camera_id s))) (\<lambda>current.
     and_then (from_sum (split_source_credentials
                 (case current of None \<Rightarrow> source_url | Some cam \<Rightarrow> cp_source_url cam))) (\<lambda>(_, current_credentials).
     and_then (from_sum (validate_camera_source_url source_url False)) (\<lambda>validated_url.
     and_then (from_sum (attach_if validated_url
                 (case source_credentials of None \<Rightarrow> current_credentials | Some cr \<Rightarrow> Some cr))) (\<lambda>validated_source_url.
     and_then (if (case current of
                     None \<Rightarrow> True
                   | Some cam \<Rightarrow> probe_endpoint_requires_readmission cam validated_source_url
                       (map_option ea_policy_sha256 (cc_probe_endpoint_admission c)))
               then admit_probe_endpoint c validated_source_url else ret None) (\<lambda>probe_endpoint.
     and_then (from_sum (validate_camera_name name)) (\<lambda>validated_name.
       call (\<lambda>x. update_camera (cc_env c x) camera_id validated_name validated_source_url expected_revision
                   probe_endpoint)))))))"

definition set_camera_enabled_control ::
  "uuid \<Rightarrow> bool \<Rightarrow> int option \<Rightarrow> ('x, camera_placement) action" where
  "set_camera_enabled_control camera_id enabled expected_revision =
     call (\<lambda>x. set_camera_enabled camera_id enabled expected_revision)"

definition delete_camera_control :: "uuid \<Rightarrow> ('x, camera_placement) action" where
  "delete_camera_control camera_id = call (\<lambda>x. request_camera_delete camera_id None)"

end
