(* ===== verification/Control_Reachability.thy ===== *)
theory Control_Reachability
  imports Control_Relations Camera_Control
begin

text \<open>
  The control plane refines the store machine of \<^verbatim>\<open>Store_Machine\<close>: whatever its collaborators do, each
  operation of \<^verbatim>\<open>NodeControl\<close> takes a reachable store to a reachable store. The operations that create
  a node or a port change need ids from their factories that the store does not hold yet.
\<close>

section \<open>Operations that create records\<close>

text \<open>
  A relation \<^verbatim>\<open>R\<close> that the operations creating a node or a port change respect; what surrounds those calls
  stays within \<^verbatim>\<open>S\<close>.
\<close>

locale creating_relation = fleet_relation S + outer: bracket S R
  for S R :: "'x world \<Rightarrow> 'x world \<Rightarrow> bool" +
  fixes c :: "'x node_control"
  assumes registered: "keeps R (call (\<lambda>x. register_automatically (registration_request_of c r ps x)))"
    and registered_once: "keeps R (call (\<lambda>x. register_idempotently (registration_request_of c r ps x) idem))"
    and begun: "\<exists>x. j = fst (nc_new_operation_id c x) \<Longrightarrow>
      keeps R (call (\<lambda>x. begin_port_change (nc_env c x) j i p allowed k n radius))"
begin

lemma reserved: "keeps R (register_reserved c r idem ps)"
  unfolding register_reserved_def used_node_id_def
  by (auto intro!: outer.then_after registered registered_once outer.external ret
      and_then split: option.split prod.split)

lemma candidate_ports: "keeps S (candidate_ports c r)"
proof -
  have "keeps S (bindable_ports c ps)" for ps
    by (induction ps) (auto intro!: ret and_then outer.bindable)
  then show ?thesis
    by (auto simp: candidate_ports_def split: option.split intro!: ret and_then outer.bindable raises)
qed

lemma register: "keeps R (register_node c r)"
  unfolding register_node_def provision_reserved_node_def
  by (auto split: option.split prod.split
      intro!: outer.then_before [OF query] outer.then_before [OF ret] outer.then_before [OF candidate_ports]
        outer.weaken [OF ret] outer.then_after [OF reserved] ret fail handle node.start)

lemma capacity: "keeps R (ensure_automatic_capacity c policy mc)"
  unfolding ensure_automatic_capacity_def eligible_nodes_def list_nodes_call_def
  by (auto split: option.split list.split
      intro!: outer.then_before [OF raises(1)] outer.then_before [OF query] outer.weaken [OF ret]
        outer.then_before [OF for_each] guarded and_then node.observe_locked ret
        outer.weaken [OF node.start] register)

end

lemma new_operation_idD: "new_operation_id c w = (Inr i, w') \<Longrightarrow> \<exists>x. i = fst (nc_new_operation_id c x)"
  by (cases "nc_new_operation_id c (w_ext w)") (auto simp: new_operation_id_def external_def intro: exI [of _ "w_ext w"])

context creating_relation
begin

lemma change_port: "keeps R (change_port c i p allowed token ctx fence mc)"
  unfolding change_port_def
proof (rule outer.slot_body, rule outer.guarded_body, rule outer.then_before [OF outer.require],
    rule outer.then_before [OF raises(2)], rule outer.fenced,
    rule outer.then_before [OF outer.confirmed [OF outer.external]], rule outer.then_before [OF outer.bindable],
    rule outer.then_before [OF raises(1)], rule outer.then_before [OF raises(3)],
    rule outer.then_before_result [OF outer.operation_id])
  fix current :: media_node and d :: node_disruption_details and l j w w'
  assume "new_operation_id c w = (Inr j, w')"
  then show "keeps R (Control_Monad.and_then (call (\<lambda>x. begin_port_change (nc_env c x) j i p allowed
      (nd_desired_revision current) (nd_registered_cameras current) (dd_blast_radius_sha256 d)))
      (\<lambda>change. drive_port_change c current change (lease_deadline l)))"
    by (intro outer.then_after begun new_operation_idD driven)
qed

end

section \<open>The tables of ids\<close>

definition stable_kept :: "'x world \<Rightarrow> 'x world \<Rightarrow> bool" where
  "stable_kept w w' \<longleftrightarrow> (reachable (w_store w) \<longrightarrow>
     reachable (w_store w') \<and> map nd_id (st_nodes (w_store w')) = map nd_id (st_nodes (w_store w))
     \<and> map pc_id (st_port_changes (w_store w')) = map pc_id (st_port_changes (w_store w))
     \<and> map cp_id (st_cameras (w_store w')) = map cp_id (st_cameras (w_store w)))"

lemma node_effect_ids:
  assumes "node_effect i s n s' old"
  shows "map nd_id (st_nodes s') = map nd_id (st_nodes s)" "st_port_changes s' = st_port_changes s"
    "st_cameras s' = st_cameras s"
proof -
  have "find_node (nd_id old) s = Some old" and "same_identity old n" and "s' = put_node old n s"
    using assms find_node_key [of i s old] by (auto simp: node_effect_def)
  then show "map nd_id (st_nodes s') = map nd_id (st_nodes s)" "st_port_changes s' = st_port_changes s"
    "st_cameras s' = st_cameras s"
    using put_node_views(6,8,10) by auto
qed

lemma resolved_ids:
  "resolved ch old n st s s' \<Longrightarrow> map nd_id (st_nodes s') = map nd_id (st_nodes s)"
  "resolved ch old n st s s' \<Longrightarrow> map pc_id (st_port_changes s') = map pc_id (st_port_changes s)"
  "resolved ch old n st s s' \<Longrightarrow> map cp_id (st_cameras s') = map cp_id (st_cameras s)"
  by (auto simp: resolved_def map_replace_first repoint_cameras_def)

lemma complete_port_ids:
  assumes "reachable s" and "complete_port_change env j ob s = Inr (n, s')"
  shows "map nd_id (st_nodes s') = map nd_id (st_nodes s)" "map pc_id (st_port_changes s') = map pc_id (st_port_changes s)"
    "map cp_id (st_cameras s') = map cp_id (st_cameras s)"
  using complete_port_change_resolved [OF store_machine.always [OF assms(1)] assms(2)] resolved_ids by fast+

lemma abort_port_ids:
  assumes "reachable s" and "abort_port_change env j ob s = Inr (n, s')"
  shows "map nd_id (st_nodes s') = map nd_id (st_nodes s)" "map pc_id (st_port_changes s') = map pc_id (st_port_changes s)"
    "map cp_id (st_cameras s') = map cp_id (st_cameras s)"
  using abort_port_change_resolved [OF store_machine.always [OF assms(1)] assms(2)] resolved_ids by fast+

interpretation stable: fleet_relation stable_kept
proof
  show "stable_kept w (w\<lparr>w_store := s'\<rparr>)" if op: "op_node op = Some i" "run_op op (w_store w) = Inr s'"
    for w :: "'x world" and op i s'
  proof -
    from op_node_effect [OF op] obtain n old where "node_effect i (w_store w) n s' old" by blast
    from node_effect_ids [OF this] show ?thesis
      using reachable_run [OF _ op_node_fresh [OF op(1)] op(2)] by (simp add: stable_kept_def)
  qed
  show "stable_kept w (w\<lparr>w_store := s'\<rparr>)" if run: "complete_port_change env j ob (w_store w) = Inr (n, s')"
    for w :: "'x world" and env j ob n s'
    using complete_port_reachable [OF _ run] complete_port_ids [OF _ run] by (simp add: stable_kept_def)
  show "stable_kept w (w\<lparr>w_store := s'\<rparr>)" if run: "abort_port_change env j ob (w_store w) = Inr (n, s')"
    for w :: "'x world" and env j ob n s'
    using abort_port_reachable [OF _ run] abort_port_ids [OF _ run] by (simp add: stable_kept_def)
qed (simp_all add: stable_kept_def)

section \<open>Fresh ids\<close>

definition fresh_ids :: "'x node_control \<Rightarrow> node_store \<Rightarrow> bool" where
  "fresh_ids c s \<longleftrightarrow> (\<forall>x. fst (nc_new_node_id c x) \<notin> nd_id ` set (st_nodes s))
     \<and> (\<forall>x. fst (nc_new_operation_id c x) \<notin> pc_id ` set (st_port_changes s))"

definition fresh_reach :: "'x node_control \<Rightarrow> 'x world \<Rightarrow> 'x world \<Rightarrow> bool" where
  "fresh_reach c w w' \<longleftrightarrow> (fresh_ids c (w_store w) \<and> reachable (w_store w) \<longrightarrow>
     reachable (w_store w') \<and> map cp_id (st_cameras (w_store w')) = map cp_id (st_cameras (w_store w)))"

lemma fresh_ids_cong:
  assumes "map nd_id (st_nodes s') = map nd_id (st_nodes s)" "map pc_id (st_port_changes s') = map pc_id (st_port_changes s)"
  shows "fresh_ids c s' = fresh_ids c s"
proof -
  have "nd_id ` set (st_nodes s') = nd_id ` set (st_nodes s)"
    "pc_id ` set (st_port_changes s') = pc_id ` set (st_port_changes s)"
    using assms by (metis set_map)+
  then show ?thesis by (simp add: fresh_ids_def)
qed

interpretation bracketed: bracket stable_kept "fresh_reach c" for c :: "'x node_control"
proof
  show "fresh_reach c w w''" if "stable_kept w w'" "fresh_reach c w' w''" for w w' w'' :: "'x world"
    using that fresh_ids_cong [of "w_store w'" "w_store w" c] by (auto simp: stable_kept_def fresh_reach_def)
qed (auto simp: stable_kept_def fresh_reach_def)

lemma call_fresh:
  fixes c :: "'x node_control"
  assumes "\<And>x s. run_op (op x) s = written (f x s)" and "\<And>x s. fresh_ids c s \<Longrightarrow> op_fresh (op x) s"
    and "\<And>x s a s'. f x s = Inr (a, s') \<Longrightarrow> st_cameras s' = st_cameras s"
  shows "keeps (fresh_reach c) (call f)"
  unfolding keeps_def
proof
  fix w :: "'x world"
  have "run_op (op (w_ext w)) (w_store w) = written (f (w_ext w) (w_store w))" by (rule assms(1))
  then show "fresh_reach c w (snd (call f w))"
    using reachable_run [OF _ assms(2)] assms(3)
    by (fastforce simp: call_def written_def fresh_reach_def split: sum.split)
qed

lemma register_idempotently_cameras:
  "register_idempotently rq idem s = Inr (n, s') \<Longrightarrow> st_cameras s' = st_cameras s"
  by (auto simp: register_idempotently_def split: option.splits sum.splits if_splits
      dest!: register_automatically_result)

lemma begin_port_change_cameras:
  "begin_port_change env j i p allowed k n radius s = Inr (c, s') \<Longrightarrow> st_cameras s' = st_cameras s"
  by (auto simp: begin_port_change_def Let_def split: option.splits if_splits)

interpretation fresh: creating_relation stable_kept "fresh_reach c" c for c
proof
  show "keeps (fresh_reach c) (call (\<lambda>x. register_automatically (registration_request_of c r ps x)))" for r ps
    by (rule call_fresh [of "\<lambda>x. Register (registration_request_of c r ps x)"])
      (auto simp: op_fresh_def registration_request_of_def fresh_ids_def dest!: register_automatically_result)
  show "keeps (fresh_reach c) (call (\<lambda>x. register_idempotently (registration_request_of c r ps x) idem))" for r ps idem
    by (rule call_fresh [of "\<lambda>x. RegisterIdempotently (registration_request_of c r ps x) idem"])
      (auto simp: op_fresh_def registration_request_of_def fresh_ids_def register_idempotently_cameras)
  show "keeps (fresh_reach c) (call (\<lambda>x. begin_port_change (nc_env c x) j i p allowed k n radius))"
    if "\<exists>x. j = fst (nc_new_operation_id c x)" for j i p allowed k n radius
    using that
    by (intro call_fresh [of "\<lambda>x. BeginPort (nc_env c x) j i p allowed k n radius"])
      (auto simp: op_fresh_def fresh_ids_def begin_port_change_cameras)
qed

lemma call_slots: "keeps same_slots (call f)"
  by (auto simp: keeps_def same_slots_def call_def split: sum.split)

interpretation slots: creating_relation same_slots same_slots c for c
  by unfold_locales (rule call_slots)+

section \<open>Cameras\<close>

definition fresh_camera :: "'x camera_control \<Rightarrow> node_store \<Rightarrow> bool" where
  "fresh_camera k s \<longleftrightarrow> (\<forall>x. fst (cc_new_camera_id k x) \<notin> cp_id ` set (st_cameras s))"

text \<open>A relation for the operations of \<^verbatim>\<open>CameraControl\<close>, with the ids of all three tables.\<close>

definition camera_reach :: "'x node_control \<Rightarrow> 'x camera_control \<Rightarrow> 'x world \<Rightarrow> 'x world \<Rightarrow> bool" where
  "camera_reach c k w w' \<longleftrightarrow>
     (fresh_ids c (w_store w) \<and> fresh_camera k (w_store w) \<and> reachable (w_store w) \<longrightarrow> reachable (w_store w'))"

lemma fresh_camera_cong:
  assumes "map cp_id (st_cameras s') = map cp_id (st_cameras s)"
  shows "fresh_camera k s' = fresh_camera k s"
proof -
  have "cp_id ` set (st_cameras s') = cp_id ` set (st_cameras s)" using assms by (metis set_map)
  then show ?thesis by (simp add: fresh_camera_def)
qed

interpretation cameras: bracket stable_kept "camera_reach c k" for c :: "'x node_control" and k
proof
  show "camera_reach c k w w''" if "stable_kept w w'" "camera_reach c k w' w''" for w w' w'' :: "'x world"
    using that fresh_ids_cong [of "w_store w'" "w_store w" c] fresh_camera_cong [of "w_store w'" "w_store w" k]
    by (auto simp: stable_kept_def camera_reach_def)
qed (auto simp: stable_kept_def camera_reach_def)

text \<open>A call of a store operation whose new id, if any, is fresh.\<close>

definition placed_reach :: "'x camera_control \<Rightarrow> 'x world \<Rightarrow> 'x world \<Rightarrow> bool" where
  "placed_reach k w w' \<longleftrightarrow> (fresh_camera k (w_store w) \<and> reachable (w_store w) \<longrightarrow> reachable (w_store w'))"

lemma call_placed:
  fixes k :: "'x camera_control"
  assumes "\<And>x s. run_op (op x) s = written (f x s)" and "\<And>x s. fresh_camera k s \<Longrightarrow> op_fresh (op x) s"
  shows "keeps (placed_reach k) (call f)"
  unfolding keeps_def
proof
  fix w :: "'x world"
  have "run_op (op (w_ext w)) (w_store w) = written (f (w_ext w) (w_store w))" by (rule assms(1))
  then show "placed_reach k w (snd (call f w))"
    using reachable_run [OF _ assms(2)]
    by (fastforce simp: call_def written_def placed_reach_def split: sum.split)
qed

lemma placed_weaken: "keeps (placed_reach k) m \<Longrightarrow> keeps (camera_reach c k) m"
  by (auto simp: keeps_def placed_reach_def camera_reach_def)

lemma then_placed:
  assumes "keeps (fresh_reach c) m" and "\<And>a. keeps (placed_reach k) (f a)"
  shows "keeps (camera_reach c k) (and_then m f)"
  unfolding keeps_def
proof
  fix w
  obtain r w' where m: "m w = (r, w')" by fastforce
  then have "fresh_reach c w w'" using assms(1) by (metis keeps_def snd_conv)
  moreover have "placed_reach k w' (snd (f a w'))" for a using assms(2) by (simp add: keeps_def)
  ultimately show "camera_reach c k w (snd (and_then m f w))"
    using m fresh_camera_cong [of "w_store w'" "w_store w" k]
    by (auto simp: and_then_def fresh_reach_def placed_reach_def camera_reach_def split: sum.split)
qed

lemma new_camera_idD: "new_camera_id k w = (Inr i, w') \<Longrightarrow> \<exists>x. i = fst (cc_new_camera_id k x)"
  by (cases "cc_new_camera_id k (w_ext w)") (auto simp: new_camera_id_def external_def intro: exI [of _ "w_ext w"])

text \<open>The provider of automatic capacity is absent or the one of the node control.\<close>

definition wired :: "'x node_control \<Rightarrow> 'x camera_control \<Rightarrow> bool" where
  "wired c k \<longleftrightarrow> (\<forall>ensure. cc_ensure_automatic_capacity k = Some ensure \<longrightarrow>
     (\<exists>policy. ensure = ensure_automatic_capacity c policy))"

lemma placements_reach:
  assumes "\<exists>x. cr_camera_id rq = fst (cc_new_camera_id k x)"
  shows "keeps (placed_reach k) (place_idempotently_call k rq n i)"
    "keeps (placed_reach k) (place_automatically_call k rq)"
    "keeps (placed_reach k) (call (\<lambda>x. place_camera_manually (cc_env k x) rq m))"
proof -
  have fresh: "cr_camera_id rq \<notin> cp_id ` set (st_cameras s)" if "fresh_camera k s" for s
    using assms that unfolding fresh_camera_def by metis
  have "keeps (placed_reach k) (call (\<lambda>x. place_camera_idempotently (cc_env k x) rq n i))"
    using fresh by (intro call_placed [of "\<lambda>x. PlaceIdempotently (cc_env k x) rq n i"]) (auto simp: op_fresh_def)
  then show "keeps (placed_reach k) (place_idempotently_call k rq n i)"
    unfolding place_idempotently_call_def
    by (auto simp: keeps_def and_then_def placed_reach_def ret_def split: prod.split sum.split)
  show "keeps (placed_reach k) (place_automatically_call k rq)"
    unfolding place_automatically_call_def
    using fresh by (intro call_placed [of "\<lambda>x. PlaceAutomatically (cc_env k x) rq"]) (auto simp: op_fresh_def)
  show "keeps (placed_reach k) (call (\<lambda>x. place_camera_manually (cc_env k x) rq m))"
    using fresh by (intro call_placed [of "\<lambda>x. PlaceManually (cc_env k x) rq m"]) (auto simp: op_fresh_def)
qed

lemma with_capacity_reach:
  assumes wired: "wired c k" and first: "keeps (placed_reach k) m" "\<And>w e w'. m w = (Inl e, w') \<Longrightarrow> w' = w"
    and again: "keeps (placed_reach k) m'"
  shows "keeps (camera_reach c k) (with_capacity k mc m m')"
  unfolding keeps_def
proof
  fix w
  obtain r w' where run: "m w = (r, w')" by fastforce
  show "camera_reach c k w (snd (with_capacity k mc m m' w))"
  proof (cases r)
    case (Inr a)
    then show ?thesis
      using run placed_weaken [OF first(1), of c] unfolding keeps_def
      by (simp add: with_capacity_def handle_def and_then_def attempt_def ret_def) (metis snd_conv)
  next
    case (Inl e)
    with run first(2) have w': "w' = w" by blast
    have "keeps (camera_reach c k) (and_then (ensure mc) (\<lambda>_. m'))" if "cc_ensure_automatic_capacity k = Some ensure" for ensure
      using wired that again by (auto simp: wired_def intro!: then_placed fresh.capacity)
    then show ?thesis
      using run Inl w' cameras.within [OF stable.refl]
      by (auto simp: with_capacity_def handle_def and_then_def [of "attempt m"] attempt_def fail_def keeps_def
          split: option.split)
  qed
qed

lemma call_unchanged: "call f w = (Inl e, w') \<Longrightarrow> w' = w"
  by (auto simp: call_def split: sum.splits prod.splits)

lemma place_calls_unchanged:
  "place_automatically_call k rq w = (Inl e, w') \<Longrightarrow> w' = w"
  "place_idempotently_call k rq n i w = (Inl e, w') \<Longrightarrow> w' = w"
  by (auto simp: place_automatically_call_def place_idempotently_call_def and_then_def ret_def
      dest: call_unchanged split: prod.splits sum.splits)

lemma place_camera_reach:
  assumes "wired c k" and "\<exists>x. cr_camera_id rq = fst (cc_new_camera_id k x)"
  shows "keeps (camera_reach c k) (place_camera k rq n idem mc)"
  using placements_reach [OF assms(2)]
  by (auto simp: place_camera_def split: option.split
      intro!: with_capacity_reach [OF assms(1)] dest: place_calls_unchanged intro: placed_weaken)

lemma admission_stable: "keeps stable_kept (admit_probe_endpoint k url)"
  by (auto simp: admit_probe_endpoint_def split: option.split
      intro!: stable.ret stable.handle stable.and_then bracketed.external stable.fail)

lemma public_id_stable: "keeps stable_kept (new_public_id k)"
  by (auto simp: new_public_id_def split: option.split
      intro!: stable.ret stable.and_then bracketed.external stable.fail)

lemma reserve_stable: "keeps stable_kept (call (\<lambda>x. reserve_camera_registration i))"
proof -
  have "reachable s' \<and> st_nodes s' = st_nodes s \<and> st_port_changes s' = st_port_changes s \<and> st_cameras s' = st_cameras s"
    if run: "reserve_camera_registration i s = Inr (a, s')" and "reachable s" for s a s'
  proof -
    have "reachable s'"
      by (rule reachable_run [OF \<open>reachable s\<close>, of "ReserveCamera i"]) (simp_all add: op_fresh_def written_def run)
    then show ?thesis
      using run by (auto simp: reserve_camera_registration_def split: option.splits sum.splits)
  qed
  then show ?thesis by (auto simp: keeps_def call_def stable_kept_def split: sum.split)
qed

lemma create_camera_reach:
  assumes "wired c k"
  shows "keeps (camera_reach c k) (create_camera k name url cr n mc)"
proof -
  have tail: "keeps (camera_reach c k) (and_then (new_camera_id k) (\<lambda>i. and_then (new_public_id k) (\<lambda>p.
      and_then (admit_probe_endpoint k u) (\<lambda>e. place_camera k \<lparr>cr_camera_id = i, cr_name = v, cr_source_url = u,
        cr_public_id = p, cr_management_freshness_seconds = f, cr_probe_endpoint = e\<rparr> n idem mc))))" for u v f idem
    unfolding new_camera_id_def
    by (rule cameras.then_before_result [OF bracketed.external], fold new_camera_id_def,
        rule cameras.then_before [OF public_id_stable], rule cameras.then_before [OF admission_stable],
        rule place_camera_reach [OF assms]) (drule new_camera_idD, simp)
  show ?thesis
    unfolding create_camera_def
    by (intro cameras.then_before [OF stable.raises(3)] cameras.then_before [OF stable.query])
      (auto intro!: cameras.then_before [OF stable.ret] cameras.then_before [OF reserve_stable] tail
        cameras.weaken [OF stable.ret] split: option.split)
qed

end
