(* ===== verification/Control_Machine.thy ===== *)
theory Control_Machine
  imports Control_Reachability
begin

text \<open>
  The control plane as a whole: the state-changing operations of \<^verbatim>\<open>NodeControl\<close> and \<^verbatim>\<open>CameraControl\<close>
  as data, and what each of them does to the store, whatever the collaborators return or raise.
\<close>

section \<open>Operations as data\<close>

datatype (plugins only: code size) plane_op =
    StartNode uuid "node_command_fence option"
  | StopNode uuid "node_command_fence option"
  | RestartNode uuid "node_command_fence option"
  | ObserveNode uuid
  | SetAdministrative uuid node_state "node_command_fence option"
  | UpdateRelease uuid string string "node_command_fence option"
  | RemoveNode uuid "node_command_fence option"
  | PreviewReconfigure uuid "node_disruption_confirmation_context option"
  | ReconfigureNode uuid "string option" "node_disruption_confirmation_context option"
      "node_command_fence option" "node_mutation_context option"
  | PreviewPortChange uuid int "int list" "node_disruption_confirmation_context option"
  | ChangePort uuid int "int list" "string option" "node_disruption_confirmation_context option"
      "node_command_fence option" "node_mutation_context option"
  | RegisterNode node_registration
  | EnsureCapacity node_provisioning_policy "node_mutation_context option"
  | RefreshCandidates uuid int
  | RecoverRuntime
  | CreateCamera string string "camera_source_credentials option" "uuid option" "node_mutation_context option"
  | UpdateCameraSource uuid string string "camera_source_credentials option" "int option"
  | SetCameraEnabled uuid bool "int option"
  | RemoveCamera uuid
  | AllowNetwork string int

definition discard :: "('x, 'a) action \<Rightarrow> ('x, unit) action" where
  "discard m = and_then m (\<lambda>_. ret ())"

primrec run_plane :: "'x node_control \<Rightarrow> 'x camera_control \<Rightarrow> plane_op \<Rightarrow> ('x, unit) action" where
  "run_plane c k (StartNode i fence) = discard (start_node c i fence)"
| "run_plane c k (StopNode i fence) = discard (stop_node c i fence)"
| "run_plane c k (RestartNode i fence) = discard (restart_node c i fence)"
| "run_plane c k (ObserveNode i) = discard (observe_node c i)"
| "run_plane c k (SetAdministrative i st fence) = discard (set_administrative_state c i st fence)"
| "run_plane c k (UpdateRelease i r d fence) = discard (update_node_release c i r d fence)"
| "run_plane c k (RemoveNode i fence) = discard (delete_node c i fence)"
| "run_plane c k (PreviewReconfigure i ctx) = discard (preview_reconfigure c i ctx)"
| "run_plane c k (ReconfigureNode i token ctx fence mc) = discard (reconfigure_node c i token ctx fence mc)"
| "run_plane c k (PreviewPortChange i p allowed ctx) = discard (preview_port_change c i p allowed ctx)"
| "run_plane c k (ChangePort i p allowed token ctx fence mc) =
     discard (change_port c i p allowed token ctx fence mc)"
| "run_plane c k (RegisterNode r) = discard (register_node c r)"
| "run_plane c k (EnsureCapacity policy mc) = discard (ensure_automatic_capacity c policy mc)"
| "run_plane c k (RefreshCandidates i f) = discard (refresh_move_candidates c i f)"
| "run_plane c k RecoverRuntime = discard (recover_runtime_state c)"
| "run_plane c k (CreateCamera name url cr n mc) = discard (create_camera k name url cr n mc)"
| "run_plane c k (UpdateCameraSource i name url cr r) = discard (update_camera_control k i name url cr r)"
| "run_plane c k (SetCameraEnabled i b r) = discard (set_camera_enabled_control i b r)"
| "run_plane c k (RemoveCamera i) = discard (delete_camera_control i)"
| "run_plane c k (AllowNetwork url len) = discard (allow_source_network k url len)"

lemma keeps_discard: "keeps R m \<Longrightarrow> keeps R (discard m)"
  by (auto simp: discard_def keeps_def and_then_def ret_def split: prod.split sum.split) (metis snd_conv)+

section \<open>Cameras\<close>

lemma call_reach:
  fixes f :: "'x \<Rightarrow> node_store \<Rightarrow> 'a store_result"
  assumes "\<And>x s. run_op (op x) s = written (f x s)" and "\<And>x s. op_fresh (op x) s"
  shows "keeps reach_kept (call f)"
  unfolding keeps_def
proof
  fix w :: "'x world"
  have "run_op (op (w_ext w)) (w_store w) = written (f (w_ext w) (w_store w))" by (rule assms(1))
  then show "reach_kept w (snd (call f w))"
    using reachable_run [OF _ assms(2)]
    by (fastforce simp: call_def written_def reach_kept_def split: sum.split)
qed

lemma camera_calls_reach:
  "keeps reach_kept (call (\<lambda>x. update_camera (e x) i name url r p))"
  "keeps reach_kept (set_camera_enabled_control i b r)"
  "keeps reach_kept (delete_camera_control i)"
  "keeps reach_kept (call (\<lambda>x s. Inr (add_probe_source_network n s)))"
proof -
  show "keeps reach_kept (call (\<lambda>x. update_camera (e x) i name url r p))"
    by (rule call_reach [of "\<lambda>x. UpdateCamera (e x) i name url r p"]) (simp_all add: op_fresh_def)
  show "keeps reach_kept (set_camera_enabled_control i b r)"
    unfolding set_camera_enabled_control_def
    by (rule call_reach [of "\<lambda>x. EnableCamera i b r"]) (simp_all add: op_fresh_def)
  show "keeps reach_kept (delete_camera_control i)"
    unfolding delete_camera_control_def
    by (rule call_reach [of "\<lambda>x. DeleteCamera i None"]) (simp_all add: op_fresh_def)
  show "keeps reach_kept (call (\<lambda>x s. Inr (add_probe_source_network n s)))"
    by (rule call_reach [of "\<lambda>x. AddNetwork n"]) (simp_all add: op_fresh_def written_def)
qed

text \<open>What surrounds the calls of \<^verbatim>\<open>CameraControl\<close>, for any relation that allows changes outside.\<close>

context fleet_relation
begin

lemma admission: "keeps R (admit_probe_endpoint k url)"
  by (auto simp: admit_probe_endpoint_def split: option.split intro!: ret handle and_then node.external fail)

lemma updated:
  assumes "\<And>e i name url r p. keeps R (call (\<lambda>x. update_camera (e x) i name url r p))"
  shows "keeps R (update_camera_control k i name url cr r)"
  unfolding update_camera_control_def
  by (intro and_then [OF query] and_then [OF raises(3)])
    (auto intro!: and_then [OF raises(3)] and_then admission ret raises(3) assms)

lemma network_allowed:
  assumes "\<And>n. keeps R (call (\<lambda>x s. Inr (add_probe_source_network n s)))"
  shows "keeps R (allow_source_network k url len)"
  by (auto simp: allow_source_network_def split: option.split
      intro!: fail handle and_then raises(3) node.external ret assms)

end

lemma create_camera_slots:
  assumes "wired c k"
  shows "keeps same_slots (create_camera k name url cr n mc)"
proof -
  have "keeps same_slots (ensure mc)" if "cc_ensure_automatic_capacity k = Some ensure" for ensure
    using assms that slots.capacity by (auto simp: wired_def)
  then have "keeps same_slots (place_camera k rq n idem mc)" for rq idem
    by (auto simp: place_camera_def with_capacity_def place_idempotently_call_def place_automatically_call_def
        split: option.split prod.split
        intro!: call_slots slots.and_then slots.handle slots.ret slots.fail)
  then show ?thesis
    unfolding create_camera_def new_camera_id_def new_public_id_def
    by (auto intro!: slots.and_then slots.raises slots.query slots.ret slots.fail call_slots slots.node.external
        slots.admission split: option.split)
qed

section \<open>Every operation of the control plane\<close>

lemma reach_camera: "keeps reach_kept m \<Longrightarrow> keeps (camera_reach c k) m"
  by (auto simp: keeps_def reach_kept_def camera_reach_def)

lemma fresh_reach_camera: "keeps (fresh_reach c) m \<Longrightarrow> keeps (camera_reach c k) m"
  by (auto simp: keeps_def fresh_reach_def camera_reach_def)

lemmas plane_reach =
  reach.node.start reach.node.stop reach.node.restart reach.node.observe reach.node.administrative
  reach.node.release reach.member.delete reach.node.previews reach.node.reconfigure reach.candidates
  reach.runtime_recovered reach.updated [OF camera_calls_reach(1)] camera_calls_reach(2,3)
  reach.network_allowed [OF camera_calls_reach(4)]

lemma run_plane_reach:
  assumes "wired c k"
  shows "keeps (camera_reach c k) (run_plane c k op)"
  by (cases op)
    (simp_all add: keeps_discard reach_camera plane_reach fresh_reach_camera fresh.change_port fresh.register
      fresh.capacity create_camera_reach [OF assms])

lemmas plane_slots =
  slots.node.start slots.node.stop slots.node.restart slots.node.observe slots.node.administrative
  slots.node.release slots.member.delete slots.node.previews slots.node.reconfigure slots.candidates
  slots.runtime_recovered slots.updated [OF call_slots] slots.network_allowed [OF call_slots]
  slots.change_port slots.register slots.capacity

lemma run_plane_slots:
  assumes "wired c k"
  shows "keeps same_slots (run_plane c k op)"
  by (cases op)
    (simp_all add: keeps_discard plane_slots create_camera_slots [OF assms] call_slots
      set_camera_enabled_control_def delete_camera_control_def)

text \<open>The node a command of the control plane is about.\<close>

definition op_target :: "plane_op \<Rightarrow> uuid option" where
  "op_target op = (case op of
      StartNode i fence \<Rightarrow> Some i
    | StopNode i fence \<Rightarrow> Some i
    | RestartNode i fence \<Rightarrow> Some i
    | ObserveNode i \<Rightarrow> Some i
    | SetAdministrative i st fence \<Rightarrow> Some i
    | UpdateRelease i r d fence \<Rightarrow> Some i
    | RemoveNode i fence \<Rightarrow> Some i
    | PreviewReconfigure i ctx \<Rightarrow> Some i
    | ReconfigureNode i token ctx fence mc \<Rightarrow> Some i
    | PreviewPortChange i p allowed ctx \<Rightarrow> Some i
    | _ \<Rightarrow> None)"

lemma run_plane_others:
  assumes "op_target op = Some i"
  shows "keeps (others_kept i) (run_plane c k op)"
  using assms
  by (cases op)
    (auto simp: op_target_def keeps_discard others.start others.stop others.restart others.observe
      others.administrative others.release others.delete others.previews others.reconfigure)

end
