(* ===== verification/Control_Examples.thy ===== *)
theory Control_Examples
  imports Control_Machine Store_Examples
begin

text \<open>
  A concrete control plane over the stores of \<^verbatim>\<open>Store_Examples\<close>: a runtime that always succeeds, one
  that always fails, ids that no table holds, and a confirmation service that accepts every token.
\<close>

definition ex_running :: "media_node \<Rightarrow> node_runtime_observation" where
  "ex_running n = ex_observation\<lparr>ob_applied_revision := nd_desired_revision n, ob_release_id := Some (nd_release_id n)\<rparr>"

definition ex_stopped :: "media_node \<Rightarrow> node_runtime_observation" where
  "ex_stopped n = \<lparr>ob_state = NS_STOPPED, ob_health = NH_UNKNOWN, ob_management_fresh = False,
     ob_config_compatible = False, ob_applied_revision = nd_applied_revision n, ob_process_id = None,
     ob_process_start_ticks = None, ob_process_boot_id = None, ob_config_sha256 = None, ob_release_id = None\<rparr>"

definition ex_runtime :: "nat node_runtime" where
  "ex_runtime = \<lparr>rt_execute = (\<lambda>a n x. (Inr (if a = RA_OBSERVE then ex_stopped n else ex_running n), x)), rt_execute_until = None, rt_disruption = None\<rparr>"

definition ex_broken :: "nat node_runtime" where
  "ex_broken = ex_runtime\<lparr>rt_execute := (\<lambda>a n x. (Inl (RuntimeError ''down''), x))\<rparr>"

definition ex_confirmations :: "nat confirmations" where
  "ex_confirmations = \<lparr>cf_issue_node_port_change = (\<lambda>claim x. (Inr ''token'', x)),
     cf_verify_node_port_change = (\<lambda>t claim x. (Inr True, x)),
     cf_issue_node_reconfigure = (\<lambda>claim x. (Inr ''token'', x)),
     cf_verify_node_reconfigure = (\<lambda>t claim x. (Inr True, x))\<rparr>"

definition ex_lease :: node_disruption_fence_lease where
  "ex_lease = \<lparr>le_observation = \<lparr>do_active_reader_public_ids = [], do_observed_at = seconds 100,
     do_process_id = 100, do_process_start_ticks = 5, do_process_boot_id = 3, do_release_id = ''v1''\<rparr>,
     le_work_deadline_unix_ms = None, le_completed = False\<rparr>"

definition ex_observer :: "nat disruption_observer" where
  "ex_observer = \<lparr>obs_observe = (\<lambda>n x. (Inr (le_observation ex_lease), x)),
     obs_fence = Some (\<lambda>n ids x. (Inr (Some ex_lease), x)), obs_fence_exit = (\<lambda>l e x. (Inr False, x))\<rparr>"

definition ex_control :: "nat node_control" where
  "ex_control = \<lparr>nc_choose_port = (\<lambda>x ps. hd ps), nc_new_node_id = (\<lambda>x. (50, x)),
     nc_is_port_bindable = (\<lambda>p x. (True, x)), nc_node_runtime = Some ex_runtime,
     nc_disruption_observer = Some ex_observer, nc_provision_on_create = False, nc_recovery_workers = 1,
     nc_confirmations = Some ex_confirmations, nc_new_operation_id = (\<lambda>x. (60, x)), nc_sleep = Suc,
     nc_reconfigure_release_id = None, nc_reconfigure_mediamtx_binary_sha256 = None,
     nc_clock = (\<lambda>x. seconds 100), nc_disruption_workers = 1, nc_env = (\<lambda>x. ex_env)\<rparr>"

definition ex_cameras :: "nat camera_control" where
  "ex_cameras = \<lparr>cc_new_camera_id = (\<lambda>x. (70, x)), cc_new_public_id = (\<lambda>x. (''x'', x)),
     cc_management_freshness_seconds = 30, cc_ensure_automatic_capacity = None,
     cc_probe_endpoint_admission = None, cc_env = (\<lambda>x. ex_env)\<rparr>"

definition ex_world :: "node_store \<Rightarrow> nat world" where
  "ex_world s = \<lparr>w_store = s, w_slots = 1, w_ext = 0\<rparr>"

lemma ex_world_simps [simp]: "w_store (ex_world s) = s" "w_slots (ex_world s) = 1" "w_ext (ex_world s) = 0"
  by (simp_all add: ex_world_def)

lemma ex_wired: "wired ex_control ex_cameras"
  by (simp add: wired_def ex_cameras_def)

lemma ex_fresh: "fresh_ids ex_control ex_placed" "fresh_camera ex_cameras ex_placed"
  by (simp_all add: fresh_ids_def fresh_camera_def ex_control_def ex_cameras_def ex_placed_eq ex_store_def
      init_store_def ex_values)

text \<open>A store whose second node was observed running, so that it has a process that can be fenced.\<close>

definition ex_live :: node_store where
  "ex_live = run_ops [Observe ex_env 2 (ex_running (ex_node 2 8555))] ex_placed"

definition ex_live_node :: media_node where
  "ex_live_node = observed_node 100000000 (ex_running (ex_node 2 8555)) (ex_node 2 8555)"

lemma ex_live_eq: "ex_live = ex_placed\<lparr>st_nodes := [ex_count 1 (ex_node 1 8554), ex_live_node]\<rparr>"
  by (simp add: ex_live_def ex_placed_eq ex_store_def init_store_def apply_runtime_observation_def option_less_1_def
      validate_runtime_observation_def ex_running_def ex_observation_def put_node_def ex_live_node_def ex_values ex_rules)

lemma ex_live_reachable: "reachable ex_live"
  unfolding ex_live_def by (rule run_ops_reachable [OF ex_placed_reachable]) (simp add: op_fresh_def)

lemma ex_live_fresh: "fresh_ids ex_control ex_live"
  by (simp add: fresh_ids_def ex_control_def ex_live_eq ex_placed_eq ex_store_def init_store_def ex_live_node_def
      observed_node_def ex_values)

lemma ex_live_fields: "nd_id ex_live_node = 2" "nd_state ex_live_node = NS_RUNNING"
  "nd_runtime_state ex_live_node = NS_RUNNING" "nd_desired_revision ex_live_node = 1"
  "nd_registered_cameras ex_live_node = 0" "nd_external_port ex_live_node = 8555"
  "nd_release_id ex_live_node = ''v1''" "nd_applied_revision ex_live_node = 1"
  "nd_process_id ex_live_node = Some 100" "nd_process_start_ticks ex_live_node = Some 5"
  "nd_process_boot_id ex_live_node = Some 3"
  by (simp_all add: ex_live_node_def observed_node_def ex_running_def ex_observation_def ex_values)

lemma ex_live_store: "find_node 2 ex_live = Some ex_live_node" "2 \<in> set (st_lifecycle_locks ex_live)"
  "list_node_cameras 2 ex_live = Inr []" "live_node_cameras 2 ex_live = []"
  by (auto simp: ex_live_eq ex_placed_eq ex_store_def init_store_def live_node_cameras_def list_node_cameras_def
      ex_live_fields ex_values)

section \<open>A change of port, step by step\<close>

definition ex_live_details :: node_disruption_details where
  "ex_live_details = \<lparr>dd_affected_public_ids = [], dd_active_reader_public_ids = [],
     dd_blast_radius_sha256 = ex_digest, dd_reader_blast_radius_sha256 = ex_digest,
     dd_reader_observed_at = seconds 100, dd_process_id = Some 100, dd_process_start_ticks = Some 5,
     dd_process_boot_id = Some 3, dd_release_id = ''v1'', dd_runtime_state = NS_RUNNING\<rparr>"

definition ex_live_change :: node_port_change where
  "ex_live_change = \<lparr>pc_id = 60, pc_node_id = 2, pc_old_port = 8555, pc_new_port = 8600, pc_source_revision = 1,
     pc_target_revision = 2, pc_registered_cameras = 0, pc_blast_radius_sha256 = ex_digest, pc_state = PC_PREPARED\<rparr>"

lemma ex_live_camera_details:
  "node_camera_details ex_control ex_live_node \<lparr>w_store = ex_live, w_slots = k, w_ext = x\<rparr> =
   (Inr ([], ex_digest), \<lparr>w_store = ex_live, w_slots = k, w_ext = x\<rparr>)"
  by (simp add: node_camera_details_def and_then_def query_def ex_live_store ex_live_fields raise_if_def ret_def
      Let_def ex_control_def camera_placement_fingerprint_def)

lemma ex_live_validated:
  "validated_disruption_details ex_control ex_live_node [] ex_digest (le_observation ex_lease) w = (Inr ex_live_details, w)"
  by (simp add: validated_disruption_details_def disruption_observation_valid_def ex_control_def query_def the_clock_def
      and_then_def ret_def raise_if_def node_reader_blast_radius_fingerprint_def ex_live_fields ex_live_details_def
      ex_lease_def sorted_set_def Let_def seconds_def)

lemma ex_live_begin:
  "begin_port_change ex_env 60 2 8600 [8600] 1 0 ex_digest ex_live =
   Inr (ex_live_change, ex_live\<lparr>st_port_changes := [ex_live_change]\<rparr>)"
  by (simp add: begin_port_change_def ex_live_eq ex_placed_eq ex_store_def init_store_def
      ex_radius live_node_cameras_def ex_live_fields ex_live_change_def ex_values ex_rules)

lemma ex_live_complete:
  "\<exists>n s'. complete_port_change ex_env 60 (ex_running (ex_live_node\<lparr>nd_external_port := 8600, nd_desired_revision := 2\<rparr>))
     (ex_live\<lparr>st_port_changes := [ex_live_change]\<rparr>) = Inr (n, s')"
  by (simp add: complete_port_change_def ex_live_store ex_live_change_def validate_runtime_observation_def
      ex_running_def ex_observation_def ex_live_fields option_less_1_def Let_def)

lemma ex_live_drive:
  "\<exists>n s'. drive_port_change ex_control ex_live_node ex_live_change None
     \<lparr>w_store = ex_live\<lparr>st_port_changes := [ex_live_change]\<rparr>, w_slots = k, w_ext = x\<rparr> =
     (Inr n, \<lparr>w_store = s', w_slots = k, w_ext = x\<rparr>)"
proof -
  obtain n s' where "complete_port_change ex_env 60 (ex_running (ex_live_node\<lparr>nd_external_port := 8600, nd_desired_revision := 2\<rparr>))
     (ex_live\<lparr>st_port_changes := [ex_live_change]\<rparr>) = Inr (n, s')" using ex_live_complete by blast
  then show ?thesis
    by (simp add: drive_port_change_def with_runtime_def ex_control_def ex_runtime_def execute_runtime_observation_def
        external_def and_then_def attempt_def wait_for_port_release.simps(2) numeral_eq_Suc port_bindable_def ret_def
        call_def ex_live_change_def Let_def)
qed

lemma ex_live_run:
  "\<exists>n w'. change_port ex_control 2 8600 [8600] (Some ''token'') None None None (ex_world ex_live) = (Inr (Some n), w')"
proof -
  let ?w = "\<lparr>w_store = ex_live, w_slots = 0, w_ext = 0\<rparr> :: nat world"
  have fields: "resolve_disruption_observer ex_control = ret ex_observer"
    "obs_fence ex_observer = Some (\<lambda>n ids x. (Inr (Some ex_lease), x))"
    "nc_confirmations ex_control = Some ex_confirmations" "nc_env ex_control x = ex_env"
    "nc_new_operation_id ex_control x = (60, x)" "nc_is_port_bindable ex_control p x = (True, x)"
    "nc_node_runtime ex_control = Some ex_runtime" for x p
    by (simp_all add: resolve_disruption_observer_def ex_control_def ex_observer_def)
  obtain n s' where drive: "drive_port_change ex_control ex_live_node ex_live_change None
      \<lparr>w_store = ex_live\<lparr>st_port_changes := [ex_live_change]\<rparr>, w_slots = 0, w_ext = 0\<rparr> =
      (Inr n, \<lparr>w_store = s', w_slots = 0, w_ext = 0\<rparr>)"
    using ex_live_drive by blast
  have verify: "cf_verify_node_port_change ex_confirmations t claim x = (Inr True, x)" for t claim x
    by (simp add: ex_confirmations_def)
  have req: "require_node_and_runtime ex_control 2 ?w = (Inr ex_live_node, ?w)"
    using fields by (simp add: require_node_and_runtime_def get_node_call_def get_node_def query_def and_then_def
        ex_live_store ret_def)
  have "le_work_deadline_unix_ms ex_lease = None" by (simp add: ex_lease_def)
  then show ?thesis
    by (simp add: change_port_def disruption_slot_def guarded_def lifecycle_guard_def ex_live_store ex_world_def
        and_then_def req raise_some_def require_node_command_fence_def ret_def fenced_node_disruption_details_def
        ex_live_camera_details ex_live_fields fields attempt_def external_def fenced_body_def ex_live_validated
        confirmed_def verify raise_if_def port_bindable_def from_sum_def confirmed_mutation_context_def
        new_operation_id_def call_def ex_live_begin ex_live_details_def lease_deadline_def drive fence_exit_def)
      (simp add: ex_observer_def ret_def)
qed

end
