(* ===== verification/Port_Change_Control.thy ===== *)
theory Port_Change_Control
  imports Control_Machine
begin

text \<open>
  What \<^verbatim>\<open>NodeControl.change_port\<close> does to the store: nothing before the change is prepared, and after
  that exactly one of completing, aborting, recording a failure, or nothing.
\<close>

section \<open>Runs of composed actions\<close>

lemma and_then_InrE:
  assumes "and_then m f w = (Inr b, w')"
  obtains a v where "m w = (Inr a, v)" "f a v = (Inr b, w')"
  using assms by (auto simp: and_then_def split: prod.splits sum.splits)

lemma attempt_InrE:
  assumes "attempt m w = (Inr r, w')"
  obtains "m w = (r, w')"
  using assms by (auto simp: attempt_def split: prod.splits)

interpretation same: store_law "(=)"
  by unfold_locales simp

lemma same_relation: "(\<lambda>w w'. w_store w = w_store w') = same_store"
  by (auto simp: same_store_def fun_eq_iff)

lemmas same_keeps = same.external same.require same.runtime_observation same.camera_details same.observer
  same.validated same.inactive same.fence_exit same.bindable same.operation_id

lemma keeps_sameD: "keeps same_store m \<Longrightarrow> m w = (r, w') \<Longrightarrow> w_store w' = w_store w"
  unfolding keeps_def same_store_def by (metis snd_conv)

section \<open>The fence\<close>

lemma fenced_bodyE:
  assumes run: "fenced_body c ob n ids radius l body w = (Inr (Some a), w')"
  obtains d w1 w2 where "w_store w1 = w_store w" "body d l w1 = (Inr a, w2)" "w_store w' = w_store w2"
proof -
  define prep where "prep = (case l of None \<Rightarrow> fail (NodeRuntimeUnavailable ''node_disruption_fence_invalid'')
      | Some lease \<Rightarrow> validated_disruption_details c n ids radius (le_observation lease))"
  have prep: "keeps same_store (attempt prep)"
    by (auto simp: prep_def intro!: same.attempt same.fail same.validated split: option.split)
  from run obtain p v where p: "attempt prep w = (Inr p, v)"
    and rest: "(case p of Inl e \<Rightarrow> and_then (fence_exit ob l (Some e)) (\<lambda>suppressed.
          if suppressed then fail (RuntimeError ''generator didn't yield'') else fail e)
        | Inr details \<Rightarrow> and_then (attempt (body details l)) (\<lambda>result. case result of
            Inl e \<Rightarrow> and_then (fence_exit ob l (Some e)) (\<lambda>suppressed. if suppressed then ret None else fail e)
          | Inr a \<Rightarrow> and_then (fence_exit ob (map_option lease_complete l) None) (\<lambda>_. ret (Some a)))) v
        = (Inr (Some a), w')"
    unfolding fenced_body_def prep_def by (rule and_then_InrE) blast
  have v: "w_store v = w_store w" by (rule keeps_sameD [OF prep p])
  from rest obtain d where d: "p = Inr d" by (auto simp: fail_def elim!: and_then_InrE split: sum.splits if_splits)
  from rest [unfolded d, simplified] obtain r u where r: "body d l v = (r, u)"
    and fin: "(case r of Inl e \<Rightarrow> and_then (fence_exit ob l (Some e)) (\<lambda>suppressed. if suppressed then ret None else fail e)
          | Inr a \<Rightarrow> and_then (fence_exit ob (map_option lease_complete l) None) (\<lambda>_. ret (Some a))) u = (Inr (Some a), w')"
    by (auto elim!: and_then_InrE attempt_InrE)
  from fin obtain b where "r = Inr a" "fence_exit ob (map_option lease_complete l) None u = (Inr b, w')"
    by (auto simp: ret_def fail_def elim!: and_then_InrE split: sum.splits if_splits)
  with v r that show ?thesis using keeps_sameD [OF same.fence_exit] by blast
qed

lemma fencedE:
  assumes run: "fenced_node_disruption_details c n body w = (Inr (Some a), w')"
  obtains d l w1 w2 where "w_store w1 = w_store w" "body d l w1 = (Inr a, w2)" "w_store w' = w_store w2"
proof -
  from run obtain ids radius v where v: "node_camera_details c n w = (Inr (ids, radius), v)"
    and rest: "(if nd_runtime_state n \<noteq> NS_RUNNING
       then and_then (require_runtime_inactive c n) (\<lambda>_.
            and_then (inactive_disruption_details c n ids radius)
              (\<lambda>details. and_then (body details None) (\<lambda>a. ret (Some a))))
       else and_then (resolve_disruption_observer c) (\<lambda>observer.
              case obs_fence observer of
                None \<Rightarrow> fail (NodeRuntimeUnavailable ''node_disruption_fence_unavailable'')
              | Some fence \<Rightarrow>
                  and_then (attempt (external (fence n ids))) (\<lambda>entered.
                    case entered of
                      Inl e \<Rightarrow> fail (NodeRuntimeUnavailable ''node_disruption_fence_failed'')
                    | Inr lease \<Rightarrow> fenced_body c observer n ids radius lease body))) v = (Inr (Some a), w')"
    unfolding fenced_node_disruption_details_def by (rule and_then_InrE) (auto split: prod.splits)
  have sv: "w_store v = w_store w" by (rule keeps_sameD [OF same.camera_details v])
  show ?thesis
  proof (cases "nd_runtime_state n = NS_RUNNING")
    case False
    with rest obtain u d v1 v2 where "require_runtime_inactive c n v = (Inr u, v1)"
      "inactive_disruption_details c n ids radius v1 = (Inr d, v2)" "body d None v2 = (Inr a, w')"
      by (auto simp: ret_def elim!: and_then_InrE)
    then show ?thesis using that sv keeps_sameD [OF same.inactive(1)] keeps_sameD [OF same.inactive(2)] by metis
  next
    case True
    with rest obtain ob v1 fence v2 l where ob: "resolve_disruption_observer c v = (Inr ob, v1)"
      "attempt (external (fence n ids)) v1 = (Inr (Inr l), v2)"
      "fenced_body c ob n ids radius l body v2 = (Inr (Some a), w')"
      by (auto simp: fail_def elim!: and_then_InrE split: option.splits sum.splits)
    have "w_store v1 = w_store v" "w_store v2 = w_store v1"
      using keeps_sameD [OF same.observer ob(1)] keeps_sameD [OF same.attempt [OF same.external] ob(2)] by auto
    then show ?thesis using fenced_bodyE [OF ob(3)] that sv by metis
  qed
qed

section \<open>Driving a prepared change\<close>

context store_law
begin

text \<open>A call that may be caught: when it raised, it has written nothing.\<close>

lemma caught_call:
  assumes writes: "\<And>x s a s'. f x s = Inr (a, s') \<Longrightarrow> Q s s'"
    and returned: "\<And>a. keeps same_store (g (Inr a))"
    and raised: "\<And>e. keeps (\<lambda>w w'. Q (w_store w) (w_store w')) (g (Inl e))"
  shows "keeps (\<lambda>w w'. Q (w_store w) (w_store w')) (Control_Monad.and_then (Control_Monad.attempt (call f)) g)"
  unfolding keeps_def
proof
  fix w :: "'a world"
  show "Q (w_store w) (w_store (snd (Control_Monad.and_then (Control_Monad.attempt (call f)) g w)))"
  proof (cases "f (w_ext w) (w_store w)")
    case (Inl e)
    then show ?thesis using raised [of e] by (simp add: and_then_def attempt_def call_def keeps_def)
  next
    case (Inr as)
    obtain a s' where as: "as = (a, s')" by fastforce
    have "w_store (snd (g (Inr a) (w\<lparr>w_store := s'\<rparr>))) = s'"
      using returned [of a] by (simp add: keeps_def same_store_def)
    then show ?thesis using Inr as writes by (simp add: and_then_def attempt_def call_def)
  qed
qed

end

definition one_write :: "uuid \<Rightarrow> uuid \<Rightarrow> node_store \<Rightarrow> node_store \<Rightarrow> bool" where
  "one_write i j s s' \<longleftrightarrow> s' = s
     \<or> (\<exists>env ob n. complete_port_change env j ob s = Inr (n, s'))
     \<or> (\<exists>env ob n. abort_port_change env j ob s = Inr (n, s'))
     \<or> (\<exists>env ob n. apply_runtime_observation env i ob s = Inr (n, s'))"

lemma one_writeI:
  "complete_port_change env j ob s = Inr (n, s') \<Longrightarrow> one_write i j s s'"
  "abort_port_change env j ob s = Inr (n, s') \<Longrightarrow> one_write i j s s'"
  "apply_runtime_observation env i ob s = Inr (n, s') \<Longrightarrow> one_write i j s s'"
  by (auto simp: one_write_def)

interpretation one: store_law "one_write i j" for i j
  by unfold_locales (simp add: one_write_def)

lemma failure_one_write: "keeps (\<lambda>w w'. one_write i j (w_store w) (w_store w'))
    (and_then (suppress (record_failure c i r)) (\<lambda>_. fail e))"
proof -
  have "suppress (record_failure c i r) = and_then (attempt (call (\<lambda>x. apply_runtime_observation (nc_env c x) i
      (failed_observation r)))) (\<lambda>_. ret ())"
    by (simp add: suppress_def record_failure_def apply_observation_call_def)
  moreover have "keeps (\<lambda>w w'. one_write i j (w_store w) (w_store w'))
      (and_then (attempt (call (\<lambda>x. apply_runtime_observation (nc_env c x) i (failed_observation r)))) (\<lambda>_. ret ()))"
    by (rule one.caught_call) (auto intro: one_writeI same.ret one.weaken [OF same.ret])
  ultimately show ?thesis by (auto intro: one.then_after same.fail)
qed

lemma rollback_one_write:
  "keeps (\<lambda>w w'. one_write (nd_id n) (pc_id ch) (w_store w) (w_store w')) (rollback_port_change c n ch d)"
  unfolding rollback_port_change_def with_runtime_def get_node_call_def incomplete_change_ids_def
  by (auto intro!: one.weaken [OF same.fail] one.then_before [OF same.attempt [OF one.runtime_observation]]
      failure_one_write one.caught_call same.fail one.then_before [OF same.query] split: option.split sum.split)
    (erule one_writeI(2))

lemma drive_one_write:
  "keeps (\<lambda>w w'. one_write (nd_id n) (pc_id ch) (w_store w) (w_store w')) (drive_port_change c n ch d)"
proof -
  have release: "keeps same_store (wait_for_port_release c k p)" for k p
    by (induction k) (auto simp: port_bindable_def intro!: same.ret same.and_then [OF one.external])
  have "keeps (\<lambda>w w'. one_write (nd_id n) (pc_id ch) (w_store w) (w_store w')) (recover_commit c n ch d)"
    unfolding recover_commit_def get_node_call_def incomplete_change_ids_def
    by (auto intro!: one.then_before [OF same.query] one.weaken [OF same.fail] one.weaken [OF same.ret]
        rollback_one_write split: option.split)
  then have "keeps (\<lambda>w w'. one_write (nd_id n) (pc_id ch) (w_store w) (w_store w'))
      (and_then (attempt (call (\<lambda>x. complete_port_change (nc_env c x) (pc_id ch) ob)))
        (case_sum (\<lambda>e. recover_commit c n ch d) ret))" for ob
    by (intro one.caught_call) (auto intro: one_writeI same.ret)
  then show ?thesis
    unfolding drive_port_change_def with_runtime_def Let_def
    by (auto intro!: one.weaken [OF same.fail] one.then_before [OF same.attempt [OF one.runtime_observation]]
        one.then_before [OF release] rollback_one_write split: option.split sum.split)
qed

lemma rollback_raises: "fst (rollback_port_change c n ch d w) \<noteq> Inr a"
  by (auto simp: rollback_port_change_def with_runtime_def and_then_def fail_def split: option.splits sum.splits prod.splits)

lemma drive_success:
  assumes run: "drive_port_change c n ch d w = (Inr a, w')"
    and prepared: "ch \<in> set (st_port_changes (w_store w))" "pc_state ch = PC_PREPARED"
  shows "\<exists>env ob. complete_port_change env (pc_id ch) ob (w_store w) = Inr (a, w_store w')"
proof -
  have rollback: "rollback_port_change c n ch d v \<noteq> (Inr a, w')" for v using rollback_raises by (metis fst_conv)
  have release: "keeps same_store (wait_for_port_release c k p)" for k p
    by (induction k) (auto simp: port_bindable_def intro!: same.ret same.and_then [OF same.external])
  define target where "target = n\<lparr>nd_external_port := pc_new_port ch, nd_desired_revision := pc_target_revision ch\<rparr>"
  from run obtain ob v1 v2 r v3 where
    v1: "execute_runtime_observation c RA_RECONFIGURE_RESTART target d w = (Inr ob, v1)"
    and v2: "wait_for_port_release c 21 (pc_old_port ch) v1 = (Inr True, v2)"
    and v3: "call (\<lambda>x. complete_port_change (nc_env c x) (pc_id ch) ob) v2 = (r, v3)"
    and fin: "r = Inr a \<and> v3 = w' \<or> (\<exists>e. r = Inl e \<and> recover_commit c n ch d v3 = (Inr a, w'))"
    unfolding drive_port_change_def with_runtime_def Let_def target_def [symmetric]
    by (auto simp: rollback fail_def ret_def elim!: and_then_InrE attempt_InrE split: option.splits sum.splits if_splits)
  have s: "w_store v2 = w_store w"
    using keeps_sameD [OF same.runtime_observation v1] keeps_sameD [OF release v2] by simp
  show ?thesis
  proof (cases r)
    case (Inr result)
    then have "complete_port_change (nc_env c (w_ext v2)) (pc_id ch) ob (w_store w) = Inr (a, w_store w')"
      using v3 fin s by (auto simp: call_def split: sum.splits prod.splits)
    then show ?thesis by blast
  next
    case (Inl e)
    with v3 have "v3 = v2" using call_unchanged by blast
    moreover have "pc_id ch \<in> pc_id ` set (list_incomplete_port_changes (w_store v2))"
      using prepared s by (auto simp: list_incomplete_port_changes_def prepared_changes_def)
    ultimately have False
      using fin Inl
      by (auto simp: recover_commit_def get_node_call_def incomplete_change_ids_def query_def and_then_def
          committed_at_def fail_def rollback split: option.splits if_splits)
    then show ?thesis ..
  qed
qed

section \<open>The whole operation\<close>

lemma begin_prepared:
  "begin_port_change e j i p allowed k n radius s = Inr (ch, s') \<Longrightarrow>
   ch \<in> set (st_port_changes s') \<and> pc_state ch = PC_PREPARED \<and> pc_id ch = j \<and> pc_node_id ch = i
   \<and> pc_new_port ch = p \<and> p \<in> set allowed"
  by (auto simp: begin_port_change_def Let_def split: option.splits if_splits)

lemma change_port_success:
  assumes run: "change_port c i p allowed token ctx fence mc w = (Inr (Some n), w')"
  obtains x e cur ch s1 env ob k radius where "find_node i (w_store w) = Some cur"
    "begin_port_change e (fst (nc_new_operation_id c x)) i p allowed (nd_desired_revision cur) k radius (w_store w) = Inr (ch, s1)"
    "complete_port_change env (pc_id ch) ob s1 = Inr (n, w_store w')"
proof -
  have slot: "\<exists>v v'. w_store v = w_store w \<and> m v = (Inr b, v') \<and> w_store v' = w_store w'"
    if run: "disruption_slot m w = (Inr b, w')" for m and b :: "media_node option"
  proof -
    obtain v' where "m (w\<lparr>w_slots := w_slots w - 1\<rparr>) = (Inr b, v')" "w_store v' = w_store w'"
      using run by (auto simp: disruption_slot_def split: if_splits prod.splits)
    then show ?thesis by (intro exI [of _ "w\<lparr>w_slots := w_slots w - 1\<rparr>"] exI [of _ v']) simp
  qed
  define body where "body cur = (\<lambda>details lease.
     and_then (confirmed (\<lambda>cf token. external (cf_verify_node_port_change cf token
                (port_change_claim_of cur p details ctx))) c token) (\<lambda>_.
     and_then (port_bindable c p) (\<lambda>free.
     and_then (raise_if (\<not> free) (NodePortInUse ''node_port_in_use'')) (\<lambda>_.
     and_then (from_sum (confirmed_mutation_context mc ctx details)) (\<lambda>_.
     and_then (new_operation_id c) (\<lambda>change_id.
     and_then (call (\<lambda>x. begin_port_change (nc_env c x) change_id i p allowed
                (nd_desired_revision cur) (nd_registered_cameras cur) (dd_blast_radius_sha256 details))) (\<lambda>change.
       drive_port_change c cur change (lease_deadline lease))))))))" for cur
  obtain v v' where v: "w_store v = w_store w" "w_store v' = w_store w'"
    and g: "guarded i (and_then (require_node_and_runtime c i) (\<lambda>cur.
        and_then (raise_some (require_node_command_fence cur fence)) (\<lambda>_.
          fenced_node_disruption_details c cur (body cur)))) v = (Inr (Some n), v')"
    using slot [OF run [unfolded change_port_def]] unfolding body_def by blast
  obtain cur v1 u v2 where cur: "require_node_and_runtime c i v = (Inr cur, v1)"
    "raise_some (require_node_command_fence cur fence) v1 = (Inr u, v2)"
    "fenced_node_disruption_details c cur (body cur) v2 = (Inr (Some n), v')"
    using g by (auto simp: guarded_def elim!: and_then_InrE split: option.splits)
  obtain d l w1 w2 where fd: "w_store w1 = w_store v2" "body cur d l w1 = (Inr n, w2)" "w_store v' = w_store w2"
    by (rule fencedE [OF cur(3)])
  have sv: "w_store v2 = w_store w"
    using keeps_sameD [OF same.require cur(1)] keeps_sameD [OF same.raises(2) cur(2)] v(1) by simp
  obtain y1 y2 y3 y4 y5 u1 f u3 u4 j ch y6 where
    b: "confirmed (\<lambda>cf token. external (cf_verify_node_port_change cf token (port_change_claim_of cur p d ctx))) c token w1 = (Inr u1, y1)"
    "port_bindable c p y1 = (Inr f, y2)" "raise_if (\<not> f) (NodePortInUse ''node_port_in_use'') y2 = (Inr u3, y3)"
    "from_sum (confirmed_mutation_context mc ctx d) y3 = (Inr u4, y4)" "new_operation_id c y4 = (Inr j, y5)"
    "call (\<lambda>x. begin_port_change (nc_env c x) j i p allowed (nd_desired_revision cur) (nd_registered_cameras cur)
        (dd_blast_radius_sha256 d)) y5 = (Inr ch, y6)"
    "drive_port_change c cur ch (lease_deadline l) y6 = (Inr n, w2)"
    using fd(2) unfolding body_def by (elim and_then_InrE) blast
  have "w_store y5 = w_store w1"
    using keeps_sameD [OF same.confirmed [OF same.external] b(1)] keeps_sameD [OF same.bindable b(2)]
      keeps_sameD [OF same.raises(1) b(3)] keeps_sameD [OF same.raises(3) b(4)] keeps_sameD [OF same.operation_id b(5)] by simp
  then have s5: "w_store y5 = w_store w" using fd(1) sv by simp
  obtain x where j: "j = fst (nc_new_operation_id c x)" using new_operation_idD [OF b(5)] by blast
  have beg: "begin_port_change (nc_env c (w_ext y5)) j i p allowed (nd_desired_revision cur) (nd_registered_cameras cur)
      (dd_blast_radius_sha256 d) (w_store w) = Inr (ch, w_store y6)"
    using b(6) s5 by (auto simp: call_def split: sum.splits)
  then have "ch \<in> set (st_port_changes (w_store y6))" "pc_state ch = PC_PREPARED"
    using begin_prepared by blast+
  from drive_success [OF b(7) this] obtain env ob where
    "complete_port_change env (pc_id ch) ob (w_store y6) = Inr (n, w_store w')"
    using fd(3) v(2) by auto
  moreover have "find_node i (w_store w) = Some cur"
    using cur(1) v(1) by (auto simp: require_node_and_runtime_def get_node_call_def get_node_def query_def action_defs
        split: option.splits if_splits)
  ultimately show ?thesis using that beg j by blast
qed

text \<open>Any outcome of \<^verbatim>\<open>change_port\<close>: nothing, or a prepared change and at most one more write.\<close>

definition port_outcome ::
  "'x node_control \<Rightarrow> uuid \<Rightarrow> int \<Rightarrow> int list \<Rightarrow> node_store \<Rightarrow> node_store \<Rightarrow> bool" where
  "port_outcome c i p allowed s s' \<longleftrightarrow> s' = s \<or>
     (\<exists>x e k n radius ch s1. begin_port_change e (fst (nc_new_operation_id c x)) i p allowed k n radius s = Inr (ch, s1)
        \<and> one_write i (pc_id ch) s1 s')"

interpretation outcome: store_law "port_outcome c i p allowed" for c i p allowed
  by unfold_locales (simp add: port_outcome_def)

lemma prepared_outcome:
  fixes c :: "'x node_control"
  assumes j: "\<exists>x. j = fst (nc_new_operation_id c x)" and cur: "nd_id cur = i"
  shows "keeps (\<lambda>w w'. port_outcome c i p allowed (w_store w) (w_store w'))
    (and_then (call (\<lambda>x. begin_port_change (nc_env c x) j i p allowed k n radius))
      (\<lambda>change. drive_port_change c cur change d))"
  unfolding keeps_def
proof
  fix w :: "'x world"
  show "port_outcome c i p allowed (w_store w) (w_store (snd (and_then
      (call (\<lambda>x. begin_port_change (nc_env c x) j i p allowed k n radius))
      (\<lambda>change. drive_port_change c cur change d) w)))"
  proof (cases "begin_port_change (nc_env c (w_ext w)) j i p allowed k n radius (w_store w)")
    case (Inl e)
    then show ?thesis by (simp add: and_then_def call_def outcome.reflexive)
  next
    case (Inr b)
    obtain ch s1 where b: "b = (ch, s1)" by fastforce
    have "one_write i (pc_id ch) s1 (w_store (snd (drive_port_change c cur ch d (w\<lparr>w_store := s1\<rparr>))))"
      using drive_one_write [of cur ch c d, unfolded keeps_def cur, rule_format, of "w\<lparr>w_store := s1\<rparr>"] by simp
    with Inr b j show ?thesis by (auto simp: and_then_def call_def port_outcome_def)
  qed
qed

lemma change_port_outcome:
  "keeps (\<lambda>w w'. port_outcome c i p allowed (w_store w) (w_store w')) (change_port c i p allowed token ctx fence mc)"
  unfolding change_port_def
  by (rule outcome.slot_body, rule outcome.guarded_body, rule outcome.then_before_result [OF outcome.require],
      rule outcome.then_before [OF same.raises(2)], rule outcome.fenced,
      rule outcome.then_before [OF outcome.confirmed [OF outcome.external]], rule outcome.then_before [OF outcome.bindable],
      rule outcome.then_before [OF same.raises(1)], rule outcome.then_before [OF same.raises(3)],
      rule outcome.then_before_result [OF outcome.operation_id], rule prepared_outcome)
    (erule new_operation_idD, erule required_id)

end
