(* ===== verification/Control_Properties.thy ===== *)
theory Control_Properties
  imports Control_Examples Port_Change_Control
begin

text \<open>
  Properties of the control plane for every behaviour of its collaborators: runtimes that fail,
  observers that lie, confirmations that raise.
\<close>

lemma keepsD: "keeps R m \<Longrightarrow> R w (snd (m w))"
  by (simp add: keeps_def)

section \<open>The control plane and the store\<close>

text \<open>C1. The control plane refines the store machine: every operation of \<^verbatim>\<open>NodeControl\<close> and
  \<^verbatim>\<open>CameraControl\<close>, whether it returns or raises and whatever its collaborators do, takes a reachable
  store to a reachable store, so that every guarantee of the store holds of the running system. The
  id factories have to provide ids that the tables do not hold yet.\<close>

theorem plane_refines_store:
  assumes "reachable (w_store w)" and "wired c k" and "fresh_ids c (w_store w)" and "fresh_camera k (w_store w)"
  shows "reachable (w_store (snd (run_plane c k op w)))"
  using run_plane_reach [OF assms(2)] assms by (simp add: keeps_def camera_reach_def)

theorem plane_refines_store_witness:
  "reachable (w_store (snd (run_plane ex_control ex_cameras (StartNode 1 None) (ex_world ex_placed))))"
  by (rule plane_refines_store) (simp_all add: ex_placed_reachable ex_wired ex_fresh)

text \<open>The bounded semaphore of disruptive operations is never leaked: after every operation of the
  control plane, on every path and for every exception, as many slots are free as before.\<close>

theorem plane_keeps_slots:
  assumes "wired c k"
  shows "w_slots (snd (run_plane c k op w)) = w_slots w"
  using run_plane_slots [OF assms] by (simp add: keeps_def same_slots_def)

theorem plane_keeps_slots_witness:
  "w_slots (snd (run_plane ex_control ex_cameras (ChangePort 2 8600 [8600] (Some ''token'') None None None)
     (ex_world ex_placed))) = 1"
  using plane_keeps_slots [OF ex_wired, of "ChangePort 2 8600 [8600] (Some ''token'') None None None" "ex_world ex_placed"]
  by (simp del: run_plane.simps)

text \<open>Commands are isolated: an operation on one node (start, stop, restart, observe, administrative
  state, release, removal, previews, reconfiguration) leaves every other node, all cameras, all moves
  and all port changes exactly as they were, also when it raises half way.\<close>

theorem node_commands_isolated:
  assumes "op_target op = Some i" and "j \<noteq> i"
  shows "find_node j (w_store (snd (run_plane c k op w))) = find_node j (w_store w)
    \<and> st_cameras (w_store (snd (run_plane c k op w))) = st_cameras (w_store w)
    \<and> st_camera_moves (w_store (snd (run_plane c k op w))) = st_camera_moves (w_store w)
    \<and> st_port_changes (w_store (snd (run_plane c k op w))) = st_port_changes (w_store w)"
  using keepsD [OF run_plane_others [OF assms(1), of c k], of w] assms(2) by (simp add: others_kept_def)

theorem node_commands_isolated_witness:
  "find_node 1 (w_store (snd (run_plane ex_control ex_cameras (StopNode 2 None) (ex_world ex_placed)))) = find_node 1 ex_placed"
  using node_commands_isolated [of "StopNode 2 None" 2 1 ex_control ex_cameras "ex_world ex_placed"]
  by (simp add: op_target_def)

section \<open>Confirmation\<close>

text \<open>
  The token of a disruptive operation is not accepted for the change of this node to this port, or for the
  reconfiguration of this node, in this confirmation context.
\<close>

definition unconfirmed ::
  "'x node_control \<Rightarrow> uuid \<Rightarrow> int \<Rightarrow> node_disruption_confirmation_context option \<Rightarrow> string option \<Rightarrow> bool" where
  "unconfirmed c i p ctx token \<longleftrightarrow> (case (nc_confirmations c, token) of
     (Some cf, Some t) \<Rightarrow> \<forall>claim x. pk_node_id claim = i \<and> pk_new_port claim = p \<and> pk_confirmation_context claim = ctx
        \<longrightarrow> fst (cf_verify_node_port_change cf t claim x) \<noteq> Inr True
   | _ \<Rightarrow> True)"

definition unconfirmed_reconfigure ::
  "'x node_control \<Rightarrow> uuid \<Rightarrow> node_disruption_confirmation_context option \<Rightarrow> string option \<Rightarrow> bool" where
  "unconfirmed_reconfigure c i ctx token \<longleftrightarrow> (case (nc_confirmations c, token) of
     (Some cf, Some t) \<Rightarrow> \<forall>claim x. rk_node_id claim = i \<and> rk_confirmation_context claim = ctx
        \<longrightarrow> fst (cf_verify_node_reconfigure cf t claim x) \<noteq> Inr True
   | _ \<Rightarrow> True)"

lemma confirmed_never:
  assumes "case (nc_confirmations c, token) of (Some cf, Some t) \<Rightarrow> \<forall>x. fst (v cf t x) \<noteq> Inr True | _ \<Rightarrow> True"
  shows "confirmed (\<lambda>cf t. external (v cf t)) c token w \<noteq> (Inr u, w')"
  using assms
  by (auto simp: confirmed_def and_then_def external_def raise_if_def fail_def ret_def
      split: option.splits prod.splits sum.splits if_splits) (metis fst_conv)+

lemma unconfirmed_same:
  "unconfirmed c i p ctx token \<Longrightarrow> keeps same_store (change_port c i p allowed token ctx fence mc)"
  unfolding change_port_def
  by (rule same.slot_body [unfolded same_relation], rule same.guarded_body [unfolded same_relation],
      rule same.and_then_result [OF same.require], drule required_id, rule same.and_then [OF same.raises(2)],
      rule same.fenced [unfolded same_relation], rule same.and_then_result [OF same.confirmed [OF same.external]],
      erule confirmed_never [THEN notE, rotated])
    (auto simp: unconfirmed_def port_change_claim_of_def split: option.splits)

lemma unconfirmed_reconfigure_same:
  "unconfirmed_reconfigure c i ctx token \<Longrightarrow> keeps same_store (reconfigure_node c i token ctx fence mc)"
  unfolding reconfigure_node_def
  by (rule same.slot_body [unfolded same_relation], rule same.guarded_body [unfolded same_relation],
      rule same.and_then_result [OF same.require], drule required_id, rule same.and_then [OF same.raises(2)],
      rule same.fenced [unfolded same_relation], rule same.and_then_result [OF same.confirmed [OF same.external]],
      erule confirmed_never [THEN notE, rotated])
    (auto simp: unconfirmed_reconfigure_def reconfigure_claim_of_def split: option.splits)

text \<open>C9. Nothing disruptive happens without confirmation: without a token, without a confirmation
  service, or when the service does not accept the token for this node, this port and this
  operator's context, a change of port and a reconfiguration leave the store untouched.\<close>

theorem unconfirmed_no_effect:
  assumes "unconfirmed c i p ctx token" and "unconfirmed_reconfigure c i ctx token"
  shows "w_store (snd (change_port c i p allowed token ctx fence mc w)) = w_store w
    \<and> w_store (snd (reconfigure_node c i token ctx fence mc w)) = w_store w"
  using keepsD [OF unconfirmed_same [OF assms(1)]] keepsD [OF unconfirmed_reconfigure_same [OF assms(2)]]
  by (simp add: same_store_def)

theorem unconfirmed_no_effect_witness:
  "w_store (snd (change_port ex_control 2 8600 [8600] None None None None (ex_world ex_placed))) = ex_placed"
  using unconfirmed_no_effect [of ex_control 2 8600 None None]
  by (simp add: unconfirmed_def unconfirmed_reconfigure_def split: option.split)

section \<open>Changes of port\<close>

lemma resolved_find:
  "resolved ch old n st s s' \<Longrightarrow> find_node j s' = (if j = nd_id old then Some n else find_node j s)"
  by (auto simp: resolved_def find_by_replace_first)

lemma begun_store:
  assumes "reachable s" and "fresh_ids c s"
    and run: "begin_port_change e (fst (nc_new_operation_id c x)) i p allowed k m radius s = Inr (ch, s1)"
  shows "reachable s1" "s1 = s\<lparr>st_port_changes := st_port_changes s @ [ch]\<rparr>" "find_change (pc_id ch) s1 = Some ch"
proof -
  show r: "reachable s1"
    by (rule reachable_run [OF assms(1), of "BeginPort e (fst (nc_new_operation_id c x)) i p allowed k m radius"])
      (use assms(2) run in \<open>auto simp: op_fresh_def fresh_ids_def written_def\<close>)
  show "s1 = s\<lparr>st_port_changes := st_port_changes s @ [ch]\<rparr>"
    using begin_port_changeE [OF store_machine.always [OF assms(1)] run] by blast
  show "find_change (pc_id ch) s1 = Some ch"
    using begin_prepared [OF run] inv_distinct(4) [OF store_machine.always [OF r]] by (blast intro: find_by_distinct)
qed

lemma completed_change:
  assumes "reachable s1" and ch: "find_change j s1 = Some ch" "pc_state ch = PC_PREPARED"
    and run: "complete_port_change env j ob s1 = Inr (n, s')"
  obtains old where "resolved ch old n PC_COMPLETE s1 s'" "nd_external_port n = pc_new_port ch" "nd_id old = pc_node_id ch"
proof -
  have "st_port_changes s' = replace_first ch (ch\<lparr>pc_state := PC_COMPLETE\<rparr>) (st_port_changes s1)"
    using run ch by (auto simp: complete_port_change_def Let_def split: option.splits if_splits)
  moreover have "pc_id ch = j" using ch(1) by (auto dest: find_by_SomeD)
  ultimately have "find_change j s' = Some (ch\<lparr>pc_state := PC_COMPLETE\<rparr>)"
    using ch(1) by (simp add: find_by_replace_first)
  moreover have "pc_state (ch\<lparr>pc_state := PC_COMPLETE\<rparr>) \<noteq> pc_state ch" by (simp add: ch(2))
  ultimately have "s' \<noteq> s1" using ch(1) by (metis option.inject)
  from complete_port_change_resolved [OF store_machine.always [OF assms(1)] run this] ch(1)
  obtain old where "resolved ch old n PC_COMPLETE s1 s'" "nd_external_port n = pc_new_port ch"
    by (auto simp: resolved_def)
  then show ?thesis using that by (auto simp: resolved_def)
qed

lemma outcome_ports:
  assumes "reachable s" and "fresh_ids c s" and "port_outcome c i p allowed s s'"
  shows "port_of s' i \<in> {port_of s i, Some p}" "j \<noteq> i \<Longrightarrow> port_of s' j = port_of s j"
proof -
  have "port_of s' i \<in> {port_of s i, Some p} \<and> (j \<noteq> i \<longrightarrow> port_of s' j = port_of s j)" if diff: "s' \<noteq> s"
  proof -
    obtain x e k m radius ch s1 where b: "begin_port_change e (fst (nc_new_operation_id c x)) i p allowed k m radius s = Inr (ch, s1)"
      and one: "one_write i (pc_id ch) s1 s'"
      using assms(3) diff by (auto simp: port_outcome_def)
    note s1 = begun_store [OF assms(1,2) b]
    note pc = begin_prepared [OF b]
    have ports: "port_of s1 = port_of s" by (simp add: s1(2) port_of_def fun_eq_iff)
    from one consider "s' = s1" | env ob n where "complete_port_change env (pc_id ch) ob s1 = Inr (n, s')"
      | env ob n where "abort_port_change env (pc_id ch) ob s1 = Inr (n, s')" "s' \<noteq> s1"
      | env ob n where "apply_runtime_observation env i ob s1 = Inr (n, s')"
      unfolding one_write_def by blast
    then show ?thesis
    proof cases
      case 2
      from completed_change [OF s1(1,3) _ this] pc obtain old where
        "resolved ch old n PC_COMPLETE s1 s'" "nd_external_port n = p" "nd_id old = i" by metis
      then show ?thesis using resolved_find ports [THEN fun_cong, of j] by (auto simp: port_of_def)
    next
      case 3
      from abort_port_change_resolved [OF store_machine.always [OF s1(1)] this] obtain ch' old where
        r: "resolved ch' old n PC_ABORTED s1 s'" and "nd_external_port n = nd_external_port old" by blast
      then have "port_of s' = port_of s1" using resolved_find [OF r] by (auto simp: port_of_def fun_eq_iff resolved_def)
      then show ?thesis by (simp add: ports)
    next
      case 4
      then have "port_of s' = port_of s1" using observation_cmd.ports_kept by (auto simp: fun_eq_iff)
      then show ?thesis by (simp add: ports)
    qed (simp add: ports)
  qed
  then show "port_of s' i \<in> {port_of s i, Some p}" "j \<noteq> i \<Longrightarrow> port_of s' j = port_of s j" by auto
qed

text \<open>C7. A change of port ends in one of two places: whatever fails on the way (the runtime, the probes,
  the commit, the rollback, the fence), the node listens afterwards on its old port or on the new one,
  and no other node's port has changed.\<close>

theorem change_port_old_or_new:
  assumes "reachable (w_store w)" and "fresh_ids c (w_store w)"
  shows "port_of (w_store (snd (change_port c i p allowed token ctx fence mc w))) j \<in>
    (if j = i then {port_of (w_store w) i, Some p} else {port_of (w_store w) j})"
  using outcome_ports [OF assms keepsD [OF change_port_outcome]] by auto

theorem change_port_old_or_new_witness:
  "port_of (w_store (snd (change_port ex_control 2 8600 [8600] (Some ''token'') None None None (ex_world ex_placed)))) 2
   \<in> {Some 8555, Some 8600}"
  using change_port_old_or_new [of "ex_world ex_placed" ex_control 2 8600 "[8600]" "Some ''token''" None None None 2]
    ex_placed_reachable ex_fresh(1)
  by (simp add: port_of_def ex_placed_eq ex_values)

text \<open>C8. A change of port that returns a node has committed: the returned node is the stored one, it
  listens on the requested port, which was allowed and is not the old one, and every camera of the
  node that is not deleted has been repointed.\<close>

theorem change_port_commits:
  assumes "reachable (w_store w)" and "fresh_ids c (w_store w)"
    and run: "change_port c i p allowed token ctx fence mc w = (Inr (Some n), w')"
  shows "find_node i (w_store w') = Some n \<and> nd_external_port n = p \<and> p \<in> set allowed
    \<and> port_of (w_store w) i \<noteq> Some p
    \<and> (\<forall>cam \<in> set (st_cameras (w_store w')). cp_node_id cam = i \<longrightarrow> cp_state cam \<noteq> CS_DELETED \<longrightarrow> cp_node_port cam = p)
    \<and> length (st_cameras (w_store w')) = length (st_cameras (w_store w))"
proof -
  obtain x e cur ch s1 env ob k radius where cur: "find_node i (w_store w) = Some cur"
    and b: "begin_port_change e (fst (nc_new_operation_id c x)) i p allowed (nd_desired_revision cur) k radius (w_store w) = Inr (ch, s1)"
    and fin: "complete_port_change env (pc_id ch) ob s1 = Inr (n, w_store w')"
    by (rule change_port_success [OF run])
  note s1 = begun_store [OF assms(1,2) b]
  note pc = begin_prepared [OF b]
  obtain old where r: "resolved ch old n PC_COMPLETE s1 (w_store w')" "nd_external_port n = p" "nd_id old = i"
    using completed_change [OF s1(1,3) _ fin] pc by metis
  have "nd_external_port cur \<noteq> p"
    using begin_port_changeE [OF store_machine.always [OF assms(1)] b] cur by auto
  moreover have "cp_node_port cam = p" if "cam \<in> set (st_cameras (w_store w'))" "cp_node_id cam = i" "cp_state cam \<noteq> CS_DELETED" for cam
    using r that by (auto simp: resolved_def repoint_cameras_def split: if_splits)
  moreover have "length (st_cameras (w_store w')) = length (st_cameras (w_store w))"
    using r(1) s1(2) by (simp add: resolved_def repoint_cameras_def)
  ultimately show ?thesis
    using resolved_find [OF r(1), of i] r(2,3) pc cur by (simp add: port_of_def)
qed

theorem change_port_commits_witness:
  "\<exists>n w'. change_port ex_control 2 8600 [8600] (Some ''token'') None None None (ex_world ex_live) = (Inr (Some n), w')
     \<and> find_node 2 (w_store w') = Some n \<and> nd_external_port n = 8600"
proof -
  obtain n w' where run: "change_port ex_control 2 8600 [8600] (Some ''token'') None None None (ex_world ex_live) = (Inr (Some n), w')"
    using ex_live_run by blast
  show ?thesis using change_port_commits [OF _ _ run] ex_live_reachable ex_live_fresh run by auto
qed

section \<open>The runtime\<close>

text \<open>A runtime failure is never silent: when the runtime raises, the operation raises
  \<^verbatim>\<open>NodeRuntimeFailed\<close> for that node, and the stored node is failed, unhealthy and not fresh, so that it
  receives no camera until it is observed again.\<close>

theorem runtime_failure_recorded:
  assumes "reachable (w_store w)" and n: "find_node i (w_store w) = Some n"
    and rt: "nc_node_runtime c = Some rt" "rt_execute rt action n (w_ext w) = (Inl e, x')"
  shows "\<exists>w' n'. execute_runtime c n action None w = (Inl (NodeRuntimeFailed ''node_runtime_operation_failed'' i), w')
    \<and> find_node i (w_store w') = Some n' \<and> nd_runtime_state n' = NS_FAILED \<and> nd_health n' = NH_UNHEALTHY
    \<and> \<not> nd_management_fresh n' \<and> nd_state n' = nd_state n \<and> nd_external_port n' = nd_external_port n
    \<and> (\<forall>freshness now. \<not> is_node_eligible n' freshness now)"
proof -
  have i: "nd_id n = i" using find_node_key [OF n] .
  have ok: "revision_ok n"
    using inv_node_ok [OF store_machine.always [OF assms(1)] n] by (simp add: node_ok_def)
  let ?ob = "failed_observation (nd_applied_revision n)"
  let ?u = "observed_node (env_utc_now (nc_env c x')) ?ob n"
  have v: "validate_runtime_observation n ?ob = None"
    using ok by (simp add: validate_runtime_observation_def failed_observation_def revision_ok_def Let_def)
  have "execute_runtime c n action None w =
      (Inl (NodeRuntimeFailed ''node_runtime_operation_failed'' i), w\<lparr>w_ext := x', w_store := put_node n ?u (w_store w)\<rparr>)"
    using rt n v
    by (simp add: execute_runtime_def with_runtime_def execute_runtime_observation_def external_def attempt_def
        and_then_def record_failure_def apply_observation_call_def call_def apply_runtime_observation_def fail_def i Let_def)
  moreover have "find_node i (put_node n ?u (w_store w)) = Some ?u"
    using put_node_find [of n "w_store w" ?u i] n i by (simp add: observed_node_def)
  moreover have "\<not> is_node_eligible ?u freshness now" for freshness now
    by (simp add: is_node_eligible_def observed_node_def failed_observation_def)
  ultimately show ?thesis
    by (auto simp: observed_node_def failed_observation_def)
qed

theorem runtime_failure_recorded_witness:
  "\<exists>w' n'. execute_runtime (ex_control\<lparr>nc_node_runtime := Some ex_broken\<rparr>) ex_live_node RA_RESTART None (ex_world ex_live) =
      (Inl (NodeRuntimeFailed ''node_runtime_operation_failed'' 2), w')
    \<and> find_node 2 (w_store w') = Some n' \<and> nd_runtime_state n' = NS_FAILED"
  using runtime_failure_recorded [of "ex_world ex_live" 2 ex_live_node "ex_control\<lparr>nc_node_runtime := Some ex_broken\<rparr>"
      ex_broken RA_RESTART "RuntimeError ''down''" 0]
  by (auto simp: ex_live_reachable ex_live_store ex_broken_def)

text \<open>The state of the outside world before the \<^verbatim>\<open>k\<close>-th probe, when all earlier probes found the port taken.\<close>

definition before_probe :: "'x node_control \<Rightarrow> int \<Rightarrow> nat \<Rightarrow> 'x \<Rightarrow> 'x" where
  "before_probe c port k x = ((\<lambda>y. nc_sleep c (snd (nc_is_port_bindable c port y))) ^^ k) x"

lemma wait_probes:
  "fst (wait_for_port_release c (Suc k) port w) = Inr (\<exists>j \<le> k. fst (nc_is_port_bindable c port (before_probe c port j (w_ext w))))"
proof (induction k arbitrary: w)
  case 0
  then show ?case
    by (cases "nc_is_port_bindable c port (w_ext w)")
      (auto simp: before_probe_def port_bindable_def external_def and_then_def ret_def)
next
  case (Suc k)
  obtain b y where p: "nc_is_port_bindable c port (w_ext w) = (b, y)" by fastforce
  have shift: "before_probe c port (Suc j) (w_ext w) = before_probe c port j (nc_sleep c y)" for j
    using funpow_Suc_right [of j "\<lambda>y. nc_sleep c (snd (nc_is_port_bindable c port y))"]
    by (simp add: before_probe_def p del: funpow.simps)
  have split: "(\<exists>j \<le> Suc k. P j) \<longleftrightarrow> P 0 \<or> (\<exists>j \<le> k. P (Suc j))" for P :: "nat \<Rightarrow> bool"
    by (metis Suc_le_mono le0 not0_implies_Suc)
  have step: "wait_for_port_release c (Suc (Suc k)) port w =
      (if b then (Inr True, w\<lparr>w_ext := y\<rparr>) else wait_for_port_release c (Suc k) port (w\<lparr>w_ext := nc_sleep c y\<rparr>))"
    by (subst wait_for_port_release.simps(2))
      (simp add: p port_bindable_def external_def and_then_def ret_def del: wait_for_port_release.simps)
  have "before_probe c port 0 (w_ext w) = w_ext w" by (simp add: before_probe_def)
  then show ?case
    using Suc.IH [of "w\<lparr>w_ext := nc_sleep c y\<rparr>"] p
    by (simp add: split shift step del: wait_for_port_release.simps)
qed

text \<open>The wait for the old port is bounded and exact: it ends after at most 21 probes, and it reports
  the port as released exactly when one of those 21 probes, each after a sleep, finds it bindable.\<close>

theorem wait_for_port_release_exact:
  "fst (wait_for_port_release c 21 port w) =
   Inr (\<exists>k < 21. fst (nc_is_port_bindable c port (before_probe c port k (w_ext w))))"
  using wait_probes [of c 20 port w] by (simp add: less_Suc_eq_le [symmetric] eval_nat_numeral del: wait_for_port_release.simps)

end
