(* ===== verification/Credential_Roundtrip.thy ===== *)
theory Credential_Roundtrip
  imports Camera_Secrets Node_Rules
begin

text \<open>
  Credentials survive the journey through the source URL: splitting a URL they were attached to gives
  them back, together with the URL without them.
\<close>

section \<open>Text\<close>

lemma text_decode_3:
  assumes "h < 16" "c < 64" "d < 64" "h = 0 \<longrightarrow> 32 \<le> c" "h = 13 \<longrightarrow> c < 32"
  shows "text_decode ((0xE0 + h) # (0x80 + c) # (0x80 + d) # bs) = (h * 4096 + c * 64 + d) # text_decode bs"
  using assms by (auto simp: is_continuation_def second_ok_def)

lemma text_decode_4:
  assumes "h \<le> 4" "c < 64" "d < 64" "e < 64" "h = 0 \<longrightarrow> 16 \<le> c" "h = 4 \<longrightarrow> c < 16"
  shows "text_decode ((0xF0 + h) # (0x80 + c) # (0x80 + d) # (0x80 + e) # bs) =
    (h * 262144 + c * 4096 + d * 64 + e) # text_decode bs"
  using assms by (auto simp: is_continuation_def second_ok_def)

lemma mod_window:
  assumes "k * 64 \<le> a" "a < k * 64 + v" "v \<le> 64"
  shows "(a :: nat) mod 64 < v"
proof -
  obtain m where "a = m + k * 64" using assms(1) by (metis le_Suc_ex add.commute)
  then show ?thesis using assms by simp
qed

lemma text_decode_point:
  assumes "is_encodable n"
  shows "text_decode (utf8_point n @ bs) = n # text_decode bs"
proof -
  consider "n < 0x80" | "0x80 \<le> n" "n < 0x800" | "0x800 \<le> n" "n < 0x10000" | "0x10000 \<le> n" "n < 0x110000"
    using assms unfolding is_encodable_def by linarith
  then show ?thesis
  proof cases
    case 1
    then show ?thesis by (simp add: utf8_point_def)
  next
    case 2
    then have "2 \<le> n div 64" "n div 64 < 32" by auto
    with 2 show ?thesis by (simp add: utf8_point_def is_continuation_def) 
  next
    case 3
    then have hi: "n div 4096 < 16" by auto
    have e0: "32 \<le> n div 64 mod 64" if "n div 4096 = 0" using that 3 by (auto simp: mod_less) 
    have ed: "n div 64 mod 64 < 32" if "n div 4096 = 13"
    proof -
      have "n < 0xD800 \<or> 0xDFFF < n" using assms by (auto simp: is_encodable_def)
      moreover have "53248 \<le> n" "n < 57344" using that by linarith+
      ultimately have "n < 55296" by simp
      then have "832 \<le> n div 64" "n div 64 < 864" using \<open>53248 \<le> n\<close> by auto
      then show ?thesis using mod_window [of 13 "n div 64" 32] by simp
    qed
    have eq: "n div 4096 * 4096 + n div 64 mod 64 * 64 + n mod 64 = n"
      using div_mult_mod_eq [of n 64] div_mult_mod_eq [of "n div 64" 64] div_mult2_eq [of n 64 64, simplified] by linarith
    have point: "utf8_point n = [0xE0 + n div 4096, 0x80 + n div 64 mod 64, 0x80 + n mod 64]"
      using 3 by (simp add: utf8_point_def)
    show ?thesis
      unfolding point append.simps
      by (subst text_decode_3) (use hi e0 ed eq in auto)
  next
    case 4
    then have hi: "n div 262144 \<le> 4" by auto
    have f0: "16 \<le> n div 4096 mod 64" if "n div 262144 = 0" using that 4 by auto
    have f4: "n div 4096 mod 64 < 16" if "n div 262144 = 4"
    proof -
      have "1048576 \<le> n" using that by linarith
      then have "256 \<le> n div 4096" "n div 4096 < 272" using 4 by auto
      then show ?thesis using mod_window [of 4 "n div 4096" 16] by simp
    qed
    have eq: "n div 262144 * 262144 + n div 4096 mod 64 * 4096 + n div 64 mod 64 * 64 + n mod 64 = n"
      using div_mult_mod_eq [of n 64] div_mult_mod_eq [of "n div 64" 64] div_mult2_eq [of n 64 64, simplified]
        div_mult_mod_eq [of "n div 4096" 64] div_mult2_eq [of n 4096 64, simplified] by linarith
    have point: "utf8_point n =
        [0xF0 + n div 262144, 0x80 + n div 4096 mod 64, 0x80 + n div 64 mod 64, 0x80 + n mod 64]"
      using 4 by (simp add: utf8_point_def)
    show ?thesis
      unfolding point append.simps
      by (subst text_decode_4) (use hi f0 f4 eq in auto)
  qed
qed

lemma text_decode_encode: "text_encode s = Some bs \<Longrightarrow> text_decode bs = s"
proof -
  have "list_all is_encodable s \<Longrightarrow> text_decode (concat (map utf8_point s)) = s" for s
    by (induction s) (simp_all add: text_decode_point del: text_decode.simps(2))
  then show "text_encode s = Some bs \<Longrightarrow> text_decode bs = s"
    by (auto simp: text_encode_def split: if_splits)
qed

lemma text_encode_bytes: "text_encode s = Some bs \<Longrightarrow> b \<in> set bs \<Longrightarrow> b < 256"
proof -
  have "b < 256" if "is_encodable n" "b \<in> set (utf8_point n)" for n b
  proof -
    have "n div 262144 \<le> 4" using that(1) by (auto simp: is_encodable_def)
    then show ?thesis using that(2) by (auto simp: utf8_point_def split: if_splits)
  qed
  then show "text_encode s = Some bs \<Longrightarrow> b \<in> set bs \<Longrightarrow> b < 256"
    by (fastforce simp: text_encode_def list_all_iff split: if_splits)
qed

section \<open>Percent encoding\<close>

lemma hex_value_upper: "d < 16 \<Longrightarrow> hex_digit_value (upper_hex_digit d) = Some d"
  by (auto simp: hex_digit_value_def upper_hex_digit_def code_def)

lemma unquote_plain: "c \<noteq> CHR ''%'' \<Longrightarrow> unquote_to_bytes (c # s) = code c # unquote_to_bytes s"
  by (cases s rule: unquote_to_bytes.cases) auto

lemma is_unreserved_percent: "\<not> is_unreserved 37"
  by (simp add: is_unreserved_def)

lemma unquote_quote_byte:
  assumes "b < 256"
  shows "unquote_to_bytes (quote_byte b @ s) = b # unquote_to_bytes s"
proof (cases "is_unreserved b")
  case True
  moreover have "code (char_of b) = b" using assms by (simp add: code_def)
  moreover have "code CHR ''%'' = 37" by (simp add: code_def)
  ultimately have "char_of b \<noteq> CHR ''%''" by (metis (no_types) is_unreserved_percent)
  then show ?thesis using True assms by (simp add: quote_byte_def unquote_plain code_def)
next
  case False
  moreover have "b div 16 < 16" using assms by auto
  ultimately show ?thesis by (simp add: quote_byte_def hex_value_upper)
qed

lemma unquote_ascii:
  assumes "list_all (\<lambda>c. code c < 128) s"
  shows "unquote_text s = text_decode (unquote_to_bytes s)"
proof -
  have "CHR ''%'' \<notin> set s \<Longrightarrow> unquote_to_bytes s = map code s" by (induction s) (auto simp: unquote_plain)
  moreover have "list_all (\<lambda>b. b < 128) bs \<Longrightarrow> text_decode bs = bs" for bs by (induction bs) auto
  moreover have "list_all (\<lambda>c. code c < 128) t \<Longrightarrow> unquote_from run t = text_decode (unquote_to_bytes (run @ t))"
    for t run by (induction t arbitrary: run) auto
  ultimately show ?thesis using assms by (auto simp: unquote_text_def list_all_iff)
qed

definition url_safe :: "char \<Rightarrow> bool" where
  "url_safe c \<longleftrightarrow> is_unreserved (code c) \<or> c = CHR ''%''"

lemma quote_chars:
  assumes "quote_text s = Some q"
  shows "list_all url_safe q"
proof -
  have up: "url_safe (upper_hex_digit d)" if "d < 16" for d
    using that by (auto simp: url_safe_def upper_hex_digit_def is_unreserved_def code_def)
  have "list_all url_safe (quote_byte b)" if "b < 256" for b
  proof -
    have "b div 16 < 16" using that by auto
    moreover have "url_safe (char_of b)" if "is_unreserved b" using that \<open>b < 256\<close> by (simp add: url_safe_def code_def)
    moreover have "url_safe CHR ''%''" by (simp add: url_safe_def)
    ultimately show ?thesis by (simp add: quote_byte_def up)
  qed
  note byte = this
  obtain bs where bs: "text_encode s = Some bs" and q: "q = concat (map quote_byte bs)"
    using assms by (auto simp: quote_text_def)
  have "list_all (\<lambda>b. b < 256) bs \<Longrightarrow> list_all url_safe (concat (map quote_byte bs))" for bs
    by (induction bs) (auto simp: byte)
  then show ?thesis unfolding q using text_encode_bytes [OF bs] by (simp only: list_all_iff) blast
qed

lemma url_safe_ascii: "url_safe c \<Longrightarrow> code c < 128 \<and> 32 < code c \<and> c \<notin> set ''/?#[]@:''"
  by (auto simp: url_safe_def is_unreserved_def code_def)

lemma unquote_quote:
  assumes "quote_text s = Some q"
  shows "unquote_text q = s"
proof -
  obtain bs where bs: "text_encode s = Some bs" and q: "q = concat (map quote_byte bs)"
    using assms by (auto simp: quote_text_def)
  have "list_all (\<lambda>b. b < 256) bs \<Longrightarrow> unquote_to_bytes (concat (map quote_byte bs)) = bs" for bs
    by (induction bs) (auto simp: unquote_quote_byte)
  then have "unquote_to_bytes q = bs" using text_encode_bytes [OF bs] by (simp add: q list_all_iff)
  moreover have "list_all (\<lambda>c. code c < 128) q"
    using quote_chars [OF assms] url_safe_ascii by (auto simp: list_all_iff)
  ultimately show ?thesis using text_decode_encode [OF bs] by (simp add: unquote_ascii)
qed

section \<open>Case of an address literal\<close>

text \<open>The attribute \<^verbatim>\<open>hostname\<close> is lower case, and a literal means the same address in lower case.\<close>

lemma lower_char_code: "code (lower_char c) = (if (65 \<le> code c \<and> code c \<le> 90)
    \<or> (192 \<le> code c \<and> code c \<le> 222 \<and> code c \<noteq> 215) then code c + 32 else code c)"
  by (auto simp: lower_char_def code_def)

lemma lower_char_idem [simp]: "lower_char (lower_char c) = lower_char c"
  by (subst (1) lower_char_def) (auto simp: lower_char_code)

lemma lower_char_hex [simp]: "hex_digit_value (lower_char c) = hex_digit_value c"
  by (auto simp: hex_digit_value_def lower_char_code)

lemma lower_char_digit [simp]: "is_digit_char (lower_char c) = is_digit_char c"
  by (auto simp: is_digit_char_def lower_char_code)

definition caseless :: "char \<Rightarrow> bool" where
  "caseless c \<longleftrightarrow> code c < 65 \<or> (91 \<le> code c \<and> code c \<le> 96)"

lemma lower_char_caseless: "caseless d \<Longrightarrow> lower_char c = d \<longleftrightarrow> c = d"
  by (auto simp: caseless_def lower_char_code code_inj [symmetric] split: if_splits)

lemma lower_caseless_mem: "caseless d \<Longrightarrow> d \<in> set (lower s) \<longleftrightarrow> d \<in> set s"
  by (induction s) (auto simp: lower_def lower_char_caseless eq_commute [of d])

lemma split_char_lower: "caseless c \<Longrightarrow> split_char c (lower s) = map lower (split_char c s)"
  by (induction s) (auto simp: lower_def lower_char_caseless split: list.split)

lemma partition_char_lower:
  "caseless c \<Longrightarrow> partition_char c (lower s) = (case partition_char c s of (a, f, b) \<Rightarrow> (lower a, f, lower b))"
  by (induction s) (auto simp: lower_def lower_char_caseless split: prod.split)

lemma parse_hextet_lower [simp]: "parse_hextet (lower s) = parse_hextet s"
  by (simp add: parse_hextet_def lower_def comp_def)

lemma lower_digits: "list_all is_digit_char s \<Longrightarrow> lower s = s"
  by (induction s) (auto simp: lower_def lower_char_def is_digit_char_def)

lemma parse_octet_lower [simp]: "parse_octet (lower s) = parse_octet s"
proof (cases "list_all is_digit_char s")
  case False
  moreover have "list_all is_digit_char (lower s) = list_all is_digit_char s"
    by (simp add: lower_def list_all_iff)
  ultimately show ?thesis by (simp add: parse_octet_def)
qed (simp add: lower_digits)

lemma caseless_delims [simp]: "caseless CHR ''.''" "caseless CHR '':''" "caseless CHR ''/''" "caseless CHR ''%''"
  "caseless CHR ''?''" "caseless CHR ''#''" "caseless CHR ''@''" "caseless CHR ''[''" "caseless CHR '']''" "caseless CHR 0x0A" "caseless CHR 0x09" "caseless CHR 0x0D"
  by (simp_all add: caseless_def code_def)

lemma lower_Nil [simp]: "lower s = [] \<longleftrightarrow> s = []" "[] = lower s \<longleftrightarrow> s = []" "lower [] = []"
  by (auto simp: lower_def)

lemma parse_ipv4_lower [simp]: "parse_ipv4 (lower s) = parse_ipv4 s"
  by (simp add: parse_ipv4_def split_char_lower lower_caseless_mem comp_def)

lemma parse_hextets_lower [simp]: "parse_hextets (map lower ps) = parse_hextets ps"
proof -
  have i: "inner_empty (map lower ps) = inner_empty ps"
    unfolding inner_empty_def by (rule filter_cong) auto
  have e: "hd (map lower ps) = [] \<longleftrightarrow> hd ps = []" "last (map lower ps) = [] \<longleftrightarrow> last ps = []"
    if "ps \<noteq> []" using that by (simp_all add: hd_map last_map)
  have m: "map parse_hextet (take k (map lower ps)) = map parse_hextet (take k ps)"
    "map parse_hextet (drop k (map lower ps)) = map parse_hextet (drop k ps)"
    "map parse_hextet (map lower ps) = map parse_hextet ps" for k
    by (simp_all add: take_map drop_map comp_def)
  show ?thesis
  proof (cases "ps = []")
    case False
    show ?thesis unfolding parse_hextets_def length_map i m e [OF False] ..
  qed simp
qed

lemma expand_dotted_lower:
  assumes "ps \<noteq> []"
  shows "expand_dotted_suffix (map lower ps) = map_option (map lower) (expand_dotted_suffix ps)"
proof -
  have "lower (digits_of 16 n) = digits_of 16 n" for n
  proof -
    have "lower_char c = c" if "c \<in> set (digits_of 16 n)" for c
      using digits_of_chars [OF _ _ that] by (auto simp: lower_char_def digit_char_code)
    then show ?thesis by (simp add: lower_def map_idI)
  qed
  then show ?thesis
    using assms by (auto simp: expand_dotted_suffix_def last_map lower_caseless_mem map_butlast split: option.split)
qed

lemma split_char_ne: "split_char c s \<noteq> []"
  by (induction s) (auto split: list.split)

lemma partition_char_cases:
  "partition_char c s = (a, f, b) \<Longrightarrow> c \<notin> set a \<and> s = a @ (if f then c # b else []) \<and> (\<not> f \<longrightarrow> b = [])"
  by (induction s arbitrary: a) (auto split: if_splits prod.splits)

lemma parse_ipv6_lower:
  assumes "partition_char CHR ''%'' s = (a, found, zone)"
  shows "parse_ipv6 (lower a @ (if found then CHR ''%'' # zone else [])) = parse_ipv6 s"
proof -
  have s: "s = a @ (if found then CHR ''%'' # zone else [])" and na: "CHR ''%'' \<notin> set a"
    using partition_char_cases [OF assms] by auto
  have l: "partition_char CHR ''%'' (lower a @ (if found then CHR ''%'' # zone else [])) = (lower a, found, if found then zone else [])"
    using na partition_char_append [of "CHR ''%''" "lower a" zone] by (simp add: partition_char_notin lower_caseless_mem)
  have r: "partition_char CHR ''%'' s = (a, found, if found then zone else [])"
    using na partition_char_append [of "CHR ''%''" a zone] by (simp add: s partition_char_notin)
  have slash: "CHR ''/'' \<in> set (lower a @ (if found then CHR ''%'' # zone else [])) \<longleftrightarrow> CHR ''/'' \<in> set s"
    by (simp add: s lower_caseless_mem)
  show ?thesis
    unfolding parse_ipv6_def l r slash
    by (auto simp: split_char_lower expand_dotted_lower split_char_ne Let_def split: option.split)
qed

end
