(* ===== verification/Source_Urls.thy ===== *)
theory Source_Urls
  imports Credential_Roundtrip
begin

text \<open>
  The parts of a source URL: the attributes read from a URL that was put together from them are the
  parts again.
\<close>

section \<open>Host names\<close>

definition host_lower :: "string \<Rightarrow> string" where
  "host_lower h = (case partition_char CHR ''%'' h of (a, found, zone) \<Rightarrow>
     lower a @ (if found then CHR ''%'' # zone else []))"

lemma host_lower_simps [simp]:
  "host_lower [] = []"
  "host_lower (c # s) = (if c = CHR ''%'' then c # s else lower_char c # host_lower s)"
  by (auto simp: host_lower_def lower_def split: prod.split)

lemma host_lower_Nil [simp]: "host_lower s = [] \<longleftrightarrow> s = []"
  by (cases s) auto

lemma host_lower_idem [simp]: "host_lower (host_lower s) = host_lower s"
  by (induction s) (auto simp: lower_char_caseless)

lemma host_lower_append: "CHR ''%'' \<notin> set a \<Longrightarrow> host_lower (a @ s) = lower a @ host_lower s"
  by (induction a) (auto simp: lower_def)

lemma host_lower_mem: "caseless d \<Longrightarrow> d \<in> set (host_lower s) \<longleftrightarrow> d \<in> set s"
  by (induction s) (auto simp: lower_char_caseless eq_commute [of d])

lemma url_hostname_lower:
  "url_hostname r = (if fst (hostinfo r) = [] then None else Some (host_lower (fst (hostinfo r))))"
  by (simp add: url_hostname_def host_lower_def Let_def split: prod.split)

section \<open>Bracketed hosts\<close>

lemma split_char_mem: "x \<in> set s \<Longrightarrow> x \<noteq> c \<Longrightarrow> \<exists>p \<in> set (split_char c s). x \<in> set p"
  by (induction s) (auto split: list.splits)

lemma all_some_mem: "all_some xs = Some ys \<Longrightarrow> x \<in> set xs \<Longrightarrow> x \<noteq> None"
  by (induction xs arbitrary: ys rule: all_some.induct) auto

lemma parse_ipv4_chars:
  assumes "parse_ipv4 s = Some v" and "x \<in> set s"
  shows "is_digit_char x \<or> x = CHR ''.''"
proof (cases "x = CHR ''.''")
  case False
  then obtain p where p: "p \<in> set (split_char CHR ''.'' s)" "x \<in> set p" using split_char_mem assms(2) by blast
  obtain ys where "all_some (map parse_octet (split_char CHR ''.'' s)) = Some ys"
    using assms(1) by (auto simp: parse_ipv4_def Let_def split: if_splits)
  with p have "parse_octet p \<noteq> None" using all_some_mem by fastforce
  with p show ?thesis by (auto simp: parse_octet_def list_all_iff split: if_splits)
qed simp

lemma parse_hextets_hd:
  assumes "parse_hextets ps = Some v" and "hd ps \<noteq> []"
  shows "parse_hextet (hd ps) \<noteq> None"
proof -
  have ne: "ps \<noteq> []" using assms(1) by (auto simp: parse_hextets_def)
  consider "inner_empty ps = []" | k where "inner_empty ps = [k]"
    using assms(1) by (auto simp: parse_hextets_def split: list.splits if_splits)
  then show ?thesis
  proof cases
    case 1
    with assms(1) obtain ys where "all_some (map parse_hextet ps) = Some ys"
      by (auto simp: parse_hextets_def split: if_splits)
    with ne show ?thesis using all_some_mem [of "map parse_hextet ps" ys "parse_hextet (hd ps)"] by simp
  next
    case 2
    then have "k \<in> set (inner_empty ps)" by simp
    then have k: "0 < k" by (auto simp: inner_empty_def)
    from 2 assms obtain ys where "all_some (map parse_hextet (take k ps)) = Some ys"
      by (auto simp: parse_hextets_def Let_def split: if_splits option.splits)
    moreover have "hd ps \<in> set (take k ps)" using k ne by (cases ps; cases k) auto
    ultimately show ?thesis using all_some_mem [of "map parse_hextet (take k ps)" ys "parse_hextet (hd ps)"] by simp
  qed
qed

lemma parse_ipv6_hd:
  assumes "parse_ipv6 (c # s) = Some v" and "c \<noteq> CHR '':''"
  shows "hex_digit_value c \<noteq> None"
proof -
  obtain a f z where p: "partition_char CHR ''%'' (c # s) = (a, f, z)" by (metis prod_cases3)
  then obtain b where a: "a = c # b"
    using assms(1) by (auto simp: parse_ipv6_def split: if_splits prod.splits)
  obtain q qs where "split_char CHR '':'' b = q # qs" using split_char_ne [of "CHR '':''" b] by (cases "split_char CHR '':'' b") auto
  then have parts: "split_char CHR '':'' a = (c # q) # qs" using assms(2) by (simp add: a)
  have "qs \<noteq> [] \<and> (\<exists>ps w. expand_dotted_suffix ((c # q) # qs) = Some ps \<and> parse_hextets ps = Some w)"
    using assms(1) unfolding parse_ipv6_def p by (auto simp: parts Let_def split: if_splits option.splits)
  then obtain ps w where e: "expand_dotted_suffix ((c # q) # qs) = Some ps" and "parse_hextets ps = Some w"
    and "qs \<noteq> []" by blast
  moreover from this have "hd ps = c # q" by (auto simp: expand_dotted_suffix_def split: if_splits option.splits)
  ultimately have "parse_hextet (c # q) \<noteq> None" using parse_hextets_hd by fastforce
  then show ?thesis by (cases "hex_digit_value c") (auto simp: parse_hextet_def split: if_splits)
qed

lemma parse_ip_lower:
  assumes "parse_ip_address h = Some (IPv6Address v z)"
  shows "parse_ip_address (host_lower h) = Some (IPv6Address v z)"
proof -
  obtain a f zone where p: "partition_char CHR ''%'' h = (a, f, zone)" by (metis prod_cases3)
  have four: "parse_ipv4 h = None" and six: "parse_ipv6 h = Some (unat v, z) \<or> (\<exists>n. parse_ipv6 h = Some (n, z) \<and> of_nat n = v)"
    using assms by (auto simp: parse_ip_address_def split: option.splits)
  have "parse_ipv4 (host_lower h) = None"
  proof (cases f)
    case True
    then have "CHR ''%'' \<in> set (host_lower h)" by (simp add: host_lower_def p)
    then show ?thesis using parse_ipv4_chars [of "host_lower h"]
      by (cases "parse_ipv4 (host_lower h)") (fastforce simp: is_digit_char_def code_def)+
  next
    case False
    then have "h = a" using partition_char_cases [OF p] by simp
    moreover have "host_lower h = lower a" using False by (simp add: host_lower_def p)
    ultimately have "host_lower h = lower h" by simp
    then show ?thesis using four by simp
  qed
  moreover have "parse_ipv6 (host_lower h) = parse_ipv6 h"
    using parse_ipv6_lower [OF p] by (simp add: host_lower_def p)
  ultimately show ?thesis using assms four by (simp add: parse_ip_address_def)
qed

lemma bracketed_host_lower:
  assumes "bracketed_host_valid h"
  shows "bracketed_host_valid (host_lower h)"
proof (cases "starts_with ''v'' h")
  case True
  then obtain t where h: "h = CHR ''v'' # t" by (cases h) (auto simp: starts_with_def)
  obtain x y where xy: "partition_char CHR ''.'' t = (x, True, y)" "x \<noteq> []" "list_all (\<lambda>c. hex_digit_value c \<noteq> None) x"
    "y \<noteq> []" "CHR 0x0A \<notin> set y"
    using assms by (auto simp: bracketed_host_valid_def h starts_with_def split: prod.splits)
  have t: "t = x @ CHR ''.'' # y" "CHR ''.'' \<notin> set x" using partition_char_SomeD [OF xy(1)] by auto
  have "CHR ''%'' \<notin> set x" using xy(3) by (auto simp: list_all_iff hex_digit_value_def code_def)
  then have "host_lower t = lower x @ CHR ''.'' # host_lower y"
    by (simp add: t host_lower_append lower_char_def code_def)
  moreover have "CHR ''.'' \<notin> set (lower x)" using t(2) by (simp add: lower_caseless_mem)
  ultimately have "partition_char CHR ''.'' (host_lower t) = (lower x, True, host_lower y)"
    by (simp add: partition_char_append)
  moreover have "host_lower h = CHR ''v'' # host_lower t" by (simp add: h lower_char_def code_def)
  moreover have "list_all (\<lambda>c. hex_digit_value c \<noteq> None) (lower x)" using xy(3) by (simp add: list_all_iff lower_def)
  ultimately show ?thesis
    using xy by (simp add: bracketed_host_valid_def starts_with_def host_lower_mem)
next
  case False
  then obtain v z where ip: "parse_ip_address h = Some (IPv6Address v z)"
    using assms by (auto simp: bracketed_host_valid_def split: option.splits ip_address.splits)
  have "\<not> starts_with ''v'' (host_lower h)"
  proof
    assume v: "starts_with ''v'' (host_lower h)"
    then obtain c s where h: "h = c # s" by (cases h) (auto simp: starts_with_def)
    with v have "lower_char c = CHR ''v''" by (auto simp: starts_with_def lower_char_def code_def split: if_splits)
    then have "hex_digit_value c = None" "c \<noteq> CHR '':''"
      using lower_char_hex [of c] by (auto simp: hex_digit_value_def code_def lower_char_def)
    then show False
      using ip parse_ipv6_hd [of c s] by (auto simp: parse_ip_address_def h split: option.splits)
  qed
  then show ?thesis by (simp add: bracketed_host_valid_def parse_ip_lower [OF ip])
qed

section \<open>Authorities\<close>

text \<open>Characters that may stand in an authority, apart from brackets and colons.\<close>

definition plain :: "char \<Rightarrow> bool" where
  "plain c \<longleftrightarrow> c \<notin> set ''/?#@'' \<and> code c \<notin> {9, 10, 13}"

lemma plain_lower: "plain c \<Longrightarrow> plain (lower_char c)"
proof -
  have "c \<in> set ''/?#@'' \<longleftrightarrow> lower_char c \<in> set ''/?#@''" by (simp add: lower_char_caseless)
  then show "plain c \<Longrightarrow> plain (lower_char c)" by (auto simp: plain_def lower_char_code split: if_splits)
qed

lemma plain_host_lower: "list_all plain s \<Longrightarrow> list_all plain (host_lower s)"
  by (induction s) (auto simp: plain_lower)

lemma plain_digits: "list_all plain (str_nat n)" "CHR ''['' \<notin> set (str_nat n)" "CHR '']'' \<notin> set (str_nat n)"
  "CHR '':'' \<notin> set (str_nat n)"
  using str_nat_digits [of n] by (auto simp: list_all_iff plain_def is_digit_char_def code_def)

lemma plain_authority: "list_all plain host \<Longrightarrow> list_all plain (authority_of host port)"
  by (auto simp: authority_of_def Let_def plain_digits split: option.split) (auto simp: plain_def code_def)

lemma rpartition_char_append: "c \<notin> set b \<Longrightarrow> rpartition_char c (a @ c # b) = (a, True, b)"
  by (simp add: rpartition_char_def partition_char_append)

lemma rpartition_char_notin: "c \<notin> set s \<Longrightarrow> rpartition_char c s = ([], False, s)"
  by (simp add: rpartition_char_def partition_char_notin)

definition userinfo_ok :: "string \<Rightarrow> bool" where
  "userinfo_ok ui \<longleftrightarrow> ui = [] \<or> (\<exists>v. ui = v @ ''@'' \<and> CHR ''['' \<notin> set v \<and> CHR '']'' \<notin> set v)"

lemma hostinfo_authority:
  assumes ui: "userinfo_ok ui" and net: "sr_netloc r = ui @ authority_of host port"
    and host: "CHR ''['' \<notin> set host" "CHR '']'' \<notin> set host" "list_all plain host"
  shows "hostinfo r = (host, map_option str_nat port)"
proof -
  let ?A = "authority_of host port"
  have "CHR ''@'' \<notin> set ?A" using plain_authority [OF host(3), of port] by (auto simp: list_all_iff plain_def)
  then have info: "snd (snd (rpartition_char CHR ''@'' (sr_netloc r))) = ?A"
    using ui by (auto simp: net userinfo_ok_def rpartition_char_append rpartition_char_notin)
  have ne: "str_nat p \<noteq> []" for p by (simp add: str_nat_def)
  show ?thesis
  proof (cases "CHR '':'' \<in> set host")
    case True
    obtain rest where A: "?A = CHR ''['' # host @ CHR '']'' # rest"
      and rest: "rest = (case port of None \<Rightarrow> [] | Some p \<Rightarrow> CHR '':'' # str_nat p)"
      using True by (auto simp: authority_of_def Let_def split: option.splits)
    show ?thesis
      using info host ne by (auto simp: hostinfo_def A rest partition_char_append split: prod.splits option.splits)
  next
    case False
    have "CHR ''['' \<notin> set ?A" using host False by (auto simp: authority_of_def plain_digits split: option.split)
    moreover have "partition_char CHR '':'' ?A = (host, port \<noteq> None, case port of None \<Rightarrow> [] | Some p \<Rightarrow> str_nat p)"
      using False by (auto simp: authority_of_def partition_char_notin partition_char_append split: option.split)
    ultimately show ?thesis
      using info ne by (auto simp: hostinfo_def partition_char_notin split: prod.splits option.splits)
  qed
qed

lemma netloc_valid_authority:
  assumes ui: "userinfo_ok ui" and host: "CHR ''['' \<notin> set host" "CHR '']'' \<notin> set host"
    and six: "CHR '':'' \<in> set host \<longrightarrow> bracketed_host_valid host"
  shows "netloc_valid (ui @ authority_of host port)"
proof (cases "CHR '':'' \<in> set host")
  case True
  obtain rest where A: "authority_of host port = CHR ''['' # host @ CHR '']'' # rest"
    using True by (cases port) (auto simp: authority_of_def Let_def)
  have "CHR ''['' \<notin> set ui" using ui by (auto simp: userinfo_ok_def)
  then show ?thesis
    using six True host by (simp add: netloc_valid_def A partition_char_append)
next
  case False
  have "CHR ''['' \<notin> set (ui @ authority_of host port)" "CHR '']'' \<notin> set (ui @ authority_of host port)"
    using ui host False by (auto simp: userinfo_ok_def authority_of_def plain_digits split: option.splits)
  then show ?thesis by (simp add: netloc_valid_def)
qed

section \<open>Splitting what was put together\<close>

definition visible :: "char \<Rightarrow> bool" where
  "visible c \<longleftrightarrow> code c \<notin> {9, 10, 13}"

lemma takeWhile_stop: "list_all P a \<Longrightarrow> \<not> P c \<Longrightarrow> takeWhile P (a @ c # b) = a \<and> dropWhile P (a @ c # b) = c # b"
  by (induction a) auto

lemma filter_all: "list_all P a \<Longrightarrow> filter P a = a"
  by (induction a) auto

lemma urlsplit_urlunsplit:
  assumes scheme: "sr_scheme r = ''rtsp''" and net: "list_all (\<lambda>c. c \<notin> set ''/?#'' \<and> visible c) (sr_netloc r)"
    "netloc_valid (sr_netloc r)"
    and path: "sr_path r = CHR ''/'' # p" "list_all (\<lambda>c. c \<notin> set ''?#'' \<and> visible c) p"
    and no: "sr_query r = []" "sr_fragment r = []"
  shows "urlsplit (urlunsplit r) = Some r"
proof -
  let ?u = "''//'' @ sr_netloc r @ CHR ''/'' # p"
  have path_free: "CHR ''#'' \<notin> set p" "CHR ''?'' \<notin> set p" using path(2) by (auto simp: list_all_iff)
  have u: "urlunsplit r = ''rtsp:'' @ ?u" by (simp add: urlunsplit_def scheme path no)
  have "list_all visible (urlunsplit r)"
    using net(1) path(2) by (auto simp: u list_all_iff visible_def code_def)
  moreover have "visible = (\<lambda>c. code c \<notin> {9, 10, 13})" by (auto simp: visible_def)
  ultimately have "filter (\<lambda>c. code c \<notin> {9, 10, 13}) (urlunsplit r) = urlunsplit r" using filter_all by metis
  moreover have "dropWhile (\<lambda>c. code c \<le> 32) (urlunsplit r) = urlunsplit r" by (simp add: u code_def)
  ultimately have "strip_url (urlunsplit r) = urlunsplit r" by (simp only: strip_url_def)
  moreover have "split_scheme (urlunsplit r) = (''rtsp'', ?u)"
    by (simp add: u split_scheme_def is_scheme_char_def is_alpha_ascii_def lower_def lower_char_def code_def)
  moreover have "takeWhile (\<lambda>c. \<not> is_netloc_end c) (sr_netloc r @ CHR ''/'' # p) = sr_netloc r
      \<and> dropWhile (\<lambda>c. \<not> is_netloc_end c) (sr_netloc r @ CHR ''/'' # p) = CHR ''/'' # p"
    using net(1) by (intro takeWhile_stop) (auto simp: list_all_iff is_netloc_end_def)
  moreover have "split_first CHR ''#'' (CHR ''/'' # p) = (CHR ''/'' # p, [])"
    "split_first CHR ''?'' (CHR ''/'' # p) = (CHR ''/'' # p, [])"
    using path_free by (simp_all add: split_first_def partition_char_notin)
  ultimately show ?thesis
    using net(2) no scheme path(1) by (simp add: urlsplit_def starts_with_def)
qed

lemma urlsplit_parts:
  assumes "urlsplit url = Some r"
  shows "list_all (\<lambda>c. c \<notin> set ''/?#'' \<and> visible c) (sr_netloc r)" "netloc_valid (sr_netloc r) \<or> sr_netloc r = []"
    "list_all (\<lambda>c. c \<notin> set ''?#'' \<and> visible c) (sr_path r)"
    "lower (sr_scheme r) = sr_scheme r"
proof -
  obtain scheme u where s: "split_scheme (strip_url url) = (scheme, u)" by fastforce
  have vis: "list_all visible (strip_url url)" by (auto simp: strip_url_def visible_def list_all_iff)
  have u: "set u \<subseteq> set (strip_url url)" and low: "lower scheme = scheme"
    using s by (auto simp: split_scheme_def lower_def dest: partition_char_cases split: prod.splits if_splits)
  let ?n = "starts_with ''//'' u"
  let ?rest = "if ?n then dropWhile (\<lambda>c. \<not> is_netloc_end c) (drop 2 u) else u"
  obtain a f b where ab: "partition_char CHR ''#'' ?rest = (a, f, b)" by (metis prod_cases3)
  obtain x g y where xy: "partition_char CHR ''?'' a = (x, g, y)" by (metis prod_cases3)
  have r: "sr_netloc r = (if ?n then takeWhile (\<lambda>c. \<not> is_netloc_end c) (drop 2 u) else [])"
    "sr_path r = x" "sr_scheme r = scheme" "?n \<longrightarrow> netloc_valid (sr_netloc r)"
    using assms by (auto simp: urlsplit_def s ab xy split_first_def Let_def split: if_splits)
  have visu: "list_all visible u" using vis u by (auto simp: list_all_iff)
  have "set ?rest \<subseteq> set u" by (auto dest: set_dropWhileD in_set_dropD)
  moreover have "set x \<subseteq> set a" "set a \<subseteq> set ?rest" "CHR ''#'' \<notin> set a" "CHR ''?'' \<notin> set x"
    using partition_char_cases [OF ab] partition_char_cases [OF xy] by (auto split: if_splits)
  ultimately show "list_all (\<lambda>c. c \<notin> set ''?#'' \<and> visible c) (sr_path r)"
    using visu r(2) by (auto simp: list_all_iff)
  show "list_all (\<lambda>c. c \<notin> set ''/?#'' \<and> visible c) (sr_netloc r)"
    using visu by (auto simp: r(1) list_all_iff is_netloc_end_def dest: set_takeWhileD in_set_dropD)
  show "netloc_valid (sr_netloc r) \<or> sr_netloc r = []" "lower (sr_scheme r) = sr_scheme r"
    using r low by auto
qed

section \<open>Source URLs\<close>

lemma quote_credentials:
  assumes "camera_source_credentials_post_init cr = None"
  obtains u p where "quote_text (cs_username cr) = Some u" "quote_text (cs_password cr) = Some p"
  using assms
  by (auto simp: camera_source_credentials_post_init_def probe_credential_component_valid_def quote_text_def
      split: if_splits option.splits)

text \<open>What the validator establishes of a URL without credentials.\<close>

lemma validated_source:
  assumes ok: "validate_camera_source_url url False = Inr url'"
  obtains r host port p where "urlsplit url = Some r" "url_port r = Some port" "url_hostname r = Some host"
    "sr_scheme r = ''rtsp''" "sr_fragment r = []" "sr_query r = []" "sr_path r = CHR ''/'' # p"
    "CHR ''@'' \<notin> set (sr_netloc r)" "port \<noteq> Some 0"
proof -
  obtain r port host where r: "urlsplit url = Some r" "url_port r = Some port" "url_hostname r = Some host"
    "lower (sr_scheme r) = ''rtsp''" "sr_fragment r = []" "sr_query r = []" "starts_with ''/'' (sr_path r)"
    "url_username r = None" "port \<noteq> Some 0"
    using ok by (auto simp: validate_camera_source_url_def split: if_splits option.splits)
  moreover have "CHR ''@'' \<notin> set (sr_netloc r)"
  proof
    assume "CHR ''@'' \<in> set (sr_netloc r)"
    then obtain a b where "sr_netloc r = a @ CHR ''@'' # b" "CHR ''@'' \<notin> set b" by (metis split_list_last)
    then show False using r(8) by (auto simp: url_username_def url_userinfo_def rpartition_char_append split: prod.splits)
  qed
  moreover obtain p where "sr_path r = CHR ''/'' # p"
    using r(7) by (cases "sr_path r") (auto simp: starts_with_def)
  ultimately show ?thesis using that urlsplit_parts(4) [OF r(1)] by simp
qed

lemma partition_char_subset: "partition_char c s = (a, f, b) \<Longrightarrow> set a \<subseteq> set s \<and> set b \<subseteq> set s"
  by (induction s arbitrary: a) (auto split: if_splits prod.splits)

lemma hostname_facts:
  assumes r: "urlsplit url = Some r" and host: "url_hostname r = Some host"
    and at: "CHR ''@'' \<notin> set (sr_netloc r)" and bracket: "CHR ''['' \<notin> set host"
  shows "host \<noteq> []" "host_lower host = host" "list_all plain host" "CHR '']'' \<notin> set host"
    "CHR '':'' \<in> set host \<longrightarrow> bracketed_host_valid host"
proof -
  define h where "h = fst (hostinfo r)"
  have h: "h \<noteq> []" "host = host_lower h"
    using host by (auto simp: url_hostname_lower h_def split: if_splits)
  then show "host \<noteq> []" "host_lower host = host" by simp_all
  note info = rpartition_char_notin [OF at]
  obtain a f b where ab: "partition_char CHR ''['' (sr_netloc r) = (a, f, b)" by (metis prod_cases3)
  obtain x g y where xy: "partition_char CHR '']'' b = (x, g, y)" by (metis prod_cases3)
  obtain u e v where uv: "partition_char CHR '':'' (sr_netloc r) = (u, e, v)" by (metis prod_cases3)
  have hx: "h = (if f then x else u)" by (simp add: h_def hostinfo_def info ab xy uv)
  note cases = partition_char_cases [OF ab] partition_char_cases [OF xy] partition_char_cases [OF uv]
  have sub: "set h \<subseteq> set (sr_netloc r)"
    using partition_char_subset [OF ab] partition_char_subset [OF xy] partition_char_subset [OF uv]
    by (auto simp: hx split: if_splits)
  have "list_all plain (sr_netloc r)"
    using urlsplit_parts(1) [OF r] at by (auto simp: list_all_iff plain_def visible_def)
  then have "list_all plain h" using sub by (auto simp: list_all_iff)
  then show "list_all plain host" by (simp add: h(2) plain_host_lower)
  have valid: "netloc_valid (sr_netloc r)" using urlsplit_parts(2) [OF r] h(1) sub by auto
  have f: "f \<longleftrightarrow> CHR ''['' \<in> set (sr_netloc r)" using cases(1) by (auto split: if_splits)
  have "CHR '']'' \<notin> set h"
  proof (cases f)
    case True
    then show ?thesis using cases(2) by (simp add: hx)
  next
    case False
    then have "CHR '']'' \<notin> set (sr_netloc r)" using valid f by (auto simp: netloc_valid_def Let_def split: if_splits)
    then show ?thesis using sub by blast
  qed
  then show "CHR '']'' \<notin> set host" by (simp add: h(2) host_lower_mem)
  show "CHR '':'' \<in> set host \<longrightarrow> bracketed_host_valid host"
  proof
    assume "CHR '':'' \<in> set host"
    then have "CHR '':'' \<in> set h" by (simp add: h(2) host_lower_mem)
    then have f "h = x" using cases(3) by (auto simp: hx split: if_splits)
    then have "bracketed_host_valid h" using valid f by (simp add: netloc_valid_def ab xy Let_def split: if_splits)
    then show "bracketed_host_valid host" by (simp add: h(2) bracketed_host_lower)
  qed
qed

section \<open>The round trip\<close>

text \<open>Splitting a URL put together from a source URL, with or without userinfo.\<close>

lemma split_composed:
  assumes r: "urlsplit url = Some r" "url_port r = Some port" "url_hostname r = Some host"
    "sr_scheme r = ''rtsp''" "sr_fragment r = []" "sr_query r = []" "sr_path r = CHR ''/'' # p"
    "CHR ''@'' \<notin> set (sr_netloc r)" and bracket: "CHR ''['' \<notin> set host"
    and ui: "userinfo_ok ui" "list_all (\<lambda>c. c \<notin> set ''/?#'' \<and> visible c) ui"
    and r': "r' = r\<lparr>sr_netloc := ui @ authority_of host port\<rparr>"
  shows "urlsplit (urlunsplit r') = Some r'" "url_hostname r' = Some host" "url_port r' = Some port"
proof -
  note h = hostname_facts [OF r(1,3,8) bracket]
  have info: "hostinfo r' = (host, map_option str_nat port)"
    by (rule hostinfo_authority [OF ui(1) _ bracket h(4,3)]) (simp add: r')
  have "list_all (\<lambda>c. c \<notin> set ''/?#'' \<and> visible c) (authority_of host port)"
    using plain_authority [OF h(3), of port] by (auto simp: list_all_iff plain_def visible_def)
  moreover have "list_all (\<lambda>c. c \<notin> set ''?#'' \<and> visible c) p"
    using urlsplit_parts(3) [OF r(1)] by (simp add: r(7))
  ultimately show "urlsplit (urlunsplit r') = Some r'"
    using ui(2) netloc_valid_authority [OF ui(1) bracket h(4,5)]
    by (intro urlsplit_urlunsplit) (simp_all add: r' r)
  show "url_hostname r' = Some host" using h(1,2) by (simp add: url_hostname_lower info)
  have "p \<le> 65535" if "port = Some p" for p using url_port_bound r(2) that by simp
  then show "url_port r' = Some port"
    by (cases port) (simp_all add: url_port_def info str_nat_digits)
qed

lemma attached_userinfo:
  assumes "quote_text u = Some a" "quote_text v = Some b"
  shows "userinfo_ok (a @ '':'' @ b @ ''@'')" "list_all (\<lambda>c. c \<notin> set ''/?#'' \<and> visible c) (a @ '':'' @ b @ ''@'')"
    "CHR '':'' \<notin> set a"
  using quote_chars [OF assms(1)] quote_chars [OF assms(2)] url_safe_ascii
  by (fastforce simp: userinfo_ok_def list_all_iff visible_def code_def intro: exI [of _ "a @ '':'' @ b"])+

lemma attach_split:
  assumes valid: "validate_camera_source_url url False = Inr url"
    and cr: "camera_source_credentials_post_init cr = None"
    and parsed: "urlsplit url = Some r" "url_hostname r = Some host" "CHR ''['' \<notin> set host"
  shows "\<exists>u port p. attach_source_credentials url cr = Inr u
    \<and> url_port r = Some port \<and> sr_path r = CHR ''/'' # p
    \<and> split_source_credentials url = Inr (urlunsplit (r\<lparr>sr_netloc := authority_of host port\<rparr>), None)
    \<and> split_source_credentials u = Inr (urlunsplit (r\<lparr>sr_netloc := authority_of host port\<rparr>), Some cr)
    \<and> urlsplit (urlunsplit (r\<lparr>sr_netloc := authority_of host port\<rparr>)) = Some (r\<lparr>sr_netloc := authority_of host port\<rparr>)
    \<and> url_hostname (r\<lparr>sr_netloc := authority_of host port\<rparr>) = Some host
    \<and> url_port (r\<lparr>sr_netloc := authority_of host port\<rparr>) = Some port"
proof -
  obtain port p where r: "urlsplit url = Some r" "url_port r = Some port" "url_hostname r = Some host"
    "sr_scheme r = ''rtsp''" "sr_fragment r = []" "sr_query r = []" "sr_path r = CHR ''/'' # p"
    "CHR ''@'' \<notin> set (sr_netloc r)"
    using parsed by (auto intro: validated_source [OF valid])
  obtain a b where q: "quote_text (cs_username cr) = Some a" "quote_text (cs_password cr) = Some b"
    by (rule quote_credentials [OF cr])
  note ui = attached_userinfo [OF q]
  define r' where "r' = r\<lparr>sr_netloc := (a @ '':'' @ b @ ''@'') @ authority_of host port\<rparr>"
  note r'_facts = split_composed [OF r parsed(3) ui(1,2) r'_def]
  have none: "url_username r = None" "url_password r = None"
    using r(8) by (simp_all add: url_username_def url_password_def url_userinfo_def rpartition_char_notin)
  have "CHR ''@'' \<notin> set (authority_of host port)"
    using plain_authority [OF hostname_facts(3) [OF r(1,3,8) parsed(3)], of port] by (auto simp: list_all_iff plain_def)
  then have "rpartition_char CHR ''@'' (sr_netloc r') = (a @ '':'' @ b, True, authority_of host port)"
    using rpartition_char_append [of "CHR ''@''" "authority_of host port" "a @ '':'' @ b"] by (simp add: r'_def)
  then have some: "url_username r' = Some a" "url_password r' = Some b"
    using ui(3) by (simp_all add: url_username_def url_password_def url_userinfo_def partition_char_append)
  have attach: "attach_source_credentials url cr = Inr (urlunsplit r')"
    using r q none by (simp add: attach_source_credentials_def r'_def urlunsplit_def)
  have "split_source_credentials url = Inr (urlunsplit (r\<lparr>sr_netloc := authority_of host port\<rparr>), None)"
    using r none by (simp add: split_source_credentials_def Let_def)
  moreover have "split_source_credentials (urlunsplit r') =
      Inr (urlunsplit (r\<lparr>sr_netloc := authority_of host port\<rparr>), Some cr)"
    using r'_facts some cr unquote_quote [OF q(1)] unquote_quote [OF q(2)]
    by (cases cr) (simp add: split_source_credentials_def Let_def r'_def)
  moreover have "userinfo_ok []" by (simp add: userinfo_ok_def)
  note clean = split_composed [OF r parsed(3) this, of "r\<lparr>sr_netloc := authority_of host port\<rparr>"]
  ultimately show ?thesis using attach r(2,7) clean by auto
qed

text \<open>C29. Credentials attached to a validated source URL survive: the attachment succeeds, and splitting
  the result gives back exactly the credentials, together with the same clean URL that splitting
  the original gives. Names and passwords are any text, delimiters and non-ASCII characters
  included. The bracket condition excludes only \<^verbatim>\<open>[v...]\<close> literals of future address versions.\<close>

theorem attach_split_roundtrip:
  assumes valid: "validate_camera_source_url url False = Inr url"
    and cr: "camera_source_credentials_post_init cr = None"
    and parsed: "urlsplit url = Some r" "url_hostname r = Some host" "CHR ''['' \<notin> set host"
  shows "\<exists>u clean. attach_source_credentials url cr = Inr u
    \<and> split_source_credentials url = Inr (clean, None)
    \<and> split_source_credentials u = Inr (clean, Some cr)"
  using attach_split [OF assms] by blast

theorem attach_split_roundtrip_witness:
  "\<exists>u clean. attach_source_credentials ''rtsp://10.0.0.9/live'' \<lparr>cs_username = [97, 58], cs_password = [8364, 64]\<rparr> = Inr u
    \<and> split_source_credentials ''rtsp://10.0.0.9/live'' = Inr (clean, None)
    \<and> split_source_credentials u = Inr (clean, Some \<lparr>cs_username = [97, 58], cs_password = [8364, 64]\<rparr>)"
  by (rule attach_split_roundtrip [where r = "\<lparr>sr_scheme = ''rtsp'', sr_netloc = ''10.0.0.9'', sr_path = ''/live'',
        sr_query = [], sr_fragment = []\<rparr>" and host = "''10.0.0.9''"])
    (code_simp, simp add: camera_source_credentials_post_init_def probe_credential_component_valid_def
      text_encode_def is_encodable_def utf8_point_def, code_simp, code_simp, simp)

end
