(* ===== verification/Registration_Properties.thy ===== *)
theory Registration_Properties
  imports Store_Examples
begin

text \<open>
  Idempotency keys along histories: once a node or a camera was registered under a key, the key stays
  bound to it, whatever happens later.
\<close>

section \<open>Keys stay bound\<close>

definition claims_kept :: "node_store \<Rightarrow> node_store \<Rightarrow> bool" where
  "claims_kept s s' \<longleftrightarrow>
     (\<forall>key v. st_registration_requests s key = Some v \<longrightarrow> st_registration_requests s' key = Some v)
     \<and> (\<forall>key a h i. st_camera_registration_requests s key = Some (a, h, Some i) \<longrightarrow>
           st_camera_registration_requests s' key = Some (a, h, Some i))"

lemma claims_kept_same:
  "st_registration_requests s' = st_registration_requests s \<Longrightarrow>
   st_camera_registration_requests s' = st_camera_registration_requests s \<Longrightarrow> claims_kept s s'"
  by (simp add: claims_kept_def)

lemma claims_keptD:
  "claims_kept s s' \<Longrightarrow> st_registration_requests s key = Some v \<Longrightarrow> st_registration_requests s' key = Some v"
  "claims_kept s s' \<Longrightarrow> st_camera_registration_requests s key = Some (a, h, Some i) \<Longrightarrow>
   st_camera_registration_requests s' key = Some (a, h, Some i)"
  unfolding claims_kept_def by blast+

lemma claims_kept_refl [simp]: "claims_kept s s"
  by (simp add: claims_kept_def)

lemma claims_kept_trans: "claims_kept s s' \<Longrightarrow> claims_kept s' s'' \<Longrightarrow> claims_kept s s''"
  by (auto simp: claims_kept_def)

lemma register_automatically_claims: "register_automatically rq s = Inr (n, s') \<Longrightarrow> claims_kept s s'"
  using register_automatically_result [of rq s n s'] by (auto intro!: claims_kept_same)

lemma register_idempotently_claims: "register_idempotently rq idem s = Inr (r, s') \<Longrightarrow> claims_kept s s'"
  using register_automatically_result
  by (auto simp: register_idempotently_def replay_registration_def claims_kept_def
      split: option.splits sum.splits if_splits prod.splits) fastforce+

lemma placement_claims:
  "place_camera_automatically env rq s = Inr (c, s') \<Longrightarrow> st_registration_requests s' = st_registration_requests s
     \<and> st_camera_registration_requests s' = st_camera_registration_requests s"
  "place_camera_manually env rq i s = Inr (c, s') \<Longrightarrow> st_registration_requests s' = st_registration_requests s
     \<and> st_camera_registration_requests s' = st_camera_registration_requests s"
  by (auto simp: place_camera_automatically_def place_camera_manually_def place_on_def Let_def
      split: option.splits sum.splits list.splits if_splits)

lemma replay_open:
  assumes "replay_camera_registration p idem s = Inr None"
  obtains a h where "p = (a, h, None)"
  using assms
  by (auto simp: replay_camera_registration_def camera_registration_target_id_def
      split: prod.splits sum.splits option.splits if_splits)

lemma place_idempotently_claims:
  assumes "place_camera_idempotently env rq i idem s = Inr (r, s')"
  shows "claims_kept s s'"
proof (cases "s' = s")
  case False
  with assms obtain p c s1 where p: "st_camera_registration_requests s (request_key_of idem) = Some p"
      "replay_camera_registration p idem s = Inr None"
    and run: "(case i of None \<Rightarrow> place_camera_automatically env rq s | Some n \<Rightarrow> place_camera_manually env rq n s) = Inr (c, s1)"
    and s': "s' = s1\<lparr>st_camera_registration_requests := (st_camera_registration_requests s1)
        (request_key_of idem \<mapsto> (ri_actor_account_id idem, ri_request_sha256 idem, Some (cp_id c)))\<rparr>"
    by (auto simp: place_camera_idempotently_def split: option.splits sum.splits)
  from run have "st_registration_requests s1 = st_registration_requests s"
    "st_camera_registration_requests s1 = st_camera_registration_requests s"
    using placement_claims by (auto split: option.splits)
  with p s' replay_open [OF p(2)] show ?thesis by (auto simp: claims_kept_def)
qed simp

lemma reserve_claims: "reserve_camera_registration idem s = Inr (r, s') \<Longrightarrow> claims_kept s s'"
  by (auto simp: reserve_camera_registration_def claims_kept_def split: option.splits sum.splits)

lemma port_claims:
  "finalize_node_delete i s = Inr (u, s') \<Longrightarrow> claims_kept s s'"
  "begin_port_change env ch i p allowed r n radius s = Inr (c, s') \<Longrightarrow> claims_kept s s'"
  "complete_port_change env ch ob s = Inr (m, s') \<Longrightarrow> claims_kept s s'"
  "abort_port_change env ch ob s = Inr (m, s') \<Longrightarrow> claims_kept s s'"
  by (auto simp: finalize_node_delete_def begin_port_change_def complete_port_change_def abort_port_change_def Let_def
      intro!: claims_kept_same split: option.splits if_splits)

lemma move_claims:
  "create_camera_move env m c t r force readers timeout f s = Inr (x, s') \<Longrightarrow> claims_kept s s'"
  "switch_camera_move env m cancelled s = Inr (x, s') \<Longrightarrow> claims_kept s s'"
  "mark_camera_move_source_cleaned m s = Inr (x, s') \<Longrightarrow> claims_kept s s'"
  "request_camera_move_abort m reason b s = Inr (x, s') \<Longrightarrow> claims_kept s s'"
  "abort_camera_move m s = Inr (x, s') \<Longrightarrow> claims_kept s s'"
  "complete_camera_move m s = Inr (x, s') \<Longrightarrow> claims_kept s s'"
  "mark_camera_applied c i g r s = Inr (y, s') \<Longrightarrow> claims_kept s s'"
  by (auto simp: create_camera_move_def switch_camera_move_def mark_camera_move_source_cleaned_def
      request_camera_move_abort_def abort_camera_move_def complete_camera_move_def mark_camera_applied_def
      checked_def put_camera_def put_move_def Let_def
      intro!: claims_kept_same split: option.splits if_splits sum.splits)

lemma network_claims: "claims_kept s (snd (add_probe_source_network n s))"
  by (simp add: add_probe_source_network_def Let_def claims_kept_def)

context camera_command
begin

lemma claims: "cmd i s = Inr (c, s') \<Longrightarrow> claims_kept s s'"
  using effect [of i s c s'] by (auto simp: camera_effect_def put_camera_def intro!: claims_kept_same)

end

context node_command
begin

lemma claims: "cmd i s = Inr (n, s') \<Longrightarrow> claims_kept s s'"
  using frame(5,6) [of i s n s'] by (auto intro: claims_kept_same)

end

lemmas op_claims = register_automatically_claims register_idempotently_claims
  claims_kept_same [OF placement_claims(1) [THEN conjunct1] placement_claims(1) [THEN conjunct2]]
  claims_kept_same [OF placement_claims(2) [THEN conjunct1] placement_claims(2) [THEN conjunct2]]
  place_idempotently_claims reserve_claims port_claims move_claims
  observation_cmd.claims desired_cmd.claims administrative_cmd.claims delete_cmd.claims stop_cmd.claims
  restart_cmd.claims reconfigure_cmd.claims release_cmd.claims update_cmd.claims enable_cmd.claims
  delete_camera_cmd.claims

lemma run_op_claims: "run_op op s = Inr s' \<Longrightarrow> claims_kept s s'"
  by (cases op) (simp_all, (elim writtenE, rule op_claims; assumption)+, use network_claims in auto)

lemma run_ops_claims: "claims_kept s (run_ops ops s)"
proof (induction ops arbitrary: s)
  case (Cons op ops)
  then show ?case
    by (cases "run_op op s") (auto intro: claims_kept_trans [OF run_op_claims])
qed simp

section \<open>At most once\<close>

text \<open>A node is registered at most once per idempotency key: after a registration succeeded under a
  key, whatever history follows, every repetition of the request under that key either returns the
  same node, without any change of the store, or raises; it never creates a second node.\<close>

theorem node_registered_once:
  assumes first: "register_idempotently rq idem s = Inr ((n, replayed), s1)"
    and later: "register_idempotently rq' idem (run_ops ops s1) = Inr (r, s2)"
  shows "snd r \<and> nd_id (fst r) = nd_id n \<and> s2 = run_ops ops s1"
proof -
  have "st_registration_requests s1 (request_key_of idem) =
      Some (ri_actor_account_id idem, ri_request_sha256 idem, nd_id n)"
    using first find_node_key
    by (auto simp: register_idempotently_def replay_registration_def split: option.splits sum.splits if_splits prod.splits)
  then have "st_registration_requests (run_ops ops s1) (request_key_of idem) =
      Some (ri_actor_account_id idem, ri_request_sha256 idem, nd_id n)"
    using claims_keptD(1) [OF run_ops_claims] by blast
  with later show ?thesis
    using find_node_key
    by (auto simp: register_idempotently_def replay_registration_def split: option.splits)
qed

text \<open>C27. A camera is registered at most once per idempotency key: after a placement succeeded under a
  key, whatever history follows, every repetition under that key either returns the same camera,
  without any change of the store, or raises (when it has been deleted); no second camera appears.\<close>

theorem camera_registered_once:
  assumes first: "place_camera_idempotently env rq i idem s = Inr ((cam, replayed), s1)"
    and later: "place_camera_idempotently env' rq' i' idem (run_ops ops s1) = Inr (r, s2)"
  shows "snd r \<and> cp_id (fst r) = cp_id cam \<and> s2 = run_ops ops s1"
proof -
  have live: "cp_id c = j" if "live_camera j t = Some c" for j t c
    using that by (auto simp: live_camera_def find_Some_iff)
  have "st_camera_registration_requests s1 (request_key_of idem) =
      Some (ri_actor_account_id idem, ri_request_sha256 idem, Some (cp_id cam))"
    using first live
    by (auto simp: place_camera_idempotently_def replay_camera_registration_def camera_registration_target_id_def
        split: option.splits sum.splits if_splits prod.splits)
  then have "st_camera_registration_requests (run_ops ops s1) (request_key_of idem) =
      Some (ri_actor_account_id idem, ri_request_sha256 idem, Some (cp_id cam))"
    using claims_keptD(2) [OF run_ops_claims] by blast
  with later show ?thesis
    using live
    by (auto simp: place_camera_idempotently_def replay_camera_registration_def camera_registration_target_id_def
        split: option.splits)
qed

section \<open>Examples\<close>

definition ex_idem :: registration_idempotency where
  "ex_idem = \<lparr>ri_key = 1, ri_actor_account_id = 2, ri_actor_session_id = 3, ri_request_sha256 = ex_digest\<rparr>"

definition ex_registration :: registration_request where
  "ex_registration = \<lparr>rq_name = ''third'', rq_allowed_ports = [8554, 8556, 8557], rq_max_nodes = 4,
     rq_preferred_port = None, rq_choose_port = hd, rq_new_node_id = 3, rq_api_ports = [9000], rq_metrics_ports = [9001],
     rq_release_id = ''v1'', rq_mediamtx_binary_sha256 = ex_digest, rq_creation_mode = NCM_OPERATOR,
     rq_is_port_bindable = Some (\<lambda>p. p \<noteq> 8556)\<rparr>"

definition ex_third :: media_node where
  "ex_third = new_media_node 3 ''third'' 8557 9000 9001 ''v1'' ex_digest NCM_OPERATOR"

definition ex_registered :: node_store where
  "ex_registered = ex_store\<lparr>st_nodes := [ex_node 1 8554, ex_node 2 8555, ex_third],
     st_lifecycle_locks := List.insert 3 (st_lifecycle_locks ex_store),
     st_registration_requests := [(3, 1) \<mapsto> (2, ex_digest, 3)]\<rparr>"

lemma ex_selected:
  "register_automatically ex_registration ex_store = Inr (ex_third, ex_store\<lparr>st_nodes := [ex_node 1 8554, ex_node 2 8555, ex_third],
     st_lifecycle_locks := List.insert 3 (st_lifecycle_locks ex_store)\<rparr>)"
  by (simp add: register_automatically_def ex_registration_def ex_store_def init_store_def occupied_ports_def
      prepared_changes_def occupied_management_ports_def select_port_with_bounded_recheck_def probe_of_def ex_third_def
      ex_values Let_def)

lemma ex_register_ids: "nd_id (ex_node i p) = i" "nd_id ex_third = 3" "st_registration_requests ex_store = Map.empty"
  by (simp_all add: ex_third_def ex_values ex_store_def init_store_def)

lemma ex_register:
  "register_idempotently ex_registration ex_idem ex_store = Inr ((ex_third, False), ex_registered)"
  "register_idempotently ex_registration ex_idem ex_registered = Inr ((ex_third, True), ex_registered)"
  by (simp_all add: register_idempotently_def ex_selected replay_registration_def request_key_of_def ex_idem_def
      ex_registered_def ex_register_ids)

theorem node_registered_once_witness:
  "register_idempotently ex_registration ex_idem ex_registered = Inr ((ex_third, True), ex_registered)
   \<and> nd_id (fst (ex_third, True)) = nd_id ex_third"
  using node_registered_once [OF ex_register(1), of ex_registration "[]"] ex_register(2) by simp

definition ex_reserved :: node_store where
  "ex_reserved = ex_store\<lparr>st_camera_registration_requests := [(3, 1) \<mapsto> (2, ex_digest, None)]\<rparr>"

definition ex_once :: node_store where
  "ex_once = ex_placed\<lparr>st_camera_registration_requests := [(3, 1) \<mapsto> (2, ex_digest, Some 7)]\<rparr>"

lemma ex_place:
  "place_camera_idempotently ex_env ex_request None ex_idem ex_reserved = Inr ((ex_camera, False), ex_once)"
  "place_camera_idempotently ex_env ex_request None ex_idem ex_once = Inr ((ex_camera, True), ex_once)"
  by (simp_all add: place_camera_idempotently_def request_key_of_def ex_idem_def ex_reserved_def ex_once_def
      replay_camera_registration_def camera_registration_target_id_def live_camera_def ex_placed_eq ex_store_def
      init_store_def place_camera_automatically_def place_on_def load_key_def uuid_int_def ex_values ex_rules)

theorem camera_registered_once_witness:
  "place_camera_idempotently ex_env ex_request None ex_idem ex_once = Inr ((ex_camera, True), ex_once)
   \<and> cp_id (fst (ex_camera, True)) = cp_id ex_camera"
  using camera_registered_once [OF ex_place(1), of ex_env ex_request None "[]"] ex_place(2) by simp

section \<open>Ports of a new node\<close>

text \<open>The ports of a registered node are sound: the external port was allowed, free and bindable (the
  preferred one, when one was asked for), no management port is one that another node's management
  uses, the metrics port differs from the other two, and the limit on nodes is respected. The new
  node starts without cameras, waiting to be provisioned.\<close>

theorem registered_node_ports:
  assumes "register_automatically rq s = Inr (n, s')"
  shows "nd_external_port n \<in> set (rq_allowed_ports rq) \<and> nd_external_port n \<notin> set (occupied_ports s)
    \<and> probe_of rq (nd_external_port n) \<and> (\<forall>p. rq_preferred_port rq = Some p \<longrightarrow> nd_external_port n = p)
    \<and> nd_api_port n \<in> set (rq_api_ports rq) - set (occupied_management_ports s)
    \<and> nd_metrics_port n \<in> set (rq_metrics_ports rq) - set (occupied_management_ports s) - {nd_external_port n, nd_api_port n}
    \<and> int (length (st_nodes s')) \<le> rq_max_nodes rq
    \<and> st_nodes s' = st_nodes s @ [n] \<and> nd_registered_cameras n = 0 \<and> \<not> is_node_eligible n f now"
proof -
  obtain p api metrics where n: "n = new_media_node (rq_new_node_id rq) (rq_name rq) p api metrics (rq_release_id rq)
        (rq_mediamtx_binary_sha256 rq) (rq_creation_mode rq)"
    and s': "s' = s\<lparr>st_nodes := st_nodes s @ [n], st_lifecycle_locks := List.insert (nd_id n) (st_lifecycle_locks s)\<rparr>"
    and limit: "int (length (st_nodes s)) < rq_max_nodes rq"
    and p: "select_port_with_bounded_recheck (filter (\<lambda>p. p \<notin> set (occupied_ports s)) (rq_allowed_ports rq))
        (rq_preferred_port rq) (rq_choose_port rq) (probe_of rq) = Inr p"
    and api: "select_port_with_bounded_recheck
        (filter (\<lambda>p. p \<notin> set (occupied_management_ports s)) (rq_api_ports rq)) None hd (probe_of rq) = Inr api"
    and metrics: "select_port_with_bounded_recheck
        (filter (\<lambda>q. q \<notin> {p, api})
          (filter (\<lambda>p. p \<notin> set (occupied_management_ports s)) (rq_metrics_ports rq))) None hd (probe_of rq)
        = Inr metrics"
    using register_automatically_result [OF assms] by blast
  show ?thesis
    using select_port_sound [OF p] select_port_sound [OF api] select_port_sound [OF metrics] limit
    by (auto simp: n s' new_media_node_def is_node_eligible_def)
qed

theorem registered_node_ports_witness:
  "nd_external_port ex_third \<notin> set (occupied_ports ex_store) \<and> nd_external_port ex_third = 8557"
  using registered_node_ports [OF ex_selected] by (simp add: ex_third_def ex_values)

text \<open>C28. The bounded search for a port is complete: when the chooser picks among the candidates, the
  search returns a bindable candidate if there is one, after at most as many probes as there are
  candidates, and reports the range as exhausted otherwise.\<close>

theorem select_port_complete:
  assumes "\<And>ps. ps \<noteq> [] \<Longrightarrow> choose_port ps \<in> set ps"
  shows "if \<exists>p \<in> set available. bindable p
    then \<exists>q \<in> set available. bindable q
      \<and> select_port_with_bounded_recheck available None choose_port bindable = Inr q
    else select_port_with_bounded_recheck available None choose_port bindable
      = Inl (NodePortRangeExhausted ''node_port_range_exhausted'')"
proof -
  have found: "if \<exists>p \<in> set available. bindable p
      then \<exists>q. select_port_with_bounded_recheck available None choose_port bindable = Inr q
      else select_port_with_bounded_recheck available None choose_port bindable
        = Inl (NodePortRangeExhausted ''node_port_range_exhausted'')"
    unfolding select_port_with_bounded_recheck_def by (rule select_port_loop_complete [OF _ refl]) (rule assms)
  show ?thesis
  proof (cases "\<exists>p \<in> set available. bindable p")
    case True
    with found obtain q where "select_port_with_bounded_recheck available None choose_port bindable = Inr q"
      by (simp only: if_True) blast
    with select_port_sound [OF this] True show ?thesis by auto
  qed (use found in simp)
qed

theorem select_port_complete_witness:
  "\<exists>q \<in> {8554, 8555, 8556}. q = 8555 \<and> select_port_with_bounded_recheck [8554, 8555, 8556] None last (\<lambda>p. p = 8555) = Inr q"
  using select_port_complete [of last "[8554, 8555, 8556]" "\<lambda>p. p = 8555"] by auto

end
