(* ===== verification/Blast_Radius.thy ===== *)
theory Blast_Radius
  imports Store_Examples "HOL-Library.Multiset"
begin

text \<open>
  The text the blast radius of a node is the hash of: it determines the placements it was made from,
  and does not depend on their order.
\<close>

section \<open>Lines\<close>

lemma digit_char_hex: "d < 16 \<Longrightarrow> digit_char d \<noteq> CHR 0x0A \<and> digit_char d \<noteq> CHR '':''"
proof -
  assume d: "d < 16"
  have "code CHR 0x0A = 10" "code CHR '':'' = 58" by (simp_all add: code_def)
  then have "code (digit_char d) \<noteq> code CHR 0x0A \<and> code (digit_char d) \<noteq> code CHR '':''"
    using digit_char_code [OF d] by simp
  then show ?thesis by auto
qed

lemma hex_fixed_chars: "c \<in> set (hex_fixed k n) \<Longrightarrow> c \<noteq> CHR 0x0A \<and> c \<noteq> CHR '':''"
  using fixed_digits_less [of 16 _ k n] digit_char_hex by (auto simp: hex_fixed_def)

lemma uuid_str_chars: "c \<in> set (uuid_str u) \<Longrightarrow> c \<noteq> CHR 0x0A \<and> c \<noteq> CHR '':''"
  using hex_fixed_chars by (auto simp: uuid_str_def Let_def dest!: in_set_takeD in_set_dropD)

lemma uuid_str_inj: "uuid_str u = uuid_str v \<longleftrightarrow> u = v"
proof
  assume eq: "uuid_str u = uuid_str v"
  let ?a = "hex_fixed 32 (unat u)" and ?b = "hex_fixed 32 (unat v)"
  have parts: "h = take 8 h @ take 4 (drop 8 h) @ take 4 (drop 12 h) @ take 4 (drop 16 h) @ drop 20 h" for h :: string
    using append_take_drop_id [of 8 h] append_take_drop_id [of 4 "drop 8 h"] append_take_drop_id [of 4 "drop 12 h"]
      append_take_drop_id [of 4 "drop 16 h"] by simp
  have "take 8 ?a = take 8 ?b \<and> take 4 (drop 8 ?a) = take 4 (drop 8 ?b) \<and> take 4 (drop 12 ?a) = take 4 (drop 12 ?b)
      \<and> take 4 (drop 16 ?a) = take 4 (drop 16 ?b) \<and> drop 20 ?a = drop 20 ?b"
    using eq by (simp add: uuid_str_def Let_def)
  then have "?a = ?b" using parts [of ?a] parts [of ?b] by simp
  moreover have "unat u < 16 ^ 32" "unat v < 16 ^ 32" using unsigned_less [of u] unsigned_less [of v] by simp_all
  ultimately have "unat u = unat v" using hex_fixed_inj [of "unat u" 32 "unat v"] by simp
  then show "u = v" by (rule unsigned_word_eqI)
qed simp

definition placement_line :: "uuid \<times> int \<Rightarrow> string" where
  "placement_line p = uuid_str (fst p) @ '':'' @ str_int (snd p)"

lemma placement_line_inj: "placement_line p = placement_line q \<longleftrightarrow> p = q"
proof
  assume eq: "placement_line p = placement_line q"
  have len: "length (uuid_str u) = 36" for u by (simp add: uuid_str_def Let_def)
  have "uuid_str (fst p) = uuid_str (fst q) \<and> str_int (snd p) = str_int (snd q)"
    using eq len by (simp add: placement_line_def)
  then show "p = q" by (simp add: uuid_str_inj str_int_inj prod_eq_iff)
qed simp

lemma placement_line_chars: "CHR 0x0A \<notin> set (placement_line p)"
  using uuid_str_chars str_int_chars by (auto simp: placement_line_def)

lemma payload_lines:
  "camera_placement_payload ps = str_join newline (map placement_line (sort_key (\<lambda>p. uuid_int (fst p)) ps))"
proof -
  have "(\<lambda>(camera_id, generation). uuid_str camera_id @ '':'' @ str_int generation) = placement_line"
    by (simp add: fun_eq_iff placement_line_def)
  then show ?thesis by (simp only: camera_placement_payload_def)
qed

lemma join_lines_inj:
  "str_join newline (map placement_line xs) = str_join newline (map placement_line ys) \<Longrightarrow> xs = ys"
proof -
  assume eq: "str_join newline (map placement_line xs) = str_join newline (map placement_line ys)"
  have split: "split_char CHR 0x0A (str_join newline (map placement_line (z # zs))) = map placement_line (z # zs)" for z zs
    using split_char_join [of "CHR 0x0A" "placement_line z" "map placement_line zs"] placement_line_chars
    by (simp add: newline_def list_all_iff)
  have ne: "str_join newline (map placement_line (z # zs)) \<noteq> []" for z zs
    by (simp add: str_join_def placement_line_def)
  have "map placement_line xs = map placement_line ys"
  proof (cases xs)
    case Nil
    then show ?thesis using eq ne by (cases ys) (auto simp: str_join_def)
  next
    case (Cons x xs')
    show ?thesis
    proof (cases ys)
      case Nil
      then show ?thesis using eq ne [of x xs'] Cons by (simp add: str_join_def)
    next
      case (Cons y ys')
      then show ?thesis using eq split [of x xs'] split [of y ys'] \<open>xs = x # xs'\<close> by metis
    qed
  qed
  then show "xs = ys" using map_injective [of placement_line xs ys] by (simp add: inj_def placement_line_inj)
qed

section \<open>The fingerprint\<close>

text \<open>The blast radius is exact: the text that is hashed is the same for two lists of placements with
  pairwise different cameras if and only if they are the same placements in some order. So a token
  issued for one blast radius can be used for another only through a collision of the hash.\<close>

theorem blast_radius_exact:
  assumes "distinct (map fst xs)" and "distinct (map fst ys)"
  shows "camera_placement_payload xs = camera_placement_payload ys \<longleftrightarrow> mset xs = mset ys"
proof
  assume "camera_placement_payload xs = camera_placement_payload ys"
  then have "sort_key (\<lambda>p. uuid_int (fst p)) xs = sort_key (\<lambda>p. uuid_int (fst p)) ys"
    unfolding payload_lines by (rule join_lines_inj)
  then show "mset xs = mset ys" by (metis mset_sort)
next
  assume m: "mset xs = mset ys"
  have "inj_on (\<lambda>p. uuid_int (fst p)) (set xs)"
    using assms(1) by (auto simp: inj_on_def uuid_int_def distinct_map dest!: unsigned_word_eqI)
  then have "sort_key (\<lambda>p. uuid_int (fst p)) xs = sort_key (\<lambda>p. uuid_int (fst p)) ys"
    using m by (intro sort_key_inj_key_eq) simp_all
  then show "camera_placement_payload xs = camera_placement_payload ys" by (simp add: payload_lines)
qed

theorem blast_radius_exact_witness:
  "camera_placement_payload [(1, 4), (2, 5)] = camera_placement_payload [(2, 5), (1, 4)]
   \<and> camera_placement_payload [(1, 4), (2, 5)] \<noteq> camera_placement_payload [(2, 5), (1, 6)]"
proof -
  have "mset [(1 :: uuid, 4 :: int), (2, 5)] \<noteq> mset [(2, 5), (1, 6)]" by (auto dest: arg_cong [where f = set_mset])
  then show ?thesis
    using blast_radius_exact [of "[(1, 4), (2, 5)]" "[(2, 5), (1, 4)]"] blast_radius_exact [of "[(1, 4), (2, 5)]" "[(2, 5), (1, 6)]"]
    by simp
qed

end
