(* ===== verification/Outcomes.thy ===== *)
theory Outcomes
  imports Control_Monad
begin

text \<open>
  A calculus for what an action does when the outside world behaves: with the store and an abstract
  view of the outside known, the outcome, the new store and the new view are determined. Everything
  the view does not show may change freely.
\<close>

definition gives ::
  "('x \<Rightarrow> 'v) \<Rightarrow> ('x, 'a) action \<Rightarrow> node_store \<Rightarrow> 'v \<Rightarrow> py_error + 'a \<Rightarrow> node_store \<Rightarrow> 'v \<Rightarrow> bool" where
  "gives view m s v r s' v' \<longleftrightarrow>
     (\<forall>w. w_store w = s \<longrightarrow> view (w_ext w) = v \<longrightarrow>
        (\<exists>w'. m w = (r, w') \<and> w_store w' = s' \<and> view (w_ext w') = v'))"

lemma givesI:
  assumes "\<And>w. w_store w = s \<Longrightarrow> view (w_ext w) = v \<Longrightarrow> \<exists>w'. m w = (r, w') \<and> w_store w' = s' \<and> view (w_ext w') = v'"
  shows "gives view m s v r s' v'"
  using assms by (simp add: gives_def)

lemma givesD:
  assumes "gives view m s v r s' v'" and "w_store w = s" and "view (w_ext w) = v"
  obtains w' where "m w = (r, w')" and "w_store w' = s'" and "view (w_ext w') = v'"
  using assms by (auto simp: gives_def)

lemma gives_ret: "gives view (ret a) s v (Inr a) s v"
  by (simp add: gives_def ret_def)

lemma gives_fail: "gives view (fail e) s v (Inl e) s v"
  by (simp add: gives_def fail_def)

lemma gives_query: "(\<And>x. f x s = r) \<Longrightarrow> gives view (query f) s v r s v"
  by (simp add: gives_def query_def)

lemma gives_call: "(\<And>x. f x s = Inr (a, s')) \<Longrightarrow> gives view (call f) s v (Inr a) s' v"
  by (simp add: gives_def call_def)

lemma gives_external:
  fixes view :: "'x \<Rightarrow> 'v"
  assumes "\<And>x. view x = v \<Longrightarrow> \<exists>x'. f x = (r, x') \<and> view x' = v'"
  shows "gives view (external f) s v r s v'"
proof (rule givesI)
  fix w :: "'x world"
  assume w: "w_store w = s" "view (w_ext w) = v"
  obtain x' where "f (w_ext w) = (r, x')" "view x' = v'" using assms w(2) by blast
  with w show "\<exists>w'. external f w = (r, w') \<and> w_store w' = s \<and> view (w_ext w') = v'"
    by (simp add: external_def)
qed

lemma gives_then:
  fixes view :: "'x \<Rightarrow> 'v"
  assumes m: "gives view m s v (Inr a) s1 v1" and f: "gives view (f a) s1 v1 r s2 v2"
  shows "gives view (and_then m f) s v r s2 v2"
proof (rule givesI)
  fix w :: "'x world"
  assume w: "w_store w = s" "view (w_ext w) = v"
  from m w obtain w1 where w1: "m w = (Inr a, w1)" "w_store w1 = s1" "view (w_ext w1) = v1" by (rule givesD)
  from f w1(2,3) obtain w2 where "f a w1 = (r, w2)" "w_store w2 = s2" "view (w_ext w2) = v2" by (rule givesD)
  with w1(1) show "\<exists>w'. and_then m f w = (r, w') \<and> w_store w' = s2 \<and> view (w_ext w') = v2"
    by (simp add: and_then_def)
qed

lemma gives_then_raise:
  assumes "gives view m s v (Inl e) s1 v1"
  shows "gives view (and_then m f) s v (Inl e) s1 v1"
  using assms by (fastforce simp: gives_def and_then_def)

lemma gives_attempt: "gives view m s v r s' v' \<Longrightarrow> gives view (attempt m) s v (Inr r) s' v'"
  by (fastforce simp: gives_def attempt_def)

lemma gives_handle: "gives view m s v (Inr a) s' v' \<Longrightarrow> gives view (handle p m h) s v (Inr a) s' v'"
  unfolding handle_def by (rule gives_then [OF gives_attempt], assumption) (simp add: gives_ret)

lemma gives_handled:
  assumes "gives view m s v (Inl e) s1 v1" and "p e" and "gives view (h e) s1 v1 r s2 v2"
  shows "gives view (handle p m h) s v r s2 v2"
  unfolding handle_def by (rule gives_then [OF gives_attempt [OF assms(1)]]) (simp add: assms(2,3))

lemma gives_passes: "\<not> b \<Longrightarrow> gives view (raise_if b e) s v (Inr ()) s v"
  by (simp add: raise_if_def gives_ret)

lemma gives_raises: "b \<Longrightarrow> gives view (raise_if b e) s v (Inl e) s v"
  by (simp add: raise_if_def gives_fail)

lemma gives_guarded: "lifecycle_guard i s = None \<Longrightarrow> gives view m s v r s' v' \<Longrightarrow> gives view (guarded i m) s v r s' v'"
  by (simp add: gives_def guarded_def)

lemma gives_for_each:
  assumes "\<And>k. k < length as \<Longrightarrow> gives view (f (as ! k)) (S k) (V k) (Inr ()) (S (Suc k)) (V (Suc k))"
  shows "gives view (for_each as f) (S 0) (V 0) (Inr ()) (S (length as)) (V (length as))"
  using assms
proof (induction as arbitrary: S V)
  case (Cons a as)
  have "gives view (f a) (S 0) (V 0) (Inr ()) (S 1) (V 1)" using Cons.prems [of 0] by simp
  moreover have "gives view (for_each as f) (S 1) (V 1) (Inr ()) (S (Suc (length as))) (V (Suc (length as)))"
    using Cons.IH [of "\<lambda>k. S (Suc k)" "\<lambda>k. V (Suc k)"] Cons.prems [of "Suc k" for k] by simp
  ultimately show ?case by (simp add: gives_then)
qed (simp add: gives_ret)

lemma gives_map_actions:
  assumes "\<And>k. k < length as \<Longrightarrow> gives view (f (as ! k)) (S k) (V k) (Inr (G k)) (S (Suc k)) (V (Suc k))"
  shows "gives view (map_actions f as) (S 0) (V 0) (Inr (map G [0..<length as])) (S (length as)) (V (length as))"
  using assms
proof (induction as arbitrary: S V G)
  case (Cons a as)
  have "gives view (f a) (S 0) (V 0) (Inr (G 0)) (S 1) (V 1)" using Cons.prems [of 0] by simp
  moreover have "gives view (map_actions f as) (S 1) (V 1) (Inr (map (\<lambda>k. G (Suc k)) [0..<length as]))
      (S (Suc (length as))) (V (Suc (length as)))"
    using Cons.IH [of "\<lambda>k. S (Suc k)" "\<lambda>k. V (Suc k)" "\<lambda>k. G (Suc k)"] Cons.prems [of "Suc k" for k] by simp
  moreover have "map G [0..<length (a # as)] = G 0 # map (\<lambda>k. G (Suc k)) [0..<length as]"
    by (simp add: map_upt_Suc del: upt_Suc)
  ultimately show ?case by (auto intro: gives_then gives_ret simp del: upt_Suc)
qed (simp add: gives_ret)

section \<open>Invariants of actions\<close>

text \<open>
  An action that is started where an invariant holds leaves it true, whether it returns or raises, and
  if it returns, the result satisfies a condition.
\<close>

definition maintains :: "('x world \<Rightarrow> bool) \<Rightarrow> ('x, 'a) action \<Rightarrow> ('a \<Rightarrow> bool) \<Rightarrow> bool" where
  "maintains P m Q \<longleftrightarrow> (\<forall>w. P w \<longrightarrow> P (snd (m w)) \<and> (\<forall>a. fst (m w) = Inr a \<longrightarrow> Q a))"

lemma maintainsD: "maintains P m Q \<Longrightarrow> P w \<Longrightarrow> P (snd (m w))"
  by (simp add: maintains_def)

lemma maintains_result: "maintains P m Q \<Longrightarrow> P w \<Longrightarrow> m w = (Inr a, w') \<Longrightarrow> Q a"
  unfolding maintains_def by (metis fst_conv)

lemma maintains_weaken: "maintains P m Q \<Longrightarrow> (\<And>a. Q a \<Longrightarrow> Q' a) \<Longrightarrow> maintains P m Q'"
  unfolding maintains_def by blast

lemma maintains_ret: "Q a \<Longrightarrow> maintains P (ret a) Q"
  by (simp add: maintains_def ret_def)

lemma maintains_fail: "maintains P (fail e) Q"
  by (simp add: maintains_def fail_def)

lemma maintains_then:
  assumes "maintains P m Q" and "\<And>a. Q a \<Longrightarrow> maintains P (f a) Q'"
  shows "maintains P (and_then m f) Q'"
  unfolding maintains_def
proof (intro allI impI)
  fix w
  assume w: "P w"
  obtain r w' where m: "m w = (r, w')" by fastforce
  have w': "P w'" using maintainsD [OF assms(1) w] m by simp
  show "P (snd (and_then m f w)) \<and> (\<forall>a. fst (and_then m f w) = Inr a \<longrightarrow> Q' a)"
  proof (cases r)
    case (Inr a)
    then show ?thesis using maintains_result [OF assms(1) w] m assms(2) [of a] w' by (simp add: and_then_def maintains_def)
  qed (simp add: and_then_def m w')
qed

lemma maintains_handle:
  assumes "maintains P m Q" and "\<And>e. maintains P (h e) Q"
  shows "maintains P (handle p m h) Q"
proof -
  have "maintains P (attempt m) (\<lambda>r. \<forall>a. r = Inr a \<longrightarrow> Q a)"
    using assms(1) by (auto simp: maintains_def attempt_def split: prod.split)
  then show ?thesis
    unfolding handle_def by (rule maintains_then) (auto intro: assms(2) maintains_fail maintains_ret split: sum.split)
qed

lemma maintains_raise: "maintains P (raise_if b e) (\<lambda>_. \<not> b)"
  by (simp add: raise_if_def maintains_fail maintains_ret)

lemma maintains_query: "(\<And>w a. P w \<Longrightarrow> f (w_ext w) (w_store w) = Inr a \<Longrightarrow> Q a) \<Longrightarrow> maintains P (query f) Q"
  by (simp add: maintains_def query_def)

lemma maintains_external:
  assumes "\<And>w x. P w \<Longrightarrow> P (w\<lparr>w_ext := x\<rparr>)" and "\<And>x a. fst (f x) = Inr a \<Longrightarrow> Q a"
  shows "maintains P (external f) Q"
  using assms by (auto simp: maintains_def external_def split: prod.split) (metis fst_conv)

lemma maintains_call:
  assumes "\<And>w a s'. P w \<Longrightarrow> f (w_ext w) (w_store w) = Inr (a, s') \<Longrightarrow> P (w\<lparr>w_store := s'\<rparr>) \<and> Q a"
  shows "maintains P (call f) Q"
  using assms by (fastforce simp: maintains_def call_def split: sum.split)

lemma maintains_guarded: "maintains P m Q \<Longrightarrow> maintains P (guarded i m) Q"
  by (auto simp: maintains_def guarded_def split: option.split)

lemma maintains_for_each: "(\<And>a. a \<in> set as \<Longrightarrow> maintains P (f a) (\<lambda>_. True)) \<Longrightarrow> maintains P (for_each as f) (\<lambda>_. True)"
  by (induction as) (auto intro: maintains_then maintains_ret)

lemma maintains_map_actions:
  "(\<And>a. a \<in> set as \<Longrightarrow> maintains P (f a) (\<lambda>_. True)) \<Longrightarrow> maintains P (map_actions f as) (\<lambda>_. True)"
proof (induction as)
  case (Cons a as)
  have "maintains P (f a) (\<lambda>_. True)" "maintains P (map_actions f as) (\<lambda>_. True)" using Cons by simp_all
  then show ?case unfolding map_actions.simps by (intro maintains_then [where Q = "\<lambda>_. True"] maintains_ret) simp_all
qed (simp add: maintains_ret)

end
