(* ===== verification/Reconcile.thy ===== *)
theory Reconcile
  imports Control_Monad Camera_Store Move_Store
begin

text \<open>
  The reconcilers of \<^verbatim>\<open>reconcile.py\<close>: they bring the paths that the media nodes serve to what the store
  asks for, and drive camera moves through their phases. The media nodes, the cancellation of a cycle
  and the waiting for locks are outside; a client may raise, or answer anything, at every call.
\<close>

section \<open>Media nodes\<close>

text \<open>The data of \<^verbatim>\<open>media.py\<close>; \<^verbatim>\<open>max_readers\<close> is 1 for a served path and -1 for a quiesced one.\<close>

record media_path_config =
  mp_name :: public_id
  mp_source_url :: string
  mp_max_readers :: int

definition media_path_config_post_init :: "media_path_config \<Rightarrow> py_error option" where
  "media_path_config_post_init p =
     (if mp_max_readers p \<notin> {-1, 1} then Some (ValueError ''media_path_reader_limit_invalid'') else None)"

record media_path_inventory =
  mi_camera_ids :: "public_id list"
  mi_no_oracle_matcher_present :: bool

record 'x media_client =
  mc_put_path :: "media_path_config \<Rightarrow> 'x \<Rightarrow> (py_error + unit) \<times> 'x"
  mc_get_path :: "public_id \<Rightarrow> 'x \<Rightarrow> (py_error + media_path_config option) \<times> 'x"
  mc_inventory_paths :: "'x \<Rightarrow> (py_error + media_path_inventory) \<times> 'x"
  mc_delete_path :: "public_id \<Rightarrow> 'x \<Rightarrow> (py_error + unit) \<times> 'x"
  mc_path_runtime_status :: "public_id \<Rightarrow> 'x \<Rightarrow> (py_error + (bool \<times> int) option) \<times> 'x"

text \<open>
  What a reconciler is constructed and called with. \<^verbatim>\<open>rc_acquire\<close> is the wait of \<^verbatim>\<open>reconcile_guard\<close> for the
  lock of a node: true when the lock was taken, false when the cancellation was seen first.
  \<^verbatim>\<open>rc_set_order\<close> is the order in which a Python set is iterated, \<^verbatim>\<open>rc_env\<close> the clocks of the store.
\<close>

record 'x reconciler =
  rc_for_node :: "media_node \<Rightarrow> 'x \<Rightarrow> (py_error + 'x media_client) \<times> 'x"
  rc_cancelled :: "'x \<Rightarrow> bool \<times> 'x"
  rc_acquire :: "uuid \<Rightarrow> 'x \<Rightarrow> bool \<times> 'x"
  rc_set_order :: "'x \<Rightarrow> public_id list \<Rightarrow> public_id list"
  rc_env :: "'x \<Rightarrow> store_env"

definition put_path :: "'x media_client \<Rightarrow> media_path_config \<Rightarrow> ('x, unit) action" where
  "put_path client path = external (mc_put_path client path)"

definition get_path :: "'x media_client \<Rightarrow> public_id \<Rightarrow> ('x, media_path_config option) action" where
  "get_path client name = external (mc_get_path client name)"

definition delete_path :: "'x media_client \<Rightarrow> public_id \<Rightarrow> ('x, unit) action" where
  "delete_path client name = external (mc_delete_path client name)"

definition for_node :: "'x reconciler \<Rightarrow> media_node \<Rightarrow> ('x, 'x media_client) action" where
  "for_node c node = external (rc_for_node c node)"

definition is_cancelled :: "'x reconciler \<Rightarrow> ('x, bool) action" where
  "is_cancelled c = external (\<lambda>x. apfst Inr (rc_cancelled c x))"

definition continue_or_cancel :: "'x reconciler \<Rightarrow> ('x, unit) action" where
  "continue_or_cancel c =
     and_then (is_cancelled c) (\<lambda>b. raise_if b (ReconcileCancelled ''camera_reconcile_cancelled''))"

text \<open>\<^verbatim>\<open>with self._store.reconcile_guard(node_id, cancelled=cancelled): ...\<close>\<close>

definition reconcile_guarded :: "'x reconciler \<Rightarrow> uuid \<Rightarrow> ('x, 'a) action \<Rightarrow> ('x, 'a) action" where
  "reconcile_guarded c node_id body =
     guarded node_id
       (and_then (external (\<lambda>x. apfst Inr (rc_acquire c node_id x))) (\<lambda>taken.
        and_then (raise_if (\<not> taken) (NodeLifecycleBusy ''node_lifecycle_busy'')) (\<lambda>_. body)))"

definition served_path :: "public_id \<Rightarrow> string \<Rightarrow> media_path_config" where
  "served_path name url = \<lparr>mp_name = name, mp_source_url = url, mp_max_readers = 1\<rparr>"

definition quiesced_path :: "public_id \<Rightarrow> string \<Rightarrow> media_path_config" where
  "quiesced_path name url = \<lparr>mp_name = name, mp_source_url = url, mp_max_readers = - 1\<rparr>"

section \<open>One path\<close>

definition safe_read_back ::
  "'x reconciler \<Rightarrow> 'x media_client \<Rightarrow> media_path_config \<Rightarrow> ('x, media_path_config option) action" where
  "safe_read_back c client expected =
     handle is_media_node_error
       (and_then (continue_or_cancel c) (\<lambda>_. get_path client (mp_name expected)))
       (\<lambda>e. fail (ReconcileRetry ''camera_reconcile_unverified''))"

definition safe_get ::
  "'x reconciler \<Rightarrow> 'x media_client \<Rightarrow> public_id \<Rightarrow> ('x, media_path_config option) action" where
  "safe_get c client name =
     handle is_media_node_error
       (and_then (continue_or_cancel c) (\<lambda>_. get_path client name))
       (\<lambda>e. fail (ReconcileRetry ''camera_reconcile_orphan_unverified''))"

definition remove_disabled_path :: "'x reconciler \<Rightarrow> 'x media_client \<Rightarrow> public_id \<Rightarrow> ('x, unit) action" where
  "remove_disabled_path c client name =
     and_then
       (handle is_media_node_error
          (and_then (continue_or_cancel c) (\<lambda>_.
           and_then (get_path client name) (\<lambda>path.
             if path = None then ret None
             else
               and_then (continue_or_cancel c) (\<lambda>_.
               and_then (delete_path client name) (\<lambda>_.
               and_then (continue_or_cancel c) (\<lambda>_.
                 get_path client name))))))
          (\<lambda>e. safe_get c client name))
       (\<lambda>remaining. raise_if (remaining \<noteq> None) (ReconcileRetry ''camera_reconcile_delete_unverified''))"

section \<open>Cameras of a node\<close>

definition mark_applied_call :: "uuid \<Rightarrow> camera_placement \<Rightarrow> ('x, unit) action" where
  "mark_applied_call node_id camera =
     and_then (call (\<lambda>x. mark_camera_applied (cp_id camera) node_id (cp_placement_generation camera)
                          (cp_desired_revision camera))) (\<lambda>marked.
       raise_if (\<not> marked) (ReconcileRetry ''camera_reconcile_fenced''))"

text \<open>The verified path of an enabled camera and whether it had to be changed.\<close>

definition apply_path ::
  "'x reconciler \<Rightarrow> 'x media_client \<Rightarrow> media_path_config \<Rightarrow> ('x, media_path_config option \<times> bool) action" where
  "apply_path c client path =
     handle is_media_node_error
       (and_then (get_path client (mp_name path)) (\<lambda>actual.
        let changed = actual \<noteq> Some path in
        and_then (if changed
                  then and_then (continue_or_cancel c) (\<lambda>_. put_path client path)
                  else ret ()) (\<lambda>_.
        and_then (continue_or_cancel c) (\<lambda>_.
        and_then (get_path client (mp_name path)) (\<lambda>verified.
          ret (verified, changed))))))
       (\<lambda>e. and_then (safe_read_back c client path) (\<lambda>verified. ret (verified, True)))"

text \<open>One round of the loop over the cameras; the result says whether the camera counts as applied.\<close>

definition reconcile_camera ::
  "'x reconciler \<Rightarrow> 'x media_client \<Rightarrow> uuid \<Rightarrow> uuid list \<Rightarrow> camera_placement \<Rightarrow> ('x, bool) action" where
  "reconcile_camera c client node_id move_camera_ids camera =
     and_then (continue_or_cancel c) (\<lambda>_.
       if cp_id camera \<in> set move_camera_ids then ret False
       else if cp_state camera \<noteq> CS_ENABLED
       then and_then (remove_disabled_path c client (cp_public_id camera)) (\<lambda>_.
            and_then (mark_applied_call node_id camera) (\<lambda>_. ret True))
       else
         let path = served_path (cp_public_id camera) (cp_source_url camera) in
         and_then (apply_path c client path) (\<lambda>(verified, changed).
         and_then (raise_if (verified \<noteq> Some path) (ReconcileRetry ''camera_reconcile_unverified'')) (\<lambda>_.
         and_then (mark_applied_call node_id camera) (\<lambda>_. ret changed))))"

definition delete_orphan :: "'x reconciler \<Rightarrow> 'x media_client \<Rightarrow> public_id \<Rightarrow> ('x, unit) action" where
  "delete_orphan c client orphan =
     and_then (continue_or_cancel c) (\<lambda>_.
     and_then
       (handle is_media_node_error
          (and_then (delete_path client orphan) (\<lambda>_.
           and_then (continue_or_cancel c) (\<lambda>_.
             get_path client orphan)))
          (\<lambda>e. safe_get c client orphan))
       (\<lambda>remaining. raise_if (remaining \<noteq> None) (ReconcileRetry ''camera_reconcile_orphan_unverified'')))"

record reconcile_report =
  rr_node_id :: uuid
  rr_applied :: int
  rr_unchanged :: int
  rr_deleted_orphans :: int

text \<open>The names the loop over the orphans goes through.\<close>

definition orphans :: "media_path_inventory \<Rightarrow> camera_placement list \<Rightarrow> camera_move list \<Rightarrow> public_id list" where
  "orphans inventory desired active_moves =
     filter (\<lambda>name. name \<notin> set (map cp_public_id desired) \<union> set (map mv_public_id active_moves))
       (remdups (mi_camera_ids inventory))"

definition reconcile_node :: "'x reconciler \<Rightarrow> uuid \<Rightarrow> ('x, reconcile_report) action" where
  "reconcile_node c node_id =
     and_then (continue_or_cancel c) (\<lambda>_.
       reconcile_guarded c node_id
         (and_then (query (\<lambda>x s. Inr (get_node node_id s))) (\<lambda>found.
          case found of
            None \<Rightarrow> fail (NodeNotFound ''node_not_found'')
          | Some node \<Rightarrow>
              and_then (raise_if (nd_runtime_state node \<noteq> NS_RUNNING \<or> \<not> nd_config_compatible node)
                          (ReconcileRetry ''camera_reconcile_node_unavailable'')) (\<lambda>_.
              and_then (for_node c node) (\<lambda>client.
              and_then (query (\<lambda>x. list_node_cameras node_id)) (\<lambda>desired.
              and_then (query (\<lambda>x s. Inr (list_node_active_moves node_id s))) (\<lambda>active_moves.
              and_then (external (mc_inventory_paths client)) (\<lambda>inventory.
              and_then (raise_if (\<not> mi_no_oracle_matcher_present inventory)
                          (ReconcileRetry ''camera_reconcile_reserved_path_missing'')) (\<lambda>_.
              and_then (map_actions (reconcile_camera c client node_id (map mv_camera_id active_moves))
                          desired) (\<lambda>changes.
              and_then (query (\<lambda>x s. Inr (rc_set_order c x (orphans inventory desired active_moves)))) (\<lambda>names.
              and_then (for_each names (delete_orphan c client)) (\<lambda>_.
                ret \<lparr>rr_node_id = node_id,
                     rr_applied = int (length (filter id changes)),
                     rr_unchanged = int (length (filter Not changes)),
                     rr_deleted_orphans = int (length names)\<rparr>))))))))))))"

end
