(* ===== verification/Move_Reconcile.thy ===== *)
theory Move_Reconcile
  imports Reconcile
begin

text \<open>
  \<^verbatim>\<open>CameraMoveReconciler\<close> and \<^verbatim>\<open>ReconcileCoordinator\<close> of \<^verbatim>\<open>reconcile.py\<close>: a move is resumed from whatever phase
  it is in, and a cycle resumes every move and reconciles every running node.
\<close>

section \<open>Work of the phases\<close>

definition get_node_query :: "uuid \<Rightarrow> ('x, media_node option) action" where
  "get_node_query node_id = query (\<lambda>x s. Inr (get_node node_id s))"

text \<open>The client of a node that has to exist.\<close>

definition client_of :: "'x reconciler \<Rightarrow> uuid \<Rightarrow> string \<Rightarrow> ('x, 'x media_client) action" where
  "client_of c node_id missing =
     and_then (get_node_query node_id) (\<lambda>found.
       case found of None \<Rightarrow> fail (ReconcileRetry missing) | Some node \<Rightarrow> for_node c node)"

definition prepare_and_verify :: "'x reconciler \<Rightarrow> camera_move \<Rightarrow> ('x, unit) action" where
  "prepare_and_verify c move =
     and_then (continue_or_cancel c) (\<lambda>_.
     and_then (client_of c (mv_target_node_id move) ''camera_move_target_missing'') (\<lambda>client.
       let expected = quiesced_path (mv_public_id move) (mv_source_url move) in
       and_then
         (handle is_media_node_error
            (and_then (get_path client (mv_public_id move)) (\<lambda>present.
             and_then (if present \<noteq> Some expected
                       then and_then (continue_or_cancel c) (\<lambda>_. put_path client expected)
                       else ret ()) (\<lambda>_.
             and_then (continue_or_cancel c) (\<lambda>_.
               get_path client (mv_public_id move)))))
            (\<lambda>e. safe_read_back c client expected))
         (\<lambda>actual. raise_if (actual \<noteq> Some expected) (ReconcileRetry ''camera_move_target_unverified''))))"

definition activate_target :: "'x reconciler \<Rightarrow> camera_move \<Rightarrow> ('x, unit) action" where
  "activate_target c move =
     and_then (continue_or_cancel c) (\<lambda>_.
     and_then (client_of c (mv_target_node_id move) ''camera_move_target_missing'') (\<lambda>client.
       let expected = served_path (mv_public_id move) (mv_source_url move) in
       and_then (put_path client expected) (\<lambda>_.
       and_then (continue_or_cancel c) (\<lambda>_.
       and_then (get_path client (mv_public_id move)) (\<lambda>actual.
         raise_if (actual \<noteq> Some expected) (ReconcileRetry ''camera_move_target_activation_unverified''))))))"

definition cleanup_source :: "'x reconciler \<Rightarrow> camera_move \<Rightarrow> ('x, unit) action" where
  "cleanup_source c move =
     and_then (continue_or_cancel c) (\<lambda>_.
     and_then (client_of c (mv_source_node_id move) ''camera_move_source_missing'') (\<lambda>client.
       remove_disabled_path c client (mv_public_id move)))"

definition cleanup_target :: "'x reconciler \<Rightarrow> camera_move \<Rightarrow> ('x, unit) action" where
  "cleanup_target c move =
     and_then (continue_or_cancel c) (\<lambda>_.
     and_then (client_of c (mv_target_node_id move) ''camera_move_target_missing'') (\<lambda>client.
       remove_disabled_path c client (mv_public_id move)))"

definition restore_source :: "'x reconciler \<Rightarrow> camera_move \<Rightarrow> ('x, unit) action" where
  "restore_source c move =
     and_then (continue_or_cancel c) (\<lambda>_.
     and_then (client_of c (mv_source_node_id move) ''camera_move_source_missing'') (\<lambda>client.
       let expected = served_path (mv_public_id move) (mv_source_url move) in
       and_then (continue_or_cancel c) (\<lambda>_.
       and_then (put_path client expected) (\<lambda>_.
       and_then (continue_or_cancel c) (\<lambda>_.
       and_then (get_path client (mv_public_id move)) (\<lambda>actual.
         raise_if (actual \<noteq> Some expected) (ReconcileRetry ''camera_move_source_restore_unverified'')))))))"

definition status_readers :: "(bool \<times> int) option \<Rightarrow> int" where
  "status_readers status = (case status of None \<Rightarrow> 0 | Some (ready, readers) \<Rightarrow> readers)"

definition quiesce_and_validate_source :: "'x reconciler \<Rightarrow> camera_move \<Rightarrow> ('x, unit) action" where
  "quiesce_and_validate_source c move =
     and_then (continue_or_cancel c) (\<lambda>_.
     and_then (client_of c (mv_source_node_id move) ''camera_move_source_missing'') (\<lambda>client.
       let quiesced = quiesced_path (mv_public_id move) (mv_source_url move) in
       and_then (put_path client quiesced) (\<lambda>_.
       and_then (continue_or_cancel c) (\<lambda>_.
       and_then (get_path client (mv_public_id move)) (\<lambda>actual.
       and_then (raise_if (actual \<noteq> Some quiesced) (ReconcileRetry ''camera_move_quiesce_unverified'')) (\<lambda>_.
       and_then (continue_or_cancel c) (\<lambda>_.
       and_then (external (mc_path_runtime_status client (mv_public_id move))) (\<lambda>status.
         let readers = status_readers status in
         if readers > 1 then fail (CameraReaderInvariantViolation ''camera_reader_limit_violated'')
         else if \<not> mv_force move \<and> readers \<noteq> 0 then fail (CameraOccupied ''camera_occupied'')
         else if mv_force move \<and> readers \<noteq> mv_confirmed_disconnect_readers move
         then fail (MoveConfirmationRequired ''move_confirmation_required'')
         else ret ()))))))))"

section \<open>Resuming a move\<close>

text \<open>The \<^verbatim>\<open>except\<close> clauses around the switch: the reason a failed attempt is aborted with.\<close>

fun abort_reason :: "py_error \<Rightarrow> string option" where
  "abort_reason (CameraMoveExpired m) = Some ''camera_move_expired''"
| "abort_reason (CameraOccupied m) = Some ''camera_move_occupancy_changed''"
| "abort_reason (CameraReaderInvariantViolation m) = Some ''camera_move_occupancy_changed''"
| "abort_reason (MoveConfirmationRequired m) = Some ''camera_move_occupancy_changed''"
| "abort_reason (EligibleNodeMissing m) = Some ''camera_move_target_ineligible''"
| "abort_reason (NodeCameraCapacityReached m) = Some ''camera_move_target_ineligible''"
| "abort_reason e = None"

definition switch_call :: "'x reconciler \<Rightarrow> uuid \<Rightarrow> ('x, camera_move) action" where
  "switch_call c move_id =
     and_then (is_cancelled c) (\<lambda>b. call (\<lambda>x. switch_camera_move (rc_env c x) move_id b))"

definition abort_request_call :: "'x reconciler \<Rightarrow> uuid \<Rightarrow> string \<Rightarrow> ('x, camera_move) action" where
  "abort_request_call c move_id reason =
     and_then (is_cancelled c) (\<lambda>b. call (\<lambda>x. request_camera_move_abort move_id reason b))"

definition resume_prepare :: "'x reconciler \<Rightarrow> camera_move \<Rightarrow> ('x, camera_move) action" where
  "resume_prepare c move =
     (if mv_state move \<noteq> CM_PREPARE_TARGET then ret move
      else
        and_then (prepare_and_verify c move) (\<lambda>_.
          handle (\<lambda>e. abort_reason e \<noteq> None)
            (and_then (quiesce_and_validate_source c move) (\<lambda>_.
             and_then (continue_or_cancel c) (\<lambda>_.
               switch_call c (mv_id move))))
            (\<lambda>e. abort_request_call c (mv_id move) (the (abort_reason e)))))"

definition resume_cleanup_target :: "'x reconciler \<Rightarrow> camera_move \<Rightarrow> ('x, camera_move) action" where
  "resume_cleanup_target c move =
     (if mv_state move \<noteq> CM_CLEANUP_TARGET then ret move
      else
        and_then (cleanup_target c move) (\<lambda>_.
        and_then (restore_source c move) (\<lambda>_.
        and_then (continue_or_cancel c) (\<lambda>_.
          call (\<lambda>x. abort_camera_move (mv_id move))))))"

definition resume_cleanup_source :: "'x reconciler \<Rightarrow> camera_move \<Rightarrow> ('x, camera_move) action" where
  "resume_cleanup_source c move =
     (if mv_state move \<noteq> CM_CLEANUP_SOURCE then ret move
      else
        and_then (cleanup_source c move) (\<lambda>_.
        and_then (continue_or_cancel c) (\<lambda>_.
          call (\<lambda>x. mark_camera_move_source_cleaned (mv_id move)))))"

definition resume_activate :: "'x reconciler \<Rightarrow> camera_move \<Rightarrow> ('x, camera_move) action" where
  "resume_activate c move =
     (if mv_state move \<noteq> CM_ACTIVATE_TARGET then ret move
      else
        and_then (activate_target c move) (\<lambda>_.
        and_then (continue_or_cancel c) (\<lambda>_.
          call (\<lambda>x. complete_camera_move (mv_id move)))))"

text \<open>\<^verbatim>\<open>_node_guards\<close>: the guards of the one or two nodes, smaller id first.\<close>

fun node_guards :: "'x reconciler \<Rightarrow> uuid list \<Rightarrow> ('x, 'a) action \<Rightarrow> ('x, 'a) action" where
  "node_guards c [] body = body"
| "node_guards c (i # is) body = reconcile_guarded c i (node_guards c is body)"

definition guard_order :: "camera_move \<Rightarrow> uuid list" where
  "guard_order move = sort_key uuid_int (remdups [mv_source_node_id move, mv_target_node_id move])"

definition get_move_call :: "uuid \<Rightarrow> ('x, camera_move) action" where
  "get_move_call move_id =
     and_then (query (\<lambda>x s. Inr (get_camera_move move_id s))) (\<lambda>found.
       case found of None \<Rightarrow> fail (CameraNotFound ''camera_move_not_found'') | Some move \<Rightarrow> ret move)"

definition resume :: "'x reconciler \<Rightarrow> uuid \<Rightarrow> ('x, camera_move) action" where
  "resume c move_id =
     and_then (continue_or_cancel c) (\<lambda>_.
     and_then (get_move_call move_id) (\<lambda>move.
       if camera_move_is_terminal (mv_state move) then ret move
       else
         node_guards c (guard_order move)
           (and_then (get_move_call move_id) (\<lambda>m1.
            and_then (resume_prepare c m1) (\<lambda>m2.
            and_then (resume_cleanup_target c m2) (\<lambda>m3.
            and_then (resume_cleanup_source c m3) (\<lambda>m4.
              resume_activate c m4)))))))"

section \<open>A cycle\<close>

record reconcile_cycle_report =
  cy_completed_moves :: int
  cy_reconciled_nodes :: int
  cy_retryable_failures :: int

definition is_retryable :: "py_error \<Rightarrow> bool" where
  "is_retryable e \<longleftrightarrow>
     is_reconcile_retry e \<or> is_media_node_error e \<or> is_camera_lifecycle_conflict e \<or> is_lifecycle_busy e"

text \<open>
  What one round adds to the counters: \<open>Some True\<close> for a completed move or a reconciled node, \<open>Some False\<close>
  for a retryable failure, \<open>None\<close> for nothing.
\<close>

definition cycle_move :: "'x reconciler \<Rightarrow> camera_move \<Rightarrow> ('x, bool option) action" where
  "cycle_move c move =
     and_then (continue_or_cancel c) (\<lambda>_.
       handle is_retryable
         (and_then (resume c (mv_id move)) (\<lambda>result.
            ret (if mv_state result = CM_COMPLETE then Some True else None)))
         (\<lambda>e. ret (Some False)))"

definition cycle_node :: "'x reconciler \<Rightarrow> media_node \<Rightarrow> ('x, bool option) action" where
  "cycle_node c node =
     and_then (continue_or_cancel c) (\<lambda>_.
       if nd_runtime_state node \<noteq> NS_RUNNING then ret None
       else
         handle is_retryable
           (and_then (reconcile_node c (nd_id node)) (\<lambda>report. ret (Some True)))
           (\<lambda>e. ret (Some False)))"

definition run_once :: "'x reconciler \<Rightarrow> ('x, reconcile_cycle_report) action" where
  "run_once c =
     and_then (query (\<lambda>x s. Inr (list_incomplete_camera_moves s))) (\<lambda>moves.
     and_then (map_actions (cycle_move c) moves) (\<lambda>moved.
     and_then (query (\<lambda>x s. Inr (list_nodes s))) (\<lambda>nodes.
     and_then (map_actions (cycle_node c) nodes) (\<lambda>reconciled.
       ret \<lparr>cy_completed_moves = int (length (filter (\<lambda>r. r = Some True) moved)),
            cy_reconciled_nodes = int (length (filter (\<lambda>r. r = Some True) reconciled)),
            cy_retryable_failures = int (length (filter (\<lambda>r. r = Some False) (moved @ reconciled)))\<rparr>))))"

end
