(* ===== verification/Reconcile_Laws.thy ===== *)
theory Reconcile_Laws
  imports Outcomes Move_Reconcile Store_Invariant
begin

text \<open>
  The reconcilers over media nodes that work: no call fails, a path that was put is read back, a
  deleted one is gone, and no cancellation is requested. What a reconciler then does is determined by
  the store and by the paths of the nodes.
\<close>

section \<open>Media nodes that work\<close>

type_synonym node_paths = "uuid \<Rightarrow> public_id \<Rightarrow> media_path_config option"

text \<open>
  A description of the outside: the paths of each node in a state, the clients the factory returns,
  the order of listings and of sets, and the number of readers of a path.
\<close>

record 'x media_world =
  mw_paths :: "'x \<Rightarrow> node_paths"
  mw_client :: "media_node \<Rightarrow> 'x media_client"
  mw_listing :: "(public_id \<Rightarrow> media_path_config option) \<Rightarrow> public_id list"
  mw_order :: "public_id list \<Rightarrow> public_id list"
  mw_readers :: "uuid \<Rightarrow> public_id \<Rightarrow> int"

definition same_paths :: "'x media_world \<Rightarrow> ('x \<Rightarrow> 'r \<times> 'x) \<Rightarrow> ('x \<Rightarrow> 'r) \<Rightarrow> bool" where
  "same_paths mw f r \<longleftrightarrow> (\<forall>x. fst (f x) = r x \<and> mw_paths mw (snd (f x)) = mw_paths mw x)"

definition client_works :: "'x media_world \<Rightarrow> uuid \<Rightarrow> 'x media_client \<Rightarrow> bool" where
  "client_works mw i cl \<longleftrightarrow>
     (\<forall>p x. fst (mc_put_path cl p x) = Inr ()
        \<and> mw_paths mw (snd (mc_put_path cl p x)) = (mw_paths mw x)(i := (mw_paths mw x i)(mp_name p \<mapsto> p)))
   \<and> (\<forall>n x. fst (mc_delete_path cl n x) = Inr ()
        \<and> mw_paths mw (snd (mc_delete_path cl n x)) = (mw_paths mw x)(i := (mw_paths mw x i)(n := None)))
   \<and> (\<forall>n. same_paths mw (mc_get_path cl n) (\<lambda>x. Inr (mw_paths mw x i n)))
   \<and> same_paths mw (mc_inventory_paths cl)
       (\<lambda>x. Inr \<lparr>mi_camera_ids = mw_listing mw (mw_paths mw x i), mi_no_oracle_matcher_present = True\<rparr>)
   \<and> (\<forall>n. same_paths mw (mc_path_runtime_status cl n) (\<lambda>x. Inr (Some (True, mw_readers mw i n))))"

definition media_works :: "'x reconciler \<Rightarrow> 'x media_world \<Rightarrow> bool" where
  "media_works c mw \<longleftrightarrow>
     same_paths mw (rc_cancelled c) (\<lambda>x. False)
   \<and> (\<forall>i. same_paths mw (rc_acquire c i) (\<lambda>x. True))
   \<and> (\<forall>n. same_paths mw (rc_for_node c n) (\<lambda>x. Inr (mw_client mw n)) \<and> client_works mw (nd_id n) (mw_client mw n))
   \<and> (\<forall>x names. rc_set_order c x names = mw_order mw names \<and> set (mw_order mw names) = set names)
   \<and> (\<forall>x i. set (mw_listing mw (mw_paths mw x i)) = dom (mw_paths mw x i))"

abbreviation media_gives ::
  "'x media_world \<Rightarrow> ('x, 'a) action \<Rightarrow> node_store \<Rightarrow> node_paths \<Rightarrow> py_error + 'a \<Rightarrow> node_store \<Rightarrow> node_paths \<Rightarrow> bool" where
  "media_gives mw \<equiv> gives (mw_paths mw)"

lemma same_paths_gives: "same_paths mw f (\<lambda>x. r (mw_paths mw x)) \<Longrightarrow> media_gives mw (external f) s v (r v) s v"
  by (rule gives_external) (metis same_paths_def surjective_pairing)

lemma gives_put:
  "client_works mw i cl \<Longrightarrow> media_gives mw (put_path cl p) s v (Inr ()) s (v(i := (v i)(mp_name p \<mapsto> p)))"
  unfolding put_path_def by (rule gives_external) (metis client_works_def surjective_pairing)

lemma gives_delete:
  "client_works mw i cl \<Longrightarrow> media_gives mw (delete_path cl n) s v (Inr ()) s (v(i := (v i)(n := None)))"
  unfolding delete_path_def by (rule gives_external) (metis client_works_def surjective_pairing)

lemma gives_get: "client_works mw i cl \<Longrightarrow> media_gives mw (get_path cl n) s v (Inr (v i n)) s v"
  unfolding get_path_def by (rule same_paths_gives [where r = "\<lambda>v. Inr (v i n)"]) (simp add: client_works_def)

lemma gives_inventory:
  "client_works mw i cl \<Longrightarrow> media_gives mw (external (mc_inventory_paths cl)) s v
     (Inr \<lparr>mi_camera_ids = mw_listing mw (v i), mi_no_oracle_matcher_present = True\<rparr>) s v"
  by (rule same_paths_gives [where r = "\<lambda>v. Inr \<lparr>mi_camera_ids = mw_listing mw (v i), mi_no_oracle_matcher_present = True\<rparr>"])
    (simp add: client_works_def)

lemma gives_status:
  "client_works mw i cl \<Longrightarrow>
   media_gives mw (external (mc_path_runtime_status cl n)) s v (Inr (Some (True, mw_readers mw i n))) s v"
  by (rule same_paths_gives) (simp add: client_works_def)

lemma gives_answer:
  "same_paths mw f (\<lambda>x. b) \<Longrightarrow> media_gives mw (external (\<lambda>x. apfst Inr (f x))) s v (Inr b) s v"
  by (rule gives_external) (metis apfst_conv same_paths_def surjective_pairing)

lemma gives_uncancelled: "media_works c mw \<Longrightarrow> media_gives mw (is_cancelled c) s v (Inr False) s v"
  unfolding is_cancelled_def by (rule gives_answer) (simp add: media_works_def)

lemma gives_continue: "media_works c mw \<Longrightarrow> media_gives mw (continue_or_cancel c) s v (Inr ()) s v"
  unfolding continue_or_cancel_def by (rule gives_then [OF gives_uncancelled]) (simp_all add: gives_passes)

lemma gives_then_continue:
  "media_works c mw \<Longrightarrow> media_gives mw (f ()) s v r s' v' \<Longrightarrow> media_gives mw (and_then (continue_or_cancel c) f) s v r s' v'"
  by (rule gives_then [OF gives_continue])

lemma gives_reconcile_guarded:
  assumes "media_works c mw" and "lifecycle_guard i s = None" and "media_gives mw m s v r s' v'"
  shows "media_gives mw (reconcile_guarded c i m) s v r s' v'"
  unfolding reconcile_guarded_def
  by (rule gives_guarded [OF assms(2)], rule gives_then [OF gives_answer [where b = True]])
    (use assms in \<open>auto simp: media_works_def intro: gives_then [OF gives_passes]\<close>)

lemma gives_for_node: "media_works c mw \<Longrightarrow> media_gives mw (for_node c n) s v (Inr (mw_client mw n)) s v"
  unfolding for_node_def by (rule same_paths_gives) (simp add: media_works_def)

lemma client_worksI: "media_works c mw \<Longrightarrow> client_works mw (nd_id n) (mw_client mw n)"
  by (simp add: media_works_def)

section \<open>One path\<close>

lemma fun_upd_None: "v i n = None \<Longrightarrow> v(i := (v i)(n := None)) = v"
  by (auto simp: fun_eq_iff)

lemma fun_upd_same: "v i n = Some p \<Longrightarrow> v(i := (v i)(n \<mapsto> p)) = v"
  by (auto simp: fun_eq_iff)

lemma gives_remove_path:
  assumes "media_works c mw" and cl: "client_works mw i cl"
  shows "media_gives mw (remove_disabled_path c cl n) s v (Inr ()) s (v(i := (v i)(n := None)))"
proof -
  let ?v = "v(i := (v i)(n := None))"
  have removal: "media_gives mw (if v i n = None then ret None
      else and_then (continue_or_cancel c) (\<lambda>_. and_then (delete_path cl n) (\<lambda>_.
        and_then (continue_or_cancel c) (\<lambda>_. get_path cl n)))) s v (Inr None) s ?v"
  proof (cases "v i n = None")
    case True
    then show ?thesis by (simp add: gives_ret fun_upd_None)
  next
    case False
    have "media_gives mw (get_path cl n) s ?v (Inr None) s ?v" using gives_get [OF cl, of n s ?v] by simp
    with False assms show ?thesis by (auto intro!: gives_then_continue gives_then [OF gives_delete])
  qed
  show ?thesis
    unfolding remove_disabled_path_def
    by (rule gives_then [OF gives_handle], rule gives_then_continue [OF assms(1)], rule gives_then [OF gives_get [OF cl]],
        rule removal) (simp add: gives_passes)
qed

lemma gives_apply_path:
  assumes "media_works c mw" and cl: "client_works mw i cl"
  shows "media_gives mw (apply_path c cl p) s v (Inr (Some p, v i (mp_name p) \<noteq> Some p)) s (v(i := (v i)(mp_name p \<mapsto> p)))"
proof -
  let ?v = "v(i := (v i)(mp_name p \<mapsto> p))"
  have put: "media_gives mw (if v i (mp_name p) \<noteq> Some p then and_then (continue_or_cancel c) (\<lambda>_. put_path cl p) else ret ())
      s v (Inr ()) s ?v"
    using gives_then_continue [OF assms(1), where f = "\<lambda>_. put_path cl p"] gives_put [OF cl]
    by (auto simp: gives_ret fun_upd_same)
  have get: "media_gives mw (get_path cl (mp_name p)) s ?v (Inr (Some p)) s ?v"
    using gives_get [OF cl, of "mp_name p" s ?v] by simp
  show ?thesis
    unfolding apply_path_def Let_def
    by (rule gives_handle, rule gives_then [OF gives_get [OF cl]], rule gives_then [OF put],
        rule gives_then_continue [OF assms(1)], rule gives_then [OF get], rule gives_ret)
qed

lemma gives_delete_orphan:
  assumes "media_works c mw" and cl: "client_works mw i cl"
  shows "media_gives mw (delete_orphan c cl n) s v (Inr ()) s (v(i := (v i)(n := None)))"
proof -
  let ?v = "v(i := (v i)(n := None))"
  have get: "media_gives mw (get_path cl n) s ?v (Inr None) s ?v" using gives_get [OF cl, of n s ?v] by simp
  show ?thesis
    unfolding delete_orphan_def
    by (rule gives_then_continue [OF assms(1)], rule gives_then [OF gives_handle], rule gives_then [OF gives_delete [OF cl]],
        rule gives_then_continue [OF assms(1)], rule get) (simp add: gives_passes)
qed

lemma gives_delete_orphans:
  assumes "media_works c mw" and cl: "client_works mw i cl"
  shows "media_gives mw (for_each ns (delete_orphan c cl)) s v (Inr ()) s
    (v(i := (\<lambda>n. if n \<in> set ns then None else v i n)))"
proof (induction ns arbitrary: v)
  case (Cons n ns)
  let ?v = "v(i := (v i)(n := None))"
  have "?v(i := (\<lambda>m. if m \<in> set ns then None else ?v i m)) = v(i := (\<lambda>m. if m \<in> set (n # ns) then None else v i m))"
    by (auto simp: fun_eq_iff)
  with Cons [of ?v] show ?case
    unfolding for_each.simps by (intro gives_then [OF gives_delete_orphan [OF assms]]) (simp only: )
qed (simp add: gives_ret fun_upd_def)

end
