(* ===== verification/Move_Convergence.thy ===== *)
theory Move_Convergence
  imports Reconcile_Laws Move_Properties
begin

text \<open>
  A camera move over media nodes that work: the phases of \<^verbatim>\<open>resume\<close> and what they leave of the paths of
  the two nodes.
\<close>

section \<open>The phases\<close>

definition set_path :: "uuid \<Rightarrow> public_id \<Rightarrow> media_path_config option \<Rightarrow> node_paths \<Rightarrow> node_paths" where
  "set_path i n p v = v(i := (v i)(n := p))"

lemma set_path_at [simp]: "set_path i n p v j m = (if j = i \<and> m = n then p else v j m)"
  by (simp add: set_path_def)

lemma served_name [simp]: "mp_name (served_path n url) = n" "mp_name (quiesced_path n url) = n"
  by (simp_all add: served_path_def quiesced_path_def)

lemma gives_client_of:
  assumes "media_works c mw" and "find_node i s = Some n"
  shows "media_gives mw (client_of c i missing) s v (Inr (mw_client mw n)) s v" "client_works mw i (mw_client mw n)"
proof -
  show "media_gives mw (client_of c i missing) s v (Inr (mw_client mw n)) s v"
    unfolding client_of_def get_node_query_def
    by (rule gives_then [OF gives_query [where r = "Inr (Some n)"]]) (simp_all add: get_node_def assms(2) gives_for_node [OF assms(1)])
  show "client_works mw i (mw_client mw n)" using client_worksI [OF assms(1), of n] find_node_key [OF assms(2)] by simp
qed

text \<open>Putting a path and reading it back, which four of the phases do.\<close>

lemma gives_put_get:
  assumes "media_works c mw" and cl: "client_works mw i cl"
    and "media_gives mw (f (Some p)) s (set_path i (mp_name p) (Some p) v) r s' v'"
  shows "media_gives mw (and_then (put_path cl p) (\<lambda>_. and_then (continue_or_cancel c) (\<lambda>_.
    and_then (get_path cl (mp_name p)) f))) s v r s' v'"
proof -
  let ?v = "set_path i (mp_name p) (Some p) v"
  have "media_gives mw (get_path cl (mp_name p)) s ?v (Inr (Some p)) s ?v"
    using gives_get [OF cl, of "mp_name p" s ?v] by simp
  then show ?thesis
    by (intro gives_then [OF gives_put [OF cl, of p s v, folded set_path_def]] gives_then_continue [OF assms(1)])
      (rule gives_then, assumption, rule assms(3))
qed

lemma gives_prepare:
  assumes "media_works c mw" and n: "find_node (mv_target_node_id m) s = Some n"
  shows "media_gives mw (prepare_and_verify c m) s v (Inr ()) s
    (set_path (mv_target_node_id m) (mv_public_id m) (Some (quiesced_path (mv_public_id m) (mv_source_url m))) v)"
proof -
  let ?i = "mv_target_node_id m" and ?n = "mv_public_id m"
  let ?p = "quiesced_path ?n (mv_source_url m)"
  let ?v = "set_path ?i ?n (Some ?p) v"
  note cl = gives_client_of [OF assms]
  have put: "media_gives mw (if v ?i ?n \<noteq> Some ?p then and_then (continue_or_cancel c) (\<lambda>_. put_path (mw_client mw n) ?p) else ret ())
      s v (Inr ()) s ?v"
    using gives_then_continue [OF assms(1), where f = "\<lambda>_. put_path (mw_client mw n) ?p"] gives_put [OF cl(2), of ?p s v]
    by (auto simp: gives_ret fun_upd_same set_path_def)
  have get: "media_gives mw (get_path (mw_client mw n) ?n) s ?v (Inr (Some ?p)) s ?v"
    using gives_get [OF cl(2), of ?n s ?v] by simp
  show ?thesis
    unfolding prepare_and_verify_def Let_def
    by (rule gives_then_continue [OF assms(1)], rule gives_then [OF cl(1)], rule gives_then [OF gives_handle],
        rule gives_then [OF gives_get [OF cl(2)]], rule gives_then [OF put], rule gives_then_continue [OF assms(1)], rule get)
      (simp add: gives_passes)
qed

lemma gives_activate:
  assumes "media_works c mw" and n: "find_node (mv_target_node_id m) s = Some n"
  shows "media_gives mw (activate_target c m) s v (Inr ()) s
    (set_path (mv_target_node_id m) (mv_public_id m) (Some (served_path (mv_public_id m) (mv_source_url m))) v)"
  unfolding activate_target_def Let_def
  by (intro gives_then_continue [OF assms(1)] gives_then [OF gives_client_of(1) [OF assms]]
      gives_put_get [OF assms(1) gives_client_of(2) [OF assms], where p = "served_path (mv_public_id m) (mv_source_url m)",
        unfolded served_name]) (simp add: gives_passes)

lemma gives_restore:
  assumes "media_works c mw" and n: "find_node (mv_source_node_id m) s = Some n"
  shows "media_gives mw (restore_source c m) s v (Inr ()) s
    (set_path (mv_source_node_id m) (mv_public_id m) (Some (served_path (mv_public_id m) (mv_source_url m))) v)"
  unfolding restore_source_def Let_def
  by (intro gives_then_continue [OF assms(1)] gives_then [OF gives_client_of(1) [OF assms]]
      gives_put_get [OF assms(1) gives_client_of(2) [OF assms], where p = "served_path (mv_public_id m) (mv_source_url m)",
        unfolded served_name]) (simp add: gives_passes)

lemma gives_cleanup:
  assumes "media_works c mw"
  shows "find_node (mv_source_node_id m) s = Some n \<Longrightarrow>
      media_gives mw (cleanup_source c m) s v (Inr ()) s (set_path (mv_source_node_id m) (mv_public_id m) None v)"
    and "find_node (mv_target_node_id m) s = Some n \<Longrightarrow>
      media_gives mw (cleanup_target c m) s v (Inr ()) s (set_path (mv_target_node_id m) (mv_public_id m) None v)"
  unfolding cleanup_source_def cleanup_target_def set_path_def
  using assms gives_client_of [OF assms]
  by (auto intro!: gives_then_continue gives_then [OF gives_client_of(1)] gives_remove_path)

text \<open>What the check of the quiesced source says for a number of readers.\<close>

definition quiesce_outcome :: "camera_move \<Rightarrow> int \<Rightarrow> py_error + unit" where
  "quiesce_outcome m readers =
     (if readers > 1 then Inl (CameraReaderInvariantViolation ''camera_reader_limit_violated'')
      else if \<not> mv_force m \<and> readers \<noteq> 0 then Inl (CameraOccupied ''camera_occupied'')
      else if mv_force m \<and> readers \<noteq> mv_confirmed_disconnect_readers m
      then Inl (MoveConfirmationRequired ''move_confirmation_required'')
      else Inr ())"

lemma gives_quiesce:
  assumes "media_works c mw" and n: "find_node (mv_source_node_id m) s = Some n"
  shows "media_gives mw (quiesce_and_validate_source c m) s v
    (quiesce_outcome m (mw_readers mw (mv_source_node_id m) (mv_public_id m))) s
    (set_path (mv_source_node_id m) (mv_public_id m) (Some (quiesced_path (mv_public_id m) (mv_source_url m))) v)"
  unfolding quiesce_and_validate_source_def Let_def
proof (rule gives_then_continue [OF assms(1)], rule gives_then [OF gives_client_of(1) [OF assms]])
  let ?cl = "mw_client mw n" and ?p = "quiesced_path (mv_public_id m) (mv_source_url m)"
  note cl = gives_client_of(2) [OF assms]
  note run = gives_put_get [OF assms(1) cl, of _ ?p s v, unfolded served_name]
  show "media_gives mw (and_then (put_path ?cl ?p) (\<lambda>_. and_then (continue_or_cancel c) (\<lambda>_.
       and_then (get_path ?cl (mv_public_id m)) (\<lambda>actual.
       and_then (raise_if (actual \<noteq> Some ?p) (ReconcileRetry ''camera_move_quiesce_unverified'')) (\<lambda>_.
       and_then (continue_or_cancel c) (\<lambda>_.
       and_then (external (mc_path_runtime_status ?cl (mv_public_id m))) (\<lambda>status.
         if status_readers status > 1 then fail (CameraReaderInvariantViolation ''camera_reader_limit_violated'')
         else if \<not> mv_force m \<and> status_readers status \<noteq> 0 then fail (CameraOccupied ''camera_occupied'')
         else if mv_force m \<and> status_readers status \<noteq> mv_confirmed_disconnect_readers m
         then fail (MoveConfirmationRequired ''move_confirmation_required'')
         else ret ())))))))
    s v (quiesce_outcome m (mw_readers mw (mv_source_node_id m) (mv_public_id m))) s
    (set_path (mv_source_node_id m) (mv_public_id m) (Some ?p) v)"
    by (rule run, rule gives_then [OF gives_passes], simp, rule gives_then_continue [OF assms(1)],
        rule gives_then [OF gives_status [OF cl]])
      (simp add: status_readers_def quiesce_outcome_def gives_fail gives_ret)
qed

section \<open>Resuming\<close>

lemma gives_node_guards:
  assumes "media_works c mw" and "media_gives mw m s v r s' v'"
  shows "(\<And>i. i \<in> set is \<Longrightarrow> lifecycle_guard i s = None) \<Longrightarrow> media_gives mw (node_guards c is m) s v r s' v'"
  by (induction "is") (auto intro: assms gives_reconcile_guarded)

lemma gives_get_move: "find_move i s = Some m \<Longrightarrow> media_gives mw (get_move_call i) s v (Inr m) s v"
  unfolding get_move_call_def
  by (rule gives_then [OF gives_query [where r = "Inr (Some m)"]]) (simp_all add: get_camera_move_def gives_ret)

text \<open>A move between two nodes of the store that is not finished, and its nodes.\<close>

lemma active_move_nodes:
  assumes "store_inv s" and "find_move i s = Some m" and "\<not> camera_move_is_terminal (mv_state m)"
  obtains src tn where "find_node (mv_source_node_id m) s = Some src" "find_node (mv_target_node_id m) s = Some tn"
    "mv_source_node_id m \<noteq> mv_target_node_id m"
    "lifecycle_guard (mv_source_node_id m) s = None" "lifecycle_guard (mv_target_node_id m) s = None"
proof -
  have ok: "move_ok s m" using inv_found_move_ok [OF assms] by simp
  then obtain src tn where n: "find_node (mv_source_node_id m) s = Some src" "find_node (mv_target_node_id m) s = Some tn"
    by (auto simp: move_ok_def port_of_def)
  moreover have "lifecycle_guard j s = None" if "find_node j s = Some x" for j x
    using that store_invD(2) [OF assms(1)] by (auto simp: locks_ok_def lifecycle_guard_def dest: find_by_SomeD)
  moreover have "mv_source_node_id m \<noteq> mv_target_node_id m" using ok by (simp add: move_ok_def)
  ultimately show ?thesis using that by blast
qed

lemma gives_resume:
  assumes "media_works c mw" and inv: "store_inv s" and m: "find_move i s = Some m" "\<not> camera_move_is_terminal (mv_state m)"
    and "media_gives mw (resume_prepare c m) s v (Inr m2) s2 v2"
    and "media_gives mw (resume_cleanup_target c m2) s2 v2 (Inr m3) s3 v3"
    and "media_gives mw (resume_cleanup_source c m3) s3 v3 (Inr m4) s4 v4"
    and "media_gives mw (resume_activate c m4) s4 v4 r s5 v5"
  shows "media_gives mw (resume c i) s v r s5 v5"
proof -
  have "lifecycle_guard (mv_source_node_id m) s = None" "lifecycle_guard (mv_target_node_id m) s = None"
    by (rule active_move_nodes [OF inv m], assumption)+
  then have locks: "lifecycle_guard j s = None" if "j \<in> set (guard_order m)" for j
    using that by (simp only: guard_order_def set_sort set_remdups list.set insert_iff empty_iff) blast
  show ?thesis
    unfolding resume_def
    by (rule gives_then_continue [OF assms(1)], rule gives_then [OF gives_get_move [OF m(1)]], simp only: m(2) if_False,
        rule gives_node_guards [OF assms(1) _ locks], rule gives_then [OF gives_get_move [OF m(1)]],
        rule gives_then [OF assms(5)], rule gives_then [OF assms(6)], rule gives_then [OF assms(7)], rule assms(8))
qed

lemma gives_switch_call:
  assumes "media_works c mw" and "\<And>x. switch_camera_move (rc_env c x) i False s = Inr (m, s')"
  shows "media_gives mw (switch_call c i) s v (Inr m) s' v"
  unfolding switch_call_def by (rule gives_then [OF gives_uncancelled [OF assms(1)]]) (rule gives_call, simp add: assms(2))

lemma switch_determined:
  assumes "find_move i s = Some m" and "find_node (mv_target_node_id m) s = Some tn"
    and "env_clock env < mv_expires_at m" "env_clock env' < mv_expires_at m"
    and "is_node_eligible tn 30 (env_utc_now env)" "is_node_eligible tn 30 (env_utc_now env')"
  shows "switch_camera_move env i False s = switch_camera_move env' i False s"
  using assms by (simp add: switch_camera_move_def split: option.split)

lemma resume_completes_run:
  assumes "media_works c mw" and r: "reachable s" and m: "find_move i s = Some m" "mv_state m = CM_PREPARE_TARGET"
    and time: "\<And>x. env_clock (rc_env c x) < mv_expires_at m"
    and tgt: "find_node (mv_target_node_id m) s = Some tn" "\<And>x. is_node_eligible tn 30 (env_utc_now (rc_env c x))"
    and readers: "quiesce_outcome m (mw_readers mw (mv_source_node_id m) (mv_public_id m)) = Inr ()"
  obtains s' cam where "media_gives mw (resume c i) s v (Inr (m\<lparr>mv_state := CM_COMPLETE\<rparr>)) s'
      (set_path (mv_target_node_id m) (mv_public_id m) (Some (served_path (mv_public_id m) (mv_source_url m)))
        (set_path (mv_source_node_id m) (mv_public_id m) None v))"
    "find_move i s' = Some (m\<lparr>mv_state := CM_COMPLETE\<rparr>)"
    "find_camera (mv_camera_id m) s' = Some cam" "cp_node_id cam = mv_target_node_id m"
    "cp_node_port cam = nd_external_port tn" "cp_applied_revision cam = cp_desired_revision cam"
proof -
  note inv = store_machine.always [OF r]
  let ?S = "mv_source_node_id m" and ?T = "mv_target_node_id m" and ?n = "mv_public_id m"
  let ?q = "Some (quiesced_path ?n (mv_source_url m))" and ?p = "Some (served_path ?n (mv_source_url m))"
  have live: "\<not> camera_move_is_terminal (mv_state m)" using m(2) by (simp add: camera_move_is_terminal_def)
  obtain src where nodes: "find_node ?S s = Some src" "?S \<noteq> ?T" using active_move_nodes [OF inv m(1) live] by metis
  obtain m1 s1 where run: "switch_camera_move (rc_env c x) i False s = Inr (m1, s1)" for x
    using switch_succeeds [OF inv m time tgt(1) tgt(2)] switch_determined [OF m(1) tgt(1) time time tgt(2) tgt(2)] by metis
  show ?thesis
  proof (rule switch_effect [OF inv m run])
    fix cam :: camera_placement and src' t2 :: media_node
    let ?c = "cam\<lparr>cp_node_id := ?T, cp_node_port := nd_external_port t2, cp_placement_mode := PM_MANUAL,
      cp_placement_generation := cp_placement_generation cam + 1\<rparr>"
    assume t2: "find_node ?T s = Some t2" and m1: "m1 = m\<lparr>mv_state := CM_CLEANUP_SOURCE\<rparr>" "find_move i s1 = Some m1"
      and c1: "find_camera (mv_camera_id m) s1 = Some ?c" and rev: "cp_desired_revision cam = mv_desired_revision m"
      and n1: "\<And>j. find_node j s1 = (if j = ?S then Some (src'\<lparr>nd_registered_cameras := nd_registered_cameras src' - 1\<rparr>)
        else if j = ?T then Some (t2\<lparr>nd_registered_cameras := nd_registered_cameras t2 + 1\<rparr>) else find_node j s)"
    let ?m2 = "m\<lparr>mv_state := CM_ACTIVATE_TARGET\<rparr>" and ?m3 = "m\<lparr>mv_state := CM_COMPLETE\<rparr>"
    let ?s2 = "put_move m1 ?m2 s1"
    let ?s3 = "?s2\<lparr>st_cameras := replace_first ?c (?c\<lparr>cp_applied_revision := mv_desired_revision m\<rparr>) (st_cameras ?s2),
      st_camera_moves := replace_first ?m2 ?m3 (st_camera_moves ?s2)\<rparr>"
    have id: "mv_id m = i" using find_move_key [OF m(1)] .
    have m2: "find_move i ?s2 = Some ?m2"
      using m1 id by (simp add: put_move_def find_by_replace_first)
    have w2: "mark_camera_move_source_cleaned i s1 = Inr (?m2, ?s2)"
      using m1 by (simp add: mark_camera_move_source_cleaned_def Let_def)
    have c2: "find_camera (mv_camera_id m) ?s2 = Some ?c" using c1 by (simp add: put_move_def)
    have w3: "complete_camera_move i ?s2 = Inr (?m3, ?s3)"
      using m2 c2 by (simp add: complete_camera_move_def Let_def)
    let ?v1 = "set_path ?T ?n ?q v" let ?v2 = "set_path ?S ?n ?q ?v1" let ?v3 = "set_path ?S ?n None ?v2"
    have "media_gives mw (resume_prepare c m) s v (Inr m1) s1 ?v2"
      unfolding resume_prepare_def id m(2)
      by (simp, intro gives_then [OF gives_prepare [OF assms(1) tgt(1)]] gives_handle
          gives_then [OF gives_quiesce [OF assms(1) nodes(1), unfolded readers]] gives_then_continue [OF assms(1)]
          gives_switch_call [OF assms(1)] run)
    moreover have "media_gives mw (resume_cleanup_target c m1) s1 ?v2 (Inr m1) s1 ?v2"
      by (simp add: resume_cleanup_target_def m1 gives_ret)
    moreover have "media_gives mw (resume_cleanup_source c m1) s1 ?v2 (Inr ?m2) ?s2 ?v3"
      unfolding resume_cleanup_source_def using gives_cleanup(1) [OF assms(1), of m1 s1 _ ?v2] n1 [of ?S] m1(1) id
      by (auto intro!: gives_then gives_then_continue [OF assms(1)] gives_call w2 [folded id, unfolded m1(1)])
    moreover have "media_gives mw (resume_activate c ?m2) ?s2 ?v3 (Inr ?m3) ?s3 (set_path ?T ?n ?p ?v3)"
    proof -
      have "find_node ?T ?s2 \<noteq> None" using n1 [of ?T] nodes(2) by (simp add: put_move_def)
      then show ?thesis
        unfolding resume_activate_def using gives_activate [OF assms(1), of ?m2 ?s2 _ ?v3] id
        by (auto intro!: gives_then gives_then_continue [OF assms(1)] gives_call w3 [folded id])
    qed
    ultimately have run: "media_gives mw (resume c i) s v (Inr ?m3) ?s3 (set_path ?T ?n ?p ?v3)"
      by (rule gives_resume [OF assms(1) inv m(1) live])
    have "set_path ?T ?n ?p ?v3 = set_path ?T ?n ?p (set_path ?S ?n None v)" by (auto simp: fun_eq_iff)
    moreover have "find_move i ?s3 = Some ?m3" using m2 id by (simp add: find_by_replace_first)
    moreover have "find_camera (mv_camera_id m) ?s3 = Some (?c\<lparr>cp_applied_revision := mv_desired_revision m\<rparr>)"
      using c2 find_camera_key [OF c2] by (simp add: find_by_replace_first)
    ultimately show ?thesis using that run t2 tgt(1) rev by simp
  qed
qed

lemma gives_abort_request:
  assumes "media_works c mw" and "request_camera_move_abort i reason False s = Inr (m, s')"
  shows "media_gives mw (abort_request_call c i reason) s v (Inr m) s' v"
  unfolding abort_request_call_def by (rule gives_then [OF gives_uncancelled [OF assms(1)]]) (rule gives_call, simp add: assms(2))

lemma quiesce_outcome_reason:
  "quiesce_outcome m k = Inl e \<Longrightarrow> abort_reason e = Some ''camera_move_occupancy_changed''"
  by (auto simp: quiesce_outcome_def split: if_splits)

lemma resume_aborts_run:
  fixes m defines "m' \<equiv> m\<lparr>mv_state := CM_ABORTED, mv_abort_reason := Some ''camera_move_occupancy_changed''\<rparr>"
  assumes "media_works c mw" and r: "reachable s" and m: "find_move i s = Some m" "mv_state m = CM_PREPARE_TARGET"
    and readers: "quiesce_outcome m (mw_readers mw (mv_source_node_id m) (mv_public_id m)) = Inl e"
  obtains s' cam where "media_gives mw (resume c i) s v (Inr m') s'
      (set_path (mv_source_node_id m) (mv_public_id m) (Some (served_path (mv_public_id m) (mv_source_url m)))
        (set_path (mv_target_node_id m) (mv_public_id m) None v))"
    "find_move i s' = Some m'" "st_nodes s' = st_nodes s"
    "find_camera (mv_camera_id m) s = Some cam" "cp_node_id cam = mv_source_node_id m"
    "find_camera (mv_camera_id m) s' = Some (cam\<lparr>cp_desired_revision := cp_desired_revision cam + 1\<rparr>)"
proof -
  note inv = store_machine.always [OF r]
  let ?S = "mv_source_node_id m" and ?T = "mv_target_node_id m" and ?n = "mv_public_id m"
  let ?q = "Some (quiesced_path ?n (mv_source_url m))" and ?p = "Some (served_path ?n (mv_source_url m))"
  let ?reason = "''camera_move_occupancy_changed''"
  have live: "\<not> camera_move_is_terminal (mv_state m)" using m(2) by (simp add: camera_move_is_terminal_def)
  obtain src tn where nodes: "find_node ?S s = Some src" "find_node ?T s = Some tn" "?S \<noteq> ?T"
    using active_move_nodes [OF inv m(1) live] by metis
  have "move_ok s m" using inv_found_move_ok [OF inv m(1) live] by simp
  then obtain cam where cam: "find_camera (mv_camera_id m) s = Some cam" "cp_node_id cam = ?S"
      "cp_desired_revision cam = mv_desired_revision m"
    using m(2) by (auto simp: move_ok_def moving_camera_ok_def split: option.splits)
  let ?c = "cam\<lparr>cp_desired_revision := cp_desired_revision cam + 1\<rparr>"
  let ?m1 = "m\<lparr>mv_state := CM_CLEANUP_TARGET, mv_abort_reason := Some ?reason\<rparr>"
  let ?s1 = "s\<lparr>st_cameras := replace_first cam ?c (st_cameras s), st_camera_moves := replace_first m ?m1 (st_camera_moves s)\<rparr>"
  let ?s2 = "put_move ?m1 m' ?s1"
  have id: "mv_id m = i" using find_move_key [OF m(1)] .
  have w1: "request_camera_move_abort i ?reason False s = Inr (?m1, ?s1)"
    using m cam by (simp add: request_camera_move_abort_def camera_move_is_terminal_def Let_def)
  have m1: "find_move i ?s1 = Some ?m1" using m id by (simp add: find_by_replace_first)
  have "?m1\<lparr>mv_state := CM_ABORTED\<rparr> = m'" by (simp add: m'_def)
  then have w2: "abort_camera_move i ?s1 = Inr (m', ?s2)" using m1 by (simp add: abort_camera_move_def Let_def)
  let ?v2 = "set_path ?S ?n ?q (set_path ?T ?n ?q v)"
  have "media_gives mw (resume_prepare c m) s v (Inr ?m1) ?s1 ?v2"
    unfolding resume_prepare_def id m(2)
    by (simp, rule gives_then [OF gives_prepare [OF assms(2) nodes(2)]], rule gives_handled,
        rule gives_then_raise, rule gives_quiesce [OF assms(2) nodes(1), unfolded readers])
      (simp_all add: quiesce_outcome_reason [OF readers] gives_abort_request [OF assms(2) w1])
  moreover have "media_gives mw (resume_cleanup_target c ?m1) ?s1 ?v2 (Inr m') ?s2 (set_path ?S ?n ?p (set_path ?T ?n None ?v2))"
    unfolding resume_cleanup_target_def
    using gives_cleanup(2) [OF assms(2), of ?m1 ?s1 tn ?v2] gives_restore [OF assms(2), of ?m1 ?s1 src "set_path ?T ?n None ?v2"] nodes
    by (auto intro!: gives_then gives_then_continue [OF assms(2)] gives_call w2 [folded id])
  moreover have "media_gives mw (resume_cleanup_source c m') ?s2 u (Inr m') ?s2 u"
      "media_gives mw (resume_activate c m') ?s2 u (Inr m') ?s2 u" for u
    by (simp_all add: resume_cleanup_source_def resume_activate_def m'_def gives_ret)
  ultimately have run: "media_gives mw (resume c i) s v (Inr m') ?s2 (set_path ?S ?n ?p (set_path ?T ?n None ?v2))"
    by (rule gives_resume [OF assms(2) inv m(1) live])
  have "set_path ?S ?n ?p (set_path ?T ?n None ?v2) = set_path ?S ?n ?p (set_path ?T ?n None v)"
    using nodes(3) by (auto simp: fun_eq_iff)
  moreover have "find_move i ?s2 = Some m'" using m1 id by (simp add: put_move_def find_by_replace_first m'_def)
  moreover have "find_camera (mv_camera_id m) ?s2 = Some ?c" "st_nodes ?s2 = st_nodes s"
    using cam find_camera_key [OF cam(1)] by (simp_all add: put_move_def find_by_replace_first)
  ultimately show ?thesis using that run cam(1,2) by simp
qed

end
