(* ===== verification/Reconcile_Convergence.thy ===== *)
theory Reconcile_Convergence
  imports Reconcile_Laws Store_Machine
begin

text \<open>
  The reconciliation of a node over media nodes that work: it returns, the node then serves exactly
  the paths of its enabled cameras, and the store has acknowledged each of them.
\<close>

section \<open>Acknowledgement in the store\<close>

definition settled_camera :: "camera_placement \<Rightarrow> camera_placement" where
  "settled_camera cam =
     (if cp_state cam = CS_DELETING
      then cam\<lparr>cp_state := CS_DELETED, cp_applied_revision := cp_desired_revision cam\<rparr>
      else cam\<lparr>cp_applied_revision := cp_desired_revision cam\<rparr>)"

definition settle :: "uuid \<Rightarrow> uuid list \<Rightarrow> camera_placement \<Rightarrow> node_store \<Rightarrow> node_store" where
  "settle i moving cam s =
     (if cp_id cam \<in> set moving then s
      else case mark_camera_applied (cp_id cam) i (cp_placement_generation cam) (cp_desired_revision cam) s of
             Inl e \<Rightarrow> s
           | Inr (b, s') \<Rightarrow> s')"

definition frame_kept :: "uuid set \<Rightarrow> node_store \<Rightarrow> node_store \<Rightarrow> bool" where
  "frame_kept js s s' \<longleftrightarrow> st_camera_moves s' = st_camera_moves s
     \<and> (\<forall>j. j \<notin> js \<longrightarrow> find_camera j s' = find_camera j s)
     \<and> (\<forall>k. find_node k s' = None \<longleftrightarrow> find_node k s = None)"

lemma frame_kept_refl: "frame_kept js s s"
  by (simp add: frame_kept_def)

lemma frame_kept_trans: "frame_kept js s s' \<Longrightarrow> frame_kept ks s' s'' \<Longrightarrow> frame_kept (js \<union> ks) s s''"
  by (simp add: frame_kept_def)

lemma mark_frame: "mark_camera_applied j i g r s = Inr (b, s') \<Longrightarrow> frame_kept {j} s s'"
  by (auto simp: mark_camera_applied_def frame_kept_def put_camera_def find_by_replace_first find_camera_key find_node_key
      split: option.splits if_splits)

lemma settle_frame: "frame_kept {cp_id cam} s (settle i moving cam s)"
  by (auto simp: settle_def frame_kept_refl dest: mark_frame split: sum.split)

lemma fold_settle_frame: "frame_kept (cp_id ` set cams) s (fold (settle i moving) cams s)"
proof (induction cams arbitrary: s)
  case (Cons cam cams)
  show ?case using frame_kept_trans [OF settle_frame Cons.IH, of cam s] by simp
qed (simp add: frame_kept_refl)

lemma mark_settles:
  assumes "find_camera (cp_id cam) s = Some cam" and "cp_node_id cam = i" and "\<not> camera_has_active_move (cp_id cam) s"
    and "find_node i s \<noteq> None"
  obtains s' where
    "mark_camera_applied (cp_id cam) i (cp_placement_generation cam) (cp_desired_revision cam) s = Inr (True, s')"
    "find_camera (cp_id cam) s' = Some (settled_camera cam)"
proof (cases "cp_state cam = CS_DELETING")
  case True
  obtain n where "find_node i s = Some n" using assms(4) by blast
  with True assms show ?thesis
    by (intro that) (auto simp: mark_camera_applied_def settled_camera_def find_by_replace_first)
next
  case False
  with assms show ?thesis
    by (intro that) (auto simp: mark_camera_applied_def settled_camera_def put_camera_def find_by_replace_first)
qed

lemma settled_id [simp]: "cp_id (settled_camera cam) = cp_id cam"
  by (simp add: settled_camera_def)

lemma fold_settle_at:
  assumes "cam \<in> set cams" and "distinct (map cp_id cams)" and "cp_id cam \<notin> set moving"
    and "find_camera (cp_id cam) s = Some cam" "cp_node_id cam = i" "\<not> camera_has_active_move (cp_id cam) s" "find_node i s \<noteq> None"
  shows "find_camera (cp_id cam) (fold (settle i moving) cams s) = Some (settled_camera cam)"
proof -
  from assms(1) obtain as bs where cams: "cams = as @ cam # bs" by (auto dest: split_list)
  let ?s = "fold (settle i moving) as s"
  have out: "cp_id cam \<notin> cp_id ` set as" "cp_id cam \<notin> cp_id ` set bs" using assms(2) by (auto simp: cams)
  have held: "find_camera (cp_id cam) ?s = Some cam" "\<not> camera_has_active_move (cp_id cam) ?s" "find_node i ?s \<noteq> None"
    using fold_settle_frame [of as s i moving] out(1) assms(4-7) by (simp_all add: frame_kept_def camera_has_active_move_def)
  obtain s' where "settle i moving cam ?s = s'" "find_camera (cp_id cam) s' = Some (settled_camera cam)"
    by (rule mark_settles [OF held(1) assms(5) held(2,3)]) (simp add: settle_def assms(3))
  then show ?thesis
    using fold_settle_frame [of bs s' i moving] out(2) by (simp add: cams frame_kept_def)
qed

text \<open>A live camera of a node that is in no move of the node is in no move at all.\<close>

lemma unmoved_camera:
  assumes "store_inv s" and "cam \<in> set (live_node_cameras i s)" and "cp_id cam \<notin> mv_camera_id ` set (list_node_active_moves i s)"
  shows "find_camera (cp_id cam) s = Some cam \<and> \<not> camera_has_active_move (cp_id cam) s"
proof -
  have cam: "cam \<in> set (st_cameras s)" "cp_node_id cam = i" using assms(2) by (auto simp: live_node_cameras_def)
  have found: "find_camera (cp_id cam) s = Some cam"
    using cam(1) store_invD(1) [OF assms(1)] by (intro find_by_distinct) (simp_all add: ids_ok_def)
  have "False" if m: "m \<in> set (st_camera_moves s)" "mv_camera_id m = cp_id cam" "\<not> camera_move_is_terminal (mv_state m)" for m
  proof -
    have "moving_camera_ok m (Some cam)" using inv_move_ok [OF assms(1) m(1,3)] found m(2) by (simp add: move_ok_def)
    then have "i \<in> {mv_source_node_id m, mv_target_node_id m}"
      using m(3) cam(2) by (cases "mv_state m") (auto simp: moving_camera_ok_def camera_move_is_terminal_def)
    then show False using assms(3) m by (auto simp: list_node_active_moves_def image_iff)
  qed
  with found show ?thesis by (auto simp: camera_has_active_move_def list_ex_iff)
qed

section \<open>Paths\<close>

definition settle_path :: "uuid \<Rightarrow> uuid list \<Rightarrow> camera_placement \<Rightarrow> node_paths \<Rightarrow> node_paths" where
  "settle_path i moving cam v =
     (if cp_id cam \<in> set moving then v
      else v(i := (v i)(cp_public_id cam :=
             if cp_state cam = CS_ENABLED then Some (served_path (cp_public_id cam) (cp_source_url cam)) else None)))"

lemma settle_path_other:
  "j \<noteq> i \<or> (\<forall>cam \<in> set cams. cp_id cam \<notin> set moving \<longrightarrow> cp_public_id cam \<noteq> n) \<Longrightarrow>
   fold (settle_path i moving) cams v j n = v j n"
  by (induction cams arbitrary: v) (auto simp: settle_path_def split: if_splits)

lemma settle_path_at:
  assumes "cam \<in> set cams" and "distinct (map cp_public_id cams)" and "cp_id cam \<notin> set moving"
  shows "fold (settle_path i moving) cams v i (cp_public_id cam) =
    (if cp_state cam = CS_ENABLED then Some (served_path (cp_public_id cam) (cp_source_url cam)) else None)"
proof -
  from assms(1) obtain as bs where cams: "cams = as @ cam # bs" by (auto dest: split_list)
  then have "\<forall>b \<in> set bs. cp_id b \<notin> set moving \<longrightarrow> cp_public_id b \<noteq> cp_public_id cam"
    using assms(2) by (auto simp: image_iff)
  then show ?thesis
    using settle_path_other [where j = i and i = i and cams = bs and n = "cp_public_id cam" and moving = moving] assms(3)
    by (simp add: cams settle_path_def)
qed

section \<open>The loop over the cameras\<close>

lemma gives_reconcile_camera:
  assumes "media_works c mw" and cl: "client_works mw i cl"
    and idle: "cp_id cam \<notin> set moving \<Longrightarrow> find_camera (cp_id cam) s = Some cam \<and> cp_node_id cam = i
      \<and> \<not> camera_has_active_move (cp_id cam) s \<and> find_node i s \<noteq> None"
  shows "media_gives mw (reconcile_camera c cl i moving cam) s v
    (Inr (cp_id cam \<notin> set moving
      \<and> (cp_state cam = CS_ENABLED \<longrightarrow> v i (cp_public_id cam) \<noteq> Some (served_path (cp_public_id cam) (cp_source_url cam)))))
    (settle i moving cam s) (settle_path i moving cam v)"
proof (cases "cp_id cam \<in> set moving")
  case True
  then show ?thesis
    unfolding reconcile_camera_def
    by (intro gives_then_continue [OF assms(1)]) (simp add: gives_ret settle_def settle_path_def)
next
  case False
  from idle [OF False] obtain s' where
    m: "mark_camera_applied (cp_id cam) i (cp_placement_generation cam) (cp_desired_revision cam) s = Inr (True, s')"
    using mark_settles by blast
  then have marked: "media_gives mw (mark_applied_call i cam) s u (Inr ()) (settle i moving cam s) u" for u
    unfolding mark_applied_call_def using False
    by (intro gives_then [OF gives_call [where a = True]]) (auto simp: settle_def gives_passes)
  show ?thesis
  proof (cases "cp_state cam = CS_ENABLED")
    case True
    let ?p = "served_path (cp_public_id cam) (cp_source_url cam)"
    have name: "mp_name ?p = cp_public_id cam" by (simp add: served_path_def)
    note run = gives_apply_path [OF assms(1) cl, of ?p s v, unfolded name]
    show ?thesis
      unfolding reconcile_camera_def Let_def using True False
      by (auto intro!: gives_then_continue [OF assms(1)] gives_then [OF run] gives_then [OF gives_passes]
          gives_then [OF marked] simp: settle_path_def gives_ret)
  next
    case enabled: False
    have "media_gives mw (remove_disabled_path c cl (cp_public_id cam)) s v (Inr ()) s (settle_path i moving cam v)"
      using gives_remove_path [OF assms(1) cl] False enabled by (simp add: settle_path_def)
    from gives_then_continue [OF assms(1), OF gives_then [OF this], OF gives_then [OF marked], OF gives_ret]
    show ?thesis unfolding reconcile_camera_def using False enabled by simp
  qed
qed

lemma gives_reconcile_cameras:
  assumes "media_works c mw" and cl: "client_works mw i cl"
    and idle: "\<And>cam. cam \<in> set cams \<Longrightarrow> cp_id cam \<notin> set moving \<Longrightarrow> find_camera (cp_id cam) s = Some cam \<and> cp_node_id cam = i
      \<and> \<not> camera_has_active_move (cp_id cam) s \<and> find_node i s \<noteq> None"
    and distinct: "distinct (map cp_id cams)"
  shows "\<exists>bs. media_gives mw (map_actions (reconcile_camera c cl i moving) cams) s v (Inr bs)
    (fold (settle i moving) cams s) (fold (settle_path i moving) cams v)"
proof -
  define S where "S k = fold (settle i moving) (take k cams) s" for k
  define V where "V k = fold (settle_path i moving) (take k cams) v" for k
  define G where "G k = (cp_id (cams ! k) \<notin> set moving \<and> (cp_state (cams ! k) = CS_ENABLED \<longrightarrow>
     V k i (cp_public_id (cams ! k)) \<noteq> Some (served_path (cp_public_id (cams ! k)) (cp_source_url (cams ! k)))))" for k
  have "media_gives mw (reconcile_camera c cl i moving (cams ! k)) (S k) (V k) (Inr (G k)) (S (Suc k)) (V (Suc k))"
    if k: "k < length cams" for k
  proof -
    let ?c = "cams ! k"
    have frame: "frame_kept (cp_id ` set (take k cams)) s (S k)" unfolding S_def by (rule fold_settle_frame)
    have new: "cp_id ?c \<notin> cp_id ` set (take k cams)"
      using distinct k by (auto simp: in_set_conv_nth distinct_conv_nth)
    have "find_camera (cp_id ?c) (S k) = Some ?c \<and> cp_node_id ?c = i \<and> \<not> camera_has_active_move (cp_id ?c) (S k)
        \<and> find_node i (S k) \<noteq> None" if "cp_id ?c \<notin> set moving"
      using idle [OF nth_mem [OF k] that] frame new by (simp add: frame_kept_def camera_has_active_move_def)
    from gives_reconcile_camera [OF assms(1) cl this]
    show ?thesis using k by (simp add: S_def V_def G_def take_Suc_conv_app_nth)
  qed
  from gives_map_actions [where S = S and V = V and G = G, OF this]
  have "media_gives mw (map_actions (reconcile_camera c cl i moving) cams) (S 0) (V 0) (Inr (map G [0..<length cams]))
      (S (length cams)) (V (length cams))" by blast
  then show ?thesis unfolding S_def V_def by (intro exI) simp
qed

section \<open>The whole node\<close>

text \<open>What the reconciliation of a node with these cameras and active moves leaves of its paths.\<close>

definition settled_paths ::
  "uuid \<Rightarrow> camera_placement list \<Rightarrow> camera_move list \<Rightarrow> node_paths \<Rightarrow> node_paths" where
  "settled_paths i cams moves v =
     v(i := (\<lambda>n. if n \<in> cp_public_id ` set cams \<union> mv_public_id ` set moves
                 then fold (settle_path i (map mv_camera_id moves)) cams v i n else None))"

lemma gives_reconcile_node:
  assumes "media_works c mw" and n: "find_node i s = Some n" "nd_runtime_state n = NS_RUNNING" "nd_config_compatible n"
    and lock: "lifecycle_guard i s = None"
    and idle: "\<And>cam. cam \<in> set (live_node_cameras i s) \<Longrightarrow> cp_id cam \<notin> mv_camera_id ` set (list_node_active_moves i s) \<Longrightarrow>
      find_camera (cp_id cam) s = Some cam \<and> \<not> camera_has_active_move (cp_id cam) s"
    and distinct: "distinct (map cp_id (live_node_cameras i s))"
    and listed: "set (mw_listing mw (v i)) = dom (v i)"
  shows "\<exists>report. media_gives mw (reconcile_node c i) s v (Inr report)
    (fold (settle i (map mv_camera_id (list_node_active_moves i s))) (live_node_cameras i s) s)
    (settled_paths i (live_node_cameras i s) (list_node_active_moves i s) v)"
proof -
  let ?cams = "live_node_cameras i s" and ?moves = "list_node_active_moves i s"
  let ?inv = "\<lparr>mi_camera_ids = mw_listing mw (v i), mi_no_oracle_matcher_present = True\<rparr>"
  let ?v = "fold (settle_path i (map mv_camera_id ?moves)) ?cams v"
  let ?names = "mw_order mw (orphans ?inv ?cams ?moves)"
  have cl: "client_works mw i (mw_client mw n)" using client_worksI [OF assms(1), of n] find_node_key [OF n(1)] by simp
  have "cp_node_id cam = i" if "cam \<in> set ?cams" for cam using that by (simp add: live_node_cameras_def)
  with idle n(1) obtain bs where loop: "media_gives mw
      (map_actions (reconcile_camera c (mw_client mw n) i (map mv_camera_id ?moves)) ?cams) s v (Inr bs)
      (fold (settle i (map mv_camera_id ?moves)) ?cams s) ?v"
    using gives_reconcile_cameras [OF assms(1) cl _ distinct, of "map mv_camera_id ?moves" s v] by fastforce
  have names: "set ?names = dom (v i) - (cp_public_id ` set ?cams \<union> mv_public_id ` set ?moves)"
    using assms(1) listed by (auto simp: media_works_def orphans_def)
  have order: "rc_set_order c x (orphans ?inv ?cams ?moves) = ?names" for x
    using assms(1) by (simp add: media_works_def)
  have final: "?v(i := (\<lambda>m. if m \<in> set ?names then None else ?v i m)) = settled_paths i ?cams ?moves v"
  proof -
    have "?v j = v j" if "j \<noteq> i" for j using settle_path_other that by blast
    moreover have "?v i m = v i m" if "m \<notin> cp_public_id ` set ?cams" for m
      by (rule settle_path_other) (use that in auto)
    ultimately show ?thesis unfolding settled_paths_def names by (auto simp: fun_eq_iff domIff)
  qed
  have body: "media_gives mw (and_then (for_each ?names (delete_orphan c (mw_client mw n))) (\<lambda>_. ret rep))
      (fold (settle i (map mv_camera_id ?moves)) ?cams s) ?v (Inr rep)
      (fold (settle i (map mv_camera_id ?moves)) ?cams s) (settled_paths i ?cams ?moves v)" for rep :: reconcile_report
    by (rule gives_then [OF gives_delete_orphans [OF assms(1) cl]]) (simp only: final gives_ret)
  show ?thesis
    unfolding reconcile_node_def
    by (rule exI, rule gives_then_continue [OF assms(1)], rule gives_reconcile_guarded [OF assms(1) lock],
        rule gives_then [OF gives_query [where r = "Inr (Some n)"]], simp add: get_node_def n(1), simp only: option.case,
        rule gives_then [OF gives_passes], simp add: n(2,3), rule gives_then [OF gives_for_node [OF assms(1)]],
        rule gives_then [OF gives_query [where r = "Inr ?cams"]],
        use n(1) in \<open>auto simp: list_node_cameras_def list_ex_iff dest: find_by_SomeD\<close>,
        rule gives_then [OF gives_query [where r = "Inr ?moves"]], simp,
        rule gives_then [OF gives_inventory [OF cl]], rule gives_then [OF gives_passes], simp,
        rule gives_then [OF loop], rule gives_then [OF gives_query [where r = "Inr ?names"]], simp add: order, rule body)
qed

end
