(* ===== verification/Reconcile_Safety.thy ===== *)
theory Reconcile_Safety
  imports Reconcile_Convergence Control_Relations
begin

text \<open>
  What the reconcilers keep whatever the media nodes answer: the relations of the control plane, and
  that nothing is acknowledged or switched on the word of a client that does not show the path.
\<close>

section \<open>Relations\<close>

text \<open>The store operations of the reconcilers.\<close>

definition op_saga :: "store_op \<Rightarrow> bool" where
  "op_saga op = (case op of
      SwitchMove env m cancelled \<Rightarrow> True
    | SourceCleaned m \<Rightarrow> True
    | RequestAbortMove m reason cancelled \<Rightarrow> True
    | AbortMove m \<Rightarrow> True
    | CompleteMove m \<Rightarrow> True
    | MarkApplied c i g r \<Rightarrow> True
    | _ \<Rightarrow> False)"

locale saga_relation = world_relation R
  for R :: "'x world \<Rightarrow> 'x world \<Rightarrow> bool" +
  assumes outside: "R w (w\<lparr>w_ext := x\<rparr>)"
    and saga: "op_saga op \<Longrightarrow> run_op op (w_store w) = Inr s' \<Longrightarrow> R w (w\<lparr>w_store := s'\<rparr>)"
begin

lemma external: "keeps R (external f)"
  by (auto simp: keeps_def external_def outside split: prod.split)

lemma call_op:
  assumes "\<And>x. op_saga (op x)" and "\<And>x s. run_op (op x) s = written (f x s)"
  shows "keeps R (call f)"
  unfolding keeps_def
proof
  fix w :: "'x world"
  have "run_op (op (w_ext w)) (w_store w) = written (f (w_ext w) (w_store w))" by (rule assms(2))
  then show "R w (snd (call f w))"
    using saga [OF assms(1) [of "w_ext w"], of w] refl by (auto simp: call_def written_def split: sum.split)
qed

lemmas call_ops =
  call_op [of "\<lambda>x. SwitchMove (e x) m b" for e m b] call_op [of "\<lambda>x. SourceCleaned m" for m]
  call_op [of "\<lambda>x. RequestAbortMove m reason b" for m reason b] call_op [of "\<lambda>x. AbortMove m" for m]
  call_op [of "\<lambda>x. CompleteMove m" for m] call_op [of "\<lambda>x. MarkApplied j i g r" for j i g r]

lemmas saga_calls = call_ops [unfolded op_saga_def store_op.case run_op.simps, OF TrueI HOL.refl]

lemma continues: "keeps R (continue_or_cancel c)" "keeps R (is_cancelled c)" "keeps R (for_node c n)"
  by (auto simp: continue_or_cancel_def is_cancelled_def for_node_def intro!: and_then external raises)

lemma paths: "keeps R (put_path cl p)" "keeps R (get_path cl n)" "keeps R (delete_path cl n)"
  by (simp_all add: put_path_def get_path_def delete_path_def external)

lemma reads: "keeps R (safe_read_back c cl p)" "keeps R (safe_get c cl n)"
  by (auto simp: safe_read_back_def safe_get_def intro!: handle and_then continues paths fail)

lemma removed: "keeps R (remove_disabled_path c cl n)"
  by (auto simp: remove_disabled_path_def intro!: and_then handle continues paths reads raises ret)

lemma reconcile_guard: "keeps R m \<Longrightarrow> keeps R (reconcile_guarded c i m)"
  by (auto simp: reconcile_guarded_def intro!: guarded and_then external raises)

lemma marked: "keeps R (mark_applied_call i cam)"
  by (auto simp: mark_applied_call_def intro!: and_then saga_calls raises)

lemma applied: "keeps R (apply_path c cl p)"
  by (auto simp: apply_path_def Let_def intro!: handle and_then continues paths reads ret)

lemma camera: "keeps R (reconcile_camera c cl i moving cam)"
  by (auto simp: reconcile_camera_def Let_def intro!: and_then continues removed marked applied raises ret)

lemma orphan: "keeps R (delete_orphan c cl n)"
  by (auto simp: delete_orphan_def intro!: and_then handle continues paths reads raises)

lemma node: "keeps R (reconcile_node c i)"
  by (auto simp: reconcile_node_def split: option.split
      intro!: and_then reconcile_guard continues query raises external map_actions camera for_each orphan fail ret)

lemma client: "keeps R (client_of c i missing)"
  by (auto simp: client_of_def get_node_query_def split: option.split intro!: and_then query continues fail)

lemma phases:
  "keeps R (prepare_and_verify c m)" "keeps R (activate_target c m)" "keeps R (cleanup_source c m)"
  "keeps R (cleanup_target c m)" "keeps R (restore_source c m)" "keeps R (quiesce_and_validate_source c m)"
  by (auto simp: prepare_and_verify_def activate_target_def cleanup_source_def cleanup_target_def restore_source_def
      quiesce_and_validate_source_def Let_def
      intro!: and_then continues client handle paths reads removed raises external fail ret)

lemma resumes:
  "keeps R (resume_prepare c m)" "keeps R (resume_cleanup_target c m)" "keeps R (resume_cleanup_source c m)"
  "keeps R (resume_activate c m)"
  by (auto simp: resume_prepare_def resume_cleanup_target_def resume_cleanup_source_def resume_activate_def
      switch_call_def abort_request_call_def intro!: and_then handle phases continues saga_calls ret)

lemma guards: "keeps R m \<Longrightarrow> keeps R (node_guards c is m)"
  by (induction "is") (auto intro: reconcile_guard)

lemma move_read: "keeps R (get_move_call i)"
  by (auto simp: get_move_call_def split: option.split intro!: and_then query ret fail)

lemma resumed: "keeps R (resume c i)"
  by (auto simp: resume_def intro!: and_then continues move_read guards resumes ret)

lemma cycle: "keeps R (run_once c)"
  by (auto simp: run_once_def cycle_move_def cycle_node_def
      intro!: and_then query map_actions continues handle resumed node ret)

end

text \<open>The record of a node up to its camera count, and the port changes.\<close>

definition lifecycle_of :: "media_node \<Rightarrow> media_node" where
  "lifecycle_of n = n\<lparr>nd_registered_cameras := 0\<rparr>"

lemma lifecycle_of_count [simp]: "lifecycle_of (n\<lparr>nd_registered_cameras := k\<rparr>) = lifecycle_of n"
  by (simp add: lifecycle_of_def)

definition lifecycle_kept :: "'x world \<Rightarrow> 'x world \<Rightarrow> bool" where
  "lifecycle_kept w w' \<longleftrightarrow>
     map lifecycle_of (st_nodes (w_store w')) = map lifecycle_of (st_nodes (w_store w))
     \<and> st_port_changes (w_store w') = st_port_changes (w_store w)"

lemma saga_lifecycle:
  "op_saga op \<Longrightarrow> run_op op s = Inr s' \<Longrightarrow>
   map lifecycle_of (st_nodes s') = map lifecycle_of (st_nodes s) \<and> st_port_changes s' = st_port_changes s"
  by (cases op)
    (auto simp: op_saga_def written_def switch_camera_move_def mark_camera_move_source_cleaned_def put_move_def
      request_camera_move_abort_def abort_camera_move_def complete_camera_move_def mark_camera_applied_def put_camera_def
      map_replace_first Let_def split: option.splits if_splits sum.splits)

interpretation slots_saga: saga_relation same_slots
  by unfold_locales (auto simp: same_slots_def)

interpretation reach_saga: saga_relation reach_kept
  by unfold_locales (auto simp: reach_kept_def op_fresh_def op_saga_def intro: reachable_run split: store_op.splits)

interpretation lifecycle_saga: saga_relation lifecycle_kept
  by unfold_locales (auto simp: lifecycle_kept_def dest: saga_lifecycle)

section \<open>Clients that never show a path\<close>

definition outward :: "('x world \<Rightarrow> bool) \<Rightarrow> bool" where
  "outward P \<longleftrightarrow> (\<forall>w x. P w \<longrightarrow> P (w\<lparr>w_ext := x\<rparr>))"

definition never_shows :: "'x media_client \<Rightarrow> media_path_config \<Rightarrow> bool" where
  "never_shows cl p \<longleftrightarrow> (\<forall>x. fst (mc_get_path cl (mp_name p) x) \<noteq> Inr (Some p))"

lemma maintains_outside: "outward P \<Longrightarrow> maintains P (external f) (\<lambda>a. True)"
  by (rule maintains_external) (auto simp: outward_def)

lemma outward_steps:
  assumes "outward P"
  shows "maintains P (continue_or_cancel c) (\<lambda>a. True)" "maintains P (is_cancelled c) (\<lambda>a. True)"
    "maintains P (put_path cl p) (\<lambda>a. True)" "maintains P (get_path cl n) (\<lambda>a. True)"
    "maintains P (delete_path cl n) (\<lambda>a. True)"
  using assms maintains_then [OF maintains_outside maintains_weaken [OF maintains_raise]]
  by (auto simp: continue_or_cancel_def is_cancelled_def put_path_def get_path_def delete_path_def
      intro: maintains_outside maintains_then [OF maintains_outside maintains_weaken [OF maintains_raise]])

lemma outward_guarded:
  assumes "outward P" and "maintains P m Q"
  shows "maintains P (reconcile_guarded c i m) Q"
  unfolding reconcile_guarded_def
  by (intro maintains_guarded maintains_then [OF maintains_outside [OF assms(1)]] maintains_then [OF maintains_raise] assms(2))

lemma unseen_get:
  "outward P \<Longrightarrow> never_shows cl p \<Longrightarrow> maintains P (get_path cl (mp_name p)) (\<lambda>r. r \<noteq> Some p)"
  unfolding get_path_def by (rule maintains_external) (auto simp: outward_def never_shows_def)

lemma unseen_read_back:
  assumes "outward P" and "never_shows cl p"
  shows "maintains P (safe_read_back c cl p) (\<lambda>r. r \<noteq> Some p)"
  unfolding safe_read_back_def
  by (intro maintains_handle maintains_then [OF outward_steps(1) [OF assms(1)]] unseen_get [OF assms] maintains_fail)

lemma unseen_apply:
  assumes "outward P" and "never_shows cl p"
  shows "maintains P (apply_path c cl p) (\<lambda>r. fst r \<noteq> Some p)"
proof -
  have put: "maintains P (if b then and_then (continue_or_cancel c) (\<lambda>_. put_path cl p) else ret ()) (\<lambda>_. True)" for b
    using assms(1) by (auto intro!: maintains_then [OF outward_steps(1)] outward_steps maintains_ret)
  show ?thesis
    unfolding apply_path_def Let_def
    by (intro maintains_handle maintains_then [OF outward_steps(4) [OF assms(1)]] maintains_then [OF put]
        maintains_then [OF outward_steps(1) [OF assms(1)]] maintains_then [OF unseen_get [OF assms]]
        maintains_then [OF unseen_read_back [OF assms]] maintains_ret) simp_all
qed

lemma outward_safe_get: "outward P \<Longrightarrow> maintains P (safe_get c cl n) (\<lambda>_. True)"
  unfolding safe_get_def by (intro maintains_handle maintains_then [OF outward_steps(1)] outward_steps(4) maintains_fail)

lemma outward_remove:
  assumes "outward P"
  shows "maintains P (remove_disabled_path c cl n) (\<lambda>_. True)"
  unfolding remove_disabled_path_def
  using assms
  by (intro maintains_then [where Q = "\<lambda>_. True"] maintains_handle)
    (auto intro!: maintains_then [OF outward_steps(1)] maintains_then [OF outward_steps(4)] maintains_then [OF outward_steps(5)]
      outward_steps outward_safe_get maintains_ret maintains_weaken [OF maintains_raise])

lemma outward_orphan:
  assumes "outward P"
  shows "maintains P (delete_orphan c cl n) (\<lambda>_. True)"
  unfolding delete_orphan_def
  using assms
  by (intro maintains_then [OF outward_steps(1)] maintains_then [where Q = "\<lambda>_. True"] maintains_handle)
    (auto intro!: maintains_then [OF outward_steps(1)] maintains_then [OF outward_steps(5)]
      outward_steps outward_safe_get maintains_weaken [OF maintains_raise])

section \<open>Acknowledgement\<close>

text \<open>The camera is stored, and ids are unique.\<close>

definition camera_held :: "camera_placement \<Rightarrow> 'x world \<Rightarrow> bool" where
  "camera_held cam w \<longleftrightarrow> find_camera (cp_id cam) (w_store w) = Some cam \<and> distinct (map cp_id (st_cameras (w_store w)))"

lemma camera_held_outward: "outward (camera_held cam)"
  by (simp add: outward_def camera_held_def)

lemma mark_ids: "mark_camera_applied j i g r s = Inr (b, s') \<Longrightarrow> map cp_id (st_cameras s') = map cp_id (st_cameras s)"
  by (auto simp: mark_camera_applied_def put_camera_def map_replace_first split: option.splits if_splits)

lemma mark_holds:
  assumes "cp_id cam' \<noteq> cp_id cam"
  shows "maintains (camera_held cam) (mark_applied_call i cam') (\<lambda>_. True)"
  unfolding mark_applied_call_def
proof (rule maintains_then [where Q = "\<lambda>_. True", OF maintains_call])
  fix w :: "'x world" and b s'
  assume "camera_held cam w"
    and m: "mark_camera_applied (cp_id cam') i (cp_placement_generation cam') (cp_desired_revision cam') (w_store w) = Inr (b, s')"
  then show "camera_held cam (w\<lparr>w_store := s'\<rparr>) \<and> True"
    using mark_frame [OF m] mark_ids [OF m] assms by (simp add: camera_held_def frame_kept_def)
qed (rule maintains_weaken [OF maintains_raise], simp)

lemma unseen_camera:
  assumes "cp_state cam = CS_ENABLED" and never: "never_shows cl (served_path (cp_public_id cam) (cp_source_url cam))"
    and same: "cp_id cam' = cp_id cam \<Longrightarrow> cam' = cam"
  shows "maintains (camera_held cam) (reconcile_camera c cl i moving cam') (\<lambda>_. True)"
proof (cases "cp_id cam' = cp_id cam")
  case True
  then show ?thesis
    unfolding reconcile_camera_def Let_def using assms
    by (auto intro!: maintains_then [OF outward_steps(1) [OF camera_held_outward]] maintains_ret
        maintains_then [OF unseen_apply [OF camera_held_outward never]] maintains_then [OF maintains_raise])
next
  case False
  let ?p = "served_path (cp_public_id cam') (cp_source_url cam')"
  have "maintains (camera_held cam) (apply_path c cl ?p) (\<lambda>_. True)"
    unfolding apply_path_def Let_def
    using camera_held_outward
    by (intro maintains_handle maintains_then [OF outward_steps(4)])
      (auto intro!: maintains_then [where Q = "\<lambda>_. True"] maintains_then [OF outward_steps(1)] maintains_then [OF outward_steps(4)]
        outward_steps maintains_ret maintains_handle maintains_fail simp: safe_read_back_def)
  then show ?thesis
    unfolding reconcile_camera_def Let_def
    by (auto intro!: maintains_then [OF outward_steps(1) [OF camera_held_outward]] maintains_ret
        maintains_then [OF outward_remove [OF camera_held_outward]] maintains_then [OF mark_holds [OF False]]
        maintains_then [where m = "apply_path c cl ?p" and Q = "\<lambda>_. True"] maintains_then [OF maintains_raise])
qed

text \<open>No client the factory returns for a node ever shows the path.\<close>

definition node_never_shows :: "'x reconciler \<Rightarrow> uuid \<Rightarrow> media_path_config \<Rightarrow> bool" where
  "node_never_shows c i p \<longleftrightarrow> (\<forall>n x cl. nd_id n = i \<longrightarrow> fst (rc_for_node c n x) = Inr cl \<longrightarrow> never_shows cl p)"

lemma unseen_client:
  assumes "outward P" and "node_never_shows c (nd_id n) p"
  shows "maintains P (for_node c n) (\<lambda>cl. never_shows cl p)"
  unfolding for_node_def by (rule maintains_external) (use assms in \<open>auto simp: outward_def node_never_shows_def\<close>)

lemma listed_camera:
  assumes "camera_held cam w" and "list_node_cameras i (w_store w) = Inr cams" and "cam' \<in> set cams" and "cp_id cam' = cp_id cam"
  shows "cam' = cam"
proof -
  have "cam' \<in> set (st_cameras (w_store w))"
    using assms(2,3) by (auto simp: list_node_cameras_def live_node_cameras_def split: if_splits)
  then have "find_camera (cp_id cam') (w_store w) = Some cam'"
    using assms(1) by (intro find_by_distinct) (simp_all add: camera_held_def)
  moreover have "find_camera (cp_id cam') (w_store w) = Some cam" using assms(1) unfolding camera_held_def assms(4) by (rule conjunct1)
  ultimately show ?thesis by simp
qed

lemma unseen_node:
  fixes c :: "'x reconciler"
  assumes "cp_state cam = CS_ENABLED" and never: "node_never_shows c i (served_path (cp_public_id cam) (cp_source_url cam))"
  shows "maintains (camera_held cam) (reconcile_node c i) (\<lambda>_. True)"
proof -
  let ?p = "served_path (cp_public_id cam) (cp_source_url cam)"
  note out = camera_held_outward [of cam]
  have found: "maintains (camera_held cam) (query (\<lambda>x s. Inr (get_node i s))) (\<lambda>r. \<forall>n. r = Some n \<longrightarrow> nd_id n = i)"
    by (rule maintains_query) (auto simp: get_node_def find_node_key)
  have listed: "maintains (camera_held cam) (query (\<lambda>x. list_node_cameras i))
      (\<lambda>cams. \<forall>cam' \<in> set cams. cp_id cam' = cp_id cam \<longrightarrow> cam' = cam)"
    by (rule maintains_query) (use listed_camera in blast)
  have any: "maintains (camera_held cam) (query f) (\<lambda>_. True)" for f :: "'x \<Rightarrow> node_store \<Rightarrow> py_error + 'b"
    by (rule maintains_query) simp
  have loop: "maintains (camera_held cam) (map_actions (reconcile_camera c cl i moving) cams) (\<lambda>_. True)"
    if "never_shows cl ?p" "\<forall>cam' \<in> set cams. cp_id cam' = cp_id cam \<longrightarrow> cam' = cam" for cl moving cams
    using that by (intro maintains_map_actions unseen_camera [OF assms(1)]) auto
  have rest: "maintains (camera_held cam) (for_each names (delete_orphan c cl)) (\<lambda>_. True)" for names cl
    by (rule maintains_for_each) (rule outward_orphan [OF out])
  have client: "maintains (camera_held cam) (for_node c n) (\<lambda>cl. never_shows cl ?p)" if "nd_id n = i" for n
    by (rule unseen_client [OF out]) (simp add: that never)
  show ?thesis
    unfolding reconcile_node_def
  proof (rule maintains_then [OF outward_steps(1) [OF out]], rule outward_guarded [OF out], rule maintains_then [OF found],
      split option.split, intro conjI impI allI maintains_fail maintains_then [OF maintains_raise])
    fix r and n :: media_node
    assume "\<forall>n. r = Some n \<longrightarrow> nd_id n = i" "r = Some n"
    then have n: "nd_id n = i" by simp
    show "maintains (camera_held cam) (and_then (for_node c n) (\<lambda>client.
        and_then (query (\<lambda>x. list_node_cameras i)) (\<lambda>desired.
        and_then (query (\<lambda>x s. Inr (list_node_active_moves i s))) (\<lambda>active_moves.
        and_then (external (mc_inventory_paths client)) (\<lambda>inventory.
        and_then (raise_if (\<not> mi_no_oracle_matcher_present inventory)
          (ReconcileRetry ''camera_reconcile_reserved_path_missing'')) (\<lambda>_.
        and_then (map_actions (reconcile_camera c client i (map mv_camera_id active_moves)) desired) (\<lambda>changes.
        and_then (query (\<lambda>x s. Inr (rc_set_order c x (orphans inventory desired active_moves)))) (\<lambda>names.
        and_then (for_each names (delete_orphan c client)) (\<lambda>_.
          ret \<lparr>rr_node_id = i, rr_applied = int (length (filter id changes)),
            rr_unchanged = int (length (filter Not changes)), rr_deleted_orphans = int (length names)\<rparr>))))))))) (\<lambda>_. True)"
      by (rule maintains_then [OF client [OF n]], rule maintains_then [OF listed], rule maintains_then [OF any],
          rule maintains_then [OF maintains_outside [OF out]], rule maintains_then [OF maintains_raise],
          rule maintains_then [OF loop], assumption, assumption, rule maintains_then [OF any], rule maintains_then [OF rest],
          rule maintains_ret) simp
  qed
qed

section \<open>Switching\<close>

lemma unseen_client_of:
  assumes out: "outward P" and "node_never_shows c i p"
  shows "maintains P (client_of c i missing) (\<lambda>cl. never_shows cl p)"
proof -
  have "maintains P (get_node_query i) (\<lambda>r. \<forall>n. r = Some n \<longrightarrow> nd_id n = i)"
    unfolding get_node_query_def by (rule maintains_query) (auto simp: get_node_def find_node_key)
  then show ?thesis
    unfolding client_of_def
    by (rule maintains_then) (auto intro!: unseen_client out maintains_fail assms(2) split: option.split)
qed

lemma outward_client_of: "outward P \<Longrightarrow> maintains P (client_of c i missing) (\<lambda>_. True)"
  unfolding client_of_def get_node_query_def for_node_def
  by (rule maintains_then [OF maintains_query [where Q = "\<lambda>_. True"]])
    (auto intro: maintains_outside maintains_fail split: option.split)

lemma unseen_target:
  assumes out: "outward P"
    and never: "node_never_shows c (mv_target_node_id m) (quiesced_path (mv_public_id m) (mv_source_url m))"
  shows "maintains P (prepare_and_verify c m) (\<lambda>_. False)"
proof -
  let ?p = "quiesced_path (mv_public_id m) (mv_source_url m)"
  have name: "mp_name ?p = mv_public_id m" by (simp add: quiesced_path_def)
  have put: "maintains P (if b then and_then (continue_or_cancel c) (\<lambda>_. put_path cl ?p) else ret ()) (\<lambda>_. True)" for b cl
    by (auto intro!: maintains_then [OF outward_steps(1)] outward_steps maintains_ret out)
  have get: "never_shows cl ?p \<Longrightarrow> maintains P (get_path cl (mv_public_id m)) (\<lambda>r. r \<noteq> Some ?p)" for cl
    using unseen_get [OF out, of cl ?p, unfolded name] .
  show ?thesis
    unfolding prepare_and_verify_def Let_def
    by (rule maintains_then [OF outward_steps(1) [OF out]], rule maintains_then [OF unseen_client_of [OF out never]],
        rule maintains_then [OF maintains_handle [where Q = "\<lambda>r. r \<noteq> Some ?p"]])
      (auto intro!: maintains_then [OF get] maintains_then [OF put] maintains_then [OF outward_steps(1) [OF out]] get
        unseen_read_back [OF out] intro: maintains_weaken [OF maintains_raise])
qed

lemma unseen_source:
  assumes out: "outward P"
    and never: "node_never_shows c (mv_source_node_id m) (quiesced_path (mv_public_id m) (mv_source_url m))"
  shows "maintains P (quiesce_and_validate_source c m) (\<lambda>_. False)"
proof -
  let ?p = "quiesced_path (mv_public_id m) (mv_source_url m)"
  have name: "mp_name ?p = mv_public_id m" by (simp add: quiesced_path_def)
  have get: "never_shows cl ?p \<Longrightarrow> maintains P (get_path cl (mv_public_id m)) (\<lambda>r. r \<noteq> Some ?p)" for cl
    using unseen_get [OF out, of cl ?p, unfolded name] .
  show ?thesis
    unfolding quiesce_and_validate_source_def Let_def
    by (rule maintains_then [OF outward_steps(1) [OF out]], rule maintains_then [OF unseen_client_of [OF out never]])
      (auto intro!: maintains_then [OF outward_steps(1) [OF out]] maintains_then [OF outward_steps(3) [OF out]]
        maintains_then [OF get] maintains_then [OF maintains_raise])
qed

text \<open>The phases over any clients, for an invariant that does not look outside.\<close>

lemma outward_put_get:
  assumes out: "outward P" and "\<And>a. maintains P (f a) Q"
  shows "maintains P (and_then (put_path cl p) (\<lambda>_. and_then (continue_or_cancel c) (\<lambda>_. and_then (get_path cl n) f))) Q"
  by (intro maintains_then [OF outward_steps(3) [OF out]] maintains_then [OF outward_steps(1) [OF out]]
      maintains_then [OF outward_steps(4) [OF out]] assms(2))

lemma outward_prepare:
  assumes out: "outward P"
  shows "maintains P (prepare_and_verify c m) (\<lambda>_. True)"
proof -
  have put: "maintains P (if b then and_then (continue_or_cancel c) (\<lambda>_. put_path cl p) else ret ()) (\<lambda>_. True)" for b cl p
    by (auto intro!: maintains_then [OF outward_steps(1)] outward_steps maintains_ret out)
  have read: "maintains P (safe_read_back c cl p) (\<lambda>_. True)" for cl p
    unfolding safe_read_back_def by (intro maintains_handle maintains_then [OF outward_steps(1) [OF out]] outward_steps(4) [OF out] maintains_fail)
  show ?thesis
    unfolding prepare_and_verify_def Let_def
    by (rule maintains_then [OF outward_steps(1) [OF out]], rule maintains_then [OF outward_client_of [OF out]],
        rule maintains_then [OF maintains_handle [where Q = "\<lambda>_. True"]])
      (auto intro!: maintains_then [OF outward_steps(4) [OF out]] maintains_then [OF put] maintains_then [OF outward_steps(1) [OF out]]
        outward_steps(4) [OF out] read maintains_weaken [OF maintains_raise])
qed

lemma outward_abort_work:
  assumes out: "outward P"
  shows "maintains P (cleanup_target c m) (\<lambda>_. True)" "maintains P (restore_source c m) (\<lambda>_. True)"
  unfolding cleanup_target_def restore_source_def Let_def
  by (auto intro!: maintains_then [OF outward_steps(1) [OF out]] maintains_then [OF outward_client_of [OF out]]
      outward_remove [OF out] outward_put_get [OF out] maintains_weaken [OF maintains_raise])

section \<open>Moves that are not switched\<close>

definition move_terms :: "camera_move \<Rightarrow> camera_move" where
  "move_terms m = m\<lparr>mv_state := CM_ABORTED, mv_abort_reason := None\<rparr>"

lemma move_terms_fields:
  assumes "move_terms m = move_terms m'"
  shows "mv_id m = mv_id m'" "mv_public_id m = mv_public_id m'" "mv_source_url m = mv_source_url m'"
    "mv_source_node_id m = mv_source_node_id m'" "mv_target_node_id m = mv_target_node_id m'" "mv_camera_id m = mv_camera_id m'"
  using assms by (cases m; cases m'; simp add: move_terms_def)+

lemma move_terms_update [simp]:
  "move_terms (m\<lparr>mv_state := st\<rparr>) = move_terms m" "move_terms (m\<lparr>mv_abort_reason := r\<rparr>) = move_terms m"
  by (simp_all add: move_terms_def)

definition unswitched_move :: "camera_move \<Rightarrow> camera_move \<Rightarrow> bool" where
  "unswitched_move m0 m \<longleftrightarrow> move_terms m = move_terms m0 \<and> mv_state m \<in> {CM_PREPARE_TARGET, CM_CLEANUP_TARGET, CM_ABORTED}"

definition unswitched :: "camera_move \<Rightarrow> 'x world \<Rightarrow> bool" where
  "unswitched m0 w \<longleftrightarrow>
     (\<exists>m. find_move (mv_id m0) (w_store w) = Some m \<and> unswitched_move m0 m)
   \<and> (\<exists>cam. find_camera (mv_camera_id m0) (w_store w) = Some cam \<and> cp_node_id cam = mv_source_node_id m0)"

lemma unswitched_outward: "outward (unswitched m0)"
  by (simp add: outward_def unswitched_def)

lemma request_abort_unswitched:
  assumes "unswitched m0 w" and "request_camera_move_abort (mv_id m0) reason b (w_store w) = Inr (m', s')"
  shows "unswitched m0 (w\<lparr>w_store := s'\<rparr>) \<and> unswitched_move m0 m'"
  using assms
  by (auto simp: unswitched_def unswitched_move_def request_camera_move_abort_def camera_move_is_terminal_def Let_def
      find_by_replace_first find_move_key find_camera_key split: if_splits option.splits)

lemma abort_unswitched:
  assumes "unswitched m0 w" and "abort_camera_move (mv_id m0) (w_store w) = Inr (m', s')"
  shows "unswitched m0 (w\<lparr>w_store := s'\<rparr>) \<and> unswitched_move m0 m'"
  using assms
  by (auto simp: unswitched_def unswitched_move_def abort_camera_move_def put_move_def Let_def
      find_by_replace_first find_move_key split: if_splits option.splits)

definition never_quiesced :: "'x reconciler \<Rightarrow> camera_move \<Rightarrow> bool" where
  "never_quiesced c m \<longleftrightarrow>
     node_never_shows c (mv_target_node_id m) (quiesced_path (mv_public_id m) (mv_source_url m))
   \<or> node_never_shows c (mv_source_node_id m) (quiesced_path (mv_public_id m) (mv_source_url m))"

lemma unswitched_abort_request:
  "maintains (unswitched m0) (abort_request_call c (mv_id m0) reason) (unswitched_move m0)"
  unfolding abort_request_call_def
  by (rule maintains_then [OF outward_steps(2) [OF unswitched_outward]]) (rule maintains_call, rule request_abort_unswitched)

lemma unswitched_prepare:
  assumes "never_quiesced c m0" and m: "unswitched_move m0 m"
  shows "maintains (unswitched m0) (resume_prepare c m) (unswitched_move m0)"
proof (cases "mv_state m = CM_PREPARE_TARGET")
  case True
  note out = unswitched_outward [of m0]
  have fields: "mv_id m = mv_id m0" "mv_public_id m = mv_public_id m0" "mv_source_url m = mv_source_url m0"
    "mv_source_node_id m = mv_source_node_id m0" "mv_target_node_id m = mv_target_node_id m0"
    using m move_terms_fields [of m m0] by (simp_all add: unswitched_move_def)
  from assms(1) consider
      "node_never_shows c (mv_target_node_id m) (quiesced_path (mv_public_id m) (mv_source_url m))"
    | "node_never_shows c (mv_source_node_id m) (quiesced_path (mv_public_id m) (mv_source_url m))"
    unfolding never_quiesced_def fields by blast
  then show ?thesis
  proof cases
    case 1
    then show ?thesis
      unfolding resume_prepare_def using True by (simp add: maintains_then [OF unseen_target [OF out]])
  next
    case 2
    have "maintains (unswitched m0) (and_then (quiesce_and_validate_source c m) (\<lambda>_.
        and_then (continue_or_cancel c) (\<lambda>_. switch_call c (mv_id m)))) (unswitched_move m0)"
      by (rule maintains_then [OF unseen_source [OF out 2]]) simp
    then show ?thesis
      unfolding resume_prepare_def using True
      by (simp add: fields) (intro maintains_then [OF outward_prepare [OF out]] maintains_handle unswitched_abort_request)
  qed
qed (simp add: resume_prepare_def maintains_ret m)

lemma unswitched_cleanup:
  assumes m: "unswitched_move m0 m"
  shows "maintains (unswitched m0) (resume_cleanup_target c m) (unswitched_move m0)"
proof -
  have "mv_id m = mv_id m0" using m move_terms_fields(1) [of m m0] by (simp add: unswitched_move_def)
  then show ?thesis
    unfolding resume_cleanup_target_def using m
    by (auto intro!: maintains_ret maintains_then [OF outward_abort_work(1) [OF unswitched_outward]]
        maintains_then [OF outward_abort_work(2) [OF unswitched_outward]]
        maintains_then [OF outward_steps(1) [OF unswitched_outward]] maintains_call dest: abort_unswitched)
qed

lemma unswitched_resume:
  assumes "never_quiesced c m0"
  shows "maintains (unswitched m0) (resume c (mv_id m0)) (unswitched_move m0)"
proof -
  note out = unswitched_outward [of m0]
  have get: "maintains (unswitched m0) (get_move_call (mv_id m0)) (unswitched_move m0)"
    unfolding get_move_call_def
    by (rule maintains_then [OF maintains_query [where Q = "\<lambda>r. \<forall>m. r = Some m \<longrightarrow> unswitched_move m0 m"]])
      (auto simp: get_camera_move_def unswitched_def intro: maintains_fail maintains_ret split: option.split)
  have late: "maintains (unswitched m0) (resume_cleanup_source c m) (unswitched_move m0)"
    "maintains (unswitched m0) (resume_activate c m) (unswitched_move m0)" if "unswitched_move m0 m" for m
    using that by (auto simp: resume_cleanup_source_def resume_activate_def unswitched_move_def intro: maintains_ret)
  have "maintains (unswitched m0) (and_then (get_move_call (mv_id m0)) (\<lambda>m1. and_then (resume_prepare c m1) (\<lambda>m2.
      and_then (resume_cleanup_target c m2) (\<lambda>m3. and_then (resume_cleanup_source c m3) (resume_activate c))))) (unswitched_move m0)"
    by (rule maintains_then [OF get], rule maintains_then [OF unswitched_prepare [OF assms]], assumption,
        rule maintains_then [OF unswitched_cleanup], assumption, rule maintains_then [OF late(1)], assumption, rule late(2))
  moreover have "maintains (unswitched m0) (node_guards c is a) (unswitched_move m0)"
    if "maintains (unswitched m0) a (unswitched_move m0)" for "is" a
    using that by (induction "is") (auto intro: outward_guarded [OF out])
  ultimately show ?thesis
    unfolding resume_def
    by (intro maintains_then [OF outward_steps(1) [OF out]] maintains_then [OF get]) (auto intro: maintains_ret)
qed

end
