(* ===== verification/Media_Examples.thy ===== *)
theory Media_Examples
  imports Move_Convergence Reconcile_Safety Store_Examples "HOL-Library.List_Lexorder" "HOL-Library.Char_ord"
begin

text \<open>
  Concrete media nodes for the stores of \<^verbatim>\<open>Store_Examples\<close>: nodes that keep their paths in
  association lists, and nodes that lose every path they are given.
\<close>

type_synonym ex_paths = "uuid \<Rightarrow> (public_id \<times> media_path_config) list"

definition ex_media_world :: "ex_paths media_world" where
  "ex_media_world = \<lparr>mw_paths = (\<lambda>x i. map_of (x i)),
     mw_client = (\<lambda>n. \<lparr>mc_put_path = (\<lambda>p x. (Inr (), x(nd_id n := (mp_name p, p) # x (nd_id n)))),
       mc_get_path = (\<lambda>name x. (Inr (map_of (x (nd_id n)) name), x)),
       mc_inventory_paths = (\<lambda>x. (Inr \<lparr>mi_camera_ids = sorted_list_of_set (dom (map_of (x (nd_id n)))),
         mi_no_oracle_matcher_present = True\<rparr>, x)),
       mc_delete_path = (\<lambda>name x. (Inr (), x(nd_id n := filter (\<lambda>e. fst e \<noteq> name) (x (nd_id n))))),
       mc_path_runtime_status = (\<lambda>name x. (Inr (Some (True, 0)), x))\<rparr>),
     mw_listing = (\<lambda>m. sorted_list_of_set (dom m)), mw_order = id, mw_readers = (\<lambda>i name. 0)\<rparr>"

definition ex_reconciler :: "ex_paths reconciler" where
  "ex_reconciler = \<lparr>rc_for_node = (\<lambda>n x. (Inr (mw_client ex_media_world n), x)), rc_cancelled = (\<lambda>x. (False, x)),
     rc_acquire = (\<lambda>i x. (True, x)), rc_set_order = (\<lambda>x names. names), rc_env = (\<lambda>x. ex_env)\<rparr>"

lemma map_of_filter_key: "map_of (filter (\<lambda>e. fst e \<noteq> n) xs) = (map_of xs)(n := None)"
  by (induction xs) (auto simp: fun_eq_iff)

lemma ex_media_works: "media_works ex_reconciler ex_media_world"
  by (simp add: media_works_def client_works_def same_paths_def ex_reconciler_def ex_media_world_def map_of_filter_key
      finite_dom_map_of fun_eq_iff)

text \<open>The same nodes with one reader on every path.\<close>

definition ex_watched_world :: "ex_paths media_world" where
  "ex_watched_world = ex_media_world\<lparr>mw_readers := (\<lambda>i name. 1),
     mw_client := (\<lambda>n. (mw_client ex_media_world n)\<lparr>mc_path_runtime_status := (\<lambda>name x. (Inr (Some (True, 1)), x))\<rparr>)\<rparr>"

definition ex_watched :: "ex_paths reconciler" where
  "ex_watched = ex_reconciler\<lparr>rc_for_node := (\<lambda>n x. (Inr (mw_client ex_watched_world n), x))\<rparr>"

lemma ex_watched_works: "media_works ex_watched ex_watched_world"
  by (simp add: media_works_def client_works_def same_paths_def ex_watched_def ex_watched_world_def ex_reconciler_def
      ex_media_world_def map_of_filter_key finite_dom_map_of fun_eq_iff)

text \<open>Nodes that accept every path and never show one.\<close>

definition ex_forgetful :: "ex_paths reconciler" where
  "ex_forgetful = ex_reconciler\<lparr>rc_for_node := (\<lambda>n x. (Inr ((mw_client ex_media_world n)\<lparr>
     mc_get_path := (\<lambda>name x. (Inr None, x))\<rparr>), x))\<rparr>"

lemma ex_never: "node_never_shows ex_forgetful i p"
  by (auto simp: node_never_shows_def never_shows_def ex_forgetful_def)

definition ex_media :: "node_store \<Rightarrow> ex_paths world" where
  "ex_media s = \<lparr>w_store = s, w_slots = 1, w_ext = (\<lambda>i. [])\<rparr>"

lemma ex_media_simps [simp]: "w_store (ex_media s) = s" "w_slots (ex_media s) = 1" "w_ext (ex_media s) = (\<lambda>i. [])"
  by (simp_all add: ex_media_def)

lemma ex_placed_view: "find_node 1 ex_placed = Some (ex_count 1 (ex_node 1 8554))"
  "live_node_cameras 1 ex_placed = [ex_camera]" "list_node_active_moves 1 ex_placed = []"
  "find_camera 7 ex_placed = Some ex_camera"
  by (simp_all add: ex_placed_eq ex_store_def init_store_def live_node_cameras_def list_node_active_moves_def ex_values)

lemma ex_camera_fields: "cp_id ex_camera = 7" "cp_public_id ex_camera = ''cam''" "cp_state ex_camera = CS_ENABLED"
  "cp_source_url ex_camera = ''rtsp://10.0.0.9/live''"
  by (simp_all add: ex_values)

lemma ex_node_fields: "nd_runtime_state (ex_count k (ex_node i p)) = NS_RUNNING" "nd_config_compatible (ex_count k (ex_node i p))"
  by (simp_all add: ex_values)

lemma ex_moving_view: "find_move 9 ex_moving = Some ex_move" "find_node 2 ex_moving = Some (ex_node 2 8555)"
  by (simp_all add: ex_moving_eq ex_placed_eq ex_store_def init_store_def ex_values)

end
