(* ===== verification/Reconcile_Properties.thy ===== *)
theory Reconcile_Properties
  imports Media_Examples
begin

text \<open>
  What makes the reconcilers correct: they change the store only along its operations, nothing is
  acknowledged or switched that the media nodes do not show, and over media nodes that work they
  reach the state the store asks for.
\<close>

section \<open>Whatever the media nodes answer\<close>

text \<open>C33. A reconcile cycle keeps the store among the states its operations reach, keeps the node
  disruption slots and the port changes, and touches nothing of a node but its camera count, whatever the media
  nodes answer and whenever it is cancelled.\<close>

theorem reconcile_refines_store:
  assumes "reachable (w_store w)" and "run_once c w = (r, w')"
  shows "reachable (w_store w') \<and> w_slots w' = w_slots w \<and> st_port_changes (w_store w') = st_port_changes (w_store w)
    \<and> map lifecycle_of (st_nodes (w_store w')) = map lifecycle_of (st_nodes (w_store w))"
  using reach_saga.cycle [of c] slots_saga.cycle [of c] lifecycle_saga.cycle [of c] assms
  by (auto simp: keeps_def reach_kept_def same_slots_def lifecycle_kept_def dest: spec [of _ w])

theorem reconcile_refines_store_witness:
  "reachable (w_store (snd (run_once ex_forgetful (ex_media ex_moving))))"
  using reconcile_refines_store [of "ex_media ex_moving" ex_forgetful "fst (run_once ex_forgetful (ex_media ex_moving))"]
    ex_moving_reachable by simp

text \<open>C35. An enabled camera is acknowledged only on a read-back: while no client of a node ever
  shows the path the camera asks for, reconciling the node leaves the camera's record as it is.\<close>

theorem unverified_not_acknowledged:
  assumes "reachable (w_store w)" and "find_camera j (w_store w) = Some cam" and "cp_state cam = CS_ENABLED"
    and "node_never_shows c i (served_path (cp_public_id cam) (cp_source_url cam))"
    and "reconcile_node c i w = (r, w')"
  shows "find_camera j (w_store w') = Some cam"
proof -
  have j: "cp_id cam = j" using find_camera_key [OF assms(2)] .
  have "camera_held cam w"
    using assms(2) store_invD(1) [OF store_machine.always [OF assms(1)]] by (simp add: camera_held_def ids_ok_def j)
  from maintainsD [OF unseen_node [OF assms(3,4)] this] show ?thesis by (simp add: assms(5) camera_held_def j)
qed

theorem unverified_not_acknowledged_witness:
  "find_camera 7 (w_store (snd (reconcile_node ex_forgetful 1 (ex_media ex_placed)))) = Some ex_camera"
  using unverified_not_acknowledged [of "ex_media ex_placed" 7 ex_camera ex_forgetful 1
      "fst (reconcile_node ex_forgetful 1 (ex_media ex_placed))"] ex_placed_reachable ex_placed_view ex_never
  by (simp add: ex_values)

text \<open>C36. A move is switched only on a read-back: while a prepared move's target, or its source, never
  shows the quiesced path, resuming the move leaves the camera on its source node, and the move prepared, being
  aborted or aborted.\<close>

theorem unverified_never_switched:
  assumes "reachable (w_store w)" and m: "find_move i (w_store w) = Some m" "mv_state m = CM_PREPARE_TARGET"
    and "node_never_shows c (mv_target_node_id m) (quiesced_path (mv_public_id m) (mv_source_url m))
       \<or> node_never_shows c (mv_source_node_id m) (quiesced_path (mv_public_id m) (mv_source_url m))"
    and "resume c i w = (r, w')"
  shows "\<exists>m' cam. find_move i (w_store w') = Some m' \<and> mv_state m' \<in> {CM_PREPARE_TARGET, CM_CLEANUP_TARGET, CM_ABORTED}
    \<and> find_camera (mv_camera_id m) (w_store w') = Some cam \<and> cp_node_id cam = mv_source_node_id m"
proof -
  note inv = store_machine.always [OF assms(1)]
  have i: "mv_id m = i" using find_move_key [OF m(1)] .
  have "move_ok (w_store w) m" using inv_found_move_ok [OF inv m(1)] m(2) by (simp add: camera_move_is_terminal_def)
  then have "unswitched m w"
    using m i by (auto simp: unswitched_def unswitched_move_def move_ok_def moving_camera_ok_def split: option.splits)
  moreover have "never_quiesced c m" using assms(4) by (simp add: never_quiesced_def)
  ultimately have "unswitched m (snd (resume c i w))" using maintainsD [OF unswitched_resume, of c m w] i by simp
  then show ?thesis by (auto simp: assms(5) unswitched_def unswitched_move_def i)
qed

theorem unverified_never_switched_witness:
  "\<exists>m' cam. find_move 9 (w_store (snd (resume ex_forgetful 9 (ex_media ex_moving)))) = Some m'
    \<and> mv_state m' \<in> {CM_PREPARE_TARGET, CM_CLEANUP_TARGET, CM_ABORTED}
    \<and> find_camera (mv_camera_id ex_move) (w_store (snd (resume ex_forgetful 9 (ex_media ex_moving)))) = Some cam
    \<and> cp_node_id cam = mv_source_node_id ex_move"
  by (rule unverified_never_switched [of "ex_media ex_moving" _ _ ex_forgetful "fst (resume ex_forgetful 9 (ex_media ex_moving))"])
    (simp_all add: ex_moving_reachable ex_moving_view ex_never ex_values)

section \<open>Over media nodes that work\<close>

text \<open>C34. Reconciling a running node with a compatible configuration, whose cameras have distinct public ids, returns, and
  then every live camera of the node that is not moving is acknowledged and, when it is enabled, served as it asks, otherwise gone; a path that
  belongs to no camera and no move is gone; and the paths of moving cameras and of other nodes are as
  they were.\<close>

theorem reconcile_node_converges:
  fixes mw c i w
  defines "s \<equiv> w_store w" and "v \<equiv> mw_paths mw (w_ext w)"
  assumes works: "media_works c mw" and r: "reachable s"
    and n: "find_node i s = Some n" "nd_runtime_state n = NS_RUNNING" "nd_config_compatible n"
    and public: "distinct (map cp_public_id (live_node_cameras i s))"
  shows "\<exists>report w'. reconcile_node c i w = (Inr report, w')
    \<and> (\<forall>cam \<in> set (live_node_cameras i s). cp_id cam \<notin> mv_camera_id ` set (list_node_active_moves i s) \<longrightarrow>
         find_camera (cp_id cam) (w_store w') = Some (settled_camera cam)
       \<and> mw_paths mw (w_ext w') i (cp_public_id cam) =
           (if cp_state cam = CS_ENABLED then Some (served_path (cp_public_id cam) (cp_source_url cam)) else None))
    \<and> (\<forall>name. name \<notin> cp_public_id ` set (live_node_cameras i s) \<longrightarrow>
         mw_paths mw (w_ext w') i name =
           (if name \<in> mv_public_id ` set (list_node_active_moves i s) then v i name else None))
    \<and> (\<forall>cam \<in> set (live_node_cameras i s). cp_id cam \<in> mv_camera_id ` set (list_node_active_moves i s) \<longrightarrow>
         mw_paths mw (w_ext w') i (cp_public_id cam) = v i (cp_public_id cam))
    \<and> (\<forall>j. j \<noteq> i \<longrightarrow> mw_paths mw (w_ext w') j = v j)"
proof -
  let ?cams = "live_node_cameras i s" and ?moves = "list_node_active_moves i s"
  let ?moving = "map mv_camera_id ?moves"
  note inv = store_machine.always [OF r]
  have ids: "distinct (map cp_id ?cams)"
    using store_invD(1) [OF inv] by (simp add: ids_ok_def live_node_cameras_def distinct_map_filter)
  have lock: "lifecycle_guard i s = None"
    using n(1) store_invD(2) [OF inv] by (auto simp: locks_ok_def lifecycle_guard_def dest: find_by_SomeD)
  have "set (mw_listing mw (v i)) = dom (v i)" using works by (simp add: media_works_def v_def)
  then have "\<exists>report. media_gives mw (reconcile_node c i) s v (Inr report) (fold (settle i ?moving) ?cams s)
      (settled_paths i ?cams ?moves v)"
    by (intro gives_reconcile_node [OF works n lock _ ids] unmoved_camera [OF inv])
  then obtain report w' where
    run: "reconcile_node c i w = (Inr report, w')" "w_store w' = fold (settle i ?moving) ?cams s"
      "mw_paths mw (w_ext w') = settled_paths i ?cams ?moves v"
    by (elim exE) (erule givesD, simp_all add: s_def v_def)
  have settled: "find_camera (cp_id cam) (w_store w') = Some (settled_camera cam)"
    if "cam \<in> set ?cams" "cp_id cam \<notin> mv_camera_id ` set ?moves" for cam
    unfolding run(2) using that n(1) unmoved_camera [OF inv that]
    by (intro fold_settle_at [OF that(1) ids]) (auto simp: live_node_cameras_def)
  moreover have "settled_paths i ?cams ?moves v i (cp_public_id cam) =
      (if cp_state cam = CS_ENABLED then Some (served_path (cp_public_id cam) (cp_source_url cam)) else None)"
    if "cam \<in> set ?cams" "cp_id cam \<notin> mv_camera_id ` set ?moves" for cam
    using settle_path_at [OF that(1) public, of ?moving i v] that by (simp add: settled_paths_def)
  moreover have "settled_paths i ?cams ?moves v i name =
      (if name \<in> mv_public_id ` set ?moves then v i name else None)" if "name \<notin> cp_public_id ` set ?cams" for name
  proof -
    have "fold (settle_path i ?moving) ?cams v i name = v i name" by (rule settle_path_other) (use that in auto)
    then show ?thesis using that by (simp add: settled_paths_def)
  qed
  moreover have "settled_paths i ?cams ?moves v i (cp_public_id cam) = v i (cp_public_id cam)"
    if "cam \<in> set ?cams" "cp_id cam \<in> mv_camera_id ` set ?moves" for cam
  proof -
    have "cam' = cam" if "cam' \<in> set ?cams" "cp_public_id cam' = cp_public_id cam" for cam'
      using public that \<open>cam \<in> set ?cams\<close> by (auto simp: distinct_map dest: inj_onD)
    then have "fold (settle_path i ?moving) ?cams v i (cp_public_id cam) = v i (cp_public_id cam)"
      by (intro settle_path_other) (use that in auto)
    then show ?thesis using that by (simp add: settled_paths_def)
  qed
  moreover have "settled_paths i ?cams ?moves v j = v j" if "j \<noteq> i" for j using that by (simp add: settled_paths_def)
  ultimately show ?thesis unfolding run(1) run(3)[symmetric] by (intro exI [of _ report] exI [of _ w']) simp
qed

theorem reconcile_node_converges_witness:
  "\<exists>report w'. reconcile_node ex_reconciler 1 (ex_media ex_placed) = (Inr report, w')
     \<and> find_camera 7 (w_store w') = Some (settled_camera ex_camera)
     \<and> mw_paths ex_media_world (w_ext w') 1 ''cam'' = Some (served_path ''cam'' ''rtsp://10.0.0.9/live'')"
  using reconcile_node_converges [of ex_reconciler ex_media_world "ex_media ex_placed" 1 "ex_count 1 (ex_node 1 8554)"]
    ex_media_works ex_placed_reachable
  by (auto simp: ex_placed_view ex_camera_fields ex_node_fields)

text \<open>C37. A prepared move whose time has not run out, whose target is still eligible and whose source
  has the readers that were confirmed is carried through by one resumption: the camera is on the target with its
  revision acknowledged, the target serves it and the source has no path for it.\<close>

theorem resume_completes:
  assumes "media_works c mw" and "reachable (w_store w)"
    and "find_move i (w_store w) = Some m" "mv_state m = CM_PREPARE_TARGET"
    and "\<And>x. env_clock (rc_env c x) < mv_expires_at m"
    and "find_node (mv_target_node_id m) (w_store w) = Some tn" "\<And>x. is_node_eligible tn 30 (env_utc_now (rc_env c x))"
    and "mw_readers mw (mv_source_node_id m) (mv_public_id m) = (if mv_force m then mv_confirmed_disconnect_readers m else 0)"
    and "mv_confirmed_disconnect_readers m \<le> 1"
  shows "\<exists>w' cam. resume c i w = (Inr (m\<lparr>mv_state := CM_COMPLETE\<rparr>), w')
    \<and> find_move i (w_store w') = Some (m\<lparr>mv_state := CM_COMPLETE\<rparr>)
    \<and> find_camera (mv_camera_id m) (w_store w') = Some cam \<and> cp_node_id cam = mv_target_node_id m
    \<and> cp_node_port cam = nd_external_port tn \<and> cp_applied_revision cam = cp_desired_revision cam
    \<and> mw_paths mw (w_ext w') (mv_target_node_id m) (mv_public_id m) = Some (served_path (mv_public_id m) (mv_source_url m))
    \<and> mw_paths mw (w_ext w') (mv_source_node_id m) (mv_public_id m) = None"
proof -
  note inv = store_machine.always [OF assms(2)]
  have nodes: "mv_source_node_id m \<noteq> mv_target_node_id m"
    using inv_found_move_ok [OF inv assms(3)] assms(4) by (simp add: camera_move_is_terminal_def move_ok_def)
  have "quiesce_outcome m (mw_readers mw (mv_source_node_id m) (mv_public_id m)) = Inr ()"
    using assms(8,9) by (simp add: quiesce_outcome_def)
  from resume_completes_run [OF assms(1-7) this] obtain s' cam where
    run: "media_gives mw (resume c i) (w_store w) (mw_paths mw (w_ext w)) (Inr (m\<lparr>mv_state := CM_COMPLETE\<rparr>)) s'
      (set_path (mv_target_node_id m) (mv_public_id m) (Some (served_path (mv_public_id m) (mv_source_url m)))
        (set_path (mv_source_node_id m) (mv_public_id m) None (mw_paths mw (w_ext w))))"
    and s': "find_move i s' = Some (m\<lparr>mv_state := CM_COMPLETE\<rparr>)" "find_camera (mv_camera_id m) s' = Some cam"
      "cp_node_id cam = mv_target_node_id m" "cp_node_port cam = nd_external_port tn"
      "cp_applied_revision cam = cp_desired_revision cam" .
  from run refl refl obtain w' where "resume c i w = (Inr (m\<lparr>mv_state := CM_COMPLETE\<rparr>), w')" "w_store w' = s'"
    "mw_paths mw (w_ext w') = set_path (mv_target_node_id m) (mv_public_id m) (Some (served_path (mv_public_id m) (mv_source_url m)))
        (set_path (mv_source_node_id m) (mv_public_id m) None (mw_paths mw (w_ext w)))" by (rule givesD)
  with s' nodes show ?thesis by (intro exI [of _ w'] exI [of _ cam]) (simp add: set_path_def)
qed

theorem resume_completes_witness:
  "\<exists>w' cam. resume ex_reconciler 9 (ex_media ex_moving) = (Inr (ex_move\<lparr>mv_state := CM_COMPLETE\<rparr>), w')
     \<and> find_camera 7 (w_store w') = Some cam \<and> cp_node_id cam = 2
     \<and> mw_paths ex_media_world (w_ext w') 1 ''cam'' = None"
  using resume_completes [of ex_reconciler ex_media_world "ex_media ex_moving" 9 ex_move "ex_node 2 8555"]
    ex_media_works ex_moving_reachable ex_moving_view
  by (auto simp: ex_values ex_rules ex_reconciler_def ex_media_world_def)

text \<open>A prepared move that finds other readers on its source than were confirmed is taken
  back by one resumption: the move is aborted with the reason, every node record and the camera's
  placement are as before, the source serves the camera again and the target has no path for it.\<close>

theorem resume_aborts:
  assumes "media_works c mw" and "reachable (w_store w)"
    and "find_move i (w_store w) = Some m" "mv_state m = CM_PREPARE_TARGET"
    and "mw_readers mw (mv_source_node_id m) (mv_public_id m) \<noteq> (if mv_force m then mv_confirmed_disconnect_readers m else 0)"
  shows "\<exists>w' cam. resume c i w =
      (Inr (m\<lparr>mv_state := CM_ABORTED, mv_abort_reason := Some ''camera_move_occupancy_changed''\<rparr>), w')
    \<and> find_move i (w_store w') = Some (m\<lparr>mv_state := CM_ABORTED, mv_abort_reason := Some ''camera_move_occupancy_changed''\<rparr>)
    \<and> st_nodes (w_store w') = st_nodes (w_store w)
    \<and> find_camera (mv_camera_id m) (w_store w) = Some cam \<and> cp_node_id cam = mv_source_node_id m
    \<and> find_camera (mv_camera_id m) (w_store w') = Some (cam\<lparr>cp_desired_revision := cp_desired_revision cam + 1\<rparr>)
    \<and> mw_paths mw (w_ext w') (mv_source_node_id m) (mv_public_id m) = Some (served_path (mv_public_id m) (mv_source_url m))
    \<and> mw_paths mw (w_ext w') (mv_target_node_id m) (mv_public_id m) = None"
proof -
  let ?m = "m\<lparr>mv_state := CM_ABORTED, mv_abort_reason := Some ''camera_move_occupancy_changed''\<rparr>"
  note inv = store_machine.always [OF assms(2)]
  have nodes: "mv_source_node_id m \<noteq> mv_target_node_id m"
    using inv_found_move_ok [OF inv assms(3)] assms(4) by (simp add: camera_move_is_terminal_def move_ok_def)
  have "\<exists>e. quiesce_outcome m (mw_readers mw (mv_source_node_id m) (mv_public_id m)) = Inl e"
    using assms(5) by (auto simp: quiesce_outcome_def split: if_splits)
  then obtain e where "quiesce_outcome m (mw_readers mw (mv_source_node_id m) (mv_public_id m)) = Inl e" ..
  from resume_aborts_run [OF assms(1-4) this] obtain s' cam where
    run: "media_gives mw (resume c i) (w_store w) (mw_paths mw (w_ext w)) (Inr ?m) s'
      (set_path (mv_source_node_id m) (mv_public_id m) (Some (served_path (mv_public_id m) (mv_source_url m)))
        (set_path (mv_target_node_id m) (mv_public_id m) None (mw_paths mw (w_ext w))))"
    and s': "find_move i s' = Some ?m" "st_nodes s' = st_nodes (w_store w)"
      "find_camera (mv_camera_id m) (w_store w) = Some cam" "cp_node_id cam = mv_source_node_id m"
      "find_camera (mv_camera_id m) s' = Some (cam\<lparr>cp_desired_revision := cp_desired_revision cam + 1\<rparr>)" .
  from run refl refl obtain w' where "resume c i w = (Inr ?m, w')" "w_store w' = s'"
    "mw_paths mw (w_ext w') = set_path (mv_source_node_id m) (mv_public_id m) (Some (served_path (mv_public_id m) (mv_source_url m)))
        (set_path (mv_target_node_id m) (mv_public_id m) None (mw_paths mw (w_ext w)))" by (rule givesD)
  with s' nodes show ?thesis by (intro exI [of _ w'] exI [of _ cam]) (simp add: set_path_def)
qed

theorem resume_aborts_witness:
  "\<exists>w'. resume ex_watched 9 (ex_media ex_moving) =
      (Inr (ex_move\<lparr>mv_state := CM_ABORTED, mv_abort_reason := Some ''camera_move_occupancy_changed''\<rparr>), w')
     \<and> mw_paths ex_watched_world (w_ext w') 1 ''cam'' = Some (served_path ''cam'' ''rtsp://10.0.0.9/live'')"
  using resume_aborts [of ex_watched ex_watched_world "ex_media ex_moving" 9 ex_move]
    ex_watched_works ex_moving_reachable ex_moving_view
  by (auto simp: ex_values ex_watched_world_def)

end
