(* ===== verification/Json.thy ===== *)
theory Json
  imports Node_Types "HOL-Library.List_Lexorder" "HOL-Library.Char_ord"
begin

text \<open>
  What the sources use of the \<^verbatim>\<open>json\<close> module: \<^verbatim>\<open>json.dumps\<close> with sorted keys, compact separators and ASCII
  output, and \<^verbatim>\<open>json.loads\<close> of bytes. Text is a list of code points, as it may be any text once escapes and
  encodings are undone.
\<close>

section \<open>Writing\<close>

definition ascii_escape :: "char \<Rightarrow> string" where
  "ascii_escape c =
     (if c = CHR 0x22 then [CHR 0x5C, CHR 0x22]
      else if c = CHR 0x5C then [CHR 0x5C, CHR 0x5C]
      else if code c = 10 then [CHR 0x5C, CHR ''n'']
      else if code c = 13 then [CHR 0x5C, CHR ''r'']
      else if code c = 9 then [CHR 0x5C, CHR ''t'']
      else if code c = 12 then [CHR 0x5C, CHR ''f'']
      else if code c = 8 then [CHR 0x5C, CHR ''b'']
      else if code c < 32 \<or> 126 < code c then CHR 0x5C # CHR ''u'' # hex_fixed 4 (code c)
      else [c])"

definition ascii_string :: "string \<Rightarrow> string" where
  "ascii_string s = CHR 0x22 # concat (map ascii_escape s) @ [CHR 0x22]"

fun emit :: "json \<Rightarrow> string" and emit_elements :: "json list \<Rightarrow> string" and emit_members :: "(string \<times> json) list \<Rightarrow> string" where
  "emit JNull = ''null''"
| "emit (JInt i) = str_int i"
| "emit (JStr s) = ascii_string s"
| "emit (JList vs) = (if vs = [] then ''[]'' else CHR ''['' # emit_elements vs)"
| "emit (JObj kvs) = (if kvs = [] then ''{}'' else CHR ''{'' # emit_members kvs)"
| "emit_elements [] = '']''"
| "emit_elements (v # vs) = emit v @ (if vs = [] then '']'' else CHR '','' # emit_elements vs)"
| "emit_members [] = ''}''"
| "emit_members ((k, v) # kvs) =
     ascii_string k @ CHR '':'' # emit v @ (if kvs = [] then ''}'' else CHR '','' # emit_members kvs)"

text \<open>\<^verbatim>\<open>sort_keys=True\<close>, at every level.\<close>

fun sort_keys :: "json \<Rightarrow> json" where
  "sort_keys (JList vs) = JList (map sort_keys vs)"
| "sort_keys (JObj kvs) = JObj (sort_key fst (map (\<lambda>kv. (fst kv, sort_keys (snd kv))) kvs))"
| "sort_keys v = v"

definition json_dumps :: "json \<Rightarrow> string" where
  "json_dumps v = emit (sort_keys v)"

section \<open>Decoding bytes\<close>

definition continuation :: "nat \<Rightarrow> bool" where
  "continuation b \<longleftrightarrow> 128 \<le> b \<and> b < 192"

text \<open>UTF-8 with the error handler \<^verbatim>\<open>surrogatepass\<close>.\<close>

fun utf8_decode :: "nat list \<Rightarrow> nat list option" where
  "utf8_decode [] = Some []"
| "utf8_decode (b # bs) =
     (if b < 128 then map_option ((#) b) (utf8_decode bs)
      else if b < 194 then None
      else if b < 224 then
        (case bs of
           b1 # r \<Rightarrow> if continuation b1 then map_option ((#) ((b - 192) * 64 + (b1 - 128))) (utf8_decode r) else None
         | _ \<Rightarrow> None)
      else if b < 240 then
        (case bs of
           b1 # b2 # r \<Rightarrow>
             let n = (b - 224) * 4096 + (b1 - 128) * 64 + (b2 - 128) in
             if continuation b1 \<and> continuation b2 \<and> 2048 \<le> n then map_option ((#) n) (utf8_decode r) else None
         | _ \<Rightarrow> None)
      else
        (case bs of
           b1 # b2 # b3 # r \<Rightarrow>
             let n = (b - 240) * 262144 + (b1 - 128) * 4096 + (b2 - 128) * 64 + (b3 - 128) in
             if continuation b1 \<and> continuation b2 \<and> continuation b3 \<and> 65536 \<le> n \<and> n < 1114112
             then map_option ((#) n) (utf8_decode r) else None
         | _ \<Rightarrow> None))"

text \<open>Units of two and of four bytes; the flag says that the first byte is the highest.\<close>

fun units2 :: "bool \<Rightarrow> nat list \<Rightarrow> nat list option" where
  "units2 big [] = Some []"
| "units2 big (a # b # r) = map_option ((#) (if big then a * 256 + b else b * 256 + a)) (units2 big r)"
| "units2 big _ = None"

fun units4 :: "bool \<Rightarrow> nat list \<Rightarrow> nat list option" where
  "units4 big [] = Some []"
| "units4 big (a # b # c # d # r) =
     map_option ((#) (if big then ((a * 256 + b) * 256 + c) * 256 + d else ((d * 256 + c) * 256 + b) * 256 + a)) (units4 big r)"
| "units4 big _ = None"

definition high_surrogate :: "nat \<Rightarrow> bool" where
  "high_surrogate n \<longleftrightarrow> 0xD800 \<le> n \<and> n < 0xDC00"

definition low_surrogate :: "nat \<Rightarrow> bool" where
  "low_surrogate n \<longleftrightarrow> 0xDC00 \<le> n \<and> n < 0xE000"

definition join_surrogates :: "nat \<Rightarrow> nat \<Rightarrow> nat" where
  "join_surrogates hi lo = 0x10000 + (hi - 0xD800) * 1024 + (lo - 0xDC00)"

fun pair_surrogates :: "nat list \<Rightarrow> nat list" where
  "pair_surrogates (a # b # r) =
     (if high_surrogate a \<and> low_surrogate b then join_surrogates a b # pair_surrogates r else a # pair_surrogates (b # r))"
| "pair_surrogates us = us"

definition utf16_decode :: "bool \<Rightarrow> nat list \<Rightarrow> nat list option" where
  "utf16_decode big bs = map_option pair_surrogates (units2 big bs)"

definition utf32_decode :: "bool \<Rightarrow> nat list \<Rightarrow> nat list option" where
  "utf32_decode big bs =
     (case units4 big bs of None \<Rightarrow> None | Some us \<Rightarrow> if list_all (\<lambda>n. n < 1114112) us then Some us else None)"

text \<open>\<^verbatim>\<open>b.decode(json.detect_encoding(b), "surrogatepass")\<close>\<close>

definition json_text :: "nat list \<Rightarrow> nat list option" where
  "json_text bs =
     (if take 4 bs = [0, 0, 254, 255] then utf32_decode True (drop 4 bs)
      else if take 4 bs = [255, 254, 0, 0] then utf32_decode False (drop 4 bs)
      else if take 2 bs = [254, 255] then utf16_decode True (drop 2 bs)
      else if take 2 bs = [255, 254] then utf16_decode False (drop 2 bs)
      else if take 3 bs = [239, 187, 191] then utf8_decode (drop 3 bs)
      else if 4 \<le> length bs \<and> bs ! 0 = 0 then (if bs ! 1 \<noteq> 0 then utf16_decode True bs else utf32_decode True bs)
      else if 4 \<le> length bs \<and> bs ! 1 = 0 then (if bs ! 2 \<noteq> 0 \<or> bs ! 3 \<noteq> 0 then utf16_decode False bs else utf32_decode False bs)
      else if length bs = 2 \<and> bs ! 0 = 0 then utf16_decode True bs
      else if length bs = 2 \<and> bs ! 1 = 0 then utf16_decode False bs
      else utf8_decode bs)"

section \<open>Reading\<close>

datatype json_value =
    JV_Null
  | JV_Bool bool
  | JV_Int int
  | JV_Float "nat list"
  | JV_Str "nat list"
  | JV_List "json_value list"
  | JV_Obj "(nat list \<times> json_value) list"

definition is_json_space :: "nat \<Rightarrow> bool" where
  "is_json_space n \<longleftrightarrow> n = 32 \<or> n = 9 \<or> n = 10 \<or> n = 13"

definition skip_space :: "nat list \<Rightarrow> nat list" where
  "skip_space cs = dropWhile is_json_space cs"

definition is_digit :: "nat \<Rightarrow> bool" where
  "is_digit n \<longleftrightarrow> 48 \<le> n \<and> n \<le> 57"

definition hex_digit :: "nat \<Rightarrow> nat option" where
  "hex_digit n =
     (if is_digit n then Some (n - 48) else if 97 \<le> n \<and> n \<le> 102 then Some (n - 87)
      else if 65 \<le> n \<and> n \<le> 70 then Some (n - 55) else None)"

fun hex4 :: "nat list \<Rightarrow> (nat \<times> nat list) option" where
  "hex4 (a # b # c # d # r) =
     (case (hex_digit a, hex_digit b, hex_digit c, hex_digit d) of
        (Some a, Some b, Some c, Some d) \<Rightarrow> Some (((a * 16 + b) * 16 + c) * 16 + d, r)
      | _ \<Rightarrow> None)"
| "hex4 _ = None"

definition simple_escape :: "nat \<Rightarrow> nat option" where
  "simple_escape n =
     (if n = 34 \<or> n = 92 \<or> n = 47 then Some n
      else if n = 98 then Some 8 else if n = 102 then Some 12 else if n = 110 then Some 10
      else if n = 114 then Some 13 else if n = 116 then Some 9 else None)"

text \<open>The code point of \<^verbatim>\<open>\uXXXX\<close>, joined with a low surrogate that follows as another escape.\<close>

definition unicode_escape :: "nat list \<Rightarrow> (nat \<times> nat list) option" where
  "unicode_escape cs =
     (case hex4 cs of
        None \<Rightarrow> None
      | Some (n, r) \<Rightarrow>
          if high_surrogate n \<and> take 2 r = [92, 117] then
            (case hex4 (drop 2 r) of
               Some (m, r') \<Rightarrow> if low_surrogate m then Some (join_surrogates n m, r') else Some (n, r)
             | None \<Rightarrow> None)
          else Some (n, r))"

text \<open>A string after its opening quote. The number bounds the characters and escapes still to be read.\<close>

fun parse_string :: "nat \<Rightarrow> nat list \<Rightarrow> (nat list \<times> nat list) option" where
  "parse_string (Suc k) (c # cs) =
     (if c = 34 then Some ([], cs)
      else if c < 32 then None
      else if c = 92 then
        (case cs of
           [] \<Rightarrow> None
         | e # r \<Rightarrow>
             if e = 117 then
               (case unicode_escape r of
                  None \<Rightarrow> None
                | Some (n, r') \<Rightarrow> map_option (apfst ((#) n)) (parse_string k r'))
             else (case simple_escape e of
                     None \<Rightarrow> None
                   | Some n \<Rightarrow> map_option (apfst ((#) n)) (parse_string k r)))
      else map_option (apfst ((#) c)) (parse_string k cs))"
| "parse_string _ _ = None"

definition text_value :: "nat list \<Rightarrow> nat" where
  "text_value ds = foldl (\<lambda>a d. 10 * a + (d - 48)) 0 ds"

definition fraction_of :: "nat list \<Rightarrow> nat list" where
  "fraction_of cs =
     (case cs of
        c # d # r \<Rightarrow> if c = 46 \<and> is_digit d then c # takeWhile is_digit (d # r) else []
      | _ \<Rightarrow> [])"

definition exponent_of :: "nat list \<Rightarrow> nat list" where
  "exponent_of cs =
     (case cs of
        e # r \<Rightarrow>
          let sign = (case r of s # _ \<Rightarrow> if s = 43 \<or> s = 45 then [s] else [] | [] \<Rightarrow> []);
              digits = takeWhile is_digit (drop (length sign) r) in
          if (e = 101 \<or> e = 69) \<and> digits \<noteq> [] then e # sign @ digits else []
      | [] \<Rightarrow> [])"

definition integer_of :: "nat list \<Rightarrow> nat list" where
  "integer_of cs =
     (case cs of
        c # r \<Rightarrow> if c = 48 then [c] else if is_digit c then c # takeWhile is_digit r else []
      | [] \<Rightarrow> [])"

text \<open>A number, without sign and with its sign.\<close>

definition parse_unsigned :: "nat list \<Rightarrow> nat list \<Rightarrow> int \<Rightarrow> (json_value \<times> nat list) option" where
  "parse_unsigned sign cs factor =
     (let ds = integer_of cs; r = drop (length ds) cs;
          f = fraction_of r; e = exponent_of (drop (length f) r) in
        if ds = [] then None
        else if f = [] \<and> e = [] then Some (JV_Int (factor * int (text_value ds)), r)
        else Some (JV_Float (sign @ ds @ f @ e), drop (length f + length e) r))"

definition parse_number :: "nat list \<Rightarrow> (json_value \<times> nat list) option" where
  "parse_number cs =
     (case cs of
        c # r \<Rightarrow> if c = 45 then parse_unsigned [c] r (- 1) else parse_unsigned [] cs 1
      | [] \<Rightarrow> None)"

definition literals :: "(nat list \<times> json_value) list" where
  "literals =
     [(map code ''null'', JV_Null), (map code ''true'', JV_Bool True), (map code ''false'', JV_Bool False),
      (map code ''NaN'', JV_Float (map code ''NaN'')), (map code ''Infinity'', JV_Float (map code ''Infinity'')),
      (map code ''-Infinity'', JV_Float (map code ''-Infinity''))]"

definition parse_literal :: "nat list \<Rightarrow> (json_value \<times> nat list) option" where
  "parse_literal cs =
     (case find (\<lambda>(w, v). take (length w) cs = w) literals of
        None \<Rightarrow> None
      | Some (w, v) \<Rightarrow> Some (v, drop (length w) cs))"

definition expect :: "nat \<Rightarrow> nat list \<Rightarrow> nat list option" where
  "expect n cs = (case cs of c # r \<Rightarrow> if c = n then Some r else None | [] \<Rightarrow> None)"

text \<open>
  A value, the members of an object after its brace or a comma, and the elements of a list. The number bounds the
  depth of the calls; every call but that of an element consumes a character.
\<close>

fun parse_value :: "nat \<Rightarrow> nat list \<Rightarrow> (json_value \<times> nat list) option"
and parse_members :: "nat \<Rightarrow> nat list \<Rightarrow> ((nat list \<times> json_value) list \<times> nat list) option"
and parse_elements :: "nat \<Rightarrow> nat list \<Rightarrow> (json_value list \<times> nat list) option" where
  "parse_value 0 cs = None"
| "parse_value (Suc k) cs =
     (case cs of
        [] \<Rightarrow> None
      | c # r \<Rightarrow>
          if c = 34 then map_option (apfst JV_Str) (parse_string (length cs) r)
          else if c = 123 then
            (case expect 125 (skip_space r) of
               Some r' \<Rightarrow> Some (JV_Obj [], r')
             | None \<Rightarrow> map_option (apfst JV_Obj) (parse_members k (skip_space r)))
          else if c = 91 then
            (case expect 93 (skip_space r) of
               Some r' \<Rightarrow> Some (JV_List [], r')
             | None \<Rightarrow> map_option (apfst JV_List) (parse_elements k (skip_space r)))
          else (case parse_literal cs of Some x \<Rightarrow> Some x | None \<Rightarrow> parse_number cs))"
| "parse_members 0 cs = None"
| "parse_members (Suc k) cs =
     (case expect 34 cs of
        None \<Rightarrow> None
      | Some r \<Rightarrow>
         (case parse_string (length cs) r of
            None \<Rightarrow> None
          | Some (key, r) \<Rightarrow>
             (case expect 58 (skip_space r) of
                None \<Rightarrow> None
              | Some r \<Rightarrow>
                 (case parse_value k (skip_space r) of
                    None \<Rightarrow> None
                  | Some (v, r) \<Rightarrow>
                     (case expect 125 (skip_space r) of
                        Some r \<Rightarrow> Some ([(key, v)], r)
                      | None \<Rightarrow>
                         (case expect 44 (skip_space r) of
                            None \<Rightarrow> None
                          | Some r \<Rightarrow> map_option (apfst ((#) (key, v))) (parse_members k (skip_space r))))))))"
| "parse_elements 0 cs = None"
| "parse_elements (Suc k) cs =
     (case parse_value k cs of
        None \<Rightarrow> None
      | Some (v, r) \<Rightarrow>
         (case expect 93 (skip_space r) of
            Some r \<Rightarrow> Some ([v], r)
          | None \<Rightarrow>
             (case expect 44 (skip_space r) of
                None \<Rightarrow> None
              | Some r \<Rightarrow> map_option (apfst ((#) v)) (parse_elements k (skip_space r)))))"

definition json_loads :: "nat list \<Rightarrow> json_value option" where
  "json_loads bs =
     (case json_text bs of
        None \<Rightarrow> None
      | Some cs \<Rightarrow>
         (case parse_value (2 * length cs + 1) (skip_space cs) of
            Some (v, r) \<Rightarrow> if skip_space r = [] then Some v else None
          | None \<Rightarrow> None))"

text \<open>\<^verbatim>\<open>decoded.get(key)\<close>; the last of several members with the same key counts.\<close>

definition member_of :: "string \<Rightarrow> (nat list \<times> json_value) list \<Rightarrow> json_value option" where
  "member_of key kvs = map_of (rev kvs) (map code key)"

end
