(* ===== verification/Base64.thy ===== *)
theory Base64
  imports Identifiers
begin

text \<open>
  What the sources use of the \<^verbatim>\<open>base64\<close> module: \<^verbatim>\<open>urlsafe_b64encode\<close>, and \<^verbatim>\<open>urlsafe_b64decode\<close>, which skips
  characters that are not of the alphabet and stops at sufficient padding.
\<close>

section \<open>The alphabet\<close>

definition b64_char :: "nat \<Rightarrow> char" where
  "b64_char d =
     char_of (if d < 26 then 65 + d else if d < 52 then 71 + d else if d < 62 then d - 4 else if d = 62 then 45 else 95)"

text \<open>Both alphabets are read: \<^verbatim>\<open>-\<close> and \<^verbatim>\<open>_\<close> are translated to \<^verbatim>\<open>+\<close> and \<^verbatim>\<open>/\<close> first.\<close>

definition b64_value :: "char \<Rightarrow> nat option" where
  "b64_value c =
     (let n = code c in
        if 65 \<le> n \<and> n \<le> 90 then Some (n - 65)
        else if 97 \<le> n \<and> n \<le> 122 then Some (n - 71)
        else if 48 \<le> n \<and> n \<le> 57 then Some (n + 4)
        else if n = 43 \<or> n = 45 then Some 62
        else if n = 47 \<or> n = 95 then Some 63 else None)"

section \<open>Encoding\<close>

fun urlsafe_b64encode :: "nat list \<Rightarrow> string" where
  "urlsafe_b64encode [] = []"
| "urlsafe_b64encode [a] = [b64_char (a div 4), b64_char (a mod 4 * 16), CHR ''='', CHR ''='']"
| "urlsafe_b64encode [a, b] =
     [b64_char (a div 4), b64_char (a mod 4 * 16 + b div 16), b64_char (b mod 16 * 4), CHR ''='']"
| "urlsafe_b64encode (a # b # c # bs) =
     b64_char (a div 4) # b64_char (a mod 4 * 16 + b div 16) # b64_char (b mod 16 * 4 + c div 64) # b64_char (c mod 64)
       # urlsafe_b64encode bs"

section \<open>Decoding\<close>

text \<open>
  The loop of \<^verbatim>\<open>binascii.a2b_base64\<close>: the position in the group of four, the bits left over and the padding seen
  since the last character of the alphabet.
\<close>

fun a2b_base64 :: "nat \<Rightarrow> nat \<Rightarrow> nat \<Rightarrow> string \<Rightarrow> nat list option" where
  "a2b_base64 pos left pads [] = (if pos = 0 then Some [] else None)"
| "a2b_base64 pos left pads (c # cs) =
     (if c = CHR ''='' then
        (if 2 \<le> pos \<and> 4 \<le> pos + (pads + 1) then Some []
         else a2b_base64 pos left (if 2 \<le> pos then pads + 1 else pads) cs)
      else
        (case b64_value c of
           None \<Rightarrow> a2b_base64 pos left pads cs
         | Some d \<Rightarrow>
             if pos = 0 then a2b_base64 1 d 0 cs
             else if pos = 1 then map_option ((#) (left * 4 + d div 16)) (a2b_base64 2 (d mod 16) 0 cs)
             else if pos = 2 then map_option ((#) (left * 16 + d div 4)) (a2b_base64 3 (d mod 4) 0 cs)
             else map_option ((#) (left * 64 + d)) (a2b_base64 0 0 0 cs)))"

definition urlsafe_b64decode :: "string \<Rightarrow> nat list option" where
  "urlsafe_b64decode s = (if list_all (\<lambda>c. code c < 128) s then a2b_base64 0 0 0 s else None)"

text \<open>\<^verbatim>\<open>encoded + "=" * (-len(encoded) % 4)\<close>\<close>

definition b64_pad :: "string \<Rightarrow> string" where
  "b64_pad s = s @ replicate (nat (- int (length s) mod 4)) CHR ''=''"

section \<open>Round trip\<close>

lemma b64_char_code:
  "d < 64 \<Longrightarrow> code (b64_char d) =
     (if d < 26 then 65 + d else if d < 52 then 71 + d else if d < 62 then d - 4 else if d = 62 then 45 else 95)"
  by (simp add: b64_char_def code_def)

lemma b64_char_props:
  assumes "d < 64"
  shows "b64_value (b64_char d) = Some d" "b64_char d \<noteq> CHR ''=''" "b64_char d \<noteq> CHR ''.''" "code (b64_char d) < 128"
proof -
  show "b64_value (b64_char d) = Some d" using assms by (auto simp: b64_value_def b64_char_code Let_def)
  have "code CHR ''='' = 61" "code CHR ''.'' = 46" by (simp_all add: code_def)
  then have "code (b64_char d) \<noteq> code CHR ''=''" "code (b64_char d) \<noteq> code CHR ''.''" "code (b64_char d) < 128"
    using assms by (auto simp: b64_char_code)
  then show "b64_char d \<noteq> CHR ''=''" "b64_char d \<noteq> CHR ''.''" "code (b64_char d) < 128" by auto
qed

definition octets :: "nat list \<Rightarrow> bool" where
  "octets bs \<longleftrightarrow> list_all (\<lambda>b. b < 256) bs"

lemma octet_digits:
  fixes a b c :: nat
  assumes "a < 256" "b < 256" "c < 256"
  shows "a div 4 < 64" "a mod 4 * 16 < 64" "a mod 4 * 16 + b div 16 < 64" "b mod 16 * 4 < 64"
    "b mod 16 * 4 + c div 64 < 64" "c mod 64 < 64"
proof -
  have "a div 4 \<le> 63" "b div 16 \<le> 15" "c div 64 \<le> 3" "a mod 4 \<le> 3" "b mod 16 \<le> 15" "c mod 64 \<le> 63" using assms by linarith+
  then show "a div 4 < 64" "a mod 4 * 16 < 64" "a mod 4 * 16 + b div 16 < 64" "b mod 16 * 4 < 64"
    "b mod 16 * 4 + c div 64 < 64" "c mod 64 < 64" by linarith+
qed

lemma octet_join:
  fixes a b c :: nat
  assumes "b < 256" "c < 256"
  shows "a div 4 * 4 + (a mod 4 * 16 + b div 16) div 16 = a"
    "(a mod 4 * 16 + b div 16) mod 16 * 16 + (b mod 16 * 4 + c div 64) div 4 = b"
    "(b mod 16 * 4 + c div 64) mod 4 * 64 + c mod 64 = c"
proof -
  have "b div 16 < 16" "c div 64 < 4" using assms by linarith+
  then have "(a mod 4 * 16 + b div 16) div 16 = a mod 4" "(a mod 4 * 16 + b div 16) mod 16 = b div 16"
    "(b mod 16 * 4 + c div 64) div 4 = b mod 16" "(b mod 16 * 4 + c div 64) mod 4 = c div 64" by simp_all
  then show "a div 4 * 4 + (a mod 4 * 16 + b div 16) div 16 = a"
    "(a mod 4 * 16 + b div 16) mod 16 * 16 + (b mod 16 * 4 + c div 64) div 4 = b"
    "(b mod 16 * 4 + c div 64) mod 4 * 64 + c mod 64 = c"
    by (simp_all only: div_mult_mod_eq)
qed

text \<open>The characters of the encoding, without the padding.\<close>

fun b64_body :: "nat list \<Rightarrow> string" where
  "b64_body [] = []"
| "b64_body [a] = [b64_char (a div 4), b64_char (a mod 4 * 16)]"
| "b64_body [a, b] = [b64_char (a div 4), b64_char (a mod 4 * 16 + b div 16), b64_char (b mod 16 * 4)]"
| "b64_body (a # b # c # bs) =
     b64_char (a div 4) # b64_char (a mod 4 * 16 + b div 16) # b64_char (b mod 16 * 4 + c div 64) # b64_char (c mod 64)
       # b64_body bs"

lemma b64_body_chars: "octets bs \<Longrightarrow> c \<in> set (b64_body bs) \<Longrightarrow> \<exists>d < 64. c = b64_char d"
proof (induction bs rule: b64_body.induct)
  case (2 a)
  then have "a < 256" by (simp add: octets_def)
  then have "a div 4 < 64" "a mod 4 * 16 < 64" by (rule octet_digits [of a 0 0], simp, simp)+
  with 2(2) show ?case unfolding b64_body.simps list.set by blast
next
  case (3 a b)
  then have "a < 256" "b < 256" by (simp_all add: octets_def)
  then have "a div 4 < 64" "a mod 4 * 16 + b div 16 < 64" "b mod 16 * 4 < 64" by (rule octet_digits [of a b 0], simp)+
  with 3(2) show ?case unfolding b64_body.simps list.set by blast
next
  case (4 a b c' bs)
  then have "a < 256" "b < 256" "c' < 256" "octets bs" by (simp_all add: octets_def)
  then have "a div 4 < 64" "a mod 4 * 16 + b div 16 < 64" "b mod 16 * 4 + c' div 64 < 64" "c' mod 64 < 64"
    using octet_digits [of a b c'] by blast+
  with 4(1) [OF \<open>octets bs\<close>] 4(3) show ?case unfolding b64_body.simps list.set by blast
qed simp

lemma encode_body: "\<exists>k. urlsafe_b64encode bs = b64_body bs @ replicate k CHR ''=''"
proof (induction bs rule: b64_body.induct)
  case (2 a)
  have "urlsafe_b64encode [a] = b64_body [a] @ replicate 2 CHR ''=''" by (simp add: numeral_2_eq_2)
  then show ?case by (rule exI)
next
  case (3 a b)
  have "urlsafe_b64encode [a, b] = b64_body [a, b] @ replicate 1 CHR ''=''" by simp
  then show ?case by (rule exI)
qed simp_all

lemma rstrip_encode:
  assumes "octets bs"
  shows "rstrip_char CHR ''='' (urlsafe_b64encode bs) = b64_body bs"
proof -
  have pad: "CHR ''='' \<notin> set (b64_body bs)" 
  proof
    assume "CHR ''='' \<in> set (b64_body bs)"
    from b64_body_chars [OF assms this] obtain d where "d < 64" "CHR ''='' = b64_char d" by (elim exE conjE)
    with b64_char_props(2) [of d] show False by simp
  qed
  obtain k where "urlsafe_b64encode bs = b64_body bs @ replicate k CHR ''=''" using encode_body by blast
  moreover have "dropWhile (\<lambda>x. x = CHR ''='') (rev (b64_body bs)) = rev (b64_body bs)"
    unfolding dropWhile_eq_self_iff hd_rev using pad last_in_set [of "b64_body bs"] by fastforce
  moreover have "dropWhile (\<lambda>x. x = CHR ''='') (replicate k CHR ''='' @ ys) = dropWhile (\<lambda>x. x = CHR ''='') ys" for ys
    by (induction k) simp_all
  ultimately show ?thesis by (simp add: rstrip_char_def)
qed

fun b64_missing :: "nat list \<Rightarrow> nat" where
  "b64_missing [a] = 2"
| "b64_missing [a, b] = 1"
| "b64_missing (a # b # c # bs) = b64_missing bs"
| "b64_missing [] = 0"

lemma pad_body: "nat (- int (length (b64_body bs)) mod 4) = b64_missing bs"
proof (induction bs rule: b64_body.induct)
  case (4 a b c bs)
  have "- (x + 4) mod 4 = - x mod (4 :: int)" for x by presburger
  from this [of "int (length (b64_body bs))"] 4 show ?case by (simp add: algebra_simps)
qed simp_all

lemma a2b_char:
  assumes "d < 64"
  shows "a2b_base64 0 left pads (b64_char d # cs) = a2b_base64 (Suc 0) d 0 cs"
    "a2b_base64 (Suc 0) left pads (b64_char d # cs) = map_option ((#) (left * 4 + d div 16)) (a2b_base64 2 (d mod 16) 0 cs)"
    "a2b_base64 2 left pads (b64_char d # cs) = map_option ((#) (left * 16 + d div 4)) (a2b_base64 3 (d mod 4) 0 cs)"
    "a2b_base64 3 left pads (b64_char d # cs) = map_option ((#) (left * 64 + d)) (a2b_base64 0 0 0 cs)"
  using b64_char_props [OF assms] by simp_all

lemma a2b_pad: "a2b_base64 2 left 0 (CHR ''='' # CHR ''='' # cs) = Some []" "a2b_base64 3 left 0 (CHR ''='' # cs) = Some []"
  by simp_all

lemma decode_body:
  "octets bs \<Longrightarrow> a2b_base64 0 left pads (b64_body bs @ replicate (b64_missing bs) CHR ''='') = Some bs"
proof (induction bs arbitrary: left pads rule: b64_body.induct)
  case (2 a)
  then have "a < 256" by (simp add: octets_def)
  then have "a div 4 < 64" "a mod 4 * 16 < 64" by (rule octet_digits [of a 0 0], simp, simp)+
  note steps = a2b_char(1) [OF this(1)] a2b_char(2) [OF this(2)]
  have "a div 4 * 4 + (a mod 4 * 16) div 16 = a" using div_mult_mod_eq [of a 4] by simp
  moreover have "replicate 2 x = [x, x]" for x :: char by (simp add: numeral_2_eq_2)
  ultimately show ?case by (simp only: b64_body.simps b64_missing.simps append.simps steps a2b_pad option.map)
next
  case (3 a b)
  then have ab: "a < 256" "b < 256" by (simp_all add: octets_def)
  then have "a div 4 < 64" "a mod 4 * 16 + b div 16 < 64" "b mod 16 * 4 < 64" by (rule octet_digits [of a b 0], simp)+
  note steps = a2b_char(1) [OF this(1)] a2b_char(2) [OF this(2)] a2b_char(3) [OF this(3)]
  have "a div 4 * 4 + (a mod 4 * 16 + b div 16) div 16 = a" "(a mod 4 * 16 + b div 16) mod 16 * 16 + (b mod 16 * 4) div 4 = b"
    using octet_join [of b 0] ab by simp_all
  then show ?case by (simp only: b64_body.simps b64_missing.simps append.simps steps replicate.simps One_nat_def a2b_pad option.map)
next
  case (4 a b c bs)
  then have abc: "a < 256" "b < 256" "c < 256" "octets bs" by (simp_all add: octets_def)
  then have "a div 4 < 64" "a mod 4 * 16 + b div 16 < 64" "b mod 16 * 4 + c div 64 < 64" "c mod 64 < 64"
    using octet_digits [of a b c] by blast+
  note steps = a2b_char(1) [OF this(1)] a2b_char(2) [OF this(2)] a2b_char(3) [OF this(3)] a2b_char(4) [OF this(4)]
  show ?case
    by (simp only: b64_body.simps b64_missing.simps append.simps steps octet_join [OF abc(2,3)] 4(1) [OF abc(4)] option.map)
qed simp

lemma decode_encode:
  assumes "octets bs"
  shows "urlsafe_b64decode (b64_pad (rstrip_char CHR ''='' (urlsafe_b64encode bs))) = Some bs"
proof -
  have "list_all (\<lambda>c. code c < 128) (b64_body bs)"
    using b64_body_chars [OF assms] b64_char_props(4) by (fastforce simp: list_all_iff)
  moreover have "list_all (\<lambda>c. code c < 128) (replicate k CHR ''='')" for k by (simp add: list_all_iff code_def)
  ultimately show ?thesis
    using decode_body [OF assms] by (simp add: rstrip_encode [OF assms] urlsafe_b64decode_def b64_pad_def pad_body)
qed

end
