(* ===== verification/Confirmation_Tokens.thy ===== *)
theory Confirmation_Tokens
  imports Json Base64 Node_Control
begin

text \<open>
  \<^verbatim>\<open>ConfirmationTokenService\<close> of \<^verbatim>\<open>reconcile.py\<close>: tokens that let an operator confirm exactly the disruption that
  was previewed. A token is the claim as JSON in base64, a dot and its HMAC. The HMAC is a function of the
  secret and the bytes, the wall clock the integer \<^verbatim>\<open>now\<close> that \<^verbatim>\<open>int(self._wall_time())\<close> gives.
\<close>

section \<open>Data\<close>

datatype camera_mutation_operation = CMO_UPDATE_SOURCE | CMO_DISABLE | CMO_DELETE

fun camera_mutation_operation_value :: "camera_mutation_operation \<Rightarrow> string" where
  "camera_mutation_operation_value CMO_UPDATE_SOURCE = ''update_source''"
| "camera_mutation_operation_value CMO_DISABLE = ''disable''"
| "camera_mutation_operation_value CMO_DELETE = ''delete''"

record move_claim =
  mk_camera_id :: uuid
  mk_source_node_id :: uuid
  mk_target_node_id :: uuid
  mk_desired_revision :: int
  mk_disconnect_readers :: int

record mutation_claim =
  uk_camera_id :: uuid
  uk_operation :: camera_mutation_operation
  uk_desired_revision :: int
  uk_disconnect_readers :: int
  uk_mutation_sha256 :: string

record token_service =
  ts_secret :: "nat list"
  ts_lifetime_seconds :: int
  ts_hmac :: "nat list \<Rightarrow> nat list \<Rightarrow> string"

definition token_service_init :: "token_service \<Rightarrow> py_error option" where
  "token_service_init svc =
     (if length (ts_secret svc) < 32 then Some (ValueError ''confirmation_secret_too_short'')
      else if ts_lifetime_seconds svc < 1 \<or> ts_lifetime_seconds svc > 300
      then Some (ValueError ''confirmation_lifetime_invalid'') else None)"

definition valid_confirmation_digest :: "string \<Rightarrow> bool" where
  "valid_confirmation_digest value \<longleftrightarrow> length value = 64 \<and> all_lower_hex value"

section \<open>Payloads\<close>

definition confirmation_context_payload :: "node_disruption_confirmation_context option \<Rightarrow> json" where
  "confirmation_context_payload context =
     (case context of
        None \<Rightarrow> JNull
      | Some c \<Rightarrow> JObj
          [(''account_id'', JStr (uuid_str (cc_account_id c))),
           (''session_id'', JStr (uuid_str (cc_session_id c))),
           (''authz_version'', JInt (cc_authz_version c)),
           (''mfa_verified_at_unix_ms'', JInt (cc_mfa_verified_at_unix_ms c))])"

definition node_port_payload :: "port_change_claim \<Rightarrow> int \<Rightarrow> nat list" where
  "node_port_payload k expires_at = utf8_encode (json_dumps (JObj
     [(''blast_radius_sha256'', JStr (pk_blast_radius_sha256 k)),
      (''reader_blast_radius_sha256'', JStr (pk_reader_blast_radius_sha256 k)),
      (''active_readers'', JInt (pk_active_readers k)),
      (''confirmation_context'', confirmation_context_payload (pk_confirmation_context k)),
      (''desired_revision'', JInt (pk_desired_revision k)),
      (''expires_at'', JInt expires_at),
      (''new_port'', JInt (pk_new_port k)),
      (''node_id'', JStr (uuid_str (pk_node_id k))),
      (''old_port'', JInt (pk_old_port k)),
      (''operation'', JStr ''node_port_change''),
      (''registered_cameras'', JInt (pk_registered_cameras k))]))"

definition node_reconfigure_payload :: "reconfigure_claim \<Rightarrow> int \<Rightarrow> nat list" where
  "node_reconfigure_payload k expires_at = utf8_encode (json_dumps (JObj
     [(''blast_radius_sha256'', JStr (rk_blast_radius_sha256 k)),
      (''reader_blast_radius_sha256'', JStr (rk_reader_blast_radius_sha256 k)),
      (''active_readers'', JInt (rk_active_readers k)),
      (''confirmation_context'', confirmation_context_payload (rk_confirmation_context k)),
      (''desired_revision'', JInt (rk_desired_revision k)),
      (''expires_at'', JInt expires_at),
      (''external_port'', JInt (rk_external_port k)),
      (''node_id'', JStr (uuid_str (rk_node_id k))),
      (''operation'', JStr ''node_reconfigure''),
      (''registered_cameras'', JInt (rk_registered_cameras k)),
      (''target_release_id'', JStr (rk_target_release_id k)),
      (''target_mediamtx_binary_sha256'', JStr (rk_target_mediamtx_binary_sha256 k))]))"

definition camera_mutation_payload :: "mutation_claim \<Rightarrow> int \<Rightarrow> py_error + nat list" where
  "camera_mutation_payload k expires_at =
     (if length (uk_mutation_sha256 k) \<noteq> 64 then Inl (ValueError ''camera_mutation_digest_invalid'')
      else Inr (utf8_encode (json_dumps (JObj
        [(''camera_id'', JStr (uuid_str (uk_camera_id k))),
         (''desired_revision'', JInt (uk_desired_revision k)),
         (''disconnect_readers'', JInt (uk_disconnect_readers k)),
         (''expires_at'', JInt expires_at),
         (''mutation_sha256'', JStr (uk_mutation_sha256 k)),
         (''operation'', JStr (camera_mutation_operation_value (uk_operation k)))]))))"

definition move_payload :: "move_claim \<Rightarrow> int \<Rightarrow> nat list" where
  "move_payload k expires_at = utf8_encode (json_dumps (JObj
     [(''camera_id'', JStr (uuid_str (mk_camera_id k))),
      (''desired_revision'', JInt (mk_desired_revision k)),
      (''disconnect_readers'', JInt (mk_disconnect_readers k)),
      (''expires_at'', JInt expires_at),
      (''operation'', JStr ''camera_move_force''),
      (''source_node_id'', JStr (uuid_str (mk_source_node_id k))),
      (''target_node_id'', JStr (uuid_str (mk_target_node_id k)))]))"

section \<open>Signing and decoding\<close>

definition sign_payload :: "token_service \<Rightarrow> nat list \<Rightarrow> string" where
  "sign_payload svc payload =
     rstrip_char CHR ''='' (urlsafe_b64encode payload) @ CHR ''.'' # ts_hmac svc (ts_secret svc) payload"

definition decode_token :: "string \<Rightarrow> (nat list \<times> string \<times> (nat list \<times> json_value) list) option" where
  "decode_token token =
     (if length token > 4096 then None
      else case partition_char CHR ''.'' token of
        (encoded, found, signature) \<Rightarrow>
          if \<not> found then None
          else (case urlsafe_b64decode (b64_pad encoded) of
                  None \<Rightarrow> None
                | Some payload \<Rightarrow>
                   (case json_loads payload of
                      Some (JV_Obj decoded) \<Rightarrow> Some (payload, signature, decoded)
                    | _ \<Rightarrow> None)))"

text \<open>\<^verbatim>\<open>isinstance(expires_at, int) and not isinstance(expires_at, bool)\<close>\<close>

definition expiry_of :: "(nat list \<times> json_value) list \<Rightarrow> int option" where
  "expiry_of decoded = (case member_of ''expires_at'' decoded of Some (JV_Int n) \<Rightarrow> Some n | _ \<Rightarrow> None)"

text \<open>\<^verbatim>\<open>hmac.compare_digest\<close> of two \<^verbatim>\<open>str\<close> values refuses text that is not ASCII.\<close>

definition compare_digest :: "string \<Rightarrow> string \<Rightarrow> py_error + bool" where
  "compare_digest a b =
     (if list_all (\<lambda>c. code c < 128) a \<and> list_all (\<lambda>c. code c < 128) b then Inr (a = b)
      else Inl (TypeError ''comparing strings with non-ASCII characters is not supported''))"

text \<open>What the four verifications have in common: the expected payload at the expiry the token names.\<close>

definition verify_payload :: "token_service \<Rightarrow> int \<Rightarrow> string \<Rightarrow> (int \<Rightarrow> py_error + nat list) \<Rightarrow> py_error + bool" where
  "verify_payload svc now token expected_at =
     (case decode_token token of
        None \<Rightarrow> Inr False
      | Some (payload, signature, decoded) \<Rightarrow>
         (case expiry_of decoded of
            None \<Rightarrow> Inr False
          | Some expires_at \<Rightarrow>
              if expires_at < now then Inr False
              else (case expected_at expires_at of
                      Inl e \<Rightarrow> Inl e
                    | Inr expected \<Rightarrow>
                        if payload \<noteq> expected then Inr False
                        else compare_digest signature (ts_hmac svc (ts_secret svc) expected))))"

section \<open>Operations\<close>

definition issue_move :: "token_service \<Rightarrow> int \<Rightarrow> move_claim \<Rightarrow> string" where
  "issue_move svc now k = sign_payload svc (move_payload k (now + ts_lifetime_seconds svc))"

definition verify_move :: "token_service \<Rightarrow> int \<Rightarrow> string \<Rightarrow> move_claim \<Rightarrow> py_error + bool" where
  "verify_move svc now token k = verify_payload svc now token (\<lambda>expires_at. Inr (move_payload k expires_at))"

definition issue_node_port_change :: "token_service \<Rightarrow> int \<Rightarrow> port_change_claim \<Rightarrow> string" where
  "issue_node_port_change svc now k = sign_payload svc (node_port_payload k (now + ts_lifetime_seconds svc))"

definition verify_node_port_change :: "token_service \<Rightarrow> int \<Rightarrow> string \<Rightarrow> port_change_claim \<Rightarrow> py_error + bool" where
  "verify_node_port_change svc now token k =
     (if \<not> valid_confirmation_digest (pk_blast_radius_sha256 k) \<or> \<not> valid_confirmation_digest (pk_reader_blast_radius_sha256 k)
      then Inr False
      else verify_payload svc now token (\<lambda>expires_at. Inr (node_port_payload k expires_at)))"

definition issue_node_reconfigure :: "token_service \<Rightarrow> int \<Rightarrow> reconfigure_claim \<Rightarrow> string" where
  "issue_node_reconfigure svc now k = sign_payload svc (node_reconfigure_payload k (now + ts_lifetime_seconds svc))"

definition verify_node_reconfigure :: "token_service \<Rightarrow> int \<Rightarrow> string \<Rightarrow> reconfigure_claim \<Rightarrow> py_error + bool" where
  "verify_node_reconfigure svc now token k =
     (if \<not> valid_confirmation_digest (rk_blast_radius_sha256 k) \<or> \<not> valid_confirmation_digest (rk_reader_blast_radius_sha256 k)
      then Inr False
      else verify_payload svc now token (\<lambda>expires_at. Inr (node_reconfigure_payload k expires_at)))"

definition issue_camera_mutation :: "token_service \<Rightarrow> int \<Rightarrow> mutation_claim \<Rightarrow> py_error + string" where
  "issue_camera_mutation svc now k =
     map_sum id (sign_payload svc) (camera_mutation_payload k (now + ts_lifetime_seconds svc))"

definition verify_camera_mutation :: "token_service \<Rightarrow> int \<Rightarrow> string \<Rightarrow> mutation_claim \<Rightarrow> py_error + bool" where
  "verify_camera_mutation svc now token k = verify_payload svc now token (camera_mutation_payload k)"

end
