(* ===== verification/Camera_Mutation.thy ===== *)
theory Camera_Mutation
  imports Reconcile Confirmation_Tokens Camera_Control "HOL-Library.Product_Lexorder"
begin

text \<open>
  \<^verbatim>\<open>CameraRuntimeObserver\<close>, \<^verbatim>\<open>CameraMoveControl\<close> and \<^verbatim>\<open>CameraMutationControl\<close> of \<^verbatim>\<open>reconcile.py\<close>: the operator's side of
  moves and of changes that cut off the reader of a camera. The clients of the media nodes, the id factory and the
  refresher of nodes are collaborators, the confirmation service is the one of \<^verbatim>\<open>Confirmation_Tokens\<close>.
\<close>

section \<open>Observation\<close>

record camera_runtime_observation =
  co_camera_id :: uuid
  co_node_id :: uuid
  co_ready :: bool
  co_reader_count :: int
  co_occupied :: bool
  co_reader_limit_violated :: bool

text \<open>What the three classes are constructed with.\<close>

record 'x operator_control =
  oc_for_node :: "media_node \<Rightarrow> 'x \<Rightarrow> (py_error + 'x media_client) \<times> 'x"
  oc_confirmations :: token_service
  oc_wall_time :: "'x \<Rightarrow> int"
  oc_new_move_id :: "'x \<Rightarrow> uuid \<times> 'x"
  oc_move_timeout_seconds :: int
  oc_management_freshness_seconds :: int
  oc_node_refresher :: "(uuid \<Rightarrow> int \<Rightarrow> ('x, unit) action) option"
  oc_probe_endpoint_admission :: "'x endpoint_admission option"
  oc_env :: "'x \<Rightarrow> store_env"

definition move_control_init :: "'x operator_control \<Rightarrow> py_error option" where
  "move_control_init c =
     (if oc_move_timeout_seconds c < 1 \<or> oc_move_timeout_seconds c > 3600
      then Some (ValueError ''camera_move_timeout_invalid'')
      else if oc_management_freshness_seconds c < 1 \<or> oc_management_freshness_seconds c > 300
      then Some (ValueError ''management_freshness_seconds_invalid'') else None)"

definition camera_query :: "uuid \<Rightarrow> ('x, camera_placement) action" where
  "camera_query camera_id =
     and_then (query (\<lambda>x s. Inr (get_camera camera_id s))) (\<lambda>camera.
       case camera of None \<Rightarrow> fail (CameraNotFound ''camera_not_found'') | Some cam \<Rightarrow> ret cam)"

definition node_client :: "'x operator_control \<Rightarrow> uuid \<Rightarrow> ('x, 'x media_client) action" where
  "node_client c node_id =
     and_then (query (\<lambda>x s. Inr (get_node node_id s))) (\<lambda>node.
       case node of
         None \<Rightarrow> fail (ReconcileRetry ''camera_runtime_node_missing'')
       | Some n \<Rightarrow> external (oc_for_node c n))"

text \<open>\<^verbatim>\<open>_status\<close>, also the middle of \<^verbatim>\<open>observe\<close>.\<close>

definition camera_status :: "'x operator_control \<Rightarrow> camera_placement \<Rightarrow> ('x, (bool \<times> int) option) action" where
  "camera_status c camera =
     and_then (node_client c (cp_node_id camera)) (\<lambda>client.
       external (mc_path_runtime_status client (cp_public_id camera)))"

definition observe :: "'x operator_control \<Rightarrow> uuid \<Rightarrow> ('x, camera_runtime_observation) action" where
  "observe c camera_id =
     and_then (camera_query camera_id) (\<lambda>camera.
     and_then (camera_status c camera) (\<lambda>status.
       let (ready, readers) = (case status of None \<Rightarrow> (False, 0) | Some x \<Rightarrow> x) in
       ret \<lparr>co_camera_id = cp_id camera, co_node_id = cp_node_id camera, co_ready = ready, co_reader_count = readers,
            co_occupied = (readers = 1), co_reader_limit_violated = (readers > 1)\<rparr>))"

section \<open>Moves\<close>

record camera_move_target =
  ct_id :: uuid
  ct_name :: string
  ct_external_port :: int
  ct_registered_cameras :: int
  ct_camera_capacity :: int

record camera_move_preview =
  vp_camera_id :: uuid
  vp_source_node_id :: uuid
  vp_target_node_id :: uuid
  vp_desired_revision :: int
  vp_occupied :: bool
  vp_disconnect_readers :: int
  vp_confirmation_token :: "string option"
  vp_source_port :: int
  vp_target_port :: int
  vp_source_endpoint :: string
  vp_target_endpoint :: string

definition at_revision :: "camera_placement \<Rightarrow> int option \<Rightarrow> ('x, unit) action" where
  "at_revision camera expected_revision =
     (case expected_revision of
        None \<Rightarrow> ret ()
      | Some r \<Rightarrow> raise_if (cp_desired_revision camera \<noteq> r) (CameraRevisionConflict r (cp_desired_revision camera)))"

definition move_camera :: "uuid \<Rightarrow> int option \<Rightarrow> ('x, camera_placement) action" where
  "move_camera camera_id expected_revision =
     and_then (camera_query camera_id) (\<lambda>camera.
     and_then (at_revision camera expected_revision) (\<lambda>_.
     and_then (raise_if (cp_state camera \<noteq> CS_ENABLED) (CameraLifecycleConflict ''camera_not_enabled'')) (\<lambda>_.
       ret camera)))"

definition refresh_targets :: "'x operator_control \<Rightarrow> camera_placement \<Rightarrow> ('x, unit) action" where
  "refresh_targets c camera =
     (case oc_node_refresher c of
        None \<Rightarrow> ret ()
      | Some refresh \<Rightarrow> refresh (cp_node_id camera) (oc_management_freshness_seconds c))"

definition move_targets_query :: "'x operator_control \<Rightarrow> uuid \<Rightarrow> ('x, media_node list) action" where
  "move_targets_query c camera_id =
     query (\<lambda>x. list_camera_move_targets (oc_env c x) camera_id (oc_management_freshness_seconds c))"

definition targets :: "'x operator_control \<Rightarrow> uuid \<Rightarrow> int option \<Rightarrow> ('x, camera_move_target list) action" where
  "targets c camera_id expected_revision =
     and_then (move_camera camera_id expected_revision) (\<lambda>camera.
     and_then (refresh_targets c camera) (\<lambda>_.
     and_then (move_targets_query c camera_id) (\<lambda>nodes.
       ret (map (\<lambda>n. \<lparr>ct_id = nd_id n, ct_name = nd_name n, ct_external_port = nd_external_port n,
                      ct_registered_cameras = nd_registered_cameras n, ct_camera_capacity = nd_camera_capacity n\<rparr>)
             (sort_key (\<lambda>n. (nd_registered_cameras n, nd_name n, uuid_str (nd_id n))) nodes)))))"

definition move_claim_of :: "camera_placement \<Rightarrow> uuid \<Rightarrow> int \<Rightarrow> move_claim" where
  "move_claim_of camera target_node_id disconnect_readers =
     \<lparr>mk_camera_id = cp_id camera, mk_source_node_id = cp_node_id camera, mk_target_node_id = target_node_id,
      mk_desired_revision = cp_desired_revision camera, mk_disconnect_readers = disconnect_readers\<rparr>"

definition endpoint_text :: "int \<Rightarrow> public_id \<Rightarrow> string" where
  "endpoint_text port public_id = ''rtsp://server:'' @ str_int port @ ''/'' @ public_id"

definition move_preview ::
  "'x operator_control \<Rightarrow> uuid \<Rightarrow> uuid \<Rightarrow> int option \<Rightarrow> ('x, camera_move_preview) action" where
  "move_preview c camera_id target_node_id expected_revision =
     and_then (move_camera camera_id expected_revision) (\<lambda>camera.
     and_then (refresh_targets c camera) (\<lambda>_.
     and_then (move_targets_query c camera_id) (\<lambda>nodes.
     and_then (query (\<lambda>x s. Inr (get_node target_node_id s))) (\<lambda>known_target.
       case known_target of
         None \<Rightarrow> fail (NodeNotFound ''node_not_found'')
       | Some known \<Rightarrow>
           and_then (raise_if (nd_id known = cp_node_id camera) (CameraLifecycleConflict ''camera_already_on_target'')) (\<lambda>_.
           and_then (raise_if (nd_registered_cameras known \<ge> nd_camera_capacity known)
             (NodeCameraCapacityReached ''node_camera_capacity_reached'')) (\<lambda>_.
             case find (\<lambda>n. nd_id n = target_node_id) nodes of
               None \<Rightarrow> fail (EligibleNodeMissing ''manual_node_ineligible'')
             | Some target \<Rightarrow>
                 and_then (observe c camera_id) (\<lambda>ob.
                 and_then (raise_if (co_reader_limit_violated ob)
                   (CameraReaderInvariantViolation ''camera_reader_limit_violated'')) (\<lambda>_.
                 let disconnect_readers = (if co_occupied ob then co_reader_count ob else 0) in
                 and_then (query (\<lambda>x s. Inr (if co_occupied ob
                    then Some (issue_move (oc_confirmations c) (oc_wall_time c x)
                                 (move_claim_of camera target_node_id disconnect_readers))
                    else None))) (\<lambda>token.
                   ret \<lparr>vp_camera_id = cp_id camera, vp_source_node_id = cp_node_id camera,
                        vp_target_node_id = target_node_id, vp_desired_revision = cp_desired_revision camera,
                        vp_occupied = co_occupied ob, vp_disconnect_readers = disconnect_readers,
                        vp_confirmation_token = token, vp_source_port = cp_node_port camera,
                        vp_target_port = nd_external_port target,
                        vp_source_endpoint = endpoint_text (cp_node_port camera) (cp_public_id camera),
                        vp_target_endpoint = endpoint_text (nd_external_port target) (cp_public_id camera)\<rparr>)))))))))"

definition preview_claim :: "camera_move_preview \<Rightarrow> move_claim" where
  "preview_claim p =
     \<lparr>mk_camera_id = vp_camera_id p, mk_source_node_id = vp_source_node_id p, mk_target_node_id = vp_target_node_id p,
      mk_desired_revision = vp_desired_revision p, mk_disconnect_readers = vp_disconnect_readers p\<rparr>"

definition move_token_check ::
  "'x operator_control \<Rightarrow> camera_move_preview \<Rightarrow> bool \<Rightarrow> string option \<Rightarrow> ('x, unit) action" where
  "move_token_check c preview force confirmation_token =
     (case confirmation_token of
        None \<Rightarrow> raise_if (vp_occupied preview) (MoveConfirmationRequired ''move_confirmation_required'')
      | Some token \<Rightarrow>
          if \<not> force then fail (MoveConfirmationRequired ''move_confirmation_required'')
          else
            and_then (query (\<lambda>x s. verify_move (oc_confirmations c) (oc_wall_time c x) token (preview_claim preview))) (\<lambda>ok.
              raise_if (\<not> ok) (MoveConfirmationRequired ''move_confirmation_required'')))"

definition request_move ::
  "'x operator_control \<Rightarrow> uuid \<Rightarrow> uuid \<Rightarrow> int option \<Rightarrow> bool \<Rightarrow> string option \<Rightarrow> ('x, camera_move) action" where
  "request_move c camera_id target_node_id expected_revision force confirmation_token =
     and_then (move_preview c camera_id target_node_id expected_revision) (\<lambda>preview.
     and_then (raise_if (vp_occupied preview \<and> \<not> force) (CameraOccupied ''camera_occupied'')) (\<lambda>_.
     and_then (move_token_check c preview force confirmation_token) (\<lambda>_.
     and_then (external (\<lambda>x. apfst Inr (oc_new_move_id c x))) (\<lambda>move_id.
       call (\<lambda>x. create_camera_move (oc_env c x) move_id camera_id target_node_id (vp_desired_revision preview) force
                   (vp_disconnect_readers preview) (oc_move_timeout_seconds c) (oc_management_freshness_seconds c))))))"

section \<open>Mutations\<close>

record camera_mutation_preview =
  up_camera_id :: uuid
  up_operation :: camera_mutation_operation
  up_desired_revision :: int
  up_occupied :: bool
  up_disconnect_readers :: int
  up_mutation_sha256 :: string
  up_confirmation_token :: "string option"

definition json_opt_str :: "string option \<Rightarrow> json" where
  "json_opt_str x = (case x of None \<Rightarrow> JNull | Some s \<Rightarrow> JStr s)"

definition mutation_payload :: "camera_mutation_operation \<Rightarrow> string option \<Rightarrow> string option \<Rightarrow> nat list" where
  "mutation_payload operation name source_url = utf8_encode (json_dumps (JObj
     [(''name'', json_opt_str name), (''operation'', JStr (camera_mutation_operation_value operation)),
      (''source_url'', json_opt_str source_url)]))"

definition mutation_sha256 ::
  "'x operator_control \<Rightarrow> camera_mutation_operation \<Rightarrow> string option \<Rightarrow> string option \<Rightarrow> ('x, string) action" where
  "mutation_sha256 c operation name source_url =
     query (\<lambda>x s. Inr (env_sha256 (oc_env c x) (mutation_payload operation name source_url)))"

definition mutation_camera :: "uuid \<Rightarrow> int option \<Rightarrow> ('x, camera_placement) action" where
  "mutation_camera camera_id expected_revision =
     and_then (camera_query camera_id) (\<lambda>camera.
     and_then (at_revision camera expected_revision) (\<lambda>_. ret camera))"

definition effective_source_url ::
  "camera_placement \<Rightarrow> string \<Rightarrow> camera_source_credentials option \<Rightarrow> py_error + string" where
  "effective_source_url camera source_url source_credentials =
     (case validate_camera_source_url source_url False of
        Inl e \<Rightarrow> Inl e
      | Inr validated_source_url \<Rightarrow>
         (case split_source_credentials (cp_source_url camera) of
            Inl e \<Rightarrow> Inl e
          | Inr (_, current_credentials) \<Rightarrow>
              attach_if validated_source_url
                (case source_credentials of None \<Rightarrow> current_credentials | Some cr \<Rightarrow> Some cr)))"

definition mutation_admit ::
  "'x operator_control \<Rightarrow> string \<Rightarrow> ('x, admitted_probe_endpoint option) action" where
  "mutation_admit c source_url =
     (case oc_probe_endpoint_admission c of
        None \<Rightarrow> ret None
      | Some admission \<Rightarrow>
          handle (\<lambda>e. rejection_reason e \<noteq> None)
            (and_then (external (ea_admit admission source_url)) (\<lambda>endpoint. ret (Some endpoint)))
            (\<lambda>e. fail (InvalidCameraSource (admission_reason (the (rejection_reason e))))))"

definition mutation_claim_of ::
  "camera_placement \<Rightarrow> camera_mutation_operation \<Rightarrow> int \<Rightarrow> string \<Rightarrow> mutation_claim" where
  "mutation_claim_of camera operation readers sha =
     \<lparr>uk_camera_id = cp_id camera, uk_operation = operation, uk_desired_revision = cp_desired_revision camera,
      uk_disconnect_readers = readers, uk_mutation_sha256 = sha\<rparr>"

definition mutation_preview ::
  "'x operator_control \<Rightarrow> uuid \<Rightarrow> camera_mutation_operation \<Rightarrow> int option \<Rightarrow> string option \<Rightarrow> string option
   \<Rightarrow> camera_source_credentials option \<Rightarrow> ('x, camera_mutation_preview) action" where
  "mutation_preview c camera_id operation expected_revision name source_url source_credentials =
     and_then (mutation_camera camera_id expected_revision) (\<lambda>camera.
     and_then (if operation \<noteq> CMO_UPDATE_SOURCE then ret source_url
               else case (name, source_url) of
                 (Some n, Some u) \<Rightarrow>
                   and_then (from_sum (validate_camera_name n)) (\<lambda>_.
                   and_then (from_sum (effective_source_url camera u source_credentials)) (\<lambda>url. ret (Some url)))
               | _ \<Rightarrow> fail (ValueError ''camera_mutation_payload_required'')) (\<lambda>url.
     and_then (mutation_sha256 c operation name url) (\<lambda>sha.
     and_then (camera_status c camera) (\<lambda>status.
     let readers = (case status of None \<Rightarrow> 0 | Some x \<Rightarrow> snd x) in
     and_then (raise_if (readers > 1) (CameraReaderInvariantViolation ''camera_reader_limit_violated'')) (\<lambda>_.
     and_then (if readers = 1
               then and_then (query (\<lambda>x s. issue_camera_mutation (oc_confirmations c) (oc_wall_time c x)
                      (mutation_claim_of camera operation readers sha))) (\<lambda>token. ret (Some token))
               else ret None) (\<lambda>token.
       ret \<lparr>up_camera_id = cp_id camera, up_operation = operation, up_desired_revision = cp_desired_revision camera,
            up_occupied = (readers = 1), up_disconnect_readers = readers, up_mutation_sha256 = sha,
            up_confirmation_token = token\<rparr>))))))"

text \<open>\<^verbatim>\<open>try: yield except Exception: client.put_path(...); raise\<close>\<close>

definition restoring :: "'x media_client \<Rightarrow> camera_placement \<Rightarrow> ('x, 'a) action \<Rightarrow> ('x, 'a) action" where
  "restoring client camera body =
     and_then (attempt body) (\<lambda>r.
       case r of
         Inl e \<Rightarrow> and_then (put_path client (served_path (cp_public_id camera) (cp_source_url camera))) (\<lambda>_. fail e)
       | Inr a \<Rightarrow> ret a)"

definition mutation_token_check ::
  "'x operator_control \<Rightarrow> camera_placement \<Rightarrow> camera_mutation_operation \<Rightarrow> string \<Rightarrow> string option \<Rightarrow> ('x, bool) action" where
  "mutation_token_check c camera operation sha confirmation_token =
     (case confirmation_token of
        None \<Rightarrow> ret False
      | Some token \<Rightarrow>
          and_then (query (\<lambda>x s. verify_camera_mutation (oc_confirmations c) (oc_wall_time c x) token
                             (mutation_claim_of camera operation 1 sha))) (\<lambda>ok. ret (\<not> ok)))"

definition fence ::
  "'x operator_control \<Rightarrow> camera_placement \<Rightarrow> camera_mutation_operation \<Rightarrow> string option \<Rightarrow> string option \<Rightarrow> string option
   \<Rightarrow> ('x, 'a) action \<Rightarrow> ('x, 'a) action" where
  "fence c camera operation name source_url confirmation_token body =
     and_then (mutation_sha256 c operation name source_url) (\<lambda>sha.
     guarded (cp_node_id camera)
       (and_then (mutation_camera (cp_id camera) None) (\<lambda>current.
        and_then (raise_if (cp_desired_revision current \<noteq> cp_desired_revision camera)
          (CameraRevisionConflict (cp_desired_revision camera) (cp_desired_revision current))) (\<lambda>_.
        and_then (node_client c (cp_node_id current)) (\<lambda>client.
        let quiesced = quiesced_path (cp_public_id current) (cp_source_url current) in
        and_then (put_path client quiesced) (\<lambda>_.
        and_then (get_path client (cp_public_id current)) (\<lambda>path.
        and_then (raise_if (path \<noteq> Some quiesced) (ReconcileRetry ''camera_mutation_quiesce_unverified'')) (\<lambda>_.
        and_then (external (mc_path_runtime_status client (cp_public_id current))) (\<lambda>status.
        let readers = (case status of None \<Rightarrow> 0 | Some x \<Rightarrow> snd x) in
        and_then (raise_if (readers > 1) (CameraReaderInvariantViolation ''camera_reader_limit_violated'')) (\<lambda>_.
        and_then (mutation_token_check c current operation sha confirmation_token) (\<lambda>confirmation_invalid.
          if confirmation_invalid \<or> (readers = 1 \<and> confirmation_token = None)
          then and_then (put_path client (served_path (cp_public_id current) (cp_source_url current))) (\<lambda>_.
                 fail (CameraDisruptionConfirmationRequired ''camera_disruption_confirmation_required''))
          else restoring client current body)))))))))))"

definition mutation_update ::
  "'x operator_control \<Rightarrow> uuid \<Rightarrow> string \<Rightarrow> string \<Rightarrow> camera_source_credentials option \<Rightarrow> int option \<Rightarrow> string option
   \<Rightarrow> ('x, camera_placement) action" where
  "mutation_update c camera_id name source_url source_credentials expected_revision confirmation_token =
     and_then (from_sum (validate_camera_name name)) (\<lambda>name.
     and_then (mutation_camera camera_id expected_revision) (\<lambda>camera.
     and_then (from_sum (effective_source_url camera source_url source_credentials)) (\<lambda>source_url.
     and_then (if probe_endpoint_requires_readmission camera source_url
                    (map_option ea_policy_sha256 (oc_probe_endpoint_admission c))
               then mutation_admit c source_url else ret None) (\<lambda>probe_endpoint.
     let write = call (\<lambda>x. update_camera (oc_env c x) camera_id name source_url (Some (cp_desired_revision camera))
                             probe_endpoint) in
     if cp_source_url camera = source_url \<and> confirmation_token = None then write
     else fence c camera CMO_UPDATE_SOURCE (Some name) (Some source_url) confirmation_token write))))"

definition mutation_disable ::
  "'x operator_control \<Rightarrow> uuid \<Rightarrow> int option \<Rightarrow> string option \<Rightarrow> ('x, camera_placement) action" where
  "mutation_disable c camera_id expected_revision confirmation_token =
     and_then (mutation_camera camera_id expected_revision) (\<lambda>camera.
       if cp_state camera = CS_DISABLED then ret camera
       else fence c camera CMO_DISABLE None None confirmation_token
              (call (\<lambda>x. set_camera_enabled camera_id False (Some (cp_desired_revision camera)))))"

definition mutation_delete ::
  "'x operator_control \<Rightarrow> uuid \<Rightarrow> int option \<Rightarrow> string option \<Rightarrow> ('x, camera_placement) action" where
  "mutation_delete c camera_id expected_revision confirmation_token =
     and_then (mutation_camera camera_id expected_revision) (\<lambda>camera.
       fence c camera CMO_DELETE None None confirmation_token
         (call (\<lambda>x. request_camera_delete camera_id (Some (cp_desired_revision camera)))))"

definition get_move :: "uuid \<Rightarrow> ('x, camera_move option) action" where
  "get_move move_id = query (\<lambda>x s. Inr (get_camera_move move_id s))"

end
