(* ===== verification/Json_Roundtrip.thy ===== *)
theory Json_Roundtrip
  imports Json
begin

text \<open>What \<^verbatim>\<open>json.dumps\<close> writes, \<^verbatim>\<open>json.loads\<close> reads back; so the text determines the value.\<close>

section \<open>Strings\<close>

lemma hex_digit_char: "d < 16 \<Longrightarrow> hex_digit (code (digit_char d)) = Some d"
  by (simp add: hex_digit_def is_digit_def digit_char_code)

lemma hex4_fixed: "n < 65536 \<Longrightarrow> hex4 (map code (hex_fixed 4 n) @ r) = Some (n, r)"
  by (simp add: hex_fixed_def fixed_digits_numeral hex_digit_char)

lemma unicode_escape_low: "n < 256 \<Longrightarrow> unicode_escape (map code (hex_fixed 4 n) @ r) = Some (n, r)"
  by (simp add: unicode_escape_def hex4_fixed high_surrogate_def)

lemma code_literals [simp]: "code CHR 0x22 = 34" "code CHR 0x5C = 92" "code CHR ''n'' = 110" "code CHR ''r'' = 114"
  "code CHR ''t'' = 116" "code CHR ''f'' = 102" "code CHR ''b'' = 98" "code CHR ''u'' = 117" "code CHR ''['' = 91"
  "code CHR '']'' = 93" "code CHR ''{'' = 123" "code CHR ''}'' = 125" "code CHR '','' = 44" "code CHR '':'' = 58"
  "code CHR ''-'' = 45"
  by (simp_all add: code_def)

lemma code_quote: "code c = 34 \<longleftrightarrow> c = CHR 0x22" "code c = 92 \<longleftrightarrow> c = CHR 0x5C"
  using code_inj [of c "CHR 0x22"] code_inj [of c "CHR 0x5C"] by simp_all

lemma parse_escape:
  "parse_string (Suc k) (map code (ascii_escape c) @ r) = map_option (apfst ((#) (code c))) (parse_string k r)"
  by (auto simp: ascii_escape_def simple_escape_def unicode_escape_low code_quote)

lemma parse_escapes:
  "length s < k \<Longrightarrow> parse_string k (map code (concat (map ascii_escape s)) @ 34 # r) = Some (map code s, r)"
proof (induction s arbitrary: k)
  case Nil
  then show ?case by (cases k) auto
next
  case (Cons c s)
  then obtain j where "k = Suc j" "length s < j" by (cases k) auto
  with Cons.IH [of j] show ?case by (simp add: parse_escape)
qed

lemma ascii_escape_length: "1 \<le> length (ascii_escape c)"
  by (simp add: ascii_escape_def)

lemma escapes_length: "length s \<le> length (concat (map ascii_escape s))"
proof (induction s)
  case (Cons c s)
  then show ?case using ascii_escape_length [of c] by simp
qed simp

lemma parse_ascii_string:
  assumes "length (ascii_string s) \<le> Suc k"
  shows "parse_string k (map code (tl (ascii_string s)) @ r) = Some (map code s, r)"
  using parse_escapes [of s k r] escapes_length [of s] assms by (simp add: ascii_string_def)

section \<open>Numbers\<close>

definition delimited :: "nat list \<Rightarrow> bool" where
  "delimited r \<longleftrightarrow> (case r of [] \<Rightarrow> True | c # _ \<Rightarrow> c = 44 \<or> c = 125 \<or> c = 93)"

lemma delimited_simps [simp]: "delimited []" "delimited (44 # r)" "delimited (125 # r)" "delimited (93 # r)"
  by (simp_all add: delimited_def)

lemma delimited_skip: "delimited r \<Longrightarrow> skip_space r = r"
  by (cases r) (auto simp: delimited_def skip_space_def is_json_space_def)

lemma delimited_digit: "delimited r \<Longrightarrow> takeWhile is_digit r = []"
  by (cases r) (auto simp: delimited_def is_digit_def)

lemma delimited_number: "delimited r \<Longrightarrow> fraction_of r = [] \<and> exponent_of r = []"
  by (cases r) (auto simp: delimited_def fraction_of_def exponent_of_def Let_def split: list.split)

lemma is_digit_code: "is_digit (code c) \<longleftrightarrow> is_digit_char c"
  by (simp add: is_digit_def is_digit_char_def)

lemma str_nat_first:
  obtains c s where "str_nat n = c # s" "is_digit_char c" "list_all is_digit_char s" "code c = 48 \<Longrightarrow> s = []"
proof -
  have "\<exists>c s. digits_of 10 n = c # s \<and> (code c = 48 \<longrightarrow> n = 0)"
  proof (induction n rule: less_induct)
    case (less n)
    show ?case
    proof (cases "n < 10")
      case True
      then show ?thesis by (subst digits_of.simps) (simp add: digit_char_code)
    next
      case False
      then obtain c s where "digits_of 10 (n div 10) = c # s" "code c = 48 \<longrightarrow> n div 10 = 0"
        using less [of "n div 10"] by auto
      with False show ?thesis by (subst digits_of.simps) auto
    qed
  qed
  then obtain c s where cs: "str_nat n = c # s" "code c = 48 \<longrightarrow> n = 0" by (auto simp: str_nat_def)
  moreover have "list_all is_digit_char (c # s)" using str_nat_digits [of n] cs(1) by simp
  moreover have "s = []" if "n = 0" using that cs(1) by (simp add: str_nat_def digits_of.simps)
  ultimately show ?thesis using that by auto
qed

lemma takeWhile_digits: "list_all is_digit_char s \<Longrightarrow> delimited r \<Longrightarrow> takeWhile is_digit (map code s @ r) = map code s"
  by (induction s) (simp_all add: is_digit_code delimited_digit)

lemma integer_of_str_nat: "delimited r \<Longrightarrow> integer_of (map code (str_nat n) @ r) = map code (str_nat n)"
  by (rule str_nat_first [of n]) (auto simp: integer_of_def is_digit_code takeWhile_digits delimited_digit)

lemma text_value_code: "text_value (map code s) = dec_value s"
  by (simp add: text_value_def dec_value_def foldl_map)

lemma parse_unsigned_str_nat:
  "delimited r \<Longrightarrow> parse_unsigned sign (map code (str_nat n) @ r) f = Some (JV_Int (f * int n), r)"
proof -
  assume r: "delimited r"
  have "str_nat n \<noteq> []" by (rule str_nat_first [of n]) simp
  then show ?thesis
    unfolding parse_unsigned_def integer_of_str_nat [OF r] by (simp add: delimited_number [OF r] text_value_code)
qed

lemma parse_str_int: "delimited r \<Longrightarrow> parse_number (map code (str_int i) @ r) = Some (JV_Int i, r)"
proof (cases "i < 0")
  case True
  assume "delimited r"
  with True show ?thesis by (simp add: parse_number_def str_int_def parse_unsigned_str_nat)
next
  case False
  assume r: "delimited r"
  obtain c s where "str_nat (nat i) = c # s" "is_digit_char c" using str_nat_first by blast
  then have "parse_number (map code (str_nat (nat i)) @ r) = parse_unsigned [] (map code (str_nat (nat i)) @ r) 1"
    by (auto simp: parse_number_def is_digit_char_def)
  then show ?thesis using False r parse_unsigned_str_nat [OF r] by (simp add: str_int_def)
qed

lemma str_int_head:
  obtains c s where "str_int i = c # s" "is_digit_char c \<or> c = CHR ''-'' \<and> (\<exists>d s'. s = d # s' \<and> is_digit_char d)"
proof (cases "i < 0")
  case True
  obtain d s where "str_nat (nat (- i)) = d # s" "is_digit_char d" using str_nat_first by blast
  with True show ?thesis by (intro that) (auto simp: str_int_def)
next
  case False
  obtain d s where "str_nat (nat i) = d # s" "is_digit_char d" using str_nat_first by blast
  with False show ?thesis by (intro that) (auto simp: str_int_def)
qed

lemma parse_literal_number: "parse_literal (map code (str_int i) @ r) = None"
proof -
  have "take (length w) (map code (str_int i) @ r) \<noteq> w" if "(w, v) \<in> set literals" for w v
  proof (rule str_int_head [of i])
    fix c s
    assume i: "str_int i = c # s" and c: "is_digit_char c \<or> c = CHR ''-'' \<and> (\<exists>d s'. s = d # s' \<and> is_digit_char d)"
    from that have w: "\<exists>a t. w = a # t \<and> \<not> is_digit a \<and> (a = 45 \<longrightarrow> (\<exists>b u. t = b # u \<and> \<not> is_digit b))"
      by (auto simp: literals_def is_digit_def code_def)
    then show ?thesis using i c by (auto simp: is_digit_code)
  qed
  then have "find (\<lambda>(w, v). take (length w) (map code (str_int i) @ r) = w) literals = None"
    unfolding find_None_iff by auto
  then show ?thesis by (simp add: parse_literal_def)
qed

section \<open>Values\<close>

fun value_of :: "json \<Rightarrow> json_value" where
  "value_of JNull = JV_Null"
| "value_of (JInt i) = JV_Int i"
| "value_of (JStr s) = JV_Str (map code s)"
| "value_of (JList vs) = JV_List (map value_of vs)"
| "value_of (JObj kvs) = JV_Obj (map (\<lambda>kv. (map code (fst kv), value_of (snd kv))) kvs)"

lemma map_code_inj: "map code s = map code t \<longleftrightarrow> s = t"
  using code_inj by (metis injI inj_map_eq_map)

lemma value_of_inj: "value_of v = value_of w \<Longrightarrow> v = w"
proof (induction v arbitrary: w rule: value_of.induct)
  case (4 vs)
  from 4(2) obtain ws where w: "w = JList ws" "map value_of vs = map value_of ws" by (cases w) auto
  have "vs = ws" by (rule list.inj_map_strong [OF _ w(2)]) (rule 4(1))
  with w(1) show ?case by simp
next
  case (5 kvs)
  let ?f = "\<lambda>kv. (map code (fst kv), value_of (snd kv))"
  from 5(2) obtain ws where w: "w = JObj ws" "map ?f kvs = map ?f ws" by (cases w) auto
  have "a = b" if "a \<in> set kvs" "?f a = ?f b" for a b
    using that 5(1) [of a "snd b"] by (simp add: map_code_inj prod_eq_iff)
  then have "kvs = ws" by (intro list.inj_map_strong [OF _ w(2)])
  with w(1) show ?case by simp
next
  case 1
  then show ?case by (cases w) simp_all
next
  case (2 i)
  then show ?case by (cases w) simp_all
next
  case (3 s)
  then show ?case by (cases w) (simp_all add: map_code_inj)
qed

definition token_start :: "nat list \<Rightarrow> bool" where
  "token_start cs \<longleftrightarrow> (case cs of [] \<Rightarrow> False | c # _ \<Rightarrow> \<not> is_json_space c \<and> c \<noteq> 125 \<and> c \<noteq> 93)"

lemma emit_start: "token_start (map code (emit v) @ r)"
proof (cases v)
  case (JInt i)
  then show ?thesis
    by (rule_tac str_int_head [of i]) (auto simp: token_start_def is_json_space_def is_digit_char_def)
qed (auto simp: token_start_def is_json_space_def ascii_string_def code_def)

lemma token_startD: "token_start cs \<Longrightarrow> skip_space cs = cs \<and> expect 125 cs = None \<and> expect 93 cs = None"
  by (cases cs) (auto simp: token_start_def skip_space_def expect_def)

lemma ascii_string_start: "ascii_string s = CHR 0x22 # tl (ascii_string s)"
  by (simp add: ascii_string_def)

lemma emit_elements_start: "vs \<noteq> [] \<Longrightarrow> token_start (map code (emit_elements vs) @ r)"
  using emit_start by (cases vs) auto

lemma emit_members_start: "kvs \<noteq> [] \<Longrightarrow> token_start (map code (emit_members kvs) @ r)"
  by (cases kvs) (auto simp: token_start_def is_json_space_def ascii_string_def)

lemma expect_same: "expect c (c # r) = Some r"
  by (simp add: expect_def)

lemma skip_colon: "skip_space (58 # r) = 58 # r"
  by (simp add: skip_space_def is_json_space_def)

lemma parse_emit_string:
  "1 \<le> k \<Longrightarrow> parse_value k (map code (ascii_string s) @ r) = Some (JV_Str (map code s), r)"
proof -
  assume "1 \<le> k"
  then obtain j where k: "k = Suc j" by (cases k) auto
  have "parse_string (length (map code (ascii_string s) @ r)) (map code (tl (ascii_string s)) @ r) = Some (map code s, r)"
    by (rule parse_ascii_string) simp
  then show ?thesis unfolding k by (subst ascii_string_start) (simp add: ascii_string_def)
qed

lemma parse_emit_int: "1 \<le> k \<Longrightarrow> delimited r \<Longrightarrow> parse_value k (map code (str_int i) @ r) = Some (JV_Int i, r)"
proof -
  assume k: "1 \<le> k" and r: "delimited r"
  obtain c s where cs: "str_int i = c # s" "is_digit_char c \<or> c = CHR ''-''" using str_int_head by blast
  then have "code c \<noteq> 34" "code c \<noteq> 123" "code c \<noteq> 91" by (auto simp: is_digit_char_def)
  then show ?thesis
    using k parse_literal_number [of i r] parse_str_int [OF r, of i] cs(1) by (cases k) simp_all
qed

lemma parse_emit:
  "2 * length (emit v) \<le> k \<Longrightarrow> delimited r \<Longrightarrow> parse_value k (map code (emit v) @ r) = Some (value_of v, r)"
  "vs \<noteq> [] \<Longrightarrow> 2 * length (emit_elements vs) \<le> k \<Longrightarrow>
     parse_elements k (map code (emit_elements vs) @ r) = Some (map value_of vs, r)"
  "kvs \<noteq> [] \<Longrightarrow> 2 * length (emit_members kvs) \<le> k \<Longrightarrow>
     parse_members k (map code (emit_members kvs) @ r) = Some (map (\<lambda>kv. (map code (fst kv), value_of (snd kv))) kvs, r)"
proof (induction v and vs and kvs arbitrary: k r and k r and k r rule: emit_emit_elements_emit_members.induct)
  case 1
  then show ?case by (cases k) (simp_all add: parse_literal_def literals_def code_def)
next
  case (2 i)
  have "str_int i \<noteq> []" by (rule str_int_head [of i]) simp
  then have "1 \<le> length (str_int i)" by (cases "str_int i") simp_all
  then have "1 \<le> k" using 2(1) by simp
  with 2(2) show ?case by (simp add: parse_emit_int)
next
  case (3 s)
  then have "1 \<le> k" by (simp add: ascii_string_def)
  then show ?case by (simp add: parse_emit_string)
next
  case (4 vs)
  then show ?case
    by (cases k; cases "vs = []")
      (simp_all add: expect_same token_startD [OF emit_elements_start] skip_space_def [of "93 # _"] is_json_space_def)
next
  case (5 kvs)
  then show ?case
    by (cases k; cases "kvs = []")
      (simp_all add: expect_same token_startD [OF emit_members_start] skip_space_def [of "125 # _"] is_json_space_def)
next
  case 6
  then show ?case by simp
next
  case (7 v vs)
  obtain j where k: "k = Suc j" using 7(4) by (cases k) (auto split: if_splits)
  show ?case
  proof (cases "vs = []")
    case True
    with 7 k show ?thesis by (simp add: delimited_skip expect_same)
  next
    case False
    have "parse_value j (map code (emit v) @ 44 # map code (emit_elements vs) @ r) = Some (value_of v, 44 # map code (emit_elements vs) @ r)"
      using 7(1) [of j] 7(4) k False by simp
    with 7(2) [of j] 7(4) False k show ?thesis
      by (simp add: delimited_skip expect_def token_startD [OF emit_elements_start])
  qed
next
  case 8
  then show ?case by simp
next
  case (9 key v kvs)
  obtain j where k: "k = Suc j" using 9(4) by (cases k) auto
  let ?t = "if kvs = [] then 125 # r else 44 # map code (emit_members kvs) @ r"
  have input: "map code (emit_members ((key, v) # kvs)) @ r = 34 # map code (tl (ascii_string key)) @ 58 # map code (emit v) @ ?t"
    by (subst (1) ascii_string_start) (simp add: ascii_string_def)
  have "parse_value j (map code (emit v) @ ?t) = Some (value_of v, ?t)"
    using 9(1) [of j ?t] 9(4) k by simp
  then show ?case
    unfolding input k parse_members.simps
    using 9(2) [of j r] 9(4) k parse_ascii_string
    by (auto simp: expect_def skip_colon delimited_skip token_startD [OF emit_start] token_startD [OF emit_members_start])
qed

section \<open>The whole text\<close>

lemma utf8_decode_ascii: "list_all (\<lambda>b. b < 128) bs \<Longrightarrow> utf8_decode bs = Some bs"
  by (induction bs) simp_all

lemma json_text_ascii:
  assumes "list_all (\<lambda>b. 0 < b \<and> b < 128) bs"
  shows "json_text bs = Some bs"
proof -
  have small: "b < 128" if "b \<in> set (take n bs)" for b n using that assms by (auto simp: list_all_iff dest: in_set_takeD)
  have bom: "take 4 bs \<noteq> [0, 0, 254, 255]" "take 4 bs \<noteq> [255, 254, 0, 0]" "take 2 bs \<noteq> [254, 255]" "take 2 bs \<noteq> [255, 254]"
    "take 3 bs \<noteq> [239, 187, 191]"
    using small [of 254 4] small [of 254 2] small [of 239 3] by auto
  have "i < length bs \<Longrightarrow> bs ! i \<noteq> 0" for i using assms by (auto simp: list_all_length)
  then have pos: "4 \<le> length bs \<or> length bs = 2 \<Longrightarrow> bs ! 0 \<noteq> 0 \<and> bs ! 1 \<noteq> 0" by fastforce
  have "utf8_decode bs = Some bs" by (rule utf8_decode_ascii) (use assms in \<open>auto simp: list_all_iff\<close>)
  with bom pos show ?thesis by (auto simp: json_text_def)
qed

definition plain_ascii :: "string \<Rightarrow> bool" where
  "plain_ascii s \<longleftrightarrow> list_all (\<lambda>c. 32 \<le> code c \<and> code c < 127) s"

lemma plain_ascii_append [simp]: "plain_ascii (s @ t) \<longleftrightarrow> plain_ascii s \<and> plain_ascii t"
  "plain_ascii (c # s) \<longleftrightarrow> 32 \<le> code c \<and> code c < 127 \<and> plain_ascii s" "plain_ascii []"
  by (simp_all add: plain_ascii_def)

lemma hex_fixed_plain: "plain_ascii (hex_fixed k n)"
  by (auto simp: plain_ascii_def list_all_iff hex_fixed_def digit_char_code dest!: fixed_digits_less [rotated])

lemma str_int_plain: "plain_ascii (str_int i)"
  using str_nat_digits [of "nat i"] str_nat_digits [of "nat (- i)"]
  by (auto simp: str_int_def plain_ascii_def list_all_iff is_digit_char_def)

lemma ascii_escape_plain: "plain_ascii (ascii_escape c)"
  by (auto simp: ascii_escape_def hex_fixed_plain)

lemma ascii_string_plain: "plain_ascii (ascii_string s)"
proof -
  have "plain_ascii (concat (map ascii_escape s))" by (induction s) (simp_all add: ascii_escape_plain)
  then show ?thesis by (simp add: ascii_string_def)
qed

lemma emit_plain: "plain_ascii (emit v)" "plain_ascii (emit_elements vs)" "plain_ascii (emit_members kvs)"
  by (induction v and vs and kvs rule: emit_emit_elements_emit_members.induct)
    (simp_all add: str_int_plain ascii_string_plain code_def)

lemma utf8_plain: "plain_ascii s \<Longrightarrow> utf8_encode s = map code s"
  by (induction s) (simp_all add: utf8_encode_def utf8_char_def)

lemma loads_emit: "json_loads (map code (emit v)) = Some (value_of v)"
proof -
  have "list_all (\<lambda>b. 0 < b \<and> b < 128) (map code (emit v))"
    using emit_plain(1) [of v] by (auto simp: plain_ascii_def list_all_iff)
  then have decoded: "json_text (map code (emit v)) = Some (map code (emit v))" by (rule json_text_ascii)
  have "skip_space (map code (emit v)) = map code (emit v)" using token_startD [OF emit_start [of v "[]"]] by simp
  moreover have "parse_value (2 * length (map code (emit v)) + 1) (map code (emit v)) = Some (value_of v, [])"
    using parse_emit(1) [of v "2 * length (map code (emit v)) + 1" "[]"] by simp
  ultimately show ?thesis by (simp add: json_loads_def decoded skip_space_def)
qed

lemma loads_dumps: "json_loads (utf8_encode (json_dumps v)) = Some (value_of (sort_keys v))"
  unfolding json_dumps_def by (simp add: utf8_plain emit_plain loads_emit)

lemma dumps_inj: "utf8_encode (json_dumps v) = utf8_encode (json_dumps w) \<Longrightarrow> sort_keys v = sort_keys w"
  using loads_dumps [of v] loads_dumps [of w] value_of_inj by auto

end
