(* ===== verification/Token_Properties.thy ===== *)
theory Token_Properties
  imports Confirmation_Tokens Json_Roundtrip Blast_Radius "HOL-Library.Multiset"
begin

text \<open>
  Confirmation tokens are exact: a token is accepted for the claim it was issued for, until it expires, and for
  no other claim of any of the four kinds, because the payload determines the claim.
\<close>

section \<open>Objects\<close>

lemma map_of_mapped: "map_of (map (\<lambda>kv. (fst kv, g (snd kv))) xs) k = map_option g (map_of xs k)"
  by (induction xs) auto

lemma sorted_members:
  assumes "distinct (map fst xs)"
  shows "map_of (sort_key fst (map (\<lambda>kv. (fst kv, g (snd kv))) xs)) k = map_option g (map_of xs k)"
proof -
  let ?ys = "map (\<lambda>kv. (fst kv, g (snd kv))) xs"
  have keys: "map fst ?ys = map fst xs" by simp
  have "distinct (map fst (sort_key fst ?ys))"
    using assms distinct_map [of fst ?ys] by (simp only: distinct_map distinct_sort set_sort keys [symmetric])
  then have "map_of (sort_key fst ?ys) = map_of ?ys"
    using assms by (subst map_of_inject_set) (simp_all only: keys set_sort)
  then show ?thesis by (simp only: map_of_mapped)
qed

lemma object_field:
  assumes "sort_keys (JObj xs) = sort_keys (JObj ys)" and "distinct (map fst xs)" and "distinct (map fst ys)"
  shows "map_option sort_keys (map_of xs k) = map_option sort_keys (map_of ys k)"
  using assms(1) sorted_members [OF assms(2), of sort_keys k] sorted_members [OF assms(3), of sort_keys k] by simp

lemma map_of_coded: "map_of (map (\<lambda>kv. (map code (fst kv), g (snd kv))) xs) (map code k) = map_option g (map_of xs k)"
  by (induction xs) (auto simp: map_code_inj)

lemma member_of_value:
  assumes "distinct (map fst xs)"
  shows "\<exists>kvs. value_of (sort_keys (JObj xs)) = JV_Obj kvs \<and> member_of key kvs = map_option (\<lambda>v. value_of (sort_keys v)) (map_of xs key)"
proof -
  let ?ys = "sort_key fst (map (\<lambda>kv. (fst kv, sort_keys (snd kv))) xs)"
  let ?zs = "map (\<lambda>kv. (map code (fst kv), value_of (snd kv))) ?ys"
  have "distinct (map fst (map (\<lambda>kv. (fst kv, sort_keys (snd kv))) xs))" using assms by (simp add: o_def)
  then have ys: "distinct (map fst ?ys)" by (simp only: distinct_map distinct_sort set_sort)
  have "map fst ?zs = map (map code) (map fst ?ys)" by simp
  also have "distinct \<dots>" using ys map_code_inj by (subst distinct_map) (auto intro: inj_onI)
  finally have "map_of (rev ?zs) = map_of ?zs" by (subst map_of_inject_set) (simp_all add: rev_map [symmetric])
  then have "member_of key ?zs = map_option (\<lambda>v. value_of (sort_keys v)) (map_of xs key)"
    by (simp only: member_of_def map_of_coded sorted_members [OF assms] option.map_comp o_def)
  then show ?thesis by (intro exI [of _ ?zs]) simp
qed

section \<open>Claims\<close>

datatype confirmation_claim =
    Move_Claim move_claim
  | Port_Claim port_change_claim
  | Reconfigure_Claim reconfigure_claim
  | Mutation_Claim mutation_claim

fun claim_payload :: "confirmation_claim \<Rightarrow> int \<Rightarrow> py_error + nat list" where
  "claim_payload (Move_Claim k) e = Inr (move_payload k e)"
| "claim_payload (Port_Claim k) e = Inr (node_port_payload k e)"
| "claim_payload (Reconfigure_Claim k) e = Inr (node_reconfigure_payload k e)"
| "claim_payload (Mutation_Claim k) e = camera_mutation_payload k e"

fun issue_claim :: "token_service \<Rightarrow> int \<Rightarrow> confirmation_claim \<Rightarrow> py_error + string" where
  "issue_claim svc now (Move_Claim k) = Inr (issue_move svc now k)"
| "issue_claim svc now (Port_Claim k) = Inr (issue_node_port_change svc now k)"
| "issue_claim svc now (Reconfigure_Claim k) = Inr (issue_node_reconfigure svc now k)"
| "issue_claim svc now (Mutation_Claim k) = issue_camera_mutation svc now k"

fun verify_claim :: "token_service \<Rightarrow> int \<Rightarrow> string \<Rightarrow> confirmation_claim \<Rightarrow> py_error + bool" where
  "verify_claim svc now token (Move_Claim k) = verify_move svc now token k"
| "verify_claim svc now token (Port_Claim k) = verify_node_port_change svc now token k"
| "verify_claim svc now token (Reconfigure_Claim k) = verify_node_reconfigure svc now token k"
| "verify_claim svc now token (Mutation_Claim k) = verify_camera_mutation svc now token k"

fun claim_digests :: "confirmation_claim \<Rightarrow> bool" where
  "claim_digests (Port_Claim k) \<longleftrightarrow>
     valid_confirmation_digest (pk_blast_radius_sha256 k) \<and> valid_confirmation_digest (pk_reader_blast_radius_sha256 k)"
| "claim_digests (Reconfigure_Claim k) \<longleftrightarrow>
     valid_confirmation_digest (rk_blast_radius_sha256 k) \<and> valid_confirmation_digest (rk_reader_blast_radius_sha256 k)"
| "claim_digests k \<longleftrightarrow> True"

text \<open>The object behind a payload.\<close>

fun claim_members :: "confirmation_claim \<Rightarrow> int \<Rightarrow> (string \<times> json) list" where
  "claim_members (Move_Claim k) e =
     [(''camera_id'', JStr (uuid_str (mk_camera_id k))), (''desired_revision'', JInt (mk_desired_revision k)),
      (''disconnect_readers'', JInt (mk_disconnect_readers k)), (''expires_at'', JInt e),
      (''operation'', JStr ''camera_move_force''), (''source_node_id'', JStr (uuid_str (mk_source_node_id k))),
      (''target_node_id'', JStr (uuid_str (mk_target_node_id k)))]"
| "claim_members (Port_Claim k) e =
     [(''blast_radius_sha256'', JStr (pk_blast_radius_sha256 k)),
      (''reader_blast_radius_sha256'', JStr (pk_reader_blast_radius_sha256 k)), (''active_readers'', JInt (pk_active_readers k)),
      (''confirmation_context'', confirmation_context_payload (pk_confirmation_context k)),
      (''desired_revision'', JInt (pk_desired_revision k)), (''expires_at'', JInt e), (''new_port'', JInt (pk_new_port k)),
      (''node_id'', JStr (uuid_str (pk_node_id k))), (''old_port'', JInt (pk_old_port k)),
      (''operation'', JStr ''node_port_change''), (''registered_cameras'', JInt (pk_registered_cameras k))]"
| "claim_members (Reconfigure_Claim k) e =
     [(''blast_radius_sha256'', JStr (rk_blast_radius_sha256 k)),
      (''reader_blast_radius_sha256'', JStr (rk_reader_blast_radius_sha256 k)), (''active_readers'', JInt (rk_active_readers k)),
      (''confirmation_context'', confirmation_context_payload (rk_confirmation_context k)),
      (''desired_revision'', JInt (rk_desired_revision k)), (''expires_at'', JInt e),
      (''external_port'', JInt (rk_external_port k)), (''node_id'', JStr (uuid_str (rk_node_id k))),
      (''operation'', JStr ''node_reconfigure''), (''registered_cameras'', JInt (rk_registered_cameras k)),
      (''target_release_id'', JStr (rk_target_release_id k)),
      (''target_mediamtx_binary_sha256'', JStr (rk_target_mediamtx_binary_sha256 k))]"
| "claim_members (Mutation_Claim k) e =
     [(''camera_id'', JStr (uuid_str (uk_camera_id k))), (''desired_revision'', JInt (uk_desired_revision k)),
      (''disconnect_readers'', JInt (uk_disconnect_readers k)), (''expires_at'', JInt e),
      (''mutation_sha256'', JStr (uk_mutation_sha256 k)),
      (''operation'', JStr (camera_mutation_operation_value (uk_operation k)))]"

lemma claim_payload_members:
  "claim_payload k e = Inr p \<Longrightarrow> p = utf8_encode (json_dumps (JObj (claim_members k e)))"
  by (cases k) (auto simp: move_payload_def node_port_payload_def node_reconfigure_payload_def camera_mutation_payload_def
      split: if_splits)

lemma claim_members_distinct: "distinct (map fst (claim_members k e))"
  by (cases k) simp_all

lemma claim_expiry: "map_of (claim_members k e) ''expires_at'' = Some (JInt e)"
  by (cases k) simp_all

lemma operation_value_inj: "camera_mutation_operation_value a = camera_mutation_operation_value b \<longleftrightarrow> a = b"
  by (cases a; cases b) simp_all

lemma context_payload_inj:
  assumes "sort_keys (confirmation_context_payload a) = sort_keys (confirmation_context_payload b)"
  shows "a = b"
proof (cases a; cases b)
  fix x y assume ab: "a = Some x" "b = Some y"
  let ?m = "\<lambda>c. [(''account_id'', JStr (uuid_str (cc_account_id c))), (''session_id'', JStr (uuid_str (cc_session_id c))),
    (''authz_version'', JInt (cc_authz_version c)), (''mfa_verified_at_unix_ms'', JInt (cc_mfa_verified_at_unix_ms c))]"
  have "sort_keys (JObj (?m x)) = sort_keys (JObj (?m y))" using assms ab by (simp only: confirmation_context_payload_def option.case)
  then have "map_option sort_keys (map_of (?m x) f) = map_option sort_keys (map_of (?m y) f)" for f
    by (rule object_field) simp_all
  from this [of "''account_id''"] this [of "''session_id''"] this [of "''authz_version''"] this [of "''mfa_verified_at_unix_ms''"]
  show "a = b" using ab by (simp add: uuid_str_inj)
qed (use assms in \<open>simp_all add: confirmation_context_payload_def\<close>)

lemma claim_members_inj:
  assumes "sort_keys (JObj (claim_members k e)) = sort_keys (JObj (claim_members k' e'))"
  shows "k = k' \<and> e = e'"
proof -
  note field = object_field [OF assms claim_members_distinct claim_members_distinct]
  have e: "e = e'" using field [of "''expires_at''"] by (simp add: claim_expiry)
  note op = field [of "''operation''"] and revision = field [of "''desired_revision''"]
  show ?thesis
  proof (cases k; cases k')
    fix a b assume "k = Move_Claim a" "k' = Move_Claim b"
    then show ?thesis using e revision field [of "''camera_id''"] field [of "''disconnect_readers''"] field [of "''source_node_id''"]
        field [of "''target_node_id''"] by (simp add: uuid_str_inj)
  next
    fix a b assume "k = Port_Claim a" "k' = Port_Claim b"
    then show ?thesis using e revision field [of "''blast_radius_sha256''"] field [of "''reader_blast_radius_sha256''"]
        field [of "''active_readers''"] field [of "''confirmation_context''"] field [of "''new_port''"] field [of "''node_id''"]
        field [of "''old_port''"] field [of "''registered_cameras''"]
      by (simp add: uuid_str_inj context_payload_inj)
  next
    fix a b assume "k = Reconfigure_Claim a" "k' = Reconfigure_Claim b"
    then show ?thesis using e revision field [of "''blast_radius_sha256''"] field [of "''reader_blast_radius_sha256''"]
        field [of "''active_readers''"] field [of "''confirmation_context''"] field [of "''external_port''"] field [of "''node_id''"]
        field [of "''target_release_id''"] field [of "''target_mediamtx_binary_sha256''"] field [of "''registered_cameras''"]
      by (simp add: uuid_str_inj context_payload_inj)
  next
    fix a b assume "k = Mutation_Claim a" "k' = Mutation_Claim b"
    then show ?thesis using e revision op field [of "''camera_id''"] field [of "''disconnect_readers''"] field [of "''mutation_sha256''"]
      by (simp add: uuid_str_inj operation_value_inj)
  qed (use op in \<open>auto elim: camera_mutation_operation_value.elims dest: sym\<close>)
qed

lemma claim_payload_inj: "claim_payload k e = Inr p \<Longrightarrow> claim_payload k' e' = Inr p \<Longrightarrow> k = k' \<and> e = e'"
  using claim_members_inj dumps_inj claim_payload_members by metis

section \<open>Tokens\<close>

lemma dumps_octets: "octets (utf8_encode (json_dumps v))"
  unfolding json_dumps_def utf8_plain [OF emit_plain(1)] octets_def list_all_iff by auto

lemma payload_octets: "claim_payload k e = Inr p \<Longrightarrow> octets p"
  using claim_payload_members dumps_octets by metis

lemma signed_body:
  assumes "octets p"
  shows "partition_char CHR ''.'' (sign_payload svc p) = (b64_body p, True, ts_hmac svc (ts_secret svc) p)"
proof -
  have "CHR ''.'' \<notin> set (b64_body p)"
  proof
    assume "CHR ''.'' \<in> set (b64_body p)"
    from b64_body_chars [OF assms this] obtain d where "d < 64" "CHR ''.'' = b64_char d" by (elim exE conjE)
    with b64_char_props(3) [of d] show False by simp
  qed
  then show ?thesis by (simp add: sign_payload_def rstrip_encode [OF assms] partition_char_append)
qed

text \<open>A claim in front of any signature.\<close>

definition signed_text :: "nat list \<Rightarrow> string \<Rightarrow> string" where
  "signed_text p signature = rstrip_char CHR ''='' (urlsafe_b64encode p) @ CHR ''.'' # signature"

lemma decode_signed_text:
  assumes "claim_payload k e = Inr p" and "length (signed_text p signature) \<le> 4096"
  shows "\<exists>decoded. decode_token (signed_text p signature) = Some (p, signature, decoded) \<and> expiry_of decoded = Some e"
proof -
  note oct = payload_octets [OF assms(1)]
  have parts: "partition_char CHR ''.'' (signed_text p signature) = (b64_body p, True, signature)"
    using signed_body [OF oct, of "\<lparr>ts_secret = [], ts_lifetime_seconds = 1, ts_hmac = \<lambda>x y. signature\<rparr>"]
    by (simp add: signed_text_def sign_payload_def)
  obtain kvs where kvs: "value_of (sort_keys (JObj (claim_members k e))) = JV_Obj kvs"
      "member_of ''expires_at'' kvs = Some (JV_Int e)"
    using member_of_value [OF claim_members_distinct, of k e "''expires_at''"] by (auto simp: claim_expiry)
  have "json_loads p = Some (JV_Obj kvs)"
    unfolding claim_payload_members [OF assms(1)] loads_dumps by (simp only: kvs)
  moreover have "urlsafe_b64decode (b64_pad (b64_body p)) = Some p"
    using decode_encode [OF oct] by (simp only: rstrip_encode [OF oct])
  ultimately have "decode_token (signed_text p signature) = Some (p, signature, kvs)"
    using assms(2) by (simp add: decode_token_def parts)
  with kvs(2) show ?thesis by (simp add: expiry_of_def)
qed

lemma issue_claim_payload:
  assumes "issue_claim svc now k = Inr token"
  obtains p where "claim_payload k (now + ts_lifetime_seconds svc) = Inr p" "token = signed_text p (ts_hmac svc (ts_secret svc) p)"
proof -
  have "issue_claim svc now k = map_sum id (sign_payload svc) (claim_payload k (now + ts_lifetime_seconds svc))"
    by (cases k) (simp_all add: issue_move_def issue_node_port_change_def issue_node_reconfigure_def issue_camera_mutation_def)
  with assms that show ?thesis
    by (cases "claim_payload k (now + ts_lifetime_seconds svc)") (auto simp: sign_payload_def signed_text_def)
qed

lemma verify_claim_payload:
  "verify_claim svc now token k =
     (if claim_digests k then verify_payload svc now token (claim_payload k) else Inr False)"
proof -
  have "claim_payload k = (\<lambda>e. claim_payload k e)" by simp
  then show ?thesis
    by (cases k) (simp_all add: verify_move_def verify_node_port_change_def verify_node_reconfigure_def verify_camera_mutation_def)
qed

lemma lower_hex_ascii: "c \<in> set lower_hex_chars \<Longrightarrow> code c < 128"
  by (auto simp: lower_hex_chars_def code_def)

lemma verify_payload_true:
  assumes "verify_payload svc now token f = Inr True"
  obtains p signature decoded e where "decode_token token = Some (p, signature, decoded)" "expiry_of decoded = Some e"
    "now \<le> e" "f e = Inr p" "signature = ts_hmac svc (ts_secret svc) p"
  using assms by (auto simp: verify_payload_def compare_digest_def split: option.splits prod.splits if_splits sum.splits)

section \<open>How long a token can be\<close>

fun weight :: "json \<Rightarrow> nat" where
  "weight JNull = 4"
| "weight (JInt i) = length (str_int i)"
| "weight (JStr s) = 6 * length s + 2"
| "weight (JList vs) = sum_list (map (\<lambda>v. weight v + 1) vs) + 2"
| "weight (JObj kvs) = sum_list (map (\<lambda>kv. 6 * length (fst kv) + weight (snd kv) + 4) kvs) + 2"

lemma ascii_string_length: "length (ascii_string s) \<le> 6 * length s + 2"
proof -
  have escape: "length (ascii_escape c) \<le> 6" for c by (simp add: ascii_escape_def)
  have "length (concat (map ascii_escape s)) \<le> 6 * length s"
  proof (induction s)
    case (Cons c s)
    then show ?case using escape [of c] by simp
  qed simp
  then show ?thesis by (simp add: ascii_string_def)
qed

lemma emit_length: "length (emit v) \<le> weight v"
  "length (emit_elements vs) \<le> sum_list (map (\<lambda>v. weight v + 1) vs) + 1"
  "length (emit_members kvs) \<le> sum_list (map (\<lambda>kv. 6 * length (fst kv) + weight (snd kv) + 4) kvs) + 1"
proof (induction v and vs and kvs rule: emit_emit_elements_emit_members.induct)
  case (9 key v kvs)
  then show ?case using ascii_string_length [of key] by (cases "kvs = []") simp_all
qed (use ascii_string_length in \<open>auto split: if_splits\<close>)

lemma sum_list_sort_key: "sum_list (map f (sort_key g xs)) = sum_list (map f xs)" for f :: "'a \<Rightarrow> nat"
  by (metis mset_map mset_sort sum_mset_sum_list)

lemma weight_sort_keys: "weight (sort_keys v) = weight v"
proof (induction v rule: sort_keys.induct)
  case (1 vs)
  then show ?case by (simp add: o_def cong: map_cong)
next
  case (2 kvs)
  then show ?case by (simp add: sum_list_sort_key o_def cong: map_cong)
qed simp_all

lemma b64_body_length: "length (b64_body p) \<le> 2 * length p"
  by (induction p rule: b64_body.induct) simp_all

lemma signed_text_length:
  assumes "claim_payload k e = Inr p"
  shows "length (signed_text p signature) \<le> 2 * weight (JObj (claim_members k e)) + length signature + 1"
proof -
  have "length p \<le> weight (JObj (claim_members k e))"
    unfolding claim_payload_members [OF assms] json_dumps_def utf8_plain [OF emit_plain(1)]
    using emit_length(1) [of "sort_keys (JObj (claim_members k e))"] by (simp only: weight_sort_keys length_map)
  then show ?thesis
    using b64_body_length [of p] by (simp add: signed_text_def rstrip_encode [OF payload_octets [OF assms]] del: weight.simps)
qed

lemma issued_verifies:
  assumes "\<forall>secret payload. all_lower_hex (ts_hmac svc secret payload)"
    and "issue_claim svc issued k = Inr token" and "length token \<le> 4096" and "claim_digests k"
    and "now \<le> issued + ts_lifetime_seconds svc"
  shows "verify_claim svc now token k = Inr True"
proof -
  from assms(2) obtain p where p: "claim_payload k (issued + ts_lifetime_seconds svc) = Inr p"
    "token = signed_text p (ts_hmac svc (ts_secret svc) p)" by (rule issue_claim_payload)
  obtain decoded where "decode_token token = Some (p, ts_hmac svc (ts_secret svc) p, decoded)"
    "expiry_of decoded = Some (issued + ts_lifetime_seconds svc)"
    using decode_signed_text [OF p(1)] assms(3) p(2) by blast
  moreover have "list_all (\<lambda>c. code c < 128) (ts_hmac svc (ts_secret svc) p)"
    using assms(1) lower_hex_ascii by (auto simp: all_lower_hex_def list_all_iff)
  ultimately show ?thesis
    using assms(4,5) p(1) by (simp add: verify_claim_payload verify_payload_def compare_digest_def)
qed

text \<open>C39. A token is accepted for the claim it was issued for, at any time from its issue to its
  expiry, for each of the four kinds of disruption.\<close>

theorem token_roundtrip:
  assumes "\<forall>secret payload. all_lower_hex (ts_hmac svc secret payload)"
    and "issue_claim svc issued k = Inr token" and "length token \<le> 4096" and "claim_digests k"
    and "now \<le> issued + ts_lifetime_seconds svc"
  shows "verify_claim svc now token k = Inr True"
  using assms by (rule issued_verifies)

definition ex_service :: token_service where
  "ex_service = \<lparr>ts_secret = replicate 32 7, ts_lifetime_seconds = 60, ts_hmac = (\<lambda>secret payload. ''0a'')\<rparr>"

definition ex_move_claim :: move_claim where
  "ex_move_claim = \<lparr>mk_camera_id = 7, mk_source_node_id = 1, mk_target_node_id = 2, mk_desired_revision = 1, mk_disconnect_readers = 1\<rparr>"

lemma ex_digits: "str_int 1 = ''1''" "str_int 160 = ''160''"
  by code_simp+

lemma ex_text_length:
  assumes "length signature \<le> 100"
  shows "length (signed_text (move_payload ex_move_claim 160) signature) \<le> 4096"
proof -
  have uuid: "length (uuid_str u) = 36" for u by (simp add: uuid_str_def Let_def)
  have "claim_payload (Move_Claim ex_move_claim) 160 = Inr (move_payload ex_move_claim 160)" by simp
  from signed_text_length [OF this, of signature] assms show ?thesis
    by (simp add: ex_move_claim_def uuid ex_digits)
qed

lemma ex_token_length: "length (issue_move ex_service 100 ex_move_claim) \<le> 4096"
  using ex_text_length [of "''0a''"] by (simp add: issue_move_def sign_payload_def signed_text_def ex_service_def)

lemma ex_service_hex: "all_lower_hex (ts_hmac ex_service secret payload)"
  by (simp add: ex_service_def all_lower_hex_def lower_hex_chars_def)

theorem token_roundtrip_witness:
  "verify_claim ex_service 150 (issue_move ex_service 100 ex_move_claim) (Move_Claim ex_move_claim) = Inr True"
  by (rule token_roundtrip [where issued = 100]) (simp_all add: ex_token_length ex_service_hex, simp add: ex_service_def)

lemma ex_verifies: "verify_claim ex_service 150 (issue_move ex_service 100 ex_move_claim) (Move_Claim ex_move_claim) = Inr True"
  by (rule issued_verifies [where issued = 100]) (simp_all add: ex_token_length ex_service_hex, simp add: ex_service_def)

lemma claim_exact:
  assumes "issue_claim svc issued k = Inr token" and "verify_claim svc' now token k' = Inr True"
  shows "k' = k \<and> now \<le> issued + ts_lifetime_seconds svc"
proof -
  from assms(1) obtain p where p: "claim_payload k (issued + ts_lifetime_seconds svc) = Inr p"
    "token = signed_text p (ts_hmac svc (ts_secret svc) p)" by (rule issue_claim_payload)
  from assms(2) have "verify_payload svc' now token (claim_payload k') = Inr True"
    by (simp add: verify_claim_payload split: if_splits)
  then obtain p' signature decoded e where v: "decode_token token = Some (p', signature, decoded)"
    "expiry_of decoded = Some e" "now \<le> e" "claim_payload k' e = Inr p'" by (rule verify_payload_true)
  have "length token \<le> 4096" using v(1) by (simp add: decode_token_def split: if_splits)
  then have "p' = p" "e = issued + ts_lifetime_seconds svc" 
    using decode_signed_text [OF p(1), of "ts_hmac svc (ts_secret svc) p"] p(2) v(1,2) by auto
  then show ?thesis using claim_payload_inj [OF v(4)] p(1) v(3) by blast
qed

text \<open>C10. A token is accepted for no other claim than the one it was issued for, of no kind, by
  no service and whatever the HMAC, and never after its expiry.\<close>

theorem token_exact:
  assumes "issue_claim svc issued k = Inr token" and "verify_claim svc' now token k' = Inr True"
  shows "k' = k \<and> now \<le> issued + ts_lifetime_seconds svc"
  using assms by (rule claim_exact)

theorem token_exact_witness:
  "verify_claim ex_service 150 (issue_move ex_service 100 ex_move_claim) (Move_Claim ex_move_claim) = Inr True
   \<and> 150 \<le> 100 + ts_lifetime_seconds ex_service
   \<and> verify_claim ex_service 150 (issue_move ex_service 100 ex_move_claim)
       (Move_Claim (ex_move_claim\<lparr>mk_target_node_id := 3\<rparr>)) \<noteq> Inr True"
proof -
  have issued: "issue_claim ex_service 100 (Move_Claim ex_move_claim) = Inr (issue_move ex_service 100 ex_move_claim)" by simp
  from token_exact [OF issued ex_verifies] token_exact [OF issued] show ?thesis
    using ex_verifies by (fastforce simp: ex_move_claim_def)
qed

text \<open>C40. A token whose payload is right and whose signature holds a character outside ASCII is not refused
  like any other wrong signature: the comparison raises, and with it the verification.\<close>

theorem non_ascii_signature_raises:
  assumes "claim_payload k e = Inr p" and "claim_digests k" and "now \<le> e"
    and "c \<in> set signature" and "128 \<le> code c" and "length (signed_text p signature) \<le> 4096"
  shows "\<exists>reason. verify_claim svc now (signed_text p signature) k = Inl (TypeError reason)"
proof -
  obtain decoded where "decode_token (signed_text p signature) = Some (p, signature, decoded)" "expiry_of decoded = Some e"
    using decode_signed_text [OF assms(1,6)] by blast
  moreover have "\<not> list_all (\<lambda>c. code c < 128) signature" using assms(4,5) by (auto simp: list_all_iff not_less)
  ultimately show ?thesis using assms(1-3) by (simp add: verify_claim_payload verify_payload_def compare_digest_def)
qed

theorem non_ascii_signature_raises_witness:
  "\<exists>reason. verify_claim ex_service 150 (signed_text (move_payload ex_move_claim 160) [CHR 0xE9]) (Move_Claim ex_move_claim)
     = Inl (TypeError reason)"
  by (rule non_ascii_signature_raises [where e = 160 and c = "CHR 0xE9"]) (simp_all add: ex_text_length, simp add: code_def)

end
