(* ===== verification/Mutation_Properties.thy ===== *)
theory Mutation_Properties
  imports Camera_Mutation Token_Properties Media_Examples Port_Change_Control
begin

text \<open>
  The operator's controls over cameras: a move or a mutation that cuts off a reader goes through only with a token
  for exactly that disruption, and only on a camera whose path was seen quiesced.
\<close>

section \<open>Moves\<close>

definition cameras_are :: "camera_placement list \<Rightarrow> 'x world \<Rightarrow> bool" where
  "cameras_are cams w \<longleftrightarrow> st_cameras (w_store w) = cams"

definition cameras_kept :: "'x world \<Rightarrow> 'x world \<Rightarrow> bool" where
  "cameras_kept w w' \<longleftrightarrow> st_cameras (w_store w') = st_cameras (w_store w)"

interpretation cameras: world_relation cameras_kept
  by unfold_locales (auto simp: cameras_kept_def)

lemma observe_cameras: "keeps cameras_kept (observe_node_locked c i)"
  using others.observe_locked [of i c] by (auto simp: keeps_def others_kept_def cameras_kept_def)

lemma refresh_cameras: "keeps cameras_kept (refresh_move_candidates c i f)"
proof -
  have "keeps cameras_kept (refresh_candidate c i f n)" for n
    unfolding refresh_candidate_def get_node_call_def the_clock_def
    by (auto intro!: cameras.handle cameras.guarded cameras.and_then [OF cameras.query]
        cameras.and_then [OF observe_cameras] cameras.ret split: option.split)
  then show ?thesis
    unfolding refresh_move_candidates_def the_clock_def list_nodes_call_def
    by (intro cameras.and_then cameras.raises cameras.query cameras.for_each)
qed

lemma cameras_outward: "outward (cameras_are cams)"
  by (simp add: outward_def cameras_are_def)

lemma maintains_keeps: "keeps cameras_kept m \<Longrightarrow> maintains (cameras_are cams) m (\<lambda>_. True)"
  by (simp add: keeps_def maintains_def cameras_kept_def cameras_are_def)

definition live_in :: "uuid \<Rightarrow> camera_placement list \<Rightarrow> camera_placement option" where
  "live_in i cams = find (\<lambda>c. cp_id c = i \<and> cp_state c \<noteq> CS_DELETED) cams"

lemma maintains_camera_query: "maintains (cameras_are cams) (camera_query i) (\<lambda>cam. live_in i cams = Some cam)"
  unfolding camera_query_def
  by (rule maintains_then [OF maintains_query [where Q = "\<lambda>r. r = live_in i cams"]])
    (auto simp: get_camera_def live_camera_def live_in_def cameras_are_def intro: maintains_fail maintains_ret split: option.split)

lemma maintains_at_revision: "maintains P (at_revision cam r) (\<lambda>_. True)"
  by (auto simp: at_revision_def intro: maintains_ret maintains_weaken [OF maintains_raise] split: option.split)

lemma maintains_any_query: "maintains P (query f) (\<lambda>_. True)"
  by (rule maintains_query) simp

lemma maintains_client: "outward P \<Longrightarrow> maintains P (node_client c i) (\<lambda>_. True)"
  unfolding node_client_def
  by (rule maintains_then [OF maintains_any_query]) (auto intro: maintains_outside maintains_fail split: option.split)

lemma maintains_status: "outward P \<Longrightarrow> maintains P (camera_status c cam) (\<lambda>_. True)"
  unfolding camera_status_def by (rule maintains_then [OF maintains_client maintains_outside])

lemma maintains_observe:
  "maintains (cameras_are cams) (observe c i) (\<lambda>ob. \<not> co_occupied ob \<or> co_reader_count ob = 1)"
  unfolding observe_def
  by (intro maintains_then [OF maintains_camera_query] maintains_then [OF maintains_status [OF cameras_outward]])
    (auto intro!: maintains_ret split: prod.split option.split)

text \<open>What a preview says is what the cameras say.\<close>

definition preview_of :: "uuid \<Rightarrow> uuid \<Rightarrow> camera_placement list \<Rightarrow> camera_move_preview \<Rightarrow> bool" where
  "preview_of i t cams p \<longleftrightarrow> (\<exists>cam. live_in i cams = Some cam
     \<and> preview_claim p = move_claim_of cam t (vp_disconnect_readers p)
     \<and> (\<not> vp_occupied p \<longrightarrow> vp_disconnect_readers p = 0))"

lemma maintains_preview:
  assumes "oc_node_refresher c = map_option refresh_move_candidates nc"
  shows "maintains (cameras_are cams) (move_preview c i t r) (preview_of i t cams)"
proof -
  have camera: "maintains (cameras_are cams) (move_camera i r) (\<lambda>cam. live_in i cams = Some cam)"
    unfolding move_camera_def
    by (rule maintains_then [OF maintains_camera_query], rule maintains_then [OF maintains_at_revision],
        rule maintains_then [OF maintains_raise], rule maintains_ret)
  have refresh: "maintains (cameras_are cams) (refresh_targets c cam) (\<lambda>_. True)" for cam
    using assms by (auto simp: refresh_targets_def intro: maintains_ret maintains_keeps [OF refresh_cameras] split: option.split)
  have list: "maintains (cameras_are cams) (move_targets_query c i) (\<lambda>_. True)"
    unfolding move_targets_query_def by (rule maintains_any_query)
  show ?thesis
    unfolding move_preview_def Let_def
    by (intro maintains_then [OF camera] maintains_then [OF refresh] maintains_then [OF list] maintains_then [OF maintains_any_query])
      (auto split: option.split intro!: maintains_fail maintains_then [OF maintains_raise] maintains_then [OF maintains_observe]
        maintains_then [OF maintains_any_query] maintains_ret simp: preview_of_def preview_claim_def move_claim_of_def)
qed

lemma token_check_result:
  assumes "move_token_check c p force tok w = (Inr u, w')"
  shows "w' = w \<and> (tok = None \<longrightarrow> \<not> vp_occupied p)
    \<and> (\<forall>token. tok = Some token \<longrightarrow> force \<and> verify_move (oc_confirmations c) (oc_wall_time c (w_ext w)) token (preview_claim p) = Inr True)"
  using assms by (auto simp: move_token_check_def action_defs query_def split: option.splits if_splits sum.splits)

lemma created_move:
  assumes "create_camera_move env mid i t r force k timeout f s = Inr (m, s')"
  shows "\<exists>cam. find_camera i s = Some cam \<and> mv_camera_id m = cp_id cam \<and> mv_source_node_id m = cp_node_id cam
    \<and> mv_target_node_id m = t \<and> mv_desired_revision m = cp_desired_revision cam + 1 \<and> cp_desired_revision cam = r
    \<and> mv_force m = force \<and> mv_confirmed_disconnect_readers m = k"
  using assms find_node_key
  by (auto simp: create_camera_move_def checked_def new_camera_move_def split: option.splits if_splits sum.splits)

definition claim_of_move :: "camera_move \<Rightarrow> move_claim" where
  "claim_of_move m = \<lparr>mk_camera_id = mv_camera_id m, mk_source_node_id = mv_source_node_id m,
     mk_target_node_id = mv_target_node_id m, mk_desired_revision = mv_desired_revision m - 1,
     mk_disconnect_readers = mv_confirmed_disconnect_readers m\<rparr>"

lemma live_found:
  assumes "distinct (map cp_id (st_cameras s))" and "live_in i (st_cameras s) = Some cam" and "find_camera i s = Some cam'"
  shows "cam' = cam"
proof -
  have "cam \<in> set (st_cameras s)" "cp_id cam = i" using assms(2) by (auto simp: live_in_def find_Some_iff)
  then have "find_camera i s = Some cam" using find_by_distinct [of cp_id "st_cameras s" cam] assms(1) by simp
  with assms(3) show ?thesis by simp
qed

text \<open>C12. A move that was requested without a token disconnects nobody; one that was requested with a token is
  forced, and a token issued by any service for any claim got it through only if it was issued for this very move:
  the camera, its source and target, its revision and the readers it disconnects.\<close>

theorem requested_move_confirmed:
  assumes "reachable (w_store w)" and "oc_node_refresher c = map_option refresh_move_candidates nc"
    and "request_move c i t r force tok w = (Inr m, w')"
  shows "(tok = None \<longrightarrow> mv_confirmed_disconnect_readers m = 0)
    \<and> (\<forall>token. tok = Some token \<longrightarrow> mv_force m
        \<and> (\<forall>svc issued k. issue_claim svc issued k = Inr token \<longrightarrow> k = Move_Claim (claim_of_move m)))"
proof -
  let ?cams = "st_cameras (w_store w)"
  from assms(3) obtain p w1 w2 mid w3 where pv: "move_preview c i t r w = (Inr p, w1)"
    and check: "move_token_check c p force tok w1 = (Inr (), w2)"
    and mid: "external (\<lambda>x. apfst Inr (oc_new_move_id c x)) w2 = (Inr mid, w3)"
    and create: "call (\<lambda>x. create_camera_move (oc_env c x) mid i t (vp_desired_revision p) force (vp_disconnect_readers p)
        (oc_move_timeout_seconds c) (oc_management_freshness_seconds c)) w3 = (Inr m, w')"
    unfolding request_move_def
    by (elim and_then_InrE) (auto simp: raise_if_def ret_def fail_def split: if_splits)
  note run = maintains_preview [OF assms(2), of ?cams i t r]
  have start: "cameras_are ?cams w" by (simp add: cameras_are_def)
  have p: "preview_of i t ?cams p" using maintains_result [OF run start pv] .
  have w1: "st_cameras (w_store w1) = ?cams" using maintainsD [OF run start] pv by (simp add: cameras_are_def)
  note tc = token_check_result [OF check]
  have w3: "st_cameras (w_store w3) = ?cams" using mid w1 tc by (auto simp: external_def split: prod.splits)
  from create obtain cam where cam: "find_camera i (w_store w3) = Some cam" "claim_of_move m = move_claim_of cam t (vp_disconnect_readers p)"
      "mv_force m = force" "mv_confirmed_disconnect_readers m = vp_disconnect_readers p"
    by (auto simp: call_def claim_of_move_def move_claim_of_def dest!: created_move split: sum.splits)
  from p obtain cam' where cam': "live_in i ?cams = Some cam'" "preview_claim p = move_claim_of cam' t (vp_disconnect_readers p)"
      "\<not> vp_occupied p \<longrightarrow> vp_disconnect_readers p = 0"
    by (auto simp: preview_of_def)
  have "distinct (map cp_id (st_cameras (w_store w3)))"
    using store_invD(1) [OF store_machine.always [OF assms(1)]] by (simp add: w3 ids_ok_def)
  then have "cam = cam'" using live_found [of "w_store w3" i cam' cam] cam(1) cam'(1) by (simp add: w3)
  then have claim: "claim_of_move m = preview_claim p" using cam(2) cam'(2) by simp
  have "k = Move_Claim (claim_of_move m)" if "tok = Some token" "issue_claim svc issued k = Inr token" for token svc issued k
    using claim_exact [OF that(2), of "oc_confirmations c" _ "Move_Claim (claim_of_move m)"] tc that(1) claim by auto
  with tc cam(3,4) cam'(3) show ?thesis by auto
qed

section \<open>Mutations\<close>

definition control_never_shows :: "'x operator_control \<Rightarrow> uuid \<Rightarrow> media_path_config \<Rightarrow> bool" where
  "control_never_shows c i p \<longleftrightarrow> (\<forall>n x cl. nd_id n = i \<longrightarrow> fst (oc_for_node c n x) = Inr cl \<longrightarrow> never_shows cl p)"

definition store_is :: "node_store \<Rightarrow> 'x world \<Rightarrow> bool" where
  "store_is s w \<longleftrightarrow> w_store w = s"

lemma store_outward: "outward (store_is s)"
  by (simp add: outward_def store_is_def)

lemma store_camera_query: "maintains (store_is s) (camera_query i) (\<lambda>cam. get_camera i s = Some cam)"
  unfolding camera_query_def
  by (rule maintains_then [OF maintains_query [where Q = "\<lambda>r. r = get_camera i s"]])
    (auto simp: store_is_def intro: maintains_fail maintains_ret split: option.split)

lemma store_mutation_camera: "maintains (store_is s) (mutation_camera i r) (\<lambda>cam. get_camera i s = Some cam)"
  unfolding mutation_camera_def
  by (rule maintains_then [OF store_camera_query], rule maintains_then [OF maintains_at_revision], rule maintains_ret)

lemma unseen_node_client:
  assumes "control_never_shows c i p"
  shows "maintains (store_is s) (node_client c i) (\<lambda>cl. never_shows cl p)"
proof -
  have found: "maintains (store_is s) (query (\<lambda>x s. Inr (get_node i s))) (\<lambda>r. \<forall>n. r = Some n \<longrightarrow> nd_id n = i)"
    by (rule maintains_query) (auto simp: get_node_def find_node_key)
  have "maintains (store_is s) (external (oc_for_node c n)) (\<lambda>cl. never_shows cl p)" if "nd_id n = i" for n
    by (rule maintains_external) (use assms that in \<open>auto simp: store_is_def control_never_shows_def\<close>)
  then show ?thesis
    unfolding node_client_def by (intro maintains_then [OF found]) (auto intro: maintains_fail split: option.split)
qed

lemma unseen_fence:
  assumes "get_camera (cp_id cam) s = Some cam"
    and never: "control_never_shows c (cp_node_id cam) (quiesced_path (cp_public_id cam) (cp_source_url cam))"
  shows "maintains (store_is s) (fence c cam operation name url tok body) (\<lambda>_. False)"
proof -
  let ?p = "quiesced_path (cp_public_id cam) (cp_source_url cam)"
  have name: "mp_name ?p = cp_public_id cam" by (simp add: quiesced_path_def)
  have get: "never_shows cl ?p \<Longrightarrow> maintains (store_is s) (get_path cl (cp_public_id cam)) (\<lambda>r. r \<noteq> Some ?p)" for cl
    using unseen_get [OF store_outward, of cl ?p, unfolded name] .
  have camera: "maintains (store_is s) (mutation_camera (cp_id cam) None) (\<lambda>current. current = cam)"
    by (rule maintains_weaken [OF store_mutation_camera]) (simp add: assms(1))
  have late: "maintains (store_is s) (and_then (put_path cl ?p) (\<lambda>_. and_then (get_path cl (cp_public_id cam)) (\<lambda>path.
      and_then (raise_if (path \<noteq> Some ?p) e) f))) (\<lambda>_. False)" if "never_shows cl ?p" for cl e f
    by (rule maintains_then [OF outward_steps(3) [OF store_outward]], rule maintains_then [OF get [OF that]],
        rule maintains_then [OF maintains_raise]) simp
  show ?thesis
    unfolding fence_def Let_def mutation_sha256_def
    by (rule maintains_then [OF maintains_any_query], rule maintains_guarded, rule maintains_then [OF camera],
        rule maintains_then [OF maintains_raise], simp only:, rule maintains_then [OF unseen_node_client [OF never]], rule late)
qed

lemma blocked: "maintains (store_is (w_store w)) m (\<lambda>_. False) \<Longrightarrow> w_store (snd (m w)) = w_store w \<and> isl (fst (m w))"
  by (cases "fst (m w)") (auto simp: maintains_def store_is_def)

lemma get_camera_key: "get_camera i s = Some cam \<Longrightarrow> cp_id cam = i"
  by (auto simp: get_camera_def live_camera_def find_Some_iff)

lemma maintains_from_sum: "maintains P (from_sum r) (\<lambda>a. r = Inr a)"
  by (cases r) (simp_all add: from_sum_def maintains_fail maintains_ret)

lemma maintains_admit: "outward P \<Longrightarrow> maintains P (mutation_admit c url) (\<lambda>_. True)"
  by (auto simp: mutation_admit_def intro!: maintains_ret maintains_handle maintains_then [OF maintains_outside] maintains_fail
      split: option.split)

text \<open>C13. While no client of a camera's node shows the quiesced path, the camera cannot be deleted, disabled, or given
  another source: the operation raises and the store is as it was, whatever token is presented.\<close>

theorem unquiesced_not_mutated:
  assumes cam: "get_camera i (w_store w) = Some cam"
    and never: "control_never_shows c (cp_node_id cam) (quiesced_path (cp_public_id cam) (cp_source_url cam))"
  shows "(\<lambda>m. w_store (snd m) = w_store w \<and> isl (fst m)) (mutation_delete c i r tok w)
    \<and> (cp_state cam \<noteq> CS_DISABLED \<longrightarrow> (\<lambda>m. w_store (snd m) = w_store w \<and> isl (fst m)) (mutation_disable c i r tok w))
    \<and> (effective_source_url cam url cr \<noteq> Inr (cp_source_url cam) \<or> tok \<noteq> None \<longrightarrow>
        (\<lambda>m. w_store (snd m) = w_store w \<and> isl (fst m)) (mutation_update c i name url cr r tok w))"
proof -
  let ?P = "store_is (w_store w)"
  have fenced: "maintains ?P (fence c cam operation nm u tok body) (\<lambda>_. False)" for operation nm u body
    using unseen_fence [OF _ never] cam get_camera_key [OF cam] by simp
  have camera: "maintains ?P (mutation_camera i r) (\<lambda>x. x = cam)"
    by (rule maintains_weaken [OF store_mutation_camera]) (simp add: cam)
  have "maintains ?P (mutation_delete c i r tok) (\<lambda>_. False)"
    unfolding mutation_delete_def by (rule maintains_then [OF camera]) (simp add: fenced)
  moreover have "maintains ?P (mutation_disable c i r tok) (\<lambda>_. False)" if "cp_state cam \<noteq> CS_DISABLED"
    unfolding mutation_disable_def by (rule maintains_then [OF camera]) (simp add: fenced that)
  moreover have "maintains ?P (mutation_update c i name url cr r tok) (\<lambda>_. False)"
    if changed: "effective_source_url cam url cr \<noteq> Inr (cp_source_url cam) \<or> tok \<noteq> None"
  proof -
    have admitted: "maintains ?P (if b then mutation_admit c u else ret None) (\<lambda>_. True)" for b u
      by (simp add: maintains_admit store_outward maintains_ret)
    show ?thesis
      unfolding mutation_update_def Let_def
      by (rule maintains_then [OF maintains_from_sum], rule maintains_then [OF camera], simp only:,
          rule maintains_then [OF maintains_from_sum], rule maintains_then [OF admitted]) (use changed fenced in auto)
  qed
  ultimately show ?thesis by (simp add: blocked)
qed

section \<open>Over media nodes that work\<close>

definition operator_works :: "'x operator_control \<Rightarrow> 'x media_world \<Rightarrow> bool" where
  "operator_works c mw \<longleftrightarrow>
     (\<forall>n. same_paths mw (oc_for_node c n) (\<lambda>x. Inr (mw_client mw n)) \<and> client_works mw (nd_id n) (mw_client mw n))"

text \<open>The confirmation of a mutation is refused: a reader is there and no token, or a token that does not verify.\<close>

definition confirmation_refused ::
  "'x operator_control \<Rightarrow> (nat list \<Rightarrow> string) \<Rightarrow> camera_placement \<Rightarrow> camera_mutation_operation \<Rightarrow> string option \<Rightarrow> string option
   \<Rightarrow> int \<Rightarrow> string option \<Rightarrow> bool" where
  "confirmation_refused c sha cam operation name url readers tok \<longleftrightarrow>
     (case tok of
        None \<Rightarrow> readers = 1
      | Some token \<Rightarrow> \<forall>x. verify_camera_mutation (oc_confirmations c) (oc_wall_time c x) token
                         (mutation_claim_of cam operation 1 (sha (mutation_payload operation name url))) = Inr False)"

lemma gives_node_client:
  assumes "operator_works c mw" and "find_node i s = Some n"
  shows "media_gives mw (node_client c i) s v (Inr (mw_client mw n)) s v" "client_works mw i (mw_client mw n)"
proof -
  have "nd_id n = i" using find_node_key [OF assms(2)] .
  then show "client_works mw i (mw_client mw n)" using assms(1) unfolding operator_works_def by blast
  have "media_gives mw (external (oc_for_node c n)) s v (Inr (mw_client mw n)) s v"
    by (rule same_paths_gives) (use assms(1) in \<open>simp add: operator_works_def\<close>)
  then show "media_gives mw (node_client c i) s v (Inr (mw_client mw n)) s v"
    unfolding node_client_def
    by (intro gives_then [OF gives_query [where r = "Inr (Some n)"]]) (simp_all add: get_node_def assms(2))
qed

lemma gives_mutation_camera:
  "get_camera i s = Some cam \<Longrightarrow> media_gives mw (mutation_camera i None) s v (Inr cam) s v"
  unfolding mutation_camera_def camera_query_def
  by (rule gives_then [OF gives_then [OF gives_query [where r = "Inr (Some cam)"]]])
    (auto simp: at_revision_def intro: gives_ret gives_then [OF gives_ret])

lemma gives_token_check:
  assumes "confirmation_refused c sha cam operation name url readers tok"
  shows "media_gives mw (mutation_token_check c cam operation (sha (mutation_payload operation name url)) tok) s v (Inr (tok \<noteq> None)) s v"
  using assms
  by (auto simp: mutation_token_check_def confirmation_refused_def gives_ret split: option.splits
      intro!: gives_then [OF gives_query [where r = "Inr False"]])

lemma gives_fence_rejected:
  assumes works: "operator_works c mw" and cam: "get_camera (cp_id cam) s = Some cam"
    and n: "find_node (cp_node_id cam) s = Some n" "lifecycle_guard (cp_node_id cam) s = None"
    and sha: "\<And>x. env_sha256 (oc_env c x) = sha"
    and readers: "mw_readers mw (cp_node_id cam) (cp_public_id cam) \<le> 1"
    and refused: "confirmation_refused c sha cam operation name url (mw_readers mw (cp_node_id cam) (cp_public_id cam)) tok"
  shows "media_gives mw (fence c cam operation name url tok body) s v
    (Inl (CameraDisruptionConfirmationRequired ''camera_disruption_confirmation_required'')) s
    (set_path (cp_node_id cam) (cp_public_id cam) (Some (served_path (cp_public_id cam) (cp_source_url cam))) v)"
proof -
  let ?i = "cp_node_id cam" and ?n = "cp_public_id cam" and ?u = "cp_source_url cam"
  let ?q = "quiesced_path ?n ?u" and ?p = "served_path ?n ?u"
  let ?v = "v(?i := (v ?i)(?n \<mapsto> ?q))"
  note cl = gives_node_client(2) [OF works n(1)]
  have names: "mp_name ?q = ?n" "mp_name ?p = ?n" by (simp_all add: quiesced_path_def served_path_def)
  have digest: "media_gives mw (mutation_sha256 c operation name url) s v (Inr (sha (mutation_payload operation name url))) s v" for v
    unfolding mutation_sha256_def by (rule gives_query) (simp add: sha)
  have put: "media_gives mw (put_path (mw_client mw n) ?q) s v (Inr ()) s ?v"
    using gives_put [OF cl, of ?q s v] by (simp add: names)
  have get: "media_gives mw (get_path (mw_client mw n) ?n) s ?v (Inr (Some ?q)) s ?v"
    using gives_get [OF cl, of ?n s ?v] by simp
  have final: "?v(?i := (?v ?i)(?n \<mapsto> ?p)) = set_path ?i ?n (Some ?p) v" by (auto simp: set_path_def fun_eq_iff)
  have restore: "media_gives mw (put_path (mw_client mw n) ?p) s ?v (Inr ()) s (set_path ?i ?n (Some ?p) v)"
    using gives_put [OF cl, of ?p s ?v] by (simp only: names final)
  have refuse: "(tok \<noteq> None) \<or> (mw_readers mw ?i ?n = 1 \<and> tok = None)"
    using refused by (auto simp: confirmation_refused_def split: option.splits)
  show ?thesis
    unfolding fence_def Let_def
    by (rule gives_then [OF digest], rule gives_guarded [OF n(2)], rule gives_then [OF gives_mutation_camera [OF cam]],
        rule gives_then [OF gives_passes], simp, rule gives_then [OF gives_node_client(1) [OF works n(1)]],
        rule gives_then [OF put], rule gives_then [OF get], rule gives_then [OF gives_passes], simp,
        rule gives_then [OF gives_status [OF cl]], rule gives_then [OF gives_passes], use readers in simp,
        rule gives_then [OF gives_token_check [OF refused]])
      (use refuse in \<open>simp add: gives_then [OF restore] gives_fail\<close>)
qed

text \<open>C38. A deletion whose confirmation is refused changes nothing in the store and leaves the node serving the camera to
  one reader. The camera may be disabled: then its path, which the reconciler had removed, is served again until the
  next reconciliation.\<close>

theorem refused_delete_serves:
  assumes "operator_works c mw" and "reachable (w_store w)" and "get_camera i (w_store w) = Some cam"
    and "\<forall>x. env_sha256 (oc_env c x) = sha" and "mw_readers mw (cp_node_id cam) (cp_public_id cam) \<le> 1"
    and "confirmation_refused c sha cam CMO_DELETE None None (mw_readers mw (cp_node_id cam) (cp_public_id cam)) tok"
  shows "\<exists>w'. mutation_delete c i None tok w =
      (Inl (CameraDisruptionConfirmationRequired ''camera_disruption_confirmation_required''), w')
    \<and> w_store w' = w_store w
    \<and> mw_paths mw (w_ext w') = set_path (cp_node_id cam) (cp_public_id cam)
        (Some (served_path (cp_public_id cam) (cp_source_url cam))) (mw_paths mw (w_ext w))"
proof -
  note inv = store_machine.always [OF assms(2)]
  have i: "cp_id cam = i" using get_camera_key [OF assms(3)] .
  have "cam \<in> set (st_cameras (w_store w))" "cp_state cam \<noteq> CS_DELETED"
    using assms(3) by (auto simp: get_camera_def live_camera_def find_Some_iff)
  then obtain n where n: "find_node (cp_node_id cam) (w_store w) = Some n"
    using inv_placement_ok [OF inv] by (auto simp: placement_ok_def port_of_def)
  moreover have "lifecycle_guard (cp_node_id cam) (w_store w) = None"
    using find_by_SomeD [OF n] store_invD(2) [OF inv] by (simp add: locks_ok_def lifecycle_guard_def) (metis imageI)
  ultimately have "media_gives mw (fence c cam CMO_DELETE None None tok body) (w_store w) (mw_paths mw (w_ext w))
      (Inl (CameraDisruptionConfirmationRequired ''camera_disruption_confirmation_required'')) (w_store w)
      (set_path (cp_node_id cam) (cp_public_id cam) (Some (served_path (cp_public_id cam) (cp_source_url cam))) (mw_paths mw (w_ext w)))"
    for body :: "('a, camera_placement) action"
    using assms(3-6) i by (intro gives_fence_rejected [OF assms(1)]) auto
  then have "media_gives mw (mutation_delete c i None tok) (w_store w) (mw_paths mw (w_ext w))
      (Inl (CameraDisruptionConfirmationRequired ''camera_disruption_confirmation_required'')) (w_store w)
      (set_path (cp_node_id cam) (cp_public_id cam) (Some (served_path (cp_public_id cam) (cp_source_url cam))) (mw_paths mw (w_ext w)))"
    unfolding mutation_delete_def by (intro gives_then [OF gives_mutation_camera [OF assms(3)]])
  from this refl refl show ?thesis by (rule givesD) blast
qed

section \<open>Examples\<close>

definition ex_operator :: "ex_paths operator_control" where
  "ex_operator = \<lparr>oc_for_node = (\<lambda>n x. (Inr (mw_client ex_media_world n), x)), oc_confirmations = ex_service,
     oc_wall_time = (\<lambda>x. 100), oc_new_move_id = (\<lambda>x. (9, x)), oc_move_timeout_seconds = 60,
     oc_management_freshness_seconds = 30, oc_node_refresher = None, oc_probe_endpoint_admission = None,
     oc_env = (\<lambda>x. ex_env)\<rparr>"

lemma ex_operator_works: "operator_works ex_operator ex_media_world"
  using ex_media_works by (auto simp: operator_works_def media_works_def ex_operator_def ex_reconciler_def)

definition ex_forgetful_operator :: "ex_paths operator_control" where
  "ex_forgetful_operator = ex_operator\<lparr>oc_for_node := (\<lambda>n x. (Inr ((mw_client ex_media_world n)\<lparr>
     mc_get_path := (\<lambda>name x. (Inr None, x))\<rparr>), x))\<rparr>"

lemma ex_get_camera: "get_camera 7 ex_placed = Some ex_camera"
  by (simp add: get_camera_def live_camera_def ex_placed_eq ex_store_def init_store_def ex_camera_fields)

theorem unquiesced_not_mutated_witness:
  "w_store (snd (mutation_delete ex_forgetful_operator 7 None None (ex_media ex_placed))) = ex_placed"
  using unquiesced_not_mutated [of 7 "ex_media ex_placed" ex_camera ex_forgetful_operator None None]
  by (auto simp: ex_get_camera control_never_shows_def never_shows_def ex_forgetful_operator_def)

text \<open>The camera of the example after it was disabled; the token is one that no service issued.\<close>

definition ex_disabled :: node_store where
  "ex_disabled = run_ops [EnableCamera 7 False None] ex_placed"

definition ex_disabled_camera :: camera_placement where
  "ex_disabled_camera = ex_camera\<lparr>cp_state := CS_DISABLED, cp_desired_revision := 2\<rparr>"

lemma ex_disabled_eq: "ex_disabled = ex_placed\<lparr>st_cameras := [ex_disabled_camera]\<rparr>"
  by (simp add: ex_disabled_def ex_placed_eq ex_store_def init_store_def set_camera_enabled_def put_camera_def
      require_no_active_camera_move_def revision_mismatch_def ex_disabled_camera_def ex_values ex_rules)

lemma ex_disabled_reachable: "reachable ex_disabled"
  unfolding ex_disabled_def by (rule run_ops_reachable [OF ex_placed_reachable]) (simp add: op_fresh_def)

theorem refused_delete_serves_witness:
  "\<exists>w'. mutation_delete ex_operator 7 None (Some ''x'') (ex_media ex_disabled) =
      (Inl (CameraDisruptionConfirmationRequired ''camera_disruption_confirmation_required''), w')
    \<and> w_store w' = ex_disabled
    \<and> mw_paths ex_media_world (w_ext w') = set_path 1 ''cam'' (Some (served_path ''cam'' ''rtsp://10.0.0.9/live''))
        (mw_paths ex_media_world (\<lambda>i. []))"
proof -
  have "partition_char CHR ''.'' ''x'' = (''x'', False, [])" by simp
  then have unverified: "verify_camera_mutation svc now ''x'' k = Inr False" for svc now k
    by (simp add: verify_camera_mutation_def verify_payload_def decode_token_def)
  have fields: "cp_node_id ex_disabled_camera = 1" "cp_public_id ex_disabled_camera = ''cam''"
    "cp_source_url ex_disabled_camera = ''rtsp://10.0.0.9/live''" "cp_id ex_disabled_camera = 7" "cp_state ex_disabled_camera = CS_DISABLED"
    by (simp_all add: ex_disabled_camera_def ex_values)
  have "get_camera 7 ex_disabled = Some ex_disabled_camera"
    by (simp add: get_camera_def live_camera_def ex_disabled_eq fields)
  moreover have "env_sha256 (oc_env ex_operator x) = (\<lambda>b. ex_digest)" for x
    by (simp add: ex_operator_def fun_eq_iff)
  moreover have "mw_readers ex_media_world i n = 0" for i n by (simp add: ex_media_world_def)
  ultimately show ?thesis
    using refused_delete_serves [of ex_operator ex_media_world "ex_media ex_disabled" 7 ex_disabled_camera "\<lambda>b. ex_digest" "Some ''x''"]
      ex_operator_works ex_disabled_reachable
    by (simp add: confirmation_refused_def fields unverified)
qed

lemma ex_targets: "list_camera_move_targets ex_env 7 30 ex_placed = Inr [ex_node 2 8555]"
  by (simp add: list_camera_move_targets_def ex_placed_eq ex_store_def init_store_def ex_values ex_rules)

lemma ex_target_nodes: "get_node 2 ex_placed = Some (ex_node 2 8555)" "get_node 1 ex_placed = Some (ex_count 1 (ex_node 1 8554))"
  by (simp_all add: get_node_def ex_placed_eq ex_store_def init_store_def ex_values)

lemma ex_requested:
  "\<exists>m w'. request_move ex_operator 7 2 None False None (ex_media ex_placed) = (Inr m, w')"
proof -
  have "\<exists>m s'. create_camera_move ex_env 9 7 2 1 False 0 60 30 ex_placed = Inr (m, s')"
    by (simp add: ex_placed_eq ex_store_def init_store_def create_camera_move_def ex_values ex_rules)
  then obtain m s' where create: "create_camera_move ex_env 9 7 2 1 False 0 60 30 ex_placed = Inr (m, s')" by blast
  have camera: "cp_desired_revision ex_camera = 1" "cp_node_id ex_camera = 1" "cp_node_port ex_camera = 8554"
    by (simp_all add: ex_values)
  have node: "nd_id (ex_node 2 8555) = 2" "nd_registered_cameras (ex_node 2 8555) < nd_camera_capacity (ex_node 2 8555)"
    by (simp_all add: ex_values)
  show ?thesis
    using create node
    by (simp add: request_move_def move_preview_def move_camera_def camera_query_def at_revision_def refresh_targets_def
        move_targets_query_def observe_def camera_status_def node_client_def move_token_check_def Let_def
        and_then_def query_def external_def ret_def raise_if_def call_def ex_operator_def ex_media_def ex_media_world_def
        ex_get_camera ex_targets ex_target_nodes ex_camera_fields camera)
qed

theorem requested_move_confirmed_witness:
  "\<exists>m w'. request_move ex_operator 7 2 None False None (ex_media ex_placed) = (Inr m, w') \<and> mv_confirmed_disconnect_readers m = 0"
proof -
  obtain m w' where run: "request_move ex_operator 7 2 None False None (ex_media ex_placed) = (Inr m, w')"
    using ex_requested by blast
  have "reachable (w_store (ex_media ex_placed))" "oc_node_refresher ex_operator = map_option refresh_move_candidates None"
    using ex_placed_reachable by (simp_all add: ex_operator_def)
  from requested_move_confirmed [OF this run] run show ?thesis by blast
qed

end
