(* ===== verification/Store_Typing.thy ===== *)
theory Store_Typing
  imports Store_Examples Control_Relations
begin

text \<open>
  The records of the store are well-formed: no operation stores a camera with a name or a source URL that the
  validators refuse, or a move that its constructor refuses.
\<close>

definition camera_typed :: "camera_placement \<Rightarrow> bool" where
  "camera_typed cam \<longleftrightarrow> validate_camera_name (cp_name cam) = Inr (cp_name cam)
     \<and> validate_camera_source_url (cp_source_url cam) True = Inr (cp_source_url cam)"

definition store_typed :: "node_store \<Rightarrow> bool" where
  "store_typed s \<longleftrightarrow> list_all camera_typed (st_cameras s) \<and> list_all (\<lambda>m. camera_move_post_init m = None) (st_camera_moves s)"

lemma validated_name: "validate_camera_name n = Inr n' \<Longrightarrow> validate_camera_name n' = Inr n'"
  by (simp add: validate_camera_name_def split: if_splits)

lemma validated_url: "validate_camera_source_url u b = Inr u' \<Longrightarrow> validate_camera_source_url u' b = Inr u'"
proof -
  assume u: "validate_camera_source_url u b = Inr u'"
  then have "u' = u" by (auto simp: validate_camera_source_url_def split: if_splits option.splits)
  with u show ?thesis by simp
qed

lemma camera_typed_cong:
  "cp_name cam' = cp_name cam \<Longrightarrow> cp_source_url cam' = cp_source_url cam \<Longrightarrow> camera_typed cam' = camera_typed cam"
  by (simp add: camera_typed_def)

lemma list_all_replace_first: "list_all P xs \<Longrightarrow> P new \<Longrightarrow> list_all P (replace_first old new xs)"
  using set_replace_first_subset [of old new xs] by (auto simp: list_all_iff)

lemma found_camera_typed: "store_typed s \<Longrightarrow> find_camera i s = Some cam \<Longrightarrow> camera_typed cam"
  by (auto simp: store_typed_def list_all_iff dest: find_by_SomeD)

lemma found_move_typed: "store_typed s \<Longrightarrow> find_move i s = Some m \<Longrightarrow> camera_move_post_init m = None"
  by (auto simp: store_typed_def list_all_iff dest: find_by_SomeD)

lemma move_typed_phase:
  assumes "camera_move_post_init m = None" and "\<not> camera_move_is_terminal (mv_state m)"
  shows "camera_move_post_init (m\<lparr>mv_state := st\<rparr>) = None"
    "camera_move_post_init (m\<lparr>mv_state := st, mv_abort_reason := r\<rparr>) = None"
  using assms by (auto simp: camera_move_post_init_def split: if_splits)

lemma typed_same: "st_cameras s' = st_cameras s \<Longrightarrow> st_camera_moves s' = st_camera_moves s \<Longrightarrow> store_typed s' = store_typed s"
  by (simp add: store_typed_def)

lemma typed_put_camera:
  "store_typed s \<Longrightarrow> camera_typed new \<Longrightarrow> st_cameras s' = replace_first old new (st_cameras s) \<Longrightarrow>
   st_camera_moves s' = st_camera_moves s \<Longrightarrow> store_typed s'"
  by (simp add: store_typed_def list_all_replace_first)

lemma typed_put_move:
  "store_typed s \<Longrightarrow> camera_move_post_init new = None \<Longrightarrow> st_camera_moves s' = replace_first old new (st_camera_moves s) \<Longrightarrow>
   list_all camera_typed (st_cameras s') \<Longrightarrow> store_typed s'"
  by (simp add: store_typed_def list_all_replace_first)

lemma place_automatically_typed:
  "store_typed s \<Longrightarrow> place_camera_automatically env rq s = Inr (c, s') \<Longrightarrow> store_typed s'"
  by (auto simp: place_camera_automatically_def place_on_def store_typed_def camera_typed_def new_camera_placement_def Let_def
      dest: validated_name validated_url split: sum.splits list.splits)

lemma place_manually_typed:
  "store_typed s \<Longrightarrow> place_camera_manually env rq i s = Inr (c, s') \<Longrightarrow> store_typed s'"
  by (auto simp: place_camera_manually_def place_on_def store_typed_def camera_typed_def new_camera_placement_def Let_def
      dest: validated_name validated_url split: sum.splits option.splits if_splits)

lemma place_idempotently_typed:
  assumes "store_typed s" and "place_camera_idempotently env rq i idem s = Inr (c, s')"
  shows "store_typed s'"
  using assms
  by (auto simp: place_camera_idempotently_def dest!: place_automatically_typed [rotated] place_manually_typed [rotated]
      split: option.splits sum.splits) (simp_all add: store_typed_def)

lemma update_camera_typed:
  assumes "store_typed s" and "update_camera env i n u r p s = Inr (c, s')"
  shows "store_typed s'"
proof -
  have "s' = s \<or> (\<exists>cam. s' = put_camera cam c s \<and> validate_camera_name n = Inr (cp_name c)
      \<and> validate_camera_source_url u True = Inr (cp_source_url c))"
    using assms(2) by (auto simp: update_camera_def Let_def split: sum.splits option.splits if_splits)
  then show ?thesis
    using assms(1) validated_name validated_url
    by (auto simp: put_camera_def camera_typed_def intro!: typed_put_camera [OF assms(1), of c])
qed

lemma camera_command_typed:
  assumes "store_typed s"
  shows "set_camera_enabled i b r s = Inr (c, s') \<Longrightarrow> store_typed s'"
    "request_camera_delete i r s = Inr (c, s') \<Longrightarrow> store_typed s'"
    "mark_camera_applied i j g k s = Inr (ok, s') \<Longrightarrow> store_typed s'"
  using assms found_camera_typed [OF assms]
  by (auto simp: set_camera_enabled_def request_camera_delete_def mark_camera_applied_def put_camera_def Let_def
      store_typed_def camera_typed_def intro!: list_all_replace_first split: option.splits if_splits)

lemma create_move_typed:
  assumes "store_typed s" and "create_camera_move env m i t r force k timeout f s = Inr (mv, s')"
  shows "store_typed s'"
  using assms found_camera_typed [OF assms(1)]
  by (auto simp: create_camera_move_def checked_def store_typed_def camera_typed_def list_all_replace_first
      split: option.splits if_splits sum.splits)

lemma move_command_typed:
  assumes "store_typed s"
  shows "switch_camera_move env i b s = Inr (m, s') \<Longrightarrow> store_typed s'"
    "mark_camera_move_source_cleaned i s = Inr (m, s') \<Longrightarrow> store_typed s'"
    "request_camera_move_abort i reason b s = Inr (m, s') \<Longrightarrow> store_typed s'"
    "abort_camera_move i s = Inr (m, s') \<Longrightarrow> store_typed s'"
    "complete_camera_move i s = Inr (m, s') \<Longrightarrow> store_typed s'"
  using assms found_camera_typed [OF assms] found_move_typed [OF assms]
  by (auto simp: switch_camera_move_def mark_camera_move_source_cleaned_def request_camera_move_abort_def abort_camera_move_def
      complete_camera_move_def put_move_def Let_def store_typed_def camera_typed_def camera_move_is_terminal_def
      intro!: list_all_replace_first move_typed_phase split: option.splits if_splits)

lemma port_command_typed:
  assumes "store_typed s"
  shows "begin_port_change env c i p allowed r n radius s = Inr (ch, s') \<Longrightarrow> store_typed s'"
    "complete_port_change env c ob s = Inr (n', s') \<Longrightarrow> store_typed s'"
    "abort_port_change env c ob s = Inr (n', s') \<Longrightarrow> store_typed s'"
proof -
  have "list_all camera_typed (repoint_cameras i p cams)" if "list_all camera_typed cams" for i p cams
    using that by (auto simp: repoint_cameras_def list_all_iff camera_typed_def)
  then show "begin_port_change env c i p allowed r n radius s = Inr (ch, s') \<Longrightarrow> store_typed s'"
    "complete_port_change env c ob s = Inr (n', s') \<Longrightarrow> store_typed s'"
    "abort_port_change env c ob s = Inr (n', s') \<Longrightarrow> store_typed s'"
    using assms
    by (auto simp: begin_port_change_def complete_port_change_def abort_port_change_def store_typed_def Let_def
        split: option.splits if_splits sum.splits)
qed

lemma registration_typed:
  assumes "store_typed s"
  shows "register_automatically rq s = Inr (n, s') \<Longrightarrow> store_typed s'"
    "register_idempotently rq idem s = Inr (nb, s') \<Longrightarrow> store_typed s'"
    "finalize_node_delete i s = Inr (u, s') \<Longrightarrow> store_typed s'"
    "reserve_camera_registration idem s = Inr (cam, s') \<Longrightarrow> store_typed s'"
proof -
  have auto: "store_typed s'" if "register_automatically rq s = Inr (n, s')" for n s'
    using that assms by (auto simp: register_automatically_def store_typed_def Let_def split: sum.splits option.splits if_splits)
  then show "register_automatically rq s = Inr (n, s') \<Longrightarrow> store_typed s'" .
  show "register_idempotently rq idem s = Inr (nb, s') \<Longrightarrow> store_typed s'"
    using assms auto
    by (auto simp: register_idempotently_def split: sum.splits option.splits if_splits) (auto simp: store_typed_def)
  show "finalize_node_delete i s = Inr (u, s') \<Longrightarrow> store_typed s'"
    using assms finalize_others(2,3) typed_same by blast
  show "reserve_camera_registration idem s = Inr (cam, s') \<Longrightarrow> store_typed s'"
    using assms by (auto simp: reserve_camera_registration_def store_typed_def split: option.splits sum.splits)
qed

lemma run_op_typed:
  assumes "store_typed s" and "run_op op s = Inr s'"
  shows "store_typed s'"
proof (cases "op_node op")
  case (Some i)
  from op_node_effect [OF Some assms(2)] obtain n old where "node_effect i s n s' old" by blast
  from node_effect_others [OF this] typed_same assms(1) show ?thesis by blast
next
  case None
  have network: "store_typed (snd (add_probe_source_network net s))" for net
    using assms(1) by (auto simp: add_probe_source_network_def store_typed_def Let_def)
  note typed = assms(1)
  from assms(2) None show ?thesis
    by (cases op) (auto simp: op_node_def network elim!: writtenE
        dest: registration_typed [OF typed] port_command_typed [OF typed] move_command_typed [OF typed] create_move_typed [OF typed]
          camera_command_typed [OF typed] update_camera_typed [OF typed] place_automatically_typed [OF typed]
          place_manually_typed [OF typed] place_idempotently_typed [OF typed])
qed

text \<open>C6. In every reachable store every camera, deleted or not, has a name and a source URL that the validators
  accept unchanged, and every move, finished or not, satisfies the checks of its constructor.\<close>

theorem reachable_records_typed:
  assumes "reachable s"
  shows "(\<forall>cam \<in> set (st_cameras s). validate_camera_name (cp_name cam) = Inr (cp_name cam)
      \<and> validate_camera_source_url (cp_source_url cam) True = Inr (cp_source_url cam))
    \<and> (\<forall>m \<in> set (st_camera_moves s). camera_move_post_init m = None)"
proof -
  from assms have "store_typed s"
  proof induction
    case (start nodes)
    then show ?case by (simp add: store_typed_def init_store_def)
  next
    case (step s s')
    from step(2) show ?case using step(3) by cases (auto intro: run_op_typed)
  qed
  then show ?thesis
    by (simp add: store_typed_def camera_typed_def list_all_iff)
qed

theorem reachable_records_typed_witness:
  "validate_camera_name (cp_name ex_camera) = Inr (cp_name ex_camera)
   \<and> validate_camera_source_url (cp_source_url ex_camera) True = Inr (cp_source_url ex_camera)
   \<and> camera_move_post_init ex_move = None"
  using reachable_records_typed [OF ex_moving_reachable] by (simp add: ex_moving_eq)

end
