(* ===== verification/Confirmed_Disruption.thy ===== *)
theory Confirmed_Disruption
  imports Control_Properties Token_Properties
begin

text \<open>
  \<^verbatim>\<open>NodeControl\<close> wired to \<^verbatim>\<open>ConfirmationTokenService\<close>, as \<^verbatim>\<open>runtime.py\<close> does: the collaborator of the control plane is the
  modelled service, and its tokens confirm nothing but what they were issued for.
\<close>

definition service_confirmations :: "token_service \<Rightarrow> ('x \<Rightarrow> int) \<Rightarrow> 'x confirmations" where
  "service_confirmations svc wall_time =
     \<lparr>cf_issue_node_port_change = (\<lambda>claim x. (Inr (issue_node_port_change svc (wall_time x) claim), x)),
      cf_verify_node_port_change = (\<lambda>token claim x. (verify_node_port_change svc (wall_time x) token claim, x)),
      cf_issue_node_reconfigure = (\<lambda>claim x. (Inr (issue_node_reconfigure svc (wall_time x) claim), x)),
      cf_verify_node_reconfigure = (\<lambda>token claim x. (verify_node_reconfigure svc (wall_time x) token claim, x))\<rparr>"

text \<open>The claims that the change of a node to a port, and its reconfiguration, ask for.\<close>

definition confirms_port :: "uuid \<Rightarrow> int \<Rightarrow> node_disruption_confirmation_context option \<Rightarrow> confirmation_claim \<Rightarrow> bool" where
  "confirms_port i p ctx k \<longleftrightarrow>
     (\<exists>claim. k = Port_Claim claim \<and> pk_node_id claim = i \<and> pk_new_port claim = p \<and> pk_confirmation_context claim = ctx)"

definition confirms_reconfigure :: "uuid \<Rightarrow> node_disruption_confirmation_context option \<Rightarrow> confirmation_claim \<Rightarrow> bool" where
  "confirms_reconfigure i ctx k \<longleftrightarrow>
     (\<exists>claim. k = Reconfigure_Claim claim \<and> rk_node_id claim = i \<and> rk_confirmation_context claim = ctx)"

lemma misdirected_unconfirmed:
  assumes "nc_confirmations c = Some (service_confirmations svc wall_time)" and "issue_claim svc' issued k = Inr token"
  shows "\<not> confirms_port i p ctx k \<Longrightarrow> unconfirmed c i p ctx (Some token)"
    "\<not> confirms_reconfigure i ctx k \<Longrightarrow> unconfirmed_reconfigure c i ctx (Some token)"
proof -
  have "k = Port_Claim claim" if "verify_node_port_change svc now token claim = Inr True" for now claim
    using claim_exact [OF assms(2), of svc now "Port_Claim claim"] that by simp
  then show "\<not> confirms_port i p ctx k \<Longrightarrow> unconfirmed c i p ctx (Some token)"
    by (auto simp: unconfirmed_def assms(1) service_confirmations_def confirms_port_def)
  have "k = Reconfigure_Claim claim" if "verify_node_reconfigure svc now token claim = Inr True" for now claim
    using claim_exact [OF assms(2), of svc now "Reconfigure_Claim claim"] that by simp
  then show "\<not> confirms_reconfigure i ctx k \<Longrightarrow> unconfirmed_reconfigure c i ctx (Some token)"
    by (auto simp: unconfirmed_reconfigure_def assms(1) service_confirmations_def confirms_reconfigure_def)
qed

text \<open>C11. With the confirmation service of the repository, a token that was issued, by this or any other service, for
  another node, another port, another operator's session or another kind of operation has no effect on the store when it
  is presented for a change of port or a reconfiguration.\<close>

theorem misdirected_token_no_effect:
  assumes "nc_confirmations c = Some (service_confirmations svc wall_time)" and "issue_claim svc' issued k = Inr token"
  shows "(\<not> confirms_port i p ctx k \<longrightarrow> w_store (snd (change_port c i p allowed (Some token) ctx fence mc w)) = w_store w)
    \<and> (\<not> confirms_reconfigure i ctx k \<longrightarrow> w_store (snd (reconfigure_node c i (Some token) ctx fence mc w)) = w_store w)"
  using keepsD [OF unconfirmed_same [OF misdirected_unconfirmed(1) [OF assms]]]
    keepsD [OF unconfirmed_reconfigure_same [OF misdirected_unconfirmed(2) [OF assms]]]
  by (simp add: same_store_def)

theorem misdirected_token_no_effect_witness:
  "w_store (snd (change_port (ex_control\<lparr>nc_confirmations := Some (service_confirmations ex_service (\<lambda>x. 100))\<rparr>) 2 8600 [8600]
     (Some (issue_move ex_service 100 ex_move_claim)) None None None (ex_world ex_placed))) = ex_placed"
  using misdirected_token_no_effect [of "ex_control\<lparr>nc_confirmations := Some (service_confirmations ex_service (\<lambda>x. 100))\<rparr>"
      ex_service "\<lambda>x. 100" ex_service 100 "Move_Claim ex_move_claim" "issue_move ex_service 100 ex_move_claim" 2 8600 None
      "[8600]" None None "ex_world ex_placed"]
  by (simp add: confirms_port_def)

end
