(* ===== verification/Ip_Networks.thy ===== *)
theory Ip_Networks
  imports Ip_Address
begin

text \<open>
  The networks of Python's \<^verbatim>\<open>ipaddress\<close> module: \<^verbatim>\<open>ip_network\<close>, \<^verbatim>\<open>address in network\<close>, \<^verbatim>\<open>str(network)\<close> and
  \<^verbatim>\<open>collapse_addresses\<close>, for both families. A network is a pair of its address and its prefix length; the
  number of bits of the family is a parameter.
\<close>

section \<open>Blocks of addresses\<close>

type_synonym block = "nat \<times> nat"

text \<open>\<^verbatim>\<open>address & netmask\<close>\<close>

definition block_base :: "nat \<Rightarrow> nat \<Rightarrow> nat \<Rightarrow> nat" where
  "block_base w a p = a div 2 ^ (w - p) * 2 ^ (w - p)"

definition in_block :: "nat \<Rightarrow> nat \<Rightarrow> block \<Rightarrow> bool" where
  "in_block w x b \<longleftrightarrow> block_base w x (snd b) = fst b"

definition broadcast :: "nat \<Rightarrow> block \<Rightarrow> nat" where
  "broadcast w b = fst b + 2 ^ (w - snd b) - 1"

definition supernet :: "nat \<Rightarrow> block \<Rightarrow> block" where
  "supernet w b = (if snd b = 0 then b else (block_base w (fst b) (snd b - 1), snd b - 1))"

section \<open>Collapsing\<close>

fun bit_length :: "nat \<Rightarrow> nat" where
  "bit_length n = (if n = 0 then 0 else Suc (bit_length (n div 2)))"

fun trailing_zeros :: "nat \<Rightarrow> nat" where
  "trailing_zeros n = (if n = 0 \<or> odd n then 0 else Suc (trailing_zeros (n div 2)))"

declare bit_length.simps [simp del] trailing_zeros.simps [simp del]

text \<open>\<^verbatim>\<open>_count_righthand_zero_bits\<close>\<close>

definition righthand_zero_bits :: "nat \<Rightarrow> nat \<Rightarrow> nat" where
  "righthand_zero_bits n bits = (if n = 0 then bits else min bits (trailing_zeros n))"

function summarize_range :: "nat \<Rightarrow> nat \<Rightarrow> nat \<Rightarrow> block list" where
  "summarize_range w first final =
     (if final < first then []
      else let nbits = min (righthand_zero_bits first w) (bit_length (final - first + 1) - 1) in
        (first, w - nbits) #
          (if first + 2 ^ nbits - 1 = 2 ^ w - 1 then [] else summarize_range w (first + 2 ^ nbits) final))"
  by pat_completeness auto
termination
  by (relation "measure (\<lambda>(w, first, final). Suc final - first)") (auto simp: diff_less_mono2)

declare summarize_range.simps [simp del]

text \<open>\<^verbatim>\<open>_find_address_range\<close>, with the current range.\<close>

fun address_ranges :: "nat \<Rightarrow> nat \<Rightarrow> nat list \<Rightarrow> (nat \<times> nat) list" where
  "address_ranges first final [] = [(first, final)]"
| "address_ranges first final (ip # ips) =
     (if ip \<noteq> final + 1 then (first, final) # address_ranges ip ip ips else address_ranges first ip ips)"

text \<open>The loop that merges halves; the list is a stack, the dict a list of pairs.\<close>

function merge_blocks :: "nat \<Rightarrow> block list \<Rightarrow> (block \<times> block) list \<Rightarrow> (block \<times> block) list" where
  "merge_blocks w [] subnets = subnets"
| "merge_blocks w (net # to_merge) subnets =
     (case map_of subnets (supernet w net) of
        None \<Rightarrow> merge_blocks w to_merge (subnets @ [(supernet w net, net)])
      | Some existing \<Rightarrow>
          if existing \<noteq> net
          then merge_blocks w (supernet w net # to_merge) (filter (\<lambda>e. fst e \<noteq> supernet w net) subnets)
          else merge_blocks w to_merge subnets)"
  by pat_completeness auto

lemma length_filter_key:
  assumes "map_of m k = Some v"
  shows "length (filter (\<lambda>e. fst e \<noteq> k) m) < length m"
  using map_of_SomeD [OF assms] by (auto intro: length_filter_less)

termination merge_blocks
proof (relation "measure (\<lambda>(w, to_merge, subnets). 2 * length to_merge + length subnets)", goal_cases)
  case (3 w net to_merge subnets existing)
  from length_filter_key [OF 3(1)] show ?case by simp
qed auto

fun drop_subsumed :: "nat \<Rightarrow> block option \<Rightarrow> block list \<Rightarrow> block list" where
  "drop_subsumed w final [] = []"
| "drop_subsumed w final (net # nets) =
     (case final of
        Some l \<Rightarrow> if broadcast w net \<le> broadcast w l then drop_subsumed w final nets
                  else net # drop_subsumed w (Some net) nets
      | None \<Rightarrow> net # drop_subsumed w (Some net) nets)"

definition collapse_internal :: "nat \<Rightarrow> block list \<Rightarrow> block list" where
  "collapse_internal w addresses = drop_subsumed w None (sort (map snd (merge_blocks w (rev addresses) [])))"

definition collapse_addresses :: "nat \<Rightarrow> block list \<Rightarrow> block list" where
  "collapse_addresses w networks =
     (let ips = sort (remdups (map fst (filter (\<lambda>b. snd b = w) networks)));
          nets = filter (\<lambda>b. snd b \<noteq> w) networks;
          addrs = (case ips of
                     [] \<Rightarrow> []
                   | ip # rest \<Rightarrow> concat (map (\<lambda>(first, final). summarize_range w first final) (address_ranges ip ip rest)))
      in collapse_internal w (addrs @ nets))"

section \<open>Text\<close>

definition ipv4_str :: "nat \<Rightarrow> string" where
  "ipv4_str v = str_join ''.'' (map str_nat (fixed_digits 256 4 v))"

text \<open>The longest run of zeros: the index, the best run so far and the length of the current one.\<close>

fun best_zero_run :: "nat \<Rightarrow> nat \<times> nat \<Rightarrow> nat \<Rightarrow> string list \<Rightarrow> nat \<times> nat" where
  "best_zero_run index best len [] = best"
| "best_zero_run index best len (h # hs) =
     (if h = ''0''
      then best_zero_run (index + 1) (if snd best < len + 1 then (index - len, len + 1) else best) (len + 1) hs
      else best_zero_run (index + 1) best 0 hs)"

definition compress_hextets :: "string list \<Rightarrow> string list" where
  "compress_hextets hs =
     (case best_zero_run 0 (0, 0) 0 hs of
        (start, len) \<Rightarrow>
          if 1 < len
          then (if start = 0 then [''''] else []) @ take start hs @ [''''] @ drop (start + len) hs
               @ (if start + len = length hs then [''''] else [])
          else hs)"

definition ipv6_str :: "nat \<Rightarrow> string" where
  "ipv6_str v = str_join '':'' (compress_hextets (map (digits_of 16) (fixed_digits 65536 8 v)))"

primrec address_str :: "ip_address \<Rightarrow> string" where
  "address_str (IPv4Address v) = ipv4_str (unat v)"
| "address_str (IPv6Address v scope) =
     ipv6_str (unat v) @ (case scope of None \<Rightarrow> [] | Some z \<Rightarrow> CHR ''%'' # z)"

primrec network_str :: "ip_network \<Rightarrow> string" where
  "network_str (IPv4Network v p) = ipv4_str (unat v) @ CHR ''/'' # str_nat p"
| "network_str (IPv6Network v p) = ipv6_str (unat v) @ CHR ''/'' # str_nat p"

section \<open>Parsing\<close>

definition prefix_from_prefix_string :: "nat \<Rightarrow> string \<Rightarrow> nat option" where
  "prefix_from_prefix_string w m =
     (if m \<noteq> [] \<and> list_all is_digit_char m \<and> dec_value m \<le> w then Some (dec_value m) else None)"

definition prefix_from_ip_int :: "nat \<Rightarrow> nat \<Rightarrow> nat option" where
  "prefix_from_ip_int w v =
     (let zeros = righthand_zero_bits v w; prefixlen = w - zeros in
        if v div 2 ^ zeros = 2 ^ prefixlen - 1 then Some prefixlen else None)"

definition prefix_from_ip_string :: "string \<Rightarrow> nat option" where
  "prefix_from_ip_string m =
     (case parse_ipv4 m of
        None \<Rightarrow> None
      | Some v \<Rightarrow>
         (case prefix_from_ip_int 32 v of
            Some p \<Rightarrow> Some p
          | None \<Rightarrow> prefix_from_ip_int 32 (2 ^ 32 - 1 - v)))"

text \<open>The address and the prefix length as written; the address may have host bits.\<close>

definition parse_block4 :: "string \<Rightarrow> block option" where
  "parse_block4 s =
     (case split_char CHR ''/'' s of
        [a] \<Rightarrow> map_option (\<lambda>v. (v, 32)) (parse_ipv4 a)
      | [a, m] \<Rightarrow>
          (case parse_ipv4 a of
             None \<Rightarrow> None
           | Some v \<Rightarrow>
               map_option (\<lambda>p. (v, p))
                 (case prefix_from_prefix_string 32 m of
                    Some p \<Rightarrow> Some p
                  | None \<Rightarrow> prefix_from_ip_string m))
      | _ \<Rightarrow> None)"

definition parse_block6 :: "string \<Rightarrow> block option" where
  "parse_block6 s =
     (case split_char CHR ''/'' s of
        [a] \<Rightarrow> map_option (\<lambda>v. (fst v, 128)) (parse_ipv6 a)
      | [a, m] \<Rightarrow>
          (case parse_ipv6 a of
             None \<Rightarrow> None
           | Some v \<Rightarrow> map_option (\<lambda>p. (fst v, p)) (prefix_from_prefix_string 128 m))
      | _ \<Rightarrow> None)"

text \<open>
  \<^verbatim>\<open>ip_network(s, strict)\<close>, of text without a scope id; \<open>None\<close> is its \<^verbatim>\<open>ValueError\<close>. Text that is an IPv4 network with
  host bits is refused when it is strict, and is not tried as IPv6.
\<close>

definition ip_network_of :: "bool \<Rightarrow> string \<Rightarrow> ip_network option" where
  "ip_network_of strict s =
     (case parse_block4 s of
        Some (a, p) \<Rightarrow>
          if strict \<and> block_base 32 a p \<noteq> a then None else Some (IPv4Network (of_nat (block_base 32 a p)) p)
      | None \<Rightarrow>
         (case parse_block6 s of
            Some (a, p) \<Rightarrow>
              if strict \<and> block_base 128 a p \<noteq> a then None else Some (IPv6Network (of_nat (block_base 128 a p)) p)
          | None \<Rightarrow> None))"

primrec network_block :: "ip_network \<Rightarrow> block" where
  "network_block (IPv4Network v p) = (unat v, p)"
| "network_block (IPv6Network v p) = (unat v, p)"

text \<open>\<^verbatim>\<open>address in network\<close>: never across the families.\<close>

fun in_network :: "ip_address \<Rightarrow> ip_network \<Rightarrow> bool" where
  "in_network (IPv4Address x) (IPv4Network v p) = in_block 32 (unat x) (unat v, p)"
| "in_network (IPv6Address x scope) (IPv6Network v p) = in_block 128 (unat x) (unat v, p)"
| "in_network _ _ = False"

end
