(* ===== verification/Network_Laws.thy ===== *)
theory Network_Laws
  imports Ip_Networks
begin

text \<open>
  What the code relies on of the networks: collapsing keeps the addresses that are covered, and the text of a
  network is parsed back to it.
\<close>

section \<open>Blocks\<close>

definition block_ok :: "nat \<Rightarrow> block \<Rightarrow> bool" where
  "block_ok w b \<longleftrightarrow> snd b \<le> w \<and> fst b < 2 ^ w \<and> 2 ^ (w - snd b) dvd fst b"

definition covered :: "nat \<Rightarrow> nat \<Rightarrow> block set \<Rightarrow> bool" where
  "covered w x bs \<longleftrightarrow> (\<exists>b \<in> bs. in_block w x b)"

lemma covered_insert [simp]: "covered w x (insert b bs) \<longleftrightarrow> in_block w x b \<or> covered w x bs"
  by (simp add: covered_def)

lemma covered_union: "covered w x (A \<union> B) \<longleftrightarrow> covered w x A \<or> covered w x B"
  by (auto simp: covered_def)

lemma covered_UN: "covered w x (\<Union>i \<in> I. B i) \<longleftrightarrow> (\<exists>i \<in> I. covered w x (B i))"
  by (auto simp: covered_def)

lemma covered_empty [simp]: "\<not> covered w x {}"
  by (simp add: covered_def)

lemma in_block_div:
  assumes "block_ok w b"
  shows "in_block w x b \<longleftrightarrow> x div 2 ^ (w - snd b) = fst b div 2 ^ (w - snd b)"
proof -
  have "fst b div 2 ^ (w - snd b) * 2 ^ (w - snd b) = fst b" using assms by (simp add: block_ok_def)
  then show ?thesis by (metis block_base_def in_block_def mult_cancel2 power_not_zero zero_neq_numeral)
qed

lemma in_block_range:
  assumes "block_ok w b"
  shows "in_block w x b \<longleftrightarrow> fst b \<le> x \<and> x \<le> broadcast w b"
proof -
  let ?s = "2 ^ (w - snd b) :: nat"
  from assms obtain k where k: "fst b = k * ?s" unfolding block_ok_def by (metis dvdE mult.commute)
  have pos: "0 < ?s" by simp
  have "x div ?s = k \<longleftrightarrow> k * ?s \<le> x \<and> x < k * ?s + ?s"
    using pos div_times_less_eq_dividend [of x ?s] dividend_less_div_times [OF pos, of x] div_nat_eqI [of ?s k x]
    by (auto simp: algebra_simps)
  then have "x div ?s = k \<longleftrightarrow> k * ?s \<le> x \<and> x \<le> k * ?s + ?s - 1" using pos by linarith
  then show ?thesis by (simp add: in_block_div [OF assms] k broadcast_def)
qed

lemma block_base_dvd: "2 ^ (w - p) dvd block_base w a p"
  by (simp add: block_base_def)

lemma block_base_le: "block_base w a p \<le> a"
  by (simp add: block_base_def)

lemma block_base_same: "2 ^ (w - p) dvd a \<Longrightarrow> block_base w a p = a"
  by (simp add: block_base_def)

lemma block_base_ok: "a < 2 ^ w \<Longrightarrow> p \<le> w \<Longrightarrow> block_ok w (block_base w a p, p)"
  using block_base_le [of w a p] by (simp add: block_ok_def block_base_dvd)

lemma supernet_ok:
  assumes "block_ok w b"
  shows "block_ok w (supernet w b)"
proof (cases "snd b = 0")
  case False
  have "snd b - 1 \<le> w" "fst b < 2 ^ w" using assms by (auto simp: block_ok_def)
  then show ?thesis using False block_base_ok [of "fst b" w "snd b - 1"] by (simp add: supernet_def)
qed (use assms in \<open>simp add: supernet_def\<close>)

lemma supernet_div:
  assumes "block_ok w b" and "0 < snd b"
  shows "in_block w x (supernet w b) \<longleftrightarrow> x div 2 ^ (w - snd b) div 2 = fst b div 2 ^ (w - snd b) div 2"
proof -
  have s: "w - (snd b - 1) = Suc (w - snd b)" using assms by (simp add: block_ok_def Suc_diff_le)
  have half: "y div 2 ^ Suc n = y div 2 ^ n div 2" for y n :: nat
    using div_mult2_eq [of y "2 ^ n" 2] by (simp add: mult.commute)
  have sup: "supernet w b = (fst b div 2 ^ Suc (w - snd b) * 2 ^ Suc (w - snd b), snd b - 1)"
    using assms(2) unfolding supernet_def block_base_def s by simp
  have "in_block w x (supernet w b) \<longleftrightarrow> x div 2 ^ Suc (w - snd b) = fst b div 2 ^ Suc (w - snd b)"
    unfolding in_block_div [OF supernet_ok [OF assms(1)]] unfolding sup snd_conv fst_conv s by simp
  then show ?thesis unfolding half .
qed

lemma supernet_covers: "block_ok w b \<Longrightarrow> in_block w x b \<Longrightarrow> in_block w x (supernet w b)"
proof (cases "snd b = 0")
  case False
  assume "block_ok w b" "in_block w x b"
  then show ?thesis using False supernet_div [of w b x] in_block_div [of w b x] by simp
qed (simp add: supernet_def)

lemma half_cases: "(i :: nat) \<noteq> j \<Longrightarrow> i div 2 = j div 2 \<Longrightarrow> y div 2 = i div 2 \<longleftrightarrow> y = i \<or> y = j"
  by (cases "even i"; cases "even j"; cases "even y") (auto elim!: evenE oddE)

lemma halves_cover:
  assumes ok: "block_ok w b" "block_ok w c" and eq: "supernet w b = supernet w c" and ne: "b \<noteq> c"
  shows "in_block w x (supernet w b) \<longleftrightarrow> in_block w x b \<or> in_block w x c"
proof (cases "snd b = 0 \<or> snd c = 0")
  case True
  then have "supernet w b = b \<or> supernet w b = c" using eq by (auto simp: supernet_def)
  then show ?thesis using supernet_covers [OF ok(1)] supernet_covers [OF ok(2)] eq by metis
next
  case False
  then have p: "snd b = snd c" "0 < snd b" "0 < snd c" using eq by (auto simp: supernet_def)
  let ?s = "2 ^ (w - snd b) :: nat" and ?i = "fst b div 2 ^ (w - snd b)" and ?j = "fst c div 2 ^ (w - snd b)"
  have "?i * ?s = fst b" "?j * ?s = fst c" using ok p(1) by (simp_all add: block_ok_def)
  then have "?i \<noteq> ?j" using ne p(1) by (metis prod_eqI)
  moreover have "in_block w (fst b) (supernet w b)"
    using supernet_covers [OF ok(1)] in_block_div [OF ok(1)] by blast
  then have "?i div 2 = ?j div 2" using supernet_div [OF ok(2) p(3), of "fst b"] eq p(1) by simp
  ultimately have "y div 2 = ?i div 2 \<longleftrightarrow> y = ?i \<or> y = ?j" for y
    by (rule half_cases)
  then show ?thesis
    using supernet_div [OF ok(1) p(2), of x] in_block_div [OF ok(1), of x] in_block_div [OF ok(2), of x] p(1) by simp
qed

section \<open>Collapsing\<close>

definition subnets_ok :: "nat \<Rightarrow> (block \<times> block) list \<Rightarrow> bool" where
  "subnets_ok w m \<longleftrightarrow> distinct (map fst m) \<and> (\<forall>(k, n) \<in> set m. block_ok w n \<and> k = supernet w n)"

lemma subnets_ok_snoc:
  "subnets_ok w m \<Longrightarrow> block_ok w n \<Longrightarrow> map_of m (supernet w n) = None \<Longrightarrow> subnets_ok w (m @ [(supernet w n, n)])"
  by (auto simp: subnets_ok_def map_of_eq_None_iff)

lemma subnets_ok_filter: "subnets_ok w m \<Longrightarrow> subnets_ok w (filter P m)"
  by (auto simp: subnets_ok_def distinct_map_filter)

lemma covered_without:
  assumes "subnets_ok w m" and "map_of m k = Some n"
  shows "covered w x (snd ` set m) \<longleftrightarrow> in_block w x n \<or> covered w x (snd ` set (filter (\<lambda>e. fst e \<noteq> k) m))"
proof -
  have unique: "e = (k, n)" if "e \<in> set m" "fst e = k" for e
    using assms map_of_eq_Some_iff [of m k "snd e"] that by (cases e) (simp add: subnets_ok_def)
  have "(k, n) \<in> set m" using assms(2) by (rule map_of_SomeD)
  then have "set m = insert (k, n) (set (filter (\<lambda>e. fst e \<noteq> k) m))"
    using unique unfolding set_filter by blast
  then have "snd ` set m = insert n (snd ` set (filter (\<lambda>e. fst e \<noteq> k) m))" by (metis image_insert snd_conv)
  then show ?thesis by simp
qed

lemma merge_blocks_ok:
  assumes "\<forall>b \<in> set to_merge. block_ok w b" and "subnets_ok w m"
  shows "subnets_ok w (merge_blocks w to_merge m)
    \<and> (covered w x (snd ` set (merge_blocks w to_merge m)) \<longleftrightarrow> covered w x (set to_merge) \<or> covered w x (snd ` set m))"
  using assms
proof (induction w to_merge m rule: merge_blocks.induct)
  case (2 w net to_merge m)
  from 2(4) have net: "block_ok w net" "\<forall>b \<in> set to_merge. block_ok w b" by simp_all
  show ?case
  proof (cases "map_of m (supernet w net)")
    case None
    have "subnets_ok w (m @ [(supernet w net, net)])" using 2(5) net(1) None by (rule subnets_ok_snoc)
    from 2(1) [OF None net(2) this] None show ?thesis by (auto simp: covered_union)
  next
    case (Some existing)
    then have ex: "(supernet w net, existing) \<in> set m" by (rule map_of_SomeD)
    then have existing: "block_ok w existing" "supernet w existing = supernet w net"
      using 2(5) by (auto simp: subnets_ok_def)
    show ?thesis
    proof (cases "existing = net")
      case True
      then have "in_block w x net \<Longrightarrow> covered w x (snd ` set m)" using ex by (force simp: covered_def)
      then show ?thesis using 2(3) [OF Some _ net(2) 2(5)] Some True by auto
    next
      case False
      have sup: "\<forall>b \<in> set (supernet w net # to_merge). block_ok w b" using net supernet_ok by simp
      have cov: "in_block w x (supernet w net) \<longleftrightarrow> in_block w x existing \<or> in_block w x net"
        using halves_cover [OF existing(1) net(1) existing(2) False, of x] existing(2) by simp
      show ?thesis
        using 2(2) [OF Some False sup subnets_ok_filter [OF 2(5)]] Some False cov covered_without [OF 2(5) Some, of x]
        by auto
    qed
  qed
qed simp

lemma drop_subsumed_covered:
  assumes "sorted nets" and "\<forall>b \<in> set nets. block_ok w b"
    and "\<forall>l. final = Some l \<longrightarrow> block_ok w l \<and> (\<forall>b \<in> set nets. fst l \<le> fst b)"
  shows "covered w x (set_option final \<union> set (drop_subsumed w final nets)) \<longleftrightarrow> covered w x (set_option final \<union> set nets)"
  using assms
proof (induction w final nets rule: drop_subsumed.induct)
  case (2 w final net nets)
  from 2(4) have sorted: "sorted nets" "\<forall>b \<in> set nets. net \<le> b" by simp_all
  from sorted(2) have first: "\<forall>b \<in> set nets. fst net \<le> fst b" by (auto simp: less_eq_prod_def)
  show ?case
  proof (cases final)
    case None
    then show ?thesis using 2(1) [OF None] sorted(1) first 2(5) by simp
  next
    case (Some l)
    then have l: "block_ok w l" "fst l \<le> fst net" "\<forall>b \<in> set nets. fst l \<le> fst b" using 2(6) by auto
    show ?thesis
    proof (cases "broadcast w net \<le> broadcast w l")
      case True
      then have "in_block w x net \<Longrightarrow> in_block w x l"
        using 2(5) l by (auto simp: in_block_range)
      then show ?thesis using 2(2) [OF Some True] sorted 2(5) Some True l by auto
    next
      case False
      then show ?thesis using 2(3) [OF Some False] sorted(1) first 2(5) Some by auto
    qed
  qed
qed simp

lemma set_drop_subsumed: "set (drop_subsumed w final nets) \<subseteq> set nets"
  by (induction w final nets rule: drop_subsumed.induct) (auto split: option.split)

lemma collapse_internal_covered:
  assumes "\<forall>b \<in> set bs. block_ok w b"
  shows "(\<forall>b \<in> set (collapse_internal w bs). block_ok w b)
    \<and> (covered w x (set (collapse_internal w bs)) \<longleftrightarrow> covered w x (set bs))"
proof -
  let ?m = "merge_blocks w (rev bs) []"
  have m: "subnets_ok w ?m" "covered w x (snd ` set ?m) \<longleftrightarrow> covered w x (set bs)"
    using merge_blocks_ok [of "rev bs" w "[]" x] assms by (simp_all add: subnets_ok_def)
  then have ok: "\<forall>b \<in> set (sort (map snd ?m)). block_ok w b" by (auto simp: subnets_ok_def)
  have "covered w x (set (collapse_internal w bs)) \<longleftrightarrow> covered w x (set (sort (map snd ?m)))"
    using drop_subsumed_covered [OF sorted_sort ok, of None x] by (simp add: collapse_internal_def)
  moreover have "set (collapse_internal w bs) \<subseteq> set (sort (map snd ?m))"
    unfolding collapse_internal_def by (rule set_drop_subsumed)
  then have "\<forall>b \<in> set (collapse_internal w bs). block_ok w b" using ok by blast
  ultimately show ?thesis using m(2) by simp
qed

lemma bit_length_power: "0 < n \<Longrightarrow> 2 ^ (bit_length n - 1) \<le> n"
proof (induction n rule: bit_length.induct)
  case (1 n)
  show ?case
  proof (cases "n div 2 = 0")
    case True
    then show ?thesis using 1(2) by (simp add: bit_length.simps [of n] bit_length.simps [of 0])
  next
    case False
    then have "2 ^ (bit_length (n div 2) - 1) \<le> n div 2" using 1 by auto
    moreover have "0 < bit_length (n div 2)" using False by (simp add: bit_length.simps [of "n div 2"])
    then have "2 ^ bit_length (n div 2) = 2 * (2 :: nat) ^ (bit_length (n div 2) - 1)" by (simp add: power_eq_if)
    ultimately have "2 ^ bit_length (n div 2) \<le> n" by linarith
    then show ?thesis using 1(2) by (simp add: bit_length.simps [of n])
  qed
qed

lemma trailing_zeros_dvd: "2 ^ trailing_zeros n dvd n"
proof (induction n rule: trailing_zeros.induct)
  case (1 n)
  show ?case
  proof (cases "n = 0 \<or> odd n")
    case False
    with 1 have "2 * 2 ^ trailing_zeros (n div 2) dvd 2 * (n div 2)" by (intro mult_dvd_mono) auto
    then show ?thesis using False by (subst trailing_zeros.simps) auto
  qed (auto simp: trailing_zeros.simps [of n])
qed

lemma righthand_zero_bits_dvd: "k \<le> righthand_zero_bits n w \<Longrightarrow> 2 ^ k dvd n"
  using power_le_dvd [OF trailing_zeros_dvd] by (auto simp: righthand_zero_bits_def split: if_splits)

lemma summarize_range_covered:
  assumes "final < 2 ^ w"
  shows "(\<forall>b \<in> set (summarize_range w first final). block_ok w b)
    \<and> (covered w x (set (summarize_range w first final)) \<longleftrightarrow> first \<le> x \<and> x \<le> final)"
  using assms
proof (induction w first final rule: summarize_range.induct)
  case (1 w first final)
  show ?case
  proof (cases "final < first")
    case True
    then show ?thesis by (subst summarize_range.simps, subst summarize_range.simps) auto
  next
    case False
    define nbits where "nbits = min (righthand_zero_bits first w) (bit_length (final - first + 1) - 1)"
    define rest where
      "rest = (if first + 2 ^ nbits - 1 = 2 ^ w - 1 then [] else summarize_range w (first + 2 ^ nbits) final)"
    have eq: "summarize_range w first final = (first, w - nbits) # rest"
      using False by (subst summarize_range.simps) (simp add: nbits_def rest_def Let_def)
    have nw: "nbits \<le> w" by (auto simp: nbits_def righthand_zero_bits_def)
    have "2 ^ nbits \<le> (2 :: nat) ^ (bit_length (final - first + 1) - 1)" by (intro power_increasing) (simp_all add: nbits_def)
    also have "\<dots> \<le> final - first + 1" by (rule bit_length_power) simp
    finally have len: "first + 2 ^ nbits \<le> final + 1" using False by simp
    have "2 ^ nbits dvd first" by (rule righthand_zero_bits_dvd [of _ _ w]) (simp add: nbits_def)
    then have ok: "block_ok w (first, w - nbits)" using nw False 1(2) by (simp add: block_ok_def)
    have pos: "0 < (2 :: nat) ^ nbits" by simp
    have head: "in_block w x (first, w - nbits) \<longleftrightarrow> first \<le> x \<and> x < first + 2 ^ nbits"
    proof -
      have "x \<le> first + 2 ^ nbits - 1 \<longleftrightarrow> x < first + 2 ^ nbits" using pos by linarith
      then show ?thesis using nw in_block_range [OF ok, of x] by (simp add: broadcast_def)
    qed
    have "(\<forall>b \<in> set rest. block_ok w b) \<and> (covered w x (set rest) \<longleftrightarrow> first + 2 ^ nbits \<le> x \<and> x \<le> final)"
    proof (cases "first + 2 ^ nbits - 1 = 2 ^ w - 1")
      case True
      have "0 < (2 :: nat) ^ w" by simp
      with True pos have "first + 2 ^ nbits = 2 ^ w" by linarith
      then show ?thesis using 1(2) True by (auto simp: rest_def)
    next
      case more: False
      show ?thesis using 1(1) [OF False nbits_def more 1(2)] more by (simp add: rest_def)
    qed
    then show ?thesis using ok head len by (auto simp: eq)
  qed
qed

lemma address_ranges_covered:
  assumes "sorted ips" and "\<forall>ip \<in> set ips. final \<le> ip" and "first \<le> final"
  shows "(\<exists>(f, l) \<in> set (address_ranges first final ips). f \<le> x \<and> x \<le> l) \<longleftrightarrow> first \<le> x \<and> x \<le> final \<or> x \<in> set ips"
  using assms
proof (induction first final ips rule: address_ranges.induct)
  case (2 first final ip ips)
  show ?case
  proof (cases "ip = final + 1")
    case True
    then have "(first \<le> x \<and> x \<le> ip) \<longleftrightarrow> (first \<le> x \<and> x \<le> final \<or> x = ip)" using 2(5) by auto
    moreover have "sorted ips" "\<forall>i \<in> set ips. ip \<le> i" "first \<le> ip" using 2(3-5) True by simp_all
    ultimately show ?thesis using 2(2) True by auto
  next
    case False
    have "sorted ips" "\<forall>i \<in> set ips. ip \<le> i" using 2(3) by simp_all
    then have ih: "(\<exists>(f, l) \<in> set (address_ranges ip ip ips). f \<le> x \<and> x \<le> l) \<longleftrightarrow> x = ip \<or> x \<in> set ips"
      using 2(1) [OF False] by auto
    have "address_ranges first final (ip # ips) = (first, final) # address_ranges ip ip ips" using False by simp
    then show ?thesis using ih by auto
  qed
qed simp

lemma address_ranges_bound:
  "\<forall>ip \<in> set ips. ip < n \<Longrightarrow> final < n \<Longrightarrow> (f, l) \<in> set (address_ranges first final ips) \<Longrightarrow> l < n"
  by (induction first final ips rule: address_ranges.induct) (auto split: if_splits)

lemma collapse_addresses_covered:
  assumes "\<forall>b \<in> set nets. block_ok w b"
  shows "(\<forall>b \<in> set (collapse_addresses w nets). block_ok w b)
    \<and> (covered w x (set (collapse_addresses w nets)) \<longleftrightarrow> covered w x (set nets))"
proof -
  define ips where "ips = sort (remdups (map fst (filter (\<lambda>b. snd b = w) nets)))"
  define addrs where "addrs = (case ips of [] \<Rightarrow> []
    | ip # rest \<Rightarrow> concat (map (\<lambda>(first, final). summarize_range w first final) (address_ranges ip ip rest)))"
  have eq: "collapse_addresses w nets = collapse_internal w (addrs @ filter (\<lambda>b. snd b \<noteq> w) nets)"
    by (simp add: collapse_addresses_def ips_def addrs_def Let_def)
  have set_ips: "set ips = fst ` {b \<in> set nets. snd b = w}" by (auto simp: ips_def)
  have bound: "\<forall>ip \<in> set ips. ip < 2 ^ w" using assms by (auto simp: set_ips block_ok_def)
  have single: "in_block w x b \<longleftrightarrow> x = fst b" if "b \<in> set nets" "snd b = w" for b
    using assms that by (auto simp: in_block_range broadcast_def)
  have addrs: "(\<forall>b \<in> set addrs. block_ok w b) \<and> (covered w x (set addrs) \<longleftrightarrow> x \<in> set ips)"
  proof (cases ips)
    case (Cons ip rest)
    have "sorted ips" by (simp add: ips_def)
    then have sorted: "sorted rest" "\<forall>i \<in> set rest. ip \<le> i" using Cons by simp_all
    have each: "(f, l) \<in> set (address_ranges ip ip rest) \<Longrightarrow> (\<forall>b \<in> set (summarize_range w f l). block_ok w b)
        \<and> (covered w x (set (summarize_range w f l)) \<longleftrightarrow> f \<le> x \<and> x \<le> l)" for f l
      using address_ranges_bound [of rest "2 ^ w" ip f l ip] bound Cons by (intro summarize_range_covered) auto
    have "set addrs = (\<Union>r \<in> set (address_ranges ip ip rest). set (summarize_range w (fst r) (snd r)))"
      by (simp add: addrs_def Cons case_prod_beta)
    then have "covered w x (set addrs) \<longleftrightarrow>
        (\<exists>r \<in> set (address_ranges ip ip rest). covered w x (set (summarize_range w (fst r) (snd r))))"
      by (simp only: covered_UN)
    also have "\<dots> \<longleftrightarrow> (\<exists>(f, l) \<in> set (address_ranges ip ip rest). f \<le> x \<and> x \<le> l)"
      using each by (intro bex_cong) (auto simp: case_prod_beta)
    also have "\<dots> \<longleftrightarrow> x \<in> set ips" using address_ranges_covered [OF sorted, of ip x] by (auto simp: Cons)
    finally show ?thesis using each by (auto simp: addrs_def Cons)
  qed (simp add: addrs_def)
  moreover have "covered w x (set nets) \<longleftrightarrow> x \<in> set ips \<or> covered w x (set (filter (\<lambda>b. snd b \<noteq> w) nets))"
    unfolding covered_def set_ips set_filter using single by blast
  ultimately show ?thesis
    using collapse_internal_covered [of "addrs @ filter (\<lambda>b. snd b \<noteq> w) nets" w x] assms by (auto simp: eq covered_union)
qed

end
