(* ===== verification/Network_Text.thy ===== *)
theory Network_Text
  imports Network_Laws
begin

text \<open>The text of a network is parsed back to it, in the strict mode too.\<close>

section \<open>Numerals\<close>

lemma digits_of_values:
  assumes "2 \<le> b" and "b \<le> 16"
  shows "\<exists>ds. digits_of b n = map digit_char ds \<and> from_base b ds = n \<and> ds \<noteq> [] \<and> (\<forall>d \<in> set ds. d < b)
    \<and> (hd ds = 0 \<longrightarrow> n = 0) \<and> (\<forall>k. 0 < k \<longrightarrow> n < b ^ k \<longrightarrow> length ds \<le> k)"
  using assms
proof (induction b n rule: digits_of.induct)
  case (1 b n)
  show ?case
  proof (cases "n < b")
    case True
    then show ?thesis using 1(2,3) by (intro exI [of _ "[n]"]) (simp add: digits_of.simps [of b n] from_base_def)
  next
    case False
    then obtain ds where ds: "digits_of b (n div b) = map digit_char ds" "from_base b ds = n div b" "ds \<noteq> []"
      "\<forall>d \<in> set ds. d < b" "hd ds = 0 \<longrightarrow> n div b = 0" "\<And>k. 0 < k \<Longrightarrow> n div b < b ^ k \<Longrightarrow> length ds \<le> k"
      using 1 by auto
    have "length (ds @ [n mod b]) \<le> k" if k: "0 < k" "n < b ^ k" for k
    proof (cases "k = 1")
      case True
      then show ?thesis using k False by simp
    next
      case False
      then obtain j where j: "k = Suc j" "0 < j" using k(1) by (cases k) auto
      have "n div b < b ^ j" using k(2) 1(2) j(1) by (simp add: less_mult_imp_div_less mult.commute)
      from ds(6) [OF j(2) this] j show ?thesis by simp
    qed
    moreover have "digits_of b n = map digit_char (ds @ [n mod b])"
      using False ds(1) 1(2) by (subst digits_of.simps) simp
    moreover have "n div b \<noteq> 0" using False 1(2) by (simp add: div_eq_0_iff)
    ultimately show ?thesis
      using ds 1(2) by (intro exI [of _ "ds @ [n mod b]"]) auto
  qed
qed

lemma code_digit_less: "d < 10 \<Longrightarrow> code (digit_char d) = 48 + d"
  by (simp add: digit_char_code)

lemma digit_char_zero: "digit_char 0 = CHR ''0''"
  by code_simp

lemma digit_char_eq_zero: "d < 16 \<Longrightarrow> digit_char d = CHR ''0'' \<longleftrightarrow> d = 0"
  using digit_char_inj [of d 0] digit_char_zero by auto

lemma parse_octet_str: "n < 256 \<Longrightarrow> parse_octet (str_nat n) = Some n"
proof -
  assume n: "n < 256"
  obtain ds where ds: "str_nat n = map digit_char ds" "ds \<noteq> []" "\<forall>d \<in> set ds. d < 10" "hd ds = 0 \<longrightarrow> n = 0"
    "\<forall>k. 0 < k \<longrightarrow> n < 10 ^ k \<longrightarrow> length ds \<le> k"
    using digits_of_values [of 10 n] by (auto simp: str_nat_def)
  have "length ds \<le> 3" using ds(5) [rule_format, of 3] n by simp
  moreover have "str_nat n = ''0''" if "hd (str_nat n) = CHR ''0''"
  proof -
    have "hd ds < 10" using ds(2,3) by (metis list.set_sel(1))
    moreover have "code (digit_char (hd ds)) = 48" using that ds(1,2) by (simp add: hd_map code_def)
    ultimately have "hd ds = 0" using code_digit_less [of "hd ds"] by simp
    then have "n = 0" using ds(4) by simp
    then show ?thesis by (simp add: str_nat_def digits_of.simps digit_char_zero)
  qed
  moreover have "length (str_nat n) = length ds" using ds(1) by simp
  moreover have "str_nat n \<noteq> []" by (simp add: str_nat_def)
  ultimately show ?thesis
    using str_nat_digits [of n] n dec_value_str_nat [of n] by (simp add: parse_octet_def) fastforce
qed

lemma hex_digit_value_char: "d < 16 \<Longrightarrow> hex_digit_value (digit_char d) = Some d"
  by (simp add: hex_digit_value_def digit_char_code)

lemma all_some_map: "\<forall>x \<in> set xs. f (g x) = Some x \<Longrightarrow> all_some (map f (map g xs)) = Some xs"
  by (induction xs) auto

lemma parse_hextet_digits: "n < 65536 \<Longrightarrow> parse_hextet (digits_of 16 n) = Some n"
proof -
  assume n: "n < 65536"
  obtain ds where ds: "digits_of 16 n = map digit_char ds" "from_base 16 ds = n" "ds \<noteq> []" "\<forall>d \<in> set ds. d < 16"
    "\<forall>k. 0 < k \<longrightarrow> n < 16 ^ k \<longrightarrow> length ds \<le> k"
    using digits_of_values [of 16 n] by auto
  have "length ds \<le> 4" using ds(5) [rule_format, of 4] n by simp
  moreover have "all_some (map hex_digit_value (map digit_char ds)) = Some ds"
    using ds(4) hex_digit_value_char by (intro all_some_map) blast
  ultimately show ?thesis using ds(1-3) by (simp add: parse_hextet_def)
qed

lemma digits_16_chars: "c \<in> set (digits_of 16 n) \<Longrightarrow> 48 \<le> code c \<and> code c \<noteq> 58 \<and> code c < 128"
  using digits_of_chars [of 16 c n] by (auto simp: digit_char_code split: if_splits)

lemma str_nat_codes: "c \<in> set (str_nat n) \<Longrightarrow> 48 \<le> code c \<and> code c \<le> 57"
  using str_nat_digits [of n] by (simp add: list_all_iff is_digit_char_def)

lemma code_marks [simp]:
  "code CHR ''.'' = 46" "code CHR ''/'' = 47" "code CHR ''%'' = 37" "code CHR '':'' = 58"
  by (simp_all add: code_def)

lemma set_str_join: "set (str_join sep ps) \<subseteq> set sep \<union> (\<Union> (set ` set ps))"
  by (cases ps) (auto simp: str_join_def)

section \<open>IPv4\<close>

lemma ipv4_str_chars: "c \<in> set (ipv4_str v) \<Longrightarrow> c = CHR ''.'' \<or> 48 \<le> code c \<and> code c \<le> 57"
  using set_str_join [of "''.''" "map str_nat (fixed_digits 256 4 v)"] str_nat_codes
  by (force simp: ipv4_str_def)

lemma join_nonempty: "\<forall>p \<in> set ps. p \<noteq> [] \<Longrightarrow> ps \<noteq> [] \<Longrightarrow> str_join sep ps \<noteq> []"
  by (cases ps) (auto simp: str_join_def)

lemma str_nat_ne: "str_nat n \<noteq> []"
  by (simp add: str_nat_def)

lemma split_char_join_ne:
  "ps \<noteq> [] \<Longrightarrow> \<forall>p \<in> set ps. c \<notin> set p \<Longrightarrow> split_char c (str_join [c] ps) = ps"
  by (cases ps) (simp_all add: split_char_join list_all_iff)

lemma parse_ipv4_str:
  assumes "v < 2 ^ 32"
  shows "parse_ipv4 (ipv4_str v) = Some v"
proof -
  let ?ds = "fixed_digits 256 4 v"
  have ne: "map str_nat ?ds \<noteq> []" by (metis length_fixed_digits length_greater_0_conv length_map zero_less_numeral)
  have "\<forall>p \<in> set (map str_nat ?ds). CHR ''.'' \<notin> set p" using str_nat_codes by fastforce
  then have "split_char CHR ''.'' (ipv4_str v) = map str_nat ?ds"
    unfolding ipv4_str_def by (intro split_char_join_ne [OF ne])
  moreover have "all_some (map parse_octet (map str_nat ?ds)) = Some ?ds"
    using fixed_digits_less [of 256 _ 4 v] by (intro all_some_map) (simp add: parse_octet_str)
  moreover have "ipv4_str v \<noteq> []" unfolding ipv4_str_def using ne str_nat_ne by (intro join_nonempty) auto
  moreover have "CHR ''/'' \<notin> set (ipv4_str v)" using ipv4_str_chars [of "CHR ''/''" v] by auto
  ultimately show ?thesis
    using assms from_base_fixed_digits [of 256 4 v] by (simp add: parse_ipv4_def Let_def)
qed

section \<open>IPv6\<close>

lemma best_zero_run_zeros:
  assumes "snd best = 0 \<or> fst best + snd best \<le> index \<and> (\<forall>i. fst best \<le> i \<and> i < fst best + snd best \<longrightarrow> all ! i = ''0'')"
    and "len \<le> index" and "\<forall>i. index - len \<le> i \<and> i < index \<longrightarrow> all ! i = ''0''"
    and "index + length hs = length all" and "drop index all = hs"
  shows "(\<lambda>(s, l). l = 0 \<or> s + l \<le> length all \<and> (\<forall>i. s \<le> i \<and> i < s + l \<longrightarrow> all ! i = ''0''))
    (best_zero_run index best len hs)"
  using assms
proof (induction index best len hs rule: best_zero_run.induct)
  case (1 index best len)
  then show ?case by (cases best) auto
next
  case (2 index best len h hs)
  have h: "all ! index = h" using 2(6,7) by (metis hd_drop_conv_nth le_add1 length_Cons less_add_same_cancel1 list.sel(1) zero_less_Suc)
  have rest: "index + 1 + length hs = length all" "drop (index + 1) all = hs"
    using 2(6) arg_cong [OF 2(7), of tl] by (simp_all add: drop_Suc tl_drop)
  show ?case
  proof (cases "h = ''0''")
    case True
    let ?best = "if snd best < len + 1 then (index - len, len + 1) else best"
    have zeros: "\<forall>i. index - len \<le> i \<and> i < index + 1 \<longrightarrow> all ! i = ''0''" using 2(5) h True by (auto simp: less_Suc_eq)
    have "snd ?best = 0 \<or> fst ?best + snd ?best \<le> index + 1
        \<and> (\<forall>i. fst ?best \<le> i \<and> i < fst ?best + snd ?best \<longrightarrow> all ! i = ''0'')"
      using 2(3,4) zeros by (auto simp: less_Suc_eq)
    then show ?thesis using 2(1) [OF True] 2(4) zeros rest True by auto
  next
    case False
    have "snd best = 0 \<or> fst best + snd best \<le> index + 1
        \<and> (\<forall>i. fst best \<le> i \<and> i < fst best + snd best \<longrightarrow> all ! i = ''0'')" using 2(3) by auto
    moreover have "\<forall>i. index + 1 - 0 \<le> i \<and> i < index + 1 \<longrightarrow> all ! i = ''0''" by auto
    ultimately show ?thesis using 2(2) [OF False _ _ _ rest] False by (simp only: best_zero_run.simps if_False le0)
  qed
qed

lemma zero_run:
  assumes "best_zero_run 0 (0, 0) 0 hs = (s, l)" and "1 < l"
  shows "s + l \<le> length hs \<and> (\<forall>i. s \<le> i \<and> i < s + l \<longrightarrow> hs ! i = ''0'')"
  using best_zero_run_zeros [of "(0, 0)" 0 hs 0 hs] assms by auto

lemma filter_upt_unique:
  assumes "m \<le> k" and "k < n" and "P k" and "\<And>i. m \<le> i \<Longrightarrow> i < n \<Longrightarrow> i \<noteq> k \<Longrightarrow> \<not> P i"
  shows "filter P [m ..< n] = [k]"
proof -
  have "[m ..< n] = [m ..< k] @ k # [Suc k ..< n]" using assms(1,2) by (metis le_add_diff_inverse less_imp_le upt_add_eq_append upt_conv_Cons)
  moreover have "filter P [m ..< k] = []" "filter P [Suc k ..< n] = []" using assms by (auto simp: filter_empty_conv)
  ultimately show ?thesis using assms(3) by simp
qed

lemma digits_16_zero: "digits_of 16 n = ''0'' \<longleftrightarrow> n = 0"
proof -
  obtain ds where "digits_of 16 n = map digit_char ds" "from_base 16 ds = n" "\<forall>d \<in> set ds. d < 16"
    using digits_of_values [of 16 n] by auto
  then show ?thesis
    by (cases ds) (auto simp: from_base_def digits_of.simps [of 16 0] digit_char_zero digit_char_eq_zero)
qed

lemma parse_hextets_skip:
  assumes skip: "inner_empty parts = [length H + of_bool (H = [])]"
    and hs: "all_some (map parse_hextet h) = Some H" "all_some (map parse_hextet l) = Some L"
    and k: "8 - (length H + length L) = k"
    and len: "3 \<le> length parts" "length parts \<le> 9"
    and parts: "take (length H) parts = h" "drop (length parts - length L) parts = l"
      "hd parts = [] \<longleftrightarrow> H = []" "last parts = [] \<longleftrightarrow> L = []"
      "length parts - (length H + of_bool (H = [])) - 1 = length L + of_bool (L = [])"
    and "length H + length L \<le> 7"
  shows "parse_hextets parts = Some (from_base 65536 (H @ replicate k 0 @ L))"
proof -
  have "(if hd parts = [] then length H + of_bool (H = []) - 1 else length H + of_bool (H = [])) = length H"
    "(if last parts = [] then length L + of_bool (L = []) - 1 else length L + of_bool (L = [])) = length L"
    using parts(3,4) by auto
  then show ?thesis
    unfolding parse_hextets_def skip list.case Let_def parts(5)
    using len parts(1-4) hs k assms(12) by auto
qed

text \<open>The parts around a run of zeros, with the empty parts that mark its ends.\<close>

lemma parse_compressed:
  assumes H: "\<forall>x \<in> set H. x < 65536" and L: "\<forall>x \<in> set L. x < 65536" and len: "length H + k + length L = 8" "1 < k"
  shows "parse_hextets ((if H = [] then [''''] else []) @ map (digits_of 16) H @ [''''] @ map (digits_of 16) L
      @ (if L = [] then [''''] else [])) = Some (from_base 65536 (H @ replicate k 0 @ L))"
proof -
  let ?h = "map (digits_of 16) H" and ?l = "map (digits_of 16) L"
  let ?parts = "(if H = [] then [''''] else []) @ ?h @ [''''] @ ?l @ (if L = [] then [''''] else [])"
  let ?skip = "length H + of_bool (H = [])"
  have nth: "i < length ?parts - 1 \<Longrightarrow> 1 \<le> i \<Longrightarrow> i \<noteq> ?skip \<Longrightarrow> ?parts ! i \<noteq> []" for i
    by (auto simp: nth_append nth_Cons' split: if_splits)
  have skip: "inner_empty ?parts = [?skip]"
    unfolding inner_empty_def
    by (rule filter_upt_unique) (use nth in \<open>auto simp: nth_append nth_Cons' Suc_le_eq split: if_splits\<close>)
  have hs: "all_some (map parse_hextet ?h) = Some H" "all_some (map parse_hextet ?l) = Some L"
    by (rule all_some_map; use H L parse_hextet_digits in blast)+
  have k: "8 - (length H + length L) = k" using len(1) by simp
  have "3 \<le> length ?parts" "length ?parts \<le> 9" using len
    by (cases H; cases L; simp)+
  moreover have "take (length H) ?parts = ?h" "drop (length ?parts - length L) ?parts = ?l"
    by (auto simp: Suc_diff_le)
  moreover have "hd ?parts = [] \<longleftrightarrow> H = []" by (cases H) simp_all
  moreover have "last ?parts = [] \<longleftrightarrow> L = []" by (cases "L = []") (simp_all add: last_map)
  moreover have "length ?parts - ?skip - 1 = length L + of_bool (L = [])" by simp
  ultimately show ?thesis by (rule parse_hextets_skip [OF skip hs k]) (use len in simp)
qed

lemma parse_uncompressed:
  assumes "\<forall>x \<in> set xs. x < 65536" and "length xs = 8"
  shows "parse_hextets (map (digits_of 16) xs) = Some (from_base 65536 xs)"
proof -
  have "inner_empty (map (digits_of 16) xs) = []" by (auto simp: inner_empty_def filter_empty_conv)
  moreover have "all_some (map parse_hextet (map (digits_of 16) xs)) = Some xs"
    using assms(1) parse_hextet_digits by (intro all_some_map) blast
  ultimately show ?thesis using assms(2) by (simp add: parse_hextets_def)
qed

lemma parse_compress_hextets:
  assumes "\<forall>x \<in> set xs. x < 65536" and "length xs = 8"
  shows "parse_hextets (compress_hextets (map (digits_of 16) xs)) = Some (from_base 65536 xs)"
proof -
  let ?hs = "map (digits_of 16) xs"
  obtain s l where run: "best_zero_run 0 (0, 0) 0 ?hs = (s, l)" by fastforce
  show ?thesis
  proof (cases "1 < l")
    case True
    from zero_run [OF run True] have zeros: "s + l \<le> 8" "\<forall>i. s \<le> i \<and> i < s + l \<longrightarrow> xs ! i = 0"
      using assms(2) by (auto simp: digits_16_zero)
    have "take l (drop s xs) = replicate l 0"
      using zeros assms(2) by (intro nth_equalityI) auto
    then have xs: "xs = take s xs @ replicate l 0 @ drop (s + l) xs"
      by (metis append_take_drop_id drop_drop add.commute)
    have "take s xs = [] \<longleftrightarrow> s = 0" "drop (s + l) xs = [] \<longleftrightarrow> s + l = 8" using zeros(1) True assms(2) by auto
    then have "compress_hextets ?hs = (if take s xs = [] then [''''] else []) @ map (digits_of 16) (take s xs) @ ['''']
        @ map (digits_of 16) (drop (s + l) xs) @ (if drop (s + l) xs = [] then [''''] else [])"
      using True assms(2) by (simp add: compress_hextets_def run take_map drop_map)
    moreover have "\<forall>x \<in> set (take s xs). x < 65536" "\<forall>x \<in> set (drop (s + l) xs). x < 65536"
      using assms(1) by (auto dest: in_set_takeD in_set_dropD)
    moreover have "length (take s xs) + l + length (drop (s + l) xs) = 8" using zeros(1) assms(2) by simp
    ultimately show ?thesis using parse_compressed [of "take s xs" "drop (s + l) xs" l] True xs by simp
  next
    case False
    then show ?thesis using parse_uncompressed [OF assms] by (simp add: compress_hextets_def run)
  qed
qed

lemma compress_hextets_parts:
  assumes "length hs = 8"
  shows "set (compress_hextets hs) \<subseteq> insert [] (set hs)" "3 \<le> length (compress_hextets hs)"
proof -
  obtain s l where run: "best_zero_run 0 (0, 0) 0 hs = (s, l)" by fastforce
  show "set (compress_hextets hs) \<subseteq> insert [] (set hs)"
    by (auto simp: compress_hextets_def run dest: in_set_takeD in_set_dropD)
  show "3 \<le> length (compress_hextets hs)"
    using zero_run [OF run] assms by (auto simp: compress_hextets_def run)
qed

lemma ipv6_str_chars:
  assumes "c \<in> set (ipv6_str v)"
  shows "48 \<le> code c \<and> code c < 128"
proof -
  let ?hs = "map (digits_of 16) (fixed_digits 65536 8 v)"
  from assms consider "c = CHR '':''" | p where "p \<in> set (compress_hextets ?hs)" "c \<in> set p"
    using set_str_join [of "'':''" "compress_hextets ?hs"] unfolding ipv6_str_def by auto
  then show ?thesis
  proof cases
    case (2 p)
    then have "p = [] \<or> p \<in> set ?hs" using compress_hextets_parts(1) [of ?hs] by auto
    then show ?thesis using 2(2) digits_16_chars by auto
  qed simp
qed

lemma parse_ipv6_str:
  assumes "v < 2 ^ 128"
  shows "parse_ipv6 (ipv6_str v) = Some (v, None)" "parse_ipv4 (ipv6_str v) = None"
proof -
  let ?hs = "map (digits_of 16) (fixed_digits 65536 8 v)"
  let ?ps = "compress_hextets ?hs"
  have len: "length ?hs = 8" by simp
  have chars: "48 \<le> code c \<and> code c \<noteq> 58" if "c \<in> set p" "p \<in> set ?ps" for c p
    using compress_hextets_parts(1) [OF len] that digits_16_chars by fastforce
  have ne: "?ps \<noteq> []" using compress_hextets_parts(2) [OF len] by auto
  have split: "split_char CHR '':'' (ipv6_str v) = ?ps"
    unfolding ipv6_str_def using chars by (intro split_char_join_ne [OF ne]) fastforce
  have marks: "CHR ''/'' \<notin> set (ipv6_str v)" "CHR ''%'' \<notin> set (ipv6_str v)" "CHR ''.'' \<notin> set (ipv6_str v)"
    using ipv6_str_chars by fastforce+
  have "ipv6_str v \<noteq> []" using split compress_hextets_parts(2) [OF len] by (metis One_nat_def Suc_le_eq length_Cons list.size(3) not_less_eq_eq numeral_3_eq_3 split_char.simps(1) zero_le)
  moreover have "CHR ''.'' \<notin> set (last ?ps)" using chars [of "CHR ''.''"] last_in_set [OF ne] by fastforce
  then have "expand_dotted_suffix ?ps = Some ?ps" by (simp add: expand_dotted_suffix_def)
  moreover have "parse_hextets ?ps = Some v"
    using parse_compress_hextets [of "fixed_digits 65536 8 v"] fixed_digits_less [of 65536 _ 8 v] assms
      from_base_fixed_digits [of 65536 8 v] by simp
  ultimately show "parse_ipv6 (ipv6_str v) = Some (v, None)"
    using split compress_hextets_parts(2) [OF len] marks
    by (simp add: parse_ipv6_def partition_char_notin Let_def)
  show "parse_ipv4 (ipv6_str v) = None"
    using marks(3) by (simp add: parse_ipv4_def split_char_notin Let_def)
qed

section \<open>Networks\<close>

definition network_ok :: "ip_network \<Rightarrow> bool" where
  "network_ok n \<longleftrightarrow> block_ok (case n of IPv4Network v p \<Rightarrow> 32 | IPv6Network v p \<Rightarrow> 128) (network_block n)"

lemma prefix_str: "p \<le> w \<Longrightarrow> prefix_from_prefix_string w (str_nat p) = Some p"
  using str_nat_digits [of p] by (simp add: prefix_from_prefix_string_def str_nat_ne)

lemma split_network_str:
  assumes "CHR ''/'' \<notin> set a"
  shows "split_char CHR ''/'' (a @ CHR ''/'' # str_nat p) = [a, str_nat p]"
proof -
  have "CHR ''/'' \<notin> set (str_nat p)" using str_nat_codes [of "CHR ''/''" p] by auto
  then show ?thesis using assms by (simp add: split_char_append split_char_notin)
qed

lemma network_str_roundtrip:
  assumes "network_ok n"
  shows "ip_network_of strict (network_str n) = Some n"
proof (cases n)
  case (IPv4Network v p)
  have v: "unat v < 2 ^ 32" using unsigned_less [of v] by simp
  have p: "p \<le> 32" "block_base 32 (unat v) p = unat v"
    using assms IPv4Network by (simp_all add: network_ok_def block_ok_def block_base_same)
  have "CHR ''/'' \<notin> set (ipv4_str (unat v))" using ipv4_str_chars [of "CHR ''/''"] by auto
  then have "parse_block4 (network_str n) = Some (unat v, p)"
    using parse_ipv4_str [OF v] prefix_str [OF p(1)] by (simp add: IPv4Network parse_block4_def split_network_str)
  then show ?thesis using p by (simp add: ip_network_of_def IPv4Network)
next
  case (IPv6Network v p)
  have v: "unat v < 2 ^ 128" using unsigned_less [of v] by simp
  note parsed = parse_ipv6_str [OF v]
  have p: "p \<le> 128" "block_base 128 (unat v) p = unat v"
    using assms IPv6Network by (simp_all add: network_ok_def block_ok_def block_base_same)
  have slash: "CHR ''/'' \<notin> set (ipv6_str (unat v))" using ipv6_str_chars [of "CHR ''/''"] by auto
  then have "parse_block4 (network_str n) = None" "parse_block6 (network_str n) = Some (unat v, p)"
    using parsed(1,2) prefix_str [OF p(1)] by (simp_all add: IPv6Network parse_block4_def parse_block6_def split_network_str)
  then show ?thesis using p by (simp add: ip_network_of_def IPv6Network)
qed

end
