(* ===== verification/Access_Policy.thy ===== *)
theory Access_Policy
  imports Network_Text Node_Types
begin

text \<open>
  The network part of \<^verbatim>\<open>access.py\<close>: canonical CIDR lists, \<^verbatim>\<open>AccessPolicy\<close> and \<^verbatim>\<open>_peer_address\<close>, over the model of
  \<^verbatim>\<open>ipaddress\<close>. The texts of the errors that \<^verbatim>\<open>ipaddress\<close> raises are not modelled.
\<close>

section \<open>Canonical networks\<close>

definition parse_cidr :: "string \<Rightarrow> ip_network option" where
  "parse_cidr value =
     (if value = [] \<or> CHR ''%'' \<in> set value \<or> value \<noteq> str_strip value then None else ip_network_of False value)"

primrec is_ipv4_network :: "ip_network \<Rightarrow> bool" where
  "is_ipv4_network (IPv4Network v p) = True"
| "is_ipv4_network (IPv6Network v p) = False"

definition collapse_ipv4 :: "ip_network list \<Rightarrow> ip_network list" where
  "collapse_ipv4 networks =
     map (\<lambda>(a, p). IPv4Network (of_nat a) p) (collapse_addresses 32 (map network_block (filter is_ipv4_network networks)))"

definition collapse_ipv6 :: "ip_network list \<Rightarrow> ip_network list" where
  "collapse_ipv6 networks =
     map (\<lambda>(a, p). IPv6Network (of_nat a) p)
       (collapse_addresses 128 (map network_block (filter (\<lambda>n. \<not> is_ipv4_network n) networks)))"

definition canonicalize_cidrs :: "string list \<Rightarrow> py_error + string list" where
  "canonicalize_cidrs values =
     (if 128 < length values then Inl (ValueError ''access_policy_cidr_limit'')
      else case all_some (map parse_cidr values) of
        None \<Rightarrow> Inl (ValueError ''access_policy_cidr_invalid'')
      | Some networks \<Rightarrow> Inr (map network_str (collapse_ipv4 networks @ collapse_ipv6 networks)))"

section \<open>Policies\<close>

record access_policy =
  pl_camera_id :: uuid
  pl_revision :: int
  pl_internet_cidrs :: "string list"
  pl_local_cidrs :: "string list"

definition access_policy_init :: "uuid \<Rightarrow> int \<Rightarrow> string list \<Rightarrow> string list \<Rightarrow> py_error + access_policy" where
  "access_policy_init camera_id revision internet_cidrs local_cidrs =
     (if revision < 1 then Inl (ValueError ''access_policy_revision_invalid'')
      else case canonicalize_cidrs internet_cidrs of
        Inl e \<Rightarrow> Inl e
      | Inr internet \<Rightarrow>
         (case canonicalize_cidrs local_cidrs of
            Inl e \<Rightarrow> Inl e
          | Inr local \<Rightarrow>
              Inr \<lparr>pl_camera_id = camera_id, pl_revision = revision, pl_internet_cidrs = internet, pl_local_cidrs = local\<rparr>))"

text \<open>\<^verbatim>\<open>address.ipv4_mapped\<close> of an IPv6 address.\<close>

definition ipv4_mapped :: "128 word \<Rightarrow> ip_address option" where
  "ipv4_mapped v = (if unat v div 2 ^ 32 = 0xFFFF then Some (IPv4Address (of_nat (unat v mod 2 ^ 32))) else None)"

definition peer_address :: "string \<Rightarrow> py_error + ip_address" where
  "peer_address value =
     (case parse_ip_address value of
        None \<Rightarrow> Inl (ValueError ''access_peer_ip_invalid'')
      | Some (IPv4Address v) \<Rightarrow> Inr (IPv4Address v)
      | Some (IPv6Address v scope) \<Rightarrow>
          Inr (case ipv4_mapped v of Some address \<Rightarrow> address | None \<Rightarrow> IPv6Address v scope))"

text \<open>\<^verbatim>\<open>any(address in ip_network(network) for network in networks)\<close>\<close>

fun any_network :: "ip_address \<Rightarrow> string list \<Rightarrow> py_error + bool" where
  "any_network address [] = Inr False"
| "any_network address (network # networks) =
     (case ip_network_of True network of
        None \<Rightarrow> Inl (ValueError network)
      | Some n \<Rightarrow> if in_network address n then Inr True else any_network address networks)"

definition permits :: "access_policy \<Rightarrow> string \<Rightarrow> py_error + bool" where
  "permits policy peer_ip =
     (case peer_address peer_ip of
        Inl e \<Rightarrow> Inl e
      | Inr address \<Rightarrow>
         (let networks = pl_internet_cidrs policy @ pl_local_cidrs policy in
            if networks = [] then Inr True else any_network address networks))"

section \<open>What is parsed\<close>

lemma power_dvd_mod: "p \<le> w \<Longrightarrow> (2 :: nat) ^ (w - p) dvd a \<Longrightarrow> 2 ^ (w - p) dvd a mod 2 ^ w"
  by (simp add: dvd_mod le_imp_power_dvd)

lemma parse_block_prefix: "parse_block4 s = Some (a, p) \<Longrightarrow> p \<le> 32" "parse_block6 s = Some (a, p) \<Longrightarrow> p \<le> 128"
  by (auto simp: parse_block4_def parse_block6_def prefix_from_prefix_string_def prefix_from_ip_string_def
      prefix_from_ip_int_def Let_def split: list.splits option.splits if_splits)

lemma ip_network_of_ok:
  assumes "ip_network_of strict s = Some n"
  shows "network_ok n"
proof -
  have four: "block_ok 32 (unat (of_nat (block_base 32 a p) :: 32 word), p)" if "p \<le> 32" for a p
    using that power_dvd_mod [OF that block_base_dvd [of 32 p a]] unsigned_less [of "of_nat (block_base 32 a p) :: 32 word"]
    by (simp add: block_ok_def unat_of_nat)
  have six: "block_ok 128 (unat (of_nat (block_base 128 a p) :: 128 word), p)" if "p \<le> 128" for a p
    using that power_dvd_mod [OF that block_base_dvd [of 128 p a]] unsigned_less [of "of_nat (block_base 128 a p) :: 128 word"]
    by (simp add: block_ok_def unat_of_nat)
  from assms consider a p where "parse_block4 s = Some (a, p)" "n = IPv4Network (of_nat (block_base 32 a p)) p"
    | a p where "parse_block6 s = Some (a, p)" "n = IPv6Network (of_nat (block_base 128 a p)) p"
    by (auto simp: ip_network_of_def simp del: of_nat_mult split: option.splits if_splits)
  then show ?thesis
    by cases (simp_all add: network_ok_def four six parse_block_prefix)
qed

lemma parse_cidr_ok: "parse_cidr v = Some n \<Longrightarrow> network_ok n"
  by (auto simp: parse_cidr_def ip_network_of_ok split: if_splits)

lemma all_some_iff: "all_some xs = Some ys \<longleftrightarrow> xs = map Some ys"
  by (induction xs arbitrary: ys rule: all_some.induct) (auto simp: Cons_eq_map_conv)

section \<open>Collapsing networks\<close>

lemma collapsed_blocks:
  assumes "\<forall>n \<in> set ns. network_ok n"
  shows "\<forall>b \<in> set (map network_block (filter is_ipv4_network ns)). block_ok 32 b"
    "\<forall>b \<in> set (map network_block (filter (\<lambda>n. \<not> is_ipv4_network n) ns)). block_ok 128 b"
proof -
  have "network_ok n \<Longrightarrow> is_ipv4_network n \<Longrightarrow> block_ok 32 (network_block n)"
    "network_ok n \<Longrightarrow> \<not> is_ipv4_network n \<Longrightarrow> block_ok 128 (network_block n)" for n
    by (cases n; simp add: network_ok_def)+
  then show "\<forall>b \<in> set (map network_block (filter is_ipv4_network ns)). block_ok 32 b"
    "\<forall>b \<in> set (map network_block (filter (\<lambda>n. \<not> is_ipv4_network n) ns)). block_ok 128 b"
    unfolding set_map set_filter using assms by blast+
qed

lemma in_network_block:
  "in_network (IPv4Address x) n \<longleftrightarrow> is_ipv4_network n \<and> in_block 32 (unat x) (network_block n)"
  "in_network (IPv6Address y s) n \<longleftrightarrow> \<not> is_ipv4_network n \<and> in_block 128 (unat y) (network_block n)"
  by (cases n; simp)+

lemma unat_of_nat_block: "block_ok 32 (a, p) \<Longrightarrow> unat (of_nat a :: 32 word) = a" "block_ok 128 (a, p) \<Longrightarrow> unat (of_nat a :: 128 word) = a"
  by (simp_all add: block_ok_def unat_of_nat)

lemma collapse_ipv4_ok:
  assumes "\<forall>n \<in> set ns. network_ok n"
  shows "\<forall>n \<in> set (collapse_ipv4 ns). network_ok n \<and> is_ipv4_network n"
    "set (map network_block (collapse_ipv4 ns)) = set (collapse_addresses 32 (map network_block (filter is_ipv4_network ns)))"
proof -
  let ?bs = "collapse_addresses 32 (map network_block (filter is_ipv4_network ns))"
  have ok: "\<forall>b \<in> set ?bs. block_ok 32 b"
    using collapse_addresses_covered [OF collapsed_blocks(1) [OF assms]] by blast
  then show "\<forall>n \<in> set (collapse_ipv4 ns). network_ok n \<and> is_ipv4_network n"
    using unat_of_nat_block(1) by (fastforce simp: collapse_ipv4_def network_ok_def)
  have "map network_block (collapse_ipv4 ns) = ?bs"
    unfolding collapse_ipv4_def map_map by (rule map_idI) (use ok unat_of_nat_block(1) in \<open>fastforce\<close>)
  then show "set (map network_block (collapse_ipv4 ns)) = set ?bs" by simp
qed

lemma collapse_ipv6_ok:
  assumes "\<forall>n \<in> set ns. network_ok n"
  shows "\<forall>n \<in> set (collapse_ipv6 ns). network_ok n \<and> \<not> is_ipv4_network n"
    "set (map network_block (collapse_ipv6 ns)) =
      set (collapse_addresses 128 (map network_block (filter (\<lambda>n. \<not> is_ipv4_network n) ns)))"
proof -
  let ?bs = "collapse_addresses 128 (map network_block (filter (\<lambda>n. \<not> is_ipv4_network n) ns))"
  have ok: "\<forall>b \<in> set ?bs. block_ok 128 b"
    using collapse_addresses_covered [OF collapsed_blocks(2) [OF assms]] by blast
  then show "\<forall>n \<in> set (collapse_ipv6 ns). network_ok n \<and> \<not> is_ipv4_network n"
    using unat_of_nat_block(2) by (fastforce simp: collapse_ipv6_def network_ok_def)
  have "map network_block (collapse_ipv6 ns) = ?bs"
    unfolding collapse_ipv6_def map_map by (rule map_idI) (use ok unat_of_nat_block(2) in \<open>fastforce\<close>)
  then show "set (map network_block (collapse_ipv6 ns)) = set ?bs" by simp
qed

lemma collapse_covers:
  assumes "\<forall>n \<in> set ns. network_ok n"
  shows "(\<exists>n \<in> set (collapse_ipv4 ns @ collapse_ipv6 ns). in_network address n) \<longleftrightarrow> (\<exists>n \<in> set ns. in_network address n)"
proof -
  note four = collapse_ipv4_ok [OF assms] and six = collapse_ipv6_ok [OF assms]
  show ?thesis
  proof (cases address)
    case (IPv4Address x)
    have "(\<exists>n \<in> set (collapse_ipv4 ns @ collapse_ipv6 ns). in_network address n)
        \<longleftrightarrow> covered 32 (unat x) (set (map network_block (collapse_ipv4 ns)))"
      using four(1) six(1) by (auto simp: IPv4Address in_network_block covered_def)
    also have "\<dots> \<longleftrightarrow> covered 32 (unat x) (set (map network_block (filter is_ipv4_network ns)))"
      using four(2) collapse_addresses_covered [OF collapsed_blocks(1) [OF assms]] by simp
    finally show ?thesis by (auto simp: IPv4Address in_network_block covered_def)
  next
    case (IPv6Address x s)
    have "(\<exists>n \<in> set (collapse_ipv4 ns @ collapse_ipv6 ns). in_network address n)
        \<longleftrightarrow> covered 128 (unat x) (set (map network_block (collapse_ipv6 ns)))"
      using four(1) six(1) by (auto simp: IPv6Address in_network_block covered_def)
    also have "\<dots> \<longleftrightarrow> covered 128 (unat x) (set (map network_block (filter (\<lambda>n. \<not> is_ipv4_network n) ns)))"
      using six(2) collapse_addresses_covered [OF collapsed_blocks(2) [OF assms]] by simp
    finally show ?thesis by (auto simp: IPv6Address in_network_block covered_def)
  qed
qed

lemma network_self:
  assumes "network_ok n"
  shows "\<exists>address. in_network address n"
proof (cases n)
  case (IPv4Network v p)
  then have "in_network (IPv4Address v) n" using assms by (simp add: network_ok_def block_ok_def in_block_def block_base_same)
  then show ?thesis ..
next
  case (IPv6Network v p)
  then have "in_network (IPv6Address v None) n" using assms by (simp add: network_ok_def block_ok_def in_block_def block_base_same)
  then show ?thesis ..
qed

end
