(* ===== verification/Access_Data.thy ===== *)
theory Access_Data
  imports Access_Policy Identifiers
begin

text \<open>
  The data of \<^verbatim>\<open>access.py\<close> with the checks of its constructors, and the telemetry of decisions. A \<^verbatim>\<open>datetime\<close> is a
  number of microseconds, so that the checks for a missing time zone have no counterpart. Ids of pepper keys come
  from a file and may be any text: they are lists of code points.
\<close>

section \<open>Grants\<close>

record access_grant =
  ag_id :: uuid
  ag_camera_id :: uuid
  ag_username :: string
  ag_token_verifier :: string
  ag_pepper_key_id :: "nat list"
  ag_not_before :: datetime
  ag_expires_at :: "datetime option"
  ag_revoked_at :: "datetime option"
  ag_revision :: int
  ag_kind :: string
  ag_created_by :: string
  ag_last_used_at :: "datetime option"

definition uuid_hex :: "uuid \<Rightarrow> string" where
  "uuid_hex u = hex_fixed 32 (unat u)"

definition grant_username :: "uuid \<Rightarrow> string" where
  "grant_username u = ''grant-'' @ uuid_hex u"

definition access_grant_post_init :: "access_grant \<Rightarrow> py_error option" where
  "access_grant_post_init g =
     (if ag_username g \<noteq> grant_username (ag_id g) then Some (ValueError ''access_grant_username_invalid'')
      else if length (ag_token_verifier g) \<noteq> 64 \<or> \<not> all_lower_hex (ag_token_verifier g)
      then Some (ValueError ''access_grant_verifier_invalid'')
      else if ag_pepper_key_id g = [] \<or> 64 < length (ag_pepper_key_id g)
      then Some (ValueError ''access_grant_pepper_key_invalid'')
      else if (\<exists>e \<in> set_option (ag_expires_at g). e \<le> ag_not_before g)
      then Some (ValueError ''access_grant_window_invalid'')
      else if ag_revision g < 1 then Some (ValueError ''access_grant_revision_invalid'')
      else if ag_kind g \<notin> {''temporary'', ''service''} then Some (ValueError ''access_grant_kind_invalid'')
      else if ag_expires_at g = None \<and> ag_kind g \<noteq> ''service'' then Some (ValueError ''access_grant_lifetime_invalid'')
      else if ag_created_by g = [] \<or> 128 < length (ag_created_by g) then Some (ValueError ''access_grant_creator_invalid'')
      else None)"

definition active_at :: "access_grant \<Rightarrow> datetime \<Rightarrow> bool" where
  "active_at g moment \<longleftrightarrow>
     ag_not_before g \<le> moment \<and> (\<forall>e \<in> set_option (ag_expires_at g). moment < e)
     \<and> (\<forall>r \<in> set_option (ag_revoked_at g). moment < r)"

record access_grant_summary =
  gs_id :: uuid
  gs_camera_id :: uuid
  gs_username :: string
  gs_not_before :: datetime
  gs_expires_at :: "datetime option"
  gs_revoked_at :: "datetime option"
  gs_revision :: int
  gs_kind :: string
  gs_created_by :: string
  gs_last_used_at :: "datetime option"

definition from_grant :: "access_grant \<Rightarrow> access_grant_summary" where
  "from_grant g =
     \<lparr>gs_id = ag_id g, gs_camera_id = ag_camera_id g, gs_username = ag_username g, gs_not_before = ag_not_before g,
      gs_expires_at = ag_expires_at g, gs_revoked_at = ag_revoked_at g, gs_revision = ag_revision g,
      gs_kind = ag_kind g, gs_created_by = ag_created_by g, gs_last_used_at = ag_last_used_at g\<rparr>"

record access_grant_page =
  gp_items :: "access_grant_summary list"
  gp_truncated :: bool

record access_grant_idempotency =
  gi_key :: uuid
  gi_actor_account_id :: uuid
  gi_actor_session_id :: uuid
  gi_operation :: string
  gi_camera_id :: uuid
  gi_source_grant_id :: "uuid option"
  gi_replacement_grant_id :: uuid
  gi_request_sha256 :: string

definition access_grant_idempotency_post_init :: "access_grant_idempotency \<Rightarrow> py_error option" where
  "access_grant_idempotency_post_init i =
     (if uuid_version (gi_key i) \<noteq> Some 4
         \<or> gi_operation i \<notin> {''issue'', ''rotate''}
         \<or> (gi_operation i = ''issue'') \<noteq> (gi_source_grant_id i = None)
         \<or> length (gi_request_sha256 i) \<noteq> 64
         \<or> \<not> all_lower_hex (gi_request_sha256 i)
      then Some (ValueError ''access_grant_idempotency_invalid'') else None)"

section \<open>Requests and decisions\<close>

record access_target =
  tg_camera_id :: uuid
  tg_node_id :: uuid
  tg_public_id :: public_id
  tg_enabled :: bool
  tg_policy :: access_policy

definition access_target_post_init :: "access_target \<Rightarrow> py_error option" where
  "access_target_post_init t =
     (if pl_camera_id (tg_policy t) \<noteq> tg_camera_id t then Some (ValueError ''access_target_policy_mismatch'') else None)"

record authorize_request =
  ar_node_id :: uuid
  ar_public_id :: public_id
  ar_peer_ip :: string
  ar_username :: string
  ar_password :: string
  ar_action :: string
  ar_protocol :: string

definition authorize_request_post_init :: "authorize_request \<Rightarrow> py_error option" where
  "authorize_request_post_init r =
     (case peer_address (ar_peer_ip r) of
        Inl e \<Rightarrow> Some e
      | Inr address \<Rightarrow>
          if 64 < length (ar_username r) \<or> 256 < length (ar_password r)
          then Some (ValueError ''access_request_credentials_invalid'') else None)"

datatype access_decision_reason = ADR_ALLOWED | ADR_REQUEST_DENIED | ADR_TARGET_DENIED | ADR_IP_DENIED
  | ADR_CREDENTIAL_DENIED | ADR_GRANT_INACTIVE

fun access_decision_reason_value :: "access_decision_reason \<Rightarrow> string" where
  "access_decision_reason_value ADR_ALLOWED = ''allowed''"
| "access_decision_reason_value ADR_REQUEST_DENIED = ''request_denied''"
| "access_decision_reason_value ADR_TARGET_DENIED = ''target_denied''"
| "access_decision_reason_value ADR_IP_DENIED = ''ip_denied''"
| "access_decision_reason_value ADR_CREDENTIAL_DENIED = ''credential_denied''"
| "access_decision_reason_value ADR_GRANT_INACTIVE = ''grant_inactive''"

record access_decision =
  ad_allowed :: bool
  ad_reason :: access_decision_reason
  ad_camera_id :: "uuid option"
  ad_grant_id :: "uuid option"
  ad_last_use_persisted :: "bool option"

definition access_decision_post_init :: "access_decision \<Rightarrow> py_error option" where
  "access_decision_post_init d =
     (if ad_allowed d \<noteq> (ad_reason d = ADR_ALLOWED) then Some (ValueError ''access_decision_invalid'')
      else if ad_allowed d \<and> (ad_camera_id d = None \<or> ad_grant_id d = None)
      then Some (ValueError ''access_decision_identity_missing'')
      else if ad_allowed d \<noteq> (ad_last_use_persisted d \<noteq> None)
      then Some (ValueError ''access_decision_metadata_invalid'') else None)"

record access_decision_event =
  ev_reason :: access_decision_reason
  ev_allowed :: bool
  ev_node_id :: uuid
  ev_action :: string
  ev_protocol :: string
  ev_peer_family :: string
  ev_peer_ip :: string
  ev_public_id :: public_id
  ev_camera_id :: "uuid option"
  ev_grant_id :: "uuid option"
  ev_last_use_persisted :: "bool option"

section \<open>Telemetry\<close>

type_synonym metric_key = "string \<times> bool \<times> string \<times> string \<times> string"

text \<open>The counters are kept in the order in which their keys were first seen, as a \<^verbatim>\<open>Counter\<close> does.\<close>

record decision_telemetry =
  dt_maximum_audit_events :: int
  dt_counters :: "(metric_key \<times> nat) list"
  dt_audit :: "access_decision_event list"
  dt_dropped_audit :: nat
  dt_last_use_persistence_failures :: nat

record access_decision_snapshot =
  sn_counters :: "(metric_key \<times> nat) list"
  sn_recent_audit :: "access_decision_event list"
  sn_dropped_audit :: nat
  sn_last_use_persistence_failures :: nat

definition telemetry_init :: "int \<Rightarrow> py_error + decision_telemetry" where
  "telemetry_init maximum_audit_events =
     (if maximum_audit_events < 1 then Inl (ValueError ''access_decision_telemetry_invalid'')
      else Inr \<lparr>dt_maximum_audit_events = maximum_audit_events, dt_counters = [], dt_audit = [],
                dt_dropped_audit = 0, dt_last_use_persistence_failures = 0\<rparr>)"

fun increment :: "'k \<Rightarrow> ('k \<times> nat) list \<Rightarrow> ('k \<times> nat) list" where
  "increment k [] = [(k, 1)]"
| "increment k ((k', n) # c) = (if k' = k then (k', n + 1) # c else (k', n) # increment k c)"

definition metric_key_of :: "access_decision_event \<Rightarrow> metric_key" where
  "metric_key_of e =
     (access_decision_reason_value (ev_reason e), ev_allowed e, ev_action e, ev_protocol e, ev_peer_family e)"

text \<open>\<^verbatim>\<open>deque(maxlen=n).append(x)\<close>\<close>

definition append_bounded :: "int \<Rightarrow> 'a \<Rightarrow> 'a list \<Rightarrow> 'a list" where
  "append_bounded n x xs = (if int (length xs) = n then tl xs @ [x] else xs @ [x])"

definition record_event :: "access_decision_event \<Rightarrow> decision_telemetry \<Rightarrow> decision_telemetry" where
  "record_event e t =
     t\<lparr>dt_counters := increment (metric_key_of e) (dt_counters t),
       dt_last_use_persistence_failures :=
         dt_last_use_persistence_failures t + of_bool (ev_last_use_persisted e = Some False),
       dt_dropped_audit := dt_dropped_audit t + of_bool (int (length (dt_audit t)) = dt_maximum_audit_events t),
       dt_audit := append_bounded (dt_maximum_audit_events t) e (dt_audit t)\<rparr>"

definition telemetry_snapshot :: "decision_telemetry \<Rightarrow> access_decision_snapshot" where
  "telemetry_snapshot t =
     \<lparr>sn_counters = dt_counters t, sn_recent_audit = dt_audit t, sn_dropped_audit = dt_dropped_audit t,
      sn_last_use_persistence_failures = dt_last_use_persistence_failures t\<rparr>"

end
