(* ===== verification/Pepper_Verifier.thy ===== *)
theory Pepper_Verifier
  imports Access_Data Confirmation_Tokens
begin

text \<open>
  \<^verbatim>\<open>PepperVerifier\<close> and \<^verbatim>\<open>load_pepper_verifier\<close> of \<^verbatim>\<open>access.py\<close>, with what they use of \<^verbatim>\<open>base64\<close> and \<^verbatim>\<open>bytes.fromhex\<close>. The
  HMAC is a function of the key and the bytes. What the operating system says of the pepper file is a record.
\<close>

section \<open>Standard Base64\<close>

definition b64_std :: "char \<Rightarrow> char" where
  "b64_std c = (if c = CHR ''-'' then CHR ''+'' else if c = CHR ''_'' then CHR ''/'' else c)"

definition b64encode :: "nat list \<Rightarrow> string" where
  "b64encode bs = map b64_std (urlsafe_b64encode bs)"

definition b64_std_value :: "char \<Rightarrow> nat option" where
  "b64_std_value c = (if c = CHR ''-'' \<or> c = CHR ''_'' then None else b64_value c)"

text \<open>
  \<^verbatim>\<open>a2b_base64(s, strict_mode=True)\<close>: only the alphabet, padding only where it completes a group, and nothing after it.
\<close>

fun a2b_strict :: "bool \<Rightarrow> nat \<Rightarrow> nat \<Rightarrow> nat \<Rightarrow> string \<Rightarrow> nat list option" where
  "a2b_strict padding pos left pads [] = (if pos = 0 then Some [] else None)"
| "a2b_strict padding pos left pads (c # cs) =
     (if c = CHR ''='' then
        (if pos = 0 then None
         else if 2 \<le> pos \<and> 4 \<le> pos + (pads + 1) then (if cs = [] then Some [] else None)
         else a2b_strict True pos left (if 2 \<le> pos then pads + 1 else pads) cs)
      else
        (case b64_std_value c of
           None \<Rightarrow> None
         | Some d \<Rightarrow>
             if padding then None
             else if pos = 0 then a2b_strict padding 1 d 0 cs
             else if pos = 1 then map_option ((#) (left * 4 + d div 16)) (a2b_strict padding 2 (d mod 16) 0 cs)
             else if pos = 2 then map_option ((#) (left * 16 + d div 4)) (a2b_strict padding 3 (d mod 4) 0 cs)
             else map_option ((#) (left * 64 + d)) (a2b_strict padding 0 0 0 cs)))"

definition b64decode_strict :: "string \<Rightarrow> nat list option" where
  "b64decode_strict s = (if list_all (\<lambda>c. code c < 128) s then a2b_strict False 0 0 0 s else None)"

text \<open>\<^verbatim>\<open>b.decode("ascii")\<close>\<close>

definition ascii_decode :: "nat list \<Rightarrow> string option" where
  "ascii_decode bs = (if list_all (\<lambda>b. b < 128) bs then Some (map char_of bs) else None)"

section \<open>The verifier\<close>

record pepper_verifier =
  pv_primary_key_id :: "nat list"
  pv_keys :: "(nat list \<times> nat list) list"
  pv_hmac :: "nat list \<Rightarrow> nat list \<Rightarrow> string"

text \<open>The keys are a \<^verbatim>\<open>dict\<close>: a list of pairs with distinct first parts.\<close>

definition pepper_verifier_init ::
  "(nat list \<Rightarrow> nat list \<Rightarrow> string) \<Rightarrow> nat list \<Rightarrow> (nat list \<times> nat list) list \<Rightarrow> py_error + pepper_verifier" where
  "pepper_verifier_init hmac primary_key_id keys =
     (if primary_key_id = [] \<or> map_of keys primary_key_id = None \<or> length keys < 1 \<or> 2 < length keys
         \<or> (\<exists>k \<in> set keys. fst k = [] \<or> 64 < length (fst k)) \<or> (\<exists>k \<in> set keys. length (snd k) < 32)
      then Inl (ValueError ''access_pepper_configuration_invalid'')
      else Inr \<lparr>pv_primary_key_id = primary_key_id, pv_keys = keys, pv_hmac = hmac\<rparr>)"

definition pepper_digest :: "pepper_verifier \<Rightarrow> string \<Rightarrow> nat list option \<Rightarrow> py_error + string" where
  "pepper_digest v secret key_id =
     (case map_of (pv_keys v) (case key_id of None \<Rightarrow> pv_primary_key_id v | Some k \<Rightarrow> k) of
        None \<Rightarrow> Inl (ValueError ''access_pepper_key_unavailable'')
      | Some key \<Rightarrow> Inr (pv_hmac v key (utf8_encode secret)))"

definition pepper_verify :: "pepper_verifier \<Rightarrow> string \<Rightarrow> string \<Rightarrow> nat list \<Rightarrow> py_error + bool" where
  "pepper_verify v secret expected key_id =
     (if 256 < length secret then Inr False
      else case pepper_digest v secret (Some key_id) of
        Inl e \<Rightarrow> Inr False
      | Inr actual \<Rightarrow> compare_digest actual expected)"

definition callback_username :: "uuid \<Rightarrow> string" where
  "callback_username node_id = ''callback-'' @ uuid_str node_id"

definition callback_message :: "uuid \<Rightarrow> string" where
  "callback_message node_id = ''rtsp-proxy-media-callback:'' @ uuid_str node_id"

definition callback_credentials :: "pepper_verifier \<Rightarrow> uuid \<Rightarrow> py_error + (string \<times> string)" where
  "callback_credentials v node_id =
     map_sum id (\<lambda>password. (callback_username node_id, password)) (pepper_digest v (callback_message node_id) None)"

definition callback_authorization :: "pepper_verifier \<Rightarrow> uuid \<Rightarrow> py_error + string" where
  "callback_authorization v node_id =
     map_sum id (\<lambda>(username, password). ''Basic '' @ b64encode (ascii_encode (username @ CHR '':'' # password)))
       (callback_credentials v node_id)"

definition verify_callback_authorization :: "pepper_verifier \<Rightarrow> uuid \<Rightarrow> string option \<Rightarrow> py_error + bool" where
  "verify_callback_authorization v node_id authorization =
     (case authorization of
        None \<Rightarrow> Inr False
      | Some value \<Rightarrow>
          if \<not> starts_with ''Basic '' value then Inr False
          else (case b64decode_strict (drop 6 value) of
            None \<Rightarrow> Inr False
          | Some bytes \<Rightarrow>
             (case ascii_decode bytes of
                None \<Rightarrow> Inr False
              | Some decoded \<Rightarrow>
                 (case partition_char CHR '':'' decoded of
                    (username, found, password) \<Rightarrow>
                      if \<not> found then Inr False
                      else if username \<noteq> callback_username node_id then Inr False
                      else Inr (\<exists>k \<in> set (pv_keys v). password = pv_hmac v (snd k) (ascii_encode (callback_message node_id)))))))"

section \<open>The pepper file\<close>

text \<open>\<^verbatim>\<open>bytes.fromhex(s)\<close>: pairs of digits with white space between them.\<close>

definition is_ascii_space :: "nat \<Rightarrow> bool" where
  "is_ascii_space n \<longleftrightarrow> n = 32 \<or> (9 \<le> n \<and> n \<le> 13)"

fun fromhex :: "nat list \<Rightarrow> nat list option" where
  "fromhex [] = Some []"
| "fromhex (a # cs) =
     (if is_ascii_space a then fromhex cs
      else case cs of
        [] \<Rightarrow> None
      | b # r \<Rightarrow>
         (case (hex_digit a, hex_digit b) of
            (Some x, Some y) \<Rightarrow> map_option ((#) (16 * x + y)) (fromhex r)
          | _ \<Rightarrow> None))"

text \<open>
  \<^verbatim>\<open>bytes.fromhex(str(value))\<close> of a parsed value: an integer is read as its digits; the text of every other value that
  is no string has characters that are no digits.
\<close>

definition hex_key :: "json_value \<Rightarrow> nat list option" where
  "hex_key value =
     (case value of
        JV_Str s \<Rightarrow> fromhex s
      | JV_Int n \<Rightarrow> fromhex (map code (str_int n))
      | _ \<Rightarrow> None)"

text \<open>A parsed object as a \<^verbatim>\<open>dict\<close>: a repeated name keeps its place and its last value.\<close>

definition dict_items :: "(nat list \<times> json_value) list \<Rightarrow> (nat list \<times> json_value) list" where
  "dict_items kvs = map (\<lambda>k. (k, the (map_of (rev kvs) k))) (rev (remdups (rev (map fst kvs))))"

definition hex_keys :: "(nat list \<times> json_value) list \<Rightarrow> (nat list \<times> nat list) list option" where
  "hex_keys kvs = all_some (map (\<lambda>(k, value). map_option (\<lambda>key. (k, key)) (hex_key value)) (dict_items kvs))"

record file_stat =
  fs_is_regular :: bool
  fs_nlink :: int
  fs_uid :: int
  fs_gid :: int
  fs_mode :: int
  fs_size :: int

text \<open>The group, the file and its first 4097 bytes, each of which may be missing. The mode must be \<^verbatim>\<open>0o640\<close>.\<close>

record pepper_file =
  pf_expected_gid :: "int option"
  pf_stat :: "file_stat option"
  pf_raw :: "nat list option"

definition file_stat_safe :: "file_stat \<Rightarrow> int \<Rightarrow> bool" where
  "file_stat_safe st expected_gid \<longleftrightarrow>
     fs_is_regular st \<and> fs_nlink st = 1 \<and> fs_uid st = 0 \<and> fs_gid st = expected_gid \<and> fs_mode st = 416
     \<and> 1 \<le> fs_size st \<and> fs_size st \<le> 4096"

definition parse_pepper ::
  "(nat list \<Rightarrow> nat list \<Rightarrow> string) \<Rightarrow> nat list \<Rightarrow> py_error + pepper_verifier" where
  "parse_pepper hmac raw =
     (case json_loads raw of
        Some (JV_Obj payload) \<Rightarrow>
          if fst ` set payload \<noteq> {map code ''primary_key_id'', map code ''keys''} then Inl (ValueError '''')
          else (case (member_of ''primary_key_id'' payload, member_of ''keys'' payload) of
                  (Some (JV_Str key_id), Some (JV_Obj keys)) \<Rightarrow>
                    (case hex_keys keys of
                       None \<Rightarrow> Inl (ValueError '''')
                     | Some ks \<Rightarrow> pepper_verifier_init hmac key_id ks)
                | _ \<Rightarrow> Inl (ValueError ''''))
      | _ \<Rightarrow> Inl (ValueError ''''))"

definition load_pepper_verifier ::
  "(nat list \<Rightarrow> nat list \<Rightarrow> string) \<Rightarrow> pepper_file \<Rightarrow> py_error + pepper_verifier" where
  "load_pepper_verifier hmac f =
     (case (pf_expected_gid f, pf_stat f, pf_raw f) of
        (Some gid, Some st, Some raw) \<Rightarrow>
          if \<not> file_stat_safe st gid then Inl (AccessPepperFileError ''access_pepper_file_unsafe'')
          else map_sum (\<lambda>e. AccessPepperFileError ''access_pepper_file_unsafe'') id (parse_pepper hmac raw)
      | _ \<Rightarrow> Inl (AccessPepperFileError ''access_pepper_file_unsafe''))"

end
