(* ===== verification/Access_Limiter.thy ===== *)
theory Access_Limiter
  imports Access_Data Complex_Main
begin

text \<open>
  \<^verbatim>\<open>AccessAttemptLimiter\<close> of \<^verbatim>\<open>access.py\<close>. A \<^verbatim>\<open>float\<close> is the rational number it denotes; every arithmetic operation rounds
  its exact result with a function that is part of the limiter. The \<^verbatim>\<open>OrderedDict\<close> of buckets and the \<^verbatim>\<open>dict\<close> of pending
  requests are lists of pairs in the order of insertion; the lock makes each operation one step.
\<close>

record rate_bucket =
  rb_tokens :: rat
  rb_updated :: rat

record attempt_limiter =
  al_peer_rate :: rat
  al_peer_burst :: rat
  al_grant_rate :: rat
  al_grant_burst :: rat
  al_maximum_keys :: int
  al_maximum_pending_per_peer :: int
  al_buckets :: "(string \<times> rate_bucket) list"
  al_pending :: "(string \<times> int) list"
  al_round :: "rat \<Rightarrow> rat"

definition limiter_init ::
  "(rat \<Rightarrow> rat) \<Rightarrow> int \<Rightarrow> int \<Rightarrow> int \<Rightarrow> int \<Rightarrow> int \<Rightarrow> int \<Rightarrow> py_error + attempt_limiter" where
  "limiter_init rnd peer_rate peer_burst grant_rate grant_burst maximum_pending_per_peer maximum_keys =
     (if Min {peer_rate, peer_burst, grant_rate, grant_burst, maximum_pending_per_peer, maximum_keys} < 1
         \<or> peer_burst < peer_rate \<or> grant_burst < grant_rate
      then Inl (ValueError ''access_attempt_limiter_invalid'')
      else Inr \<lparr>al_peer_rate = of_int peer_rate, al_peer_burst = of_int peer_burst, al_grant_rate = of_int grant_rate,
                al_grant_burst = of_int grant_burst, al_maximum_keys = maximum_keys,
                al_maximum_pending_per_peer = maximum_pending_per_peer, al_buckets = [], al_pending = [], al_round = rnd\<rparr>)"

definition peer_key :: "string \<Rightarrow> py_error + string" where
  "peer_key peer_ip = map_sum id address_str (peer_address peer_ip)"

text \<open>\<^verbatim>\<open>d[k] = v\<close>: a new key goes to the end.\<close>

fun dict_put :: "'k \<Rightarrow> 'v \<Rightarrow> ('k \<times> 'v) list \<Rightarrow> ('k \<times> 'v) list" where
  "dict_put k v [] = [(k, v)]"
| "dict_put k v ((k', v') # d) = (if k' = k then (k, v) # d else (k', v') # dict_put k v d)"

definition dict_del :: "'k \<Rightarrow> ('k \<times> 'v) list \<Rightarrow> ('k \<times> 'v) list" where
  "dict_del k d = filter (\<lambda>e. fst e \<noteq> k) d"

definition begin_key :: "string \<Rightarrow> attempt_limiter \<Rightarrow> bool \<times> attempt_limiter" where
  "begin_key key l =
     (let current = (case map_of (al_pending l) key of None \<Rightarrow> 0 | Some n \<Rightarrow> n) in
        if al_maximum_pending_per_peer l \<le> current then (False, l)
        else if current = 0 \<and> al_maximum_keys l \<le> int (length (al_pending l)) then (False, l)
        else (True, l\<lparr>al_pending := dict_put key (current + 1) (al_pending l)\<rparr>))"

definition begin_peer :: "string \<Rightarrow> attempt_limiter \<Rightarrow> py_error + (bool \<times> attempt_limiter)" where
  "begin_peer peer_ip l = map_sum id (\<lambda>key. begin_key key l) (peer_key peer_ip)"

definition end_key :: "string \<Rightarrow> attempt_limiter \<Rightarrow> py_error + attempt_limiter" where
  "end_key key l =
     (case map_of (al_pending l) key of
        None \<Rightarrow> Inl (RuntimeError ''access_attempt_pending_missing'')
      | Some current \<Rightarrow>
          Inr (l\<lparr>al_pending := (if current = 1 then dict_del key (al_pending l)
                                else dict_put key (current - 1) (al_pending l))\<rparr>))"

definition end_peer :: "string \<Rightarrow> attempt_limiter \<Rightarrow> py_error + attempt_limiter" where
  "end_peer peer_ip l = (case peer_key peer_ip of Inl e \<Rightarrow> Inl e | Inr key \<Rightarrow> end_key key l)"

text \<open>The tokens of a bucket at a time: \<^verbatim>\<open>min(burst, tokens + max(0.0, now - updated) * rate)\<close>.\<close>

definition refilled :: "(rat \<Rightarrow> rat) \<Rightarrow> rate_bucket \<Rightarrow> rat \<Rightarrow> rat \<Rightarrow> rat \<Rightarrow> rat" where
  "refilled rnd b now rate burst =
     min burst (rnd (rb_tokens b + rnd (max 0 (rnd (now - rb_updated b)) * rate)))"

definition allow :: "string \<Rightarrow> rat \<Rightarrow> rat \<Rightarrow> rat \<Rightarrow> attempt_limiter \<Rightarrow> bool \<times> attempt_limiter" where
  "allow key rate burst now l =
     (let others = dict_del key (al_buckets l);
          (bucket, kept) =
            (case map_of (al_buckets l) key of
               Some b \<Rightarrow> (b, others)
             | None \<Rightarrow> (\<lparr>rb_tokens = burst, rb_updated = now\<rparr>,
                        if al_maximum_keys l \<le> int (length others) then tl others else others));
          tokens = refilled (al_round l) bucket now rate burst;
          allowed = 1 \<le> tokens
      in (allowed, l\<lparr>al_buckets := kept @
            [(key, \<lparr>rb_tokens = (if allowed then al_round l (tokens - 1) else tokens), rb_updated = now\<rparr>)]\<rparr>))"

definition allow_peer :: "string \<Rightarrow> rat \<Rightarrow> attempt_limiter \<Rightarrow> py_error + (bool \<times> attempt_limiter)" where
  "allow_peer peer_ip now l =
     map_sum id (\<lambda>key. allow (''peer:'' @ key) (al_peer_rate l) (al_peer_burst l) now l) (peer_key peer_ip)"

definition allow_grant :: "uuid \<Rightarrow> uuid \<Rightarrow> rat \<Rightarrow> attempt_limiter \<Rightarrow> bool \<times> attempt_limiter" where
  "allow_grant camera_id grant_id now l =
     allow (''grant:'' @ uuid_str camera_id @ CHR '':'' # uuid_str grant_id) (al_grant_rate l) (al_grant_burst l) now l"

end
