(* ===== verification/Access_Authorizer.thy ===== *)
theory Access_Authorizer
  imports Pepper_Verifier Access_Limiter Control_Monad
begin

text \<open>
  \<^verbatim>\<open>AccessAuthorizer\<close> of \<^verbatim>\<open>access.py\<close>: the decision on a request of a media node. The store, the two clocks and the sink
  of decisions are what it is constructed with: functions of an outside state that may raise. The limiter is the model
  of \<^verbatim>\<open>AccessAttemptLimiter\<close>, part of the state.
\<close>

record 'x access_state =
  as_attempts :: "attempt_limiter option"
  as_outside :: 'x

record 'x access_authorizer =
  az_get_access_target :: "uuid \<Rightarrow> public_id \<Rightarrow> 'x \<Rightarrow> (py_error + access_target option) \<times> 'x"
  az_get_access_grant :: "uuid \<Rightarrow> string \<Rightarrow> 'x \<Rightarrow> (py_error + access_grant option) \<times> 'x"
  az_rehash_access_grant :: "uuid \<Rightarrow> string \<Rightarrow> nat list \<Rightarrow> int \<Rightarrow> 'x \<Rightarrow> (py_error + bool) \<times> 'x"
  az_mark_access_grant_used :: "uuid \<Rightarrow> 'x \<Rightarrow> (py_error + bool) \<times> 'x"
  az_verifier :: pepper_verifier
  az_clock :: "'x \<Rightarrow> datetime \<times> 'x"
  az_monotonic :: "'x \<Rightarrow> rat \<times> 'x"
  az_decision_sink :: "(access_decision_event \<Rightarrow> 'x \<Rightarrow> (py_error + unit) \<times> 'x) option"

definition outside :: "('x \<Rightarrow> (py_error + 'a) \<times> 'x) \<Rightarrow> ('x access_state, 'a) action" where
  "outside f = external (\<lambda>s. case f (as_outside s) of (r, x) \<Rightarrow> (r, s\<lparr>as_outside := x\<rparr>))"

text \<open>A call of the limiter; without one every attempt is let through.\<close>

definition attempts :: "(attempt_limiter \<Rightarrow> py_error + (bool \<times> attempt_limiter)) \<Rightarrow> ('x access_state, bool) action" where
  "attempts f = external (\<lambda>s.
     case as_attempts s of
       None \<Rightarrow> (Inr True, s)
     | Some l \<Rightarrow> (case f l of Inl e \<Rightarrow> (Inl e, s) | Inr (ok, l') \<Rightarrow> (Inr ok, s\<lparr>as_attempts := Some l'\<rparr>)))"

definition monotonic_time :: "'x access_authorizer \<Rightarrow> ('x access_state, rat) action" where
  "monotonic_time a = outside (\<lambda>x. apfst Inr (az_monotonic a x))"

definition limited :: "'x access_authorizer \<Rightarrow> (rat \<Rightarrow> attempt_limiter \<Rightarrow> py_error + (bool \<times> attempt_limiter))
    \<Rightarrow> ('x access_state, bool) action" where
  "limited a f w =
     (if as_attempts (w_ext w) = None then ret True w
      else and_then (monotonic_time a) (\<lambda>now. attempts (f now)) w)"

definition denied :: "access_decision_reason \<Rightarrow> access_decision" where
  "denied reason =
     \<lparr>ad_allowed = False, ad_reason = reason, ad_camera_id = None, ad_grant_id = None, ad_last_use_persisted = None\<rparr>"

definition rehash :: "'x access_authorizer \<Rightarrow> access_grant \<Rightarrow> string \<Rightarrow> ('x access_state, bool) action" where
  "rehash a grant password =
     (if ag_pepper_key_id grant = pv_primary_key_id (az_verifier a) then ret True
      else and_then (from_sum (pepper_digest (az_verifier a) password None)) (\<lambda>digest.
             outside (az_rehash_access_grant a (ag_id grant) digest (pv_primary_key_id (az_verifier a)) (ag_revision grant))))"

definition mark_used :: "'x access_authorizer \<Rightarrow> access_grant \<Rightarrow> ('x access_state, bool) action" where
  "mark_used a grant =
     and_then (attempt (outside (az_mark_access_grant_used a (ag_id grant)))) (\<lambda>r.
       ret (case r of Inl e \<Rightarrow> False | Inr b \<Rightarrow> b))"

definition authorize_grant ::
  "'x access_authorizer \<Rightarrow> authorize_request \<Rightarrow> access_target \<Rightarrow> access_grant \<Rightarrow> ('x access_state, access_decision) action" where
  "authorize_grant a request target grant =
     and_then (limited a (\<lambda>now l. Inr (allow_grant (tg_camera_id target) (ag_id grant) now l))) (\<lambda>ok.
       if \<not> ok then ret (denied ADR_REQUEST_DENIED)
       else and_then (outside (\<lambda>x. apfst Inr (az_clock a x))) (\<lambda>now.
         if \<not> active_at grant now then ret (denied ADR_GRANT_INACTIVE)
         else and_then (from_sum (pepper_verify (az_verifier a) (ar_password request) (ag_token_verifier grant)
                         (ag_pepper_key_id grant))) (\<lambda>verified.
           if \<not> verified then ret (denied ADR_CREDENTIAL_DENIED)
           else and_then (rehash a grant (ar_password request)) (\<lambda>rehashed.
             if \<not> rehashed then ret (denied ADR_CREDENTIAL_DENIED)
             else and_then (mark_used a grant) (\<lambda>last_use_persisted.
               ret \<lparr>ad_allowed = True, ad_reason = ADR_ALLOWED, ad_camera_id = Some (tg_camera_id target),
                    ad_grant_id = Some (ag_id grant), ad_last_use_persisted = Some last_use_persisted\<rparr>)))))"

definition authorize_started :: "'x access_authorizer \<Rightarrow> authorize_request \<Rightarrow> ('x access_state, access_decision) action" where
  "authorize_started a request =
     (if ar_action request \<noteq> ''read'' \<or> ar_protocol request \<noteq> ''rtsp'' then ret (denied ADR_REQUEST_DENIED)
      else and_then (limited a (\<lambda>now. allow_peer (ar_peer_ip request) now)) (\<lambda>ok.
        if \<not> ok then ret (denied ADR_REQUEST_DENIED)
        else and_then (outside (az_get_access_target a (ar_node_id request) (ar_public_id request))) (\<lambda>found.
          case found of
            None \<Rightarrow> ret (denied ADR_TARGET_DENIED)
          | Some target \<Rightarrow>
              if \<not> tg_enabled target then ret (denied ADR_TARGET_DENIED)
              else and_then (from_sum (permits (tg_policy target) (ar_peer_ip request))) (\<lambda>permitted.
                if \<not> permitted then ret (denied ADR_IP_DENIED)
                else and_then (outside (az_get_access_grant a (tg_camera_id target) (ar_username request))) (\<lambda>grant.
                  case grant of
                    None \<Rightarrow> ret (denied ADR_CREDENTIAL_DENIED)
                  | Some grant \<Rightarrow> authorize_grant a request target grant)))))"

definition decision_event :: "authorize_request \<Rightarrow> access_decision \<Rightarrow> ip_address \<Rightarrow> access_decision_event" where
  "decision_event request decision address =
     \<lparr>ev_reason = ad_reason decision, ev_allowed = ad_allowed decision, ev_node_id = ar_node_id request,
      ev_action = (if ar_action request = ''read'' then ''read'' else ''other''),
      ev_protocol = (if ar_protocol request = ''rtsp'' then ''rtsp'' else ''other''),
      ev_peer_family = (case address of IPv4Address v \<Rightarrow> ''ipv4'' | IPv6Address v scope \<Rightarrow> ''ipv6''),
      ev_peer_ip = address_str address, ev_public_id = ar_public_id request, ev_camera_id = ad_camera_id decision,
      ev_grant_id = ad_grant_id decision, ev_last_use_persisted = ad_last_use_persisted decision\<rparr>"

definition record_decision ::
  "'x access_authorizer \<Rightarrow> authorize_request \<Rightarrow> access_decision \<Rightarrow> ('x access_state, unit) action" where
  "record_decision a request decision =
     (case az_decision_sink a of
        None \<Rightarrow> ret ()
      | Some sink \<Rightarrow>
          and_then (from_sum (peer_address (ar_peer_ip request))) (\<lambda>address.
            suppress (outside (sink (decision_event request decision address)))))"

text \<open>\<^verbatim>\<open>try: ... finally: self._attempts.end_peer(...)\<close>: an exception of the end takes the place of the outcome.\<close>

definition ending :: "authorize_request \<Rightarrow> ('x access_state, 'a) action \<Rightarrow> ('x access_state, 'a) action" where
  "ending request body =
     and_then (attempt body) (\<lambda>r.
     and_then (attempts (\<lambda>l. map_sum id (\<lambda>l'. (True, l')) (end_peer (ar_peer_ip request) l))) (\<lambda>_. from_sum r))"

definition authorize :: "'x access_authorizer \<Rightarrow> authorize_request \<Rightarrow> ('x access_state, access_decision) action" where
  "authorize a request =
     and_then (attempts (begin_peer (ar_peer_ip request))) (\<lambda>started.
       if \<not> started
       then and_then (record_decision a request (denied ADR_REQUEST_DENIED)) (\<lambda>_. ret (denied ADR_REQUEST_DENIED))
       else ending request
         (and_then (authorize_started a request) (\<lambda>decision.
          and_then (record_decision a request decision) (\<lambda>_. ret decision))))"

end
