(* ===== verification/Access_Control.thy ===== *)
theory Access_Control
  imports Pepper_Verifier Control_Monad
begin

text \<open>
  \<^verbatim>\<open>AccessPolicyControl\<close> and \<^verbatim>\<open>AccessGrantControl\<close> of \<^verbatim>\<open>access.py\<close>. The stores, the clock, the source of ids and of random
  secrets are what the controls are constructed with, functions of the outside state. A \<^verbatim>\<open>timedelta\<close> is a number of
  microseconds.
\<close>

section \<open>Policies\<close>

record 'x policy_store =
  ps_get_access_policy :: "uuid \<Rightarrow> 'x \<Rightarrow> (py_error + access_policy option) \<times> 'x"
  ps_set_access_policy :: "access_policy \<Rightarrow> int \<Rightarrow> node_mutation_context option \<Rightarrow> 'x \<Rightarrow> (py_error + access_policy) \<times> 'x"

definition get_policy :: "'x policy_store \<Rightarrow> uuid \<Rightarrow> ('x, access_policy) action" where
  "get_policy s camera_id =
     and_then (external (ps_get_access_policy s camera_id)) (\<lambda>policy.
       case policy of None \<Rightarrow> fail (LookupError ''access_policy_not_found'') | Some p \<Rightarrow> ret p)"

definition update_policy ::
  "'x policy_store \<Rightarrow> uuid \<Rightarrow> string list \<Rightarrow> string list \<Rightarrow> int \<Rightarrow> node_mutation_context option
   \<Rightarrow> ('x, access_policy) action" where
  "update_policy s camera_id internet_cidrs local_cidrs expected_revision mutation_context =
     and_then (raise_if (expected_revision < 1) (ValueError ''access_policy_revision_invalid'')) (\<lambda>_.
     and_then (from_sum (access_policy_init camera_id (expected_revision + 1) internet_cidrs local_cidrs)) (\<lambda>policy.
       external (ps_set_access_policy s policy expected_revision mutation_context)))"

section \<open>Requests as text\<close>

text \<open>\<^verbatim>\<open>json.dumps\<close> of a flat object with \<^verbatim>\<open>ensure_ascii=False\<close>: only quotes, backslashes and control characters are escaped.\<close>

definition plain_escape :: "char \<Rightarrow> string" where
  "plain_escape c = (if code c < 127 then ascii_escape c else [c])"

definition plain_string :: "string \<Rightarrow> string" where
  "plain_string s = CHR 0x22 # concat (map plain_escape s) @ [CHR 0x22]"

fun plain_value :: "json \<Rightarrow> string" where
  "plain_value (JStr s) = plain_string s"
| "plain_value v = emit v"

definition dumps_plain :: "(string \<times> json) list \<Rightarrow> string" where
  "dumps_plain kvs =
     CHR ''{'' # str_join '','' (map (\<lambda>(k, v). plain_string k @ CHR '':'' # plain_value v) (sort_key fst kvs)) @ ''}''"

text \<open>\<^verbatim>\<open>int(span.total_seconds())\<close>\<close>

definition whole_seconds :: "int \<Rightarrow> int" where
  "whole_seconds span = (if 0 \<le> span then span div 1000000 else - (- span div 1000000))"

definition json_lifetime :: "int option \<Rightarrow> json" where
  "json_lifetime lifetime = (case lifetime of None \<Rightarrow> JNull | Some span \<Rightarrow> JInt (whole_seconds span))"

section \<open>Grants\<close>

record 'x grant_control =
  gc_check_access_grant_request :: "access_grant_idempotency \<Rightarrow> 'x \<Rightarrow> (py_error + unit) \<times> 'x"
  gc_create_access_grant ::
    "access_grant \<Rightarrow> node_mutation_context option \<Rightarrow> access_grant_idempotency option \<Rightarrow> 'x \<Rightarrow> (py_error + access_grant) \<times> 'x"
  gc_get_access_grant_by_id :: "uuid \<Rightarrow> 'x \<Rightarrow> (py_error + access_grant option) \<times> 'x"
  gc_list_access_grants :: "uuid \<Rightarrow> int \<Rightarrow> 'x \<Rightarrow> (py_error + access_grant_summary list) \<times> 'x"
  gc_revoke_access_grant :: "uuid \<Rightarrow> datetime \<Rightarrow> int \<Rightarrow> node_mutation_context option \<Rightarrow> 'x \<Rightarrow> (py_error + access_grant) \<times> 'x"
  gc_purge_inactive_access_grants :: "uuid \<Rightarrow> datetime \<Rightarrow> node_mutation_context \<Rightarrow> 'x \<Rightarrow> (py_error + uuid list) \<times> 'x"
  gc_rotate_access_grant ::
    "uuid \<Rightarrow> access_grant \<Rightarrow> datetime \<Rightarrow> int \<Rightarrow> node_mutation_context option \<Rightarrow> access_grant_idempotency option
     \<Rightarrow> 'x \<Rightarrow> (py_error + (access_grant \<times> access_grant)) \<times> 'x"
  gc_verifier :: pepper_verifier
  gc_new_grant_id :: "'x \<Rightarrow> uuid \<times> 'x"
  gc_clock :: "'x \<Rightarrow> datetime \<times> 'x"
  gc_new_secret :: "('x \<Rightarrow> string \<times> 'x) option"
  gc_token_urlsafe :: "'x \<Rightarrow> string \<times> 'x"
  gc_choice :: "'x \<Rightarrow> nat \<times> 'x"
  gc_sha256 :: "nat list \<Rightarrow> string"

record issued_access_grant =
  ig_grant :: access_grant
  ig_secret :: string

definition human_secret_alphabet :: string where
  "human_secret_alphabet = ''ABCDEFGHJKMNPQRSTUVWXYZabcdefghjkmnpqrstuvwxyz23456789''"

definition pure_external :: "('x \<Rightarrow> 'a \<times> 'x) \<Rightarrow> ('x, 'a) action" where
  "pure_external f = external (\<lambda>x. apfst Inr (f x))"

text \<open>\<^verbatim>\<open>secrets.choice\<close> draws an index; the secret of a person is twelve draws.\<close>

fun draw_secret :: "'x grant_control \<Rightarrow> nat \<Rightarrow> ('x, string) action" where
  "draw_secret c 0 = ret []"
| "draw_secret c (Suc n) =
     and_then (pure_external (gc_choice c)) (\<lambda>i.
     and_then (draw_secret c n) (\<lambda>rest.
       ret (human_secret_alphabet ! (i mod length human_secret_alphabet) # rest)))"

definition new_secret :: "'x grant_control \<Rightarrow> string \<Rightarrow> ('x, string) action" where
  "new_secret c kind =
     (case gc_new_secret c of
        Some f \<Rightarrow> pure_external f
      | None \<Rightarrow> if kind = ''service'' then pure_external (gc_token_urlsafe c) else draw_secret c 12)"

text \<open>\<^verbatim>\<open>str.isalnum\<close> below 256.\<close>

definition is_alnum_char :: "char \<Rightarrow> bool" where
  "is_alnum_char c \<longleftrightarrow>
     is_digit_char c \<or> is_alpha_ascii c \<or> code c \<in> {170, 178, 179, 181, 185, 186, 188, 189, 190}
     \<or> (192 \<le> code c \<and> code c \<noteq> 215 \<and> code c \<noteq> 247)"

definition secret_valid :: "string \<Rightarrow> string \<Rightarrow> bool" where
  "secret_valid kind secret \<longleftrightarrow>
     (if kind = ''service'' then 43 else 12) \<le> length secret
     \<and> list_all (\<lambda>c. is_alnum_char c \<or> c = CHR ''-'' \<or> c = CHR ''_'') secret"

definition constructed :: "('a \<Rightarrow> py_error option) \<Rightarrow> 'a \<Rightarrow> ('x, 'a) action" where
  "constructed post_init a = and_then (raise_some (post_init a)) (\<lambda>_. ret a)"

definition max_grant_lifetime :: int where
  "max_grant_lifetime = seconds (366 * 86400)"

definition max_rotation_overlap :: int where
  "max_rotation_overlap = seconds (24 * 3600)"

definition issue_grant ::
  "'x grant_control \<Rightarrow> uuid \<Rightarrow> uuid \<Rightarrow> datetime \<Rightarrow> int option \<Rightarrow> string \<Rightarrow> string \<Rightarrow> ('x, issued_access_grant) action" where
  "issue_grant c camera_id grant_id now lifetime kind created_by =
     and_then (raise_if (lifetime = None \<and> kind \<noteq> ''service'') (ValueError ''access_grant_lifetime_invalid'')) (\<lambda>_.
     and_then (raise_if (\<exists>span \<in> set_option lifetime. span < seconds 1 \<or> max_grant_lifetime < span)
       (ValueError ''access_grant_lifetime_invalid'')) (\<lambda>_.
     and_then (new_secret c kind) (\<lambda>secret.
     and_then (raise_if (\<not> secret_valid kind secret) (ValueError ''access_grant_secret_invalid'')) (\<lambda>_.
     and_then (from_sum (pepper_digest (gc_verifier c) secret None)) (\<lambda>digest.
     and_then (constructed access_grant_post_init
       \<lparr>ag_id = grant_id, ag_camera_id = camera_id, ag_username = grant_username grant_id, ag_token_verifier = digest,
        ag_pepper_key_id = pv_primary_key_id (gc_verifier c), ag_not_before = now,
        ag_expires_at = map_option (\<lambda>span. now + span) lifetime, ag_revoked_at = None, ag_revision = 1,
        ag_kind = kind, ag_created_by = created_by, ag_last_used_at = None\<rparr>) (\<lambda>grant.
       ret \<lparr>ig_grant = grant, ig_secret = secret\<rparr>))))))"

definition grant_idempotency ::
  "'x grant_control \<Rightarrow> uuid option \<Rightarrow> node_mutation_context option \<Rightarrow> string \<Rightarrow> uuid \<Rightarrow> uuid option \<Rightarrow> uuid
   \<Rightarrow> (string \<times> json) list \<Rightarrow> ('x, access_grant_idempotency option) action" where
  "grant_idempotency c key mutation_context operation camera_id source_grant_id replacement_grant_id request =
     (case (key, mutation_context) of
        (None, None) \<Rightarrow> ret None
      | (Some k, Some context) \<Rightarrow>
          if mc_idempotency_key context \<noteq> Some k then fail (ValueError ''access_grant_idempotency_invalid'')
          else and_then (constructed access_grant_idempotency_post_init
                 \<lparr>gi_key = k, gi_actor_account_id = mc_actor_account_id context,
                  gi_actor_session_id = mc_actor_session_id context, gi_operation = operation, gi_camera_id = camera_id,
                  gi_source_grant_id = source_grant_id, gi_replacement_grant_id = replacement_grant_id,
                  gi_request_sha256 = gc_sha256 c (utf8_encode (dumps_plain
                    ([(''request_schema'', JInt 1), (''operation'', JStr operation)] @ request)))\<rparr>)
                 (\<lambda>i. ret (Some i))
      | _ \<Rightarrow> fail (ValueError ''access_grant_idempotency_invalid''))"

definition check_request :: "'x grant_control \<Rightarrow> access_grant_idempotency option \<Rightarrow> ('x, unit) action" where
  "check_request c idempotency =
     (case idempotency of None \<Rightarrow> ret () | Some i \<Rightarrow> external (gc_check_access_grant_request c i))"

definition create_grant ::
  "'x grant_control \<Rightarrow> uuid \<Rightarrow> int option \<Rightarrow> string \<Rightarrow> string \<Rightarrow> node_mutation_context option \<Rightarrow> uuid option
   \<Rightarrow> ('x, issued_access_grant) action" where
  "create_grant c camera_id lifetime kind created_by mutation_context idempotency_key =
     and_then (pure_external (gc_clock c)) (\<lambda>now.
     and_then (pure_external (gc_new_grant_id c)) (\<lambda>grant_id.
     and_then (grant_idempotency c idempotency_key mutation_context ''issue'' camera_id None grant_id
       [(''camera_id'', JStr (uuid_str camera_id)), (''kind'', JStr kind), (''lifetime_seconds'', json_lifetime lifetime)])
       (\<lambda>idempotency.
     and_then (check_request c idempotency) (\<lambda>_.
     and_then (issue_grant c camera_id grant_id now lifetime kind created_by) (\<lambda>issued.
     and_then (external (gc_create_access_grant c (ig_grant issued) mutation_context idempotency)) (\<lambda>persisted.
       ret \<lparr>ig_grant = persisted, ig_secret = ig_secret issued\<rparr>))))))"

definition find_grant :: "'x grant_control \<Rightarrow> uuid \<Rightarrow> uuid option \<Rightarrow> ('x, access_grant) action" where
  "find_grant c grant_id camera_id =
     and_then (external (gc_get_access_grant_by_id c grant_id)) (\<lambda>grant.
       case grant of
         None \<Rightarrow> fail (LookupError ''access_grant_not_found'')
       | Some g \<Rightarrow>
           if \<exists>i \<in> set_option camera_id. ag_camera_id g \<noteq> i then fail (LookupError ''access_grant_not_found'') else ret g)"

definition get_grant :: "'x grant_control \<Rightarrow> uuid \<Rightarrow> uuid option \<Rightarrow> ('x, access_grant_summary) action" where
  "get_grant c grant_id camera_id = and_then (find_grant c grant_id camera_id) (\<lambda>g. ret (from_grant g))"

definition list_for_camera :: "'x grant_control \<Rightarrow> uuid \<Rightarrow> int \<Rightarrow> ('x, access_grant_page) action" where
  "list_for_camera c camera_id limit =
     and_then (raise_if (\<not> (1 \<le> limit \<and> limit \<le> 100)) (ValueError ''access_grant_list_limit_invalid'')) (\<lambda>_.
     and_then (external (gc_list_access_grants c camera_id (limit + 1))) (\<lambda>grants.
       ret \<lparr>gp_items = take (nat limit) grants, gp_truncated = limit < int (length grants)\<rparr>))"

definition revoke_grant ::
  "'x grant_control \<Rightarrow> uuid \<Rightarrow> uuid option \<Rightarrow> int option \<Rightarrow> node_mutation_context option \<Rightarrow> ('x, access_grant) action" where
  "revoke_grant c grant_id camera_id expected_revision mutation_context =
     and_then (raise_if (mutation_context \<noteq> None \<and> expected_revision = None) (ValueError ''access_grant_revision_required'')) (\<lambda>_.
     and_then (find_grant c grant_id camera_id) (\<lambda>current.
       let revision = (case expected_revision of None \<Rightarrow> ag_revision current | Some r \<Rightarrow> r) in
       if ag_revoked_at current \<noteq> None
       then and_then (raise_if (revision \<noteq> ag_revision current) (LookupError ''access_grant_not_found'')) (\<lambda>_. ret current)
       else and_then (pure_external (gc_clock c)) (\<lambda>now.
              external (gc_revoke_access_grant c grant_id now revision mutation_context))))"

definition purge_inactive :: "'x grant_control \<Rightarrow> uuid \<Rightarrow> node_mutation_context \<Rightarrow> ('x, uuid list) action" where
  "purge_inactive c camera_id mutation_context =
     and_then (pure_external (gc_clock c)) (\<lambda>now.
       external (gc_purge_inactive_access_grants c camera_id now mutation_context))"

definition old_expiry :: "access_grant \<Rightarrow> datetime \<Rightarrow> int \<Rightarrow> datetime" where
  "old_expiry current now overlap =
     (case ag_expires_at current of None \<Rightarrow> now + overlap | Some e \<Rightarrow> min e (now + overlap))"

definition rotate_grant ::
  "'x grant_control \<Rightarrow> uuid \<Rightarrow> int \<Rightarrow> int option \<Rightarrow> uuid option \<Rightarrow> int option \<Rightarrow> string option
   \<Rightarrow> node_mutation_context option \<Rightarrow> uuid option \<Rightarrow> ('x, issued_access_grant) action" where
  "rotate_grant c grant_id overlap lifetime camera_id expected_revision created_by mutation_context idempotency_key =
     and_then (raise_if (overlap < 0 \<or> max_rotation_overlap < overlap) (ValueError ''access_grant_overlap_invalid'')) (\<lambda>_.
     and_then (raise_if (mutation_context \<noteq> None \<and> (camera_id = None \<or> expected_revision = None))
       (ValueError ''access_grant_revision_required'')) (\<lambda>_.
     and_then (pure_external (gc_new_grant_id c)) (\<lambda>replacement_grant_id.
     and_then (grant_idempotency c idempotency_key mutation_context ''rotate''
       (case camera_id of None \<Rightarrow> 0 | Some i \<Rightarrow> i) (Some grant_id) replacement_grant_id
       [(''camera_id'', case camera_id of None \<Rightarrow> JNull | Some i \<Rightarrow> JStr (uuid_str i)),
        (''grant_id'', JStr (uuid_str grant_id)), (''expected_revision'', json_opt_int expected_revision),
        (''overlap_seconds'', JInt (whole_seconds overlap)), (''lifetime_seconds'', json_lifetime lifetime)])
       (\<lambda>idempotency.
     and_then (check_request c idempotency) (\<lambda>_.
     and_then (find_grant c grant_id camera_id) (\<lambda>current.
     and_then (raise_if (ag_revoked_at current \<noteq> None) (LookupError ''access_grant_not_found'')) (\<lambda>_.
     and_then (pure_external (gc_clock c)) (\<lambda>now.
     and_then (raise_if (\<not> active_at current now) (LookupError ''access_grant_not_found'')) (\<lambda>_.
     and_then (issue_grant c (ag_camera_id current) replacement_grant_id now lifetime (ag_kind current)
       (case created_by of None \<Rightarrow> ag_created_by current | Some n \<Rightarrow> n)) (\<lambda>issued.
     and_then (external (gc_rotate_access_grant c grant_id (ig_grant issued) (old_expiry current now overlap)
       (case expected_revision of None \<Rightarrow> ag_revision current | Some r \<Rightarrow> r) mutation_context idempotency)) (\<lambda>pair.
       ret \<lparr>ig_grant = snd pair, ig_secret = ig_secret issued\<rparr>)))))))))))"

end
