(* ===== verification/Limiter_Laws.thy ===== *)
theory Limiter_Laws
  imports Access_Limiter "HOL-Library.Multiset"
begin

text \<open>
  What the limiter of attempts promises: the pending counts are those of the requests in flight under every
  interleaving, and a token bucket lets through no more than its burst and its rate give.
\<close>

section \<open>Dictionaries\<close>

lemma map_of_dict_put: "map_of (dict_put k v d) = (map_of d)(k \<mapsto> v)"
  by (induction k v d rule: dict_put.induct) (auto simp: fun_eq_iff)

lemma keys_dict_put: "fst ` set (dict_put k v d) = insert k (fst ` set d)"
  by (induction k v d rule: dict_put.induct) auto

lemma distinct_dict_put: "distinct (map fst d) \<Longrightarrow> distinct (map fst (dict_put k v d))"
proof (induction k v d rule: dict_put.induct)
  case (2 k v k' v' d)
  then show ?case using keys_dict_put [of k v d] by auto
qed simp

lemma map_of_dict_del: "map_of (dict_del k d) = (map_of d)(k := None)"
  by (induction d) (auto simp: dict_del_def fun_eq_iff)

lemma keys_dict_del: "fst ` set (dict_del k d) = fst ` set d - {k}"
  by (auto simp: dict_del_def)

lemma distinct_dict_del: "distinct (map fst d) \<Longrightarrow> distinct (map fst (dict_del k d))"
  by (simp add: dict_del_def distinct_map_filter)

lemma length_distinct_keys: "distinct (map fst d) \<Longrightarrow> length d = card (fst ` set d)"
  by (metis distinct_card length_map list.set_map)

section \<open>Requests in flight\<close>

text \<open>The limiter and the keys of the requests that were started and have not ended.\<close>

inductive in_flight :: "attempt_limiter \<Rightarrow> string multiset \<Rightarrow> bool" where
  start: "limiter_init rnd peer_rate peer_burst grant_rate grant_burst pending keys = Inr l \<Longrightarrow> in_flight l {#}"
| begun: "in_flight l f \<Longrightarrow> peer_key ip = Inr k \<Longrightarrow> begin_peer ip l = Inr (ok, l') \<Longrightarrow>
    in_flight l' (if ok then add_mset k f else f)"
| ended: "in_flight l f \<Longrightarrow> peer_key ip = Inr k \<Longrightarrow> k \<in># f \<Longrightarrow> end_peer ip l = Inr l' \<Longrightarrow> in_flight l' (f - {#k#})"
| allowed: "in_flight l f \<Longrightarrow> allow key rate burst now l = (ok, l') \<Longrightarrow> in_flight l' f"

inductive_cases in_flightE: "in_flight l f"

definition pending_ok :: "attempt_limiter \<Rightarrow> string multiset \<Rightarrow> bool" where
  "pending_ok l f \<longleftrightarrow> distinct (map fst (al_pending l)) \<and>
     map_of (al_pending l) = (\<lambda>k. if k \<in># f then Some (int (count f k)) else None)
     \<and> (\<forall>k. int (count f k) \<le> al_maximum_pending_per_peer l) \<and> int (card (set_mset f)) \<le> al_maximum_keys l"

lemma pending_keys:
  assumes "pending_ok l f"
  shows "fst ` set (al_pending l) = set_mset f"
proof -
  have "fst ` set (al_pending l) = dom (map_of (al_pending l))" by (simp add: dom_map_of_conv_image_fst)
  also have "\<dots> = set_mset f" using assms by (auto simp: pending_ok_def dom_def split: if_splits)
  finally show ?thesis .
qed

lemma begin_key_ok:
  assumes ok: "pending_ok l f" and "begin_key k l = (started, l')"
  shows "pending_ok l' (if started then add_mset k f else f)"
proof (cases started)
  case False
  then show ?thesis using assms by (auto simp: begin_key_def Let_def split: if_splits)
next
  case True
  let ?n = "int (count f k)"
  have current: "(case map_of (al_pending l) k of None \<Rightarrow> 0 | Some n \<Rightarrow> n) = ?n"
    using ok by (simp add: pending_ok_def not_in_iff)
  have l': "l' = l\<lparr>al_pending := dict_put k (?n + 1) (al_pending l)\<rparr>" and room: "?n < al_maximum_pending_per_peer l"
    and keys: "?n = 0 \<Longrightarrow> int (length (al_pending l)) < al_maximum_keys l"
    using assms(2) True unfolding begin_key_def current Let_def by (auto split: if_splits)
  have len: "length (al_pending l) = card (set_mset f)"
    using length_distinct_keys [of "al_pending l"] pending_keys [OF ok] ok by (simp add: pending_ok_def)
  have "int (card (insert k (set_mset f))) \<le> al_maximum_keys l"
  proof (cases "k \<in># f")
    case True
    then show ?thesis using ok by (simp add: pending_ok_def insert_absorb)
  next
    case False
    then show ?thesis using keys len by (simp add: not_in_iff)
  qed
  then show ?thesis
    using True ok room unfolding l' pending_ok_def
    by (auto simp: distinct_dict_put map_of_dict_put fun_eq_iff)
qed

lemma end_key_ok:
  assumes ok: "pending_ok l f" and mem: "k \<in># f"
  obtains l' where "end_key k l = Inr l'" "pending_ok l' (f - {#k#})"
proof -
  let ?n = "int (count f k)"
  define pending where
    "pending = (if ?n = 1 then dict_del k (al_pending l) else dict_put k (?n - 1) (al_pending l))"
  have end_eq: "end_key k l = Inr (l\<lparr>al_pending := pending\<rparr>)"
    using ok mem by (simp add: end_key_def pending_ok_def pending_def)
  have "0 < count f k" using mem by simp
  then have pos: "count f k = 1 \<or> 1 < count f k" by linarith
  have "map_of pending = (\<lambda>j. if j \<in># f - {#k#} then Some (int (count (f - {#k#}) j)) else None)"
    using ok pos unfolding pending_ok_def pending_def
    by (auto simp: map_of_dict_del map_of_dict_put fun_eq_iff in_diff_count of_nat_diff)
  moreover have "distinct (map fst pending)"
    using ok by (simp add: pending_def pending_ok_def distinct_dict_del distinct_dict_put)
  moreover have "int (card (set_mset (f - {#k#}))) \<le> al_maximum_keys l"
    using ok card_mono [OF finite_set_mset set_mset_mono [OF diff_subset_eq_self [of f "{#k#}"]]] by (simp add: pending_ok_def)
  moreover have "int (count (f - {#k#}) j) \<le> al_maximum_pending_per_peer l" for j
    using ok unfolding pending_ok_def by (metis count_diff diff_le_self of_nat_mono order_trans)
  ultimately have "pending_ok (l\<lparr>al_pending := pending\<rparr>) (f - {#k#})" by (simp add: pending_ok_def)
  with end_eq that show thesis by blast
qed

lemma in_flight_pending: "in_flight l f \<Longrightarrow> pending_ok l f"
proof (induction rule: in_flight.induct)
  case (start rnd peer_rate peer_burst grant_rate grant_burst pending keys l)
  then show ?case by (auto simp: limiter_init_def pending_ok_def split: if_splits)
next
  case (begun l f ip k ok l')
  then show ?case using begin_key_ok [of l f k ok l'] by (auto simp: begin_peer_def)
next
  case (ended l f ip k l')
  then show ?case by (auto simp: end_peer_def elim: end_key_ok [of l f k])
next
  case (allowed l f key rate burst now ok l')
  then show ?case by (auto simp: allow_def Let_def pending_ok_def split: prod.splits)
qed

section \<open>Metered steps\<close>

text \<open>Steps that may be allowed, each paid for from a level that gains at most a fixed amount per step.\<close>

fun step_trace :: "('i \<Rightarrow> 's \<Rightarrow> bool \<times> 's) \<Rightarrow> 'i list \<Rightarrow> 's \<Rightarrow> bool list \<times> 's" where
  "step_trace step [] s = ([], s)"
| "step_trace step (i # is) s = (case step i s of (ok, s') \<Rightarrow> apfst ((#) ok) (step_trace step is s'))"

definition allowances :: "bool list \<Rightarrow> rat" where
  "allowances oks = (\<Sum>ok \<leftarrow> oks. of_bool ok)"

locale metered =
  fixes step :: "'i \<Rightarrow> 's \<Rightarrow> bool \<times> 's" and admissible :: "'i \<Rightarrow> 's \<Rightarrow> bool" and inv :: "'s \<Rightarrow> bool"
    and level :: "'s \<Rightarrow> rat" and gain :: rat
  assumes keeps_inv: "inv s \<Longrightarrow> admissible i s \<Longrightarrow> inv (snd (step i s))"
    and pays: "inv s \<Longrightarrow> admissible i s \<Longrightarrow> of_bool (fst (step i s)) + level (snd (step i s)) \<le> level s + gain"
begin

fun admissible_all :: "'i list \<Rightarrow> 's \<Rightarrow> bool" where
  "admissible_all [] s = True"
| "admissible_all (i # is) s = (admissible i s \<and> admissible_all is (snd (step i s)))"

lemma allowances_bounded:
  "inv s \<Longrightarrow> admissible_all is s \<Longrightarrow>
   allowances (fst (step_trace step is s)) + level (snd (step_trace step is s)) \<le> level s + of_nat (length is) * gain \<and> inv (snd (step_trace step is s))"
proof (induction "is" arbitrary: s)
  case (Cons i rest)
  obtain ok s' where st: "step i s = (ok, s')" by fastforce
  obtain oks s'' where tr: "step_trace step rest s' = (oks, s'')" by fastforce
  have "inv s'" "of_bool ok + level s' \<le> level s + gain"
    using keeps_inv [of s i] pays [of s i] Cons.prems st by simp_all
  moreover from this have "allowances oks + level s'' \<le> level s' + of_nat (length rest) * gain \<and> inv s''"
    using Cons.IH [of s'] Cons.prems(2) st tr by simp
  ultimately show ?case by (simp add: st tr allowances_def algebra_simps)
qed (simp add: allowances_def)

end

section \<open>One bucket\<close>

definition bucket_step :: "(rat \<Rightarrow> rat) \<Rightarrow> rat \<Rightarrow> rat \<Rightarrow> rat \<Rightarrow> rate_bucket \<Rightarrow> bool \<times> rate_bucket" where
  "bucket_step rnd rate burst now b =
     (let tokens = refilled rnd b now rate burst; ok = 1 \<le> tokens in
        (ok, \<lparr>rb_tokens = (if ok then rnd (tokens - 1) else tokens), rb_updated = now\<rparr>))"

text \<open>A rounding of numbers up to a bound, off by at most \<open>eps\<close> upwards and never below zero.\<close>

definition rounds_within :: "(rat \<Rightarrow> rat) \<Rightarrow> rat \<Rightarrow> rat \<Rightarrow> bool" where
  "rounds_within rnd eps bound \<longleftrightarrow>
     0 \<le> eps \<and> eps \<le> 1 \<and> (\<forall>x. 0 \<le> x \<longrightarrow> 0 \<le> rnd x) \<and> (\<forall>x. 0 \<le> x \<and> x \<le> bound \<longrightarrow> rnd x \<le> x + eps)"

locale token_bucket =
  fixes rnd :: "rat \<Rightarrow> rat" and rate burst eps :: rat
  assumes rounding: "rounds_within rnd eps (4 * burst)" and rate: "1 \<le> rate" "rate \<le> burst"
begin

definition bucket_ok :: "rate_bucket \<Rightarrow> bool" where
  "bucket_ok b \<longleftrightarrow> 0 \<le> rb_tokens b \<and> rb_tokens b \<le> burst"

lemma round_up: "0 \<le> x \<Longrightarrow> x \<le> 4 * burst \<Longrightarrow> 0 \<le> rnd x \<and> rnd x \<le> x + eps" "0 \<le> x \<Longrightarrow> 0 \<le> rnd x"
  using rounding by (simp_all add: rounds_within_def)

lemma eps: "0 \<le> eps" "eps \<le> 1"
  using rounding by (simp_all add: rounds_within_def)

lemma refilled_small:
  assumes b: "bucket_ok b" and d: "rb_updated b \<le> now" "(now - rb_updated b) * rate < burst"
  shows "refilled rnd b now rate burst \<le> rb_tokens b + (now - rb_updated b) * rate + eps * (rate + 2)"
proof -
  let ?d = "now - rb_updated b" and ?r = "max 0 (rnd (now - rb_updated b))"
  have "?d \<le> ?d * rate" using d(1) rate(1) by (simp add: mult_le_cancel_left1)
  then have "?d \<le> 4 * burst" using d(2) rate by linarith
  then have r: "0 \<le> ?r" "?r \<le> ?d + eps" using round_up(1) [of ?d] d(1) eps(1) by auto
  have "?r * rate \<le> (?d + eps) * rate" using r(2) rate(1) by (intro mult_right_mono) auto
  then have prod: "?r * rate \<le> ?d * rate + eps * rate" by (simp add: algebra_simps)
  have "eps * rate \<le> 1 * rate" using eps(2) rate(1) by (intro mult_right_mono) auto
  then have "eps * rate \<le> burst" using rate(2) by simp
  then have "0 \<le> ?r * rate" "?r * rate \<le> 4 * burst" using prod d(2) r(1) rate by auto
  from round_up(1) [OF this] have v: "0 \<le> rnd (?r * rate)" "rnd (?r * rate) \<le> ?d * rate + eps * rate + eps" using prod by auto
  have "rb_tokens b + rnd (?r * rate) \<le> 4 * burst"
    using v(2) b d(2) \<open>eps * rate \<le> burst\<close> eps(2) rate unfolding bucket_ok_def by linarith
  moreover have "0 \<le> rb_tokens b + rnd (?r * rate)" using b v(1) by (simp add: bucket_ok_def)
  ultimately have
    "rnd (rb_tokens b + rnd (?r * rate)) \<le> rb_tokens b + rnd (?r * rate) + eps" using round_up(1) by blast+
  then show ?thesis using v(2) rate by (auto simp: refilled_def algebra_simps)
qed

lemma refilled_bound:
  assumes "bucket_ok b" "rb_updated b \<le> now"
  shows "refilled rnd b now rate burst \<le> rb_tokens b + (now - rb_updated b) * rate + eps * (rate + 2)"
proof (cases "(now - rb_updated b) * rate < burst")
  case True
  then show ?thesis using refilled_small [OF assms] by blast
next
  case False
  have "0 \<le> eps * (rate + 2)" using eps(1) rate(1) by simp
  moreover have "refilled rnd b now rate burst \<le> burst" by (simp add: refilled_def)
  ultimately show ?thesis using False assms(1) unfolding bucket_ok_def by linarith
qed

text \<open>What the level loses over a step is what the clock has paid for, up to the roundings.\<close>

definition bucket_level :: "rate_bucket \<Rightarrow> rat" where
  "bucket_level b = rb_tokens b - rate * rb_updated b"

lemma refilled_range: "bucket_ok b \<Longrightarrow> 0 \<le> refilled rnd b now rate burst \<and> refilled rnd b now rate burst \<le> burst"
proof -
  assume b: "bucket_ok b"
  have "0 \<le> max 0 (rnd (now - rb_updated b)) * rate" using rate(1) by simp
  then have "0 \<le> rnd (max 0 (rnd (now - rb_updated b)) * rate)" by (rule round_up(2))
  then have "0 \<le> rb_tokens b + rnd (max 0 (rnd (now - rb_updated b)) * rate)" using b by (simp add: bucket_ok_def)
  then show ?thesis using round_up(2) rate by (simp add: refilled_def)
qed

lemma spend:
  assumes "bucket_ok b" and "1 \<le> refilled rnd b now rate burst"
  shows "0 \<le> rnd (refilled rnd b now rate burst - 1)"
    "rnd (refilled rnd b now rate burst - 1) \<le> refilled rnd b now rate burst - 1 + eps"
  using assms(2) refilled_range [OF assms(1), of now] round_up(1) [of "refilled rnd b now rate burst - 1"] rate by auto

end

sublocale token_bucket \<subseteq> metered "bucket_step rnd rate burst" "\<lambda>now b. rb_updated b \<le> now" bucket_ok bucket_level "eps * (rate + 3)"
proof
  fix b now
  assume b: "bucket_ok b" and now: "rb_updated b \<le> now"
  show "bucket_ok (snd (bucket_step rnd rate burst now b))"
    using spend [OF b, of now] refilled_range [OF b, of now] eps(2) by (auto simp: bucket_step_def Let_def bucket_ok_def)
  have "0 \<le> eps" by (rule eps(1))
  moreover have "of_bool (fst (bucket_step rnd rate burst now b)) + rb_tokens (snd (bucket_step rnd rate burst now b))
      \<le> refilled rnd b now rate burst + eps"
    using spend [OF b, of now] eps(1) by (auto simp: bucket_step_def Let_def)
  ultimately show "of_bool (fst (bucket_step rnd rate burst now b)) + bucket_level (snd (bucket_step rnd rate burst now b))
      \<le> bucket_level b + eps * (rate + 3)"
    using refilled_bound [OF b now] by (simp add: bucket_level_def bucket_step_def Let_def algebra_simps)
qed

text \<open>The default limits of peers, with exact arithmetic.\<close>

interpretation exact_peer: token_bucket id 100 200 0
  by unfold_locales (simp_all add: rounds_within_def)

end
