(* ===== verification/Policy_Properties.thy ===== *)
theory Policy_Properties
  imports Access_Policy
begin

text \<open>
  An access policy permits the addresses of the networks it was written with, and a stored policy is loaded back
  with the same meaning.
\<close>

section \<open>Canonical lists\<close>

definition written_network :: "string list \<Rightarrow> ip_address \<Rightarrow> bool" where
  "written_network values address \<longleftrightarrow> (\<exists>value \<in> set values. \<exists>n. parse_cidr value = Some n \<and> in_network address n)"

definition collapsed :: "ip_network list \<Rightarrow> ip_network list" where
  "collapsed ms = collapse_ipv4 ms @ collapse_ipv6 ms"

lemma canonicalize_parsed:
  assumes "canonicalize_cidrs values = Inr cs"
  obtains ms where "map parse_cidr values = map Some ms" "cs = map network_str (collapsed ms)"
  using assms by (auto simp: canonicalize_cidrs_def collapsed_def all_some_iff split: if_splits option.splits)

lemma parsed_networks:
  assumes "map parse_cidr values = map Some ms"
  shows "\<forall>n \<in> set ms. network_ok n" "(\<exists>n \<in> set ms. in_network address n) \<longleftrightarrow> written_network values address"
proof -
  have parsed: "Some ` set ms = parse_cidr ` set values" using assms by (metis list.set_map)
  show "\<forall>n \<in> set ms. network_ok n"
  proof
    fix n
    assume "n \<in> set ms"
    then have "Some n \<in> parse_cidr ` set values" using parsed by blast
    then show "network_ok n" using parse_cidr_ok by auto
  qed
  have "n \<in> set ms \<longleftrightarrow> Some n \<in> Some ` set ms" for n by blast
  then have mem: "n \<in> set ms \<longleftrightarrow> (\<exists>v \<in> set values. Some n = parse_cidr v)" for n unfolding parsed by (simp add: image_iff)
  show "(\<exists>n \<in> set ms. in_network address n) \<longleftrightarrow> written_network values address"
    unfolding written_network_def Bex_def mem by metis
qed

lemma collapsed_ok: "\<forall>n \<in> set ms. network_ok n \<Longrightarrow> \<forall>n \<in> set (collapsed ms). network_ok n"
  using collapse_ipv4_ok(1) [of ms] collapse_ipv6_ok(1) [of ms] unfolding collapsed_def set_append by blast

lemma canonical_networks:
  assumes "canonicalize_cidrs values = Inr cs"
  obtains ns where "cs = map network_str ns" "\<forall>n \<in> set ns. network_ok n"
    "\<forall>address. (\<exists>n \<in> set ns. in_network address n) \<longleftrightarrow> written_network values address"
proof -
  obtain ms where ms: "map parse_cidr values = map Some ms" "cs = map network_str (collapsed ms)"
    by (rule canonicalize_parsed [OF assms])
  note ok = parsed_networks(1) [OF ms(1)]
  have "(\<exists>n \<in> set (collapsed ms). in_network address n) \<longleftrightarrow> written_network values address" for address
    unfolding collapsed_def collapse_covers [OF ok] by (rule parsed_networks(2) [OF ms(1)])
  then show thesis using that ms(2) collapsed_ok [OF ok] by blast
qed

lemma any_network_str:
  "\<forall>n \<in> set ns. network_ok n \<Longrightarrow> any_network address (map network_str ns) = Inr (\<exists>n \<in> set ns. in_network address n)"
  by (induction ns) (simp_all add: network_str_roundtrip)

lemma canonical_empty:
  assumes "canonicalize_cidrs values = Inr cs"
  shows "cs = [] \<longleftrightarrow> values = []"
proof -
  obtain ms where ms: "map parse_cidr values = map Some ms" "cs = map network_str (collapsed ms)"
    by (rule canonicalize_parsed [OF assms])
  note ok = parsed_networks(1) [OF ms(1)]
  have some: "ns = [] \<longleftrightarrow> (\<forall>address. \<not> (\<exists>n \<in> set ns. in_network address n))" if ns: "\<forall>n \<in> set ns. network_ok n" for ns
  proof (cases ns)
    case (Cons n rest)
    then obtain address where "in_network address n" using ns network_self [of n] by auto
    then show ?thesis using Cons by auto
  qed simp
  have "ms = [] \<longleftrightarrow> values = []" using ms(1) by (metis map_is_Nil_conv)
  moreover have "collapsed ms = [] \<longleftrightarrow> ms = []"
    unfolding some [OF ok] some [OF collapsed_ok [OF ok]] unfolding collapsed_def collapse_covers [OF ok] ..
  ultimately show ?thesis using ms(2) by simp
qed

lemma permits_written:
  assumes "access_policy_init camera_id revision internet locals = Inr policy"
  shows "permits policy peer = map_sum id
    (\<lambda>address. internet @ locals = [] \<or> written_network (internet @ locals) address) (peer_address peer)"
proof -
  from assms obtain cs ds where cs: "canonicalize_cidrs internet = Inr cs" and ds: "canonicalize_cidrs locals = Inr ds"
    and policy: "pl_internet_cidrs policy = cs" "pl_local_cidrs policy = ds"
    by (auto simp: access_policy_init_def split: if_splits sum.splits)
  obtain ns where ns: "cs = map network_str ns" "\<forall>n \<in> set ns. network_ok n"
    "\<forall>address. (\<exists>n \<in> set ns. in_network address n) \<longleftrightarrow> written_network internet address"
    by (rule canonical_networks [OF cs])
  obtain ms where ms: "ds = map network_str ms" "\<forall>n \<in> set ms. network_ok n"
    "\<forall>address. (\<exists>n \<in> set ms. in_network address n) \<longleftrightarrow> written_network locals address"
    by (rule canonical_networks [OF ds])
  have empty: "cs @ ds = [] \<longleftrightarrow> internet @ locals = []" using canonical_empty [OF cs] canonical_empty [OF ds] by simp
  have "any_network address (cs @ ds) = Inr (written_network (internet @ locals) address)" for address
  proof -
    have "any_network address (cs @ ds) = Inr (\<exists>n \<in> set (ns @ ms). in_network address n)"
      using any_network_str [of "ns @ ms" address] ns(1,2) ms(1,2) by auto
    then show ?thesis using ns(3) [rule_format, of address] ms(3) [rule_format, of address] by (auto simp: written_network_def)
  qed
  then show ?thesis
    using empty by (auto simp: permits_def policy Let_def split: sum.split)
qed

section \<open>Stored policies\<close>

lemma merge_blocks_length: "length (merge_blocks w to_merge m) \<le> length to_merge + length m"
proof (induction w to_merge m rule: merge_blocks.induct)
  case (2 w net to_merge m)
  show ?case
  proof (cases "map_of m (supernet w net)")
    case None
    then show ?thesis using 2(1) by simp
  next
    case (Some existing)
    then show ?thesis using 2(2,3) length_filter_key [OF Some] by fastforce
  qed
qed simp

lemma drop_subsumed_length: "length (drop_subsumed w final nets) \<le> length nets"
  by (induction w final nets rule: drop_subsumed.induct) (auto split: option.split)

lemma collapse_internal_length: "length (collapse_internal w bs) \<le> length bs"
  using drop_subsumed_length [of w None "sort (map snd (merge_blocks w (rev bs) []))"] merge_blocks_length [of w "rev bs" "[]"]
  by (simp add: collapse_internal_def)

lemma summarize_range_length: "length (summarize_range w first final) \<le> Suc final - first"
proof (induction w first final rule: summarize_range.induct)
  case (1 w first final)
  show ?case
  proof (cases "final < first")
    case True
    then show ?thesis by (simp add: summarize_range.simps [of w first final])
  next
    case False
    define nbits where "nbits = min (righthand_zero_bits first w) (bit_length (final - first + 1) - 1)"
    have eq: "summarize_range w first final = (first, w - nbits) #
        (if first + 2 ^ nbits - 1 = 2 ^ w - 1 then [] else summarize_range w (first + 2 ^ nbits) final)"
      using False by (subst summarize_range.simps) (simp add: nbits_def Let_def)
    have "0 < (2 :: nat) ^ nbits" by simp
    then have "Suc final - (first + 2 ^ nbits) < Suc final - first" using False by linarith
    then show ?thesis using 1 [OF False nbits_def] False by (auto simp: eq)
  qed
qed

lemma address_ranges_length:
  "(\<Sum>(f, l) \<leftarrow> address_ranges first final ips. Suc l - f) \<le> Suc final - first + length ips"
  by (induction first final ips rule: address_ranges.induct) auto

lemma collapse_addresses_length: "length (collapse_addresses w nets) \<le> length nets"
proof -
  define ips where "ips = sort (remdups (map fst (filter (\<lambda>b. snd b = w) nets)))"
  define addrs where "addrs = (case ips of [] \<Rightarrow> []
    | ip # rest \<Rightarrow> concat (map (\<lambda>(first, final). summarize_range w first final) (address_ranges ip ip rest)))"
  have eq: "collapse_addresses w nets = collapse_internal w (addrs @ filter (\<lambda>b. snd b \<noteq> w) nets)"
    by (simp add: collapse_addresses_def ips_def addrs_def Let_def)
  have "length addrs \<le> length ips"
  proof (cases ips)
    case (Cons ip rest)
    have "length addrs = (\<Sum>(f, l) \<leftarrow> address_ranges ip ip rest. length (summarize_range w f l))"
      by (simp add: addrs_def Cons length_concat case_prod_unfold o_def)
    also have "\<dots> \<le> (\<Sum>(f, l) \<leftarrow> address_ranges ip ip rest. Suc l - f)"
      by (rule sum_list_mono) (auto simp: summarize_range_length)
    finally show ?thesis using address_ranges_length [of ip ip rest] Cons by simp
  qed (simp add: addrs_def)
  also have "length ips \<le> length (filter (\<lambda>b. snd b = w) nets)"
    by (simp add: ips_def) (metis length_map length_remdups_leq)
  finally show ?thesis
    using collapse_internal_length [of w "addrs @ filter (\<lambda>b. snd b \<noteq> w) nets"] sum_length_filter_compl [of "\<lambda>b. snd b = w" nets]
    by (simp add: eq)
qed

lemma collapsed_length: "length (collapsed ms) \<le> length ms"
  using collapse_addresses_length [of 32 "map network_block (filter is_ipv4_network ms)"]
    collapse_addresses_length [of 128 "map network_block (filter (\<lambda>n. \<not> is_ipv4_network n) ms)"]
    sum_length_filter_compl [of is_ipv4_network ms]
  by (simp add: collapsed_def collapse_ipv4_def collapse_ipv6_def)

lemma network_str_chars: "c \<in> set (network_str n) \<Longrightarrow> 46 \<le> code c \<and> code c < 128"
proof (cases n)
  case (IPv4Network v p)
  assume "c \<in> set (network_str n)"
  then have "c \<in> set (ipv4_str (unat v)) \<or> c = CHR ''/'' \<or> c \<in> set (str_nat p)" by (auto simp: IPv4Network)
  then show ?thesis using ipv4_str_chars [of c "unat v"] str_nat_codes [of c p] by auto
next
  case (IPv6Network v p)
  assume "c \<in> set (network_str n)"
  then have "c \<in> set (ipv6_str (unat v)) \<or> c = CHR ''/'' \<or> c \<in> set (str_nat p)" by (auto simp: IPv6Network)
  then show ?thesis using ipv6_str_chars [of c "unat v"] str_nat_codes [of c p] by auto
qed

lemma str_strip_same: "(\<And>c. c \<in> set s \<Longrightarrow> \<not> is_space_char c) \<Longrightarrow> str_strip s = s"
proof -
  assume no: "\<And>c. c \<in> set s \<Longrightarrow> \<not> is_space_char c"
  have "dropWhile is_space_char t = t" if "set t \<subseteq> set s" for t
    using that no by (cases t) auto
  then show ?thesis by (simp add: str_strip_def)
qed

lemma parse_cidr_str:
  assumes "network_ok n"
  shows "parse_cidr (network_str n) = Some n"
proof -
  have "network_str n \<noteq> []" by (cases n) simp_all
  moreover have "CHR ''%'' \<notin> set (network_str n)" using network_str_chars [of "CHR ''%''" n] by auto
  moreover have "\<not> is_space_char c" if "c \<in> set (network_str n)" for c
    using network_str_chars [OF that] by (auto simp: is_space_char_def)
  then have "str_strip (network_str n) = network_str n" by (rule str_strip_same)
  ultimately show ?thesis using network_str_roundtrip [OF assms] by (simp add: parse_cidr_def)
qed

lemma canonicalize_again:
  assumes "canonicalize_cidrs values = Inr cs"
  shows "\<exists>ds. canonicalize_cidrs cs = Inr ds" "written_network cs address \<longleftrightarrow> written_network values address"
proof -
  obtain ms where ms: "map parse_cidr values = map Some ms" "cs = map network_str (collapsed ms)"
    by (rule canonicalize_parsed [OF assms])
  note ok = parsed_networks(1) [OF ms(1)]
  have again: "map parse_cidr cs = map Some (collapsed ms)"
    using collapsed_ok [OF ok] parse_cidr_str by (simp add: ms(2))
  have "length values \<le> 128" using assms by (auto simp: canonicalize_cidrs_def split: if_splits)
  moreover have "length values = length ms" using ms(1) by (metis length_map)
  ultimately have "length cs \<le> 128" using collapsed_length [of ms] ms(2) by simp
  moreover have "all_some (map parse_cidr cs) = Some (collapsed ms)" using again by (simp add: all_some_iff)
  ultimately show "\<exists>ds. canonicalize_cidrs cs = Inr ds" by (simp add: canonicalize_cidrs_def)
  show "written_network cs address \<longleftrightarrow> written_network values address"
    using parsed_networks(2) [OF ms(1)] parsed_networks(2) [OF again] collapse_covers [OF ok] by (simp add: collapsed_def)
qed

section \<open>Properties\<close>

text \<open>C14. A policy permits a peer exactly when no network was written in it, or the address of the peer, unmapped when it
  is an IPv4 address in IPv6 form, is in one of the networks as they were written. Sorting, merging and printing the
  networks loses and adds nothing, and the check raises only for a peer that is no address.\<close>

theorem policy_permits_exact:
  assumes "access_policy_init camera_id revision internet locals = Inr policy"
  shows "permits policy peer = (case peer_address peer of
      Inl e \<Rightarrow> Inl e
    | Inr address \<Rightarrow> Inr (internet @ locals = [] \<or>
        (\<exists>cidr \<in> set (internet @ locals). \<exists>n. parse_cidr cidr = Some n \<and> in_network address n)))"
  using permits_written [OF assms] by (simp add: written_network_def split: sum.split)

text \<open>A policy that was accepted once can be built again from its own canonical networks, whatever the revision, and
  permits the same peers: a stored policy never fails to load and never changes its meaning.\<close>

theorem policy_reload:
  assumes "access_policy_init camera_id revision internet locals = Inr policy" and "1 \<le> revision'"
  shows "\<exists>policy'. access_policy_init camera_id revision' (pl_internet_cidrs policy) (pl_local_cidrs policy) = Inr policy'
    \<and> pl_revision policy' = revision' \<and> (\<forall>peer. permits policy' peer = permits policy peer)"
proof -
  from assms(1) obtain cs ds where cs: "canonicalize_cidrs internet = Inr cs" and ds: "canonicalize_cidrs locals = Inr ds"
    and policy: "pl_internet_cidrs policy = cs" "pl_local_cidrs policy = ds"
    by (auto simp: access_policy_init_def split: if_splits sum.splits)
  obtain cs' ds' where again: "canonicalize_cidrs cs = Inr cs'" "canonicalize_cidrs ds = Inr ds'"
    using canonicalize_again(1) [OF cs] canonicalize_again(1) [OF ds] by blast
  then obtain policy' where policy': "access_policy_init camera_id revision' cs ds = Inr policy'" "pl_revision policy' = revision'"
    using assms(2) by (simp add: access_policy_init_def)
  have "written_network (cs @ ds) address \<longleftrightarrow> written_network (internet @ locals) address" for address
    using canonicalize_again(2) [OF cs, of address] canonicalize_again(2) [OF ds, of address]
    unfolding written_network_def set_append by blast
  moreover have "cs @ ds = [] \<longleftrightarrow> internet @ locals = []" using canonical_empty [OF cs] canonical_empty [OF ds] by simp
  ultimately have "permits policy' peer = permits policy peer" for peer
    unfolding permits_written [OF assms(1)] permits_written [OF policy'(1)] by simp
  then show ?thesis using policy' policy by blast
qed

lemma ex_octets: "dec_value ''0'' = 0" "dec_value ''1'' = 1" "dec_value ''10'' = 10" "dec_value ''11'' = 11" "dec_value ''8'' = 8"
  by (simp_all add: dec_value_def code_def)

lemma ex_cidr: "parse_cidr ''10.0.0.0/8'' = Some (IPv4Network 167772160 8)"
  by (simp add: parse_cidr_def str_strip_def is_space_char_def code_def ip_network_of_def parse_block4_def parse_ipv4_def
      parse_octet_def is_digit_char_def ex_octets from_base_def prefix_from_prefix_string_def block_base_def)

lemma ex_policy: "\<exists>policy. access_policy_init 7 1 [''10.0.0.0/8''] [] = Inr policy"
  by (simp add: access_policy_init_def canonicalize_cidrs_def ex_cidr)

lemma ex_peers: "peer_address ''10.0.1.1'' = Inr (IPv4Address 167772417)" "peer_address ''11.0.0.1'' = Inr (IPv4Address 184549377)"
  by (simp_all add: peer_address_def parse_ip_address_def parse_ipv4_def parse_octet_def is_digit_char_def code_def ex_octets
      from_base_def)

theorem policy_permits_exact_witness:
  "\<exists>policy. access_policy_init 7 1 [''10.0.0.0/8''] [] = Inr policy \<and> permits policy ''10.0.1.1'' = Inr True
     \<and> permits policy ''11.0.0.1'' = Inr False"
proof -
  obtain policy where policy: "access_policy_init 7 1 [''10.0.0.0/8''] [] = Inr policy" using ex_policy by blast
  from policy_permits_exact [OF policy, of "''10.0.1.1''"] policy_permits_exact [OF policy, of "''11.0.0.1''"] policy
  show ?thesis by (simp add: ex_peers ex_cidr in_block_def block_base_def)
qed

theorem policy_reload_witness:
  "\<exists>policy policy'. access_policy_init 7 1 [''10.0.0.0/8''] [] = Inr policy
     \<and> access_policy_init 7 2 (pl_internet_cidrs policy) (pl_local_cidrs policy) = Inr policy' \<and> pl_revision policy' = 2"
proof -
  obtain policy where policy: "access_policy_init 7 1 [''10.0.0.0/8''] [] = Inr policy" using ex_policy by blast
  from policy_reload [OF policy, of 2] policy show ?thesis by auto
qed

end
