(* ===== verification/Limiter_Properties.thy ===== *)
theory Limiter_Properties
  imports Limiter_Laws Policy_Properties
begin

text \<open>
  The limiter of attempts as its callers see it: a sequence of attempts of peers and of grants, each at a reading of
  the monotonic clock.
\<close>

section \<open>Attempts\<close>

datatype access_attempt = Peer_Attempt string rat | Grant_Attempt uuid uuid rat

fun attempt_step :: "access_attempt \<Rightarrow> attempt_limiter \<Rightarrow> bool \<times> attempt_limiter" where
  "attempt_step (Peer_Attempt ip now) l = (case allow_peer ip now l of Inl e \<Rightarrow> (False, l) | Inr r \<Rightarrow> r)"
| "attempt_step (Grant_Attempt camera_id grant_id now) l = allow_grant camera_id grant_id now l"

fun attempt_key :: "access_attempt \<Rightarrow> string option" where
  "attempt_key (Peer_Attempt ip now) = (case peer_key ip of Inl e \<Rightarrow> None | Inr k \<Rightarrow> Some (''peer:'' @ k))"
| "attempt_key (Grant_Attempt camera_id grant_id now) =
     Some (''grant:'' @ uuid_str camera_id @ CHR '':'' # uuid_str grant_id)"

fun attempt_time :: "access_attempt \<Rightarrow> rat" where
  "attempt_time (Peer_Attempt ip now) = now"
| "attempt_time (Grant_Attempt camera_id grant_id now) = now"

definition key_rate :: "attempt_limiter \<Rightarrow> string \<Rightarrow> rat" where
  "key_rate l k = (if starts_with ''peer:'' k then al_peer_rate l else al_grant_rate l)"

definition key_burst :: "attempt_limiter \<Rightarrow> string \<Rightarrow> rat" where
  "key_burst l k = (if starts_with ''peer:'' k then al_peer_burst l else al_grant_burst l)"

lemma attempt_step_allow:
  "attempt_key a = Some k \<Longrightarrow> attempt_step a l = allow k (key_rate l k) (key_burst l k) (attempt_time a) l"
  "attempt_key a = None \<Longrightarrow> attempt_step a l = (False, l)"
  by (cases a; auto simp: allow_peer_def allow_grant_def key_rate_def key_burst_def starts_with_def split: sum.splits)+

text \<open>The bucket of one key, which is made full at its first attempt.\<close>

definition key_step :: "(rat \<Rightarrow> rat) \<Rightarrow> rat \<Rightarrow> rat \<Rightarrow> rat \<Rightarrow> rate_bucket option \<Rightarrow> bool \<times> rate_bucket option" where
  "key_step rnd rate burst now ob =
     apsnd Some (bucket_step rnd rate burst now
       (case ob of None \<Rightarrow> \<lparr>rb_tokens = burst, rb_updated = now\<rparr> | Some b \<Rightarrow> b))"

definition same_limits :: "attempt_limiter \<Rightarrow> attempt_limiter \<Rightarrow> bool" where
  "same_limits l l' \<longleftrightarrow> al_peer_rate l' = al_peer_rate l \<and> al_peer_burst l' = al_peer_burst l
     \<and> al_grant_rate l' = al_grant_rate l \<and> al_grant_burst l' = al_grant_burst l
     \<and> al_maximum_keys l' = al_maximum_keys l \<and> al_round l' = al_round l"

text \<open>An attempt moves the bucket of its key to the end; a new bucket may push out the first one.\<close>

lemma allow_shape:
  assumes "allow key rate burst now l = (ok, l')"
  obtains b where
    "key_step (al_round l) rate burst now (map_of (al_buckets l) key) = (ok, Some b)"
    "al_buckets l' = (if map_of (al_buckets l) key = None \<and> al_maximum_keys l \<le> int (length (dict_del key (al_buckets l)))
       then tl (dict_del key (al_buckets l)) else dict_del key (al_buckets l)) @ [(key, b)]" "same_limits l l'"
  using assms by (cases "map_of (al_buckets l) key")
    (auto simp: allow_def key_step_def bucket_step_def Let_def same_limits_def)

definition attempts_of :: "string \<Rightarrow> access_attempt list \<Rightarrow> rat list" where
  "attempts_of k as = map attempt_time (filter (\<lambda>a. attempt_key a = Some k) as)"

definition answers_of :: "string \<Rightarrow> access_attempt list \<Rightarrow> bool list \<Rightarrow> bool list" where
  "answers_of k as oks = map snd (filter (\<lambda>(a, ok). attempt_key a = Some k) (zip as oks))"

definition keys_of :: "access_attempt list \<Rightarrow> string set" where
  "keys_of as = {k. Some k \<in> attempt_key ` set as}"

lemma keys_of_Cons: "keys_of (a # as) = set_option (attempt_key a) \<union> keys_of as"
  by (auto simp: keys_of_def)

lemma finite_keys_of: "finite (keys_of as)"
  by (induction as) (auto simp: keys_of_Cons, simp add: keys_of_def)

lemma same_limits_keys:
  assumes "same_limits l l'"
  shows "key_rate l' k = key_rate l k" "key_burst l' k = key_burst l k" "al_round l' = al_round l" "al_maximum_keys l' = al_maximum_keys l"
  using assms by (simp_all add: same_limits_def key_rate_def key_burst_def)

lemma same_limits_trans: "same_limits l l' \<Longrightarrow> same_limits l' l'' \<Longrightarrow> same_limits l l''"
  by (simp add: same_limits_def)

lemma tl_dict_keys: "set (tl d) \<subseteq> set d" "distinct (map fst d) \<Longrightarrow> distinct (map fst (tl d))"
  by (cases d; auto)+

lemma allow_distinct:
  assumes "allow key rate burst now l = (ok, l')" and "distinct (map fst (al_buckets l))"
  shows "distinct (map fst (al_buckets l'))"
proof (rule allow_shape [OF assms(1)])
  fix b
  let ?d = "dict_del key (al_buckets l)"
  assume l': "al_buckets l' = (if map_of (al_buckets l) key = None \<and> al_maximum_keys l \<le> int (length ?d) then tl ?d else ?d) @ [(key, b)]"
  have "distinct (map fst ?d)" "key \<notin> fst ` set ?d" using distinct_dict_del [OF assms(2)] keys_dict_del [of key "al_buckets l"] by auto
  then show ?thesis using tl_dict_keys [of ?d] by (auto simp: l' split: if_splits)
qed

lemma allow_bucket:
  assumes "allow key rate burst now l = (ok, l')" and "distinct (map fst (al_buckets l))"
  obtains b where "key_step (al_round l) rate burst now (map_of (al_buckets l) key) = (ok, Some b)"
    "map_of (al_buckets l') key = Some b" "same_limits l l'"
proof (rule allow_shape [OF assms(1)])
  fix b
  assume b: "key_step (al_round l) rate burst now (map_of (al_buckets l) key) = (ok, Some b)" "same_limits l l'"
    and l': "al_buckets l' = (if map_of (al_buckets l) key = None \<and> al_maximum_keys l \<le> int (length (dict_del key (al_buckets l)))
       then tl (dict_del key (al_buckets l)) else dict_del key (al_buckets l)) @ [(key, b)]"
  have "map_of (al_buckets l') key = Some b" using allow_distinct [OF assms] by (intro map_of_is_SomeI) (simp_all add: l')
  with b show thesis by (intro that)
qed

section \<open>The keys of recent attempts\<close>

text \<open>The bucket of a key is there, and behind it only those of other keys from a set: the keys attempted since.\<close>

definition recent :: "string set \<Rightarrow> string \<Rightarrow> attempt_limiter \<Rightarrow> bool" where
  "recent K k l \<longleftrightarrow> distinct (map fst (al_buckets l)) \<and>
     (\<exists>us b vs. al_buckets l = us @ (k, b) # vs \<and> fst ` set vs \<subseteq> K - {k})"

lemma recentI:
  "distinct (map fst (al_buckets l)) \<Longrightarrow> al_buckets l = us @ (k, b) # vs \<Longrightarrow> fst ` set vs \<subseteq> K - {k} \<Longrightarrow> recent K k l"
  by (auto simp: recent_def)

lemma map_of_middle: "distinct (map fst (us @ (k, b) # vs)) \<Longrightarrow> map_of (us @ (k, b) # vs) k = Some b"
  by (subst map_of_eq_Some_iff) auto

lemma dict_del_append: "dict_del k (us @ vs) = dict_del k us @ dict_del k vs"
  by (simp add: dict_del_def)

lemma allow_recent_self:
  assumes "allow k rate burst now l = (ok, l')" and "distinct (map fst (al_buckets l))"
  shows "recent K k l'"
  by (rule allow_shape [OF assms(1)]) (rule recentI [OF allow_distinct [OF assms], where vs = "[]"], auto)

lemma allow_recent_other:
  assumes run: "allow key rate burst now l = (ok, l')" and recent: "recent K k l"
    and key: "key \<in> K" "key \<noteq> k" "k \<in> K" and K: "finite K" "int (card K) \<le> al_maximum_keys l"
  shows "recent K k l'" "map_of (al_buckets l') k = map_of (al_buckets l) k"
proof -
  let ?d = "dict_del key (al_buckets l)"
  obtain us b vs where l: "al_buckets l = us @ (k, b) # vs" "fst ` set vs \<subseteq> K - {k}" and dist: "distinct (map fst (al_buckets l))"
    using recent by (auto simp: recent_def)
  have d: "?d = dict_del key us @ (k, b) # dict_del key vs" using key(2) by (simp add: l dict_del_append) (simp add: dict_del_def)
  have behind: "fst ` set (dict_del key vs) \<subseteq> K - {k}" using l(2) by (auto simp: keys_dict_del)
  obtain e where l': "al_buckets l' = (if map_of (al_buckets l) key = None \<and> al_maximum_keys l \<le> int (length ?d) then tl ?d else ?d) @ [(key, e)]"
    by (rule allow_shape [OF run]) blast
  have "\<exists>us'. al_buckets l' = us' @ (k, b) # dict_del key vs @ [(key, e)]"
  proof (cases "map_of (al_buckets l) key = None \<and> al_maximum_keys l \<le> int (length ?d)")
    case True
    have "dict_del key us \<noteq> []"
    proof
      assume none: "dict_del key us = []"
      have "fst ` set (dict_del key vs) \<subseteq> K - {k, key}" using behind by (auto simp: keys_dict_del)
      moreover have "distinct (map fst (dict_del key vs))" using dist by (simp add: l distinct_dict_del)
      ultimately have "length (dict_del key vs) \<le> card (K - {k, key})"
        using length_distinct_keys card_mono K(1) by (metis finite_Diff)
      moreover have "card (K - {k, key}) + 2 = card K"
        using key K(1) card_Diff_subset [of "{k, key}" K] card_mono [of K "{k, key}"] by simp
      ultimately show False using True K(2) none by (simp add: d)
    qed
    then show ?thesis using True by (auto simp: l' d)
  next
    case False
    then show ?thesis unfolding l' d by (subst if_not_P) auto
  qed
  then obtain us' where new: "al_buckets l' = us' @ (k, b) # dict_del key vs @ [(key, e)]" by blast
  have dist': "distinct (map fst (al_buckets l'))" by (rule allow_distinct [OF run dist])
  show "recent K k l'" by (rule recentI [OF dist' new]) (use behind key in auto)
  have "map_of (al_buckets l') k = Some b" "map_of (al_buckets l) k = Some b"
    using map_of_middle [of us' k b "dict_del key vs @ [(key, e)]"] map_of_middle [of us k b vs] dist' dist
    unfolding new l(1) by blast+
  then show "map_of (al_buckets l') k = map_of (al_buckets l) k" by simp
qed

text \<open>While no more keys are attempted than the limiter holds, a key that was attempted keeps its bucket.\<close>

lemma trace_key_steps:
  assumes "recent K k l" and K: "k \<in> K" "finite K" "int (card K) \<le> al_maximum_keys l" and "keys_of as \<subseteq> K"
    and "step_trace attempt_step as l = (oks, l')"
  shows "fst (step_trace (key_step (al_round l) (key_rate l k) (key_burst l k)) (attempts_of k as) (map_of (al_buckets l) k))
      = answers_of k as oks"
  using assms
proof (induction as arbitrary: l oks)
  case Nil
  then show ?case by (simp add: attempts_of_def answers_of_def)
next
  case (Cons a as)
  obtain ok l1 where st: "attempt_step a l = (ok, l1)" by fastforce
  obtain oks1 where tr: "step_trace attempt_step as l1 = (oks1, l')" and oks: "oks = ok # oks1"
    using Cons.prems(6) st by (cases "step_trace attempt_step as l1") auto
  show ?case
  proof (cases "attempt_key a")
    case None
    then show ?thesis
      using Cons.IH [of l oks1] Cons.prems tr oks attempt_step_allow(2) [OF None, of l] st
      by (simp add: attempts_of_def answers_of_def keys_of_Cons)
  next
    case (Some key)
    then have run: "allow key (key_rate l key) (key_burst l key) (attempt_time a) l = (ok, l1)"
      using attempt_step_allow(1) [OF Some, of l] st by simp
    have key: "key \<in> K" "keys_of as \<subseteq> K" using Cons.prems(5) Some by (auto simp: keys_of_Cons)
    obtain b where step: "key_step (al_round l) (key_rate l key) (key_burst l key) (attempt_time a) (map_of (al_buckets l) key) = (ok, Some b)"
      and found: "map_of (al_buckets l1) key = Some b" and limits: "same_limits l l1"
      using allow_bucket [OF run] Cons.prems(1) by (auto simp: recent_def)
    note same = same_limits_keys [OF limits]
    have "recent K k l1 \<and> (key \<noteq> k \<longrightarrow> map_of (al_buckets l1) k = map_of (al_buckets l) k)"
      using allow_recent_self [of k "key_rate l k" "key_burst l k" "attempt_time a" l ok l1 K]
        allow_recent_other [OF run Cons.prems(1) key(1) _ Cons.prems(2-4)] run Cons.prems(1) by (cases "key = k") (auto simp: recent_def)
    then show ?thesis
      using Cons.IH [of l1 oks1] Cons.prems(2-4) key(2) tr same step found Some oks
      by (cases "key = k") (simp_all add: attempts_of_def answers_of_def)
  qed
qed

section \<open>The rate of one key\<close>

lemma bucket_step_updated: "rb_updated (snd (bucket_step rnd rate burst now b)) = now"
  by (simp add: bucket_step_def Let_def)

lemma key_trace_some:
  "step_trace (key_step rnd rate burst) ts (Some b) = apsnd Some (step_trace (bucket_step rnd rate burst) ts b)"
  by (induction ts arbitrary: b) (simp_all add: key_step_def case_prod_beta apfst_def apsnd_def prod.map_comp)

lemma trace_updated:
  "rb_updated (snd (step_trace (bucket_step rnd rate burst) ts b)) = last (rb_updated b # ts)"
proof (induction ts arbitrary: b)
  case (Cons t ts)
  have "rb_updated (snd (step_trace (bucket_step rnd rate burst) (t # ts) b)) =
      rb_updated (snd (step_trace (bucket_step rnd rate burst) ts (snd (bucket_step rnd rate burst t b))))"
    by (simp add: case_prod_beta)
  then show ?case unfolding Cons.IH bucket_step_updated by simp
qed simp

context token_bucket
begin

lemma times_admissible: "sorted (rb_updated b # ts) \<Longrightarrow> admissible_all ts b"
proof (induction ts arbitrary: b)
  case (Cons t ts)
  then show ?case using Cons.IH [of "snd (bucket_step rnd rate burst t b)"] by (simp add: bucket_step_updated)
qed simp

lemma bucket_trace_bound:
  assumes "bucket_ok b" and "sorted (rb_updated b # ts)"
  shows "allowances (fst (step_trace (bucket_step rnd rate burst) ts b))
    \<le> rb_tokens b + rate * (last (rb_updated b # ts) - rb_updated b) + of_nat (length ts) * (eps * (rate + 3))"
proof -
  let ?tr = "step_trace (bucket_step rnd rate burst) ts b"
  have "allowances (fst ?tr) + bucket_level (snd ?tr) \<le> bucket_level b + of_nat (length ts) * (eps * (rate + 3))"
    "0 \<le> rb_tokens (snd ?tr)"
    using allowances_bounded [OF assms(1) times_admissible [OF assms(2)]] by (simp_all add: bucket_ok_def)
  moreover have "rb_updated (snd ?tr) = last (rb_updated b # ts)" by (rule trace_updated)
  ultimately show ?thesis by (simp add: bucket_level_def algebra_simps)
qed

text \<open>A stretch of attempts, from any state of the bucket: the first finds at most a full bucket.\<close>

lemma key_trace_bound:
  assumes ob: "\<forall>b. ob = Some b \<longrightarrow> bucket_ok b \<and> rb_updated b \<le> t" and sorted: "sorted (t # ts)"
  shows "allowances (fst (step_trace (key_step rnd rate burst) (t # ts) ob))
    \<le> burst + rate * (last (t # ts) - t) + of_nat (length (t # ts)) * (eps * (rate + 3))"
proof -
  define b where "b = (case ob of None \<Rightarrow> \<lparr>rb_tokens = burst, rb_updated = t\<rparr> | Some b \<Rightarrow> b)"
  have b: "bucket_ok b" "rb_updated b \<le> t" using ob rate by (auto simp: b_def bucket_ok_def split: option.split)
  obtain ok b1 where st: "bucket_step rnd rate burst t b = (ok, b1)" by fastforce
  have b1: "bucket_ok b1" "rb_updated b1 = t" using keeps_inv [OF b] bucket_step_updated [of rnd rate burst t b] st by simp_all
  have "of_bool ok + rb_tokens b1 \<le> refilled rnd b t rate burst + eps"
    using st spend [OF b(1), of t] eps(1) by (auto simp: bucket_step_def Let_def split: if_splits)
  then have first: "of_bool ok + rb_tokens b1 \<le> burst + eps" using refilled_range [OF b(1), of t] by linarith
  have "eps \<le> eps * (rate + 3)" using eps(1) rate(1) by (simp add: mult_le_cancel_left1)
  moreover have "allowances (fst (step_trace (bucket_step rnd rate burst) ts b1))
      \<le> rb_tokens b1 + rate * (last (t # ts) - t) + of_nat (length ts) * (eps * (rate + 3))"
    using bucket_trace_bound [OF b1(1), of ts] b1(2) sorted by simp
  moreover have "fst (step_trace (key_step rnd rate burst) (t # ts) ob) = ok # fst (step_trace (bucket_step rnd rate burst) ts b1)"
    by (simp add: key_step_def b_def [symmetric] st key_trace_some)
  ultimately show ?thesis using first by (simp add: allowances_def algebra_simps)
qed

lemma key_step_ok:
  assumes "\<forall>b. ob = Some b \<longrightarrow> bucket_ok b \<and> rb_updated b \<le> t" and "key_step rnd rate burst t ob = (ok, Some b)"
  shows "bucket_ok b \<and> rb_updated b = t"
proof -
  define b0 where "b0 = (case ob of None \<Rightarrow> \<lparr>rb_tokens = burst, rb_updated = t\<rparr> | Some b \<Rightarrow> b)"
  have "bucket_ok b0" "rb_updated b0 \<le> t" using assms(1) rate by (auto simp: b0_def bucket_ok_def split: option.split)
  moreover have "bucket_step rnd rate burst t b0 = (ok, b)" using assms(2) by (cases "bucket_step rnd rate burst t b0") (simp add: key_step_def b0_def)
  ultimately show ?thesis using keeps_inv [of b0 t] bucket_step_updated [of rnd rate burst t b0] by simp
qed

end

lemma step_trace_append:
  "step_trace step (xs @ ys) s =
     (fst (step_trace step xs s) @ fst (step_trace step ys (snd (step_trace step xs s))),
      snd (step_trace step ys (snd (step_trace step xs s))))"
  by (induction xs arbitrary: s) (simp_all add: case_prod_beta prod_eq_iff)

lemma rounds_within_mono: "rounds_within rnd eps bound \<Longrightarrow> bound' \<le> bound \<Longrightarrow> rounds_within rnd eps bound'"
  by (auto simp: rounds_within_def)

lemma minimum_below:
  "Min {a, b, c, d, e, f :: int} < 1 \<longleftrightarrow> a < 1 \<or> b < 1 \<or> c < 1 \<or> d < 1 \<or> e < 1 \<or> f < 1"
  by (subst Min_less_iff) auto

lemma limiter_init_bucket:
  assumes "limiter_init rnd peer_rate peer_burst grant_rate grant_burst pending keys = Inr l"
    and "rounds_within rnd eps (4 * of_int (max peer_burst grant_burst))"
  shows "token_bucket rnd (key_rate l k) (key_burst l k) eps" "al_round l = rnd" "al_buckets l = []" "al_maximum_keys l = keys"
proof -
  have l: "1 \<le> peer_rate" "peer_rate \<le> peer_burst" "1 \<le> grant_rate" "grant_rate \<le> grant_burst"
    "al_peer_rate l = of_int peer_rate" "al_peer_burst l = of_int peer_burst" "al_grant_rate l = of_int grant_rate"
    "al_grant_burst l = of_int grant_burst" "al_round l = rnd" "al_buckets l = []" "al_maximum_keys l = keys"
    using assms(1) unfolding limiter_init_def minimum_below by (auto split: if_splits)
  have "key_burst l k \<le> of_int (max peer_burst grant_burst)" 
    unfolding key_burst_def l(6,8) by (simp add: of_int_max [symmetric] del: of_int_max)
  then have "rounds_within rnd eps (4 * key_burst l k)" using rounds_within_mono [OF assms(2)] by simp
  then show "token_bucket rnd (key_rate l k) (key_burst l k) eps"
    using l by (intro token_bucket.intro) (simp_all add: key_rate_def key_burst_def)
  show "al_round l = rnd" "al_buckets l = []" "al_maximum_keys l = keys" by (rule l)+
qed

lemma attempts_of_subset: "set (attempts_of k as) \<subseteq> attempt_time ` set as"
  by (auto simp: attempts_of_def)

lemma sorted_attempts: "sorted (map attempt_time as) \<Longrightarrow> sorted (attempts_of k as)"
  by (simp add: attempts_of_def sorted_filter)

section \<open>Histories\<close>

text \<open>Whatever was attempted before, the buckets that are there are sound and not ahead of the clock.\<close>

definition buckets_ok :: "attempt_limiter \<Rightarrow> rat \<Rightarrow> bool" where
  "buckets_ok l t \<longleftrightarrow> distinct (map fst (al_buckets l)) \<and>
     (\<forall>(k, b) \<in> set (al_buckets l). token_bucket.bucket_ok (key_burst l k) b \<and> rb_updated b \<le> t)"

lemma allow_buckets_ok:
  assumes run: "allow k (key_rate l k) (key_burst l k) now l = (ok, l')" and ok: "buckets_ok l t" and now: "t \<le> now"
    and bucket: "token_bucket (al_round l) (key_rate l k) (key_burst l k) eps"
  shows "buckets_ok l' now" "same_limits l l'"
proof -
  let ?d = "dict_del k (al_buckets l)"
  obtain b where step: "key_step (al_round l) (key_rate l k) (key_burst l k) now (map_of (al_buckets l) k) = (ok, Some b)"
    and l': "al_buckets l' = (if map_of (al_buckets l) k = None \<and> al_maximum_keys l \<le> int (length ?d) then tl ?d else ?d) @ [(k, b)]"
    and limits: "same_limits l l'" by (rule allow_shape [OF run])
  have "\<forall>c. map_of (al_buckets l) k = Some c \<longrightarrow> token_bucket.bucket_ok (key_burst l k) c \<and> rb_updated c \<le> now"
    using ok now by (fastforce simp: buckets_ok_def dest!: map_of_SomeD)
  then have b: "token_bucket.bucket_ok (key_burst l k) b \<and> rb_updated b = now" using step by (rule token_bucket.key_step_ok [OF bucket])
  have "set (al_buckets l') \<subseteq> insert (k, b) (set (al_buckets l))"
    using tl_dict_keys(1) [of ?d] by (auto simp: l' dict_del_def split: if_splits)
  then have "token_bucket.bucket_ok (key_burst l j) c \<and> rb_updated c \<le> now" if "(j, c) \<in> set (al_buckets l')" for j c
    using that ok now b by (fastforce simp: buckets_ok_def)
  moreover have "distinct (map fst (al_buckets l'))" using allow_distinct [OF run] ok by (simp add: buckets_ok_def)
  ultimately show "buckets_ok l' now" using same_limits_keys(2) [OF limits] by (auto simp: buckets_ok_def)
  show "same_limits l l'" by (rule limits)
qed

lemma trace_buckets_ok:
  assumes "\<And>k. token_bucket (al_round l) (key_rate l k) (key_burst l k) eps" and "buckets_ok l t"
    and "sorted (t # map attempt_time as)" and "step_trace attempt_step as l = (oks, l')"
  shows "buckets_ok l' (last (t # map attempt_time as)) \<and> same_limits l l' \<and> length oks = length as"
  using assms
proof (induction as arbitrary: l t oks)
  case (Cons a as)
  obtain ok l1 where st: "attempt_step a l = (ok, l1)" by fastforce
  obtain oks1 where tr: "step_trace attempt_step as l1 = (oks1, l')" and oks: "oks = ok # oks1"
    using Cons.prems(4) st by (cases "step_trace attempt_step as l1") auto
  have now: "t \<le> attempt_time a" using Cons.prems(3) by simp
  have one: "buckets_ok l1 (attempt_time a) \<and> same_limits l l1"
  proof (cases "attempt_key a")
    case None
    then have "l1 = l" using attempt_step_allow(2) [OF None, of l] st by simp
    then show ?thesis using Cons.prems(2) now by (fastforce simp: buckets_ok_def same_limits_def)
  next
    case (Some k)
    then have "allow k (key_rate l k) (key_burst l k) (attempt_time a) l = (ok, l1)"
      using attempt_step_allow(1) [OF Some, of l] st by simp
    from allow_buckets_ok [OF this Cons.prems(2) now Cons.prems(1)] show ?thesis by (rule conjI)
  qed
  then have "token_bucket (al_round l1) (key_rate l1 k) (key_burst l1 k) eps" for k
    using Cons.prems(1) same_limits_keys [of l l1] by simp
  from Cons.IH [OF this _ _ tr, of "attempt_time a"] one Cons.prems(3) oks show ?case
    using same_limits_trans by auto
qed (simp add: same_limits_def)

section \<open>Properties\<close>

lemma step_trace_split:
  assumes "step_trace step (xs @ x # ys) s = (oks, s')"
  obtains oks1 s1 ok s2 oks2 where "step_trace step xs s = (oks1, s1)" "step x s1 = (ok, s2)" "step_trace step ys s2 = (oks2, s')"
    "oks = oks1 @ ok # oks2"
proof -
  obtain oks1 s1 where 1: "step_trace step xs s = (oks1, s1)" by fastforce
  obtain ok s2 where 2: "step x s1 = (ok, s2)" by fastforce
  obtain oks2 s3 where 3: "step_trace step ys s2 = (oks2, s3)" by fastforce
  show thesis using that [OF 1 2, of oks2] assms 1 2 3 by (simp add: step_trace_append)
qed

lemma answers_of_split:
  assumes "length os = length pre" and "k \<notin> keys_of pre" and "attempt_key a = Some k"
  shows "answers_of k (pre @ a # post) (os @ ok # oks) = ok # answers_of k post oks"
proof -
  have "filter (\<lambda>(a, ok). attempt_key a = Some k) (zip pre os) = []"
    using assms(2) by (force simp: filter_empty_conv keys_of_def dest!: set_zip_leftD)
  then show ?thesis using assms(1,3) by (simp add: answers_of_def zip_append)
qed

text \<open>C24. Over any stretch of attempts in the order of the clock with no more keys than the limiter holds, after a history
  of attempts on any number of keys, the attempts on one key that are let through are at most the burst and what its rate gives for the time between
  the first and the last of them, up to the errors of the floating point roundings. Buckets that are pushed out and made
  anew do not matter: the one that goes is the one that was not used for longest.\<close>

theorem attempts_rate_bounded:
  assumes init: "limiter_init rnd peer_rate peer_burst grant_rate grant_burst pending keys = Inr l0"
    and rounds: "rounds_within rnd eps (4 * of_int (max peer_burst grant_burst))"
    and clock: "sorted (map attempt_time (history @ stretch))"
    and few: "int (card (keys_of stretch)) \<le> keys"
    and run: "step_trace attempt_step (history @ stretch) l0 = (oks, l)"
    and times: "attempts_of k stretch = t # ts"
  shows "allowances (answers_of k stretch (drop (length history) oks))
    \<le> key_burst l0 k + key_rate l0 k * (last (t # ts) - t) + of_nat (length (t # ts)) * (eps * (key_rate l0 k + 3))"
proof -
  note l0 = limiter_init_bucket [OF init rounds]
  obtain pre a post where stretch: "stretch = pre @ a # post" and a: "attempt_key a = Some k" "attempt_time a = t"
    and not_pre: "\<forall>u \<in> set pre. attempt_key u \<noteq> Some k" and ts: "ts = attempts_of k post"
    using times by (auto simp: attempts_of_def map_eq_Cons_conv filter_eq_Cons_iff)
  have pre: "k \<notin> keys_of pre" using not_pre by (force simp: keys_of_def)
  obtain oks1 l1 ok l2 oks2 where before: "step_trace attempt_step (history @ pre) l0 = (oks1, l1)"
    and first: "attempt_step a l1 = (ok, l2)" and after: "step_trace attempt_step post l2 = (oks2, l)" and oks: "oks = oks1 @ ok # oks2"
    by (rule step_trace_split [of attempt_step "history @ pre" a post l0 oks l]) (use run stretch in auto)
  define ts0 where "ts0 = map attempt_time (history @ pre)"
  have order: "sorted ts0" "\<forall>u \<in> set ts0. u \<le> t" "sorted (t # ts)"
    using clock a(2) sorted_attempts [of post k] attempts_of_subset [of k post] by (auto simp: stretch ts ts0_def sorted_append)
  define t0 where "t0 = hd (ts0 @ [t])"
  have "\<forall>u \<in> set (t0 # ts0). u \<le> t" using order(2) by (cases ts0) (auto simp: t0_def)
  then have "last (t0 # ts0) \<le> t" using last_in_set [of "t0 # ts0"] by blast
  moreover have "sorted (t0 # ts0)" using order(1) by (cases ts0) (auto simp: t0_def)
  ultimately have t0: "sorted (t0 # map attempt_time (history @ pre))" "last (t0 # map attempt_time (history @ pre)) \<le> t"
    unfolding ts0_def by blast+
  have l1: "buckets_ok l1 t" "same_limits l0 l1" "length oks1 = length (history @ pre)"
    using trace_buckets_ok [OF _ _ t0(1) before, of eps] l0 t0(2) by (fastforce simp: buckets_ok_def)+
  note same1 = same_limits_keys [OF l1(2)]
  have firstly: "allow k (key_rate l1 k) (key_burst l1 k) t l1 = (ok, l2)" using attempt_step_allow(1) [OF a(1), of l1] first a(2) by simp
  obtain b where step: "key_step (al_round l1) (key_rate l1 k) (key_burst l1 k) t (map_of (al_buckets l1) k) = (ok, Some b)"
    and b: "map_of (al_buckets l2) k = Some b" and l2: "same_limits l1 l2"
    using allow_bucket [OF firstly] l1(1) by (auto simp: buckets_ok_def)
  note same2 = same_limits_keys [OF l2]
  have "recent (keys_of stretch) k l2" by (rule allow_recent_self [OF firstly]) (use l1(1) in \<open>simp add: buckets_ok_def\<close>)
  moreover have "k \<in> keys_of stretch" "keys_of post \<subseteq> keys_of stretch" using a(1) by (force simp: stretch keys_of_def)+
  ultimately have rest: "fst (step_trace (key_step rnd (key_rate l0 k) (key_burst l0 k)) ts (Some b)) = answers_of k post oks2"
    using trace_key_steps [OF _ _ finite_keys_of _ _ after, of stretch k] few b l0 same1 same2 by (simp add: ts)
  have "\<forall>c. map_of (al_buckets l1) k = Some c \<longrightarrow> token_bucket.bucket_ok (key_burst l0 k) c \<and> rb_updated c \<le> t"
    using l1(1) same1 by (auto simp: buckets_ok_def dest!: map_of_SomeD)
  then have "allowances (fst (step_trace (key_step rnd (key_rate l0 k) (key_burst l0 k)) (t # ts) (map_of (al_buckets l1) k)))
      \<le> key_burst l0 k + key_rate l0 k * (last (t # ts) - t) + of_nat (length (t # ts)) * (eps * (key_rate l0 k + 3))"
    by (rule token_bucket.key_trace_bound [OF l0(1) _ order(3)])
  moreover have "fst (step_trace (key_step rnd (key_rate l0 k) (key_burst l0 k)) (t # ts) (map_of (al_buckets l1) k)) = ok # answers_of k post oks2"
    using step rest l0 same1 by simp
  moreover have "answers_of k stretch (drop (length history) oks) = ok # answers_of k post oks2"
    using answers_of_split [of "drop (length history) oks1" pre k a post ok oks2] l1(3) pre a(1) by (simp add: stretch oks)
  ultimately show ?thesis by simp
qed

text \<open>Under every interleaving of requests that start, end and are metered, the pending count of a peer is the number
  of its requests in flight and within the limit, the number of peers in flight is within the limit of keys, and the end
  of a request that was started never fails.\<close>

theorem pending_exact:
  assumes "in_flight l f"
  shows "(case map_of (al_pending l) k of None \<Rightarrow> 0 | Some n \<Rightarrow> n) = int (count f k)
    \<and> int (count f k) \<le> al_maximum_pending_per_peer l \<and> int (card (set_mset f)) \<le> al_maximum_keys l
    \<and> (peer_key ip = Inr k \<and> k \<in># f \<longrightarrow> (\<exists>l'. end_peer ip l = Inr l'))"
proof -
  note ok = in_flight_pending [OF assms]
  have "\<exists>l'. end_peer ip l = Inr l'" if "peer_key ip = Inr k" "k \<in># f"
    using that end_key_ok [OF ok that(2)] by (auto simp: end_peer_def)
  then show ?thesis using ok by (simp add: pending_ok_def not_in_iff)
qed

lemma ex_limiter: "\<exists>l. limiter_init id 1 1 1 1 1 4 = Inr l \<and> in_flight l {#} \<and> al_pending l = []
    \<and> al_maximum_pending_per_peer l = 1 \<and> al_maximum_keys l = 4"
proof -
  have "\<exists>l. limiter_init id 1 1 1 1 1 4 = Inr l" by (simp add: limiter_init_def)
  then obtain l where l: "limiter_init id 1 1 1 1 1 4 = Inr l" by blast
  then show ?thesis using in_flight.start [OF l] by (auto simp: limiter_init_def)
qed

theorem pending_exact_witness:
  "\<exists>l k. in_flight l {#k#} \<and> peer_key ''10.0.1.1'' = Inr k \<and> map_of (al_pending l) k = Some 1
     \<and> (\<exists>l'. end_peer ''10.0.1.1'' l = Inr l')"
proof -
  obtain l where l: "in_flight l {#}" "al_pending l = []" "al_maximum_pending_per_peer l = 1" "al_maximum_keys l = 4"
    using ex_limiter by blast
  obtain k where k: "peer_key ''10.0.1.1'' = Inr k" by (simp add: peer_key_def ex_peers)
  let ?l = "l\<lparr>al_pending := [(k, 1)]\<rparr>"
  have "begin_peer ''10.0.1.1'' l = Inr (True, ?l)" using l k by (simp add: begin_peer_def begin_key_def)
  from in_flight.begun [OF l(1) k this] have run: "in_flight ?l {#k#}" by simp
  from pending_exact [OF run, of k "''10.0.1.1''"] k have "\<exists>l'. end_peer ''10.0.1.1'' ?l = Inr l'" by simp
  with run k show ?thesis by (intro exI [of _ ?l] exI [of _ k]) simp
qed

text \<open>A limiter with room for one key: the second attempt pushes the bucket of the first out.\<close>

definition ex_history :: "access_attempt list" where
  "ex_history = [Grant_Attempt 3 4 0]"

definition ex_attempts :: "access_attempt list" where
  "ex_attempts = [Grant_Attempt 1 2 0, Grant_Attempt 1 2 0]"

theorem attempts_rate_bounded_witness:
  "\<exists>l0 oks l k. limiter_init id 1 1 1 1 1 1 = Inr l0 \<and> step_trace attempt_step (ex_history @ ex_attempts) l0 = (oks, l)
     \<and> attempts_of k ex_attempts = [0, 0] \<and> allowances (answers_of k ex_attempts (drop 1 oks)) \<le> 1"
proof -
  have "\<exists>l0. limiter_init id 1 1 1 1 1 1 = Inr l0" by (simp add: limiter_init_def)
  then obtain l0 where l0: "limiter_init id 1 1 1 1 1 1 = Inr l0" by blast
  then have grant: "al_grant_rate l0 = 1" "al_grant_burst l0 = 1" by (auto simp: limiter_init_def)
  obtain k where k: "attempt_key (Grant_Attempt 1 2 0) = Some k" "\<not> starts_with ''peer:'' k" by (simp add: starts_with_def)
  obtain oks l where run: "step_trace attempt_step (ex_history @ ex_attempts) l0 = (oks, l)" by fastforce
  have times: "attempts_of k ex_attempts = [0, 0]" using k(1) by (simp add: attempts_of_def ex_attempts_def)
  have "keys_of ex_attempts = {k}" using k(1) by (auto simp: keys_of_def ex_attempts_def)
  then have "allowances (answers_of k ex_attempts (drop 1 oks)) \<le> 1"
    using attempts_rate_bounded [OF l0 _ _ _ run times, of 0] grant k(2)
    by (simp add: rounds_within_def ex_attempts_def ex_history_def key_burst_def)
  then show ?thesis using l0 run times by auto
qed

end
