(* ===== verification/Authorizer_Properties.thy ===== *)
theory Authorizer_Properties
  imports Access_Authorizer Access_Control Limiter_Properties Port_Change_Control
begin

text \<open>
  What the authorizer lets through, that it gives back the place it takes in the limiter, and that a grant that was
  issued is accepted with its secret and with nothing else.
\<close>

section \<open>Runs\<close>

lemma outside_InrE:
  assumes "outside f w = (Inr a, w')"
  obtains x x' where "f x = (Inr a, x')"
  using assms by (auto simp: outside_def external_def split: prod.splits)

lemma from_sum_InrE: "from_sum r w = (Inr a, w') \<Longrightarrow> r = Inr a \<and> w' = w"
  by (auto simp: from_sum_def ret_def fail_def split: sum.splits)

lemma ret_eq [simp]: "ret a w = (r, w') \<longleftrightarrow> r = Inr a \<and> w' = w"
  by (auto simp: ret_def)

lemma fail_eq [simp]: "fail e w = (r, w') \<longleftrightarrow> r = Inl e \<and> w' = w"
  by (auto simp: fail_def)

lemma denied_fields [simp]: "\<not> ad_allowed (denied reason)" "ad_reason (denied reason) = reason"
  "reason \<noteq> ADR_ALLOWED \<Longrightarrow> access_decision_post_init (denied reason) = None"
  by (simp_all add: denied_def access_decision_post_init_def)

lemma allowed_valid: "access_decision_post_init \<lparr>ad_allowed = True, ad_reason = ADR_ALLOWED, ad_camera_id = Some c,
    ad_grant_id = Some g, ad_last_use_persisted = Some b\<rparr> = None"
  by (simp add: access_decision_post_init_def)

section \<open>What is let through\<close>

definition granted :: "'x access_authorizer \<Rightarrow> authorize_request \<Rightarrow> access_target \<Rightarrow> access_grant \<Rightarrow> bool" where
  "granted a request target grant \<longleftrightarrow>
     (\<exists>now x x'. az_clock a x = (now, x') \<and> active_at grant now)
     \<and> length (ar_password request) \<le> 256
     \<and> pepper_digest (az_verifier a) (ar_password request) (Some (ag_pepper_key_id grant)) = Inr (ag_token_verifier grant)"

lemma pepper_verify_true:
  assumes "pepper_verify v secret expected key_id = Inr True"
  shows "length secret \<le> 256 \<and> pepper_digest v secret (Some key_id) = Inr expected"
  using assms by (auto simp: pepper_verify_def compare_digest_def split: if_splits sum.splits)

lemma authorize_grant_sound:
  assumes "authorize_grant a request target grant w = (Inr d, w')"
  shows "access_decision_post_init d = None \<and> (ad_allowed d \<longrightarrow> granted a request target grant
    \<and> ad_camera_id d = Some (tg_camera_id target) \<and> ad_grant_id d = Some (ag_id grant))"
proof -
  have step: "\<exists>x x'. az_clock a x = (now, x')" if "outside (\<lambda>x. apfst Inr (az_clock a x)) v = (Inr now, v')" for now v v'
    using that by (auto elim!: outside_InrE simp: apfst_def map_prod_def split: prod.splits) blast
  from assms show ?thesis
    unfolding authorize_grant_def
    by (auto split: if_splits elim!: and_then_InrE dest!: from_sum_InrE step pepper_verify_true
        simp: granted_def allowed_valid; blast)
qed

lemma authorize_started_sound:
  assumes "authorize_started a request w = (Inr d, w')"
  shows "access_decision_post_init d = None \<and> (ad_allowed d \<longrightarrow>
    (\<exists>target grant x1 x2 x3 x4. ar_action request = ''read'' \<and> ar_protocol request = ''rtsp''
       \<and> az_get_access_target a (ar_node_id request) (ar_public_id request) x1 = (Inr (Some target), x2) \<and> tg_enabled target
       \<and> permits (tg_policy target) (ar_peer_ip request) = Inr True
       \<and> az_get_access_grant a (tg_camera_id target) (ar_username request) x3 = (Inr (Some grant), x4)
       \<and> granted a request target grant
       \<and> ad_camera_id d = Some (tg_camera_id target) \<and> ad_grant_id d = Some (ag_id grant)))"
  using assms unfolding authorize_started_def
  by (auto split: if_splits option.splits elim!: and_then_InrE outside_InrE dest!: from_sum_InrE authorize_grant_sound) blast+

lemma ending_InrE:
  assumes "ending request body w = (Inr a, w')"
  obtains v where "body w = (Inr a, v)"
  using assms by (auto simp: ending_def elim!: and_then_InrE attempt_InrE dest!: from_sum_InrE)

lemma authorize_decides:
  assumes "authorize a request w = (Inr d, w')"
  shows "d = denied ADR_REQUEST_DENIED \<or> (\<exists>v v'. authorize_started a request v = (Inr d, v'))"
  using assms unfolding authorize_def
  by (auto split: if_splits elim!: and_then_InrE ending_InrE)

section \<open>The place in the limiter\<close>

text \<open>What is in flight before is in flight after.\<close>

definition same_flight :: "'x access_state world \<Rightarrow> 'x access_state world \<Rightarrow> bool" where
  "same_flight w w' \<longleftrightarrow> (\<forall>l f. as_attempts (w_ext w) = Some l \<and> in_flight l f \<longrightarrow>
     (\<exists>l'. as_attempts (w_ext w') = Some l' \<and> in_flight l' f))"

lemma same_flight_trans: "same_flight w w' \<Longrightarrow> same_flight w' w'' \<Longrightarrow> same_flight w w''"
  unfolding same_flight_def by blast

interpretation flight: world_relation same_flight
proof
  show "same_flight w w" for w :: "'a access_state world" by (simp add: same_flight_def)
qed (rule same_flight_trans)

lemma outside_flight: "keeps same_flight (outside f)"
  by (auto simp: keeps_def same_flight_def outside_def external_def split: prod.split)

lemma attempts_flight:
  assumes "\<And>l ok l' fl. f l = Inr (ok, l') \<Longrightarrow> in_flight l fl \<Longrightarrow> in_flight l' fl"
  shows "keeps same_flight (attempts f)"
  using assms by (auto simp: keeps_def same_flight_def attempts_def external_def split: prod.split option.split sum.split)

lemma limited_flight:
  assumes "\<And>now l ok l' fl. f now l = Inr (ok, l') \<Longrightarrow> in_flight l fl \<Longrightarrow> in_flight l' fl"
  shows "keeps same_flight (limited a f)"
proof -
  have "keeps same_flight (and_then (monotonic_time a) (\<lambda>now. attempts (f now)))"
    unfolding monotonic_time_def by (intro flight.and_then outside_flight attempts_flight) (rule assms)
  then show ?thesis by (auto simp: keeps_def limited_def ret_def flight.refl)
qed

lemma allow_peer_flight: "allow_peer ip now l = Inr (ok, l') \<Longrightarrow> in_flight l f \<Longrightarrow> in_flight l' f"
  by (cases "peer_key ip") (auto simp: allow_peer_def intro: in_flight.allowed)

lemma allow_grant_flight: "allow_grant camera_id grant_id now l = (ok, l') \<Longrightarrow> in_flight l f \<Longrightarrow> in_flight l' f"
  by (auto simp: allow_grant_def intro: in_flight.allowed)

lemma authorize_started_flight: "keeps same_flight (authorize_started a request)"
proof -
  have grant: "keeps same_flight (authorize_grant a request target grant)" for target grant
    unfolding authorize_grant_def rehash_def mark_used_def
    by (auto intro!: flight.and_then flight.ret flight.raises flight.attempt limited_flight outside_flight
        dest: allow_grant_flight)
  show ?thesis
    unfolding authorize_started_def
    by (auto intro!: flight.and_then flight.ret flight.raises limited_flight outside_flight grant
        dest: allow_peer_flight split: option.split)
qed

lemma record_decision_flight: "keeps same_flight (record_decision a request decision)"
  unfolding record_decision_def
  by (auto intro!: flight.and_then flight.ret flight.raises flight.suppress outside_flight split: option.split)

lemma and_then_run: "m w = (r, w1) \<Longrightarrow> and_then m f w = (case r of Inl e \<Rightarrow> (Inl e, w1) | Inr a \<Rightarrow> f a w1)"
  by (simp add: and_then_def)

lemma ending_flight:
  assumes body: "keeps same_flight body" and key: "peer_key (ar_peer_ip request) = Inr k"
    and l: "as_attempts (w_ext w) = Some l" "in_flight l (add_mset k f)" and run: "ending request body w = (r, w')"
  shows "\<exists>l'. as_attempts (w_ext w') = Some l' \<and> in_flight l' f \<and> fst (body w) = r"
proof -
  obtain r1 w1 where r1: "body w = (r1, w1)" by fastforce
  then obtain l1 where l1: "as_attempts (w_ext w1) = Some l1" "in_flight l1 (add_mset k f)"
    using body l by (auto simp: keeps_def same_flight_def) (metis snd_conv)
  obtain l2 where l2: "end_key k l1 = Inr l2"
    using end_key_ok [OF in_flight_pending [OF l1(2)], of k] by auto
  then have fl: "end_peer (ar_peer_ip request) l1 = Inr l2" using key by (simp add: end_peer_def)
  have "in_flight l2 f" using in_flight.ended [OF l1(2) key _ fl] by simp
  then show ?thesis
    using run l1(1) fl r1
    by (auto simp: ending_def attempt_def and_then_run attempts_def external_def from_sum_def ret_def fail_def and_then_def
        split: sum.splits)
qed

lemma authorize_flight: "keeps same_flight (authorize a request)"
  unfolding keeps_def
proof
  fix w
  obtain r w' where run: "authorize a request w = (r, w')" by fastforce
  have "\<exists>l'. as_attempts (w_ext w') = Some l' \<and> in_flight l' f"
    if l: "as_attempts (w_ext w) = Some l" "in_flight l f" for l f
  proof (cases "peer_key (ar_peer_ip request)")
    case (Inl e)
    then show ?thesis using run l by (auto simp: authorize_def and_then_def attempts_def external_def begin_peer_def)
  next
    case (Inr k)
    obtain ok l1 where st: "begin_key k l = (ok, l1)" by fastforce
    let ?w = "w\<lparr>w_ext := (w_ext w)\<lparr>as_attempts := Some l1\<rparr>\<rparr>"
    have begun: "attempts (begin_peer (ar_peer_ip request)) w = (Inr ok, ?w)"
      using l Inr st by (simp add: attempts_def external_def begin_peer_def)
    have l1: "in_flight l1 (if ok then add_mset k f else f)"
      using in_flight.begun [OF l(2) Inr, of ok l1] Inr st by (simp add: begin_peer_def)
    let ?body = "and_then (authorize_started a request) (\<lambda>decision.
          and_then (record_decision a request decision) (\<lambda>_. ret decision))"
    have body: "keeps same_flight ?body"
      by (intro flight.and_then authorize_started_flight record_decision_flight flight.ret)
    show ?thesis
    proof (cases ok)
      case True
      then have "ending request ?body ?w = (r, w')" using run begun by (simp add: authorize_def and_then_run)
      from ending_flight [OF body Inr _ _ this, of l1 f] show ?thesis using l1 True by auto
    next
      case False
      let ?deny = "and_then (record_decision a request (denied ADR_REQUEST_DENIED)) (\<lambda>_. ret (denied ADR_REQUEST_DENIED))"
      have "keeps same_flight ?deny" by (intro flight.and_then record_decision_flight flight.ret)
      moreover have "?deny ?w = (r, w')" using run begun False by (simp add: authorize_def and_then_run)
      ultimately show ?thesis using l1 False by (fastforce simp: keeps_def same_flight_def dest: spec [of _ ?w])
    qed
  qed
  then show "same_flight w (snd (authorize a request w))" using run by (simp add: same_flight_def)
qed

text \<open>Whatever an authorization returns or raises, the limiter is left with the requests in flight that it had: the
  place the request took is given back exactly once.\<close>

theorem authorize_balanced:
  assumes "as_attempts (w_ext w) = Some l" and "in_flight l f" and "authorize a request w = (r, w')"
  shows "\<exists>l'. as_attempts (w_ext w') = Some l' \<and> in_flight l' f \<and> map_of (al_pending l') = map_of (al_pending l)"
proof -
  have "same_flight w w'" using authorize_flight [of a request] assms(3) by (metis keeps_def snd_conv)
  then obtain l' where "as_attempts (w_ext w') = Some l'" "in_flight l' f" using assms(1,2) by (auto simp: same_flight_def)
  then show ?thesis using in_flight_pending [OF assms(2)] in_flight_pending [of l' f] by (auto simp: pending_ok_def)
qed

text \<open>C15. Every decision the authorizer returns is consistent, and one that lets a reader in rests on what the store
  answered: an enabled target for the node and the public id whose policy permits the peer, and a grant for its camera
  and the user name that was active at the time of the clock and whose verifier is the HMAC of the password under the
  key of the grant. The decision names that camera and that grant.\<close>

theorem authorize_sound:
  assumes "authorize a request w = (Inr d, w')"
  shows "access_decision_post_init d = None \<and> (ad_allowed d \<longrightarrow>
    (\<exists>target grant x1 x2 x3 x4. ar_action request = ''read'' \<and> ar_protocol request = ''rtsp''
       \<and> az_get_access_target a (ar_node_id request) (ar_public_id request) x1 = (Inr (Some target), x2) \<and> tg_enabled target
       \<and> permits (tg_policy target) (ar_peer_ip request) = Inr True
       \<and> az_get_access_grant a (tg_camera_id target) (ar_username request) x3 = (Inr (Some grant), x4)
       \<and> (\<exists>now x5 x6. az_clock a x5 = (now, x6) \<and> active_at grant now)
       \<and> length (ar_password request) \<le> 256
       \<and> pepper_digest (az_verifier a) (ar_password request) (Some (ag_pepper_key_id grant)) = Inr (ag_token_verifier grant)
       \<and> ad_camera_id d = Some (tg_camera_id target) \<and> ad_grant_id d = Some (ag_id grant)))"
  using authorize_decides [OF assms] authorize_started_sound unfolding granted_def by fastforce

section \<open>Grants\<close>

lemma raise_if_InrE: "raise_if b e w = (Inr a, w') \<Longrightarrow> \<not> b \<and> w' = w"
  by (auto simp: raise_if_def split: if_splits)

lemma constructed_InrE: "constructed post_init x w = (Inr a, w') \<Longrightarrow> post_init x = None \<and> a = x \<and> w' = w"
  by (auto simp: constructed_def raise_some_def elim!: and_then_InrE split: option.splits)

lemma external_InrE:
  assumes "external f w = (Inr a, w')"
  obtains x x' where "f x = (Inr a, x')"
  using assms by (auto simp: external_def split: prod.splits)

lemma pure_external_InrE:
  assumes "pure_external f w = (Inr a, w')"
  obtains x x' where "f x = (a, x')"
  using assms by (auto simp: pure_external_def external_def apfst_def map_prod_def split: prod.splits)

lemma issue_grant_InrE:
  assumes "issue_grant c camera_id grant_id now lifetime kind created_by w = (Inr issued, w')"
  shows "access_grant_post_init (ig_grant issued) = None \<and> ag_id (ig_grant issued) = grant_id
    \<and> ag_camera_id (ig_grant issued) = camera_id \<and> ag_kind (ig_grant issued) = kind
    \<and> ag_not_before (ig_grant issued) = now \<and> ag_expires_at (ig_grant issued) = map_option (\<lambda>span. now + span) lifetime
    \<and> ag_revoked_at (ig_grant issued) = None
    \<and> (\<forall>span. lifetime = Some span \<longrightarrow> seconds 1 \<le> span \<and> span \<le> max_grant_lifetime)
    \<and> ag_pepper_key_id (ig_grant issued) = pv_primary_key_id (gc_verifier c)
    \<and> pepper_digest (gc_verifier c) (ig_secret issued) None = Inr (ag_token_verifier (ig_grant issued))
    \<and> secret_valid kind (ig_secret issued)"
  using assms unfolding issue_grant_def
  by (auto elim!: and_then_InrE dest!: raise_if_InrE from_sum_InrE constructed_InrE)

lemma create_grant_InrE:
  assumes "create_grant c camera_id lifetime kind created_by mutation_context key w = (Inr issued, w')"
  obtains now grant_id grant v v' i x x' y y' where "gc_clock c y = (now, y')"
    "issue_grant c camera_id grant_id now lifetime kind created_by v = (Inr grant, v')"
    "gc_create_access_grant c (ig_grant grant) mutation_context i x = (Inr (ig_grant issued), x')"
    "ig_secret issued = ig_secret grant"
  using assms unfolding create_grant_def
  by (auto elim!: and_then_InrE pure_external_InrE external_InrE)

lemma find_grant_InrE:
  assumes "find_grant c grant_id camera_id w = (Inr g, w')"
  obtains x x' where "gc_get_access_grant_by_id c grant_id x = (Inr (Some g), x')"
    "\<forall>i. camera_id = Some i \<longrightarrow> ag_camera_id g = i"
  using assms unfolding find_grant_def
  by (auto elim!: and_then_InrE external_InrE split: option.splits if_splits)

lemma rotate_grant_InrE:
  assumes "rotate_grant c grant_id overlap lifetime camera_id expected_revision created_by mutation_context key w = (Inr issued, w')"
  obtains current now replacement creator grant_id' v v' i old revision x x' y y' where "0 \<le> overlap" "overlap \<le> max_rotation_overlap"
    "gc_get_access_grant_by_id c grant_id y = (Inr (Some current), y')"
    "ag_revoked_at current = None" "active_at current now"
    "issue_grant c (ag_camera_id current) grant_id' now lifetime (ag_kind current) creator v = (Inr replacement, v')"
    "gc_rotate_access_grant c grant_id (ig_grant replacement) (old_expiry current now overlap) revision mutation_context i x =
       (Inr (old, ig_grant issued), x')"
    "ig_secret issued = ig_secret replacement"
proof -
  note [elim!] = and_then_InrE pure_external_InrE external_InrE find_grant_InrE and [dest!] = raise_if_InrE
  show thesis using assms unfolding rotate_grant_def by (auto intro: that)
qed

lemma old_expiry_bounds:
  assumes "active_at current now" and "0 \<le> overlap"
  shows "now \<le> old_expiry current now overlap" "old_expiry current now overlap \<le> now + overlap"
    "ag_expires_at current = Some e \<Longrightarrow> old_expiry current now overlap \<le> e"
  using assms by (auto simp: old_expiry_def active_at_def split: option.splits)

text \<open>C17. A rotation that succeeds has handed the store a sound replacement for a grant that was found, was active and not
  revoked: of the same camera and kind, valid from now for at most the longest lifetime, with the HMAC of the secret
  that is returned; and an expiry for the old grant that is not in the past, not later than a day and the overlap
  that was asked for, and never later than the expiry it had.\<close>

theorem rotation_bounded:
  assumes "rotate_grant c grant_id overlap lifetime camera_id expected_revision created_by mutation_context key w = (Inr issued, w')"
  shows "\<exists>current replacement old_expires revision i old x1 x2 x3 x4.
      gc_get_access_grant_by_id c grant_id x1 = (Inr (Some current), x2)
      \<and> gc_rotate_access_grant c grant_id replacement old_expires revision mutation_context i x3 = (Inr (old, ig_grant issued), x4)
      \<and> ag_revoked_at current = None \<and> active_at current (ag_not_before replacement)
      \<and> access_grant_post_init replacement = None
      \<and> ag_camera_id replacement = ag_camera_id current \<and> ag_kind replacement = ag_kind current
      \<and> (\<forall>e. ag_expires_at replacement = Some e \<longrightarrow> e \<le> ag_not_before replacement + max_grant_lifetime)
      \<and> pepper_digest (gc_verifier c) (ig_secret issued) (Some (ag_pepper_key_id replacement)) = Inr (ag_token_verifier replacement)
      \<and> ag_not_before replacement \<le> old_expires
      \<and> old_expires \<le> ag_not_before replacement + overlap \<and> overlap \<le> max_rotation_overlap
      \<and> (\<forall>e. ag_expires_at current = Some e \<longrightarrow> old_expires \<le> e)"
proof -
  from rotate_grant_InrE [OF assms] obtain current now replacement creator grant_id' v v' i old revision x x' y y'
    where overlap: "0 \<le> overlap" "overlap \<le> max_rotation_overlap"
      and current: "gc_get_access_grant_by_id c grant_id y = (Inr (Some current), y')"
      and active: "ag_revoked_at current = None" "active_at current now"
      and new: "issue_grant c (ag_camera_id current) grant_id' now lifetime (ag_kind current) creator v = (Inr replacement, v')"
      and store: "gc_rotate_access_grant c grant_id (ig_grant replacement) (old_expiry current now overlap) revision mutation_context i x =
         (Inr (old, ig_grant issued), x')"
      and secret: "ig_secret issued = ig_secret replacement" .
  have digest: "pepper_digest (gc_verifier c) s (Some (pv_primary_key_id (gc_verifier c))) = pepper_digest (gc_verifier c) s None" for s
    by (simp add: pepper_digest_def)
  show ?thesis
    using issue_grant_InrE [OF new] current store active overlap secret old_expiry_bounds [OF active(2) overlap(1)]
    by (intro exI [of _ current] exI [of _ "ig_grant replacement"] exI conjI) (auto simp: digest)
qed

section \<open>An issued grant opens the camera\<close>

lemma outside_same: "(\<And>x. f x = (Inr v, x)) \<Longrightarrow> outside f w = (Inr v, w)"
  by (simp add: outside_def external_def)

text \<open>Whether the limiter, if there is one, lets a request through to its grant: it takes the request in, and the buckets of
  the peer and of the grant have a token left.\<close>

definition attempts_pass :: "attempt_limiter option \<Rightarrow> string \<Rightarrow> uuid \<Rightarrow> uuid \<Rightarrow> rat \<Rightarrow> bool" where
  "attempts_pass limiter peer_ip camera_id grant_id now =
     (case limiter of
        None \<Rightarrow> True
      | Some l \<Rightarrow>
         (case begin_peer peer_ip l of
            Inr (True, l1) \<Rightarrow>
             (case allow_peer peer_ip now l1 of
                Inr (True, l2) \<Rightarrow> fst (allow_grant camera_id grant_id now l2)
              | _ \<Rightarrow> False)
          | _ \<Rightarrow> False))"

definition with_limiter :: "attempt_limiter \<Rightarrow> 'x access_state world \<Rightarrow> 'x access_state world" where
  "with_limiter l w = w\<lparr>w_ext := (w_ext w)\<lparr>as_attempts := Some l\<rparr>\<rparr>"

lemma attempts_run:
  "as_attempts (w_ext w) = Some l \<Longrightarrow> f l = Inr (ok, l') \<Longrightarrow> attempts f w = (Inr ok, with_limiter l' w)"
  "as_attempts (w_ext w) = None \<Longrightarrow> attempts f w = (Inr True, w)"
  by (simp_all add: attempts_def external_def with_limiter_def)

lemma limited_run:
  assumes "\<And>x. az_monotonic a x = (m, x)"
  shows "as_attempts (w_ext w) = Some l \<Longrightarrow> f m l = Inr (ok, l') \<Longrightarrow> limited a f w = (Inr ok, with_limiter l' w)"
    "as_attempts (w_ext w) = None \<Longrightarrow> limited a f w = (Inr True, w)"
  using assms by (simp_all add: limited_def monotonic_time_def outside_same and_then_def attempts_run ret_def)

lemma allow_keeps_pending: "al_pending (snd (allow key rate burst now l)) = al_pending l"
  by (simp add: allow_def Let_def case_prod_beta)

text \<open>The place that was taken can be given back.\<close>

definition can_end :: "string \<Rightarrow> attempt_limiter option \<Rightarrow> bool" where
  "can_end key limiter \<longleftrightarrow> (\<forall>l \<in> set_option limiter. map_of (al_pending l) key \<noteq> None)"

lemma ending_run:
  assumes "body w = (r, w')" and "can_end key (as_attempts (w_ext w'))" and "peer_key (ar_peer_ip request) = Inr key"
  obtains w'' where "ending request body w = (r, w'')"
proof -
  have "\<exists>w''. attempts (\<lambda>l. map_sum id (\<lambda>l'. (True, l')) (end_peer (ar_peer_ip request) l)) w' = (Inr True, w'')"
    using assms(2,3) by (cases "as_attempts (w_ext w')")
      (auto simp: can_end_def attempts_run end_peer_def end_key_def intro: attempts_run(1))
  then show thesis
    using that assms(1) by (cases r) (auto simp: ending_def and_then_def attempt_def from_sum_def ret_def fail_def)
qed

lemma limiter_runs:
  fixes w :: "'x access_state world"
  assumes key: "peer_key ip = Inr key" and mono: "\<And>x. az_monotonic a x = (m, x)"
  obtains started w1 ok w2 pass w3 where "attempts (begin_peer ip) w = (Inr started, w1)"
    "limited a (\<lambda>now. allow_peer ip now) w1 = (Inr ok, w2)"
    "limited a (\<lambda>now l. Inr (allow_grant camera_id grant_id now l)) w2 = (Inr pass, w3)"
    "attempts_pass (as_attempts (w_ext w)) ip camera_id grant_id m \<longleftrightarrow> started \<and> ok \<and> pass"
    "started \<longrightarrow> can_end key (as_attempts (w_ext w2)) \<and> can_end key (as_attempts (w_ext w3))"
proof (cases "as_attempts (w_ext w)")
  case None
  then show thesis by (intro that [of True w True w True w]) (simp_all add: attempts_run limited_run [OF mono] attempts_pass_def can_end_def)
next
  case (Some l)
  obtain started l1 where l1: "begin_key key l = (started, l1)" by fastforce
  obtain ok l2 where l2: "allow (''peer:'' @ key) (al_peer_rate l1) (al_peer_burst l1) m l1 = (ok, l2)" by fastforce
  obtain pass l3 where l3: "allow_grant camera_id grant_id m l2 = (pass, l3)" by fastforce
  have steps: "begin_peer ip l = Inr (started, l1)" "allow_peer ip m l1 = Inr (ok, l2)"
    using key l1 l2 by (simp_all add: begin_peer_def allow_peer_def)
  have pending: "al_pending l2 = al_pending l1" "al_pending l3 = al_pending l2"
    using allow_keeps_pending [of "''peer:'' @ key" "al_peer_rate l1" "al_peer_burst l1" m l1] l2
      allow_keeps_pending [of "''grant:'' @ uuid_str camera_id @ CHR '':'' # uuid_str grant_id" "al_grant_rate l2" "al_grant_burst l2" m l2] l3
    by (simp_all add: allow_grant_def)
  have begun: "map_of (al_pending l1) key \<noteq> None" if started
    using l1 that by (auto simp: begin_key_def Let_def map_of_dict_put split: if_splits)
  have limiter: "as_attempts (w_ext (with_limiter k v)) = Some k" for k and v :: "'x access_state world" by (simp add: with_limiter_def)
  let ?w1 = "with_limiter l1 w"
  let ?w2 = "with_limiter l2 ?w1"
  let ?w3 = "with_limiter l3 ?w2"
  show thesis
  proof (rule that [of started ?w1 ok ?w2 pass ?w3])
    show "attempts (begin_peer ip) w = (Inr started, ?w1)" by (rule attempts_run(1)) (fact Some, fact steps)
    show "limited a (\<lambda>now. allow_peer ip now) ?w1 = (Inr ok, ?w2)"
      by (rule limited_run(1) [OF mono limiter]) (fact steps)
    show "limited a (\<lambda>now l. Inr (allow_grant camera_id grant_id now l)) ?w2 = (Inr pass, ?w3)"
      by (rule limited_run(1) [OF mono limiter]) (simp add: l3)
    show "attempts_pass (as_attempts (w_ext w)) ip camera_id grant_id m \<longleftrightarrow> started \<and> ok \<and> pass"
      using Some steps l3 by (cases started; cases ok) (simp_all add: attempts_pass_def)
    show "started \<longrightarrow> can_end key (as_attempts (w_ext ?w2)) \<and> can_end key (as_attempts (w_ext ?w3))"
      using begun pending by (simp add: can_end_def limiter)
  qed
qed

lemma mark_used_run:
  obtains b w' where "mark_used a grant w = (Inr b, w')" "as_attempts (w_ext w') = as_attempts (w_ext w)"
  by (cases "az_mark_access_grant_used a (ag_id grant) (as_outside (w_ext w))")
    (simp add: mark_used_def and_then_def attempt_def outside_def external_def ret_def)

lemma record_decision_run:
  assumes "peer_address (ar_peer_ip request) = Inr address"
  obtains w' where "record_decision a request d w = (Inr (), w')" "as_attempts (w_ext w') = as_attempts (w_ext w)"
proof (cases "az_decision_sink a")
  case None
  then show thesis using that by (simp add: record_decision_def ret_def)
next
  case (Some sink)
  then show thesis
    using that assms by (cases "sink (decision_event request d address) (as_outside (w_ext w))")
      (simp add: record_decision_def and_then_def from_sum_def suppress_def attempt_def outside_def external_def ret_def)
qed

lemma all_lower_hex_ascii:
  assumes "all_lower_hex s"
  shows "list_all (\<lambda>c. code c < 128) s"
proof -
  have "list_all (\<lambda>c. code c < 128) lower_hex_chars" by (simp add: lower_hex_chars_def code_def)
  then show ?thesis using assms by (auto simp: all_lower_hex_def list_all_iff)
qed

lemma authorize_grant_run:
  assumes metered: "limited a (\<lambda>now l. Inr (allow_grant (tg_camera_id target) (ag_id grant) now l)) w = (Inr pass, w1)"
    and clock: "\<And>x. az_clock a x = (now, x)"
    and key: "ag_pepper_key_id grant = pv_primary_key_id (az_verifier a)"
    and digest: "pepper_digest (az_verifier a) (ar_password request) None = Inr actual"
    and ascii: "list_all (\<lambda>c. code c < 128) actual" "list_all (\<lambda>c. code c < 128) (ag_token_verifier grant)"
  obtains d w' where "authorize_grant a request target grant w = (Inr d, w')" "as_attempts (w_ext w') = as_attempts (w_ext w1)"
    "ad_allowed d \<longleftrightarrow> pass \<and> active_at grant now \<and> length (ar_password request) \<le> 256 \<and> actual = ag_token_verifier grant"
proof -
  let ?pw = "ar_password request"
  have verify: "pepper_verify (az_verifier a) ?pw (ag_token_verifier grant) (ag_pepper_key_id grant) =
      Inr (length ?pw \<le> 256 \<and> actual = ag_token_verifier grant)"
    using digest ascii by (simp add: pepper_verify_def pepper_digest_def key compare_digest_def split: option.splits)
  obtain b w' where used: "mark_used a grant w1 = (Inr b, w')" "as_attempts (w_ext w') = as_attempts (w_ext w1)"
    by (rule mark_used_run [of a grant w1])
  have time: "outside (\<lambda>x. apfst Inr (az_clock a x)) w1 = (Inr now, w1)" using clock by (simp add: outside_same)
  show thesis
  proof (cases "pass \<and> active_at grant now \<and> length ?pw \<le> 256 \<and> actual = ag_token_verifier grant")
    case True
    then show thesis using that verify used key
      by (simp add: authorize_grant_def and_then_def metered time from_sum_def rehash_def ret_def)
  next
    case False
    then have "\<exists>d. authorize_grant a request target grant w = (Inr d, w1) \<and> \<not> ad_allowed d"
      using verify by (cases "pass"; cases "active_at grant now")
        (auto simp: authorize_grant_def and_then_def metered time from_sum_def ret_def)
    then show thesis using that [of _ w1] False by blast
  qed
qed

text \<open>The run of a request that finds its target and a grant under the primary key.\<close>

lemma authorize_run:
  assumes clock: "\<And>x. az_clock a x = (now, x)" and mono: "\<And>x. az_monotonic a x = (m, x)"
    and found: "\<And>x. az_get_access_target a (ar_node_id request) (ar_public_id request) x = (Inr (Some target), x)"
    and target: "tg_enabled target" "permits (tg_policy target) (ar_peer_ip request) = Inr True"
    and answered: "\<And>x. az_get_access_grant a (tg_camera_id target) (ar_username request) x = (Inr (Some grant), x)"
    and request: "ar_action request = ''read''" "ar_protocol request = ''rtsp''"
    and key: "ag_pepper_key_id grant = pv_primary_key_id (az_verifier a)"
    and digest: "pepper_digest (az_verifier a) (ar_password request) None = Inr actual"
    and ascii: "list_all (\<lambda>c. code c < 128) actual" "list_all (\<lambda>c. code c < 128) (ag_token_verifier grant)"
  obtains d w' where "authorize a request w = (Inr d, w')"
    "ad_allowed d \<longleftrightarrow> attempts_pass (as_attempts (w_ext w)) (ar_peer_ip request) (tg_camera_id target) (ag_id grant) m
       \<and> active_at grant now \<and> length (ar_password request) \<le> 256 \<and> actual = ag_token_verifier grant"
proof -
  obtain address where address: "peer_address (ar_peer_ip request) = Inr address"
    using target(2) by (auto simp: permits_def split: sum.splits)
  then have peer: "peer_key (ar_peer_ip request) = Inr (address_str address)" by (simp add: peer_key_def)
  obtain started w1 ok w2 pass w3 where runs: "attempts (begin_peer (ar_peer_ip request)) w = (Inr started, w1)"
    "limited a (\<lambda>now. allow_peer (ar_peer_ip request) now) w1 = (Inr ok, w2)"
    "limited a (\<lambda>now l. Inr (allow_grant (tg_camera_id target) (ag_id grant) now l)) w2 = (Inr pass, w3)"
    and passes: "attempts_pass (as_attempts (w_ext w)) (ar_peer_ip request) (tg_camera_id target) (ag_id grant) m \<longleftrightarrow> started \<and> ok \<and> pass"
    and ends: "started \<longrightarrow> can_end (address_str address) (as_attempts (w_ext w2)) \<and> can_end (address_str address) (as_attempts (w_ext w3))"
    by (rule limiter_runs [OF peer mono, of w "tg_camera_id target" "ag_id grant"])
  obtain d w4 where decided: "authorize_grant a request target grant w2 = (Inr d, w4)" "as_attempts (w_ext w4) = as_attempts (w_ext w3)"
    "ad_allowed d \<longleftrightarrow> pass \<and> active_at grant now \<and> length (ar_password request) \<le> 256 \<and> actual = ag_token_verifier grant"
    by (rule authorize_grant_run [OF runs(3) clock key digest ascii])
  define d1 w5 where "d1 = (if ok then d else denied ADR_REQUEST_DENIED)" and "w5 = (if ok then w4 else w2)"
  have body: "authorize_started a request w1 = (Inr d1, w5)"
    using request target decided(1) runs(2)
    by (simp add: authorize_started_def and_then_def outside_same [OF found] from_sum_def ret_def outside_same [OF answered] d1_def w5_def)
  show thesis
  proof (cases started)
    case True
    obtain w6 where recorded: "record_decision a request d1 w5 = (Inr (), w6)" "as_attempts (w_ext w6) = as_attempts (w_ext w5)"
      by (rule record_decision_run [OF address])
    have "and_then (authorize_started a request) (\<lambda>decision. and_then (record_decision a request decision) (\<lambda>_. ret decision)) w1 = (Inr d1, w6)"
      using body recorded(1) by (simp add: and_then_run ret_def)
    moreover have "can_end (address_str address) (as_attempts (w_ext w6))"
      using ends True recorded(2) decided(2) by (simp add: w5_def)
    ultimately obtain w7 where "ending request
        (and_then (authorize_started a request) (\<lambda>decision. and_then (record_decision a request decision) (\<lambda>_. ret decision))) w1 = (Inr d1, w7)"
      using peer by (rule ending_run)
    then have "authorize a request w = (Inr d1, w7)" using runs(1) True by (simp add: authorize_def and_then_run)
    then show thesis using that passes decided(3) True by (auto simp: d1_def)
  next
    case False
    obtain w6 where "record_decision a request (denied ADR_REQUEST_DENIED) w1 = (Inr (), w6)" by (rule record_decision_run [OF address])
    then have "authorize a request w = (Inr (denied ADR_REQUEST_DENIED), w6)"
      using runs(1) False by (simp add: authorize_def and_then_run ret_def)
    then show thesis using that passes False by auto
  qed
qed

text \<open>C16. A grant that was created opens its camera: with a store that keeps what it is given and answers with it, an
  authorizer with the same keys decides every request to read over RTSP from a permitted peer. With a limiter of attempts or
  without one, it lets in exactly the requests that the limiter lets through at that instant and whose password has the HMAC
  of the secret that was handed out, from the creation until the expiry.\<close>

theorem issued_grant_authorizes:
  assumes create: "create_grant c camera_id lifetime kind created_by mutation_context key w0 = (Inr issued, w0')"
    and stored: "\<And>g m i x p x'. gc_create_access_grant c g m i x = (Inr p, x') \<Longrightarrow> p = g"
    and hmac: "\<And>k m. all_lower_hex (pv_hmac (gc_verifier c) k m)"
    and verifier: "az_verifier a = gc_verifier c"
    and found: "\<And>x. az_get_access_target a (ar_node_id request) (ar_public_id request) x = (Inr (Some target), x)"
    and target: "tg_enabled target" "tg_camera_id target = camera_id" "permits (tg_policy target) (ar_peer_ip request) = Inr True"
    and answered: "\<And>x. az_get_access_grant a camera_id (ar_username request) x = (Inr (Some (ig_grant issued)), x)"
    and clock: "\<And>x. az_clock a x = (now, x)"
    and mono: "\<And>x. az_monotonic a x = (m, x)"
    and request: "ar_action request = ''read''" "ar_protocol request = ''rtsp''"
  shows "\<exists>d w'. authorize a request w = (Inr d, w') \<and> (ad_allowed d \<longleftrightarrow>
      attempts_pass (as_attempts (w_ext w)) (ar_peer_ip request) camera_id (ag_id (ig_grant issued)) m
      \<and> ag_not_before (ig_grant issued) \<le> now \<and> (\<forall>span. lifetime = Some span \<longrightarrow> now < ag_not_before (ig_grant issued) + span)
      \<and> length (ar_password request) \<le> 256
      \<and> pepper_digest (gc_verifier c) (ar_password request) None = pepper_digest (gc_verifier c) (ig_secret issued) None)"
proof -
  obtain created grant_id grant v v' i x x' y y' where new: "issue_grant c camera_id grant_id created lifetime kind created_by v = (Inr grant, v')"
    and kept: "gc_create_access_grant c (ig_grant grant) mutation_context i x = (Inr (ig_grant issued), x')"
    and secret: "ig_secret issued = ig_secret grant"
    by (rule create_grant_InrE [OF create]) blast
  have same: "ig_grant issued = ig_grant grant" by (rule stored [OF kept])
  note g = issue_grant_InrE [OF new, folded same secret]
  have "map_of (pv_keys (gc_verifier c)) (pv_primary_key_id (gc_verifier c)) \<noteq> None"
    using g by (auto simp: pepper_digest_def split: option.splits)
  then obtain k where k: "pepper_digest (gc_verifier c) s None = Inr (pv_hmac (gc_verifier c) k (utf8_encode s))" for s
    by (auto simp: pepper_digest_def)
  let ?actual = "pv_hmac (gc_verifier c) k (utf8_encode (ar_password request))"
  have token: "ag_token_verifier (ig_grant issued) = pv_hmac (gc_verifier c) k (utf8_encode (ig_secret issued))"
    using g k by simp
  obtain d w' where run: "authorize a request w = (Inr d, w')"
    "ad_allowed d \<longleftrightarrow> attempts_pass (as_attempts (w_ext w)) (ar_peer_ip request) camera_id (ag_id (ig_grant issued)) m
       \<and> active_at (ig_grant issued) now \<and> length (ar_password request) \<le> 256 \<and> ?actual = ag_token_verifier (ig_grant issued)"
    using authorize_run [OF clock mono found target(1,3) _ request, of "ig_grant issued" ?actual]
      answered g k verifier token all_lower_hex_ascii [OF hmac] target(2) by metis
  moreover have "active_at (ig_grant issued) now \<longleftrightarrow> ag_not_before (ig_grant issued) \<le> now
      \<and> (\<forall>span. lifetime = Some span \<longrightarrow> now < ag_not_before (ig_grant issued) + span)"
    using g by (cases lifetime) (auto simp: active_at_def)
  ultimately show ?thesis using run token by (auto simp: k)
qed

section \<open>An example\<close>

definition ex_hmac :: "nat list \<Rightarrow> nat list \<Rightarrow> string" where
  "ex_hmac key message = replicate 64 (if message = [] then CHR ''0'' else CHR ''1'')"

definition ex_verifier :: pepper_verifier where
  "ex_verifier = \<lparr>pv_primary_key_id = [107], pv_keys = [([107], replicate 32 1)], pv_hmac = ex_hmac\<rparr>"

definition ex_grant_secret :: string where
  "ex_grant_secret = ''ABCDEFGHJKMN''"

definition ex_issued :: access_grant where
  "ex_issued = \<lparr>ag_id = 9, ag_camera_id = 7, ag_username = grant_username 9, ag_token_verifier = replicate 64 CHR ''1'',
     ag_pepper_key_id = [107], ag_not_before = 0, ag_expires_at = Some (seconds 60), ag_revoked_at = None, ag_revision = 1,
     ag_kind = ''temporary'', ag_created_by = ''operator'', ag_last_used_at = None\<rparr>"

definition ex_grants :: "uuid \<Rightarrow> unit grant_control" where
  "ex_grants new_id = \<lparr>gc_check_access_grant_request = (\<lambda>i x. (Inr (), x)), gc_create_access_grant = (\<lambda>g m i x. (Inr g, x)),
     gc_get_access_grant_by_id = (\<lambda>i x. (Inr (Some ex_issued), x)), gc_list_access_grants = (\<lambda>i n x. (Inr [], x)),
     gc_revoke_access_grant = (\<lambda>i t r m x. (Inr ex_issued, x)), gc_purge_inactive_access_grants = (\<lambda>i t m x. (Inr [], x)),
     gc_rotate_access_grant = (\<lambda>i g t r m k x. (Inr (ex_issued\<lparr>ag_expires_at := Some t\<rparr>, g), x)),
     gc_verifier = ex_verifier, gc_new_grant_id = (\<lambda>x. (new_id, x)), gc_clock = (\<lambda>x. (0, x)),
     gc_new_secret = Some (\<lambda>x. (ex_grant_secret, x)), gc_token_urlsafe = (\<lambda>x. (ex_grant_secret, x)), gc_choice = (\<lambda>x. (0, x)),
     gc_sha256 = (\<lambda>bs. replicate 64 CHR ''0'')\<rparr>"

definition ex_access :: "access_policy \<Rightarrow> unit access_authorizer" where
  "ex_access policy = \<lparr>az_get_access_target = (\<lambda>n p x. (Inr (Some
       \<lparr>tg_camera_id = 7, tg_node_id = n, tg_public_id = p, tg_enabled = True, tg_policy = policy\<rparr>), x)),
     az_get_access_grant = (\<lambda>i n x. (Inr (Some ex_issued), x)), az_rehash_access_grant = (\<lambda>i d k r x. (Inr True, x)),
     az_mark_access_grant_used = (\<lambda>i x. (Inr True, x)), az_verifier = ex_verifier, az_clock = (\<lambda>x. (1, x)),
     az_monotonic = (\<lambda>x. (0, x)), az_decision_sink = None\<rparr>"

definition ex_read :: "string \<Rightarrow> authorize_request" where
  "ex_read password = \<lparr>ar_node_id = 3, ar_public_id = ''cam'', ar_peer_ip = ''10.0.1.1'', ar_username = grant_username 9,
     ar_password = password, ar_action = ''read'', ar_protocol = ''rtsp''\<rparr>"

definition ex_at :: "'x \<Rightarrow> 'x world" where
  "ex_at x = \<lparr>w_store = init_store [], w_slots = 1, w_ext = x\<rparr>"

definition ex_idle :: "unit access_state world" where
  "ex_idle = ex_at \<lparr>as_attempts = None, as_outside = ()\<rparr>"

lemma ex_pepper_digest: "pepper_digest ex_verifier secret None = Inr (replicate 64 (if secret = [] then CHR ''0'' else CHR ''1''))"
  by (cases secret) (simp_all add: pepper_digest_def ex_verifier_def ex_hmac_def utf8_encode_def utf8_char_def)

lemma ex_hmac_hex: "all_lower_hex (pv_hmac ex_verifier key message)"
  by (simp add: ex_verifier_def ex_hmac_def all_lower_hex_def lower_hex_chars_def list_all_iff)

lemma ex_grant_secret_valid: "secret_valid ''temporary'' ex_grant_secret"
  by (simp add: secret_valid_def ex_grant_secret_def is_alnum_char_def is_digit_char_def is_alpha_ascii_def code_def)

lemma ex_valid: "access_grant_post_init (ex_issued\<lparr>ag_id := i, ag_username := grant_username i\<rparr>) = None"
  by (simp add: access_grant_post_init_def ex_issued_def all_lower_hex_def lower_hex_chars_def list_all_iff seconds_def)

lemma ex_issue: "issue_grant (ex_grants new_id) 7 i 0 (Some (seconds 60)) ''temporary'' ''operator'' w =
    (Inr \<lparr>ig_grant = ex_issued\<lparr>ag_id := i, ag_username := grant_username i\<rparr>, ig_secret = ex_grant_secret\<rparr>, w)"
proof -
  have c: "gc_verifier (ex_grants new_id) = ex_verifier" "gc_new_secret (ex_grants new_id) = Some (\<lambda>x. (ex_grant_secret, x))"
    "pv_primary_key_id ex_verifier = [107]" by (simp_all add: ex_grants_def ex_verifier_def)
  have span: "\<not> seconds 60 < seconds 1" "\<not> max_grant_lifetime < seconds 60" by (simp_all add: seconds_def max_grant_lifetime_def)
  have digest: "pepper_digest ex_verifier ex_grant_secret None = Inr (replicate 64 CHR ''1'')" by (simp only: ex_pepper_digest) (simp add: ex_grant_secret_def)
  show ?thesis using ex_valid [of i] ex_grant_secret_valid
    by (simp add: issue_grant_def and_then_def raise_if_def ret_def new_secret_def pure_external_def external_def c span digest
        from_sum_def constructed_def raise_some_def ex_issued_def)
qed

lemma ex_permitted: "\<exists>policy. permits policy ''10.0.1.1'' = Inr True \<and> pl_camera_id policy = 7"
proof -
  obtain policy where policy: "access_policy_init 7 1 [''10.0.0.0/8''] [] = Inr policy" using ex_policy by blast
  from permits_written [OF this, of "''10.0.1.1''"] have "permits policy ''10.0.1.1'' = Inr True"
    by (simp add: ex_peers written_network_def ex_cidr in_block_def block_base_def)
  moreover have "pl_camera_id policy = 7" using policy by (auto simp: access_policy_init_def split: sum.splits)
  ultimately show ?thesis by blast
qed

lemma ex_created: "create_grant (ex_grants 9) 7 (Some (seconds 60)) ''temporary'' ''operator'' None None (ex_at ()) =
    (Inr \<lparr>ig_grant = ex_issued, ig_secret = ex_grant_secret\<rparr>, ex_at ())"
proof -
  have "gc_clock (ex_grants 9) = (\<lambda>x. (0, x))" "gc_new_grant_id (ex_grants 9) = (\<lambda>x. (9, x))"
    "gc_create_access_grant (ex_grants 9) = (\<lambda>g m i x. (Inr g, x))" by (simp_all add: ex_grants_def)
  moreover have "ex_issued\<lparr>ag_id := 9, ag_username := grant_username 9\<rparr> = ex_issued" by (simp add: ex_issued_def)
  ultimately show ?thesis
    by (simp add: create_grant_def and_then_def pure_external_def external_def grant_idempotency_def check_request_def ret_def ex_issue)
qed

lemma ex_access_fields:
  "az_verifier (ex_access policy) = ex_verifier" "az_clock (ex_access policy) x = (1, x)"
  "az_monotonic (ex_access policy) x = (0, x)"
  "az_get_access_target (ex_access policy) n p x = (Inr (Some
     \<lparr>tg_camera_id = 7, tg_node_id = n, tg_public_id = p, tg_enabled = True, tg_policy = policy\<rparr>), x)"
  "az_get_access_grant (ex_access policy) i u x = (Inr (Some ex_issued), x)"
  "ar_node_id (ex_read pw) = 3" "ar_public_id (ex_read pw) = ''cam''" "ar_peer_ip (ex_read pw) = ''10.0.1.1''"
  "ar_password (ex_read pw) = pw" "ar_action (ex_read pw) = ''read''" "ar_protocol (ex_read pw) = ''rtsp''"
  "as_attempts (w_ext ex_idle) = None" "gc_verifier (ex_grants new_id) = ex_verifier"
  "gc_create_access_grant (ex_grants new_id) g m i' z = (Inr g, z)"
  by (simp_all add: ex_access_def ex_read_def ex_idle_def ex_at_def ex_grants_def)

lemma ex_active: "active_at ex_issued 1"
  by (simp add: active_at_def ex_issued_def seconds_def)

definition ex_limited :: "attempt_limiter \<Rightarrow> unit access_state world" where
  "ex_limited l = ex_at \<lparr>as_attempts = Some l, as_outside = ()\<rparr>"

text \<open>The limiter with the default parameters lets the first request of a peer through, and no more than thirty-two at a time.\<close>

lemma ex_default_limiter:
  assumes "limiter_init id 100 200 20 40 32 65536 = Inr l"
  shows "attempts_pass (Some l) ''10.0.1.1'' camera_id grant_id 0"
    "\<not> attempts_pass (Some (l\<lparr>al_pending := [(''10.0.1.1'', 32)]\<rparr>)) ''10.0.1.1'' camera_id grant_id 0"
proof -
  have "fixed_digits 256 4 167772417 = [10, 0, 1, 1]" by (simp add: fixed_digits_numeral)
  moreover have "str_nat 10 = ''10''" "str_nat 0 = ''0''" "str_nat 1 = ''1''" by code_simp+
  ultimately have "ipv4_str 167772417 = ''10.0.1.1''" by (simp add: ipv4_str_def str_join_def)
  then have key: "peer_key ''10.0.1.1'' = Inr ''10.0.1.1''" by (simp add: peer_key_def ex_peers)
  have l: "al_peer_rate l = 100" "al_peer_burst l = 200" "al_grant_rate l = 20" "al_grant_burst l = 40" "al_maximum_keys l = 65536"
    "al_maximum_pending_per_peer l = 32" "al_buckets l = []" "al_pending l = []" "al_round l = id"
    using assms by (auto simp: limiter_init_def)
  show "attempts_pass (Some l) ''10.0.1.1'' camera_id grant_id 0"
    by (simp add: attempts_pass_def begin_peer_def begin_key_def allow_peer_def allow_grant_def allow_def dict_del_def refilled_def key l)
  show "\<not> attempts_pass (Some (l\<lparr>al_pending := [(''10.0.1.1'', 32)]\<rparr>)) ''10.0.1.1'' camera_id grant_id 0"
    by (simp add: attempts_pass_def begin_peer_def begin_key_def key l)
qed

lemma ex_runs:
  assumes "permits policy ''10.0.1.1'' = Inr True"
  shows "\<exists>d w'. authorize (ex_access policy) (ex_read ex_grant_secret) ex_idle = (Inr d, w') \<and> ad_allowed d"
proof -
  let ?target = "\<lparr>tg_camera_id = 7, tg_node_id = 3, tg_public_id = ''cam'', tg_enabled = True, tg_policy = policy\<rparr>"
  have "ag_pepper_key_id ex_issued = pv_primary_key_id ex_verifier" by (simp add: ex_issued_def ex_verifier_def)
  moreover have "pepper_digest ex_verifier ex_grant_secret None = Inr (ag_token_verifier ex_issued)"
    by (simp only: ex_pepper_digest) (simp add: ex_grant_secret_def ex_issued_def)
  moreover have "list_all (\<lambda>c. code c < 128) (ag_token_verifier ex_issued)" by (simp add: ex_issued_def code_def list_all_iff)
  moreover have "length ex_grant_secret \<le> 256" by (simp add: ex_grant_secret_def)
  ultimately show ?thesis
    using authorize_run [of "ex_access policy" 1 0 "ex_read ex_grant_secret" ?target ex_issued "ag_token_verifier ex_issued" ex_idle]
      assms ex_active by (simp add: ex_access_fields attempts_pass_def) blast
qed

theorem issued_grant_authorizes_witness:
  "\<exists>policy l d w1 d2 w2 d3 w3. limiter_init id 100 200 20 40 32 65536 = Inr l
     \<and> authorize (ex_access policy) (ex_read ex_grant_secret) (ex_limited l) = (Inr d, w1) \<and> ad_allowed d
     \<and> authorize (ex_access policy) (ex_read []) (ex_limited l) = (Inr d2, w2) \<and> \<not> ad_allowed d2
     \<and> authorize (ex_access policy) (ex_read ex_grant_secret) (ex_limited (l\<lparr>al_pending := [(''10.0.1.1'', 32)]\<rparr>)) = (Inr d3, w3)
     \<and> \<not> ad_allowed d3"
proof -
  obtain policy where policy: "permits policy ''10.0.1.1'' = Inr True" using ex_permitted by blast
  have "\<exists>l. limiter_init id 100 200 20 40 32 65536 = Inr l" by (simp add: limiter_init_def)
  then obtain l where l: "limiter_init id 100 200 20 40 32 65536 = Inr l" by blast
  let ?target = "\<lparr>tg_camera_id = 7, tg_node_id = 3, tg_public_id = ''cam'', tg_enabled = True, tg_policy = policy\<rparr>"
  have now: "ag_not_before ex_issued = 0" "1 < ag_not_before ex_issued + seconds 60" "ex_grant_secret \<noteq> []" "length ex_grant_secret \<le> 256"
    by (simp_all add: ex_issued_def seconds_def ex_grant_secret_def)
  have digests: "pepper_digest ex_verifier [] None \<noteq> pepper_digest ex_verifier ex_grant_secret None" unfolding ex_pepper_digest using now(3) by simp
  have w: "as_attempts (w_ext (ex_limited k)) = Some k" for k by (simp add: ex_limited_def ex_at_def)
  note run = issued_grant_authorizes [OF ex_created, where a = "ex_access policy" and target = ?target and now = 1 and m = 0,
      unfolded ex_access_fields issued_access_grant.select_convs]
  have "\<exists>d w'. authorize (ex_access policy) (ex_read ex_grant_secret) (ex_limited l) = (Inr d, w') \<and> ad_allowed d"
    using run [of "ex_read ex_grant_secret" "ex_limited l"] policy ex_hmac_hex now ex_default_limiter(1) [OF l] by (simp add: ex_access_fields w)
  moreover have "\<exists>d w'. authorize (ex_access policy) (ex_read []) (ex_limited l) = (Inr d, w') \<and> \<not> ad_allowed d"
    using run [of "ex_read []" "ex_limited l"] policy ex_hmac_hex digests by (auto simp: ex_access_fields)
  moreover have "\<exists>d w'. authorize (ex_access policy) (ex_read ex_grant_secret) (ex_limited (l\<lparr>al_pending := [(''10.0.1.1'', 32)]\<rparr>)) = (Inr d, w')
      \<and> \<not> ad_allowed d"
    using run [of "ex_read ex_grant_secret" "ex_limited (l\<lparr>al_pending := [(''10.0.1.1'', 32)]\<rparr>)"] policy ex_hmac_hex ex_default_limiter(2) [OF l]
    by (auto simp: ex_access_fields w)
  ultimately show ?thesis using l by blast
qed

theorem authorize_sound_witness:
  "\<exists>policy d w'. authorize (ex_access policy) (ex_read ex_grant_secret) ex_idle = (Inr d, w') \<and> ad_allowed d
     \<and> access_decision_post_init d = None \<and> permits policy ''10.0.1.1'' = Inr True
     \<and> ad_camera_id d = Some 7 \<and> ad_grant_id d = Some (ag_id ex_issued)"
proof -
  obtain policy d w' where run: "authorize (ex_access policy) (ex_read ex_grant_secret) ex_idle = (Inr d, w')" "ad_allowed d"
    using ex_permitted ex_runs by blast
  from authorize_sound [OF run(1)] run show ?thesis by (auto simp: ex_access_fields)
qed

theorem authorize_balanced_witness:
  "\<exists>policy l r w' l'. in_flight l {#} \<and> authorize (ex_access policy) (ex_read []) (ex_at \<lparr>as_attempts = Some l, as_outside = ()\<rparr>) = (r, w')
     \<and> as_attempts (w_ext w') = Some l' \<and> in_flight l' {#} \<and> al_pending l' = []"
proof -
  obtain policy where "permits policy ''10.0.1.1'' = Inr True" using ex_permitted by blast
  obtain l where l: "in_flight l {#}" "al_pending l = []" using ex_limiter by blast
  let ?w = "ex_at \<lparr>as_attempts = Some l, as_outside = ()\<rparr> :: unit access_state world"
  obtain r w' where run: "authorize (ex_access policy) (ex_read []) ?w = (r, w')" by fastforce
  have "as_attempts (w_ext ?w) = Some l" by (simp add: ex_at_def)
  from authorize_balanced [OF this l(1) run] l run show ?thesis by (simp only: map_of_eq_empty_iff map_of.simps) blast
qed

lemma ex_rotated:
  "rotate_grant (ex_grants 11) 9 (seconds 30) (Some (seconds 60)) None None None None None (ex_at ()) =
    (Inr \<lparr>ig_grant = ex_issued\<lparr>ag_id := 11, ag_username := grant_username 11\<rparr>, ig_secret = ex_grant_secret\<rparr>, ex_at ())"
proof -
  have c: "gc_clock (ex_grants 11) = (\<lambda>x. (0, x))" "gc_new_grant_id (ex_grants 11) = (\<lambda>x. (11, x))"
    "gc_get_access_grant_by_id (ex_grants 11) = (\<lambda>i x. (Inr (Some ex_issued), x))"
    "gc_rotate_access_grant (ex_grants 11) = (\<lambda>i g t r m k x. (Inr (ex_issued\<lparr>ag_expires_at := Some t\<rparr>, g), x))"
    by (simp_all add: ex_grants_def)
  have e: "ag_camera_id ex_issued = 7" "ag_kind ex_issued = ''temporary''" "ag_created_by ex_issued = ''operator''"
    "ag_revoked_at ex_issued = None" "active_at ex_issued 0" by (simp_all add: ex_issued_def active_at_def seconds_def)
  have "\<not> seconds 30 < 0" "\<not> max_rotation_overlap < seconds 30" by (simp_all add: seconds_def max_rotation_overlap_def)
  then show ?thesis
    by (simp add: rotate_grant_def and_then_def raise_if_def pure_external_def external_def grant_idempotency_def check_request_def
        ret_def find_grant_def c e ex_issue)
qed

theorem rotation_bounded_witness:
  "\<exists>issued w' old_expires. rotate_grant (ex_grants 11) 9 (seconds 30) (Some (seconds 60)) None None None None None (ex_at ()) = (Inr issued, w')
     \<and> ag_id (ig_grant issued) = 11 \<and> access_grant_post_init (ig_grant issued) = None \<and> 0 \<le> old_expires \<and> old_expires \<le> seconds 30"
  using rotation_bounded [OF ex_rotated] ex_rotated
  by (auto simp: ex_grants_def ex_issued_def)

end
