(* ===== verification/Callback_Properties.thy ===== *)
theory Callback_Properties
  imports Pepper_Verifier Token_Properties
begin

text \<open>
  The credentials a media node presents when it calls back: what \<^verbatim>\<open>PepperVerifier\<close> writes into the header is what it
  reads out of it, also after the primary key was changed, and only for the node it was written for.
\<close>

section \<open>Standard Base64\<close>

lemma b64_std_props:
  assumes "d < 64"
  shows "b64_std_value (b64_std (b64_char d)) = Some d" "b64_std (b64_char d) \<noteq> CHR ''=''" "code (b64_std (b64_char d)) < 128"
proof -
  have codes: "code CHR ''-'' = 45" "code CHR ''_'' = 95" "code CHR ''+'' = 43" "code CHR ''/'' = 47" "code CHR ''='' = 61"
    by (simp_all add: code_def)
  have eq: "b64_char d = c \<longleftrightarrow> code (b64_char d) = code c" for c by (auto simp: code_inj)
  have char: "b64_std (b64_char d) = (if d = 62 then CHR ''+'' else if d = 63 then CHR ''/'' else b64_char d)"
    using assms unfolding b64_std_def eq codes by (auto simp: b64_char_code)
  show "b64_std_value (b64_std (b64_char d)) = Some d"
    using assms b64_char_props(1) [OF assms] unfolding char
    by (auto simp: b64_std_value_def b64_value_def codes eq b64_char_code split: if_splits)
  show "b64_std (b64_char d) \<noteq> CHR ''=''" "code (b64_std (b64_char d)) < 128"
    using b64_char_props [OF assms] unfolding char by (auto simp: codes)
qed

lemma a2b_strict_char:
  assumes "d < 64"
  shows "a2b_strict False 0 left pads (b64_std (b64_char d) # cs) = a2b_strict False (Suc 0) d 0 cs"
    "a2b_strict False (Suc 0) left pads (b64_std (b64_char d) # cs) =
       map_option ((#) (left * 4 + d div 16)) (a2b_strict False 2 (d mod 16) 0 cs)"
    "a2b_strict False 2 left pads (b64_std (b64_char d) # cs) =
       map_option ((#) (left * 16 + d div 4)) (a2b_strict False 3 (d mod 4) 0 cs)"
    "a2b_strict False 3 left pads (b64_std (b64_char d) # cs) = map_option ((#) (left * 64 + d)) (a2b_strict False 0 0 0 cs)"
  using b64_std_props [OF assms] by simp_all

lemma a2b_strict_pad: "a2b_strict False 2 left 0 [CHR ''='', CHR ''=''] = Some []" "a2b_strict False 3 left 0 [CHR ''=''] = Some []"
  by simp_all

lemma decode_strict_body:
  "octets bs \<Longrightarrow> a2b_strict False 0 left pads (b64encode bs) = Some bs"
proof (induction bs arbitrary: left pads rule: urlsafe_b64encode.induct)
  case (2 a)
  then have "a < 256" by (simp add: octets_def)
  then have "a div 4 < 64" "a mod 4 * 16 < 64" by (rule octet_digits [of a 0 0], simp, simp)+
  note steps = a2b_strict_char(1) [OF this(1)] a2b_strict_char(2) [OF this(2)]
  have "a div 4 * 4 + (a mod 4 * 16) div 16 = a" using div_mult_mod_eq [of a 4] by simp
  moreover have "b64_std CHR ''='' = CHR ''=''" by (simp add: b64_std_def)
  ultimately show ?case by (simp only: b64encode_def urlsafe_b64encode.simps list.map steps a2b_strict_pad option.map)
next
  case (3 a b)
  then have ab: "a < 256" "b < 256" by (simp_all add: octets_def)
  then have "a div 4 < 64" "a mod 4 * 16 + b div 16 < 64" "b mod 16 * 4 < 64" by (rule octet_digits [of a b 0], simp)+
  note steps = a2b_strict_char(1) [OF this(1)] a2b_strict_char(2) [OF this(2)] a2b_strict_char(3) [OF this(3)]
  have "a div 4 * 4 + (a mod 4 * 16 + b div 16) div 16 = a" "(a mod 4 * 16 + b div 16) mod 16 * 16 + (b mod 16 * 4) div 4 = b"
    using octet_join [of b 0] ab by simp_all
  moreover have "b64_std CHR ''='' = CHR ''=''" by (simp add: b64_std_def)
  ultimately show ?case by (simp only: b64encode_def urlsafe_b64encode.simps list.map steps a2b_strict_pad option.map)
next
  case (4 a b c bs)
  then have abc: "a < 256" "b < 256" "c < 256" "octets bs" by (simp_all add: octets_def)
  then have "a div 4 < 64" "a mod 4 * 16 + b div 16 < 64" "b mod 16 * 4 + c div 64 < 64" "c mod 64 < 64"
    using octet_digits [of a b c] by blast+
  note steps = a2b_strict_char(1) [OF this(1)] a2b_strict_char(2) [OF this(2)] a2b_strict_char(3) [OF this(3)] a2b_strict_char(4) [OF this(4)]
  show ?case
    by (simp only: b64encode_def urlsafe_b64encode.simps list.map steps octet_join [OF abc(2,3)]
        4(1) [OF abc(4), unfolded b64encode_def] option.map)
qed (simp add: b64encode_def)

lemma b64encode_ascii:
  assumes "octets bs"
  shows "list_all (\<lambda>c. code c < 128) (b64encode bs)"
proof -
  obtain k where k: "urlsafe_b64encode bs = b64_body bs @ replicate k CHR ''=''" using encode_body by blast
  have "code (b64_std c) < 128" if "c \<in> set (b64_body bs)" for c
    using b64_body_chars [OF assms that] b64_std_props(3) by blast
  moreover have "code (b64_std CHR ''='') < 128" by (simp add: b64_std_def code_def)
  ultimately show ?thesis by (auto simp: b64encode_def k list_all_iff)
qed

lemma decode_strict_encode: "octets bs \<Longrightarrow> b64decode_strict (b64encode bs) = Some bs"
  by (simp add: b64decode_strict_def b64encode_ascii decode_strict_body)

section \<open>The header\<close>

lemma uuid_str_plain: "plain_ascii (uuid_str u)"
proof -
  have "plain_ascii (take n (drop m (hex_fixed k i)))" "plain_ascii (drop m (hex_fixed k i))" "plain_ascii (take m (hex_fixed k i))" for n m k i
    using hex_fixed_plain [of k i] by (auto simp: plain_ascii_def list_all_iff dest!: in_set_takeD in_set_dropD)
  then show ?thesis by (simp add: uuid_str_def Let_def code_def)
qed

lemma plain_ascii_codes: "plain_ascii s \<Longrightarrow> octets (ascii_encode s) \<and> ascii_decode (ascii_encode s) = Some s"
  by (induction s) (simp_all add: octets_def ascii_encode_def ascii_decode_def plain_ascii_def code_def split: if_splits)

lemma lower_hex_plain:
  assumes "all_lower_hex s"
  shows "plain_ascii s"
proof -
  have "list_all (\<lambda>c. 32 \<le> code c \<and> code c < 127) lower_hex_chars" by (simp add: lower_hex_chars_def code_def)
  then show ?thesis using assms by (auto simp: all_lower_hex_def plain_ascii_def list_all_iff)
qed

lemma callback_message_bytes: "utf8_encode (callback_message node_id) = ascii_encode (callback_message node_id)"
proof -
  have "plain_ascii (callback_message node_id)" using uuid_str_plain [of node_id] by (simp add: callback_message_def code_def)
  then show ?thesis by (simp add: utf8_plain ascii_encode_def)
qed

lemma callback_username_inj: "callback_username i = callback_username j \<longleftrightarrow> i = j"
  by (simp add: callback_username_def uuid_str_inj)

text \<open>C25. The header a node is given is accepted for that node and for no other, by every verifier that still holds a key
  with the same HMAC of the node, whichever of its keys is the primary one, and by no verifier without such a key.\<close>

theorem callback_exact:
  assumes "callback_authorization v node_id = Inr header" and "\<And>k m. all_lower_hex (pv_hmac v k m)"
  shows "\<exists>key. map_of (pv_keys v) (pv_primary_key_id v) = Some key
    \<and> verify_callback_authorization v' node_id' (Some header) =
      Inr (node_id' = node_id \<and> (\<exists>k \<in> set (pv_keys v'). pv_hmac v' (snd k) (ascii_encode (callback_message node_id))
             = pv_hmac v key (ascii_encode (callback_message node_id))))"
proof -
  let ?message = "ascii_encode (callback_message node_id)" and ?user = "callback_username node_id"
  obtain key where key: "map_of (pv_keys v) (pv_primary_key_id v) = Some key"
    and header: "header = ''Basic '' @ b64encode (ascii_encode (?user @ CHR '':'' # pv_hmac v key ?message))"
    using assms(1) by (auto simp: callback_authorization_def callback_credentials_def pepper_digest_def callback_message_bytes
        split: option.splits)
  let ?text = "?user @ CHR '':'' # pv_hmac v key ?message"
  have "plain_ascii ?text" using uuid_str_plain [of node_id] lower_hex_plain [OF assms(2)] by (simp add: callback_username_def code_def)
  then have octets: "octets (ascii_encode ?text)" and decoded: "ascii_decode (ascii_encode ?text) = Some ?text"
    using plain_ascii_codes by blast+
  have "CHR '':'' \<notin> set ?user" using uuid_str_chars by (auto simp: callback_username_def)
  then have parts: "partition_char CHR '':'' ?text = (?user, True, pv_hmac v key ?message)" by (rule partition_char_append)
  have "drop 6 header = b64encode (ascii_encode ?text)" "starts_with ''Basic '' header" by (simp_all add: header starts_with_def)
  then have "verify_callback_authorization v' node_id' (Some header) =
      (if ?user \<noteq> callback_username node_id' then Inr False
       else Inr (\<exists>k \<in> set (pv_keys v'). pv_hmac v key ?message = pv_hmac v' (snd k) (ascii_encode (callback_message node_id'))))"
    by (simp add: verify_callback_authorization_def decode_strict_encode [OF octets] decoded parts)
  then show ?thesis using key by (cases "node_id' = node_id") (simp_all add: callback_username_inj eq_commute [of "pv_hmac v key ?message"])
qed

definition ex_peppers :: pepper_verifier where
  "ex_peppers = \<lparr>pv_primary_key_id = [107], pv_keys = [([107], replicate 32 1)], pv_hmac = (\<lambda>key message. replicate 64 CHR ''1'')\<rparr>"

theorem callback_exact_witness:
  "\<exists>header. callback_authorization ex_peppers 3 = Inr header
     \<and> verify_callback_authorization ex_peppers 3 (Some header) = Inr True
     \<and> verify_callback_authorization ex_peppers 4 (Some header) = Inr False"
proof -
  have "\<exists>header. callback_authorization ex_peppers 3 = Inr header"
    by (simp add: callback_authorization_def callback_credentials_def pepper_digest_def ex_peppers_def)
  then obtain header where header: "callback_authorization ex_peppers 3 = Inr header" by blast
  have hex: "all_lower_hex (pv_hmac ex_peppers k m)" for k m
    by (simp add: ex_peppers_def all_lower_hex_def lower_hex_chars_def list_all_iff)
  from callback_exact [OF header hex, of ex_peppers 3] callback_exact [OF header hex, of ex_peppers 4] header
  show ?thesis by (simp add: ex_peppers_def)
qed

end
