(* ===== verification/Telemetry_Properties.thy ===== *)
theory Telemetry_Properties
  imports Access_Data
begin

text \<open>The telemetry of decisions refines the plain list of all the events: what it shows can be computed from that list.\<close>

definition event_counts :: "access_decision_event list \<Rightarrow> metric_key \<Rightarrow> nat option" where
  "event_counts es k = (if k \<in> metric_key_of ` set es then Some (count_list (map metric_key_of es) k) else None)"

lemma map_of_increment:
  "map_of (increment k c) = (map_of c)(k \<mapsto> (case map_of c k of None \<Rightarrow> 1 | Some n \<Rightarrow> n + 1))"
  by (induction k c rule: increment.induct) (auto simp: fun_eq_iff)

lemma event_counts_snoc:
  "event_counts (es @ [e]) =
     (event_counts es)(metric_key_of e \<mapsto> (case event_counts es (metric_key_of e) of None \<Rightarrow> 1 | Some n \<Rightarrow> n + 1))"
proof -
  have "count_list (map metric_key_of es) k = 0" if "k \<notin> metric_key_of ` set es" for k
    using that by (simp add: count_list_0_iff)
  then show ?thesis by (auto simp: event_counts_def fun_eq_iff)
qed

text \<open>The state after a list of events.\<close>

definition telemetry_after :: "int \<Rightarrow> access_decision_event list \<Rightarrow> decision_telemetry \<Rightarrow> bool" where
  "telemetry_after n es t \<longleftrightarrow> dt_maximum_audit_events t = n \<and> map_of (dt_counters t) = event_counts es
     \<and> dt_audit t = drop (length es - nat n) es \<and> dt_dropped_audit t = length es - nat n
     \<and> dt_last_use_persistence_failures t = length (filter (\<lambda>e. ev_last_use_persisted e = Some False) es)"

lemma append_bounded_drop:
  assumes "0 < n"
  shows "append_bounded (int n) x (drop (length xs - n) xs) = drop (length (xs @ [x]) - n) (xs @ [x])"
  using assms by (auto simp: append_bounded_def tl_drop Suc_diff_le drop_Suc)

lemma record_event_after:
  assumes "1 \<le> n" and "telemetry_after n es t"
  shows "telemetry_after n (es @ [e]) (record_event e t)"
proof -
  have n: "int (nat n) = n" "0 < nat n" using assms(1) by simp_all
  have "int (length (dt_audit t)) = n \<longleftrightarrow> nat n \<le> length es" using assms(2) n by (auto simp: telemetry_after_def)
  then have "length es - nat n + of_bool (int (length (dt_audit t)) = n) = length (es @ [e]) - nat n" by (simp add: Suc_diff_le)
  moreover have "append_bounded n e (drop (length es - nat n) es) = drop (length (es @ [e]) - nat n) (es @ [e])"
    using append_bounded_drop [OF n(2), of e es] by (simp only: n(1))
  ultimately show ?thesis
    using assms(2) by (simp add: telemetry_after_def record_event_def map_of_increment event_counts_snoc)
qed

text \<open>After any sequence of decisions the snapshot shows the most recent events in their order, as many as are kept,
  the number of the others, and for every kind of decision exactly how often it was taken, dropped events included.\<close>

theorem telemetry_exact:
  assumes "telemetry_init n = Inr t0"
  shows "sn_recent_audit (telemetry_snapshot (fold record_event es t0)) = drop (length es - nat n) es
    \<and> sn_dropped_audit (telemetry_snapshot (fold record_event es t0)) = length es - nat n
    \<and> map_of (sn_counters (telemetry_snapshot (fold record_event es t0))) = event_counts es
    \<and> sn_last_use_persistence_failures (telemetry_snapshot (fold record_event es t0)) =
        length (filter (\<lambda>e. ev_last_use_persisted e = Some False) es)"
proof -
  have n: "1 \<le> n" and "telemetry_after n [] t0"
    using assms by (auto simp: telemetry_init_def telemetry_after_def event_counts_def split: if_splits)
  then have "telemetry_after n es (fold record_event es t0)"
    by (induction es rule: rev_induct) (simp_all add: record_event_after)
  then show ?thesis by (simp add: telemetry_after_def telemetry_snapshot_def)
qed

definition ex_event :: "bool \<Rightarrow> access_decision_event" where
  "ex_event persisted = \<lparr>ev_reason = ADR_ALLOWED, ev_allowed = True, ev_node_id = 1, ev_action = ''read'', ev_protocol = ''rtsp'',
     ev_peer_family = ''ipv4'', ev_peer_ip = ''10.0.0.1'', ev_public_id = ''cam'', ev_camera_id = Some 2, ev_grant_id = Some 3,
     ev_last_use_persisted = Some persisted\<rparr>"

theorem telemetry_exact_witness:
  "\<exists>t0. telemetry_init 1 = Inr t0
     \<and> sn_recent_audit (telemetry_snapshot (fold record_event [ex_event True, ex_event False] t0)) = [ex_event False]
     \<and> sn_dropped_audit (telemetry_snapshot (fold record_event [ex_event True, ex_event False] t0)) = 1"
proof -
  obtain t0 where "telemetry_init 1 = Inr t0" by (simp add: telemetry_init_def)
  with telemetry_exact [OF this, of "[ex_event True, ex_event False]"] show ?thesis by simp
qed

end
