(* ===== verification/Probe_Endpoint.thy ===== *)
theory Probe_Endpoint
  imports Camera_Secrets Access_Policy Camera_Control Base64 Complex_Main "HOL-Library.List_Lexorder" "HOL-Library.Char_ord"
begin

text \<open>
  \<^verbatim>\<open>probe_security.py\<close>: which destinations of camera sources a probe may connect to. The resolver and the source of
  generations are functions of an outside state, the hash is a function, and so are two parts of Python that have no
  simple model: the IDNA codec on text that is not ASCII, and the order in which a set is iterated. An address with a
  scope id is taken without it where a network is made from it.
\<close>

section \<open>Special addresses\<close>

text \<open>The classes of \<^verbatim>\<open>ipaddress\<close> that the admission refuses, as in Python 3.12.\<close>

definition net6 :: "nat \<Rightarrow> nat \<Rightarrow> ip_network" where
  "net6 hextet p = IPv6Network (of_nat (hextet * 2 ^ 112)) p"

definition ipv6_reserved_networks :: "ip_network list" where
  "ipv6_reserved_networks =
     [net6 0 8, net6 0x100 8, net6 0x200 7, net6 0x400 6, net6 0x800 5, net6 0x1000 4, net6 0x4000 3, net6 0x6000 3,
      net6 0x8000 3, net6 0xA000 3, net6 0xC000 3, net6 0xE000 4, net6 0xF000 5, net6 0xF800 6, net6 0xFE00 9]"

primrec address_int :: "ip_address \<Rightarrow> nat" where
  "address_int (IPv4Address v) = unat v"
| "address_int (IPv6Address v scope) = unat v"

definition is_unspecified :: "ip_address \<Rightarrow> bool" where
  "is_unspecified a \<longleftrightarrow> address_int a = 0"

primrec is_loopback :: "ip_address \<Rightarrow> bool" where
  "is_loopback (IPv4Address v) = in_network (IPv4Address v) (IPv4Network 0x7F000000 8)"
| "is_loopback (IPv6Address v scope) = (v = 1)"

definition is_link_local :: "ip_address \<Rightarrow> bool" where
  "is_link_local a \<longleftrightarrow> in_network a (IPv4Network 0xA9FE0000 16) \<or> in_network a (net6 0xFE80 10)"

definition is_multicast :: "ip_address \<Rightarrow> bool" where
  "is_multicast a \<longleftrightarrow> in_network a (IPv4Network 0xE0000000 4) \<or> in_network a (net6 0xFF00 8)"

definition is_reserved :: "ip_address \<Rightarrow> bool" where
  "is_reserved a \<longleftrightarrow> in_network a (IPv4Network 0xF0000000 4) \<or> list_ex (in_network a) ipv6_reserved_networks"

definition platform_metadata_endpoints :: "ip_address list" where
  "platform_metadata_endpoints =
     [IPv6Address 0xfd000ec2000000000000000000000254 None, IPv6Address 0xfd000ec2000000000000000000000023 None,
      IPv4Address 0x646464c8]"

definition probe_destination_is_forbidden :: "ip_address \<Rightarrow> bool" where
  "probe_destination_is_forbidden a \<longleftrightarrow>
     is_unspecified a \<or> is_loopback a \<or> is_link_local a \<or> is_multicast a \<or> is_reserved a
     \<or> a \<in> set platform_metadata_endpoints"

primrec normalize_address :: "ip_address \<Rightarrow> ip_address" where
  "normalize_address (IPv4Address v) = IPv4Address v"
| "normalize_address (IPv6Address v scope) =
     (case ipv4_mapped v of Some a \<Rightarrow> a | None \<Rightarrow> IPv6Address v scope)"

text \<open>\<^verbatim>\<open>address.version, address.packed\<close>: within a version the bytes are of one length, so they compare as numbers.\<close>

definition address_sort_key :: "ip_address \<Rightarrow> nat \<times> nat" where
  "address_sort_key a = (ip_version a, address_int a)"

section \<open>Data\<close>

definition site_key_valid :: "string \<Rightarrow> bool" where
  "site_key_valid s \<longleftrightarrow>
     s \<noteq> [] \<and> length s \<le> 64 \<and> (hd s \<in> set ''abcdefghijklmnopqrstuvwxyz0123456789'')
     \<and> list_all (\<lambda>c. c \<in> set ''abcdefghijklmnopqrstuvwxyz0123456789._-'') s"

definition sha256_valid :: "string \<Rightarrow> bool" where
  "sha256_valid s \<longleftrightarrow> length s = 64 \<and> all_lower_hex s"

definition identity_post_init :: "probe_endpoint_identity_t \<Rightarrow> py_error option" where
  "identity_post_init i =
     (if uuid_version (pe_generation i) \<noteq> Some 4 \<or> \<not> (1 \<le> pe_port i \<and> pe_port i \<le> 65535)
         \<or> \<not> site_key_valid (pe_site_key i) \<or> \<not> sha256_valid (pe_policy_sha256 i) \<or> \<not> sha256_valid (pe_source_url_sha256 i)
      then Some (ProbeEndpointRejected ''probe_endpoint_identity_invalid'') else None)"

definition unsafe_path_char :: "char \<Rightarrow> bool" where
  "unsafe_path_char c \<longleftrightarrow> c \<in> {CHR 0x27, CHR 0x5C, CHR 0x0D, CHR 0x0A, CHR 0x00}"

definition endpoint_post_init :: "admitted_probe_endpoint \<Rightarrow> py_error option" where
  "endpoint_post_init e =
     (if \<not> starts_with ''/'' (ape_path_and_query e) \<or> 8192 < length (utf8_encode (ape_path_and_query e))
         \<or> list_ex unsafe_path_char (ape_path_and_query e)
      then Some (ProbeEndpointRejected ''probe_endpoint_invalid'') else None)"

definition new_endpoint ::
  "probe_endpoint_identity_t \<Rightarrow> string \<Rightarrow> (codepoints \<times> codepoints) option \<Rightarrow> py_error + admitted_probe_endpoint" where
  "new_endpoint identity path credential =
     (let e = \<lparr>ape_identity = identity, ape_path_and_query = path, ape_credential = credential\<rparr>
      in case endpoint_post_init e of Some x \<Rightarrow> Inl x | None \<Rightarrow> Inr e)"

section \<open>Source URLs\<close>

text \<open>\<^verbatim>\<open>_ProbeCredential\<close> with its check.\<close>

definition parse_credential ::
  "string option \<Rightarrow> string option \<Rightarrow> py_error + (codepoints \<times> codepoints) option" where
  "parse_credential username password =
     (case (username, password) of
        (None, None) \<Rightarrow> Inr None
      | (Some u, Some p) \<Rightarrow>
          if \<not> probe_credential_component_valid (unquote_text u) 64
             \<or> \<not> probe_credential_component_valid (unquote_text p) 256
          then Inl (ProbeEndpointRejected ''probe_credential_invalid'')
          else Inr (Some (unquote_text u, unquote_text p))
      | _ \<Rightarrow> Inl (ProbeEndpointRejected ''probe_credential_invalid''))"

record parsed_source =
  ps_hostname :: string
  ps_port :: int
  ps_path_and_query :: string
  ps_credential :: "(codepoints \<times> codepoints) option"
  ps_sha256 :: string

definition parse_source_url :: "(nat list \<Rightarrow> string) \<Rightarrow> string \<Rightarrow> py_error + parsed_source" where
  "parse_source_url sha256 source_url =
     (if list_ex (\<lambda>c. c \<in> {CHR 0x0D, CHR 0x0A, CHR 0x00}) source_url
      then Inl (ProbeEndpointRejected ''probe_endpoint_invalid'')
      else case urlsplit source_url of
        None \<Rightarrow> Inl (ProbeEndpointRejected ''probe_endpoint_invalid'')
      | Some parsed \<Rightarrow>
         (case url_port parsed of
            None \<Rightarrow> Inl (ProbeEndpointRejected ''probe_endpoint_invalid'')
          | Some found \<Rightarrow>
             (let encoded = utf8_encode source_url;
                  port = (case found of None \<Rightarrow> 554 | Some p \<Rightarrow> int p)
              in case url_hostname parsed of
                   None \<Rightarrow> Inl (ProbeEndpointRejected ''probe_endpoint_invalid'')
                 | Some hostname \<Rightarrow>
                    if \<not> (1 \<le> length encoded \<and> length encoded \<le> 8192) \<or> lower (sr_scheme parsed) \<noteq> ''rtsp''
                       \<or> sr_fragment parsed \<noteq> [] \<or> \<not> (1 \<le> port \<and> port \<le> 65535)
                    then Inl (ProbeEndpointRejected ''probe_endpoint_invalid'')
                    else (case parse_credential (url_username parsed) (url_password parsed) of
                       Inl e \<Rightarrow> Inl e
                     | Inr credential \<Rightarrow>
                        (let path = (if sr_path parsed = [] then ''/'' else sr_path parsed)
                               @ (if sr_query parsed = [] then [] else CHR ''?'' # sr_query parsed)
                         in if list_ex unsafe_path_char path then Inl (ProbeEndpointRejected ''probe_endpoint_invalid'')
                            else Inr \<lparr>ps_hostname = hostname, ps_port = port, ps_path_and_query = path,
                                      ps_credential = credential, ps_sha256 = sha256 encoded\<rparr>)))))"

definition literal_address :: "string \<Rightarrow> py_error + ip_address option" where
  "literal_address hostname =
     (if CHR ''%'' \<in> set hostname then Inl (ProbeEndpointRejected ''probe_endpoint_invalid'')
      else Inr (parse_ip_address hostname))"

text \<open>The IDNA codec: text in ASCII is kept if its labels have a proper length; the last one may be empty.\<close>

definition idna_encode :: "(string \<Rightarrow> string option) \<Rightarrow> string \<Rightarrow> string option" where
  "idna_encode other s =
     (if s = [] then Some []
      else if list_all (\<lambda>c. code c < 128) s then
        (let labels = split_char CHR ''.'' s in
           if list_ex (\<lambda>l. l = [] \<or> 64 \<le> length l) (butlast labels) \<or> 64 \<le> length (last labels) then None else Some s)
      else other s)"

definition canonical_hostname :: "(string \<Rightarrow> string option) \<Rightarrow> string \<Rightarrow> py_error + string" where
  "canonical_hostname idna hostname =
     (case idna_encode idna (rstrip_char CHR ''.'' hostname) of
        None \<Rightarrow> Inl (ProbeEndpointRejected ''probe_endpoint_invalid'')
      | Some encoded \<Rightarrow>
         (let canonical = lower encoded in
            if \<not> (1 \<le> length canonical \<and> length canonical \<le> 253)
               \<or> list_ex (\<lambda>l. l = [] \<or> 63 < length l) (split_char CHR ''.'' canonical)
            then Inl (ProbeEndpointRejected ''probe_endpoint_invalid'') else Inr canonical))"

section \<open>The resolver\<close>

record 'x getent_resolver =
  gr_executable :: string
  gr_timeout_seconds :: rat
  gr_run :: "string list \<Rightarrow> rat \<Rightarrow> 'x \<Rightarrow> (py_error + (int \<times> string) option) \<times> 'x"

text \<open>A run gives the return code and the output; no value stands for \<^verbatim>\<open>OSError\<close> and \<^verbatim>\<open>SubprocessError\<close>. The slots are state.\<close>

definition getent_resolver_init ::
  "string \<Rightarrow> rat \<Rightarrow> int \<Rightarrow> (string list \<Rightarrow> rat \<Rightarrow> 'x \<Rightarrow> (py_error + (int \<times> string) option) \<times> 'x)
   \<Rightarrow> py_error + ('x getent_resolver \<times> nat)" where
  "getent_resolver_init executable timeout_seconds max_concurrency run =
     (if \<not> starts_with ''/'' executable \<or> \<not> (1 / 10 \<le> timeout_seconds \<and> timeout_seconds \<le> 5)
         \<or> \<not> (1 \<le> max_concurrency \<and> max_concurrency \<le> 16)
      then Inl (ValueError ''probe_resolver_policy_invalid'')
      else Inr (\<lparr>gr_executable = executable, gr_timeout_seconds = timeout_seconds, gr_run = run\<rparr>, nat max_concurrency))"

text \<open>\<^verbatim>\<open>str.splitlines\<close>\<close>

definition is_line_break :: "char \<Rightarrow> bool" where
  "is_line_break c \<longleftrightarrow> (10 \<le> code c \<and> code c \<le> 13) \<or> (28 \<le> code c \<and> code c \<le> 30) \<or> code c = 133"

function split_lines :: "string \<Rightarrow> string list" where
  "split_lines s =
     (if s = [] then []
      else case dropWhile (\<lambda>c. \<not> is_line_break c) s of
        [] \<Rightarrow> [s]
      | b # rest \<Rightarrow>
          takeWhile (\<lambda>c. \<not> is_line_break c) s
            # split_lines (if b = CHR 0x0D \<and> starts_with [CHR 0x0A] rest then tl rest else rest))"
  by pat_completeness auto
termination
proof (relation "measure length", goal_cases)
  case (2 s b rest)
  then show ?case using length_dropWhile_le [of "\<lambda>c. \<not> is_line_break c" s] by auto
qed auto

declare split_lines.simps [simp del]

definition first_words :: "string \<Rightarrow> string list" where
  "first_words stdout =
     map (\<lambda>line. takeWhile (\<lambda>c. \<not> is_space_char c) (dropWhile is_space_char line))
       (filter (\<lambda>line. str_strip line \<noteq> []) (split_lines stdout))"

definition getent_resolve :: "'x getent_resolver \<Rightarrow> string \<Rightarrow> nat \<times> 'x \<Rightarrow> (py_error + string list) \<times> nat \<times> 'x" where
  "getent_resolve r hostname w =
     (case w of (slots, x) \<Rightarrow>
        if slots = 0 then (Inl (ProbeEndpointRejected ''probe_resolver_capacity_exhausted''), w)
        else case gr_run r [gr_executable r, ''ahosts'', hostname] (gr_timeout_seconds r) x of
          (Inl e, x') \<Rightarrow> (Inl e, slots, x')
        | (Inr None, x') \<Rightarrow> (Inl (ProbeEndpointRejected ''probe_destination_unavailable''), slots, x')
        | (Inr (Some (returncode, stdout)), x') \<Rightarrow>
           (let addresses = sort (remdups (first_words stdout)) in
              if returncode \<noteq> 0 \<or> 65536 < length (utf8_encode stdout)
                 \<or> \<not> (1 \<le> length addresses \<and> length addresses \<le> 16)
              then (Inl (ProbeEndpointRejected ''probe_destination_unavailable''), slots, x')
              else (Inr addresses, slots, x')))"

section \<open>Admission\<close>

record 'x probe_admission =
  pa_site_key :: string
  pa_allowed_networks :: "ip_network list"
  pa_policy_sha256 :: string
  pa_resolve :: "string \<Rightarrow> 'x \<Rightarrow> (py_error + string list) \<times> 'x"
  pa_new_generation :: "'x \<Rightarrow> uuid \<times> 'x"
  pa_effective_networks :: "('x \<Rightarrow> (py_error + ip_network list) \<times> 'x) option"
  pa_sha256 :: "nat list \<Rightarrow> string"
  pa_idna :: "string \<Rightarrow> string option"
  pa_set_order :: "ip_address list \<Rightarrow> ip_address list"

definition network_sort_key :: "ip_network \<Rightarrow> nat \<times> nat \<times> nat" where
  "network_sort_key n = (network_version n, network_address_int n, network_prefixlen n)"

definition policy_text :: "string \<Rightarrow> ip_network list \<Rightarrow> string" where
  "policy_text site_key networks =
     ''site:'' @ site_key @ CHR 0x0A #
       str_join [CHR 0x0A] (map (\<lambda>n. str_nat (network_version n) @ CHR '':'' # network_str n) (sort_key network_sort_key networks))"

definition probe_admission_init :: "'x probe_admission \<Rightarrow> py_error + 'x probe_admission" where
  "probe_admission_init pa =
     (if \<not> site_key_valid (pa_site_key pa) \<or> 128 < length (pa_allowed_networks pa) \<or> \<not> distinct (pa_allowed_networks pa)
      then Inl (ValueError ''probe_network_policy_invalid'')
      else Inr (pa\<lparr>pa_policy_sha256 := pa_sha256 pa (utf8_encode (policy_text (pa_site_key pa) (pa_allowed_networks pa)))\<rparr>))"

definition address_allowed :: "'x probe_admission \<Rightarrow> ip_address \<Rightarrow> 'x \<Rightarrow> bool \<times> 'x" where
  "address_allowed pa address x =
     (let inside = list_ex (in_network address) (pa_allowed_networks pa) in
        case pa_effective_networks pa of
          None \<Rightarrow> (inside, x)
        | Some effective \<Rightarrow>
            if \<not> inside then (False, x)
            else case effective x of
              (Inl e, x') \<Rightarrow> (False, x')
            | (Inr networks, x') \<Rightarrow> (list_ex (in_network address) networks, x'))"

text \<open>\<^verbatim>\<open>not any(not self._allowed(address) for address in addresses)\<close>\<close>

fun all_allowed :: "'x probe_admission \<Rightarrow> ip_address list \<Rightarrow> 'x \<Rightarrow> bool \<times> 'x" where
  "all_allowed pa [] x = (True, x)"
| "all_allowed pa (a # as) x =
     (case address_allowed pa a x of (ok, x') \<Rightarrow> if ok then all_allowed pa as x' else (False, x'))"

text \<open>\<^verbatim>\<open>sorted({_normalize_address(ip_address(value)) for value in raw}, key=...)\<close>\<close>

definition sorted_addresses :: "'x probe_admission \<Rightarrow> string list \<Rightarrow> ip_address list option" where
  "sorted_addresses pa raw =
     map_option (\<lambda>as. sort_key address_sort_key (pa_set_order pa (remdups (map normalize_address as))))
       (all_some (map parse_ip_address raw))"

definition destination_unavailable :: py_error where
  "destination_unavailable = ProbeEndpointRejected ''probe_destination_unavailable''"

definition resolve_hostname :: "'x probe_admission \<Rightarrow> string \<Rightarrow> 'x \<Rightarrow> (py_error + ip_address list) \<times> 'x" where
  "resolve_hostname pa hostname x =
     (case canonical_hostname (pa_idna pa) hostname of
        Inl e \<Rightarrow> (Inl e, x)
      | Inr canonical \<Rightarrow>
         (case pa_resolve pa canonical x of
            (Inl e, x') \<Rightarrow> (Inl destination_unavailable, x')
          | (Inr raw, x') \<Rightarrow>
             (if \<not> (1 \<le> length raw \<and> length raw \<le> 16) then Inl destination_unavailable
              else case sorted_addresses pa raw of None \<Rightarrow> Inl destination_unavailable | Some as \<Rightarrow> Inr as, x')))"

definition admit_addresses ::
  "'x probe_admission \<Rightarrow> parsed_source \<Rightarrow> ip_address list \<Rightarrow> 'x \<Rightarrow> (py_error + admitted_probe_endpoint) \<times> 'x" where
  "admit_addresses pa source addresses x =
     (if list_ex probe_destination_is_forbidden addresses then (Inl (ProbeEndpointRejected ''probe_destination_forbidden''), x)
      else case all_allowed pa addresses x of
        (False, x') \<Rightarrow> (Inl (ProbeEndpointRejected ''probe_destination_not_allowed''), x')
      | (True, x') \<Rightarrow>
         (case pa_new_generation pa x' of
            (generation, x'') \<Rightarrow>
              if uuid_version generation \<noteq> Some 4 then (Inl (ProbeEndpointRejected ''probe_endpoint_identity_invalid''), x'')
              else (let identity = \<lparr>pe_generation = generation, pe_address = hd addresses, pe_port = ps_port source,
                                     pe_site_key = pa_site_key pa, pe_policy_sha256 = pa_policy_sha256 pa,
                                     pe_source_url_sha256 = ps_sha256 source\<rparr>
                    in case identity_post_init identity of
                         Some e \<Rightarrow> (Inl e, x'')
                       | None \<Rightarrow> (new_endpoint identity (ps_path_and_query source) (ps_credential source), x''))))"

definition admit :: "'x probe_admission \<Rightarrow> string \<Rightarrow> 'x \<Rightarrow> (py_error + admitted_probe_endpoint) \<times> 'x" where
  "admit pa source_url x =
     (case parse_source_url (pa_sha256 pa) source_url of
        Inl e \<Rightarrow> (Inl e, x)
      | Inr source \<Rightarrow>
          if pa_allowed_networks pa = [] then (Inl (ProbeEndpointRejected ''probe_source_policy_not_configured''), x)
          else case literal_address (ps_hostname source) of
            Inl e \<Rightarrow> (Inl e, x)
          | Inr (Some literal) \<Rightarrow> admit_addresses pa source [normalize_address literal] x
          | Inr None \<Rightarrow>
             (case resolve_hostname pa (ps_hostname source) x of
                (Inl e, x') \<Rightarrow> (Inl e, x')
              | (Inr addresses, x') \<Rightarrow> admit_addresses pa source addresses x'))"

text \<open>\<^verbatim>\<open>network.subnet_of(ceiling)\<close>, within one family.\<close>

fun subnet_of :: "ip_network \<Rightarrow> ip_network \<Rightarrow> bool" where
  "subnet_of (IPv4Network v p) (IPv4Network u q) =
     (unat u \<le> unat v \<and> broadcast 32 (unat v, p) \<le> broadcast 32 (unat u, q))"
| "subnet_of (IPv6Network v p) (IPv6Network u q) =
     (unat u \<le> unat v \<and> broadcast 128 (unat v, p) \<le> broadcast 128 (unat u, q))"
| "subnet_of _ _ = False"

primrec address_network :: "ip_address \<Rightarrow> nat \<Rightarrow> ip_network" where
  "address_network (IPv4Address v) p = IPv4Network (of_nat (block_base 32 (unat v) p)) p"
| "address_network (IPv6Address v scope) p = IPv6Network (of_nat (block_base 128 (unat v) p)) p"

definition one_network :: "'x probe_admission \<Rightarrow> int \<Rightarrow> ip_address list \<Rightarrow> py_error + ip_network" where
  "one_network pa prefix_length addresses =
     (case addresses of
        [address] \<Rightarrow>
          if prefix_length \<notin> (if ip_version address = 4 then {32, 24} else {128})
          then Inl (ProbeEndpointRejected ''probe_network_prefix_invalid'')
          else (let network = address_network address (nat prefix_length) in
            if probe_destination_is_forbidden address \<or> \<not> list_ex (subnet_of network) (pa_allowed_networks pa)
            then Inl (ProbeEndpointRejected ''probe_destination_not_allowed'') else Inr network)
      | _ \<Rightarrow> Inl destination_unavailable)"

definition source_network :: "'x probe_admission \<Rightarrow> string \<Rightarrow> int \<Rightarrow> 'x \<Rightarrow> (py_error + ip_network) \<times> 'x" where
  "source_network pa source_url prefix_length x =
     (case parse_source_url (pa_sha256 pa) source_url of
        Inl e \<Rightarrow> (Inl e, x)
      | Inr source \<Rightarrow>
         (case literal_address (ps_hostname source) of
            Inl e \<Rightarrow> (Inl e, x)
          | Inr (Some literal) \<Rightarrow> (one_network pa prefix_length [normalize_address literal], x)
          | Inr None \<Rightarrow>
             (case canonical_hostname (pa_idna pa) (ps_hostname source) of
                Inl e \<Rightarrow> (Inl destination_unavailable, x)
              | Inr canonical \<Rightarrow>
                 (case pa_resolve pa canonical x of
                    (Inl e, x') \<Rightarrow> (Inl destination_unavailable, x')
                  | (Inr raw, x') \<Rightarrow>
                     (case sorted_addresses pa raw of
                        None \<Rightarrow> Inl destination_unavailable
                      | Some addresses \<Rightarrow> one_network pa prefix_length addresses, x')))))"

text \<open>The conditions are tried in turn; whether the address is allowed may call the outside, the last one is pure.\<close>

definition restore ::
  "'x probe_admission \<Rightarrow> string \<Rightarrow> probe_endpoint_identity_t \<Rightarrow> 'x \<Rightarrow> (py_error + admitted_probe_endpoint) \<times> 'x" where
  "restore pa source_url identity x =
     (case parse_source_url (pa_sha256 pa) source_url of
        Inl e \<Rightarrow> (Inl e, x)
      | Inr source \<Rightarrow>
         (case literal_address (ps_hostname source) of
            Inl e \<Rightarrow> (Inl e, x)
          | Inr literal \<Rightarrow>
              if pe_site_key identity \<noteq> pa_site_key pa \<or> pe_policy_sha256 identity \<noteq> pa_policy_sha256 pa
                 \<or> pe_source_url_sha256 identity \<noteq> ps_sha256 source \<or> pe_port identity \<noteq> ps_port source
                 \<or> probe_destination_is_forbidden (pe_address identity)
              then (Inl (ProbeEndpointRejected ''probe_endpoint_identity_invalid''), x)
              else case address_allowed pa (pe_address identity) x of
                (ok, x') \<Rightarrow>
                  if \<not> ok \<or> (\<exists>l \<in> set_option literal. normalize_address l \<noteq> pe_address identity)
                  then (Inl (ProbeEndpointRejected ''probe_endpoint_identity_invalid''), x')
                  else (new_endpoint identity (ps_path_and_query source) (ps_credential source), x')))"

text \<open>The admission as the control of cameras is given it.\<close>

definition endpoint_admission_of :: "'x probe_admission \<Rightarrow> 'x endpoint_admission" where
  "endpoint_admission_of pa =
     \<lparr>ea_policy_sha256 = pa_policy_sha256 pa, ea_admit = admit pa, ea_source_network = source_network pa\<rparr>"

end
