(* ===== verification/Probe_Properties.thy ===== *)
theory Probe_Properties
  imports Probe_Endpoint Policy_Properties "HOL-Library.Multiset"
begin

text \<open>
  What the admission of probe endpoints lets through: the addresses it refuses, that an admitted endpoint is the one
  its source was resolved to, inside the networks of the site, and that it is restored without another resolution.
\<close>

section \<open>Special addresses\<close>

text \<open>A block of IPv6 addresses that its first sixteen bits decide.\<close>

lemma in_net6:
  assumes "p \<le> 16" and "h < 65536" and "h mod 2 ^ (16 - p) = 0"
  shows "in_network (IPv6Address v scope) (net6 h p) \<longleftrightarrow> unat v div 2 ^ 112 div 2 ^ (16 - p) = h div 2 ^ (16 - p)"
proof -
  have split: "(2 :: nat) ^ (128 - p) = 2 ^ 112 * 2 ^ (16 - p)" proof -
    have "128 - p = 112 + (16 - p)" using assms(1) by simp
    then show ?thesis by (simp only: power_add)
  qed
  have "unat (of_nat (h * 2 ^ 112) :: 128 word) = h * 2 ^ 112" using assms(2) by (simp only: unat_of_nat) simp
  moreover have "2 ^ (128 - p) dvd h * 2 ^ 112" unfolding split using assms(3) by (simp add: mult.commute mod_0_imp_dvd)
  moreover have "h * 2 ^ 112 div 2 ^ (128 - p) = h div 2 ^ (16 - p)" unfolding split by (simp add: div_mult2_eq)
  ultimately show ?thesis
    using assms(1,2) in_block_div [of 128 "(h * 2 ^ 112, p)" "unat v"] by (simp add: block_ok_def net6_def split div_mult2_eq)
qed

definition routable6 :: "nat \<Rightarrow> bool" where
  "routable6 h \<longleftrightarrow> (0x2000 \<le> h \<and> h < 0x4000) \<or> (0xFC00 \<le> h \<and> h < 0xFE00) \<or> (0xFEC0 \<le> h \<and> h < 0xFF00)"

lemma div_interval: "0 < d \<Longrightarrow> x div d = (q :: nat) \<longleftrightarrow> q * d \<le> x \<and> x < (q + 1) * d"
  using div_nat_eqI [of d q x] dividend_less_times_div [of d x] div_times_less_eq_dividend [of x d]
  by (auto simp: algebra_simps)

lemma join_intervals:
  "(a :: nat) \<le> b \<Longrightarrow> b \<le> c \<Longrightarrow> (a \<le> h \<and> h < b) \<or> (b \<le> h \<and> h < c) \<or> R \<longleftrightarrow> (a \<le> h \<and> h < c) \<or> R"
  by auto

lemma reserved6:
  "list_ex (in_network (IPv6Address v scope)) ipv6_reserved_networks \<longleftrightarrow>
     (let h = unat v div 2 ^ 112 in h < 0x2000 \<or> (0x4000 \<le> h \<and> h < 0xFC00) \<or> (0xFE00 \<le> h \<and> h < 0xFE80))"
  unfolding ipv6_reserved_networks_def
  by (simp add: in_net6 div_interval join_intervals Let_def) auto

lemma forbidden4:
  "probe_destination_is_forbidden (IPv4Address v) \<longleftrightarrow>
     unat v = 0 \<or> unat v div 2 ^ 24 = 127 \<or> unat v div 2 ^ 16 = 0xA9FE \<or> 0xE0 \<le> unat v div 2 ^ 24
     \<or> IPv4Address v \<in> set platform_metadata_endpoints"
proof -
  have "unat v < 2 ^ 32" using unsigned_less [of v] by simp
  then have "unat v div 2 ^ 24 < 256" by simp
  moreover have "in_block 32 (unat v) (0x7F000000, 8) \<longleftrightarrow> unat v div 2 ^ 24 = 127"
    "in_block 32 (unat v) (0xA9FE0000, 16) \<longleftrightarrow> unat v div 2 ^ 16 = 0xA9FE"
    "in_block 32 (unat v) (0xE0000000, 4) \<longleftrightarrow> unat v div 2 ^ 28 = 14"
    "in_block 32 (unat v) (0xF0000000, 4) \<longleftrightarrow> unat v div 2 ^ 28 = 15"
    by (simp_all add: in_block_div block_ok_def)
  moreover have "unat v div 2 ^ 28 = unat v div 2 ^ 24 div 16" by (simp flip: div_mult2_eq)
  moreover have "x div 16 = 14 \<or> x div 16 = 15 \<longleftrightarrow> 0xE0 \<le> x" if "x < 256" for x :: nat using that by linarith
  ultimately show ?thesis
    by (auto simp: probe_destination_is_forbidden_def is_unspecified_def is_link_local_def is_multicast_def
        is_reserved_def ipv6_reserved_networks_def net6_def)
qed

lemma forbidden6:
  "probe_destination_is_forbidden (IPv6Address v scope) \<longleftrightarrow>
     \<not> routable6 (unat v div 2 ^ 112) \<or> IPv6Address v scope \<in> set platform_metadata_endpoints"
proof -
  let ?h = "unat v div 2 ^ 112" and ?a = "IPv6Address v scope"
  have "unat v < 2 ^ 128" using unsigned_less [of v] by simp
  then have h: "?h < 65536" by simp
  have "is_unspecified ?a \<or> is_loopback ?a \<Longrightarrow> ?h = 0" by (auto simp: is_unspecified_def)
  moreover have "is_link_local ?a \<or> is_multicast ?a \<or> is_reserved ?a \<longleftrightarrow> \<not> routable6 ?h"
    using h unfolding is_link_local_def is_multicast_def is_reserved_def reserved6 Let_def
    by (simp add: in_net6 div_interval routable6_def) linarith
  ultimately show ?thesis by (auto simp: probe_destination_is_forbidden_def routable6_def)
qed

text \<open>The addresses that are refused whatever the networks of the site: every IPv4 address but the unicast ones outside
  0/32, 127/8 and 169.254/16, every IPv6 address outside 2000::/3, fc00::/7 and fec0::/10, and the three metadata services.\<close>

theorem forbidden_exact:
  "probe_destination_is_forbidden address \<longleftrightarrow> address \<in> set platform_metadata_endpoints \<or>
     (case address of
        IPv4Address v \<Rightarrow> unat v = 0 \<or> unat v div 2 ^ 24 = 127 \<or> unat v div 2 ^ 16 = 0xA9FE \<or> 0xE0 \<le> unat v div 2 ^ 24
      | IPv6Address v scope \<Rightarrow> \<not> routable6 (unat v div 2 ^ 112))"
  by (cases address) (auto simp: forbidden4 forbidden6)

section \<open>Admission\<close>

definition destination_ok :: "'x probe_admission \<Rightarrow> ip_address \<Rightarrow> bool" where
  "destination_ok pa a \<longleftrightarrow> \<not> probe_destination_is_forbidden a \<and> (\<exists>n \<in> set (pa_allowed_networks pa). in_network a n)
     \<and> (\<forall>effective. pa_effective_networks pa = Some effective \<longrightarrow>
          (\<exists>y networks y'. effective y = (Inr networks, y') \<and> (\<exists>n \<in> set networks. in_network a n)))"

lemma address_allowed_ok:
  assumes "address_allowed pa a x = (True, x')" and "\<not> probe_destination_is_forbidden a"
  shows "destination_ok pa a"
  using assms unfolding destination_ok_def address_allowed_def Let_def
  by (fastforce simp: list_ex_iff split: option.splits if_splits prod.splits sum.splits)

lemma all_allowed_ok:
  "all_allowed pa as x = (True, x') \<Longrightarrow> \<not> list_ex probe_destination_is_forbidden as \<Longrightarrow> a \<in> set as \<Longrightarrow> destination_ok pa a"
proof (induction as arbitrary: x)
  case (Cons b as)
  then show ?case by (auto split: prod.splits if_splits intro: address_allowed_ok)
qed simp

lemma new_endpoint_InrE:
  "new_endpoint identity path credential = Inr e \<Longrightarrow>
     e = \<lparr>ape_identity = identity, ape_path_and_query = path, ape_credential = credential\<rparr> \<and> endpoint_post_init e = None"
  by (auto simp: new_endpoint_def Let_def split: option.splits)

lemma admit_addresses_InrE:
  assumes "admit_addresses pa source as x = (Inr e, x')"
  shows "(\<forall>a \<in> set as. destination_ok pa a) \<and> identity_post_init (ape_identity e) = None \<and> endpoint_post_init e = None
    \<and> pe_address (ape_identity e) = hd as \<and> pe_port (ape_identity e) = ps_port source \<and> pe_site_key (ape_identity e) = pa_site_key pa
    \<and> pe_policy_sha256 (ape_identity e) = pa_policy_sha256 pa \<and> pe_source_url_sha256 (ape_identity e) = ps_sha256 source
    \<and> ape_path_and_query e = ps_path_and_query source \<and> ape_credential e = ps_credential source"
  using assms unfolding admit_addresses_def Let_def
  by (auto split: if_splits prod.splits bool.splits option.splits dest: all_allowed_ok dest!: new_endpoint_InrE)

text \<open>The addresses a source stands for: its literal, or what the resolver answered for its host name.\<close>

definition source_addresses :: "'x probe_admission \<Rightarrow> string \<Rightarrow> ip_address list \<Rightarrow> bool" where
  "source_addresses pa hostname addresses \<longleftrightarrow>
     (case parse_ip_address hostname of
        Some literal \<Rightarrow> addresses = [normalize_address literal]
      | None \<Rightarrow> \<exists>canonical raw as y y'. canonical_hostname (pa_idna pa) hostname = Inr canonical
          \<and> pa_resolve pa canonical y = (Inr raw, y') \<and> length raw \<in> {1..16} \<and> all_some (map parse_ip_address raw) = Some as
          \<and> addresses = sort_key address_sort_key (pa_set_order pa (remdups (map normalize_address as))))"

lemma resolve_hostname_InrE:
  assumes "resolve_hostname pa hostname x = (Inr as, x')" and "parse_ip_address hostname = None"
  shows "source_addresses pa hostname as"
  using assms unfolding resolve_hostname_def source_addresses_def sorted_addresses_def
  by (auto split: sum.splits prod.splits if_splits option.splits)

lemma admit_InrE:
  assumes "admit pa url x = (Inr e, x')"
  obtains source addresses y where "parse_source_url (pa_sha256 pa) url = Inr source" "CHR ''%'' \<notin> set (ps_hostname source)"
    "source_addresses pa (ps_hostname source) addresses" "admit_addresses pa source addresses y = (Inr e, x')"
  using assms unfolding admit_def
  by (auto split: sum.splits if_splits option.splits prod.splits
      simp: literal_address_def source_addresses_def dest!: resolve_hostname_InrE)

lemma all_some_length: "all_some xs = Some ys \<Longrightarrow> length ys = length xs"
  by (induction xs arbitrary: ys rule: all_some.induct) auto

lemma source_addresses_least:
  assumes "source_addresses pa hostname addresses" and order: "\<And>as. set (pa_set_order pa as) = set as"
  shows "addresses \<noteq> [] \<and> (\<forall>a \<in> set addresses. address_sort_key (hd addresses) \<le> address_sort_key a)"
proof (cases "parse_ip_address hostname")
  case None
  with assms(1) obtain raw as where as: "all_some (map parse_ip_address raw) = Some as" "1 \<le> length raw"
    and sorted: "addresses = sort_key address_sort_key (pa_set_order pa (remdups (map normalize_address as)))"
    by (auto simp: source_addresses_def)
  have "as \<noteq> []" using all_some_length [OF as(1)] as(2) by auto
  then have "set addresses \<noteq> {}" using order [of "remdups (map normalize_address as)"] by (simp add: sorted)
  then have ne: "addresses \<noteq> []" by auto
  have "sorted (map address_sort_key addresses)" by (simp add: sorted)
  with ne show ?thesis by (cases addresses) auto
next
  case (Some literal)
  then show ?thesis using assms(1) by (simp add: source_addresses_def)
qed

lemma parse_source_url_sha256: "parse_source_url sha256 url = Inr source \<Longrightarrow> ps_sha256 source = sha256 (utf8_encode url)"
  by (auto simp: parse_source_url_def Let_def split: if_splits option.splits sum.splits)

text \<open>C18. An endpoint is admitted only if every address its source stands for is neither special nor outside the networks
  of the site, and it is bound to the least of them, to the port and the hash of the source and to the policy. It
  satisfies the checks of its constructors.\<close>

theorem admit_sound:
  assumes "admit pa url x = (Inr e, x')" and "\<And>as. set (pa_set_order pa as) = set as"
  shows "\<exists>source addresses. parse_source_url (pa_sha256 pa) url = Inr source
    \<and> source_addresses pa (ps_hostname source) addresses \<and> pe_address (ape_identity e) \<in> set addresses
    \<and> (\<forall>a \<in> set addresses. \<not> probe_destination_is_forbidden a \<and> (\<exists>n \<in> set (pa_allowed_networks pa). in_network a n)
         \<and> address_sort_key (pe_address (ape_identity e)) \<le> address_sort_key a)
    \<and> pe_port (ape_identity e) = ps_port source \<and> pe_source_url_sha256 (ape_identity e) = pa_sha256 pa (utf8_encode url)
    \<and> pe_policy_sha256 (ape_identity e) = pa_policy_sha256 pa
    \<and> identity_post_init (ape_identity e) = None \<and> endpoint_post_init e = None"
proof -
  obtain source addresses y where source: "parse_source_url (pa_sha256 pa) url = Inr source"
    and addresses: "source_addresses pa (ps_hostname source) addresses"
    and run: "admit_addresses pa source addresses y = (Inr e, x')"
    using admit_InrE [OF assms(1)] by blast
  note e = admit_addresses_InrE [OF run]
  have least: "addresses \<noteq> []" "\<forall>a \<in> set addresses. address_sort_key (hd addresses) \<le> address_sort_key a"
    using source_addresses_least [OF addresses assms(2)] by simp_all
  show ?thesis
    using source addresses e least parse_source_url_sha256 [OF source]
    by (intro exI [of _ source] exI [of _ addresses]) (auto simp: destination_ok_def)
qed

text \<open>C20. An endpoint that was admitted is restored from its identity and its source as it was, without the resolver and
  without a new generation, as long as its address is still allowed.\<close>

theorem restore_admitted:
  assumes "admit pa url x = (Inr e, x')" and "address_allowed pa (pe_address (ape_identity e)) y = (True, y')"
    and order: "\<And>as. set (pa_set_order pa as) = set as"
  shows "restore pa url (ape_identity e) y = (Inr e, y')"
proof -
  obtain source addresses z where source: "parse_source_url (pa_sha256 pa) url = Inr source" "CHR ''%'' \<notin> set (ps_hostname source)"
    and addresses: "source_addresses pa (ps_hostname source) addresses"
    and run: "admit_addresses pa source addresses z = (Inr e, x')"
    using admit_InrE [OF assms(1)] by blast
  note e = admit_addresses_InrE [OF run]
  have "addresses \<noteq> []" using source_addresses_least [OF addresses order] by simp
  then have "\<not> probe_destination_is_forbidden (pe_address (ape_identity e))" using e by (auto simp: destination_ok_def)
  moreover have "\<forall>l \<in> set_option (parse_ip_address (ps_hostname source)). normalize_address l = pe_address (ape_identity e)"
    using addresses e by (auto simp: source_addresses_def)
  moreover have "new_endpoint (ape_identity e) (ps_path_and_query source) (ps_credential source) = Inr e"
    using e by (cases e) (simp add: new_endpoint_def Let_def)
  ultimately show ?thesis using source e assms(2) by (simp add: restore_def literal_address_def)
qed

text \<open>What is restored is allowed now, and the source is the one that was admitted, by its hash.\<close>

theorem restore_sound:
  assumes "restore pa url identity y = (Inr e, y')"
  shows "ape_identity e = identity \<and> destination_ok pa (pe_address identity) \<and> endpoint_post_init e = None
    \<and> pe_source_url_sha256 identity = pa_sha256 pa (utf8_encode url) \<and> pe_policy_sha256 identity = pa_policy_sha256 pa"
  using assms unfolding restore_def
  by (auto split: sum.splits if_splits prod.splits dest!: new_endpoint_InrE parse_source_url_sha256 intro: address_allowed_ok)

section \<open>The networks an operator may add\<close>

lemma subnet_covers:
  assumes "network_ok n" and "network_ok m" and "subnet_of n m" and "in_network b n"
  shows "in_network b m"
  using assms by (cases n; cases m; cases b) (auto simp: network_ok_def in_block_range)

lemma address_network_ok:
  assumes "k \<le> (if ip_version a = 4 then 32 else 128)"
  shows "network_ok (address_network a k) \<and> in_network a (address_network a k)
    \<and> network_prefixlen (address_network a k) = k"
proof (cases a)
  case (IPv4Address v)
  have v: "unat v < 2 ^ 32" using unsigned_less [of v] by simp
  then have "block_base 32 (unat v) k < 2 ^ 32" using block_base_le [of 32 "unat v" k] by simp
  then show ?thesis using assms block_base_ok [OF v] IPv4Address by (simp add: network_ok_def in_block_def unat_of_nat)
next
  case (IPv6Address v scope)
  have v: "unat v < 2 ^ 128" using unsigned_less [of v] by simp
  then have "block_base 128 (unat v) k < 2 ^ 128" using block_base_le [of 128 "unat v" k] by simp
  then show ?thesis using assms block_base_ok [OF v] IPv6Address by (simp add: network_ok_def in_block_def unat_of_nat)
qed

lemma one_network_InrE:
  assumes "one_network pa prefix_length addresses = Inr n"
  obtains a where "addresses = [a]" "\<not> probe_destination_is_forbidden a" "network_ok n" "in_network a n"
    "int (network_prefixlen n) = prefix_length" "\<exists>m \<in> set (pa_allowed_networks pa). subnet_of n m"
proof -
  obtain a where a: "addresses = [a]" "prefix_length \<in> (if ip_version a = 4 then {32, 24} else {128})"
    "n = address_network a (nat prefix_length)" "\<not> probe_destination_is_forbidden a" "list_ex (subnet_of n) (pa_allowed_networks pa)"
    using assms by (auto simp: one_network_def Let_def split: list.splits if_splits)
  then have "nat prefix_length \<le> (if ip_version a = 4 then 32 else 128)" "0 \<le> prefix_length" by (auto split: if_splits)
  with that [of a] a address_network_ok [of "nat prefix_length" a] show thesis by (auto simp: list_ex_iff)
qed

lemma source_network_InrE:
  assumes "source_network pa url prefix_length x = (Inr n, x')"
  obtains source addresses where "parse_source_url (pa_sha256 pa) url = Inr source" "one_network pa prefix_length addresses = Inr n"
    "\<forall>literal. parse_ip_address (ps_hostname source) = Some literal \<longrightarrow> addresses = [normalize_address literal]"
    "parse_ip_address (ps_hostname source) = None \<longrightarrow> (\<exists>canonical raw y y'.
      canonical_hostname (pa_idna pa) (ps_hostname source) = Inr canonical
      \<and> pa_resolve pa canonical y = (Inr raw, y') \<and> sorted_addresses pa raw = Some addresses)"
proof -
  obtain source where source: "parse_source_url (pa_sha256 pa) url = Inr source"
    using assms by (auto simp: source_network_def split: sum.splits)
  show thesis
    using assms source that [OF source]
    by (fastforce simp: source_network_def literal_address_def split: sum.splits option.splits prod.splits if_splits)
qed

text \<open>A network an operator adds for a source holds the one address of the source, which is not special, has the
  length that was asked for, and lies inside the networks of the site with all its addresses.\<close>

theorem source_network_inside:
  assumes "source_network pa url prefix_length x = (Inr n, x')" and "\<forall>m \<in> set (pa_allowed_networks pa). network_ok m"
    and order: "\<And>as. set (pa_set_order pa as) = set as"
  shows "\<exists>source a. parse_source_url (pa_sha256 pa) url = Inr source \<and> \<not> probe_destination_is_forbidden a
    \<and> (case parse_ip_address (ps_hostname source) of
         Some literal \<Rightarrow> a = normalize_address literal
       | None \<Rightarrow> \<exists>canonical raw as y y'. canonical_hostname (pa_idna pa) (ps_hostname source) = Inr canonical
           \<and> pa_resolve pa canonical y = (Inr raw, y') \<and> all_some (map parse_ip_address raw) = Some as
           \<and> normalize_address ` set as = {a})
    \<and> in_network a n \<and> int (network_prefixlen n) = prefix_length
    \<and> (\<forall>b. in_network b n \<longrightarrow> (\<exists>m \<in> set (pa_allowed_networks pa). in_network b m))"
proof -
  obtain source addresses where source: "parse_source_url (pa_sha256 pa) url = Inr source"
    and one: "one_network pa prefix_length addresses = Inr n"
    and literal: "\<forall>literal. parse_ip_address (ps_hostname source) = Some literal \<longrightarrow> addresses = [normalize_address literal]"
    and host: "parse_ip_address (ps_hostname source) = None \<longrightarrow> (\<exists>canonical raw y y'.
      canonical_hostname (pa_idna pa) (ps_hostname source) = Inr canonical
      \<and> pa_resolve pa canonical y = (Inr raw, y') \<and> sorted_addresses pa raw = Some addresses)"
    by (rule source_network_InrE [OF assms(1)])
  have resolved: "normalize_address ` set as = {a}"
    if "sort_key address_sort_key (pa_set_order pa (remdups (map normalize_address as))) = [a]" for a as
    using arg_cong [OF that, of set] order [of "remdups (map normalize_address as)"] by simp
  show ?thesis
  proof (rule one_network_InrE [OF one])
    fix a
    assume a: "addresses = [a]" "\<not> probe_destination_is_forbidden a" "network_ok n" "in_network a n"
      "int (network_prefixlen n) = prefix_length" "\<exists>m \<in> set (pa_allowed_networks pa). subnet_of n m"
    then have "\<forall>b. in_network b n \<longrightarrow> (\<exists>m \<in> set (pa_allowed_networks pa). in_network b m)"
      using subnet_covers assms(2) by blast
    moreover have "case parse_ip_address (ps_hostname source) of
         Some literal \<Rightarrow> a = normalize_address literal
       | None \<Rightarrow> \<exists>canonical raw as y y'. canonical_hostname (pa_idna pa) (ps_hostname source) = Inr canonical
           \<and> pa_resolve pa canonical y = (Inr raw, y') \<and> all_some (map parse_ip_address raw) = Some as
           \<and> normalize_address ` set as = {a}"
      using literal host resolved unfolding a(1) sorted_addresses_def by (fastforce split: option.split)
    ultimately show ?thesis using source a by blast
  qed
qed

section \<open>The policy of a site\<close>

lemma network_line_chars: "c \<in> set (network_str n) \<Longrightarrow> 46 \<le> code c"
  using ipv4_str_chars [of c] ipv6_str_chars [of c] str_nat_codes [of c] by (cases n) fastforce+

lemma network_line_inj:
  assumes "network_ok n" and "network_ok m"
    and "str_nat (network_version n) @ CHR '':'' # network_str n = str_nat (network_version m) @ CHR '':'' # network_str m"
  shows "n = m"
proof -
  have colon: "CHR '':'' \<notin> set (str_nat k)" for k using str_nat_chars by blast
  have "network_str n = network_str m"
    using arg_cong [OF assms(3), of "partition_char CHR '':''"] colon by (simp add: partition_char_append)
  then show ?thesis using network_str_roundtrip [OF assms(1)] network_str_roundtrip [OF assms(2)] by (metis option.inject)
qed

lemma network_sort_key_inj: "inj network_sort_key"
proof (rule injI)
  fix n m
  show "network_sort_key n = network_sort_key m \<Longrightarrow> n = m"
    by (cases n; cases m) (auto simp: network_sort_key_def intro: unsigned_word_eqI)
qed

lemma site_key_chars:
  assumes "site_key_valid key"
  shows "CHR 0x0A \<notin> set key"
proof -
  have "CHR 0x0A \<notin> set ''abcdefghijklmnopqrstuvwxyz0123456789._-''" by simp
  then show ?thesis using assms unfolding site_key_valid_def list_all_iff by blast
qed

lemma joined_lines_inj:
  assumes "\<forall>l \<in> set ls \<union> set ms. l \<noteq> [] \<and> CHR 0x0A \<notin> set l" and "str_join [CHR 0x0A] ls = str_join [CHR 0x0A] ms"
  shows "ls = ms"
proof (cases "ls = [] \<or> ms = []")
  case True
  have "str_join [CHR 0x0A] ls \<noteq> []" if "ls \<noteq> []" using join_nonempty [of ls] assms(1) that by blast
  moreover have "str_join [CHR 0x0A] ms \<noteq> []" if "ms \<noteq> []" using join_nonempty [of ms] assms(1) that by blast
  moreover have "str_join [CHR 0x0A] [] = []" by (simp add: str_join_def)
  ultimately show ?thesis using True assms(2) by metis
next
  case False
  then show ?thesis using split_char_join_ne [of ls "CHR 0x0A"] split_char_join_ne [of ms "CHR 0x0A"] assms by (metis UnCI)
qed

lemma map_line_inj:
  assumes "\<forall>n \<in> set ns \<union> set ms. network_ok n"
    and "map (\<lambda>n. str_nat (network_version n) @ CHR '':'' # network_str n) ns = map (\<lambda>n. str_nat (network_version n) @ CHR '':'' # network_str n) ms"
  shows "ns = ms"
  using assms
proof (induction ns arbitrary: ms)
  case (Cons n ns)
  then obtain m ms' where "ms = m # ms'" by (cases ms) auto
  with Cons show ?case using network_line_inj [of n m] by auto
qed simp

text \<open>The text that is hashed into the identity of a policy determines the site and its networks, and does not depend
  on the order in which the networks are written.\<close>

theorem policy_text_exact:
  assumes "site_key_valid key" and "site_key_valid key'" and "\<forall>n \<in> set ns \<union> set ns'. network_ok n"
  shows "policy_text key ns = policy_text key' ns' \<longleftrightarrow> key = key' \<and> mset ns = mset ns'"
proof
  assume eq: "policy_text key ns = policy_text key' ns'"
  let ?line = "\<lambda>n. str_nat (network_version n) @ CHR '':'' # network_str n"
  let ?sorted = "sort_key network_sort_key"
  have parts: "partition_char CHR 0x0A (drop 5 (policy_text k ms)) = (k, True, str_join [CHR 0x0A] (map ?line (?sorted ms)))"
    if "site_key_valid k" for k ms
    using partition_char_append [OF site_key_chars [OF that]] by (simp add: policy_text_def)
  have "key = key'" and joined: "str_join [CHR 0x0A] (map ?line (?sorted ns)) = str_join [CHR 0x0A] (map ?line (?sorted ns'))"
    using parts [OF assms(1), of ns] parts [OF assms(2), of ns'] eq by simp_all
  moreover have "CHR 0x0A \<notin> set (?line n)" for n
    using network_line_chars [of "CHR 0x0A" n] str_nat_chars [of "CHR 0x0A"] by (auto simp: code_def)
  ultimately have "map ?line (?sorted ns) = map ?line (?sorted ns')" by (intro joined_lines_inj) auto
  then have "?sorted ns = ?sorted ns'" using assms(3) by (intro map_line_inj) auto
  then show "key = key' \<and> mset ns = mset ns'" using \<open>key = key'\<close> mset_sort by metis
next
  assume "key = key' \<and> mset ns = mset ns'"
  then have "sort_key network_sort_key ns = sort_key network_sort_key ns'"
    by (intro sort_key_inj_key_eq) (simp_all add: inj_on_subset [OF network_sort_key_inj])
  with \<open>key = key' \<and> mset ns = mset ns'\<close> show "policy_text key ns = policy_text key' ns'" by (simp add: policy_text_def)
qed

section \<open>An example\<close>

definition ex_site :: "unit probe_admission" where
  "ex_site = \<lparr>pa_site_key = ''hq'', pa_allowed_networks = [IPv4Network 0x0A000000 8], pa_policy_sha256 = replicate 64 CHR ''0'',
     pa_resolve = (\<lambda>h x. (Inr [''10.0.0.9''], x)), pa_new_generation = (\<lambda>x. (0x40008000000000000000, x)),
     pa_effective_networks = None, pa_sha256 = (\<lambda>bs. replicate 64 CHR ''0''), pa_idna = (\<lambda>s. None), pa_set_order = id\<rparr>"

definition ex_parsed_source :: parsed_source where
  "ex_parsed_source = \<lparr>ps_hostname = ''10.0.0.9'', ps_port = 554, ps_path_and_query = ''/live'', ps_credential = None,
     ps_sha256 = replicate 64 CHR ''0''\<rparr>"

lemma ex_source_parsed: "parse_source_url (pa_sha256 ex_site) ''rtsp://10.0.0.9/live'' = Inr ex_parsed_source"
  by code_simp

lemma ex_literal: "literal_address (ps_hostname ex_parsed_source) = Inr (Some (IPv4Address 0x0A000009))"
  by (simp add: literal_address_def ex_parsed_source_def parse_ip_address_def parse_ipv4_def parse_octet_def is_digit_char_def
      code_def dec_value_def from_base_def)

lemma ex_version4: "uuid_version 0x40008000000000000000 = Some 4"
  by (simp add: uuid_version_def bit_simps)

lemma ex_destination: "\<not> probe_destination_is_forbidden (IPv4Address 0x0A000009)" "in_network (IPv4Address 0x0A000009) (IPv4Network 0x0A000000 8)"
  by (simp_all add: forbidden4 platform_metadata_endpoints_def in_block_def block_base_def)

lemma ex_admitted: "\<exists>e. admit ex_site ''rtsp://10.0.0.9/live'' () = (Inr e, ()) \<and> pe_address (ape_identity e) = IPv4Address 0x0A000009"
proof -
  have hex: "sha256_valid (replicate 64 CHR ''0'')" by (simp add: sha256_valid_def all_lower_hex_def lower_hex_chars_def list_all_iff)
  have key: "site_key_valid ''hq''" by code_simp
  have path: "\<not> list_ex unsafe_path_char ''/live''" "starts_with ''/'' ''/live''" "length (utf8_encode ''/live'') \<le> 8192" by code_simp+
  show ?thesis
    using ex_source_parsed ex_literal ex_destination ex_version4 hex key path
    by (simp add: admit_def ex_site_def ex_parsed_source_def admit_addresses_def address_allowed_def identity_post_init_def Let_def
        new_endpoint_def endpoint_post_init_def)
qed

theorem admit_sound_witness:
  "\<exists>e source. admit ex_site ''rtsp://10.0.0.9/live'' () = (Inr e, ())
     \<and> parse_source_url (pa_sha256 ex_site) ''rtsp://10.0.0.9/live'' = Inr source \<and> pe_port (ape_identity e) = ps_port source
     \<and> identity_post_init (ape_identity e) = None \<and> endpoint_post_init e = None"
proof -
  obtain e where e: "admit ex_site ''rtsp://10.0.0.9/live'' () = (Inr e, ())" using ex_admitted by blast
  have "set (pa_set_order ex_site as) = set as" for as by (simp add: ex_site_def)
  from admit_sound [OF e this] e show ?thesis by blast
qed

theorem restore_admitted_witness:
  "\<exists>e. admit ex_site ''rtsp://10.0.0.9/live'' () = (Inr e, ()) \<and> restore ex_site ''rtsp://10.0.0.9/live'' (ape_identity e) () = (Inr e, ())"
proof -
  obtain e where e: "admit ex_site ''rtsp://10.0.0.9/live'' () = (Inr e, ())" "pe_address (ape_identity e) = IPv4Address 0x0A000009"
    using ex_admitted by blast
  have "address_allowed ex_site (pe_address (ape_identity e)) () = (True, ())"
    using ex_destination(2) by (simp add: e(2) address_allowed_def ex_site_def)
  from restore_admitted [OF e(1) this] e(1) show ?thesis by (simp add: ex_site_def)
qed

lemma ex_network: "source_network ex_site ''rtsp://10.0.0.9/live'' 24 () = (Inr (IPv4Network 0x0A000000 24), ())"
  using ex_source_parsed ex_literal ex_destination
  by (simp add: source_network_def one_network_def Let_def block_base_def broadcast_def ex_site_def)

theorem source_network_inside_witness:
  "\<exists>a. source_network ex_site ''rtsp://10.0.0.9/live'' 24 () = (Inr (IPv4Network 0x0A000000 24), ())
     \<and> \<not> probe_destination_is_forbidden a \<and> in_network a (IPv4Network 0x0A000000 24)"
proof -
  have "\<forall>m \<in> set (pa_allowed_networks ex_site). network_ok m" by (simp add: ex_site_def network_ok_def block_ok_def)
  moreover have "set (pa_set_order ex_site as) = set as" for as by (simp add: ex_site_def)
  ultimately show ?thesis using source_network_inside [OF ex_network] ex_network by blast
qed

theorem policy_text_exact_witness:
  "policy_text ''hq'' [IPv4Network 0x0A000000 8, IPv6Network 0 0] = policy_text ''hq'' [IPv6Network 0 0, IPv4Network 0x0A000000 8]
   \<and> policy_text ''hq'' [IPv6Network 0 0] \<noteq> policy_text ''hq'' []"
proof -
  have key: "site_key_valid ''hq''" by code_simp
  have ok: "network_ok (IPv4Network 0x0A000000 8)" "network_ok (IPv6Network 0 0)" by (simp_all add: network_ok_def block_ok_def)
  show ?thesis
    using policy_text_exact [OF key key, of "[IPv4Network 0x0A000000 8, IPv6Network 0 0]" "[IPv6Network 0 0, IPv4Network 0x0A000000 8]"]
      policy_text_exact [OF key key, of "[IPv6Network 0 0]" "[]"] ok by simp
qed

end
