(* ===== verification/Admitted_Cameras.thy ===== *)
theory Admitted_Cameras
  imports Probe_Properties Port_Change_Control Registration_Properties
begin

text \<open>
  The admission of \<^verbatim>\<open>probe_security.py\<close> as the control of cameras uses it: a camera that is created carries an endpoint
  that was admitted for its own source, and a request that is repeated under its idempotency key gets the camera of that key.
\<close>

lemma handle_InrE:
  assumes "handle p m h w = (Inr a, w')"
  obtains "m w = (Inr a, w')" | e v where "m w = (Inl e, v)" "p e" "h e v = (Inr a, w')"
  using assms by (auto simp: handle_def ret_def fail_def elim!: and_then_InrE attempt_InrE split: sum.splits if_splits)

lemma external_run_InrE:
  assumes "external f w = (Inr a, w')"
  obtains x x' where "f x = (Inr a, x')"
  using assms by (auto simp: external_def split: prod.splits)

lemma admit_probe_endpoint_InrE:
  assumes "admit_probe_endpoint c url w = (Inr endpoint, w')"
    and "cc_probe_endpoint_admission c = Some (endpoint_admission_of pa)"
  obtains e x x' where "endpoint = Some e" "admit pa url x = (Inr e, x')"
  using assms
  by (auto simp: admit_probe_endpoint_def endpoint_admission_of_def ret_def fail_def
      elim!: handle_InrE and_then_InrE external_run_InrE)

definition carries :: "camera_placement \<Rightarrow> camera_request \<Rightarrow> bool" where
  "carries cam rq \<longleftrightarrow> cp_source_url cam = cr_source_url rq
     \<and> cp_probe_endpoint cam = map_option ape_identity (cr_probe_endpoint rq)"

lemma call_InrE:
  assumes "call f w = (Inr a, w')"
  obtains x s s' where "f x s = Inr (a, s')"
  using assms by (auto simp: call_def split: sum.splits)

lemma placed_carries:
  "place_camera_manually env rq n s = Inr (cam, s') \<Longrightarrow> carries cam rq"
  "place_camera_automatically env rq s = Inr (cam, s') \<Longrightarrow> carries cam rq"
  by (auto simp: place_camera_manually_def place_camera_automatically_def carries_def new_camera_placement_def Let_def
      probe_endpoint_identity_def validate_camera_source_url_def split: sum.splits option.splits if_splits list.splits)

section \<open>Keys of requests\<close>

text \<open>Adding a node leaves the idempotency keys of cameras as they are.\<close>

definition same_requests :: "'x world \<Rightarrow> 'x world \<Rightarrow> bool" where
  "same_requests w w' \<longleftrightarrow> st_camera_registration_requests (w_store w') = st_camera_registration_requests (w_store w)"

lemma node_effect_requests: "node_effect i s n s' old \<Longrightarrow> st_camera_registration_requests s' = st_camera_registration_requests s"
  by (auto simp: node_effect_def put_node_def)

lemma ports_requests:
  "begin_port_change env ch i p allowed r n radius s = Inr (c, s') \<Longrightarrow> st_camera_registration_requests s' = st_camera_registration_requests s"
  "complete_port_change env ch ob s = Inr (m, s') \<Longrightarrow> st_camera_registration_requests s' = st_camera_registration_requests s"
  "abort_port_change env ch ob s = Inr (m, s') \<Longrightarrow> st_camera_registration_requests s' = st_camera_registration_requests s"
  by (auto simp: begin_port_change_def complete_port_change_def abort_port_change_def Let_def split: option.splits if_splits)

lemma nodes_requests:
  "register_automatically rq s = Inr (n, s') \<Longrightarrow> st_camera_registration_requests s' = st_camera_registration_requests s"
  "register_idempotently rq idem s = Inr (r, s') \<Longrightarrow> st_camera_registration_requests s' = st_camera_registration_requests s"
  using register_automatically_result
  by (fastforce simp: register_idempotently_def replay_registration_def split: option.splits sum.splits if_splits prod.splits)+

lemma call_requests:
  assumes "\<And>x s a s'. f x s = Inr (a, s') \<Longrightarrow> st_camera_registration_requests s' = st_camera_registration_requests s"
  shows "keeps same_requests (call f)"
  using assms by (auto simp: keeps_def same_requests_def call_def split: sum.split)

interpretation requests: creating_relation same_requests same_requests c for c
  by unfold_locales
    (auto simp: same_requests_def dest!: op_node_effect node_effect_requests dest: ports_requests nodes_requests intro!: call_requests)

definition open_request :: "registration_idempotency \<Rightarrow> node_store \<Rightarrow> bool" where
  "open_request i s \<longleftrightarrow> (\<exists>a h. st_camera_registration_requests s (request_key_of i) = Some (a, h, None))"

lemma reserve_result:
  assumes "reserve_camera_registration i s = Inr (found, s')"
  shows "found = None \<Longrightarrow> open_request i s'"
    "found = Some cam \<Longrightarrow> s' = s \<and> lookup_camera_registration i s = Inr (Some cam)"
  using assms
  by (auto simp: reserve_camera_registration_def lookup_camera_registration_def open_request_def
      split: option.splits sum.splits elim: replay_open)

lemma open_request_carries:
  assumes "place_camera_idempotently env rq n i s = Inr ((cam, replayed), s')" and "open_request i s"
  shows "carries cam rq"
  using assms
  by (auto simp: place_camera_idempotently_def open_request_def replay_camera_registration_def camera_registration_target_id_def
      split: option.splits sum.splits if_splits dest: placed_carries)

lemma place_idempotently_call_carries:
  assumes "place_idempotently_call c rq n i w = (Inr cam, w')" and "open_request i (w_store w)"
  shows "carries cam rq"
  using assms
  by (auto simp: place_idempotently_call_def and_then_def call_def ret_def split: sum.splits prod.splits dest: open_request_carries)

text \<open>A property of every result of a placement, tried before and after the provider of capacity has added a node.\<close>

lemma with_capacity_result:
  assumes run: "with_capacity c mutation_context m m w = (Inr cam, w')" and wired: "wired nc c"
    and result: "\<And>v v'. m v = (Inr cam, v') \<Longrightarrow> same_requests w v \<Longrightarrow> P" and failed: "\<And>e v. m w = (Inl e, v) \<Longrightarrow> v = w"
  shows P
proof (cases "m w")
  case (Pair r v)
  show P
  proof (cases r)
    case (Inr a)
    then show P using run Pair result [of w] by (auto simp: with_capacity_def handle_def and_then_def attempt_def ret_def same_requests_def)
  next
    case (Inl e)
    then obtain ensure node v1 where ensure: "cc_ensure_automatic_capacity c = Some ensure"
      "ensure mutation_context w = (Inr node, v1)" "m v1 = (Inr cam, w')"
      using run Pair failed
      by (auto simp: with_capacity_def handle_def attempt_def and_then_def fail_def ret_def split: if_splits option.splits prod.splits sum.splits)
    then obtain policy where "ensure = ensure_automatic_capacity nc policy" using wired by (auto simp: wired_def)
    then have "same_requests w v1" using requests.capacity [of nc policy mutation_context] ensure(2) unfolding keeps_def by (metis snd_conv)
    then show P using result ensure(3) by blast
  qed
qed

lemma place_camera_carries:
  assumes run: "place_camera c rq node_id idempotency mutation_context w = (Inr cam, w')" and wired: "wired nc c"
    and key: "\<And>i. idempotency = Some i \<Longrightarrow> open_request i (w_store w)"
  shows "carries cam rq"
proof (cases idempotency)
  case None
  show ?thesis
  proof (cases node_id)
    case (Some n)
    then show ?thesis using run None by (auto simp: place_camera_def elim!: call_InrE dest: placed_carries)
  next
    case node: None
    have "with_capacity c mutation_context (place_automatically_call c rq) (place_automatically_call c rq) w = (Inr cam, w')"
      using run None node by (simp add: place_camera_def)
    then show ?thesis
      by (rule with_capacity_result [OF _ wired])
        (auto simp: place_automatically_call_def elim!: call_InrE dest: placed_carries call_unchanged)
  qed
next
  case (Some i)
  have carry: "carries cam rq" if "place_idempotently_call c rq n i v = (Inr cam, v')" "same_requests w v" for n v v'
    using that key [OF Some] by (auto intro!: place_idempotently_call_carries simp: open_request_def same_requests_def)
  show ?thesis
  proof (cases node_id)
    case node: (Some n)
    then show ?thesis using run Some carry [of "Some n" w w'] by (simp add: place_camera_def same_requests_def)
  next
    case node: None
    have "with_capacity c mutation_context (place_idempotently_call c rq None i) (place_idempotently_call c rq None i) w = (Inr cam, w')"
      using run Some node by (simp add: place_camera_def)
    then show ?thesis by (rule with_capacity_result [OF _ wired]) (auto intro: carry dest: place_calls_unchanged)
  qed
qed

section \<open>What a creation returns\<close>

text \<open>The request as it is written down under its key: with the name and the source that were validated.\<close>

definition request_under_key :: "'x camera_control \<Rightarrow> 'x \<Rightarrow> string \<Rightarrow> string \<Rightarrow> camera_source_credentials option \<Rightarrow> uuid option
    \<Rightarrow> node_mutation_context option \<Rightarrow> registration_idempotency option" where
  "request_under_key c x name url credentials node_id mutation_context =
     (case validate_camera_name name of Inl e \<Rightarrow> None | Inr n \<Rightarrow>
     (case validate_camera_source_url url False of Inl e \<Rightarrow> None | Inr u \<Rightarrow>
     (case attach_if u credentials of Inl e \<Rightarrow> None | Inr source \<Rightarrow>
     (case camera_registration_idempotency (env_sha256 (cc_env c x)) n source node_id mutation_context of
        Inl e \<Rightarrow> None | Inr found \<Rightarrow> found))))"

text \<open>The part of a creation that follows the lookup of the key.\<close>

lemma placement_result:
  assumes "and_then (new_camera_id c) (\<lambda>camera_id. and_then (new_public_id c) (\<lambda>public_id.
      and_then (admit_probe_endpoint c source) (\<lambda>endpoint. place_camera c (rq camera_id public_id endpoint) node_id idempotency mc))) w =
      (Inr cam, w')"
  obtains camera_id public_id endpoint v v' where "admit_probe_endpoint c source v = (Inr endpoint, v')" "w_store v' = w_store w"
    "place_camera c (rq camera_id public_id endpoint) node_id idempotency mc v' = (Inr cam, w')"
proof -
  have kept: "w_store v' = w_store v" if "new_camera_id c v = (r, v')" for v r v'
    using that by (auto simp: new_camera_id_def external_def split: prod.splits)
  have kept': "w_store v' = w_store v" if "new_public_id c v = (Inr r, v')" for v r v'
    using that by (auto simp: new_public_id_def external_def ret_def fail_def elim!: and_then_InrE split: prod.splits option.splits)
  have admitted: "w_store v' = w_store v" if "admit_probe_endpoint c source v = (Inr r, v')" for v r v'
    using that by (auto simp: admit_probe_endpoint_def external_def ret_def fail_def elim!: and_then_InrE handle_InrE split: prod.splits option.splits)
  from assms show thesis
    by (elim and_then_InrE) (rule that, assumption, simp add: admitted kept' kept, assumption)
qed

lemma create_camera_result:
  assumes run: "create_camera c name url credentials node_id mutation_context w = (Inr cam, w')" and wired: "wired nc c"
  obtains i where "request_under_key c (w_ext w) name url credentials node_id mutation_context = Some i"
      "lookup_camera_registration i (w_store w) = Inr (Some cam)" "w_store w' = w_store w"
    | rq v v' where "carries cam rq" "admit_probe_endpoint c (cr_source_url rq) v = (Inr (cr_probe_endpoint rq), v')"
proof -
  let ?rq = "\<lambda>n source camera_id public_id endpoint. \<lparr>cr_camera_id = camera_id, cr_name = n, cr_source_url = source, cr_public_id = public_id,
    cr_management_freshness_seconds = cc_management_freshness_seconds c, cr_probe_endpoint = endpoint\<rparr>"
  let ?rest = "\<lambda>n source idempotency. and_then (new_camera_id c) (\<lambda>camera_id. and_then (new_public_id c) (\<lambda>public_id.
      and_then (admit_probe_endpoint c source) (\<lambda>endpoint. place_camera c (?rq n source camera_id public_id endpoint) node_id idempotency mutation_context)))"
  obtain n source idempotency existing v where key: "request_under_key c (w_ext w) name url credentials node_id mutation_context = idempotency"
    and reserved: "(case idempotency of None \<Rightarrow> ret None | Some i \<Rightarrow> call (\<lambda>x. reserve_camera_registration i)) w = (Inr existing, v)"
    and rest: "(case existing of Some camera \<Rightarrow> ret camera | None \<Rightarrow> ?rest n source idempotency) v = (Inr cam, w')"
    using run unfolding create_camera_def
    by (elim and_then_InrE) (auto simp: request_under_key_def query_def from_sum_def ret_def fail_def split: sum.splits)
  have opened: "open_request i (w_store v)" if "idempotency = Some i" "existing = None" for i
    using reserved that reserve_result(1) by (auto simp: call_def split: sum.splits)
  show thesis
  proof (cases existing)
    case None
    with rest have "?rest n source idempotency v = (Inr cam, w')" by simp
    then obtain camera_id public_id endpoint u u' where u: "admit_probe_endpoint c source u = (Inr endpoint, u')" "w_store u' = w_store v"
      "place_camera c (?rq n source camera_id public_id endpoint) node_id idempotency mutation_context u' = (Inr cam, w')"
      by (rule placement_result)
    have "carries cam (?rq n source camera_id public_id endpoint)"
      using opened None u(2) by (intro place_camera_carries [OF u(3) wired]) simp
    then show thesis using that(2) u(1) by simp
  next
    case (Some camera)
    then obtain i where i: "idempotency = Some i" using reserved by (cases idempotency) (auto simp: ret_def)
    then have "lookup_camera_registration i (w_store w) = Inr (Some camera)" "w_store v = w_store w"
      using reserved Some reserve_result(2) by (fastforce simp: call_def split: sum.splits)+
    then show thesis using that(1) key i rest Some by (simp add: ret_def)
  qed
qed

text \<open>C19. A camera that is created while endpoints are admitted, with an idempotency key or without one and with the provider
  of capacity of the node control or without one, carries an endpoint that was admitted for its source URL as it is stored: its
  address is not special and inside the networks of the site. Only a request whose key is already bound to a camera gets that
  camera instead, and then the store stays as it is.\<close>

theorem created_camera_admitted:
  assumes run: "create_camera c name url credentials node_id mutation_context w = (Inr cam, w')"
    and wired: "wired nc c"
    and admission: "cc_probe_endpoint_admission c = Some (endpoint_admission_of pa)"
    and order: "\<And>as. set (pa_set_order pa as) = set as"
  shows "(\<exists>i. cp_probe_endpoint cam = Some i \<and> \<not> probe_destination_is_forbidden (pe_address i)
      \<and> (\<exists>n \<in> set (pa_allowed_networks pa). in_network (pe_address i) n)
      \<and> pe_source_url_sha256 i = pa_sha256 pa (utf8_encode (cp_source_url cam)) \<and> identity_post_init i = None)
    \<or> (\<exists>k. request_under_key c (w_ext w) name url credentials node_id mutation_context = Some k
      \<and> lookup_camera_registration k (w_store w) = Inr (Some cam) \<and> w_store w' = w_store w)"
  using run wired
proof (cases rule: create_camera_result)
  case (2 rq v v')
  obtain e x x' where e: "cr_probe_endpoint rq = Some e" "admit pa (cr_source_url rq) x = (Inr e, x')"
    by (rule admit_probe_endpoint_InrE [OF 2(2) admission])
  obtain source addresses y where source: "parse_source_url (pa_sha256 pa) (cr_source_url rq) = Inr source"
    and addresses: "source_addresses pa (ps_hostname source) addresses" "admit_addresses pa source addresses y = (Inr e, x')"
    by (rule admit_InrE [OF e(2)])
  have "hd addresses \<in> set addresses" using source_addresses_least [OF addresses(1) order] by simp
  then show ?thesis
    using 2(1) e(1) admit_addresses_InrE [OF addresses(2)] parse_source_url_sha256 [OF source]
    by (auto simp: carries_def destination_ok_def)
qed blast

section \<open>An example\<close>

definition ex_site_cameras :: "unit camera_control" where
  "ex_site_cameras = \<lparr>cc_new_camera_id = (\<lambda>x. (70, x)), cc_new_public_id = (\<lambda>x. (''aaaaaaaaaaaaaaaaaaaaaaaaaa'', x)),
     cc_management_freshness_seconds = 30, cc_ensure_automatic_capacity = None,
     cc_probe_endpoint_admission = Some (endpoint_admission_of ex_site),
     cc_env = (\<lambda>x. ex_env\<lparr>env_sha256 := (\<lambda>bs. replicate 64 CHR ''0'')\<rparr>)\<rparr>"

definition ex_site_world :: "unit world" where
  "ex_site_world = \<lparr>w_store = ex_store, w_slots = 1, w_ext = ()\<rparr>"

lemma ex_site_admits:
  "\<exists>e. admit_probe_endpoint ex_site_cameras ''rtsp://10.0.0.9/live'' w = (Inr (Some e), w)
     \<and> pe_source_url_sha256 (ape_identity e) = replicate 64 CHR ''0''"
proof -
  obtain e where e: "admit ex_site ''rtsp://10.0.0.9/live'' () = (Inr e, ())" using ex_admitted by blast
  obtain addresses y where "admit_addresses ex_site ex_parsed_source addresses y = (Inr e, ())"
    using admit_InrE [OF e] ex_source_parsed by (metis sum.inject(2))
  then have "pe_source_url_sha256 (ape_identity e) = replicate 64 CHR ''0''"
    using admit_addresses_InrE by (fastforce simp: ex_parsed_source_def)
  then show ?thesis using e
    by (auto simp: admit_probe_endpoint_def ex_site_cameras_def endpoint_admission_of_def handle_def attempt_def and_then_def external_def ret_def)
qed

definition ex_site_context :: node_mutation_context where
  "ex_site_context = \<lparr>mc_actor_account_id = 2, mc_actor_session_id = 3, mc_identity_source = ''local'', mc_actor_subject = ''operator'',
     mc_roles = [''operator''], mc_scopes = [], mc_authz_version = 1, mc_request_id = 0x40008000000000000000, mc_action = ''camera.create'',
     mc_http_method = ''POST'', mc_resource_scope = ''camera'', mc_resource_type = ''camera'', mc_resource_id = ''new'',
     mc_source_ip_sha256 = replicate 64 CHR ''0'', mc_user_agent_sha256 = replicate 64 CHR ''0'',
     mc_idempotency_key = Some 0x40008000000000000000, mc_reason = ''new camera'', mc_disruption_confirmation = None\<rparr>"

definition ex_site_request :: registration_idempotency where
  "ex_site_request = \<lparr>ri_key = 0x40008000000000000000, ri_actor_account_id = 2, ri_actor_session_id = 3,
     ri_request_sha256 = replicate 64 CHR ''0''\<rparr>"

lemma ex_site_key:
  "camera_registration_idempotency (env_sha256 (cc_env ex_site_cameras x)) name url node_id (Some ex_site_context) = Inr (Some ex_site_request)"
proof -
  have "sha256_hex_valid (replicate 64 CHR ''0'')" by code_simp
  then show ?thesis
    by (simp add: camera_registration_idempotency_def ex_site_cameras_def ex_site_context_def ex_site_request_def checked_def
        camera_registration_idempotency_post_init_def ex_version4)
qed

lemma ex_site_values:
  "validate_camera_name ''gate'' = Inr ''gate''"
  "validate_camera_source_url ''rtsp://10.0.0.9/live'' False = Inr ''rtsp://10.0.0.9/live''"
  "new_camera_id ex_site_cameras w = (Inr 70, w)" "new_public_id ex_site_cameras w = (Inr ''aaaaaaaaaaaaaaaaaaaaaaaaaa'', w)"
proof -
  have valid: "public_id_valid ''aaaaaaaaaaaaaaaaaaaaaaaaaa''" by code_simp
  show "validate_camera_name ''gate'' = Inr ''gate''" by (fact ex_name)
  show "validate_camera_source_url ''rtsp://10.0.0.9/live'' False = Inr ''rtsp://10.0.0.9/live''" by code_simp
  show "new_camera_id ex_site_cameras w = (Inr 70, w)" by (simp add: new_camera_id_def ex_site_cameras_def external_def)
  show "new_public_id ex_site_cameras w = (Inr ''aaaaaaaaaaaaaaaaaaaaaaaaaa'', w)"
    by (simp add: new_public_id_def ex_site_cameras_def external_def and_then_def public_id_parse_def ret_def valid)
qed

definition ex_site_reserved :: node_store where
  "ex_site_reserved = ex_store\<lparr>st_camera_registration_requests :=
     [request_key_of ex_site_request \<mapsto> (2, replicate 64 CHR ''0'', None)]\<rparr>"

lemma ex_site_reserve: "reserve_camera_registration ex_site_request ex_store = Inr (None, ex_site_reserved)"
  by (simp add: reserve_camera_registration_def ex_store_def init_store_def ex_site_reserved_def ex_site_request_def)

lemma ex_site_placed:
  assumes "pe_source_url_sha256 (ape_identity e) = replicate 64 CHR ''0''"
  shows "\<exists>cam s'. place_camera_idempotently (cc_env ex_site_cameras ()) \<lparr>cr_camera_id = 70, cr_name = ''gate'',
      cr_source_url = ''rtsp://10.0.0.9/live'', cr_public_id = ''aaaaaaaaaaaaaaaaaaaaaaaaaa'', cr_management_freshness_seconds = 30,
      cr_probe_endpoint = Some e\<rparr> None ex_site_request ex_site_reserved = Inr ((cam, False), s')"
  using assms
  by (simp add: place_camera_idempotently_def ex_site_reserved_def ex_site_request_def replay_camera_registration_def
      camera_registration_target_id_def place_camera_automatically_def ex_site_cameras_def ex_store_def init_store_def load_key_def
      uuid_int_def probe_endpoint_identity_def ex_values ex_rules)

lemma ex_site_created:
  "\<exists>cam w'. create_camera ex_site_cameras ''gate'' ''rtsp://10.0.0.9/live'' None None (Some ex_site_context) ex_site_world = (Inr cam, w')"
proof -
  let ?w = "\<lparr>w_store = ex_site_reserved, w_slots = 1, w_ext = ()\<rparr> :: unit world"
  obtain e where e: "admit_probe_endpoint ex_site_cameras ''rtsp://10.0.0.9/live'' ?w = (Inr (Some e), ?w)"
    "pe_source_url_sha256 (ape_identity e) = replicate 64 CHR ''0''" using ex_site_admits by blast
  have "call (\<lambda>x. reserve_camera_registration ex_site_request) ex_site_world = (Inr None, ?w)"
    by (simp add: call_def ex_site_world_def ex_site_reserve)
  moreover have "cc_management_freshness_seconds ex_site_cameras = 30" by (simp add: ex_site_cameras_def)
  ultimately show ?thesis
    using e(1) ex_site_placed [OF e(2)]
    by (auto simp: create_camera_def and_then_def from_sum_def attach_if_def query_def ret_def ex_site_values ex_site_key
        place_camera_def with_capacity_def handle_def attempt_def place_idempotently_call_def call_def)
qed

theorem created_camera_admitted_witness:
  "\<exists>cam w' i. create_camera ex_site_cameras ''gate'' ''rtsp://10.0.0.9/live'' None None (Some ex_site_context) ex_site_world = (Inr cam, w')
     \<and> cp_probe_endpoint cam = Some i \<and> \<not> probe_destination_is_forbidden (pe_address i)"
proof -
  obtain cam w' where run: "create_camera ex_site_cameras ''gate'' ''rtsp://10.0.0.9/live'' None None (Some ex_site_context) ex_site_world = (Inr cam, w')"
    using ex_site_created by blast
  have "wired nc ex_site_cameras" for nc by (simp add: wired_def ex_site_cameras_def)
  moreover have "cc_probe_endpoint_admission ex_site_cameras = Some (endpoint_admission_of ex_site)" by (simp add: ex_site_cameras_def)
  moreover have "lookup_camera_registration k (w_store ex_site_world) = Inr None" for k
    by (simp add: lookup_camera_registration_def ex_site_world_def ex_store_def init_store_def)
  ultimately show ?thesis using created_camera_admitted [OF run] run by (fastforce simp: ex_site_def)
qed

end
