(* ===== verification/Probe_Input.thy ===== *)
theory Probe_Input
  imports Probe_Endpoint Source_Urls Json
begin

text \<open>
  The input of an isolated probe (\<^verbatim>\<open>probe_executor.py\<close>): the one text that may cross into it, its parser, and the value
  of the guard that limits its connections. Text is below 256 as everywhere, so a payload with other text is not read. The
  machine is little-endian Linux, which the source demands.
\<close>

section \<open>The target\<close>

record connect_guard_target =
  cg_address :: ip_address
  cg_port :: int

fun is_ipv4_mapped :: "ip_address \<Rightarrow> bool" where
  "is_ipv4_mapped (IPv4Address v) = False"
| "is_ipv4_mapped (IPv6Address v scope) = (ipv4_mapped v \<noteq> None)"

definition target_post_init :: "connect_guard_target \<Rightarrow> py_error option" where
  "target_post_init t =
     (if \<not> (1 \<le> cg_port t \<and> cg_port t \<le> 65535) \<or> is_ipv4_mapped (cg_address t)
      then Some (ValueError ''probe_connect_guard_target_invalid'') else None)"

text \<open>\<^verbatim>\<open>struct.pack("=I", n)\<close>, \<^verbatim>\<open>socket.htons\<close> and \<^verbatim>\<open>address.packed\<close>\<close>

definition pack_u32 :: "nat \<Rightarrow> nat list" where
  "pack_u32 n = rev (fixed_digits 256 4 n)"

definition htons :: "nat \<Rightarrow> nat" where
  "htons n = n mod 256 * 256 + n div 256"

primrec address_packed :: "ip_address \<Rightarrow> nat list" where
  "address_packed (IPv4Address v) = fixed_digits 256 4 (unat v)"
| "address_packed (IPv6Address v scope) = fixed_digits 256 16 (unat v)"

definition map_value :: "connect_guard_target \<Rightarrow> nat list" where
  "map_value t =
     pack_u32 1 @ pack_u32 (if ip_version (cg_address t) = 4 then 2 else 10) @ pack_u32 (htons (nat (cg_port t)))
       @ (address_packed (cg_address t) @ replicate (16 - length (address_packed (cg_address t))) 0) @ pack_u32 0"

section \<open>Writing\<close>

definition input_path_char :: "char \<Rightarrow> bool" where
  "input_path_char c \<longleftrightarrow> 32 \<le> code c \<and> code c \<noteq> 127 \<and> c \<notin> {CHR 0x27, CHR 0x5C, CHR ''#''}"

definition payload_invalid :: py_error where
  "payload_invalid = ValueError ''probe_input_payload_invalid''"

definition input_userinfo :: "codepoints option \<Rightarrow> codepoints option \<Rightarrow> string option" where
  "input_userinfo username password =
     (case (username, password) of
        (Some u, Some p) \<Rightarrow>
          if \<not> probe_credential_component_valid u 64 \<or> \<not> probe_credential_component_valid p 256 then None
          else (case (quote_text u, quote_text p) of
            (Some a, Some b) \<Rightarrow> Some (a @ CHR '':'' # b @ ''@'')
          | _ \<Rightarrow> None)
      | _ \<Rightarrow> Some [])"

definition header_line :: string where
  "header_line = ''ffconcat version 1.0'' @ [CHR 0x0A]"

definition file_start :: string where
  "file_start = ''file '' @ CHR 0x27 # ''rtsp://''"

definition file_end :: string where
  "file_end = [CHR 0x27, CHR 0x0A]"

definition transport_line :: string where
  "transport_line = ''option rtsp_transport tcp'' @ [CHR 0x0A]"

definition flags_line :: string where
  "flags_line = ''option rtsp_flags no_redirect'' @ [CHR 0x0A]"

definition timeout_start :: string where
  "timeout_start = ''option rw_timeout ''"

definition input_text :: "string \<Rightarrow> ip_address \<Rightarrow> int \<Rightarrow> string \<Rightarrow> int \<Rightarrow> string" where
  "input_text userinfo address port path_and_query io_timeout =
     header_line
     @ file_start @ userinfo
         @ (if ip_version address = 6 then CHR ''['' # address_str address @ '']'' else address_str address)
         @ CHR '':'' # str_int port @ path_and_query @ file_end
     @ transport_line @ flags_line @ timeout_start @ str_int io_timeout @ [CHR 0x0A]"

definition serialize_probe_input ::
  "ip_address \<Rightarrow> int \<Rightarrow> string \<Rightarrow> codepoints option \<Rightarrow> codepoints option \<Rightarrow> int \<Rightarrow> py_error + nat list" where
  "serialize_probe_input address port path_and_query username password io_timeout =
     (if is_ipv4_mapped address \<or> \<not> (1 \<le> port \<and> port \<le> 65535) \<or> \<not> starts_with ''/'' path_and_query
         \<or> \<not> list_all input_path_char path_and_query \<or> \<not> (100000 \<le> io_timeout \<and> io_timeout \<le> 30000000)
         \<or> (username = None) \<noteq> (password = None)
      then Inl payload_invalid
      else if 8192 < length (utf8_encode path_and_query) then Inl payload_invalid
      else case input_userinfo username password of
        None \<Rightarrow> Inl payload_invalid
      | Some userinfo \<Rightarrow>
         (let payload = utf8_encode (input_text userinfo address port path_and_query io_timeout) in
            if 16384 < length payload then Inl payload_invalid else Inr payload))"

section \<open>Reading\<close>

record probe_input_contract =
  pi_target :: connect_guard_target
  pi_io_timeout_microseconds :: int

definition decode_text :: "nat list \<Rightarrow> string option" where
  "decode_text payload =
     (case utf8_decode payload of
        None \<Rightarrow> None
      | Some points \<Rightarrow> if list_all (\<lambda>n. n < 256) points then Some (map char_of points) else None)"

text \<open>\<^verbatim>\<open>str.splitlines(keepends=True)\<close>\<close>

function keep_lines :: "string \<Rightarrow> string list" where
  "keep_lines s =
     (if s = [] then []
      else case dropWhile (\<lambda>c. \<not> is_line_break c) s of
        [] \<Rightarrow> [s]
      | b # rest \<Rightarrow>
          if b = CHR 0x0D \<and> starts_with [CHR 0x0A] rest
          then (takeWhile (\<lambda>c. \<not> is_line_break c) s @ [b, CHR 0x0A]) # keep_lines (tl rest)
          else (takeWhile (\<lambda>c. \<not> is_line_break c) s @ [b]) # keep_lines rest)"
  by pat_completeness auto
termination
proof (relation "measure length", goal_cases)
  case (2 s b rest)
  then show ?case using length_dropWhile_le [of "\<lambda>c. \<not> is_line_break c" s] by auto
next
  case (3 s b rest)
  then show ?case using length_dropWhile_le [of "\<lambda>c. \<not> is_line_break c" s] by auto
qed auto

declare keep_lines.simps [simp del]

definition ends_with :: "string \<Rightarrow> string \<Rightarrow> bool" where
  "ends_with e s \<longleftrightarrow> length e \<le> length s \<and> drop (length s - length e) s = e"

text \<open>\<^verbatim>\<open>s[i:-j]\<close>\<close>

definition slice :: "nat \<Rightarrow> nat \<Rightarrow> string \<Rightarrow> string" where
  "slice i j s = drop i (take (length s - j) s)"

definition parse_timeout :: "string \<Rightarrow> int option" where
  "parse_timeout s =
     (if \<not> (6 \<le> length s \<and> length s \<le> 8) \<or> \<not> list_all is_digit_char s \<or> starts_with ''0'' s then None
      else let timeout = int (dec_value s) in
        if \<not> (100000 \<le> timeout \<and> timeout \<le> 30000000) \<or> str_int timeout \<noteq> s then None else Some timeout)"

definition parse_target ::
  "string \<Rightarrow> (ip_address \<times> int \<times> string \<times> codepoints option \<times> codepoints option) option" where
  "parse_target target_url =
     (case urlsplit target_url of
        None \<Rightarrow> None
      | Some parsed \<Rightarrow>
         (case (url_hostname parsed, url_port parsed) of
            (Some hostname, Some (Some port)) \<Rightarrow>
             (case parse_ip_address hostname of
                None \<Rightarrow> None
              | Some address \<Rightarrow>
                 (let username = map_option unquote_text (url_username parsed);
                      password = map_option unquote_text (url_password parsed)
                  in if sr_scheme parsed \<noteq> ''rtsp'' \<or> sr_fragment parsed \<noteq> [] \<or> \<not> starts_with ''/'' (sr_path parsed)
                        \<or> (username = None) \<noteq> (password = None)
                     then None
                     else Some (address, int port,
                       sr_path parsed @ (if sr_query parsed = [] then [] else CHR ''?'' # sr_query parsed), username, password)))
          | _ \<Rightarrow> None))"

definition parse_input_lines :: "nat list \<Rightarrow> string list \<Rightarrow> py_error + probe_input_contract" where
  "parse_input_lines payload lines =
     (case lines of
        [l0, l1, l2, l3, l4] \<Rightarrow>
          if l0 \<noteq> header_line \<or> \<not> starts_with file_start l1 \<or> \<not> ends_with file_end l1 \<or> CHR 0x27 \<in> set (slice 6 2 l1)
             \<or> l2 \<noteq> transport_line \<or> l3 \<noteq> flags_line \<or> \<not> starts_with timeout_start l4 \<or> \<not> ends_with [CHR 0x0A] l4
          then Inl payload_invalid
          else (case (parse_timeout (slice 18 1 l4), parse_target (slice 6 2 l1)) of
            (Some timeout, Some (address, port, path, username, password)) \<Rightarrow>
             (let target = \<lparr>cg_address = address, cg_port = port\<rparr> in
                if target_post_init target \<noteq> None
                   \<or> serialize_probe_input address port path username password timeout \<noteq> Inr payload
                then Inl payload_invalid
                else Inr \<lparr>pi_target = target, pi_io_timeout_microseconds = timeout\<rparr>)
          | _ \<Rightarrow> Inl payload_invalid)
      | _ \<Rightarrow> Inl payload_invalid)"

definition parse_probe_input_payload :: "nat list \<Rightarrow> py_error + probe_input_contract" where
  "parse_probe_input_payload payload =
     (if \<not> (1 \<le> length payload \<and> length payload \<le> 16384) \<or> 0 \<in> set payload \<or> 13 \<in> set payload then Inl payload_invalid
      else case decode_text payload of
        None \<Rightarrow> Inl payload_invalid
      | Some decoded \<Rightarrow> parse_input_lines payload (keep_lines decoded))"

section \<open>The payload of an admitted endpoint\<close>

definition ffconcat_payload :: "admitted_probe_endpoint \<Rightarrow> int \<Rightarrow> py_error + nat list" where
  "ffconcat_payload e io_timeout =
     (if \<not> (100000 \<le> io_timeout \<and> io_timeout \<le> 30000000) then Inl (ValueError ''probe_io_timeout_invalid'')
      else serialize_probe_input (pe_address (ape_identity e)) (pe_port (ape_identity e)) (ape_path_and_query e)
             (map_option fst (ape_credential e)) (map_option snd (ape_credential e)) io_timeout)"

end
