(* ===== verification/Input_Properties.thy ===== *)
theory Input_Properties
  imports Probe_Input Network_Text
begin

text \<open>
  The input of a probe is read back as it was written, and only what the writer writes is read: nothing in a source URL
  can add a line, a directive or another destination to it.
\<close>

section \<open>The host\<close>

definition host_char :: "char \<Rightarrow> bool" where
  "host_char c \<longleftrightarrow> c = CHR '':'' \<or> c = CHR ''.'' \<or> (48 \<le> code c \<and> code c \<le> 57) \<or> (97 \<le> code c \<and> code c \<le> 102)"

lemma ipv6_str_hosts: "list_all host_char (ipv6_str v)"
proof -
  let ?hs = "map (digits_of 16) (fixed_digits 65536 8 v)"
  have digit: "host_char c" if "c \<in> set (digits_of 16 n)" for c n
    using digits_of_chars [OF _ _ that] by (auto simp: host_char_def digit_char_code split: if_splits)
  have "host_char c" if c: "c \<in> set (ipv6_str v)" for c
  proof -
    from c consider "c = CHR '':''" | p where "p \<in> set (compress_hextets ?hs)" "c \<in> set p"
      using set_str_join [of "'':''" "compress_hextets ?hs"] unfolding ipv6_str_def by auto
    then show ?thesis
    proof cases
      case (2 p)
      then have "p = [] \<or> p \<in> set ?hs" using compress_hextets_parts(1) [of ?hs] by auto
      then show ?thesis using 2(2) digit by auto
    qed (simp add: host_char_def)
  qed
  then show ?thesis by (simp add: list_all_iff)
qed

lemma ipv6_str_colon:
  assumes "v < 2 ^ 128"
  shows "CHR '':'' \<in> set (ipv6_str v)"
proof (rule ccontr)
  assume colon: "CHR '':'' \<notin> set (ipv6_str v)"
  have "CHR ''%'' \<notin> set (ipv6_str v)" using ipv6_str_chars by fastforce
  then have "parse_ipv6 (ipv6_str v) = None" using colon by (simp add: parse_ipv6_def partition_char_notin split_char_notin)
  then show False using parse_ipv6_str(1) [OF assms] by simp
qed

fun unscoped :: "ip_address \<Rightarrow> bool" where
  "unscoped (IPv4Address v) = True"
| "unscoped (IPv6Address v scope) = (scope = None)"

lemma address_str_host:
  assumes "unscoped address"
  shows "list_all host_char (address_str address)" "parse_ip_address (address_str address) = Some address"
    "CHR '':'' \<in> set (address_str address) \<longleftrightarrow> ip_version address = 6" "address_str address \<noteq> []"
proof -
  have "list_all host_char (address_str address) \<and> parse_ip_address (address_str address) = Some address
    \<and> (CHR '':'' \<in> set (address_str address) \<longleftrightarrow> ip_version address = 6)"
  proof (cases address)
    case (IPv4Address v)
    have v: "unat v < 2 ^ 32" using unsigned_less [of v] by simp
    have "CHR '':'' \<notin> set (ipv4_str (unat v))" using ipv4_str_chars [of "CHR '':''" "unat v"] by auto
    moreover have "list_all host_char (ipv4_str (unat v))" using ipv4_str_chars by (auto simp: list_all_iff host_char_def)
    ultimately show ?thesis using parse_ipv4_str [OF v] by (simp add: IPv4Address parse_ip_address_def)
  next
    case (IPv6Address v scope)
    have v: "unat v < 2 ^ 128" using unsigned_less [of v] by simp
    then show ?thesis
      using assms parse_ipv6_str [OF v] ipv6_str_hosts ipv6_str_colon [OF v] by (simp add: IPv6Address parse_ip_address_def)
  qed
  then show "list_all host_char (address_str address)" "parse_ip_address (address_str address) = Some address"
    "CHR '':'' \<in> set (address_str address) \<longleftrightarrow> ip_version address = 6" by simp_all
  then show "address_str address \<noteq> []" by (auto simp: parse_ip_address_def parse_ipv4_def parse_ipv6_def)
qed

lemma host_char_facts: "host_char c \<Longrightarrow> plain c \<and> lower_char c = c \<and> c \<noteq> CHR ''['' \<and> c \<noteq> CHR '']'' \<and> c \<noteq> CHR ''%'' \<and> c \<noteq> CHR ''v''"
  by (auto simp: host_char_def plain_def lower_char_def code_def)

lemma host_lower_host: "list_all host_char s \<Longrightarrow> host_lower s = s"
  by (induction s) (auto dest: host_char_facts)

section \<open>The target URL\<close>

lemma urlsplit_input:
  assumes net: "list_all (\<lambda>c. c \<notin> set ''/?#'' \<and> visible c) netloc" "netloc_valid netloc"
    and path: "list_all (\<lambda>c. c \<noteq> CHR ''#'' \<and> visible c) (CHR ''/'' # p)"
    and parts: "partition_char CHR ''?'' (CHR ''/'' # p) = (path, found, q)"
  shows "urlsplit (''rtsp://'' @ netloc @ CHR ''/'' # p) =
    Some \<lparr>sr_scheme = ''rtsp'', sr_netloc = netloc, sr_path = path, sr_query = q, sr_fragment = []\<rparr>"
proof -
  let ?u = "''//'' @ netloc @ CHR ''/'' # p" and ?url = "''rtsp://'' @ netloc @ CHR ''/'' # p"
  have "list_all visible ?url" using net(1) path by (auto simp: list_all_iff visible_def code_def)
  moreover have "visible = (\<lambda>c. code c \<notin> {9, 10, 13})" by (auto simp: visible_def)
  ultimately have "filter (\<lambda>c. code c \<notin> {9, 10, 13}) ?url = ?url" using filter_all by metis
  moreover have "dropWhile (\<lambda>c. code c \<le> 32) ?url = ?url" by (simp add: code_def)
  ultimately have "strip_url ?url = ?url" by (simp only: strip_url_def)
  moreover have "split_scheme ?url = (''rtsp'', ?u)"
    by (simp add: split_scheme_def is_scheme_char_def is_alpha_ascii_def lower_def lower_char_def code_def)
  moreover have "takeWhile (\<lambda>c. \<not> is_netloc_end c) (netloc @ CHR ''/'' # p) = netloc
      \<and> dropWhile (\<lambda>c. \<not> is_netloc_end c) (netloc @ CHR ''/'' # p) = CHR ''/'' # p"
    using net(1) by (intro takeWhile_stop) (auto simp: list_all_iff is_netloc_end_def)
  moreover have "split_first CHR ''#'' (CHR ''/'' # p) = (CHR ''/'' # p, [])"
    using path by (simp add: split_first_def, subst partition_char_notin) (auto simp: list_all_iff)
  moreover have "split_first CHR ''?'' (CHR ''/'' # p) = (path, q)" using parts by (simp add: split_first_def)
  ultimately show ?thesis using net(2) by (simp add: urlsplit_def starts_with_def)
qed

text \<open>What stands before the host: nothing, or both credentials quoted.\<close>

definition quoted_userinfo :: "codepoints option \<Rightarrow> codepoints option \<Rightarrow> string \<Rightarrow> bool" where
  "quoted_userinfo username password ui \<longleftrightarrow>
     (username = None \<and> password = None \<and> ui = [])
     \<or> (\<exists>a b. ui = (a @ CHR '':'' # b) @ ''@'' \<and> list_all url_safe a \<and> list_all url_safe b
          \<and> username = Some (unquote_text a) \<and> password = Some (unquote_text b))"

lemma input_userinfo_quoted:
  assumes "input_userinfo username password = Some ui" and "(username = None) = (password = None)"
  shows "quoted_userinfo username password ui"
proof (cases username)
  case None
  then show ?thesis using assms by (simp add: input_userinfo_def quoted_userinfo_def)
next
  case (Some u)
  then obtain p a b where "password = Some p" "quote_text u = Some a" "quote_text p = Some b" "ui = a @ CHR '':'' # b @ ''@''"
    using assms by (auto simp: input_userinfo_def split: if_splits option.splits)
  then show ?thesis
    using Some quote_chars unquote_quote unfolding quoted_userinfo_def by (intro disjI2 exI [of _ a] exI [of _ b]) simp
qed

definition userinfo_char :: "char \<Rightarrow> bool" where
  "userinfo_char c \<longleftrightarrow> c \<notin> set ''/?#[]'' \<and> visible c \<and> \<not> is_line_break c \<and> c \<noteq> CHR 0x27"

lemma url_safe_userinfo:
  assumes "url_safe c"
  shows "userinfo_char c"
proof -
  have "code c \<noteq> 39" using assms by (auto simp: url_safe_def is_unreserved_def)
  then have "c \<noteq> CHR 0x27" by (auto simp: code_def)
  then show ?thesis using url_safe_ascii [OF assms] by (auto simp: userinfo_char_def visible_def is_line_break_def)
qed

lemma quoted_userinfo_facts:
  assumes "quoted_userinfo username password ui"
  shows "userinfo_ok ui" "list_all userinfo_char ui" "list_all (\<lambda>c. c \<notin> set ''/?#'' \<and> visible c) ui"
proof -
  have marks: "userinfo_char CHR '':''" "userinfo_char CHR ''@''" by (simp_all add: userinfo_char_def visible_def is_line_break_def code_def)
  then show all: "list_all userinfo_char ui"
    using assms url_safe_userinfo unfolding quoted_userinfo_def list_all_iff by auto
  then show "list_all (\<lambda>c. c \<notin> set ''/?#'' \<and> visible c) ui" by (auto simp: list_all_iff userinfo_char_def)
  have "CHR ''['' \<notin> set ui" "CHR '']'' \<notin> set ui" using all by (auto simp: list_all_iff userinfo_char_def)
  then show "userinfo_ok ui" using assms unfolding quoted_userinfo_def userinfo_ok_def by auto
qed

lemma quoted_userinfo_read:
  assumes ui: "quoted_userinfo username password ui" and "sr_netloc r = ui @ A" and A: "CHR ''@'' \<notin> set A"
  shows "map_option unquote_text (url_username r) = username" "map_option unquote_text (url_password r) = password"
proof -
  have "map_option unquote_text (url_username r) = username \<and> map_option unquote_text (url_password r) = password"
  proof (cases "ui = []")
    case True
    then show ?thesis using assms by (auto simp: quoted_userinfo_def url_username_def url_password_def url_userinfo_def rpartition_char_notin)
  next
    case False
    then obtain a b where ab: "ui = (a @ CHR '':'' # b) @ ''@''" "list_all url_safe a"
      "username = Some (unquote_text a)" "password = Some (unquote_text b)"
      using ui by (auto simp: quoted_userinfo_def)
    have "CHR '':'' \<notin> set a" using ab(2) url_safe_ascii by (fastforce simp: list_all_iff)
    moreover have "rpartition_char CHR ''@'' (sr_netloc r) = (a @ CHR '':'' # b, True, A)"
      using rpartition_char_append [OF A, of "a @ CHR '':'' # b"] by (simp add: assms(2) ab(1))
    ultimately show ?thesis
      using ab by (simp add: url_username_def url_password_def url_userinfo_def partition_char_append)
  qed
  then show "map_option unquote_text (url_username r) = username" "map_option unquote_text (url_password r) = password" by simp_all
qed

text \<open>A path with its query as a URL carries it: the mark of an empty query is lost.\<close>

definition carried_path :: "string \<Rightarrow> string" where
  "carried_path path_and_query =
     (case partition_char CHR ''?'' path_and_query of (path, _, query') \<Rightarrow> path @ (if query' = [] then [] else CHR ''?'' # query'))"

definition empty_query :: "string \<Rightarrow> bool" where
  "empty_query path_and_query \<longleftrightarrow> (\<exists>p. CHR ''?'' \<notin> set p \<and> path_and_query = p @ ''?'')"

lemma carried_path_cases:
  "\<not> empty_query path_and_query \<Longrightarrow> carried_path path_and_query = path_and_query"
  "empty_query path_and_query \<Longrightarrow> path_and_query = carried_path path_and_query @ ''?''"
proof -
  obtain path found query' where parts: "partition_char CHR ''?'' path_and_query = (path, found, query')" by (metis prod_cases3)
  note cases = partition_char_cases [OF parts]
  show "carried_path path_and_query = path_and_query" if "\<not> empty_query path_and_query"
    using that cases parts by (auto simp: carried_path_def empty_query_def split: if_splits)
  show "path_and_query = carried_path path_and_query @ ''?''" if "empty_query path_and_query"
    using that by (auto simp: carried_path_def empty_query_def partition_char_append)
qed

lemma parse_target_input:
  assumes address: "unscoped address" and port: "1 \<le> port" "port \<le> 65535" and ui: "quoted_userinfo username password ui"
    and path: "starts_with ''/'' path_and_query" "list_all (\<lambda>c. c \<noteq> CHR ''#'' \<and> visible c) path_and_query"
  shows "parse_target (''rtsp://'' @ ui @ authority_of (address_str address) (Some (nat port)) @ path_and_query) =
    Some (address, port, carried_path path_and_query, username, password)"
proof -
  let ?h = "address_str address" and ?A = "authority_of (address_str address) (Some (nat port))"
  note host = address_str_host [OF address]
  have chars: "CHR ''['' \<notin> set ?h" "CHR '']'' \<notin> set ?h" "list_all plain ?h"
    using host(1) host_char_facts by (auto simp: list_all_iff)
  have six: "CHR '':'' \<in> set ?h \<longrightarrow> bracketed_host_valid ?h"
  proof
    assume "CHR '':'' \<in> set ?h"
    then obtain v z where "address = IPv6Address v z" using host(3) by (cases address) auto
    moreover have "\<not> starts_with ''v'' ?h" using host(1,4) host_char_facts by (cases ?h) (auto simp: starts_with_def)
    ultimately show "bracketed_host_valid ?h" using host(2) by (simp add: bracketed_host_valid_def)
  qed
  obtain path found query' where parts: "partition_char CHR ''?'' path_and_query = (path, found, query')" by (metis prod_cases3)
  note cases = partition_char_cases [OF parts]
  obtain p where p: "path_and_query = CHR ''/'' # p" using path(1) by (cases path_and_query) (auto simp: starts_with_def)
  let ?r = "\<lparr>sr_scheme = ''rtsp'', sr_netloc = ui @ ?A, sr_path = path, sr_query = query', sr_fragment = []\<rparr>"
  have A: "list_all (\<lambda>c. c \<notin> set ''/?#'' \<and> visible c) ?A" "CHR ''@'' \<notin> set ?A"
    using plain_authority [OF chars(3), of "Some (nat port)"] by (auto simp: list_all_iff plain_def visible_def)
  have split: "urlsplit (''rtsp://'' @ (ui @ ?A) @ path_and_query) = Some ?r"
    using A(1) quoted_userinfo_facts [OF ui] netloc_valid_authority [OF quoted_userinfo_facts(1) [OF ui] chars(1,2) six]
      path(2) parts unfolding p by (intro urlsplit_input) simp_all
  have info: "hostinfo ?r = (?h, Some (str_nat (nat port)))"
    using hostinfo_authority [OF quoted_userinfo_facts(1) [OF ui], of ?r ?h "Some (nat port)"] chars by simp
  have "url_hostname ?r = Some ?h" using host(1,4) by (simp add: url_hostname_lower info host_lower_host)
  moreover have "url_port ?r = Some (Some (nat port))" using port by (simp add: url_port_def info str_nat_digits)
  moreover have "starts_with ''/'' path" using cases p by (cases path) (auto simp: starts_with_def split: if_splits)
  moreover note split host(2) quoted_userinfo_read [OF ui, of ?r ?A] A(2)
  moreover have "(username = None) = (password = None)" using ui by (auto simp: quoted_userinfo_def)
  ultimately show ?thesis using port parts by (simp add: parse_target_def carried_path_def Let_def)
qed

section \<open>Lines\<close>

lemma utf8_decode_encode: "utf8_decode (utf8_encode s) = Some (map code s)"
proof (induction s)
  case (Cons c s)
  show ?case
  proof (cases "code c < 128")
    case True
    then show ?thesis using Cons by (simp add: utf8_encode_def utf8_char_def)
  next
    case False
    have "code c div 64 = 2 \<or> code c div 64 = 3" using False code_less_256 [of c] by linarith
    moreover have "code c mod 64 < 64" "code c div 64 * 64 + code c mod 64 = code c" by simp_all
    ultimately show ?thesis using False Cons by (auto simp: utf8_encode_def utf8_char_def continuation_def)
  qed
qed (simp add: utf8_encode_def)

lemma decode_encode_text: "decode_text (utf8_encode s) = Some s"
proof -
  have "map char_of (map code s) = s" by (induction s) (simp_all add: code_def)
  moreover have "list_all (\<lambda>n. n < 256) (map code s)" by (simp add: list_all_iff)
  ultimately show ?thesis by (simp add: decode_text_def utf8_decode_encode)
qed

lemma utf8_encode_low: "b \<in> set (utf8_encode s) \<Longrightarrow> b < 128 \<Longrightarrow> \<exists>c \<in> set s. code c = b"
  by (auto simp: utf8_encode_def utf8_char_def split: if_splits)

lemma utf8_encode_free: "\<forall>c \<in> set s. code c \<noteq> b \<Longrightarrow> b < 128 \<Longrightarrow> b \<notin> set (utf8_encode s)"
  using utf8_encode_low by blast

lemma keep_lines_line:
  assumes "list_all (\<lambda>c. \<not> is_line_break c) a" and "is_line_break b" and "b \<noteq> CHR 0x0D"
  shows "keep_lines (a @ b # rest) = (a @ [b]) # keep_lines rest"
  using takeWhile_stop [OF assms(1), of b rest] assms(2,3) by (subst keep_lines.simps) simp

lemma keep_lines_Nil: "keep_lines [] = []"
  by (simp add: keep_lines.simps)

section \<open>The timeout\<close>

lemma length_str_nat:
  assumes "10 ^ k \<le> n" and "n < 10 ^ m" and "0 < m"
  shows "k < length (str_nat n)" "length (str_nat n) \<le> m" "0 < n \<Longrightarrow> \<not> starts_with ''0'' (str_nat n)"
proof -
  obtain ds where ds: "digits_of 10 n = map digit_char ds" "from_base 10 ds = n" "ds \<noteq> []" "\<forall>d \<in> set ds. d < 10"
    "hd ds = 0 \<longrightarrow> n = 0" "\<forall>k. 0 < k \<longrightarrow> n < 10 ^ k \<longrightarrow> length ds \<le> k"
    using digits_of_values [of 10 n] by auto
  have "n < 10 ^ length ds" using from_base_lt [of 10 ds] ds by (simp add: list_all_iff)
  then have "(10 :: nat) ^ k < 10 ^ length ds" using assms(1) by linarith
  then show "k < length (str_nat n)" by (simp add: str_nat_def ds(1) power_strict_increasing_iff)
  show "length (str_nat n) \<le> m" using ds assms by (simp add: str_nat_def)
  show "\<not> starts_with ''0'' (str_nat n)" if "0 < n"
  proof
    assume "starts_with ''0'' (str_nat n)"
    then have "digit_char (hd ds) = CHR ''0''" using ds(3) by (cases ds) (simp_all add: str_nat_def ds(1) starts_with_def)
    then have "code (digit_char (hd ds)) = 48" by (simp add: code_def)
    moreover have "hd ds < 10" using ds(3,4) by simp
    ultimately have "hd ds = 0" by (simp add: digit_char_code)
    then show False using ds(5) that by simp
  qed
qed

lemma parse_timeout_str:
  assumes "100000 \<le> t" and "t \<le> 30000000"
  shows "parse_timeout (str_int t) = Some t"
proof -
  have n: "(10 :: nat) ^ 5 \<le> nat t" "nat t < 10 ^ 8" using assms by simp_all
  note len = length_str_nat [OF n]
  have "5 < length (str_nat (nat t))" "length (str_nat (nat t)) \<le> 8" "\<not> starts_with ''0'' (str_nat (nat t))"
    using len n by simp_all
  then show ?thesis using assms str_nat_digits [of "nat t"] by (simp add: parse_timeout_def str_int_def Let_def)
qed

section \<open>The payload\<close>

definition target_part :: "string \<Rightarrow> ip_address \<Rightarrow> int \<Rightarrow> string \<Rightarrow> string" where
  "target_part ui address port path_and_query = ui @ authority_of (address_str address) (Some (nat port)) @ path_and_query"

lemma input_text_parts:
  assumes "unscoped address" and "0 \<le> port"
  shows "input_text ui address port path_and_query t =
    header_line @ (file_start @ target_part ui address port path_and_query @ file_end) @ transport_line @ flags_line
      @ timeout_start @ str_int t @ [CHR 0x0A]"
  using address_str_host(3) [OF assms(1)] assms(2) by (simp add: input_text_def target_part_def authority_of_def str_int_def)

lemma no_break_digits: "list_all (\<lambda>c. \<not> is_line_break c \<and> c \<noteq> CHR 0x27) (str_nat n)"
  using str_nat_codes [of _ n] by (fastforce simp: list_all_iff is_line_break_def code_def)

lemma target_part_chars:
  assumes "unscoped address" and "quoted_userinfo username password ui"
    and "list_all (\<lambda>c. \<not> is_line_break c \<and> c \<noteq> CHR 0x27) path_and_query"
  shows "list_all (\<lambda>c. \<not> is_line_break c \<and> c \<noteq> CHR 0x27) (target_part ui address port path_and_query)"
proof -
  have host: "\<not> is_line_break c \<and> c \<noteq> CHR 0x27" if "host_char c" for c using that by (auto simp: host_char_def is_line_break_def code_def)
  have "list_all (\<lambda>c. \<not> is_line_break c \<and> c \<noteq> CHR 0x27) (address_str address)"
    using address_str_host(1) [OF assms(1)] host by (simp add: list_all_iff)
  then have "list_all (\<lambda>c. \<not> is_line_break c \<and> c \<noteq> CHR 0x27) (authority_of (address_str address) (Some (nat port)))"
    using no_break_digits [of "nat port"] by (simp add: authority_of_def Let_def is_line_break_def code_def)
  moreover have "list_all (\<lambda>c. \<not> is_line_break c \<and> c \<noteq> CHR 0x27) ui"
    using quoted_userinfo_facts(2) [OF assms(2)] by (auto simp: list_all_iff userinfo_char_def)
  ultimately show ?thesis using assms(3) by (simp add: target_part_def)
qed

lemma fixed_lines:
  "header_line = ''ffconcat version 1.0'' @ [CHR 0x0A]" "list_all (\<lambda>c. \<not> is_line_break c) ''ffconcat version 1.0''"
  "transport_line = ''option rtsp_transport tcp'' @ [CHR 0x0A]" "list_all (\<lambda>c. \<not> is_line_break c) ''option rtsp_transport tcp''"
  "flags_line = ''option rtsp_flags no_redirect'' @ [CHR 0x0A]" "list_all (\<lambda>c. \<not> is_line_break c) ''option rtsp_flags no_redirect''"
  "list_all (\<lambda>c. \<not> is_line_break c) file_start" "list_all (\<lambda>c. \<not> is_line_break c) timeout_start" "is_line_break CHR 0x0A"
  by (simp_all add: header_line_def transport_line_def flags_line_def file_start_def timeout_start_def is_line_break_def code_def)

lemma keep_header: "keep_lines (header_line @ rest) = header_line # keep_lines rest"
  using keep_lines_line [OF fixed_lines(2,9), of rest] by (simp add: fixed_lines(1))

lemma keep_transport: "keep_lines (transport_line @ rest) = transport_line # keep_lines rest"
  using keep_lines_line [OF fixed_lines(4,9), of rest] by (simp add: fixed_lines(3))

lemma keep_flags: "keep_lines (flags_line @ rest) = flags_line # keep_lines rest"
  using keep_lines_line [OF fixed_lines(6,9), of rest] by (simp add: fixed_lines(5))

lemma keep_input_lines:
  assumes "list_all (\<lambda>c. \<not> is_line_break c \<and> c \<noteq> CHR 0x27) x" and "0 \<le> t"
  shows "keep_lines (header_line @ (file_start @ x @ file_end) @ transport_line @ flags_line @ timeout_start @ str_int t @ [CHR 0x0A]) =
    [header_line, file_start @ x @ file_end, transport_line, flags_line, timeout_start @ str_int t @ [CHR 0x0A]]"
proof -
  have "list_all (\<lambda>c. \<not> is_line_break c) (file_start @ x @ [CHR 0x27])"
    using assms(1) fixed_lines(7) by (auto simp: list_all_iff is_line_break_def code_def)
  then have source: "keep_lines ((file_start @ x @ file_end) @ rest) = (file_start @ x @ file_end) # keep_lines rest" for rest
    using keep_lines_line [OF _ fixed_lines(9), of "file_start @ x @ [CHR 0x27]" rest] by (simp add: file_end_def)
  have "list_all (\<lambda>c. \<not> is_line_break c) (timeout_start @ str_int t)"
    using no_break_digits [of "nat t"] fixed_lines(8) assms(2) by (auto simp: list_all_iff str_int_def)
  then have "keep_lines ((timeout_start @ str_int t) @ [CHR 0x0A]) = [timeout_start @ str_int t @ [CHR 0x0A]]"
    using keep_lines_line [OF _ fixed_lines(9), of "timeout_start @ str_int t" "[]"] by (simp add: keep_lines_Nil)
  then show ?thesis unfolding keep_header source keep_transport keep_flags by simp
qed

lemma serialize_InrE:
  assumes "serialize_probe_input address port path_and_query username password t = Inr payload"
  obtains ui where "quoted_userinfo username password ui" "payload = utf8_encode (input_text ui address port path_and_query t)"
    "length payload \<le> 16384" "1 \<le> port" "port \<le> 65535" "100000 \<le> t" "t \<le> 30000000" "\<not> is_ipv4_mapped address"
    "starts_with ''/'' path_and_query" "list_all input_path_char path_and_query"
proof -
  obtain ui where ui: "input_userinfo username password = Some ui" "(username = None) = (password = None)"
    "payload = utf8_encode (input_text ui address port path_and_query t)" "length payload \<le> 16384"
    and rest: "1 \<le> port" "port \<le> 65535" "100000 \<le> t" "t \<le> 30000000" "\<not> is_ipv4_mapped address"
    "starts_with ''/'' path_and_query" "list_all input_path_char path_and_query"
    using assms by (auto simp: serialize_probe_input_def Let_def split: if_splits option.splits)
  show thesis using that [OF input_userinfo_quoted [OF ui(1,2)] ui(3,4) rest] .
qed

lemma input_path_char_facts:
  "input_path_char c \<Longrightarrow> c \<noteq> CHR ''#'' \<and> visible c \<and> c \<noteq> CHR 0x27 \<and> (code c \<noteq> 133 \<longrightarrow> \<not> is_line_break c)"
  by (auto simp: input_path_char_def visible_def is_line_break_def)

lemma target_part_slices:
  "starts_with file_start (file_start @ x @ file_end)" "ends_with file_end (file_start @ x @ file_end)"
  "slice 6 2 (file_start @ x @ file_end) = ''rtsp://'' @ x"
  "starts_with timeout_start (timeout_start @ y @ [CHR 0x0A])" "ends_with [CHR 0x0A] (timeout_start @ y @ [CHR 0x0A])"
  "slice 18 1 (timeout_start @ y @ [CHR 0x0A]) = y"
  by (simp_all add: starts_with_def ends_with_def slice_def file_start_def file_end_def timeout_start_def)

lemma low_bytes:
  assumes "list_all (\<lambda>c. \<not> is_line_break c \<and> c \<noteq> CHR 0x27) x" and "CHR 0x00 \<notin> set x" and "0 \<le> t"
  shows "0 \<notin> set (utf8_encode (header_line @ (file_start @ x @ file_end) @ transport_line @ flags_line @ timeout_start @ str_int t @ [CHR 0x0A]))"
    "13 \<notin> set (utf8_encode (header_line @ (file_start @ x @ file_end) @ transport_line @ flags_line @ timeout_start @ str_int t @ [CHR 0x0A]))"
proof -
  let ?s = "header_line @ (file_start @ x @ file_end) @ transport_line @ flags_line @ timeout_start @ str_int t @ [CHR 0x0A]"
  have fixed: "list_all (\<lambda>c. code c \<noteq> 0 \<and> code c \<noteq> 13) (header_line @ file_start @ file_end @ transport_line @ flags_line @ timeout_start @ [CHR 0x0A])"
    by (simp add: header_line_def file_start_def file_end_def transport_line_def flags_line_def timeout_start_def code_def)
  have "code c \<noteq> 0 \<and> code c \<noteq> 13" if "c \<in> set x" for c
  proof -
    have "code CHR 0x00 = 0" by (simp add: code_def)
    then have "code c \<noteq> 0" using that assms(2) code_inj [of c "CHR 0x00"] by auto
    moreover have "\<not> is_line_break c" using that assms(1) unfolding list_all_iff by blast
    ultimately show ?thesis by (auto simp: is_line_break_def)
  qed
  moreover have "code c \<noteq> 0 \<and> code c \<noteq> 13" if "c \<in> set (str_int t)" for c
    using that assms(3) str_nat_codes [of c "nat t"] by (auto simp: str_int_def)
  ultimately have "\<forall>c \<in> set ?s. code c \<noteq> 0 \<and> code c \<noteq> 13" using fixed by (auto simp: list_all_iff)
  then show "0 \<notin> set (utf8_encode ?s)" "13 \<notin> set (utf8_encode ?s)"
    by (intro utf8_encode_free, blast, simp)+
qed

lemma target_part_nul:
  assumes "unscoped address" and "quoted_userinfo username password ui" and "list_all input_path_char path_and_query"
  shows "CHR 0x00 \<notin> set (target_part ui address port path_and_query)"
proof -
  have nul: "code CHR 0x00 = 0" by (simp add: code_def)
  then have "\<not> host_char CHR 0x00" "\<not> url_safe CHR 0x00" "\<not> input_path_char CHR 0x00"
    using url_safe_ascii [of "CHR 0x00"] by (auto simp: host_char_def input_path_char_def)
  note no = this
  have "CHR 0x00 \<notin> set (address_str address)" using address_str_host(1) [OF assms(1)] no(1) unfolding list_all_iff by blast
  moreover have "CHR 0x00 \<notin> set (str_nat (nat port))" using str_nat_codes [of "CHR 0x00" "nat port"] nul by auto
  ultimately have "CHR 0x00 \<notin> set (authority_of (address_str address) (Some (nat port)))" by (simp add: authority_of_def Let_def)
  moreover have "CHR 0x00 \<notin> set ui" using assms(2) no(2) unfolding quoted_userinfo_def list_all_iff by auto
  moreover have "CHR 0x00 \<notin> set path_and_query" using assms(3) no(3) unfolding list_all_iff by blast
  ultimately show ?thesis by (simp add: target_part_def)
qed

lemma serialize_path_inj:
  assumes "serialize_probe_input address port p username password t = Inr payload"
    and "serialize_probe_input address port p' username password t = Inr payload"
  shows "p = p'"
proof -
  obtain ui where "input_userinfo username password = Some ui" "payload = utf8_encode (input_text ui address port p t)"
    "payload = utf8_encode (input_text ui address port p' t)"
    using assms by (auto simp: serialize_probe_input_def Let_def split: if_splits option.splits)
  then have "input_text ui address port p t = input_text ui address port p' t" using utf8_encode_inj by metis
  then show ?thesis by (simp add: input_text_def)
qed

text \<open>What is written is read as the path that a URL carries, and then written again for the comparison.\<close>

lemma parse_written:
  assumes written: "serialize_probe_input address port path_and_query username password t = Inr payload"
    and address: "unscoped address" and path: "list_all (\<lambda>c. code c \<noteq> 133) path_and_query"
  shows "parse_probe_input_payload payload = (if empty_query path_and_query then Inl payload_invalid
    else Inr \<lparr>pi_target = \<lparr>cg_address = address, cg_port = port\<rparr>, pi_io_timeout_microseconds = t\<rparr>)"
proof -
  obtain ui where ui: "quoted_userinfo username password ui"
    and payload: "payload = utf8_encode (input_text ui address port path_and_query t)" "length payload \<le> 16384"
    and ok: "1 \<le> port" "port \<le> 65535" "100000 \<le> t" "t \<le> 30000000" "\<not> is_ipv4_mapped address"
    "starts_with ''/'' path_and_query" "list_all input_path_char path_and_query"
    by (rule serialize_InrE [OF written])
  let ?x = "target_part ui address port path_and_query"
  have pq: "list_all (\<lambda>c. \<not> is_line_break c \<and> c \<noteq> CHR 0x27) path_and_query" "list_all (\<lambda>c. c \<noteq> CHR ''#'' \<and> visible c) path_and_query"
    using ok(7) path input_path_char_facts by (auto simp: list_all_iff)
  note x = target_part_chars [OF address ui pq(1), of port]
  have text_eq: "input_text ui address port path_and_query t =
      header_line @ (file_start @ ?x @ file_end) @ transport_line @ flags_line @ timeout_start @ str_int t @ [CHR 0x0A]"
    using ok by (intro input_text_parts [OF address]) simp
  have "0 \<le> t" using ok by simp
  note lines = keep_input_lines [OF x this]
  have bytes: "0 \<notin> set payload" "13 \<notin> set payload"
    unfolding payload(1) text_eq using low_bytes [OF x target_part_nul [OF address ui ok(7)] \<open>0 \<le> t\<close>] by blast+
  have "input_text ui address port path_and_query t \<noteq> []" by (simp add: text_eq header_line_def)
  then have "1 \<le> length payload" using length_utf8_encode_bounds [of "input_text ui address port path_and_query t"]
    unfolding payload(1) by (cases "input_text ui address port path_and_query t") auto
  moreover have "decode_text payload = Some (header_line @ (file_start @ ?x @ file_end) @ transport_line @ flags_line
      @ timeout_start @ str_int t @ [CHR 0x0A])"
    unfolding payload(1) decode_encode_text text_eq ..
  moreover have "CHR 0x27 \<notin> set (''rtsp://'' @ ?x)" using x by (auto simp: list_all_iff)
  moreover have "parse_target (''rtsp://'' @ ?x) = Some (address, port, carried_path path_and_query, username, password)"
    unfolding target_part_def by (rule parse_target_input [OF address ok(1,2) ui ok(6) pq(2)])
  moreover have "target_post_init \<lparr>cg_address = address, cg_port = port\<rparr> = None" using ok by (simp add: target_post_init_def)
  moreover have "serialize_probe_input address port (carried_path path_and_query) username password t = Inr payload \<longleftrightarrow> \<not> empty_query path_and_query"
    using serialize_path_inj [OF written, of "carried_path path_and_query"] carried_path_cases [of path_and_query] written by fastforce
  ultimately show ?thesis
    using payload(2) bytes
    by (simp only: parse_probe_input_payload_def option.case lines parse_input_lines_def list.case target_part_slices
        parse_timeout_str [OF ok(3,4)] prod.case) simp
qed

section \<open>Properties\<close>


text \<open>C22. Whatever is read as the input of a probe was written for the destination it names, by the only writer there is:
  the reader accepts nothing but what the writer writes, byte for byte, and the destination passes the checks of the guard.\<close>

theorem probe_input_canonical:
  assumes "parse_probe_input_payload payload = Inr contract"
  shows "\<exists>path_and_query username password.
    serialize_probe_input (cg_address (pi_target contract)) (cg_port (pi_target contract)) path_and_query username password
      (pi_io_timeout_microseconds contract) = Inr payload
    \<and> target_post_init (pi_target contract) = None"
proof -
  obtain address port path username password where
    "serialize_probe_input address port path username password (pi_io_timeout_microseconds contract) = Inr payload"
    "pi_target contract = \<lparr>cg_address = address, cg_port = port\<rparr>" "target_post_init (pi_target contract) = None"
    using assms by (auto simp: parse_probe_input_payload_def parse_input_lines_def Let_def split: if_splits option.splits list.splits)
  then show ?thesis by auto
qed

text \<open>C23. A path with U+0085 can be written, but what is written is never read: the reader takes that character for the end
  of a line. So a source whose path holds it is admitted, and every probe of it fails on its own input.\<close>

theorem next_line_refused:
  assumes written: "serialize_probe_input address port path_and_query username password t = Inr payload"
    and address: "unscoped address" and "\<not> list_all (\<lambda>c. code c \<noteq> 133) path_and_query"
  shows "parse_probe_input_payload payload = Inl payload_invalid"
proof -
  obtain ui where ui: "quoted_userinfo username password ui"
    and payload: "payload = utf8_encode (input_text ui address port path_and_query t)"
    and ok: "1 \<le> port" "list_all input_path_char path_and_query"
    by (rule serialize_InrE [OF written])
  obtain a c b where pq: "path_and_query = a @ c # b" "code c = 133" "\<forall>d \<in> set a. code d \<noteq> 133"
    using assms(3) split_list_first_prop [of path_and_query "\<lambda>c. code c = 133"] by (auto simp: list_all_iff)
  have "list_all (\<lambda>c. \<not> is_line_break c \<and> c \<noteq> CHR 0x27) a"
    using ok(2) pq(1,3) input_path_char_facts by (auto simp: list_all_iff)
  note x = target_part_chars [OF address ui this, of port]
  let ?x = "target_part ui address port a"
  have line: "list_all (\<lambda>c. \<not> is_line_break c) (file_start @ ?x)" using x fixed_lines(7) by (auto simp: list_all_iff)
  have c: "is_line_break c" "c \<noteq> CHR 0x0D" using pq(2) by (auto simp: is_line_break_def code_def)
  have "input_text ui address port path_and_query t = header_line @ ((file_start @ ?x) @ c # (b @ file_end @ transport_line @ flags_line
      @ timeout_start @ str_int t @ [CHR 0x0A]))"
    using input_text_parts [OF address, of port ui path_and_query t] ok(1) by (simp add: pq(1) target_part_def)
  then obtain rest where lines: "keep_lines (input_text ui address port path_and_query t) = header_line # ((file_start @ ?x) @ [c]) # rest"
    using keep_lines_line [OF line c] by (simp add: keep_header)
  have "c \<noteq> CHR 0x0A" using pq(2) by (auto simp: code_def)
  then have "\<not> ends_with file_end ((file_start @ ?x) @ [c])"
    using arg_cong [of _ file_end last] by (fastforce simp: ends_with_def file_end_def)
  then have "parse_input_lines payload (keep_lines (input_text ui address port path_and_query t)) = Inl payload_invalid"
    unfolding lines parse_input_lines_def by (simp split: list.split)
  then show ?thesis by (simp add: parse_probe_input_payload_def payload decode_encode_text)
qed

section \<open>The value of the guard\<close>

lemma fixed_digits_inj: "n < b ^ k \<Longrightarrow> m < b ^ k \<Longrightarrow> 0 < b \<Longrightarrow> fixed_digits b k n = fixed_digits b k m \<Longrightarrow> n = m"
  by (metis from_base_fixed_digits mod_less)

lemma length_pack_u32 [simp]: "length (pack_u32 n) = 4"
  by (simp add: pack_u32_def)

lemma pack_u32_inj: "n < 256 ^ 4 \<Longrightarrow> m < 256 ^ 4 \<Longrightarrow> pack_u32 n = pack_u32 m \<Longrightarrow> n = m"
  using fixed_digits_inj [of n 256 4 m] unfolding pack_u32_def by (metis rev_rev_ident zero_less_numeral)

lemma htons_inj:
  assumes "p \<le> 65535" and "q \<le> 65535" and "htons p = htons q"
  shows "p = q"
proof -
  have "p div 256 < 256" "q div 256 < 256" using assms by linarith+
  then have "p div 256 = htons p mod 256" "p mod 256 = htons p div 256" "q div 256 = htons q mod 256" "q mod 256 = htons q div 256"
    by (simp_all add: htons_def)
  then show ?thesis using assms(3) by (metis div_mult_mod_eq)
qed

lemma htons_less: "p \<le> 65535 \<Longrightarrow> htons p < 256 ^ 4"
proof -
  assume "p \<le> 65535"
  then have "p div 256 \<le> 255" by linarith
  moreover have "p mod 256 \<le> 255" by simp
  ultimately show ?thesis unfolding htons_def by simp
qed

lemma packed_inj:
  assumes "unscoped a" and "unscoped b" and "ip_version a = ip_version b"
    and "address_packed a @ replicate (16 - length (address_packed a)) 0 = address_packed b @ replicate (16 - length (address_packed b)) 0"
  shows "a = b"
proof (cases a)
  case (IPv4Address v)
  then obtain w where b: "b = IPv4Address w" using assms(3) by (cases b) auto
  have "unat v < 256 ^ 4" "unat w < 256 ^ 4" using unsigned_less [of v] unsigned_less [of w] by simp_all
  moreover have "fixed_digits 256 4 (unat v) = fixed_digits 256 4 (unat w)" using assms(4) by (simp add: IPv4Address b)
  ultimately have "unat v = unat w" using fixed_digits_inj [of "unat v" 256 4 "unat w"] by simp
  then have "v = w" by (rule unsigned_word_eqI)
  then show ?thesis by (simp add: IPv4Address b)
next
  case (IPv6Address v scope)
  then obtain w z where b: "b = IPv6Address w z" using assms(3) by (cases b) auto
  have "unat v < 256 ^ 16" "unat w < 256 ^ 16" using unsigned_less [of v] unsigned_less [of w] by simp_all
  moreover have "fixed_digits 256 16 (unat v) = fixed_digits 256 16 (unat w)" using assms(4) by (simp add: IPv6Address b)
  ultimately have "unat v = unat w" using fixed_digits_inj [of "unat v" 256 16 "unat w"] by simp
  then have "v = w" by (rule unsigned_word_eqI)
  then show ?thesis using assms(1,2) by (simp add: IPv6Address b)
qed

text \<open>The value the guard is given for a target has the 32 bytes of its layout and names the family, the address and the
  port of the target and of no other one.\<close>

theorem map_value_exact:
  assumes "target_post_init t = None" and "target_post_init u = None" and "unscoped (cg_address t)" and "unscoped (cg_address u)"
  shows "length (map_value t) = 32 \<and> (map_value t = map_value u \<longleftrightarrow> t = u)"
proof
  let ?pad = "\<lambda>a. address_packed a @ replicate (16 - length (address_packed a)) 0"
  have pad: "length (?pad a) = 16" for a by (cases a) simp_all
  then show "length (map_value t) = 32" by (simp add: map_value_def)
  have port: "nat (cg_port t) \<le> 65535" "nat (cg_port u) \<le> 65535" "0 \<le> cg_port t" "0 \<le> cg_port u"
    using assms(1,2) by (auto simp: target_post_init_def split: if_splits)
  have "t = u" if eq: "map_value t = map_value u"
  proof -
    have family: "pack_u32 (if ip_version (cg_address t) = 4 then 2 else 10) = pack_u32 (if ip_version (cg_address u) = 4 then 2 else 10)"
      and ports: "pack_u32 (htons (nat (cg_port t))) = pack_u32 (htons (nat (cg_port u)))" and address: "?pad (cg_address t) = ?pad (cg_address u)"
      using eq pad unfolding map_value_def by (simp_all del: append_assoc)
    have "ip_version a = 4 \<or> ip_version a = 6" for a by (cases a) simp_all
    moreover have "ip_version (cg_address t) = 4 \<longleftrightarrow> ip_version (cg_address u) = 4"
      using pack_u32_inj [OF _ _ family] by (cases "ip_version (cg_address t) = 4"; cases "ip_version (cg_address u) = 4") simp_all
    ultimately have "cg_address t = cg_address u" using packed_inj [OF assms(3,4) _ address] by metis
    moreover have "nat (cg_port t) = nat (cg_port u)"
      using pack_u32_inj [OF htons_less htons_less ports] htons_inj port by simp
    ultimately show ?thesis using port by (cases t; cases u) simp
  qed
  then show "map_value t = map_value u \<longleftrightarrow> t = u" by blast
qed

section \<open>An example\<close>

definition ex_probe_address :: ip_address where
  "ex_probe_address = IPv4Address 0x0A000009"

lemma ex_probe_address_str: "address_str ex_probe_address = ''10.0.0.9''"
proof -
  have "fixed_digits 256 4 167772169 = [10, 0, 0, 9]" by (simp add: fixed_digits_numeral)
  moreover have "str_nat 10 = ''10''" "str_nat 0 = ''0''" "str_nat 9 = ''9''"
    by code_simp+
  ultimately show ?thesis by (simp add: ex_probe_address_def ipv4_str_def str_join_def)
qed

lemma ex_written: "list_all input_path_char p \<Longrightarrow> length p < 100 \<Longrightarrow>
  \<exists>payload. serialize_probe_input ex_probe_address 554 (CHR ''/'' # p) None None 5000000 = Inr payload"
proof -
  assume p: "list_all input_path_char p" "length p < 100"
  have "length (str_int 554) \<le> 3" "length (str_int 5000000) \<le> 7"
    using length_str_nat(2) [of 2 554 3] length_str_nat(2) [of 6 5000000 7] by (simp_all add: str_int_def)
  then have "length (input_text [] ex_probe_address 554 (CHR ''/'' # p) 5000000) \<le> 400"
    using p(2) by (simp add: input_text_def ex_probe_address_str header_line_def file_start_def file_end_def transport_line_def
        flags_line_def timeout_start_def)
  then have "length (utf8_encode (input_text [] ex_probe_address 554 (CHR ''/'' # p) 5000000)) \<le> 16384"
    using length_utf8_encode_bounds [of "input_text [] ex_probe_address 554 (CHR ''/'' # p) 5000000"] by linarith
  moreover have "length (utf8_encode (CHR ''/'' # p)) \<le> 8192" using length_utf8_encode_bounds [of "CHR ''/'' # p"] p(2) by simp
  moreover have "input_path_char CHR ''/''" by (simp add: input_path_char_def code_def)
  ultimately show ?thesis
    using p by (simp add: serialize_probe_input_def input_userinfo_def Let_def starts_with_def ex_probe_address_def)
qed

lemma ex_paths: "list_all input_path_char ''live''" "list_all (\<lambda>c. code c \<noteq> 133) ''/live''" "CHR ''?'' \<notin> set ''/live''"
  "list_all input_path_char ''live?''" "list_all (\<lambda>c. code c \<noteq> 133) ''/live?''"
  by (simp_all add: input_path_char_def code_def)


theorem next_line_refused_witness:
  "\<exists>payload. serialize_probe_input ex_probe_address 554 [CHR ''/'', CHR 0x85] None None 5000000 = Inr payload
     \<and> parse_probe_input_payload payload = Inl payload_invalid"
proof -
  have "list_all input_path_char [CHR 0x85]" by (simp add: input_path_char_def code_def)
  then obtain payload where payload: "serialize_probe_input ex_probe_address 554 [CHR ''/'', CHR 0x85] None None 5000000 = Inr payload"
    using ex_written by fastforce
  have "unscoped ex_probe_address" by (simp add: ex_probe_address_def)
  moreover have "\<not> list_all (\<lambda>c. code c \<noteq> 133) [CHR ''/'', CHR 0x85]" by (simp add: code_def)
  ultimately show ?thesis using next_line_refused [OF payload] payload by blast
qed

theorem probe_input_canonical_witness:
  "\<exists>payload contract path_and_query username password. parse_probe_input_payload payload = Inr contract
     \<and> serialize_probe_input (cg_address (pi_target contract)) (cg_port (pi_target contract)) path_and_query username password
         (pi_io_timeout_microseconds contract) = Inr payload"
proof -
  obtain payload where payload: "serialize_probe_input ex_probe_address 554 ''/live'' None None 5000000 = Inr payload"
    using ex_written [OF ex_paths(1)] by auto
  have "unscoped ex_probe_address" by (simp add: ex_probe_address_def)
  moreover have "\<not> empty_query ''/live''" using ex_paths(3) unfolding empty_query_def by (metis in_set_conv_decomp)
  ultimately have "\<exists>payload contract. parse_probe_input_payload payload = Inr contract"
    using parse_written [OF payload _ ex_paths(2)] by auto
  then show ?thesis using probe_input_canonical by blast
qed

theorem map_value_exact_witness:
  "map_value \<lparr>cg_address = ex_probe_address, cg_port = 554\<rparr> \<noteq> map_value \<lparr>cg_address = ex_probe_address, cg_port = 555\<rparr>"
  using map_value_exact [of "\<lparr>cg_address = ex_probe_address, cg_port = 554\<rparr>" "\<lparr>cg_address = ex_probe_address, cg_port = 555\<rparr>"]
  by (simp add: target_post_init_def ex_probe_address_def)

end
