(* ===== verification/Secret_Cipher.thy ===== *)
theory Secret_Cipher
  imports Pepper_Verifier Camera_Secrets
begin

text \<open>
  The cipher of \<^verbatim>\<open>camera_secrets.py\<close>, which keeps the credentials of camera sources encrypted under a ring of keys. The
  encryption and decryption of \<^verbatim>\<open>AESGCM\<close> are functions of the key, the nonce, the text and the associated data; no value
  of a decryption stands for \<^verbatim>\<open>InvalidTag\<close>. The random nonce is an argument.
\<close>

section \<open>Envelopes and key rings\<close>

definition is_alnum :: "nat \<Rightarrow> bool" where
  "is_alnum n \<longleftrightarrow> (65 \<le> n \<and> n \<le> 90) \<or> (97 \<le> n \<and> n \<le> 122) \<or> (48 \<le> n \<and> n \<le> 57)"

definition key_id_valid :: "codepoints \<Rightarrow> bool" where
  "key_id_valid s \<longleftrightarrow>
     s \<noteq> [] \<and> length s \<le> 64 \<and> is_alnum (hd s) \<and> list_all (\<lambda>n. is_alnum n \<or> n = 46 \<or> n = 95 \<or> n = 45) (tl s)"

record secret_envelope =
  se_key_id :: codepoints
  se_ciphertext :: "nat list"

definition secret_invalid :: py_error where
  "secret_invalid = ValueError ''camera_source_secret_invalid''"

definition new_envelope :: "codepoints \<Rightarrow> nat list \<Rightarrow> py_error + secret_envelope" where
  "new_envelope key_id ciphertext =
     (if \<not> key_id_valid key_id \<or> \<not> (29 \<le> length ciphertext \<and> length ciphertext \<le> 1024) then Inl secret_invalid
      else Inr \<lparr>se_key_id = key_id, se_ciphertext = ciphertext\<rparr>)"

text \<open>The keys are a \<^verbatim>\<open>dict\<close>: a list of pairs with distinct first parts.\<close>

record source_keyring =
  kr_primary_key_id :: codepoints
  kr_keys :: "(codepoints \<times> nat list) list"

definition keyring_invalid :: py_error where
  "keyring_invalid = ValueError ''camera_source_keyring_invalid''"

definition new_keyring :: "codepoints \<Rightarrow> (codepoints \<times> nat list) list \<Rightarrow> py_error + source_keyring" where
  "new_keyring primary_key_id keys =
     (if \<not> key_id_valid primary_key_id \<or> map_of keys primary_key_id = None
         \<or> \<not> (1 \<le> length keys \<and> length keys \<le> 2)
         \<or> list_ex (\<lambda>k. \<not> key_id_valid (fst k)) keys \<or> list_ex (\<lambda>k. length (snd k) \<noteq> 32) keys
      then Inl keyring_invalid
      else Inr \<lparr>kr_primary_key_id = primary_key_id, kr_keys = keys\<rparr>)"

section \<open>The cipher\<close>

record source_cipher =
  sc_keyring :: source_keyring
  sc_encrypt :: "nat list \<Rightarrow> nat list \<Rightarrow> nat list \<Rightarrow> nat list \<Rightarrow> nat list"
  sc_decrypt :: "nat list \<Rightarrow> nat list \<Rightarrow> nat list \<Rightarrow> nat list \<Rightarrow> nat list option"

text \<open>\<^verbatim>\<open>json.dumps(s, ensure_ascii=False)\<close> of text\<close>

definition point_escape :: "nat \<Rightarrow> codepoints" where
  "point_escape n =
     (if n = 34 \<or> n = 92 then [92, n]
      else if n = 10 then [92, 110] else if n = 13 then [92, 114] else if n = 9 then [92, 116]
      else if n = 12 then [92, 102] else if n = 8 then [92, 98]
      else if n < 32 then 92 # 117 # map code (hex_fixed 4 n) else [n])"

definition json_quoted :: "codepoints \<Rightarrow> codepoints" where
  "json_quoted s = 34 # concat (map point_escape s) @ [34]"

definition credentials_json :: "camera_source_credentials \<Rightarrow> codepoints" where
  "credentials_json cr =
     123 # json_quoted (map code ''password'') @ 58 # json_quoted (cs_password cr)
       @ 44 # json_quoted (map code ''username'') @ 58 # json_quoted (cs_username cr) @ [125]"

definition associated_data :: "uuid \<Rightarrow> codepoints \<Rightarrow> nat list option" where
  "associated_data camera_id key_id =
     (if list_all (\<lambda>n. n < 128) key_id
      then Some (map code (''rtsp-proxy-camera-source-v1:'' @ uuid_str camera_id @ '':'') @ key_id) else None)"

definition seal :: "source_cipher \<Rightarrow> uuid \<Rightarrow> camera_source_credentials \<Rightarrow> nat list \<Rightarrow> py_error + secret_envelope" where
  "seal c camera_id credentials nonce =
     (let key_id = kr_primary_key_id (sc_keyring c) in
      case text_encode (credentials_json credentials) of
        None \<Rightarrow> Inl (ValueError ''surrogates not allowed'')
      | Some plaintext \<Rightarrow>
         (case map_of (kr_keys (sc_keyring c)) key_id of
            None \<Rightarrow> Inl KeyError
          | Some key \<Rightarrow>
             (case associated_data camera_id key_id of
                None \<Rightarrow> Inl (ValueError ''ordinal not in range(128)'')
              | Some ad \<Rightarrow> new_envelope key_id (nonce @ sc_encrypt c key nonce plaintext ad))))"

definition read_credentials :: "nat list \<Rightarrow> camera_source_credentials option" where
  "read_credentials plaintext =
     (case json_loads plaintext of
        Some (JV_Obj payload) \<Rightarrow>
          if fst ` set payload \<noteq> {map code ''username'', map code ''password''} then None
          else (case (member_of ''username'' payload, member_of ''password'' payload) of
                  (Some (JV_Str username), Some (JV_Str password)) \<Rightarrow>
                    (let credentials = \<lparr>cs_username = username, cs_password = password\<rparr> in
                       if camera_source_credentials_post_init credentials \<noteq> None then None else Some credentials)
                | _ \<Rightarrow> None)
      | _ \<Rightarrow> None)"

definition open_secret :: "source_cipher \<Rightarrow> uuid \<Rightarrow> secret_envelope \<Rightarrow> py_error + camera_source_credentials" where
  "open_secret c camera_id envelope =
     (case map_of (kr_keys (sc_keyring c)) (se_key_id envelope) of
        None \<Rightarrow> Inl (ValueError ''camera_source_secret_key_unavailable'')
      | Some key \<Rightarrow>
         (case associated_data camera_id (se_key_id envelope) of
            None \<Rightarrow> Inl secret_invalid
          | Some ad \<Rightarrow>
             (case sc_decrypt c key (take 12 (se_ciphertext envelope)) (drop 12 (se_ciphertext envelope)) ad of
                None \<Rightarrow> Inl secret_invalid
              | Some plaintext \<Rightarrow>
                 (case read_credentials plaintext of None \<Rightarrow> Inl secret_invalid | Some cr \<Rightarrow> Inr cr))))"

section \<open>The key file\<close>

text \<open>\<^verbatim>\<open>json.loads\<close> of a \<^verbatim>\<open>str\<close>, which refuses a byte order mark, and \<^verbatim>\<open>b.decode("utf-8")\<close>\<close>

definition json_loads_text :: "codepoints \<Rightarrow> json_value option" where
  "json_loads_text cs =
     (if take 1 cs = [0xFEFF] then None
      else case parse_value (2 * length cs + 1) (skip_space cs) of
        Some (v, r) \<Rightarrow> if skip_space r = [] then Some v else None
      | None \<Rightarrow> None)"

definition decode_strict :: "nat list \<Rightarrow> codepoints option" where
  "decode_strict bs =
     (case utf8_decode bs of
        None \<Rightarrow> None
      | Some cs \<Rightarrow> if list_all is_encodable cs then Some cs else None)"

text \<open>
  \<^verbatim>\<open>base64.b64decode(encoded + padding, altchars=b"-_", validate=True)\<close>: the padding follows the number of characters, and
  text that is not ASCII is refused.
\<close>

definition source_key :: "json_value \<Rightarrow> nat list option" where
  "source_key value =
     (case value of
        JV_Str encoded \<Rightarrow>
          if list_all (\<lambda>n. n < 128) encoded then b64decode_strict (map b64_std (b64_pad (map char_of encoded))) else None
      | _ \<Rightarrow> None)"

definition source_keys :: "(nat list \<times> json_value) list \<Rightarrow> (codepoints \<times> nat list) list option" where
  "source_keys kvs = all_some (map (\<lambda>(k, value). map_option (\<lambda>key. (k, key)) (source_key value)) (dict_items kvs))"

definition parse_camera_source_keyring :: "codepoints \<Rightarrow> py_error + source_keyring" where
  "parse_camera_source_keyring value =
     (case json_loads_text value of
        Some (JV_Obj payload) \<Rightarrow>
          if fst ` set payload \<noteq> {map code ''primary_key_id'', map code ''keys''} then Inl keyring_invalid
          else (case (member_of ''primary_key_id'' payload, member_of ''keys'' payload) of
                  (Some (JV_Str primary_key_id), Some (JV_Obj encoded_keys)) \<Rightarrow>
                    (case source_keys encoded_keys of
                       None \<Rightarrow> Inl keyring_invalid
                     | Some keys \<Rightarrow> new_keyring primary_key_id keys)
                | _ \<Rightarrow> Inl keyring_invalid)
      | _ \<Rightarrow> Inl keyring_invalid)"

definition key_file_unsafe :: py_error where
  "key_file_unsafe = ValueError ''camera_source_key_file_unsafe''"

text \<open>The file is described as that of the pepper, whose checks it has to pass as well.\<close>

definition load_camera_source_cipher ::
  "(nat list \<Rightarrow> nat list \<Rightarrow> nat list \<Rightarrow> nat list \<Rightarrow> nat list)
   \<Rightarrow> (nat list \<Rightarrow> nat list \<Rightarrow> nat list \<Rightarrow> nat list \<Rightarrow> nat list option) \<Rightarrow> pepper_file \<Rightarrow> py_error + source_cipher" where
  "load_camera_source_cipher encrypt decrypt f =
     (case (pf_expected_gid f, pf_stat f, pf_raw f) of
        (Some gid, Some st, Some raw) \<Rightarrow>
          if \<not> file_stat_safe st gid then Inl key_file_unsafe
          else (case decode_strict raw of
            None \<Rightarrow> Inl key_file_unsafe
          | Some value \<Rightarrow>
             (case parse_camera_source_keyring value of
                Inl e \<Rightarrow> Inl key_file_unsafe
              | Inr keyring \<Rightarrow> Inr \<lparr>sc_keyring = keyring, sc_encrypt = encrypt, sc_decrypt = decrypt\<rparr>))
      | _ \<Rightarrow> Inl key_file_unsafe)"

text \<open>The key file that \<^verbatim>\<open>configure_camera_sources.sh\<close> prints for a fresh key.\<close>

definition bootstrap_key_file :: "nat list \<Rightarrow> nat list" where
  "bootstrap_key_file key =
     map code (emit (JObj [(''primary_key_id'', JStr ''initial''),
       (''keys'', JObj [(''initial'', JStr (rstrip_char CHR ''='' (urlsafe_b64encode key)))])])) @ [10]"

end
