(* ===== verification/Cipher_Properties.thy ===== *)
theory Cipher_Properties
  imports Secret_Cipher Credential_Roundtrip Json_Roundtrip Blast_Radius Callback_Properties
begin

text \<open>
  What is sealed for a camera is opened for that camera and no other one, also after the keys were rotated, and what can
  be sealed.
\<close>

section \<open>Text\<close>

lemma utf8_decode_point:
  assumes "is_encodable n"
  shows "utf8_decode (utf8_point n @ bs) = map_option ((#) n) (utf8_decode bs)"
proof -
  have parts: "n div 4096 * 64 + n div 64 mod 64 = n div 64" "n div 262144 * 64 + n div 4096 mod 64 = n div 4096"
    "n div 64 * 64 + n mod 64 = n"
    using div_mult_mod_eq [of "n div 64" 64] div_mult_mod_eq [of "n div 4096" 64] div_mult2_eq [of n 64 64, simplified]
      div_mult2_eq [of n 4096 64, simplified] by simp_all
  consider "n < 0x80" | "0x80 \<le> n" "n < 0x800" | "0x800 \<le> n" "n < 0x10000" | "0x10000 \<le> n" "n < 0x110000"
    using assms unfolding is_encodable_def by linarith
  then show ?thesis
  proof cases
    case 1
    then show ?thesis by (simp add: utf8_point_def)
  next
    case 2
    then have "2 \<le> n div 64" "n div 64 < 32" by auto
    with 2 parts show ?thesis by (simp add: utf8_point_def continuation_def)
  next
    case 3
    have join: "n div 4096 * 4096 + n div 64 mod 64 * 64 + n mod 64 = n" using parts by linarith
    have "n div 4096 < 16" using 3 by auto
    with 3 join show ?thesis by (simp add: utf8_point_def continuation_def Let_def)
  next
    case 4
    have join: "n div 262144 * 262144 + n div 4096 mod 64 * 4096 + n div 64 mod 64 * 64 + n mod 64 = n" using parts by linarith
    from 4 join show ?thesis by (simp add: utf8_point_def continuation_def Let_def)
  qed
qed

lemma utf8_decode_text: "text_encode s = Some bs \<Longrightarrow> utf8_decode bs = Some s"
proof -
  have "list_all is_encodable s \<Longrightarrow> utf8_decode (concat (map utf8_point s)) = Some s" for s
    by (induction s) (simp_all add: utf8_decode_point del: utf8_decode.simps(2))
  then show "text_encode s = Some bs \<Longrightarrow> utf8_decode bs = Some s" by (auto simp: text_encode_def split: if_splits)
qed

section \<open>The plain text\<close>

lemma parse_point_escape:
  "parse_string (Suc k) (point_escape n @ r) = map_option (apfst ((#) n)) (parse_string k r)"
  by (auto simp: point_escape_def simple_escape_def unicode_escape_low)

lemma parse_point_escapes: "length s < k \<Longrightarrow> parse_string k (concat (map point_escape s) @ 34 # r) = Some (s, r)"
proof (induction s arbitrary: k)
  case Nil
  then show ?case by (cases k) auto
next
  case (Cons c s)
  then obtain j where "k = Suc j" "length s < j" by (cases k) auto
  with Cons.IH [of j] show ?case by (simp add: parse_point_escape)
qed

lemma point_escapes_length: "length s \<le> length (concat (map point_escape s))"
proof (induction s)
  case (Cons n s)
  have "1 \<le> length (point_escape n)" by (simp add: point_escape_def)
  with Cons show ?case by simp
qed simp

lemma parse_quoted:
  assumes "length (concat (map point_escape s)) < k"
  shows "parse_string k (concat (map point_escape s) @ 34 # r) = Some (s, r)"
  using parse_point_escapes [of s k r] point_escapes_length [of s] assms by simp

lemma skip_plain: "\<not> is_json_space c \<Longrightarrow> skip_space (c # r) = c # r"
  by (simp add: skip_space_def)

lemma parse_quoted_value: "parse_value (Suc k) (json_quoted s @ r) = Some (JV_Str s, r)"
  by (simp add: json_quoted_def parse_quoted)

lemma parse_quoted_members:
  "parse_members (Suc (Suc k)) (json_quoted key @ 58 # json_quoted s @ 125 # r) = Some ([(key, JV_Str s)], r)"
  "parse_members (Suc (Suc k)) (json_quoted key @ 58 # json_quoted s @ 44 # 34 # r) =
     map_option (apfst ((#) (key, JV_Str s))) (parse_members (Suc k) (34 # r))"
proof -
  have start: "json_quoted key @ x = 34 # concat (map point_escape key) @ 34 # x" for x by (simp add: json_quoted_def)
  have skip: "skip_space (json_quoted s @ x) = json_quoted s @ x" for x
    by (simp add: json_quoted_def skip_plain is_json_space_def)
  note facts = expect_def parse_quoted skip_plain is_json_space_def skip parse_quoted_value
  show "parse_members (Suc (Suc k)) (json_quoted key @ 58 # json_quoted s @ 125 # r) = Some ([(key, JV_Str s)], r)"
    by (subst start, subst parse_members.simps(2)) (simp add: facts del: parse_value.simps)
  show "parse_members (Suc (Suc k)) (json_quoted key @ 58 # json_quoted s @ 44 # 34 # r) =
     map_option (apfst ((#) (key, JV_Str s))) (parse_members (Suc k) (34 # r))"
    by (subst start, subst parse_members.simps(2)) (simp add: facts del: parse_value.simps parse_members.simps)
qed

lemma json_text_utf8: "0 < a \<Longrightarrow> a < 128 \<Longrightarrow> 0 < b \<Longrightarrow> json_text (a # b # r) = utf8_decode (a # b # r)"
  by (simp add: json_text_def take_Cons' del: utf8_decode.simps)

lemma credentials_json_bytes:
  assumes "text_encode (credentials_json cr) = Some bs"
  shows "json_text bs = Some (credentials_json cr)"
proof -
  have enc: "list_all is_encodable (credentials_json cr)" and bs: "bs = concat (map utf8_point (credentials_json cr))"
    using assms by (simp_all add: text_encode_def split: if_splits)
  have "\<exists>r. credentials_json cr = 123 # 34 # 112 # 97 # r" by (simp add: credentials_json_def json_quoted_def point_escape_def code_def)
  then have "\<exists>r. bs = 123 # 34 # 112 # 97 # r" unfolding bs by (auto simp: utf8_point_def)
  then have "json_text bs = utf8_decode bs" by (auto simp: json_text_utf8 simp del: utf8_decode.simps)
  then show ?thesis using utf8_decode_text [OF assms] by simp
qed

lemma loads_credentials:
  assumes "text_encode (credentials_json cr) = Some bs"
  shows "json_loads bs = Some (JV_Obj [(map code ''password'', JV_Str (cs_password cr)), (map code ''username'', JV_Str (cs_username cr))])"
proof -
  have shape: "credentials_json cr = 123 # json_quoted (map code ''password'') @ 58 # json_quoted (cs_password cr)
      @ 44 # 34 # tl (json_quoted (map code ''username'')) @ 58 # json_quoted (cs_username cr) @ [125]"
    by (simp add: credentials_json_def json_quoted_def)
  have start: "34 # tl (json_quoted key) @ r = json_quoted key @ r" for key r by (simp add: json_quoted_def)
  let ?k = "2 * length (credentials_json cr) - 4"
  have "4 \<le> length (credentials_json cr)" by (simp add: credentials_json_def json_quoted_def)
  then have k: "2 * length (credentials_json cr) + 1 = Suc (Suc (Suc (Suc (Suc ?k))))" by simp
  have "parse_members (Suc (Suc (Suc (Suc ?k)))) (tl (credentials_json cr)) =
      Some ([(map code ''password'', JV_Str (cs_password cr)), (map code ''username'', JV_Str (cs_username cr))], [])"
    unfolding shape list.sel parse_quoted_members(2) by (simp add: start parse_quoted_members(1) del: parse_members.simps)
  moreover have "parse_value (Suc j) (credentials_json cr) = map_option (apfst JV_Obj) (parse_members j (tl (credentials_json cr)))" for j
    by (simp add: credentials_json_def json_quoted_def skip_plain is_json_space_def expect_def del: parse_members.simps)
  ultimately have "parse_value (2 * length (credentials_json cr) + 1) (credentials_json cr) =
      Some (JV_Obj [(map code ''password'', JV_Str (cs_password cr)), (map code ''username'', JV_Str (cs_username cr))], [])"
    unfolding k by simp
  moreover have "skip_space (credentials_json cr) = credentials_json cr"
    by (simp add: credentials_json_def skip_plain is_json_space_def)
  ultimately show ?thesis using credentials_json_bytes [OF assms] by (simp add: json_loads_def skip_space_def [of "[]"])
qed

lemma read_written:
  assumes "text_encode (credentials_json cr) = Some bs" and "camera_source_credentials_post_init cr = None"
  shows "read_credentials bs = Some cr"
proof -
  have "map code ''username'' \<noteq> map code ''password''" by (simp add: code_def)
  then show ?thesis
    using assms(2) by (cases cr) (simp add: read_credentials_def loads_credentials [OF assms(1)] member_of_def insert_commute Let_def del: list.map not_None_eq)
qed

section \<open>How long it is\<close>

definition escaped :: "codepoints \<Rightarrow> nat list" where
  "escaped s = concat (map utf8_point (concat (map point_escape s)))"

lemma hex_fixed_ascii: "list_all (\<lambda>n. n < 128) (map code (hex_fixed k n))"
  using hex_fixed_plain [of k n] by (auto simp: plain_ascii_def list_all_iff)

lemma point_escape_ascii: "point_escape n = [n] \<or> list_all (\<lambda>m. m < 128) (point_escape n)"
  using hex_fixed_ascii [of 4 n] by (simp add: point_escape_def)

lemma escapes_encodable:
  assumes "list_all is_encodable s"
  shows "list_all is_encodable (concat (map point_escape s))"
proof -
  have "list_all is_encodable (point_escape n)" if "is_encodable n" for n
    using point_escape_ascii [of n] that by (auto simp: list_all_iff is_encodable_def)
  then show ?thesis using assms by (induction s) simp_all
qed

lemma credentials_json_encode:
  assumes "list_all is_encodable (cs_username cr)" and "list_all is_encodable (cs_password cr)"
  obtains bs where "text_encode (credentials_json cr) = Some bs"
    "length bs = 29 + length (escaped (cs_password cr)) + length (escaped (cs_username cr))"
proof -
  let ?bs = "concat (map utf8_point (credentials_json cr))"
  have "list_all is_encodable (credentials_json cr)"
    using escapes_encodable [OF assms(1)] escapes_encodable [OF assms(2)]
    by (simp add: credentials_json_def json_quoted_def point_escape_def is_encodable_def code_def)
  then have "text_encode (credentials_json cr) = Some ?bs" by (simp add: text_encode_def)
  moreover have "length ?bs = 29 + length (escaped (cs_password cr)) + length (escaped (cs_username cr))"
    by (simp add: credentials_json_def json_quoted_def point_escape_def utf8_point_def code_def escaped_def)
  ultimately show ?thesis by (rule that)
qed

lemma escaped_visible:
  assumes "list_all (\<lambda>n. 32 \<le> n) s" and "text_encode s = Some b"
  shows "length (escaped s) \<le> 2 * length b"
proof -
  have "length (escaped [n]) \<le> 2 * length (utf8_point n)" if "32 \<le> n" for n
    using that by (auto simp: escaped_def point_escape_def utf8_point_def)
  moreover have "escaped (n # s) = escaped [n] @ escaped s" for n s by (simp add: escaped_def)
  ultimately have "length (escaped s) \<le> 2 * length (concat (map utf8_point s))"
    using assms(1) by (induction s) (fastforce simp: escaped_def)+
  then show ?thesis using assms(2) by (auto simp: text_encode_def split: if_splits)
qed

text \<open>The control characters that JSON writes with six characters.\<close>

definition long_escape :: "nat \<Rightarrow> bool" where
  "long_escape n \<longleftrightarrow> n < 32 \<and> n \<notin> {8, 9, 10, 12, 13}"

lemma escaped_long: "6 * length (filter long_escape s) \<le> length (escaped s)"
proof (induction s)
  case (Cons n s)
  have "length (concat (map utf8_point xs)) = length xs" if "list_all (\<lambda>m. m < 128) xs" for xs
    using that by (induction xs) (auto simp: utf8_point_def)
  from this [OF hex_fixed_ascii [of 4 n]] have "6 \<le> length (escaped [n])" if "long_escape n"
    using that by (auto simp: long_escape_def escaped_def point_escape_def utf8_point_def)
  moreover have "escaped (n # s) = escaped [n] @ escaped s" by (simp add: escaped_def)
  ultimately show ?case using Cons by auto
qed (simp add: escaped_def)

section \<open>The key file\<close>

lemma encode_pad: "urlsafe_b64encode bs = b64_body bs @ replicate (b64_missing bs) CHR ''=''"
  by (induction bs rule: urlsafe_b64encode.induct) (simp_all add: numeral_2_eq_2)

lemma pad_encode: "octets bs \<Longrightarrow> b64_pad (rstrip_char CHR ''='' (urlsafe_b64encode bs)) = urlsafe_b64encode bs"
  unfolding b64_pad_def by (simp only: rstrip_encode pad_body encode_pad [symmetric])

lemma source_key_encode:
  assumes "octets key"
  shows "source_key (JV_Str (map code (rstrip_char CHR ''='' (urlsafe_b64encode key)))) = Some key"
proof -
  have "list_all (\<lambda>n. n < 128) (map code (rstrip_char CHR ''='' (urlsafe_b64encode key)))"
    using b64_body_chars [OF assms] b64_char_props(4) by (fastforce simp: list_all_iff rstrip_encode [OF assms])
  moreover have "map char_of (map code s) = s" for s by (induction s) (simp_all add: code_def)
  ultimately show ?thesis
    using decode_strict_encode [OF assms] by (simp add: source_key_def pad_encode [OF assms] b64encode_def)
qed

lemma source_keys_single: "source_key v = Some key \<Longrightarrow> source_keys [(k, v)] = Some [(k, key)]"
  by (simp add: source_keys_def dict_items_def)

lemma new_keyring_single:
  "key_id_valid k \<Longrightarrow> length key = 32 \<Longrightarrow> new_keyring k [(k, key)] = Inr \<lparr>kr_primary_key_id = k, kr_keys = [(k, key)]\<rparr>"
  by (simp add: new_keyring_def)

lemma loads_text_members:
  assumes "kvs \<noteq> []" and "skip_space r = []"
  shows "json_loads_text (map code (emit (JObj kvs)) @ r) = Some (value_of (JObj kvs))"
proof -
  let ?s = "map code (emit (JObj kvs)) @ r"
  have s: "?s = 123 # map code (emit_members kvs) @ r" using assms(1) by simp
  have "parse_members (2 * length ?s) (map code (emit_members kvs) @ r) =
      Some (map (\<lambda>kv. (map code (fst kv), value_of (snd kv))) kvs, r)"
    by (rule parse_emit(3)) (use assms(1) in simp_all)
  then have "parse_value (2 * length ?s + 1) ?s = Some (value_of (JObj kvs), r)"
    using token_startD [OF emit_members_start [OF assms(1), of r]] unfolding s by simp
  moreover have "skip_space ?s = ?s" unfolding s by (simp add: skip_plain is_json_space_def)
  moreover have "take 1 ?s \<noteq> [0xFEFF]" unfolding s by simp
  ultimately show ?thesis using assms(2) by (simp add: json_loads_text_def)
qed

lemma load_bootstrap:
  assumes "octets key" and "length key = 32" and "pf_expected_gid f = Some gid" and "pf_raw f = Some (bootstrap_key_file key)"
    and "pf_stat f = Some st" and "file_stat_safe st gid"
  shows "load_camera_source_cipher encrypt decrypt f =
    Inr \<lparr>sc_keyring = \<lparr>kr_primary_key_id = map code ''initial'', kr_keys = [(map code ''initial'', key)]\<rparr>,
         sc_encrypt = encrypt, sc_decrypt = decrypt\<rparr>"
proof -
  let ?o = "[(''primary_key_id'', JStr ''initial''),
       (''keys'', JObj [(''initial'', JStr (rstrip_char CHR ''='' (urlsafe_b64encode key)))])]"
  let ?raw = "bootstrap_key_file key"
  have ascii: "list_all (\<lambda>b. b < 128) ?raw"
    using emit_plain(1) [of "JObj ?o"] by (auto simp: bootstrap_key_file_def plain_ascii_def list_all_iff simp del: emit.simps)
  then have "decode_strict ?raw = Some ?raw"
    by (auto simp: decode_strict_def utf8_decode_ascii list_all_iff is_encodable_def)
  moreover have "value_of (JObj ?o) = JV_Obj [(map code ''primary_key_id'', JV_Str (map code ''initial'')),
      (map code ''keys'', JV_Obj [(map code ''initial'', JV_Str (map code (rstrip_char CHR ''='' (urlsafe_b64encode key))))])]" by simp
  moreover have "json_loads_text ?raw = Some (value_of (JObj ?o))"
    unfolding bootstrap_key_file_def by (rule loads_text_members) (simp_all add: skip_space_def is_json_space_def)
  moreover have "map code ''primary_key_id'' \<noteq> map code ''keys''" "map code ''keys'' \<noteq> map code ''primary_key_id''" by simp_all
  moreover have "key_id_valid (map code ''initial'')" by (simp add: key_id_valid_def is_alnum_def code_def)
  ultimately show ?thesis
    using assms source_keys_single [OF source_key_encode [OF assms(1)]] new_keyring_single
    by (simp add: load_camera_source_cipher_def parse_camera_source_keyring_def member_of_def insert_commute del: list.map(2) value_of.simps)
qed

text \<open>The key file that the set-up tool writes for a fresh key of 32 bytes is loaded as the key ring of that one key.\<close>

theorem bootstrap_loads:
  assumes "octets key" and "length key = 32" and "pf_expected_gid f = Some gid" and "pf_raw f = Some (bootstrap_key_file key)"
    and "pf_stat f = Some st" and "file_stat_safe st gid"
  shows "load_camera_source_cipher encrypt decrypt f =
    Inr \<lparr>sc_keyring = \<lparr>kr_primary_key_id = map code ''initial'', kr_keys = [(map code ''initial'', key)]\<rparr>,
         sc_encrypt = encrypt, sc_decrypt = decrypt\<rparr>"
  using assms by (rule load_bootstrap)

section \<open>Sealing and opening\<close>

lemma seal_InrE:
  assumes "seal c camera_id cr nonce = Inr env"
  obtains bs key ad where "text_encode (credentials_json cr) = Some bs"
    "map_of (kr_keys (sc_keyring c)) (kr_primary_key_id (sc_keyring c)) = Some key"
    "associated_data camera_id (kr_primary_key_id (sc_keyring c)) = Some ad"
    "env = \<lparr>se_key_id = kr_primary_key_id (sc_keyring c), se_ciphertext = nonce @ sc_encrypt c key nonce bs ad\<rparr>"
  using assms by (auto simp: seal_def new_envelope_def Let_def split: option.splits if_splits)

lemma open_InrE:
  assumes "open_secret c camera_id env = Inr cr"
  obtains key ad bs where "map_of (kr_keys (sc_keyring c)) (se_key_id env) = Some key"
    "associated_data camera_id (se_key_id env) = Some ad"
    "sc_decrypt c key (take 12 (se_ciphertext env)) (drop 12 (se_ciphertext env)) ad = Some bs" "read_credentials bs = Some cr"
  using assms by (auto simp: open_secret_def split: option.splits)

lemma associated_data_inj:
  assumes "associated_data i k = Some ad" and "associated_data j k = Some ad"
  shows "i = j"
  using assms by (auto simp: associated_data_def map_code_inj uuid_str_inj split: if_splits)

lemma key_id_ascii: "key_id_valid s \<Longrightarrow> list_all (\<lambda>n. n < 128) s"
  by (cases s) (auto simp: key_id_valid_def is_alnum_def list_all_iff)

lemma load_InrE:
  assumes "load_camera_source_cipher encrypt decrypt f = Inr c"
  obtains key where "sc_encrypt c = encrypt" "sc_decrypt c = decrypt" "key_id_valid (kr_primary_key_id (sc_keyring c))"
    "map_of (kr_keys (sc_keyring c)) (kr_primary_key_id (sc_keyring c)) = Some key"
proof -
  have "key_id_valid (kr_primary_key_id k) \<and> (\<exists>key. map_of (kr_keys k) (kr_primary_key_id k) = Some key)"
    if "new_keyring p ks = Inr k" for p ks k using that by (auto simp: new_keyring_def split: if_splits)
  then have ok: "key_id_valid (kr_primary_key_id k) \<and> (\<exists>key. map_of (kr_keys k) (kr_primary_key_id k) = Some key)"
    if "parse_camera_source_keyring t = Inr k" for t k
    using that by (auto simp: parse_camera_source_keyring_def split: option.splits json_value.splits if_splits)
  show ?thesis
    using assms that by (auto simp: load_camera_source_cipher_def dest!: ok split: option.splits sum.splits if_splits)
qed

lemma credentials_encodable:
  assumes "camera_source_credentials_post_init cr = None"
  obtains u p where "text_encode (cs_username cr) = Some u" "text_encode (cs_password cr) = Some p" "length u \<le> 64" "length p \<le> 256"
    "list_all is_encodable (cs_username cr)" "list_all is_encodable (cs_password cr)"
  using assms
  by (auto simp: camera_source_credentials_post_init_def probe_credential_component_valid_def text_encode_def split: if_splits)

text \<open>What a loaded cipher makes of valid credentials depends on their length in JSON alone.\<close>

lemma seal_loaded:
  assumes load: "load_camera_source_cipher encrypt decrypt f = Inr c" and "camera_source_credentials_post_init cr = None"
    and nonce: "length nonce = 12" and len: "\<And>k n p a. length (encrypt k n p a) = length p + 16"
  shows "if length (escaped (cs_password cr)) + length (escaped (cs_username cr)) \<le> 967
    then \<exists>env. seal c camera_id cr nonce = Inr env else seal c camera_id cr nonce = Inl secret_invalid"
proof -
  obtain key where c: "sc_encrypt c = encrypt" "key_id_valid (kr_primary_key_id (sc_keyring c))"
    "map_of (kr_keys (sc_keyring c)) (kr_primary_key_id (sc_keyring c)) = Some key"
    using load_InrE [OF load] by blast
  obtain bs where bs: "text_encode (credentials_json cr) = Some bs"
    "length bs = 29 + length (escaped (cs_password cr)) + length (escaped (cs_username cr))"
    using credentials_encodable [OF assms(2)] credentials_json_encode [of cr] by metis
  show ?thesis
    using key_id_ascii [OF c(2)] c bs nonce by (simp add: seal_def new_envelope_def associated_data_def len Let_def)
qed

lemma open_sealed:
  assumes sealed: "seal c camera_id cr nonce = Inr env" and valid: "camera_source_credentials_post_init cr = None"
    and kept: "map_of (kr_keys (sc_keyring c')) (kr_primary_key_id (sc_keyring c)) =
      map_of (kr_keys (sc_keyring c)) (kr_primary_key_id (sc_keyring c))"
    and nonce: "length nonce = 12" and inverse: "\<And>k n p a. sc_decrypt c' k n (sc_encrypt c k n p a) a = Some p"
  shows "open_secret c' camera_id env = Inr cr"
  by (rule seal_InrE [OF sealed]) (use kept nonce in \<open>simp add: open_secret_def inverse read_written [OF _ valid]\<close>)

text \<open>C30. A cipher that was loaded from its file seals all valid credentials without control characters, and what it sealed
  for a camera is opened for that camera to the same credentials, by itself and by every cipher that was loaded later and
  still holds the key. The encryption adds 16 bytes and is undone by the decryption.\<close>

theorem sealed_opens:
  assumes load: "load_camera_source_cipher encrypt decrypt f = Inr c" "load_camera_source_cipher encrypt decrypt f' = Inr c'"
    and kept: "map_of (kr_keys (sc_keyring c')) (kr_primary_key_id (sc_keyring c)) =
      map_of (kr_keys (sc_keyring c)) (kr_primary_key_id (sc_keyring c))"
    and valid: "camera_source_credentials_post_init cr = None"
    and visible: "list_all (\<lambda>n. 32 \<le> n) (cs_username cr @ cs_password cr)"
    and nonce: "length nonce = 12" and len: "\<And>k n p a. length (encrypt k n p a) = length p + 16"
    and inverse: "\<And>k n p a. decrypt k n (encrypt k n p a) a = Some p"
  shows "\<exists>env. seal c camera_id cr nonce = Inr env \<and> open_secret c' camera_id env = Inr cr"
proof -
  obtain u p where "text_encode (cs_username cr) = Some u" "text_encode (cs_password cr) = Some p" "length u \<le> 64" "length p \<le> 256"
    using credentials_encodable [OF valid] by metis
  then have "length (escaped (cs_password cr)) + length (escaped (cs_username cr)) \<le> 967"
    using escaped_visible [of "cs_username cr" u] escaped_visible [of "cs_password cr" p] visible by simp
  then obtain env where env: "seal c camera_id cr nonce = Inr env"
    using seal_loaded [OF load(1) valid nonce len, of camera_id] by auto
  have "sc_encrypt c = encrypt" "sc_decrypt c' = decrypt" using load_InrE [OF load(1)] load_InrE [OF load(2)] by metis+
  then have "open_secret c' camera_id env = Inr cr" by (intro open_sealed [OF env valid kept nonce]) (simp add: inverse)
  with env show ?thesis by blast
qed

text \<open>C31. What was sealed for a camera is opened for no other camera, with no other key and to no other credentials, provided that
  the tag of the encryption binds the key, the text and the associated data.\<close>

theorem sealed_bound:
  assumes sealed: "seal c camera_id cr nonce = Inr env" and opened: "open_secret c' camera_id' env = Inr cr'"
    and valid: "camera_source_credentials_post_init cr = None" and nonce: "length nonce = 12"
    and tag: "\<And>k k' n p p' a a'. sc_decrypt c' k' n (sc_encrypt c k n p a) a' = Some p' \<Longrightarrow> k' = k \<and> p' = p \<and> a' = a"
  shows "camera_id' = camera_id \<and> cr' = cr \<and> map_of (kr_keys (sc_keyring c')) (se_key_id env) =
    map_of (kr_keys (sc_keyring c)) (kr_primary_key_id (sc_keyring c))"
proof -
  obtain bs key ad where s: "text_encode (credentials_json cr) = Some bs"
    "map_of (kr_keys (sc_keyring c)) (kr_primary_key_id (sc_keyring c)) = Some key"
    "associated_data camera_id (kr_primary_key_id (sc_keyring c)) = Some ad"
    "env = \<lparr>se_key_id = kr_primary_key_id (sc_keyring c), se_ciphertext = nonce @ sc_encrypt c key nonce bs ad\<rparr>"
    by (rule seal_InrE [OF sealed])
  obtain key' ad' bs' where o: "map_of (kr_keys (sc_keyring c')) (se_key_id env) = Some key'"
    "associated_data camera_id' (se_key_id env) = Some ad'"
    "sc_decrypt c' key' (take 12 (se_ciphertext env)) (drop 12 (se_ciphertext env)) ad' = Some bs'" "read_credentials bs' = Some cr'"
    by (rule open_InrE [OF opened])
  have "sc_decrypt c' key' nonce (sc_encrypt c key nonce bs ad) ad' = Some bs'" using o(3) nonce by (simp add: s(4))
  then have same: "key' = key" "bs' = bs" "ad' = ad" using tag by blast+
  then show ?thesis
    using s o read_written [OF s(1) valid] associated_data_inj [of camera_id' "se_key_id env" ad camera_id] by simp
qed

text \<open>C32. Credentials with many control characters pass their validation, but no cipher can seal them: their text in JSON
  exceeds the size of an envelope.\<close>

theorem control_characters_refused:
  assumes "load_camera_source_cipher encrypt decrypt f = Inr c" and "camera_source_credentials_post_init cr = None"
    and "length nonce = 12" and "\<And>k n p a. length (encrypt k n p a) = length p + 16"
    and many: "162 \<le> length (filter long_escape (cs_password cr))"
  shows "seal c camera_id cr nonce = Inl secret_invalid"
  using seal_loaded [OF assms(1-4), of camera_id] escaped_long [of "cs_password cr"] many by (auto split: if_splits)

section \<open>Examples\<close>

definition example_key_file :: pepper_file where
  "example_key_file =
     \<lparr>pf_expected_gid = Some 7, pf_stat = Some \<lparr>fs_is_regular = True, fs_nlink = 1, fs_uid = 0, fs_gid = 7, fs_mode = 416, fs_size = 90\<rparr>,
      pf_raw = Some (bootstrap_key_file [0..<32])\<rparr>"

definition example_cipher ::
  "(nat list \<Rightarrow> nat list \<Rightarrow> nat list \<Rightarrow> nat list \<Rightarrow> nat list) \<Rightarrow> (nat list \<Rightarrow> nat list \<Rightarrow> nat list \<Rightarrow> nat list \<Rightarrow> nat list option)
   \<Rightarrow> source_cipher" where
  "example_cipher encrypt decrypt =
     \<lparr>sc_keyring = \<lparr>kr_primary_key_id = map code ''initial'', kr_keys = [(map code ''initial'', [0..<32])]\<rparr>,
      sc_encrypt = encrypt, sc_decrypt = decrypt\<rparr>"

lemma example_loads: "load_camera_source_cipher encrypt decrypt example_key_file = Inr (example_cipher encrypt decrypt)"
  unfolding example_cipher_def
  by (rule load_bootstrap [of "[0..<32]" _ 7 "the (pf_stat example_key_file)"])
    (simp_all add: example_key_file_def file_stat_safe_def octets_def list_all_iff)

definition example_credentials :: camera_source_credentials where
  "example_credentials = \<lparr>cs_username = [97, 34], cs_password = [0x20AC, 92]\<rparr>"

text \<open>An encryption that leaves the text readable, and one whose text starts with everything it binds.\<close>

definition padded_encrypt :: "nat list \<Rightarrow> nat list \<Rightarrow> nat list \<Rightarrow> nat list \<Rightarrow> nat list" where
  "padded_encrypt key nonce plaintext ad = plaintext @ replicate 16 0"

definition padded_decrypt :: "nat list \<Rightarrow> nat list \<Rightarrow> nat list \<Rightarrow> nat list \<Rightarrow> nat list option" where
  "padded_decrypt key nonce bs ad = Some (take (length bs - 16) bs)"

definition bound_encrypt :: "nat list \<Rightarrow> nat list \<Rightarrow> nat list \<Rightarrow> nat list \<Rightarrow> nat list" where
  "bound_encrypt key nonce plaintext ad = length key # length ad # key @ ad @ plaintext"

definition bound_decrypt :: "nat list \<Rightarrow> nat list \<Rightarrow> nat list \<Rightarrow> nat list \<Rightarrow> nat list option" where
  "bound_decrypt key nonce bs ad =
     (let n = 2 + length key + length ad in
      if take n bs = length key # length ad # key @ ad then Some (drop n bs) else None)"

lemma bound_tag: "bound_decrypt k' n (bound_encrypt k n p a) a' = Some p' \<Longrightarrow> k' = k \<and> p' = p \<and> a' = a"
  by (auto simp: bound_decrypt_def bound_encrypt_def Let_def split: if_splits)

lemma example_valid: "camera_source_credentials_post_init example_credentials = None"
  by (simp add: camera_source_credentials_post_init_def example_credentials_def probe_credential_component_valid_def text_encode_def
    is_encodable_def utf8_point_def)

theorem bootstrap_loads_witness:
  "load_camera_source_cipher padded_encrypt padded_decrypt example_key_file = Inr (example_cipher padded_encrypt padded_decrypt)"
  unfolding example_cipher_def
  by (rule bootstrap_loads [of "[0..<32]" _ 7 "the (pf_stat example_key_file)"])
    (simp_all add: example_key_file_def file_stat_safe_def octets_def list_all_iff)

theorem sealed_opens_witness:
  "\<exists>env. seal (example_cipher padded_encrypt padded_decrypt) 5 example_credentials (replicate 12 0) = Inr env
    \<and> open_secret (example_cipher padded_encrypt padded_decrypt) 5 env = Inr example_credentials"
  by (rule sealed_opens [OF example_loads example_loads refl example_valid])
    (simp_all add: example_credentials_def padded_encrypt_def padded_decrypt_def)

theorem sealed_bound_witness:
  "\<exists>env. seal (example_cipher bound_encrypt bound_decrypt) 5 example_credentials (replicate 12 0) = Inr env
    \<and> (\<forall>camera_id. (\<exists>cr. open_secret (example_cipher bound_encrypt bound_decrypt) camera_id env = Inr cr) \<longleftrightarrow> camera_id = 5)"
proof -
  let ?c = "example_cipher bound_encrypt bound_decrypt"
  have tag: "sc_decrypt ?c k' n (sc_encrypt ?c k n p a) a' = Some p' \<Longrightarrow> k' = k \<and> p' = p \<and> a' = a" for k k' n p p' a a'
    using bound_tag by (simp add: example_cipher_def)
  have "\<exists>env. seal ?c 5 example_credentials (replicate 12 0) = Inr env"
    by (simp add: seal_def example_cipher_def example_credentials_def credentials_json_def json_quoted_def point_escape_def text_encode_def
      is_encodable_def utf8_point_def associated_data_def new_envelope_def key_id_valid_def is_alnum_def bound_encrypt_def code_def
      uuid_str_def Let_def)
  then obtain env where env: "seal ?c 5 example_credentials (replicate 12 0) = Inr env" by blast
  have "open_secret ?c 5 env = Inr example_credentials"
    by (rule open_sealed [OF env example_valid]) (simp_all add: example_cipher_def bound_encrypt_def bound_decrypt_def Let_def)
  with env sealed_bound [OF env _ example_valid _ tag] show ?thesis by fastforce
qed

theorem control_characters_refused_witness:
  "seal (example_cipher padded_encrypt padded_decrypt) 5 \<lparr>cs_username = [97], cs_password = replicate 256 1\<rparr> (replicate 12 0) =
     Inl secret_invalid"
  by (rule control_characters_refused [OF example_loads])
    (simp_all add: camera_source_credentials_post_init_def probe_credential_component_valid_def text_encode_def
      is_encodable_def utf8_point_def list_all_iff padded_encrypt_def long_escape_def map_replicate_const)

end
