(* ===== verification/Spec2Isabelle.thy ===== *)
theory Spec2Isabelle
  imports Store_Properties Move_Properties Control_Properties Camera_Properties Registration_Properties Blast_Radius
    Reconcile_Properties Mutation_Properties Store_Typing Confirmed_Disruption
    Authorizer_Properties Callback_Properties Telemetry_Properties Admitted_Cameras Input_Properties
    Cipher_Properties
begin

text \<open>
  A verification of the control plane of the RTSP proxy (\<^verbatim>\<open>src/src/rtsp_proxy\<close>).

  \<^bold>\<open>The program.\<close> The proxy publishes the streams of registered cameras on a fleet of media nodes.
  Each node is a MediaMTX process with an external RTSP port of its own and two local management
  ports; each camera is placed on one node and is reached under a random public id on the port of
  that node. \<^verbatim>\<open>nodes.py\<close> holds the state of the fleet (\<^verbatim>\<open>InMemoryNodeStore\<close>: nodes, cameras, camera
  moves, port changes, idempotency tables, allowed networks) and the two controls that operators
  and other services call: \<^verbatim>\<open>NodeControl\<close> registers, starts, stops, reconfigures, renumbers and
  deletes nodes by driving a runtime; \<^verbatim>\<open>CameraControl\<close> registers, edits and lists cameras and asks
  \<^verbatim>\<open>NodeControl\<close> for capacity when no node can take a camera. A change of port and a camera move are
  sagas: several store commands with external work between them, each of which may fail.
  \<^verbatim>\<open>reconcile.py\<close> brings the media nodes to what the store asks for: \<^verbatim>\<open>CameraReconciler\<close> writes and
  reads back the path of every camera of a node, \<^verbatim>\<open>CameraMoveReconciler\<close> resumes a camera move from the
  phase the store records, \<^verbatim>\<open>ReconcileCoordinator\<close> runs both over the fleet. It also holds the controls for
  operations that cut off a reader, \<^verbatim>\<open>CameraMoveControl\<close> and \<^verbatim>\<open>CameraMutationControl\<close>, and the service
  whose signed tokens confirm such an operation, \<^verbatim>\<open>ConfirmationTokenService\<close>, which \<^verbatim>\<open>runtime.py\<close> also
  hands to \<^verbatim>\<open>NodeControl\<close>.
  \<^verbatim>\<open>camera_secrets.py\<close> puts the credentials of a camera into its source URL, splits them off
  again and encrypts them under a ring of keys for the database; \<^verbatim>\<open>identifiers.py\<close> makes and checks public ids.
  \<^verbatim>\<open>access.py\<close> decides who may read a camera: a media node asks \<^verbatim>\<open>AccessAuthorizer\<close> for every reader, which
  checks the rates of \<^verbatim>\<open>AccessAttemptLimiter\<close>, the networks of the \<^verbatim>\<open>AccessPolicy\<close> of the camera and a grant whose
  secret \<^verbatim>\<open>PepperVerifier\<close> keeps as an HMAC; \<^verbatim>\<open>AccessGrantControl\<close> and \<^verbatim>\<open>AccessPolicyControl\<close> issue, rotate and
  revoke grants and change policies.
  \<^verbatim>\<open>probe_security.py\<close> decides which destination a camera source may have: \<^verbatim>\<open>ProbeEndpointAdmission\<close> resolves the host of
  a source once, refuses special addresses and those outside the networks of the site, and gives \<^verbatim>\<open>CameraControl\<close> an
  identity that it stores with the camera. \<^verbatim>\<open>probe_executor.py\<close> writes the input of an isolated probe for an admitted
  endpoint, and reads it on the other side of the boundary.

  \<^bold>\<open>How the code is modelled.\<close> Dataclasses are records and enums are datatypes. A \<^verbatim>\<open>UUID\<close> is a 128-bit
  word, a Python \<^verbatim>\<open>int\<close> an \<^typ>\<open>int\<close>, a \<^verbatim>\<open>datetime\<close> an integer number of microseconds, a \<^verbatim>\<open>str\<close> a list of
  characters below 256 (credentials, which may be any text, are lists of code points). A raised
  exception is a value of \<^verbatim>\<open>py_error\<close>, with the class and the message of the source, and a fallible
  operation returns \<^verbatim>\<open>py_error + 'a\<close>. A store command maps a store to a result and the new store; if
  it raises, the store is unchanged, because every command of the class checks before it writes and
  holds the lock while it does. The controls are actions over a world of the store, the free slots
  of the disruption semaphore and an arbitrary outside state; \<^verbatim>\<open>try\<close>, \<^verbatim>\<open>with\<close>, \<^verbatim>\<open>suppress\<close> and context
  managers are combinators of \<^verbatim>\<open>Control_Monad\<close>. Everything the controls are constructed with (the
  runtime, the observer, the confirmation service, clocks, sleep, port probes, id factories, SHA-256,
  the endpoint admission) is a field of a record, an arbitrary function on the outside state. The runtime, the
  observer, the confirmation service, the stores behind the authorizer and the admission may return or raise
  anything; the clocks, sleep, the port probes, the choice of a port and the id factories return anything, but they
  return. A \<^verbatim>\<open>float\<close> of the rate limiter is the rational number it denotes, and every
  operation rounds its exact result with a parameter.

  \<^bold>\<open>Theories.\<close>
  \<^item> \<^verbatim>\<open>Prelude\<close>, \<^verbatim>\<open>Py_Text\<close>: keyed lists, Python text, digits, UTF-8; \<^verbatim>\<open>Ip_Address\<close>, \<^verbatim>\<open>Url\<close>: the parsers
    of \<^verbatim>\<open>ipaddress\<close> and \<^verbatim>\<open>urllib.parse\<close> that the code relies on.
  \<^item> \<^verbatim>\<open>Identifiers\<close> (\<^verbatim>\<open>identifiers.py\<close>): public ids, with their round trip.
  \<^item> \<^verbatim>\<open>Node_Types\<close>, \<^verbatim>\<open>Node_Data\<close>, \<^verbatim>\<open>Node_Rules\<close> (\<^verbatim>\<open>nodes.py\<close>): the data with the checks of its
    constructors, and the module functions: validation of names and URLs, eligibility, fingerprints,
    idempotency keys, the bounded search for a port.
  \<^item> \<^verbatim>\<open>Node_Store\<close>, \<^verbatim>\<open>Port_Store\<close>, \<^verbatim>\<open>Camera_Store\<close>, \<^verbatim>\<open>Move_Store\<close>: the commands of \<^verbatim>\<open>InMemoryNodeStore\<close>.
  \<^item> \<^verbatim>\<open>Store_Invariant\<close>, \<^verbatim>\<open>Store_Preservation\<close>, \<^verbatim>\<open>Port_Preservation\<close>: the invariant of the store and that
    every command keeps it; the locales of node and camera commands carry the common part.
    \<^verbatim>\<open>Store_Machine\<close> turns the commands into a step relation; a reachable store is one that arises from
    a well-formed list of nodes by any sequence of commands, provided the ids given to the creating
    commands are new. \<^verbatim>\<open>Store_Examples\<close> holds the concrete stores of the witnesses.
  \<^item> \<^verbatim>\<open>Store_Properties\<close>, \<^verbatim>\<open>Move_Properties\<close>, \<^verbatim>\<open>Registration_Properties\<close>, \<^verbatim>\<open>Blast_Radius\<close>: unique ports,
    exact camera counts, placement, moves (safety, completion, abortion), registration at most once
    per idempotency key, the ports of new nodes, and the text behind a blast radius.
  \<^item> \<^verbatim>\<open>Control_Monad\<close>, \<^verbatim>\<open>Node_Control\<close>, \<^verbatim>\<open>Node_Disruption\<close>, \<^verbatim>\<open>Node_Provisioning\<close>: \<^verbatim>\<open>NodeControl\<close>, that is
    lifecycle commands, previews, confirmations, fences, change of port with its rollback, registration,
    automatic capacity and recovery after a restart. \<^verbatim>\<open>Camera_Control\<close>: \<^verbatim>\<open>CameraControl\<close>.
  \<^item> \<^verbatim>\<open>Control_Relations\<close>, \<^verbatim>\<open>Control_Reachability\<close>, \<^verbatim>\<open>Control_Machine\<close>, \<^verbatim>\<open>Port_Change_Control\<close>: what the
    operations keep, proved once for any relation in locales that list what such a relation must
    allow, and interpreted for the slots, for reachability, for the other nodes and for the whole store.
    \<^verbatim>\<open>Control_Properties\<close>: the control plane refines the store machine, never leaks a slot, is isolated
    per node, does nothing without confirmation, and ends a change of port on the old port or the new one.
  \<^item> \<^verbatim>\<open>Camera_Secrets\<close> (\<^verbatim>\<open>camera_secrets.py\<close>), \<^verbatim>\<open>Credential_Roundtrip\<close>, \<^verbatim>\<open>Source_Urls\<close>,
    \<^verbatim>\<open>Camera_Properties\<close>: credentials in source URLs, their round trip through percent encoding and
    UTF-8, and that they stay out of summaries and survive edits. \<^verbatim>\<open>Secret_Cipher\<close>, \<^verbatim>\<open>Cipher_Properties\<close>: the cipher and
    its key file; what is sealed for a camera opens for that camera only, also after a rotation of the keys.
  \<^item> \<^verbatim>\<open>Outcomes\<close>: what an action does when the collaborators it calls work. \<^verbatim>\<open>Reconcile\<close>, \<^verbatim>\<open>Move_Reconcile\<close>
    (\<^verbatim>\<open>reconcile.py\<close>, \<^verbatim>\<open>media.py\<close>): the three reconcilers. \<^verbatim>\<open>Reconcile_Laws\<close> states what the media nodes promise,
    \<^verbatim>\<open>Reconcile_Convergence\<close> and \<^verbatim>\<open>Move_Convergence\<close> prove progress from it, \<^verbatim>\<open>Reconcile_Safety\<close> what holds
    whatever they answer; \<^verbatim>\<open>Media_Examples\<close> is a concrete fleet. \<^verbatim>\<open>Reconcile_Properties\<close>: the reconcilers
    refine the store machine, converge, acknowledge and switch nothing unverified, complete and abort moves.
  \<^item> \<^verbatim>\<open>Json\<close>, \<^verbatim>\<open>Json_Roundtrip\<close>, \<^verbatim>\<open>Base64\<close>: the encoders and decoders of the standard library.
    \<^verbatim>\<open>Confirmation_Tokens\<close>: the token service, and \<^verbatim>\<open>Token_Properties\<close>: a token confirms the claim it
    was issued for until it expires, and nothing else. \<^verbatim>\<open>Confirmed_Disruption\<close>: the same for the operations of
    \<^verbatim>\<open>NodeControl\<close> wired to the service.
  \<^item> \<^verbatim>\<open>Camera_Mutation\<close>, \<^verbatim>\<open>Mutation_Properties\<close>: the observer of readers and the controls for moves and
    mutations; what a requested move was confirmed for, that a camera is changed only after its path was seen
    quiesced, and what a refused confirmation leaves behind.
  \<^item> \<^verbatim>\<open>Ip_Networks\<close>, \<^verbatim>\<open>Network_Laws\<close>, \<^verbatim>\<open>Network_Text\<close>: the networks of \<^verbatim>\<open>ipaddress\<close>, their text and the merging of
    adjacent ones. \<^verbatim>\<open>Access_Policy\<close>, \<^verbatim>\<open>Access_Data\<close>, \<^verbatim>\<open>Pepper_Verifier\<close>, \<^verbatim>\<open>Access_Limiter\<close>, \<^verbatim>\<open>Access_Authorizer\<close>,
    \<^verbatim>\<open>Access_Control\<close> (\<^verbatim>\<open>access.py\<close>): policies, grants, decisions and their telemetry, the keys and their file, the
    limiter, the authorizer and the two controls. \<^verbatim>\<open>Policy_Properties\<close>: a policy permits what was written in it.
    \<^verbatim>\<open>Limiter_Laws\<close>, \<^verbatim>\<open>Limiter_Properties\<close>: the rate of every key is bounded, by a locale of metered steps that the
    bucket is an instance of, also when buckets are pushed out and made anew, as long as the keys in use fit; pending requests are counted exactly under every interleaving.
    \<^verbatim>\<open>Authorizer_Properties\<close>: what lets a reader in, that an issued grant does when the limiter lets the request through, that the place in the limiter is
    given back, and what a rotation hands to the store. \<^verbatim>\<open>Callback_Properties\<close>: the header of a node is accepted for
    that node. \<^verbatim>\<open>Telemetry_Properties\<close>: the telemetry refines the list of all decisions.
  \<^item> \<^verbatim>\<open>Probe_Endpoint\<close> (\<^verbatim>\<open>probe_security.py\<close>): refused addresses, sources, the resolver and the admission.
    \<^verbatim>\<open>Probe_Properties\<close>: which addresses are refused, that an admitted endpoint is what its source was resolved to and
    lies inside the networks of the site, that it is restored without another resolution, what network an operator
    may add, and that the hashed text of a policy determines it. \<^verbatim>\<open>Admitted_Cameras\<close>: the same for a camera that
    \<^verbatim>\<open>CameraControl\<close> creates with this admission, also under an idempotency key. \<^verbatim>\<open>Probe_Input\<close> (\<^verbatim>\<open>probe_executor.py\<close>), \<^verbatim>\<open>Input_Properties\<close>: the input of a
    probe is read back as it was written, nothing else is read, and it is settled which inputs can be written but are
    not read.
  \<^item> \<^verbatim>\<open>Store_Typing\<close>: the records of a reachable store satisfy the validators of their fields.

  \<^bold>\<open>Bounds.\<close> The search for a port has as many rounds as candidates, as in the source; that this is
  enough is part of its theorem. The wait for the release of a port makes the 21 probes of the source.
  All other functions are total by structural recursion. The wait of \<^verbatim>\<open>reconcile_guard\<close> takes the list
  of answers of the cancellation test and of the lock. The parser of JSON takes twice the length of its
  input as fuel, since every nested call follows a character that was read; that this is enough for every
  text the encoder writes is part of its round trip.

  \<^bold>\<open>Not modelled.\<close> The PostgreSQL stores (\<^verbatim>\<open>database.py\<close>, \<^verbatim>\<open>observability.py\<close>) are SQL text that a database
  server executes; the in-memory store has the same interface. The HTTP application and its pages
  (\<^verbatim>\<open>app.py\<close>, the dashboards) render and route; the node runtime, the probe processes and the release
  tooling work on processes, sockets, systemd and files. The operator sessions rest on external
  cryptography. Concurrency inside one process is modelled at the grain of store commands, which the
  lock of the store makes atomic. HMAC and SHA-256 are parameters, and so are the stores
  of grants and policies, which are SQL. AES-GCM is a parameter of the cipher of camera sources, with a tag that is never forged.
  The rates of the limiter are exact, which a \<^verbatim>\<open>float\<close> is up to 2^53. A JSON text nested too deep for the stack of Python is
  read like any other, and an input of a probe with characters above 255 is refused.
  The store command for a desired state is taken with the value \<^verbatim>\<open>RUNNING\<close>, the only one that is ever passed. Of \<^verbatim>\<open>probe_executor.py\<close> the sealed
  memory file is left out, which is kernel I/O. The \<^verbatim>\<open>getent\<close> process, the IDNA codec on text that is not ASCII and
  the order in which Python iterates a set are parameters of the admission. The checks of \<^verbatim>\<open>access.py\<close> for a missing time
  zone have no counterpart, since a \<^verbatim>\<open>datetime\<close> is a number.
\<close>

end
